(* ===== verification/Rva_Prelude.thy ===== *)
theory Rva_Prelude
  imports Complex_Main "HOL-Library.Word" "HOL-Library.AList"
begin

text \<open>
  Shared vocabulary of the development: results of fallible Python code, Python dictionaries as
  insertion-ordered association lists, bounded integers, big-endian byte strings and the JSON values
  that travel on the control connection, with the generic lemmas the component theories rest on.
\<close>

unbundle bit_operations_syntax

named_theorems rva_ops \<open>unfolding rules of the modelled operations\<close>
named_theorems rva_inv \<open>preservation lemmas for component invariants\<close>

section \<open>Results\<close>

text \<open>
  A method that may raise returns \<open>Inl\<close> of the exception or \<open>Inr\<close> of its value. A method that also
  mutates its object takes the object and returns the result paired with the object as it is left,
  also when an exception is raised.
\<close>

type_synonym ('e, 'a) result = "'e + 'a"
type_synonym ('e, 'a, 's) op_result = "('e + 'a) \<times> 's"

definition bind_result :: "'e + 'a \<Rightarrow> ('a \<Rightarrow> 'e + 'b) \<Rightarrow> 'e + 'b" where
  "bind_result r k = (case r of Inl e \<Rightarrow> Inl e | Inr a \<Rightarrow> k a)"

lemma bind_result_simps [simp]:
  "bind_result (Inl e) k = Inl e"
  "bind_result (Inr a) k = k a"
  by (simp_all add: bind_result_def)

lemma bind_result_Inr_iff:
  "bind_result r k = Inr b \<longleftrightarrow> (\<exists>a. r = Inr a \<and> k a = Inr b)"
  by (cases r) auto

lemma bind_result_Inl_iff:
  "bind_result r k = Inl e \<longleftrightarrow> r = Inl e \<or> (\<exists>a. r = Inr a \<and> k a = Inl e)"
  by (cases r) auto

definition check_that :: "bool \<Rightarrow> 'e \<Rightarrow> 'e + unit" where
  "check_that b e = (if b then Inr () else Inl e)"

lemma check_that_iff [simp]:
  "check_that b e = Inr u \<longleftrightarrow> b"
  "check_that b e = Inl e' \<longleftrightarrow> \<not> b \<and> e' = e"
  by (auto simp: check_that_def)

definition isOk :: "'e + 'a \<Rightarrow> bool" where
  "isOk r = (case r of Inl _ \<Rightarrow> False | Inr _ \<Rightarrow> True)"

lemma isOk_simps [simp]: "\<not> isOk (Inl e)" "isOk (Inr a)"
  by (simp_all add: isOk_def)

lemma isOk_iff: "isOk r \<longleftrightarrow> (\<exists>a. r = Inr a)"
  by (cases r) auto

text \<open>Sequencing of methods that raise and mutate: the next one runs on the object as the first left it.\<close>

definition bind_op :: "('e, 'a, 's) op_result \<Rightarrow> ('a \<Rightarrow> 's \<Rightarrow> ('e, 'b, 's) op_result) \<Rightarrow> ('e, 'b, 's) op_result" where
  "bind_op m k = (case m of (Inl e, s) \<Rightarrow> (Inl e, s) | (Inr a, s) \<Rightarrow> k a s)"

lemma bind_op_simps [simp]:
  "bind_op (Inl e, s) k = (Inl e, s)"
  "bind_op (Inr a, s) k = k a s"
  by (simp_all add: bind_op_def)

lemma bind_op_Inr_iff:
  "bind_op m k = (Inr b, s') \<longleftrightarrow> (\<exists>a s. m = (Inr a, s) \<and> k a s = (Inr b, s'))"
  by (cases m; cases "fst m") auto

lemma bind_op_Inl_iff:
  "bind_op m k = (Inl e, s') \<longleftrightarrow> m = (Inl e, s') \<or> (\<exists>a s. m = (Inr a, s) \<and> k a s = (Inl e, s'))"
  by (cases m; cases "fst m") auto

text \<open>
  A small calculus for properties of the object that a method keeps, also when it raises: one rule per
  construct the methods are built from.
\<close>

definition keeps :: "('s \<Rightarrow> bool) \<Rightarrow> 'r \<times> 's \<Rightarrow> bool" where
  "keeps P m \<longleftrightarrow> P (snd m)"

lemma keeps_pair: "P s \<Longrightarrow> keeps P (r, s)"
  by (simp add: keeps_def)

lemma keeps_check: "P s \<Longrightarrow> (\<And>a. r = Inr a \<Longrightarrow> keeps P (k a s)) \<Longrightarrow> keeps P (bind_op (r, s) k)"
  by (cases r) (auto simp: keeps_def)

lemma keeps_bind:
  "keeps P m \<Longrightarrow> (\<And>a s. m = (Inr a, s) \<Longrightarrow> P s \<Longrightarrow> keeps P (k a s)) \<Longrightarrow> keeps P (bind_op m k)"
  by (cases m; cases "fst m") (auto simp: keeps_def)

lemma keeps_if: "(c \<Longrightarrow> keeps P m) \<Longrightarrow> (\<not> c \<Longrightarrow> keeps P m') \<Longrightarrow> keeps P (if c then m else m')"
  by simp

lemma keeps_let: "keeps P (f x) \<Longrightarrow> keeps P (Let x f)"
  by simp

lemma keeps_option:
  "(x = None \<Longrightarrow> keeps P m) \<Longrightarrow> (\<And>a. x = Some a \<Longrightarrow> keeps P (f a)) \<Longrightarrow> keeps P (case x of None \<Rightarrow> m | Some a \<Rightarrow> f a)"
  by (cases x) simp_all

lemma keeps_sum:
  "(\<And>a. x = Inl a \<Longrightarrow> keeps P (f a)) \<Longrightarrow> (\<And>a. x = Inr a \<Longrightarrow> keeps P (g a)) \<Longrightarrow>
    keeps P (case x of Inl a \<Rightarrow> f a | Inr a \<Rightarrow> g a)"
  by (cases x) simp_all

lemma keeps_prod: "(\<And>a b. x = (a, b) \<Longrightarrow> keeps P (f a b)) \<Longrightarrow> keeps P (case x of (a, b) \<Rightarrow> f a b)"
  by (cases x) simp

lemma keeps_prod_app:
  "(\<And>a b. x = (a, b) \<Longrightarrow> keeps P (f a b s)) \<Longrightarrow> keeps P ((case x of (a, b) \<Rightarrow> f a b) s)"
  by (cases x) simp

lemmas keeps_rules = keeps_pair keeps_check keeps_if keeps_let keeps_option keeps_sum keeps_prod keeps_prod_app

text \<open>A method called once per input: the results of the calls that return, and the object at the end.\<close>

fun run_all :: "('x \<Rightarrow> 's \<Rightarrow> ('e, 'a, 's) op_result) \<Rightarrow> 'x list \<Rightarrow> 's \<Rightarrow> 'a list \<times> 's" where
  "run_all f [] s = ([], s)"
| "run_all f (x # xs) s = (case f x s of
      (Inl e, s') \<Rightarrow> run_all f xs s'
    | (Inr a, s') \<Rightarrow> (let (as, s'') = run_all f xs s' in (a # as, s'')))"

lemma run_all_counter:
  assumes step: "\<And>x s. case f x s of (Inl e, s') \<Rightarrow> cnt s' = cnt s | (Inr a, s') \<Rightarrow> num a = cnt s \<and> cnt s' = cnt s + 1"
  shows "map num (fst (run_all f xs s)) = [cnt s..cnt s + int (length (fst (run_all f xs s))) - 1] \<and>
    cnt (snd (run_all f xs s)) = (cnt s :: int) + int (length (fst (run_all f xs s)))"
proof (induction xs arbitrary: s)
  case (Cons x xs)
  obtain r s' where fx: "f x s = (r, s')" by fastforce
  obtain as s'' where rest: "run_all f xs s' = (as, s'')" by fastforce
  show ?case
  proof (cases r)
    case (Inl e)
    then show ?thesis using Cons.IH [of s'] step [where x = x and s = s] fx by simp
  next
    case (Inr a)
    then show ?thesis
      using Cons.IH [of s'] step [where x = x and s = s] fx rest by (simp add: upto_rec1 ac_simps)
  qed
qed simp

lemma run_all_list_all:
  assumes "\<And>x s a s'. f x s = (Inr a, s') \<Longrightarrow> P a"
  shows "list_all P (fst (run_all f xs s))"
proof (induction xs arbitrary: s)
  case (Cons x xs)
  obtain r s' where fx: "f x s = (r, s')" by fastforce
  then show ?case using Cons.IH [of s'] assms by (cases r) (auto simp: case_prod_beta Let_def)
qed simp

section \<open>Dictionaries\<close>

text \<open>
  A Python \<open>dict\<close> keeps the insertion order of its keys: overwriting a key keeps its position, a new
  key is added at the end. \<^const>\<open>AList.update\<close> and \<^const>\<open>AList.delete\<close> do exactly that.
\<close>

type_synonym ('k, 'v) dict = "('k \<times> 'v) list"

abbreviation dict_get :: "('k, 'v) dict \<Rightarrow> 'k \<Rightarrow> 'v option" where
  "dict_get d k \<equiv> map_of d k"

abbreviation dict_set :: "'k \<Rightarrow> 'v \<Rightarrow> ('k, 'v) dict \<Rightarrow> ('k, 'v) dict" where
  "dict_set k v d \<equiv> AList.update k v d"

abbreviation dict_pop :: "'k \<Rightarrow> ('k, 'v) dict \<Rightarrow> ('k, 'v) dict" where
  "dict_pop k d \<equiv> AList.delete k d"

abbreviation dict_keys :: "('k, 'v) dict \<Rightarrow> 'k list" where
  "dict_keys d \<equiv> map fst d"

abbreviation dict_values :: "('k, 'v) dict \<Rightarrow> 'v list" where
  "dict_values d \<equiv> map snd d"

abbreviation dict_wf :: "('k, 'v) dict \<Rightarrow> bool" where
  "dict_wf d \<equiv> distinct (map fst d)"

lemma dict_get_set [simp]: "dict_get (dict_set k v d) k' = (if k' = k then Some v else dict_get d k')"
  by (simp add: update_conv')

lemma dict_get_pop [simp]: "dict_get (dict_pop k d) k' = (if k' = k then None else dict_get d k')"
  by (simp add: delete_conv)

lemma dict_wf_set [simp, intro]: "dict_wf d \<Longrightarrow> dict_wf (dict_set k v d)"
  by (rule distinct_update)

lemma dict_wf_pop [simp, intro]: "dict_wf d \<Longrightarrow> dict_wf (dict_pop k d)"
  by (rule distinct_delete)

lemma dict_wf_filter [simp, intro]: "dict_wf d \<Longrightarrow> dict_wf (filter P d)"
  by (rule distinct_map_filter)

lemma dict_get_filter:
  "dict_wf d \<Longrightarrow> dict_get (filter (\<lambda>(k, v). P k v) d) k =
     (case dict_get d k of None \<Rightarrow> None | Some v \<Rightarrow> if P k v then Some v else None)"
proof (induction d)
  case Nil
  then show ?case by simp
next
  case (Cons kv d)
  obtain k' v' where kv: "kv = (k', v')" by force
  have "k' = k \<Longrightarrow> dict_get d k = None"
    using Cons.prems kv by (auto simp: map_of_eq_None_iff)
  then show ?case
    using Cons kv by (auto split: option.splits)
qed

lemma dict_set_keys: "set (dict_keys (dict_set k v d)) = insert k (set (dict_keys d))"
  by (induction d) auto

lemma dict_set_mem: "dict_wf d \<Longrightarrow> x \<in> set (dict_set k v d) \<longleftrightarrow> x = (k, v) \<or> (x \<in> set d \<and> fst x \<noteq> k)"
  by (induction d) force+

lemma dict_pop_mem: "x \<in> set (dict_pop k d) \<longleftrightarrow> x \<in> set d \<and> fst x \<noteq> k"
  by (auto simp: AList.delete_eq)

lemma dict_mem_get: "dict_wf d \<Longrightarrow> (k, v) \<in> set d \<longleftrightarrow> dict_get d k = Some v"
  by simp

lemma length_dict_set:
  "length (dict_set k v d) = (if k \<in> set (dict_keys d) then length d else Suc (length d))"
  by (induction d) auto

lemma dict_set_new: "k \<notin> set (dict_keys d) \<Longrightarrow> dict_set k v d = d @ [(k, v)]"
  by (induction d) auto

lemma length_dict_pop_le: "length (dict_pop k d) \<le> length d"
  by (rule length_delete_le)

lemma dict_pop_notin: "k \<notin> set (dict_keys d) \<Longrightarrow> dict_pop k d = d"
  by (induction d) auto

section \<open>Bounded integers\<close>

text \<open>Python integers are unbounded; a field of the wire is an \<open>int\<close> in the \<open>uint32\<close> range.\<close>

definition uint32_max :: int where
  "uint32_max = 0xFFFFFFFF"

definition is_uint32 :: "int \<Rightarrow> bool" where
  "is_uint32 n \<longleftrightarrow> 0 \<le> n \<and> n \<le> uint32_max"

text \<open>\<open>n & 0xFFFFFFFF\<close> on a Python integer of either sign.\<close>

definition mask32 :: "int \<Rightarrow> int" where
  "mask32 n = n AND uint32_max"

lemma mask32_mod: "mask32 n = n mod 2 ^ 32"
proof -
  have "uint32_max = mask 32"
    by (simp add: uint32_max_def mask_eq_exp_minus_1)
  then have "mask32 n = take_bit 32 n"
    by (simp add: mask32_def take_bit_eq_mask)
  then show ?thesis by (simp add: take_bit_eq_mod)
qed

lemma mask32_range [simp]: "0 \<le> mask32 n" "mask32 n \<le> uint32_max" "is_uint32 (mask32 n)"
  using pos_mod_bound [of "2 ^ 32" n] by (simp_all add: mask32_mod uint32_max_def is_uint32_def)

lemma mask32_id: "is_uint32 n \<Longrightarrow> mask32 n = n"
  by (simp add: is_uint32_def mask32_mod uint32_max_def)

section \<open>Bytes and big-endian integers\<close>

type_synonym byte = "8 word"
type_synonym bytes = "8 word list"

definition be32 :: "int \<Rightarrow> bytes" where
  "be32 n = [word_of_int (n div 256 div 256 div 256), word_of_int (n div 256 div 256),
             word_of_int (n div 256), word_of_int n]"

definition of_be32 :: "bytes \<Rightarrow> int" where
  "of_be32 bs = foldl (\<lambda>acc b. acc * 256 + uint b) 0 (take 4 bs)"

lemma length_be32 [simp]: "length (be32 n) = 4"
  by (simp add: be32_def)

lemma of_be32_append [simp]: "of_be32 (be32 n @ bs) = of_be32 (be32 n)"
  by (simp add: of_be32_def)

lemma uint_byte_bound: "0 \<le> uint (w :: byte)" "uint (w :: byte) < 256"
  using uint_bounded [of w] by simp_all

lemma word_of_int_byte: "x mod 256 = uint w \<Longrightarrow> word_of_int x = (w :: byte)"
  by (intro word_uint_eqI) (simp add: uint_word_of_int)

lemma byte_push:
  "(x * 256 + uint (w :: byte)) div 256 = x" "(x * 256 + uint w) mod 256 = uint w"
  using uint_byte_bound [of w] by simp_all

lemma four_bytes:
  assumes "length (bs :: bytes) = 4"
  obtains a b c d where "bs = [a, b, c, d]"
  using assms by (auto simp: numeral_eq_Suc length_Suc_conv)

lemma of_be32_be32: "is_uint32 n \<Longrightarrow> of_be32 (be32 n) = n"
proof -
  assume n: "is_uint32 n"
  have "n div 256 div 256 div 256 = n div (256 * 256 * 256)"
    by (simp only: zdiv_zmult2_eq [symmetric] zero_le_numeral mult.assoc)
  also have "0 \<le> \<dots> \<and> \<dots> < 256"
    using n by (auto simp: is_uint32_def uint32_max_def)
  finally have top: "n div 256 div 256 div 256 mod 256 = n div 256 div 256 div 256"
    by simp
  have "of_be32 (be32 n) =
      (((n div 256 div 256 div 256) mod 256 * 256 + (n div 256 div 256) mod 256) * 256
        + (n div 256) mod 256) * 256 + n mod 256"
    by (simp add: of_be32_def be32_def uint_word_of_int del: zdiv_zmult2_eq)
  also have "\<dots> = n"
    by (simp only: top div_mult_mod_eq)
  finally show ?thesis .
qed

lemma of_be32_range: "length bs = 4 \<Longrightarrow> is_uint32 (of_be32 bs)"
proof (erule four_bytes)
  fix a b c d assume bs: "bs = [a, b, c, d]"
  show ?thesis
    using uint_byte_bound [of a] uint_byte_bound [of b] uint_byte_bound [of c] uint_byte_bound [of d]
    by (simp add: bs of_be32_def is_uint32_def uint32_max_def)
qed

lemma be32_of_be32: "length bs = 4 \<Longrightarrow> be32 (of_be32 bs) = bs"
proof (erule four_bytes)
  fix a b c d assume bs: "bs = [a, b, c, d]"
  have val: "of_be32 bs = ((uint a * 256 + uint b) * 256 + uint c) * 256 + uint d"
    by (simp add: bs of_be32_def)
  have "word_of_int (x * 256 + uint w) = w" for x and w :: byte
    by (rule word_of_int_byte) (rule byte_push)
  moreover have "word_of_int (uint a) = a" by simp
  ultimately show ?thesis
    unfolding be32_def val byte_push by (simp only: bs)
qed

text \<open>\<open>bytes.hex()\<close>.\<close>

definition hex_digit :: "nat \<Rightarrow> char" where
  "hex_digit n = (if n < 10 then char_of (48 + n) else char_of (87 + n))"

definition hex_of :: "bytes \<Rightarrow> string" where
  "hex_of bs = concat (map (\<lambda>b. [hex_digit (unat b div 16), hex_digit (unat b mod 16)]) bs)"

end
