(* ===== verification/Json_Values.thy ===== *)
theory Json_Values
  imports Rva_Prelude
begin

text \<open>
  The values \<open>json.loads\<close> returns and the Python operations the control code applies to them: equality
  with the numeric tower (\<open>True == 1 == 1.0\<close>), membership in a set (which raises \<open>TypeError\<close> on a list
  or a dict), the length of \<open>json.dumps(..., ensure_ascii=False, separators=(",", ":"))\<close>, and the
  control text itself, represented by its UTF-8 length and by what the JSON reader makes of it.
\<close>

text \<open>
  A \<open>string\<close> is the UTF-8 encoding of a Python \<open>str\<close>; \<open>JSurrogate\<close> stands for a \<open>str\<close> with a lone
  surrogate, which has no encoding. \<open>JFloat\<close> carries the text \<open>repr\<close> gives and the value.
\<close>

datatype json =
    JNull
  | JBool bool
  | JInt int
  | JFloat string real
  | JStr string
  | JSurrogate
  | JList "json list"
  | JObj "(string \<times> json) list"

type_synonym json_dict = "(string \<times> json) list"

section \<open>Python operations\<close>

fun num_of :: "json \<Rightarrow> real option" where
  "num_of (JBool b) = Some (if b then 1 else 0)"
| "num_of (JInt n) = Some (of_int n)"
| "num_of (JFloat _ r) = Some r"
| "num_of _ = None"

text \<open>\<open>v == n\<close> for an integer constant.\<close>

definition eq_int :: "json \<Rightarrow> int \<Rightarrow> bool" where
  "eq_int v n \<longleftrightarrow> num_of v = Some (of_int n)"

text \<open>\<open>v in {...}\<close> for a set of strings: \<open>None\<close> is the \<open>TypeError\<close> of an unhashable value.\<close>

fun in_str_set :: "json \<Rightarrow> string list \<Rightarrow> bool option" where
  "in_str_set (JList _) S = None"
| "in_str_set (JObj _) S = None"
| "in_str_set (JStr s) S = Some (s \<in> set S)"
| "in_str_set _ S = Some False"

text \<open>\<open>d == {"k": c, ...}\<close> for a dict and a constant dict of strings and integers.\<close>

fun eq_const :: "json \<Rightarrow> json \<Rightarrow> bool" where
  "eq_const v (JStr s) \<longleftrightarrow> v = JStr s"
| "eq_const v (JInt n) \<longleftrightarrow> eq_int v n"
| "eq_const v c \<longleftrightarrow> v = c"

definition eq_const_dict :: "json \<Rightarrow> json_dict \<Rightarrow> bool" where
  "eq_const_dict v c = (case v of
      JObj d \<Rightarrow> set (dict_keys d) = set (dict_keys c) \<and>
        list_all (\<lambda>(k, x). case dict_get d k of None \<Rightarrow> False | Some y \<Rightarrow> eq_const y x) c
    | _ \<Rightarrow> False)"

section \<open>Serialised length\<close>

definition escaped_len :: "char \<Rightarrow> nat" where
  "escaped_len c =
    (if c \<in> {CHR 0x22, CHR 0x5C, CHR 0x0A, CHR 0x0D, CHR 0x09, CHR 0x08, CHR 0x0C} then 2
     else if of_char c < (0x20 :: nat) then 6 else 1)"

definition str_len :: "string \<Rightarrow> nat" where
  "str_len s = 2 + sum_list (map escaped_len s)"

fun dec_len :: "nat \<Rightarrow> nat" where
  "dec_len n = (if n < 10 then 1 else Suc (dec_len (n div 10)))"

declare dec_len.simps [simp del]

definition int_len :: "int \<Rightarrow> nat" where
  "int_len n = (if n < 0 then Suc (dec_len (nat (- n))) else dec_len (nat n))"

text \<open>Separators: \<open>n\<close> items are joined by \<open>n - 1\<close> commas between two brackets.\<close>

definition bracket_len :: "nat \<Rightarrow> nat" where
  "bracket_len n = 2 + (n - 1)"

fun json_len :: "json \<Rightarrow> nat" where
  "json_len JNull = 4"
| "json_len (JBool b) = (if b then 4 else 5)"
| "json_len (JInt n) = int_len n"
| "json_len (JFloat t _) = length t"
| "json_len (JStr s) = str_len s"
| "json_len JSurrogate = 0"
| "json_len (JList vs) = bracket_len (length vs) + sum_list (map json_len vs)"
| "json_len (JObj d) = bracket_len (length d) + sum_list (map (\<lambda>(k, v). str_len k + 1 + json_len v) d)"

fun has_surrogate :: "json \<Rightarrow> bool" where
  "has_surrogate JSurrogate = True"
| "has_surrogate (JList vs) = list_ex has_surrogate vs"
| "has_surrogate (JObj d) = list_ex (\<lambda>(_, v). has_surrogate v) d"
| "has_surrogate _ = False"

fun json_unique :: "json \<Rightarrow> bool" where
  "json_unique (JList vs) = list_all json_unique vs"
| "json_unique (JObj d) = (list_all (\<lambda>(_, v). json_unique v) d \<and> distinct (map fst d))"
| "json_unique _ = True"

section \<open>Control text\<close>

text \<open>
  \<open>Json v\<close>: the text is JSON and reads as \<open>v\<close>, whose objects keep repeated keys. \<open>NotJson dup\<close>: it is
  not JSON, and \<open>dup\<close> tells that an object with a repeated key is complete before the error.
  \<open>ReaderRaises\<close>: the reader gives up with an exception that is neither \<open>JSONDecodeError\<close> nor
  \<open>UnicodeError\<close> (\<open>RecursionError\<close> on deep nesting, \<open>ValueError\<close> on an integer of too many digits).
\<close>

datatype json_text = Json json | NotJson bool | ReaderRaises

record wire_text =
  wt_utf8 :: "nat option"
  wt_json :: json_text

definition text_of :: "json \<Rightarrow> wire_text" where
  "text_of v = \<lparr>wt_utf8 = (if has_surrogate v then None else Some (json_len v)), wt_json = Json v\<rparr>"

lemma dec_len_pos: "0 < dec_len n"
  by (subst dec_len.simps) simp

lemma in_str_set_Some_True: "in_str_set v S = Some True \<longleftrightarrow> (\<exists>s. v = JStr s \<and> s \<in> set S)"
  by (cases v) auto

lemma in_str_set_None: "in_str_set v S = None \<longleftrightarrow> (\<exists>x. v = JList x) \<or> (\<exists>x. v = JObj x)"
  by (cases v) auto

lemma eq_int_JInt [simp]: "eq_int (JInt a) b \<longleftrightarrow> a = b"
  by (simp add: eq_int_def)

end
