(* ===== verification/Media_Header.thy ===== *)
theory Media_Header
  imports Rva_Prelude
begin

text \<open>
  The 32-byte media header \<open>struct.Struct(">2sBB8sIIIII")\<close> that the WSS frame, the UDP packet and the
  desktop client share, as Python's \<open>struct\<close> packs and unpacks it, and the interface of a media codec:
  an encoder and a decoder that are inverse to each other on the frames the encoder accepts.
\<close>

record media_header =
  h_magic :: bytes
  h_version :: int
  h_flags :: int
  h_media_id :: bytes
  h_epoch :: int
  h_sequence :: int
  h_timestamp :: int
  h_generation :: int
  h_length :: int

definition header_bytes :: nat where
  "header_bytes = 32"

definition pad_bytes :: "nat \<Rightarrow> bytes \<Rightarrow> bytes" where
  \<comment> \<open>the format \<open>ns\<close> truncates or fills with zero bytes\<close>
  "pad_bytes n bs = take n (bs @ replicate n 0)"

definition is_byte :: "int \<Rightarrow> bool" where
  "is_byte n \<longleftrightarrow> 0 \<le> n \<and> n \<le> 255"

definition header_in_range :: "media_header \<Rightarrow> bool" where
  "header_in_range h \<longleftrightarrow> is_byte (h_version h) \<and> is_byte (h_flags h) \<and> is_uint32 (h_epoch h) \<and>
     is_uint32 (h_sequence h) \<and> is_uint32 (h_timestamp h) \<and> is_uint32 (h_generation h) \<and>
     is_uint32 (h_length h)"

definition header_wire :: "media_header \<Rightarrow> bytes" where
  "header_wire h = pad_bytes 2 (h_magic h) @ [word_of_int (h_version h), word_of_int (h_flags h)] @
     pad_bytes 8 (h_media_id h) @ be32 (h_epoch h) @ be32 (h_sequence h) @ be32 (h_timestamp h) @
     be32 (h_generation h) @ be32 (h_length h)"

text \<open>\<open>pack\<close> raises \<open>struct.error\<close> (here \<open>None\<close>) when an integer does not fit its field.\<close>

definition header_pack :: "media_header \<Rightarrow> bytes option" where
  "header_pack h = (if header_in_range h then Some (header_wire h) else None)"

text \<open>\<open>unpack_from\<close>, called on at least 32 bytes only.\<close>

definition header_unpack :: "bytes \<Rightarrow> media_header" where
  "header_unpack bs =
    \<lparr>h_magic = take 2 bs, h_version = uint (bs ! 2), h_flags = uint (bs ! 3),
     h_media_id = take 8 (drop 4 bs), h_epoch = of_be32 (drop 12 bs),
     h_sequence = of_be32 (drop 16 bs), h_timestamp = of_be32 (drop 20 bs),
     h_generation = of_be32 (drop 24 bs), h_length = of_be32 (drop 28 bs)\<rparr>"

definition header_wf :: "media_header \<Rightarrow> bool" where
  "header_wf h \<longleftrightarrow> header_in_range h \<and> length (h_magic h) = 2 \<and> length (h_media_id h) = 8"

lemma pad_bytes_id [simp]: "length bs = n \<Longrightarrow> pad_bytes n bs = bs"
  by (simp add: pad_bytes_def)

lemma length_pad_bytes [simp]: "length (pad_bytes n bs) = n"
  by (simp add: pad_bytes_def)

lemma length_header_wire [simp]: "length (header_wire h) = 32"
  by (simp add: header_wire_def)

lemma of_be32_take: "length bs \<ge> 4 \<Longrightarrow> of_be32 bs = of_be32 (take 4 bs)"
  by (simp add: of_be32_def)

lemma uint_word_byte: "is_byte n \<Longrightarrow> uint (word_of_int n :: byte) = n"
  by (simp add: is_byte_def uint_word_of_int)

lemma header_unpack_wire:
  assumes "header_wf h"
  shows "header_unpack (header_wire h @ rest) = h"
proof -
  obtain m0 m1 where m: "h_magic h = [m0, m1]"
    using assms by (auto simp: header_wf_def numeral_2_eq_2 length_Suc_conv)
  have l8: "length (h_media_id h) = 8" using assms by (simp add: header_wf_def)
  have r: "is_byte (h_version h)" "is_byte (h_flags h)" "is_uint32 (h_epoch h)"
    "is_uint32 (h_sequence h)" "is_uint32 (h_timestamp h)" "is_uint32 (h_generation h)"
    "is_uint32 (h_length h)"
    using assms by (auto simp: header_wf_def header_in_range_def)
  show ?thesis
    by (rule media_header.equality)
      (simp_all add: header_unpack_def header_wire_def m l8 r of_be32_be32 uint_word_byte)
qed

lemma header_unpack_wf: "32 \<le> length bs \<Longrightarrow> header_wf (header_unpack bs)"
proof -
  assume l: "32 \<le> length bs"
  have "is_uint32 (of_be32 (drop n bs))" if "n \<le> 28" for n
    using of_be32_take [of "drop n bs"] of_be32_range [of "take 4 (drop n bs)"] l that by simp
  moreover have "is_byte (uint w)" for w :: byte
    using uint_byte_bound [of w] by (simp add: is_byte_def)
  ultimately show ?thesis
    using l by (simp add: header_wf_def header_in_range_def header_unpack_def)
qed

lemma take_split: "m \<le> n \<Longrightarrow> take n xs = take m xs @ take (n - m) (drop m xs)"
  using take_add [of m "n - m" xs] by simp

lemma header_wire_unpack: "32 \<le> length bs \<Longrightarrow> header_wire (header_unpack bs) = take 32 bs"
proof -
  assume l: "32 \<le> length bs"
  have be: "be32 (of_be32 (drop n bs)) = take 4 (drop n bs)" if "n \<le> 28" for n
    using of_be32_take [of "drop n bs"] be32_of_be32 [of "take 4 (drop n bs)"] l that by simp
  have nth: "[bs ! 2, bs ! 3] = take 2 (drop 2 bs)"
    using l by (intro nth_equalityI) (auto simp: less_Suc_eq numeral_2_eq_2 numeral_3_eq_3)
  have "take 32 bs = take 2 bs @ take 2 (drop 2 bs) @ take 8 (drop 4 bs) @
      take 4 (drop 12 bs) @ take 4 (drop 16 bs) @ take 4 (drop 20 bs) @ take 4 (drop 24 bs) @
      take 4 (drop 28 bs)"
    using take_split [of 2 32 bs] take_split [of 2 30 "drop 2 bs"]
      take_split [of 8 28 "drop 4 bs"] take_split [of 4 20 "drop 12 bs"]
      take_split [of 4 16 "drop 16 bs"] take_split [of 4 12 "drop 20 bs"]
      take_split [of 4 8 "drop 24 bs"]
    by simp
  then show ?thesis
    using l nth by (simp add: header_wire_def header_unpack_def be)
qed

lemma header_unpack_eq_wire:
  assumes "32 \<le> length bs" and "header_unpack bs = h"
  shows "bs = header_wire h @ drop 32 bs"
  using header_wire_unpack [OF assms(1)] assms(2) by (metis append_take_drop_id)

section \<open>The contract of a media codec\<close>

locale media_codec =
  fixes valid :: "'f \<Rightarrow> bool"
    and encode :: "'f \<Rightarrow> 'e + bytes"
    and decode :: "bytes \<Rightarrow> 'e + 'f"
  assumes encode_valid: "valid f \<longleftrightarrow> isOk (encode f)"
    and decode_encode: "encode f = Inr w \<Longrightarrow> decode w = Inr f"
    and encode_decode: "decode w = Inr f \<Longrightarrow> encode f = Inr w"
begin

lemma decode_valid: "decode w = Inr f \<Longrightarrow> valid f"
  using encode_decode encode_valid by (simp add: isOk_iff)

lemma encode_inj: "encode f = Inr w \<Longrightarrow> encode g = Inr w \<Longrightarrow> f = g"
  by (drule decode_encode)+ simp

lemma decode_inj: "decode w = Inr f \<Longrightarrow> decode v = Inr f \<Longrightarrow> w = v"
  by (drule encode_decode)+ simp

lemma roundtrip: "valid f \<Longrightarrow> \<exists>w. encode f = Inr w \<and> decode w = Inr f"
  using encode_valid decode_encode by (auto simp: isOk_iff)

end

end
