(* ===== verification/Rva_Protocol.thy ===== *)
theory Rva_Protocol
  imports Json_Values Media_Header
begin

text \<open>
  The wire primitives of the worker, \<open>bindings/rva/protocol.py\<close>: the typed WSS media frame, the control
  text codec with its size limit and its rejection of repeated keys, and the strict parser of
  \<open>session.open\<close>. The media frame is an instance of the codec contract of \<open>Media_Header\<close>.
\<close>

section \<open>Errors\<close>

text \<open>
  The exceptions the binding layer can raise. \<open>RvaMessageTooLarge\<close> is the subclass of
  \<open>RvaBindingError\<close> with the code \<open>message_too_large\<close>; \<open>PyTypeError\<close> is Python's own error for an
  unhashable value in a set membership test, \<open>PyReaderError\<close> an exception of the JSON reader that
  \<open>decode_control\<close> does not translate; the last two come from \<open>voice/session.py\<close>.
\<close>

datatype binding_error =
    RvaBindingError string
  | RvaMessageTooLarge
  | PyTypeError
  | PyReaderError
  | SessionClosedError
  | PlaybackAlreadyActiveError

definition invalid_field :: "string \<Rightarrow> binding_error" where
  "invalid_field name = RvaBindingError (''invalid_'' @ name)"

section \<open>Constants\<close>

definition CONTROL_VERSION :: int where "CONTROL_VERSION = 1"
definition CONTROL_MAX_BYTES :: nat where "CONTROL_MAX_BYTES = 32768"
definition WSS_PROFILE :: string where "WSS_PROFILE = ''wss-opus/1''"
definition UDP_PROFILE :: string where "UDP_PROFILE = ''udp-opus-gcm/1''"
definition SUPPORTED_PROFILES :: "string list" where
  "SUPPORTED_PROFILES = [WSS_PROFILE, UDP_PROFILE]"
definition MEDIA_MAGIC :: bytes where "MEDIA_MAGIC = [0x56, 0x41]"
definition MEDIA_WIRE_VERSION :: int where "MEDIA_WIRE_VERSION = 1"
definition MEDIA_FLAG_AUDIO :: int where "MEDIA_FLAG_AUDIO = 1"
definition MEDIA_HEADER_BYTES :: nat where "MEDIA_HEADER_BYTES = 32"
definition MEDIA_MAX_PAYLOAD_BYTES :: nat where "MEDIA_MAX_PAYLOAD_BYTES = 1200"
definition MEDIA_MAX_FRAME_BYTES :: nat where
  "MEDIA_MAX_FRAME_BYTES = MEDIA_HEADER_BYTES + MEDIA_MAX_PAYLOAD_BYTES"

lemmas media_consts = MEDIA_MAGIC_def MEDIA_WIRE_VERSION_def MEDIA_FLAG_AUDIO_def
  MEDIA_HEADER_BYTES_def MEDIA_MAX_PAYLOAD_BYTES_def MEDIA_MAX_FRAME_BYTES_def

section \<open>Media frames\<close>

record wss_media_frame =
  fr_media_id :: bytes
  fr_media_epoch :: int
  fr_sequence :: int
  fr_timestamp :: int
  fr_generation :: int
  fr_payload :: bytes

definition validate_uint32 :: "string \<Rightarrow> int \<Rightarrow> int \<Rightarrow> binding_error + unit" where
  "validate_uint32 name value minimum =
    check_that (minimum \<le> value \<and> value \<le> uint32_max) (invalid_field name)"

definition frame_header :: "int \<Rightarrow> wss_media_frame \<Rightarrow> media_header" where
  "frame_header flags f =
    \<lparr>h_magic = MEDIA_MAGIC, h_version = MEDIA_WIRE_VERSION, h_flags = flags,
     h_media_id = fr_media_id f, h_epoch = fr_media_epoch f, h_sequence = fr_sequence f,
     h_timestamp = fr_timestamp f, h_generation = fr_generation f,
     h_length = int (length (fr_payload f))\<rparr>"

text \<open>
  \<open>serialize\<close> with its \<open>flags\<close> argument, in the order of its checks. After them the packed integers are
  in range, so \<open>struct.pack\<close> cannot raise (lemma \<open>frame_header_in_range\<close>).
\<close>

definition serialize_flags :: "int \<Rightarrow> wss_media_frame \<Rightarrow> binding_error + bytes" where
  "serialize_flags flags f =
    bind_result (validate_uint32 ''media_epoch'' (fr_media_epoch f) 1) (\<lambda>_.
    bind_result (validate_uint32 ''sequence'' (fr_sequence f) 0) (\<lambda>_.
    bind_result (validate_uint32 ''timestamp'' (fr_timestamp f) 0) (\<lambda>_.
    bind_result (validate_uint32 ''generation'' (fr_generation f) 0) (\<lambda>_.
    if length (fr_media_id f) \<noteq> 8 then Inl (RvaBindingError ''invalid_media_id'')
    else if flags \<noteq> MEDIA_FLAG_AUDIO then Inl (RvaBindingError ''invalid_media_flags'')
    else if fr_payload f = [] \<or> MEDIA_MAX_PAYLOAD_BYTES < length (fr_payload f)
      then Inl (RvaBindingError ''invalid_media_payload'')
    else Inr (header_wire (frame_header flags f) @ fr_payload f)))))"

definition serialize :: "wss_media_frame \<Rightarrow> binding_error + bytes" where
  "serialize f = serialize_flags MEDIA_FLAG_AUDIO f"

definition parse :: "bytes \<Rightarrow> binding_error + wss_media_frame" where
  "parse frame =
    (if MEDIA_MAX_FRAME_BYTES < length frame then Inl (RvaBindingError ''media_frame_too_large'')
     else if length frame < MEDIA_HEADER_BYTES then Inl (RvaBindingError ''truncated_media_header'')
     else
       let h = header_unpack frame; body = drop MEDIA_HEADER_BYTES frame
       in if h_magic h \<noteq> MEDIA_MAGIC \<or> h_version h \<noteq> MEDIA_WIRE_VERSION
            then Inl (RvaBindingError ''unsupported_media_header'')
          else if h_flags h \<noteq> MEDIA_FLAG_AUDIO then Inl (RvaBindingError ''invalid_media_flags'')
          else if h_length h \<noteq> int (length body) then Inl (RvaBindingError ''media_length_mismatch'')
          else if h_epoch h = 0 then Inl (RvaBindingError ''invalid_media_epoch'')
          else if body = [] \<or> int MEDIA_MAX_PAYLOAD_BYTES < h_length h
            then Inl (RvaBindingError ''invalid_media_payload'')
          else Inr \<lparr>fr_media_id = h_media_id h, fr_media_epoch = h_epoch h, fr_sequence = h_sequence h,
                    fr_timestamp = h_timestamp h, fr_generation = h_generation h, fr_payload = body\<rparr>)"

section \<open>Control text\<close>

text \<open>The object hook \<open>_unique_object\<close> raises on the first repeated key of any object.\<close>

definition decode_control :: "wire_text \<Rightarrow> binding_error + json_dict" where
  "decode_control raw = (case wt_utf8 raw of
      None \<Rightarrow> Inl (RvaBindingError ''invalid_utf8'')
    | Some n \<Rightarrow>
        if CONTROL_MAX_BYTES < n then Inl RvaMessageTooLarge
        else (case wt_json raw of
            NotJson dup \<Rightarrow>
              Inl (RvaBindingError (if dup then ''duplicate_json_key'' else ''invalid_json''))
          | ReaderRaises \<Rightarrow> Inl PyReaderError
          | Json v \<Rightarrow>
              if \<not> json_unique v then Inl (RvaBindingError ''duplicate_json_key'')
              else (case v of JObj d \<Rightarrow> Inr d
                | _ \<Rightarrow> Inl (RvaBindingError ''control_message_must_be_object''))))"

definition encode_control :: "json_dict \<Rightarrow> binding_error + wire_text" where
  "encode_control message =
    (let t = text_of (JObj message) in case wt_utf8 t of
      None \<Rightarrow> Inl (RvaBindingError ''invalid_utf8'')
    | Some n \<Rightarrow> if CONTROL_MAX_BYTES < n then Inl RvaMessageTooLarge else Inr t)"

section \<open>Field checks\<close>

definition ident_char :: "char \<Rightarrow> bool" where
  "ident_char c \<longleftrightarrow>
    (let n = of_char c :: nat in
      (65 \<le> n \<and> n \<le> 90) \<or> (97 \<le> n \<and> n \<le> 122) \<or> (48 \<le> n \<and> n \<le> 57) \<or>
      c \<in> {CHR ''.'', CHR ''_'', CHR '':'', CHR ''-''})"

definition is_identifier :: "string \<Rightarrow> bool" where
  "is_identifier s \<longleftrightarrow> 1 \<le> length s \<and> length s \<le> 128 \<and> list_all ident_char s"

text \<open>\<open>message.get(k)\<close>, and \<open>message[k]\<close> once the key is known to be there.\<close>

definition jget :: "json_dict \<Rightarrow> string \<Rightarrow> json" where
  "jget m k = (case dict_get m k of None \<Rightarrow> JNull | Some v \<Rightarrow> v)"

definition require_identifier :: "json \<Rightarrow> string \<Rightarrow> binding_error + string" where
  "require_identifier value name = (case value of
      JStr s \<Rightarrow> if is_identifier s then Inr s else Inl (invalid_field name)
    | _ \<Rightarrow> Inl (invalid_field name))"

definition require_uint32 :: "json \<Rightarrow> string \<Rightarrow> int \<Rightarrow> binding_error + int" where
  "require_uint32 value name minimum = (case value of
      JInt n \<Rightarrow> bind_result (validate_uint32 name n minimum) (\<lambda>_. Inr n)
    | _ \<Rightarrow> Inl (invalid_field name))"

definition require_exact_fields :: "json_dict \<Rightarrow> string list \<Rightarrow> binding_error + unit" where
  "require_exact_fields message required =
    (if set (dict_keys message) = set required then Inr ()
     else if set required - set (dict_keys message) \<noteq> {} then Inl (RvaBindingError ''missing_field'')
     else Inl (RvaBindingError ''unknown_field''))"

definition AUDIO_PROFILE :: json_dict where
  "AUDIO_PROFILE = [(''codec'', JStr ''opus''), (''sample_rate_hz'', JInt 16000),
     (''channels'', JInt 1), (''frame_duration_ms'', JInt 60)]"

definition validate_audio :: "json \<Rightarrow> binding_error + unit" where
  "validate_audio value =
    check_that (eq_const_dict value AUDIO_PROFILE) (RvaBindingError ''unsupported_audio_profile'')"

definition CAPABILITIES :: "string list" where
  "CAPABILITIES = [''aec'', ''vad'', ''wake_word'', ''display'', ''touch'']"

fun json_bools :: "json_dict \<Rightarrow> (string \<times> bool) list option" where
  "json_bools [] = Some []"
| "json_bools ((k, v) # d) = (case v of
      JBool b \<Rightarrow> map_option ((#) (k, b)) (json_bools d)
    | _ \<Rightarrow> None)"

definition validate_capabilities :: "json \<Rightarrow> binding_error + (string \<times> bool) list" where
  "validate_capabilities value = (case value of
      JObj d \<Rightarrow>
        if \<not> list_all (\<lambda>k. k \<in> set CAPABILITIES) (dict_keys d)
          then Inl (RvaBindingError ''invalid_capabilities'')
        else (case json_bools d of
            None \<Rightarrow> Inl (RvaBindingError ''invalid_capabilities'')
          | Some bs \<Rightarrow> Inr bs)
    | _ \<Rightarrow> Inl (RvaBindingError ''invalid_capabilities''))"

section \<open>session.open\<close>

record session_open =
  so_request_id :: string
  so_device_id :: string
  so_supported_media_profiles :: "string list"
  so_preferred_media_profile :: string
  so_capabilities :: "(string \<times> bool) list"

definition SESSION_OPEN_FIELDS :: "string list" where
  "SESSION_OPEN_FIELDS = [''type'', ''protocol_version'', ''request_id'', ''device_id'',
     ''supported_media_profiles'', ''preferred_media_profile'', ''audio'', ''capabilities'']"

fun json_strs :: "json list \<Rightarrow> string list option" where
  "json_strs [] = Some []"
| "json_strs (v # vs) = (case v of
      JStr s \<Rightarrow> map_option ((#) s) (json_strs vs)
    | _ \<Rightarrow> None)"

definition parse_profiles :: "json \<Rightarrow> binding_error + string list" where
  "parse_profiles value = (case value of
      JList vs \<Rightarrow>
        if \<not> (1 \<le> length vs \<and> length vs \<le> 2) then Inl (RvaBindingError ''invalid_media_profiles'')
        else (case json_strs vs of
            None \<Rightarrow> Inl (RvaBindingError ''unsupported_media_profile'')
          | Some ps \<Rightarrow>
              if \<not> list_all (\<lambda>p. p \<in> set SUPPORTED_PROFILES) ps
                then Inl (RvaBindingError ''unsupported_media_profile'')
              else if \<not> distinct ps then Inl (RvaBindingError ''duplicate_media_profile'')
              else Inr ps)
    | _ \<Rightarrow> Inl (RvaBindingError ''invalid_media_profiles''))"

definition parse_session_open_object :: "json_dict \<Rightarrow> binding_error + session_open" where
  "parse_session_open_object message =
    bind_result (require_exact_fields message SESSION_OPEN_FIELDS) (\<lambda>_.
    if jget message ''type'' \<noteq> JStr ''session.open'' then Inl (RvaBindingError ''expected_session_open'')
    else if jget message ''protocol_version'' \<noteq> JInt CONTROL_VERSION
      then Inl (RvaBindingError ''unsupported_version'')
    else
    bind_result (require_identifier (jget message ''request_id'') ''request_id'') (\<lambda>request_id.
    bind_result (require_identifier (jget message ''device_id'') ''device_id'') (\<lambda>device_id.
    bind_result (parse_profiles (jget message ''supported_media_profiles'')) (\<lambda>profiles.
    bind_result (case jget message ''preferred_media_profile'' of
        JStr p \<Rightarrow> if p \<in> set profiles then Inr p else Inl (RvaBindingError ''unsupported_preference'')
      | _ \<Rightarrow> Inl (RvaBindingError ''unsupported_preference'')) (\<lambda>preferred.
    bind_result (validate_audio (jget message ''audio'')) (\<lambda>_.
    bind_result (validate_capabilities (jget message ''capabilities'')) (\<lambda>caps.
    Inr \<lparr>so_request_id = request_id, so_device_id = device_id,
         so_supported_media_profiles = profiles, so_preferred_media_profile = preferred,
         so_capabilities = caps\<rparr>)))))))"

definition parse_session_open :: "wire_text \<Rightarrow> binding_error + session_open" where
  "parse_session_open raw = bind_result (decode_control raw) parse_session_open_object"

section \<open>The media frame is a codec\<close>

definition frame_valid :: "wss_media_frame \<Rightarrow> bool" where
  "frame_valid f \<longleftrightarrow> 1 \<le> fr_media_epoch f \<and> fr_media_epoch f \<le> uint32_max \<and> is_uint32 (fr_sequence f) \<and>
     is_uint32 (fr_timestamp f) \<and> is_uint32 (fr_generation f) \<and> length (fr_media_id f) = 8 \<and>
     fr_payload f \<noteq> [] \<and> length (fr_payload f) \<le> MEDIA_MAX_PAYLOAD_BYTES"

lemma serialize_eq: "serialize f = Inr w \<longleftrightarrow> frame_valid f \<and> w = header_wire (frame_header 1 f) @ fr_payload f"
  by (auto simp: serialize_def serialize_flags_def frame_valid_def bind_result_Inr_iff validate_uint32_def
      is_uint32_def MEDIA_FLAG_AUDIO_def split: if_splits)

lemma frame_header_wf: "frame_valid f \<Longrightarrow> header_wf (frame_header 1 f)"
  by (auto simp: frame_valid_def header_wf_def header_in_range_def frame_header_def media_consts
      is_byte_def is_uint32_def uint32_max_def)

lemma frame_header_in_range: "serialize f = Inr w \<Longrightarrow> header_pack (frame_header 1 f) \<noteq> None"
  using frame_header_wf by (auto simp: serialize_eq header_pack_def header_wf_def)

lemma parse_eq:
  "parse w = Inr f \<longleftrightarrow> frame_valid f \<and> w = header_wire (frame_header 1 f) @ fr_payload f"
proof
  assume "frame_valid f \<and> w = header_wire (frame_header 1 f) @ fr_payload f"
  then show "parse w = Inr f"
    using header_unpack_wire [OF frame_header_wf, of f "fr_payload f"]
    by (auto simp: parse_def media_consts frame_valid_def frame_header_def)
next
  assume p: "parse w = Inr f"
  then have l: "32 \<le> length w"
    by (auto simp: parse_def media_consts split: if_splits)
  have h: "header_unpack w = frame_header 1 f \<and> fr_payload f = drop 32 w \<and> fr_payload f \<noteq> [] \<and>
      fr_media_epoch f \<noteq> 0 \<and> length (fr_payload f) \<le> 1200"
    using p by (auto simp: parse_def Let_def media_consts frame_header_def split: if_splits
        intro: media_header.equality)
  have "header_wf (frame_header 1 f)"
    using header_unpack_wf [OF l] h by simp
  then have "frame_valid f"
    using h by (auto simp: frame_valid_def header_wf_def header_in_range_def frame_header_def
        media_consts is_uint32_def)
  then show "frame_valid f \<and> w = header_wire (frame_header 1 f) @ fr_payload f"
    using header_unpack_eq_wire [OF l] h by metis
qed

interpretation wss_frame: media_codec frame_valid serialize parse
  by unfold_locales (auto simp: isOk_iff serialize_eq parse_eq)

section \<open>Control text round trip\<close>

lemma decode_encode_control:
  assumes "encode_control m = Inr t" and "json_unique (JObj m)"
  shows "decode_control t = Inr m"
  using assms by (auto simp: encode_control_def decode_control_def text_of_def Let_def
      split: option.splits if_splits)

lemma require_identifier_Inr:
  "require_identifier v n = Inr s \<longleftrightarrow> v = JStr s \<and> is_identifier s"
  by (auto simp: require_identifier_def split: json.splits)

lemma require_uint32_Inr:
  "require_uint32 v n m = Inr i \<longleftrightarrow> v = JInt i \<and> m \<le> i \<and> i \<le> uint32_max"
  by (auto simp: require_uint32_def validate_uint32_def bind_result_Inr_iff split: json.splits)

lemma require_exact_fields_Inr:
  "require_exact_fields m fs = Inr u \<longleftrightarrow> set (dict_keys m) = set fs"
  by (auto simp: require_exact_fields_def)

lemma parse_profiles_Inr:
  "parse_profiles v = Inr ps \<Longrightarrow>
     ps \<noteq> [] \<and> distinct ps \<and> set ps \<subseteq> set SUPPORTED_PROFILES"
proof -
  assume p: "parse_profiles v = Inr ps"
  have len: "json_strs vs = Some qs \<Longrightarrow> length qs = length vs" for vs qs
    by (induction vs arbitrary: qs) (auto split: json.splits)
  show ?thesis
    using p len by (fastforce simp: parse_profiles_def list_all_iff split: json.splits if_splits option.splits)
qed

end
