(* ===== verification/Lifecycle.thy ===== *)
theory Lifecycle
  imports Rva_Prelude
begin

text \<open>
  Bounded execution of owned coroutines, \<open>realtime_worker/lifecycle.py\<close>. A task is described by what the
  event loop can observe of it: after how many seconds it finishes by itself and how it ends, and how long
  it needs to finish once it is cancelled, if it ever does. The functions return, besides their Python
  result, the seconds the caller waited.
\<close>

datatype 'a task_end = Finished 'a | Failed

record 'a task =
  t_id :: nat
  t_runs_for :: "real option"
  t_end :: "'a task_end"
  t_cancel_delay :: "real option"

text \<open>\<open>_DETACHED_TASKS\<close>: the unfinished shutdown tasks kept referenced.\<close>

type_synonym detached = "nat list"

definition DEFAULT_REAP_SECONDS :: real where
  "DEFAULT_REAP_SECONDS = 5 / 100"

definition retain_shutdown_task :: "nat \<Rightarrow> detached \<Rightarrow> detached" where
  "retain_shutdown_task t ds = (if t \<in> set ds then ds else ds @ [t])"

text \<open>The done callback \<open>consume\<close>.\<close>

definition consume_detached :: "nat \<Rightarrow> detached \<Rightarrow> detached" where
  "consume_detached t ds = removeAll t ds"

definition detached_shutdown_task_count :: "detached \<Rightarrow> nat" where
  "detached_shutdown_task_count ds = length ds"

text \<open>\<open>asyncio.wait({task}, timeout)\<close> returns at once when the task is done in time.\<close>

definition waits :: "real option \<Rightarrow> real \<Rightarrow> bool \<times> real" where
  "waits d timeout = (case d of
      None \<Rightarrow> (False, timeout)
    | Some s \<Rightarrow> if s \<le> timeout then (True, s) else (False, timeout))"

text \<open>The result tells whether the task was reaped.\<close>

definition cancel_and_reap :: "'a task \<Rightarrow> real \<Rightarrow> detached \<Rightarrow> bool \<times> real \<times> detached" where
  "cancel_and_reap task reap_timeout ds =
    (let (reaped, waited) = waits (t_cancel_delay task) (max 0 reap_timeout)
     in if reaped then (True, waited, ds)
        else (False, waited, retain_shutdown_task (t_id task) ds))"

datatype 'a deadline_result = Completed "'a task_end" | NotCompleted

definition run_with_hard_deadline ::
    "'a task \<Rightarrow> real \<Rightarrow> real \<Rightarrow> detached \<Rightarrow> 'a deadline_result \<times> real \<times> detached" where
  "run_with_hard_deadline task timeout reap_timeout ds =
    (let total_timeout = max 0 timeout;
         reap_budget = min (max 0 reap_timeout) (total_timeout / 2);
         operation_budget = max 0 (total_timeout - reap_budget);
         (done, waited) = waits (t_runs_for task) operation_budget
     in if done then (Completed (t_end task), waited, ds)
        else (let (reaped, reap_waited, ds') = cancel_and_reap task reap_budget ds
              in (NotCompleted, waited + reap_waited, ds')))"

section \<open>Bounds\<close>

definition task_wf :: "'a task \<Rightarrow> bool" where
  "task_wf t \<longleftrightarrow> (\<forall>s. t_runs_for t = Some s \<longrightarrow> 0 \<le> s) \<and> (\<forall>s. t_cancel_delay t = Some s \<longrightarrow> 0 \<le> s)"

lemma waits_bound:
  assumes "\<forall>s. d = Some s \<longrightarrow> 0 \<le> s" "0 \<le> timeout"
  shows "0 \<le> snd (waits d timeout)" "snd (waits d timeout) \<le> timeout"
  using assms by (auto simp: waits_def split: option.splits)

lemma cancel_and_reap_bound:
  "task_wf task \<Longrightarrow> 0 \<le> t \<Longrightarrow> fst (snd (cancel_and_reap task t ds)) \<le> t"
  using waits_bound [of "t_cancel_delay task" t]
  by (auto simp: cancel_and_reap_def task_wf_def split: prod.splits)

lemma deadline_split:
  "0 \<le> (T :: real) \<Longrightarrow> 0 \<le> R \<Longrightarrow> 0 \<le> min R (T / 2) \<and> max 0 (T - min R (T / 2)) + min R (T / 2) = T"
  by (auto simp: max_def min_def)

lemma deadline_bound:
  assumes "task_wf task"
  shows "fst (snd (run_with_hard_deadline task timeout reap ds)) \<le> max 0 timeout"
proof -
  define reap_budget where "reap_budget = min (max 0 reap) (max 0 timeout / 2)"
  define op_budget where "op_budget = max 0 (max 0 timeout - reap_budget)"
  have split: "0 \<le> reap_budget" "op_budget + reap_budget = max 0 timeout"
    unfolding op_budget_def reap_budget_def using deadline_split [of "max 0 timeout" "max 0 reap"] by simp_all
  have "0 \<le> op_budget" by (simp add: op_budget_def)
  then have "snd (waits (t_runs_for task) op_budget) \<le> op_budget"
    using assms by (intro waits_bound) (auto simp: task_wf_def)
  moreover have "fst (snd (cancel_and_reap task reap_budget ds)) \<le> reap_budget"
    using cancel_and_reap_bound [OF assms split(1)] .
  moreover have "fst (snd (run_with_hard_deadline task timeout reap ds)) =
      (if fst (waits (t_runs_for task) op_budget) then snd (waits (t_runs_for task) op_budget)
       else snd (waits (t_runs_for task) op_budget) + fst (snd (cancel_and_reap task reap_budget ds)))"
    by (simp add: run_with_hard_deadline_def Let_def reap_budget_def op_budget_def case_prod_beta)
  ultimately show ?thesis
    using split by (simp split: if_splits)
qed

lemma retain_distinct: "distinct ds \<Longrightarrow> distinct (retain_shutdown_task t ds)"
  by (simp add: retain_shutdown_task_def)

lemma deadline_detached:
  "snd (snd (run_with_hard_deadline task timeout reap ds)) = ds \<or>
   (fst (run_with_hard_deadline task timeout reap ds) = NotCompleted \<and>
    snd (snd (run_with_hard_deadline task timeout reap ds)) = retain_shutdown_task (t_id task) ds)"
  by (auto simp: run_with_hard_deadline_def cancel_and_reap_def Let_def split: prod.splits)

end
