(* ===== verification/Voice_Session.thy ===== *)
theory Voice_Session
  imports Rva_Protocol Lifecycle
begin

text \<open>
  Ownership of one realtime voice connection, \<open>realtime_worker/voice/session.py\<close>: one playback at a time,
  a generation that fences every callback of an earlier playback, and an idempotent close that closes the
  owned ports in reverse order. The transitions run under one lock without suspending, so each is atomic.
\<close>

record playback_ref =
  pr_connection_epoch :: string
  pr_generation :: int

datatype cancel_disposition = APPLIED | STALE_TARGET | SESSION_CLOSED

text \<open>Why closing a port failed; the group of them is what \<open>_close_impl\<close> raises.\<close>

datatype port_error = PortTimeout | PortRaised

record voice_session =
  vs_connection_epoch :: string
  vs_close_ports :: "string list"
  vs_close_stage_timeout :: real
  vs_generation :: int
  vs_active_playback :: "playback_ref option"
  vs_closed :: bool
  vs_close_task :: "(port_error list + unit) option"

text \<open>
  The constructor; \<open>fresh\<close> stands for \<open>uuid.uuid4().hex\<close>. \<open>None\<close> is the \<open>ValueError\<close> of a timeout that is
  not positive.
\<close>

definition voice_session_init :: "string list \<Rightarrow> string option \<Rightarrow> real \<Rightarrow> string \<Rightarrow> voice_session option" where
  "voice_session_init close_ports connection_epoch close_stage_timeout fresh =
    (let epoch = (case connection_epoch of
           Some e \<Rightarrow> if e = [] then ''conn_'' @ fresh else e
         | None \<Rightarrow> ''conn_'' @ fresh)
     in if close_stage_timeout \<le> 0 then None
        else Some \<lparr>vs_connection_epoch = epoch, vs_close_ports = close_ports,
                   vs_close_stage_timeout = close_stage_timeout, vs_generation = 0,
                   vs_active_playback = None, vs_closed = False, vs_close_task = None\<rparr>)"

definition begin_playback :: "voice_session \<Rightarrow> (binding_error + playback_ref) \<times> voice_session" where
  "begin_playback s =
    (if vs_closed s then (Inl SessionClosedError, s)
     else if vs_active_playback s \<noteq> None then (Inl PlaybackAlreadyActiveError, s)
     else
       let g = vs_generation s + 1;
           playback = \<lparr>pr_connection_epoch = vs_connection_epoch s, pr_generation = g\<rparr>
       in (Inr playback, s\<lparr>vs_generation := g, vs_active_playback := Some playback\<rparr>))"

definition accepts_callback :: "voice_session \<Rightarrow> playback_ref \<Rightarrow> bool" where
  "accepts_callback s playback \<longleftrightarrow> \<not> vs_closed s \<and> Some playback = vs_active_playback s"

definition accept_callback :: "voice_session \<Rightarrow> playback_ref \<Rightarrow> (unit \<Rightarrow> 'a) \<Rightarrow> 'a option" where
  "accept_callback s playback callback =
    (if \<not> accepts_callback s playback then None else Some (callback ()))"

definition finish_playback :: "playback_ref \<Rightarrow> voice_session \<Rightarrow> bool \<times> voice_session" where
  "finish_playback target s =
    (if vs_closed s \<or> Some target \<noteq> vs_active_playback s then (False, s)
     else (True, s\<lparr>vs_active_playback := None\<rparr>))"

definition cancel_playback :: "playback_ref \<Rightarrow> voice_session \<Rightarrow> cancel_disposition \<times> voice_session" where
  "cancel_playback target s =
    (if vs_closed s then (SESSION_CLOSED, s)
     else if Some target \<noteq> vs_active_playback s then (STALE_TARGET, s)
     else (APPLIED, s\<lparr>vs_generation := vs_generation s + 1, vs_active_playback := None\<rparr>))"

text \<open>
  Closing the ports, last opened first, each under the hard deadline. \<open>run\<close> gives for a port the task its
  \<open>close()\<close> becomes; the result lists the failures in the order they occur.
\<close>

fun close_ports_from ::
    "(string \<Rightarrow> unit task) \<Rightarrow> real \<Rightarrow> string list \<Rightarrow> detached \<Rightarrow> port_error list \<times> real \<times> detached" where
  "close_ports_from run timeout [] ds = ([], 0, ds)"
| "close_ports_from run timeout (p # ps) ds =
    (let (r, waited, ds') = run_with_hard_deadline (run p) timeout DEFAULT_REAP_SECONDS ds;
         (errors, rest, ds'') = close_ports_from run timeout ps ds';
         here = (case r of NotCompleted \<Rightarrow> [PortTimeout] | Completed Failed \<Rightarrow> [PortRaised]
                   | Completed (Finished _) \<Rightarrow> [])
     in (here @ errors, waited + rest, ds''))"

definition close_impl ::
    "(string \<Rightarrow> unit task) \<Rightarrow> detached \<Rightarrow> voice_session \<Rightarrow>
      (port_error list + unit) \<times> voice_session \<times> real \<times> detached" where
  "close_impl run ds s =
    (if vs_closed s then (Inr (), s, 0, ds)
     else
       let s' = (case vs_active_playback s of
             None \<Rightarrow> s\<lparr>vs_closed := True\<rparr>
           | Some _ \<Rightarrow> s\<lparr>vs_closed := True, vs_generation := vs_generation s + 1,
                         vs_active_playback := None\<rparr>);
           (errors, waited, ds') = close_ports_from run (vs_close_stage_timeout s) (rev (vs_close_ports s)) ds
       in (if errors = [] then Inr () else Inl errors, s', waited, ds'))"

text \<open>\<open>close\<close> runs the cleanup once and gives every later caller the outcome of that one run.\<close>

definition voice_close ::
    "(string \<Rightarrow> unit task) \<Rightarrow> detached \<Rightarrow> voice_session \<Rightarrow>
      (port_error list + unit) \<times> voice_session \<times> real \<times> detached" where
  "voice_close run ds s = (case vs_close_task s of
      Some r \<Rightarrow> (r, s, 0, ds)
    | None \<Rightarrow>
        (let (r, s', waited, ds') = close_impl run ds s
         in (r, s'\<lparr>vs_close_task := Some r\<rparr>, waited, ds')))"

lemmas voice_ops = begin_playback_def accepts_callback_def finish_playback_def cancel_playback_def

section \<open>Invariant\<close>

definition voice_inv :: "voice_session \<Rightarrow> bool" where
  "voice_inv s \<longleftrightarrow> 0 \<le> vs_generation s \<and> vs_connection_epoch s \<noteq> [] \<and>
     (case vs_active_playback s of
        None \<Rightarrow> True
      | Some p \<Rightarrow> \<not> vs_closed s \<and> p = \<lparr>pr_connection_epoch = vs_connection_epoch s,
                                          pr_generation = vs_generation s\<rparr> \<and> 0 < vs_generation s)"

lemma voice_init_inv: "voice_session_init ports e t fresh = Some s \<Longrightarrow> voice_inv s"
  by (auto simp: voice_session_init_def voice_inv_def Let_def split: option.splits if_splits)

lemma begin_playback_inv: "voice_inv s \<Longrightarrow> voice_inv (snd (begin_playback s))"
  by (auto simp: begin_playback_def voice_inv_def Let_def)

lemma finish_playback_inv: "voice_inv s \<Longrightarrow> voice_inv (snd (finish_playback t s))"
  by (auto simp: finish_playback_def voice_inv_def split: option.splits)

lemma cancel_playback_inv: "voice_inv s \<Longrightarrow> voice_inv (snd (cancel_playback t s))"
  by (auto simp: cancel_playback_def voice_inv_def split: option.splits)

lemma voice_close_state:
  "voice_close run ds s = (r, s', w, ds') \<Longrightarrow>
     (s' = s \<and> vs_close_task s = Some r) \<or>
     (vs_close_task s = None \<and> vs_close_task s' = Some r \<and> vs_closed s' \<and>
      vs_connection_epoch s' = vs_connection_epoch s \<and>
      vs_generation s' = (if \<not> vs_closed s \<and> vs_active_playback s \<noteq> None
                          then vs_generation s + 1 else vs_generation s) \<and>
      vs_active_playback s' = (if vs_closed s then vs_active_playback s else None))"
  by (auto simp: voice_close_def close_impl_def Let_def split: option.splits prod.splits if_splits)

lemma voice_close_inv: "voice_inv s \<Longrightarrow> voice_inv (fst (snd (voice_close run ds s)))"
  by (cases "voice_close run ds s") (auto dest!: voice_close_state simp: voice_inv_def split: option.splits if_splits)

lemmas voice_session_inv [rva_inv] = begin_playback_inv finish_playback_inv cancel_playback_inv voice_close_inv

lemma close_ports_bound:
  assumes "\<forall>p \<in> set ps. task_wf (run p)" "0 \<le> timeout"
  shows "fst (snd (close_ports_from run timeout ps ds)) \<le> real (length ps) * timeout"
  using assms
proof (induction ps arbitrary: ds)
  case Nil
  then show ?case by simp
next
  case (Cons p ps)
  obtain r w ds1 where 1: "run_with_hard_deadline (run p) timeout DEFAULT_REAP_SECONDS ds = (r, w, ds1)"
    using prod_cases3 by blast
  obtain es v ds2 where 2: "close_ports_from run timeout ps ds1 = (es, v, ds2)"
    using prod_cases3 by blast
  have "w \<le> timeout"
    using deadline_bound [of "run p" timeout DEFAULT_REAP_SECONDS ds] Cons.prems 1 by simp
  moreover have "v \<le> real (length ps) * timeout"
    using Cons.IH [of ds1] Cons.prems 2 by simp
  ultimately show ?case
    by (simp add: 1 2 distrib_right)
qed

end
