(* ===== verification/Response_Coordinator.thy ===== *)
theory Response_Coordinator
  imports Voice_Session
begin

text \<open>
  The single owner of response identity, fencing and playback facts, \<open>bindings/rva/response.py\<close>. A
  \<open>ResponseRecord\<close> is a mutable object that \<open>_active\<close>, \<open>_playback\<close>, \<open>_records\<close> and the callers share, so
  the coordinator keeps an explicit store of records and every reference is an index into it; \<open>is\<close>
  compares the indices.
\<close>

datatype response_outcome = RCompleted | RCancelled | RFailed
datatype playback_outcome = PCompleted | PStopped | PFailed

record response_record =
  rr_response_id :: string
  rr_target :: playback_ref
  rr_producer_epoch :: int
  rr_first_media_sequence :: "int option"
  rr_last_media_sequence :: "int option"
  rr_outcome :: "response_outcome option"
  rr_error_code :: "string option"
  rr_stop_sent :: bool
  rr_playback_started :: bool
  rr_playback_ended :: bool

record playback_ended_fact =
  pe_record :: nat
  pe_outcome :: playback_outcome
  pe_played_samples :: int
  pe_last_media_sequence :: "int option"

type_synonym record_key = "string \<times> int"

record response_coordinator =
  rc_state :: voice_session
  rc_heap :: "response_record list"
  rc_active :: "nat option"
  rc_playback :: "nat option"
  rc_records :: "(record_key, nat) dict"
  rc_terminal_order :: "record_key list"

abbreviation stale_generation :: binding_error where
  "stale_generation \<equiv> RvaBindingError ''stale_generation''"

definition rec_at :: "response_coordinator \<Rightarrow> nat \<Rightarrow> response_record" where
  "rec_at c r = rc_heap c ! r"

definition set_rec :: "nat \<Rightarrow> response_record \<Rightarrow> response_coordinator \<Rightarrow> response_coordinator" where
  "set_rec r x c = c\<lparr>rc_heap := (rc_heap c)[r := x]\<rparr>"

definition record_key :: "response_record \<Rightarrow> record_key" where
  "record_key x = (rr_response_id x, pr_generation (rr_target x))"

definition coordinator_init :: "voice_session \<Rightarrow> response_coordinator" where
  "coordinator_init s = \<lparr>rc_state = s, rc_heap = [], rc_active = None, rc_playback = None,
     rc_records = [], rc_terminal_order = []\<rparr>"

definition coordinator_generation :: "response_coordinator \<Rightarrow> int" where
  "coordinator_generation c = vs_generation (rc_state c)"

definition coordinator_closed :: "response_coordinator \<Rightarrow> bool" where
  "coordinator_closed c = vs_closed (rc_state c)"

section \<open>Operations\<close>

definition response_begin ::
    "string \<Rightarrow> int \<Rightarrow> response_coordinator \<Rightarrow> (binding_error, nat \<times> bool, response_coordinator) op_result" where
  "response_begin response_id producer_epoch c = (case rc_active c of
      Some r \<Rightarrow>
        if rr_producer_epoch (rec_at c r) \<noteq> producer_epoch
          then (Inl (RvaBindingError ''response_already_active''), c)
        else (Inr (r, False), c)
    | None \<Rightarrow>
        if rc_playback c \<noteq> None then (Inl (RvaBindingError ''playback_already_active''), c)
        else (case begin_playback (rc_state c) of
            (Inl e, s) \<Rightarrow> (Inl e, c\<lparr>rc_state := s\<rparr>)
          | (Inr target, s) \<Rightarrow>
              (let r = length (rc_heap c);
                   x = \<lparr>rr_response_id = response_id, rr_target = target,
                        rr_producer_epoch = producer_epoch, rr_first_media_sequence = None,
                        rr_last_media_sequence = None, rr_outcome = None, rr_error_code = None,
                        rr_stop_sent = False, rr_playback_started = False,
                        rr_playback_ended = False\<rparr>
               in (Inr (r, True),
                   c\<lparr>rc_state := s, rc_heap := rc_heap c @ [x], rc_active := Some r,
                     rc_playback := Some r,
                     rc_records := dict_set (response_id, pr_generation target) r (rc_records c)\<rparr>))))"

definition response_accepts :: "response_coordinator \<Rightarrow> nat \<Rightarrow> bool" where
  "response_accepts c r \<longleftrightarrow>
    Some r = rc_active c \<and> accepts_callback (rc_state c) (rr_target (rec_at c r))"

definition note_media ::
    "nat \<Rightarrow> int \<Rightarrow> response_coordinator \<Rightarrow> (binding_error, unit, response_coordinator) op_result" where
  "note_media r n c =
    (if \<not> response_accepts c r then (Inl stale_generation, c)
     else
       let x = rec_at c r;
           x1 = (if rr_first_media_sequence x = None then x\<lparr>rr_first_media_sequence := Some n\<rparr> else x)
       in (Inr (), set_rec r (x1\<lparr>rr_last_media_sequence := Some n\<rparr>) c))"

text \<open>The trimming loop of \<open>_remember_terminal\<close>.\<close>

fun trim_terminal ::
    "response_record list \<Rightarrow> record_key list \<Rightarrow> (record_key, nat) dict \<Rightarrow>
      record_key list \<times> (record_key, nat) dict" where
  "trim_terminal heap [] records = ([], records)"
| "trim_terminal heap (old # order) records =
    (if length (old # order) > 32 then
       trim_terminal heap order
         (case dict_get records old of
            Some r \<Rightarrow> if rr_playback_ended (heap ! r) then dict_pop old records else records
          | None \<Rightarrow> records)
     else (old # order, records))"

definition remember_terminal :: "nat \<Rightarrow> response_coordinator \<Rightarrow> response_coordinator" where
  "remember_terminal r c =
    (let (order, records) = trim_terminal (rc_heap c)
           (rc_terminal_order c @ [record_key (rec_at c r)]) (rc_records c)
     in c\<lparr>rc_terminal_order := order, rc_records := records\<rparr>)"

definition response_complete ::
    "nat \<Rightarrow> response_coordinator \<Rightarrow> (binding_error, unit, response_coordinator) op_result" where
  "response_complete r c =
    (let x = rec_at c r
     in if rr_first_media_sequence x = None \<or> rr_last_media_sequence x = None
          then (Inl (RvaBindingError ''response_has_no_media''), c)
        else if Some r \<noteq> rc_active c \<or> Some r \<noteq> rc_playback c then (Inl stale_generation, c)
        else (Inr (), remember_terminal r
               (set_rec r (x\<lparr>rr_outcome := Some RCompleted\<rparr>) (c\<lparr>rc_active := None\<rparr>))))"

text \<open>The result is the fence generation of the \<open>ResponseFence\<close>.\<close>

definition response_fence ::
    "nat \<Rightarrow> response_outcome \<Rightarrow> string option \<Rightarrow> response_coordinator \<Rightarrow>
      (binding_error, int, response_coordinator) op_result" where
  "response_fence r outcome error_code c =
    (let x = rec_at c r
     in if Some r \<noteq> rc_playback c \<or> rr_stop_sent x then (Inl stale_generation, c)
        else
          let (disposition, s) = cancel_playback (rr_target x) (rc_state c);
              c1 = c\<lparr>rc_state := s\<rparr>
          in if disposition \<noteq> APPLIED then (Inl stale_generation, c1)
             else
               let active = (Some r = rc_active c);
                   x1 = (if active then x\<lparr>rr_outcome := Some outcome, rr_error_code := error_code\<rparr> else x);
                   c2 = (if active then c1\<lparr>rc_active := None\<rparr> else c1);
                   c3 = remember_terminal r (set_rec r (x1\<lparr>rr_stop_sent := True\<rparr>) c2)
               in (Inr (vs_generation s), c3))"

definition find_record :: "response_coordinator \<Rightarrow> string \<Rightarrow> int \<Rightarrow> binding_error + nat" where
  "find_record c response_id g = (case dict_get (rc_records c) (response_id, g) of
      None \<Rightarrow> Inl stale_generation
    | Some r \<Rightarrow> Inr r)"

definition response_playback_started ::
    "string \<Rightarrow> int \<Rightarrow> int \<Rightarrow> response_coordinator \<Rightarrow> (binding_error, nat, response_coordinator) op_result" where
  "response_playback_started response_id g first_media_sequence c =
    (case find_record c response_id g of
      Inl e \<Rightarrow> (Inl e, c)
    | Inr r \<Rightarrow>
        (let x = rec_at c r
         in if rr_playback_started x \<or> rr_playback_ended x
              then (Inl (RvaBindingError ''duplicate_playback_started''), c)
            else (case (rr_first_media_sequence x, rr_last_media_sequence x) of
                (Some lo, Some hi) \<Rightarrow>
                  if \<not> (lo \<le> first_media_sequence \<and> first_media_sequence \<le> hi)
                    then (Inl (RvaBindingError ''invalid_playback_sequence''), c)
                  else (Inr r, set_rec r (x\<lparr>rr_playback_started := True\<rparr>) c)
              | _ \<Rightarrow> (Inl (RvaBindingError ''invalid_playback_sequence''), c))))"

text \<open>The outcomes a terminal record accepts; \<open>None\<close> while the response is still active.\<close>

definition expected_outcomes :: "response_record \<Rightarrow> playback_outcome list option" where
  "expected_outcomes x = (case rr_outcome x of
      None \<Rightarrow> None
    | Some RCancelled \<Rightarrow> Some [PStopped]
    | Some RFailed \<Rightarrow> Some [PFailed]
    | Some RCompleted \<Rightarrow> Some (if rr_stop_sent x then [PStopped] else [PCompleted, PFailed]))"

definition playback_evidence ::
    "response_record \<Rightarrow> playback_outcome \<Rightarrow> int \<Rightarrow> int option \<Rightarrow> binding_error + unit" where
  "playback_evidence x outcome played_samples last_media_sequence =
    (if outcome = PCompleted \<and> played_samples = 0
       then Inl (RvaBindingError ''playback_evidence_mismatch'')
     else if outcome = PCompleted \<and> last_media_sequence \<noteq> rr_last_media_sequence x
       then Inl (RvaBindingError ''invalid_playback_sequence'')
     else (case (outcome, last_media_sequence) of
         (PCompleted, _) \<Rightarrow> Inr ()
       | (_, None) \<Rightarrow> Inr ()
       | (_, Some n) \<Rightarrow>
           if played_samples = 0 \<or>
              (case rr_last_media_sequence x of None \<Rightarrow> True | Some m \<Rightarrow> n > m)
             then Inl (RvaBindingError ''invalid_playback_sequence'')
           else Inr ()))"

definition response_playback_ended ::
    "string \<Rightarrow> int \<Rightarrow> playback_outcome \<Rightarrow> int \<Rightarrow> int option \<Rightarrow> response_coordinator \<Rightarrow>
      (binding_error, playback_ended_fact, response_coordinator) op_result" where
  "response_playback_ended response_id g outcome played_samples last_media_sequence c =
    (case find_record c response_id g of
      Inl e \<Rightarrow> (Inl e, c)
    | Inr r \<Rightarrow>
        (let x = rec_at c r
         in if rr_playback_ended x then (Inl (RvaBindingError ''duplicate_playback_ended''), c)
            else if Some r \<noteq> rc_playback c then (Inl stale_generation, c)
            else if (case expected_outcomes x of None \<Rightarrow> True | Some es \<Rightarrow> outcome \<notin> set es)
              then (Inl (RvaBindingError ''invalid_playback_outcome''), c)
            else (case playback_evidence x outcome played_samples last_media_sequence of
                Inl e \<Rightarrow> (Inl e, c)
              | Inr _ \<Rightarrow>
                  (let c1 = set_rec r (x\<lparr>rr_playback_ended := True\<rparr>) c;
                       needs_finish = (rr_outcome x = Some RCompleted \<and> \<not> rr_stop_sent x);
                       (finished, s) = (if needs_finish then finish_playback (rr_target x) (rc_state c1)
                                        else (True, rc_state c1));
                       c2 = c1\<lparr>rc_state := s\<rparr>
                   in if \<not> finished then (Inl stale_generation, c2)
                      else (Inr \<lparr>pe_record = r, pe_outcome = outcome,
                                 pe_played_samples = played_samples,
                                 pe_last_media_sequence = last_media_sequence\<rparr>,
                            c2\<lparr>rc_playback := None\<rparr>)))))"

definition coordinator_close ::
    "(string \<Rightarrow> unit task) \<Rightarrow> detached \<Rightarrow> response_coordinator \<Rightarrow>
      (port_error list + unit) \<times> response_coordinator \<times> detached" where
  "coordinator_close run ds c =
    (let (r, s, _, ds') = voice_close run ds (rc_state c) in (r, c\<lparr>rc_state := s\<rparr>, ds'))"


lemmas coordinator_ops [rva_ops] = response_begin_def response_accepts_def note_media_def
  response_complete_def response_fence_def find_record_def response_playback_started_def
  response_playback_ended_def coordinator_close_def

section \<open>Invariant\<close>

text \<open>What holds of the record stored at index \<open>r\<close>.\<close>

definition record_ok :: "response_coordinator \<Rightarrow> nat \<Rightarrow> bool" where
  "record_ok c r \<longleftrightarrow>
     (let x = rec_at c r in
       pr_connection_epoch (rr_target x) = vs_connection_epoch (rc_state c) \<and>
       0 < pr_generation (rr_target x) \<and> pr_generation (rr_target x) \<le> vs_generation (rc_state c) \<and>
       (rr_stop_sent x \<longrightarrow> pr_generation (rr_target x) < vs_generation (rc_state c)) \<and>
       (rr_outcome x = None \<longleftrightarrow> rc_active c = Some r) \<and>
       (rr_outcome x \<in> {Some RCancelled, Some RFailed} \<longrightarrow> rr_stop_sent x) \<and>
       (rc_playback c \<noteq> Some r \<longrightarrow> rr_playback_ended x) \<and>
       (rc_active c = Some r \<longrightarrow> \<not> rr_stop_sent x \<and> \<not> rr_playback_ended x) \<and>
       (rr_first_media_sequence x = None \<longleftrightarrow> rr_last_media_sequence x = None))"

text \<open>How the playback slot relates to the owned playback of the voice session.\<close>

definition playback_ok :: "response_coordinator \<Rightarrow> bool" where
  "playback_ok c \<longleftrightarrow>
     (case rc_playback c of
        None \<Rightarrow> rc_active c = None \<and> vs_active_playback (rc_state c) = None
      | Some r \<Rightarrow> r < length (rc_heap c) \<and> (rc_active c = None \<or> rc_active c = Some r) \<and>
          (\<not> vs_closed (rc_state c) \<longrightarrow> \<not> rr_playback_ended (rec_at c r) \<and>
             vs_active_playback (rc_state c) =
               (if rr_stop_sent (rec_at c r) then None else Some (rr_target (rec_at c r)))))"

definition records_ok :: "response_coordinator \<Rightarrow> bool" where
  "records_ok c \<longleftrightarrow> dict_wf (rc_records c) \<and>
     (\<forall>k r. dict_get (rc_records c) k = Some r \<longrightarrow> r < length (rc_heap c) \<and> record_key (rec_at c r) = k \<and>
        (k \<in> set (rc_terminal_order c) \<or> rc_active c = Some r)) \<and>
     length (rc_terminal_order c) \<le> 32"

definition coordinator_inv :: "response_coordinator \<Rightarrow> bool" where
  "coordinator_inv c \<longleftrightarrow> voice_inv (rc_state c) \<and> playback_ok c \<and> records_ok c \<and>
     (\<forall>r < length (rc_heap c). record_ok c r) \<and>
     sorted_wrt (<) (map (\<lambda>x. pr_generation (rr_target x)) (rc_heap c))"


lemma coordinator_invI:
  assumes "voice_inv (rc_state c)" "playback_ok c" "records_ok c"
    "\<And>r. r < length (rc_heap c) \<Longrightarrow> record_ok c r"
    "sorted_wrt (<) (map (\<lambda>x. pr_generation (rr_target x)) (rc_heap c))"
  shows "coordinator_inv c"
  using assms by (simp add: coordinator_inv_def)

lemma coordinator_invD:
  assumes "coordinator_inv c"
  shows "voice_inv (rc_state c)" "playback_ok c" "records_ok c" "r < length (rc_heap c) \<Longrightarrow> record_ok c r"
    "rc_playback c = Some r' \<Longrightarrow> r' < length (rc_heap c)"
    "rc_active c = Some r' \<Longrightarrow> r' < length (rc_heap c) \<and> rc_playback c = Some r'"
  using assms by (auto simp: coordinator_inv_def playback_ok_def split: option.splits)

lemma records_okD:
  assumes "records_ok c" "dict_get (rc_records c) k = Some r"
  shows "r < length (rc_heap c)" "record_key (rec_at c r) = k"
    "k \<in> set (rc_terminal_order c) \<or> rc_active c = Some r"
  using assms unfolding records_ok_def by metis+

lemma records_okI:
  assumes "dict_wf (rc_records c)" "length (rc_terminal_order c) \<le> 32"
    "\<And>k r. dict_get (rc_records c) k = Some r \<Longrightarrow> r < length (rc_heap c) \<and> record_key (rec_at c r) = k \<and>
        (k \<in> set (rc_terminal_order c) \<or> rc_active c = Some r)"
  shows "records_ok c"
  using assms unfolding records_ok_def by metis

lemma coordinator_init_inv:
  "voice_inv s \<Longrightarrow> vs_active_playback s = None \<Longrightarrow> coordinator_inv (coordinator_init s)"
  by (simp add: coordinator_inv_def coordinator_init_def playback_ok_def records_ok_def)

lemma heap_set_rec [simp]:
  "rc_heap (set_rec r x c) = (rc_heap c)[r := x]" "rc_state (set_rec r x c) = rc_state c"
  "rc_active (set_rec r x c) = rc_active c" "rc_playback (set_rec r x c) = rc_playback c"
  "rc_records (set_rec r x c) = rc_records c" "rc_terminal_order (set_rec r x c) = rc_terminal_order c"
  by (simp_all add: set_rec_def)

lemma rec_at_set_rec [simp]:
  "r < length (rc_heap c) \<Longrightarrow> rec_at (set_rec r x c) r' = (if r' = r then x else rec_at c r')"
  by (simp add: rec_at_def nth_list_update)

lemma rec_at_update [simp]:
  "rec_at (c\<lparr>rc_state := s\<rparr>) r = rec_at c r" "rec_at (c\<lparr>rc_active := a\<rparr>) r = rec_at c r"
  "rec_at (c\<lparr>rc_playback := a\<rparr>) r = rec_at c r" "rec_at (c\<lparr>rc_records := d\<rparr>) r = rec_at c r"
  "rec_at (c\<lparr>rc_terminal_order := q\<rparr>) r = rec_at c r"
  by (simp_all add: rec_at_def)

lemma generations_set:
  "f x = f (xs ! r) \<Longrightarrow> map f (xs[r := x]) = map f xs"
  by (metis list_update_id map_update)

text \<open>Changing one record keeps the invariant when its identity is kept and the record stays consistent.\<close>

lemma set_rec_inv:
  assumes c: "coordinator_inv c" and r: "r < length (rc_heap c)"
    and key: "rr_response_id x = rr_response_id (rec_at c r)" "rr_target x = rr_target (rec_at c r)"
    and ok: "record_ok (set_rec r x c) r" and pb: "playback_ok (set_rec r x c)"
  shows "coordinator_inv (set_rec r x c)"
proof (rule coordinator_invI)
  show "voice_inv (rc_state (set_rec r x c))" "playback_ok (set_rec r x c)"
    using c pb by (simp_all add: coordinator_inv_def)
  show "records_ok (set_rec r x c)"
    using c r key by (auto simp: coordinator_inv_def records_ok_def record_key_def)
  show "sorted_wrt (<) (map (\<lambda>x. pr_generation (rr_target x)) (rc_heap (set_rec r x c)))"
    using c key by (simp add: coordinator_inv_def generations_set rec_at_def)
  show "record_ok (set_rec r x c) r'" if "r' < length (rc_heap (set_rec r x c))" for r'
    using that c r ok by (cases "r' = r") (auto simp: coordinator_inv_def record_ok_def Let_def)
qed

lemma trim_terminal_spec:
  assumes "trim_terminal heap order records = (order', records')"
  shows "length order' \<le> 32 \<and> (order \<noteq> [] \<longrightarrow> last order \<in> set order') \<and> (dict_wf records \<longrightarrow> dict_wf records') \<and>
    (\<forall>k r. dict_get records' k = Some r \<longrightarrow> dict_get records k = Some r \<and>
       (k \<in> set order \<longrightarrow> k \<in> set order' \<or> \<not> rr_playback_ended (heap ! r)))"
  using assms
proof (induction heap order records rule: trim_terminal.induct)
  case (1 heap records)
  then show ?case by simp
next
  case (2 heap old order records)
  show ?case
  proof (cases "length (old # order) > 32")
    case False
    then show ?thesis using 2 by auto
  next
    case True
    define records1 where "records1 = (case dict_get records old of
        Some r \<Rightarrow> if rr_playback_ended (heap ! r) then dict_pop old records else records | None \<Rightarrow> records)"
    have step: "trim_terminal heap order records1 = (order', records')"
      using "2.prems" True by (simp add: records1_def)
    have kept: "dict_get records1 k = Some r \<Longrightarrow>
        dict_get records k = Some r \<and> (k = old \<longrightarrow> \<not> rr_playback_ended (heap ! r))" for k r
      by (cases "k = old") (simp_all add: records1_def split: option.splits if_splits)
    have wf: "dict_wf records \<Longrightarrow> dict_wf records1"
      by (simp add: records1_def split: option.splits if_splits)
    have "length order' \<le> 32 \<and> (order \<noteq> [] \<longrightarrow> last order \<in> set order') \<and> (dict_wf records1 \<longrightarrow> dict_wf records') \<and>
      (\<forall>k r. dict_get records' k = Some r \<longrightarrow> dict_get records1 k = Some r \<and>
         (k \<in> set order \<longrightarrow> k \<in> set order' \<or> \<not> rr_playback_ended (heap ! r)))"
      using "2.IH" [OF True] step unfolding records1_def by blast
    moreover have "last (old # order) = last order" "order \<noteq> []" using True by auto
    ultimately show ?thesis using kept wf by (metis set_ConsD)
  qed
qed

lemma remember_terminal_fields [simp]:
  "rc_state (remember_terminal r c) = rc_state c" "rc_heap (remember_terminal r c) = rc_heap c"
  "rc_active (remember_terminal r c) = rc_active c" "rc_playback (remember_terminal r c) = rc_playback c"
  "rec_at (remember_terminal r c) r' = rec_at c r'"
  by (simp_all add: remember_terminal_def Let_def rec_at_def split: prod.splits)

text \<open>
  Remembering the playback that just became terminal: its key is the newest, so trimming keeps it, and every
  other record whose key is trimmed has ended.
\<close>

lemma remember_terminal_records:
  assumes ok: "\<And>r'. r' < length (rc_heap c) \<Longrightarrow> record_ok c r'" and pb: "rc_playback c = Some r"
    and wf: "dict_wf (rc_records c)"
    and old: "\<And>k r'. dict_get (rc_records c) k = Some r' \<Longrightarrow> r' < length (rc_heap c) \<and>
      record_key (rec_at c r') = k \<and> (k \<in> set (rc_terminal_order c) \<or> rc_active c = Some r' \<or> r' = r)"
  shows "records_ok (remember_terminal r c)"
proof (rule records_okI)
  obtain order records where t: "trim_terminal (rc_heap c) (rc_terminal_order c @ [record_key (rec_at c r)])
      (rc_records c) = (order, records)" by fastforce
  note spec = trim_terminal_spec [OF t]
  have fields: "rc_terminal_order (remember_terminal r c) = order" "rc_records (remember_terminal r c) = records"
    by (simp_all add: remember_terminal_def t)
  show "dict_wf (rc_records (remember_terminal r c))" "length (rc_terminal_order (remember_terminal r c)) \<le> 32"
    using spec wf fields by simp_all
  fix k r' assume "dict_get (rc_records (remember_terminal r c)) k = Some r'"
  then have get: "dict_get records k = Some r'" by (simp add: fields)
  then have get': "dict_get (rc_records c) k = Some r'" using spec by blast
  note o = old [OF get']
  have last: "record_key (rec_at c r) \<in> set order" using spec by simp
  have "k \<in> set order \<or> rc_active c = Some r'"
  proof (cases "k \<in> set (rc_terminal_order c) \<and> r' \<noteq> r")
    case True
    then have "rr_playback_ended (rec_at c r')" using ok [of r'] o pb by (auto simp: record_ok_def Let_def)
    then have "k \<in> set order" using spec get True unfolding rec_at_def set_append by blast
    then show ?thesis by simp
  next
    case False
    then show ?thesis using o last by auto
  qed
  then show "r' < length (rc_heap (remember_terminal r c)) \<and> record_key (rec_at (remember_terminal r c) r') = k \<and>
      (k \<in> set (rc_terminal_order (remember_terminal r c)) \<or> rc_active (remember_terminal r c) = Some r')"
    using o fields by simp
qed

lemma find_record_valid:
  "coordinator_inv c \<Longrightarrow> find_record c i g = Inr r \<Longrightarrow> r < length (rc_heap c) \<and> record_key (rec_at c r) = (i, g)"
  by (auto simp: coordinator_inv_def records_ok_def find_record_def split: option.splits)

lemma begin_new_inv:
  assumes c: "coordinator_inv c" and none: "rc_playback c = None"
    and b: "begin_playback (rc_state c) = (Inr target, s)"
    and x: "rr_target x = target" "rr_outcome x = None" "\<not> rr_stop_sent x" "\<not> rr_playback_ended x"
      "rr_first_media_sequence x = None" "rr_last_media_sequence x = None"
    and i: "rr_response_id x = i"
  shows "coordinator_inv (c\<lparr>rc_state := s, rc_heap := rc_heap c @ [x], rc_active := Some (length (rc_heap c)),
     rc_playback := Some (length (rc_heap c)),
     rc_records := dict_set (i, pr_generation target) (length (rc_heap c)) (rc_records c)\<rparr>)"
    (is "coordinator_inv ?c")
proof (rule coordinator_invI)
  have v: "voice_inv (rc_state c)" by (rule coordinator_invD(1) [OF c])
  have s: "vs_generation s = vs_generation (rc_state c) + 1" "vs_active_playback s = Some target"
    "pr_generation target = vs_generation s" "pr_connection_epoch target = vs_connection_epoch (rc_state c)"
    "vs_connection_epoch s = vs_connection_epoch (rc_state c)"
    using b by (auto simp: begin_playback_def Let_def split: if_splits)
  have at: "rec_at ?c r = (if r < length (rc_heap c) then rec_at c r else x)" if "r \<le> length (rc_heap c)" for r
    using that by (simp add: rec_at_def nth_append)
  have old: "record_ok c r" if "r < length (rc_heap c)" for r using coordinator_invD(4) [OF c that] .
  show "voice_inv (rc_state ?c)" using begin_playback_inv [OF v] b by simp
  show "playback_ok ?c" using s x at [of "length (rc_heap c)"] by (simp add: playback_ok_def)
  show "record_ok ?c r" if "r < length (rc_heap ?c)" for r
  proof (cases "r < length (rc_heap c)")
    case True
    then show ?thesis
      using old [OF True] at [of r] s none coordinator_invD(6) [OF c, of r]
      by (auto simp: record_ok_def Let_def)
  next
    case False
    then have "r = length (rc_heap c)" using that by simp
    then show ?thesis
      using at [of r] s x v by (simp add: record_ok_def Let_def voice_inv_def)
  qed
  note rs = coordinator_invD(3) [OF c]
  show "records_ok ?c"
  proof (rule records_okI)
    show "dict_wf (rc_records ?c)" "length (rc_terminal_order ?c) \<le> 32"
      using rs by (simp_all add: records_ok_def)
    show "r < length (rc_heap ?c) \<and> record_key (rec_at ?c r) = k \<and>
      (k \<in> set (rc_terminal_order ?c) \<or> rc_active ?c = Some r)"
      if "dict_get (rc_records ?c) k = Some r" for k r
    proof (cases "k = (i, pr_generation target)")
      case True
      then have "r = length (rc_heap c)" using that by simp
      then show ?thesis using at [of r] x i True by (simp add: record_key_def)
    next
      case False
      then have "dict_get (rc_records c) k = Some r" using that by simp
      note records_okD [OF rs this]
      then show ?thesis using at [of r] none coordinator_invD(6) [OF c, of r] by auto
    qed
  qed
  have "\<forall>y \<in> set (rc_heap c). pr_generation (rr_target y) < vs_generation s"
    using old s by (fastforce simp: in_set_conv_nth record_ok_def rec_at_def Let_def)
  then show "sorted_wrt (<) (map (\<lambda>x. pr_generation (rr_target x)) (rc_heap ?c))"
    using c x s by (simp add: coordinator_inv_def sorted_wrt_append)
qed

lemma response_begin_inv: "coordinator_inv c \<Longrightarrow> coordinator_inv (snd (response_begin i e c))"
proof (cases "rc_active c = None \<and> rc_playback c = None")
  case True
  assume c: "coordinator_inv c"
  show ?thesis
  proof (cases "begin_playback (rc_state c)")
    case (Pair a s)
    show ?thesis
    proof (cases a)
      case (Inl err)
      then have "s = rc_state c" using Pair by (auto simp: begin_playback_def Let_def split: if_splits)
      then show ?thesis using True c Pair Inl by (simp add: response_begin_def)
    next
      case (Inr target)
      then show ?thesis
        using True Pair by (simp add: response_begin_def Let_def) (rule begin_new_inv [OF c]; simp)
    qed
  qed
qed (auto simp: response_begin_def split: option.splits)

lemma note_media_inv:
  assumes c: "coordinator_inv c"
  shows "coordinator_inv (snd (note_media r n c))"
proof (cases "response_accepts c r")
  case True
  then have a: "rc_active c = Some r" by (simp add: response_accepts_def)
  note r = coordinator_invD(6) [OF c a]
  show ?thesis
    using True r coordinator_invD(2) [OF c] coordinator_invD(4) [OF c, of r] a
    unfolding note_media_def Let_def
    by (simp, intro conjI impI set_rec_inv [OF c])
      (auto simp: record_ok_def playback_ok_def Let_def)
qed (use c in \<open>simp add: note_media_def\<close>)


text \<open>
  Every transition touches one record and at most gives up the slots that hold it; all other records stay
  consistent.
\<close>

definition touches_only :: "nat \<Rightarrow> response_coordinator \<Rightarrow> response_coordinator \<Rightarrow> bool" where
  "touches_only r c c' \<longleftrightarrow> r < length (rc_heap c) \<and>
     rc_heap c' = (rc_heap c)[r := rec_at c' r] \<and>
     rr_response_id (rec_at c' r) = rr_response_id (rec_at c r) \<and>
     rr_target (rec_at c' r) = rr_target (rec_at c r) \<and>
     vs_connection_epoch (rc_state c') = vs_connection_epoch (rc_state c) \<and>
     vs_generation (rc_state c) \<le> vs_generation (rc_state c') \<and>
     (rc_active c' = rc_active c \<or> rc_active c = Some r \<and> rc_active c' = None) \<and>
     (rc_playback c' = rc_playback c \<or> rc_playback c = Some r \<and> rc_playback c' = None)"

lemma touches_only_at: "touches_only r c c' \<Longrightarrow> r' \<noteq> r \<Longrightarrow> rec_at c' r' = rec_at c r'"
  unfolding touches_only_def by (metis nth_list_update_neq rec_at_def)

lemma touches_only_key: "touches_only r c c' \<Longrightarrow> record_key (rec_at c' r') = record_key (rec_at c r')"
  by (cases "r' = r") (auto simp: touches_only_at, simp add: touches_only_def record_key_def)

lemma touches_only_length: "touches_only r c c' \<Longrightarrow> length (rc_heap c') = length (rc_heap c)"
  unfolding touches_only_def by (metis length_list_update)

lemma touches_only_ok:
  assumes c: "coordinator_inv c" and t: "touches_only r c c'" and ok: "record_ok c' r"
    and r': "r' < length (rc_heap c')"
  shows "record_ok c' r'"
proof (cases "r' = r")
  case False
  have "record_ok c r'" using coordinator_invD(4) [OF c] r' touches_only_length [OF t] by simp
  moreover have "(rc_active c' = Some r') = (rc_active c = Some r')" "(rc_playback c' = Some r') = (rc_playback c = Some r')"
    "vs_connection_epoch (rc_state c') = vs_connection_epoch (rc_state c)"
    "vs_generation (rc_state c) \<le> vs_generation (rc_state c')"
    using t False by (auto simp: touches_only_def)
  ultimately show ?thesis
    by (simp add: record_ok_def Let_def touches_only_at [OF t False]) linarith
qed (use ok in simp)

lemma touches_only_inv:
  assumes c: "coordinator_inv c" and t: "touches_only r c c'" and ok: "record_ok c' r"
    and v: "voice_inv (rc_state c')" and pb: "playback_ok c'" and rs: "records_ok c'"
  shows "coordinator_inv c'"
proof (rule coordinator_invI [OF v pb rs touches_only_ok [OF c t ok]])
  have "map (\<lambda>x. pr_generation (rr_target x)) (rc_heap c') = map (\<lambda>x. pr_generation (rr_target x)) (rc_heap c)"
    using t unfolding touches_only_def by (metis (mono_tags, lifting) generations_set rec_at_def)
  then show "sorted_wrt (<) (map (\<lambda>x. pr_generation (rr_target x)) (rc_heap c'))"
    using c by (simp add: coordinator_inv_def)
qed

text \<open>A transition that makes record \<open>r\<close> terminal and remembers it.\<close>

lemma terminal_inv:
  assumes c: "coordinator_inv c" and t: "touches_only r c c'" and ok: "record_ok c' r"
    and v: "voice_inv (rc_state c')" and pb: "playback_ok c'" and p: "rc_playback c' = Some r"
    and same: "rc_records c' = rc_records c" "rc_terminal_order c' = rc_terminal_order c"
  shows "coordinator_inv (remember_terminal r c')"
proof (rule touches_only_inv [OF c])
  show "touches_only r c (remember_terminal r c')"
    using t by (simp add: touches_only_def)
  show "record_ok (remember_terminal r c') r" "playback_ok (remember_terminal r c')"
    "voice_inv (rc_state (remember_terminal r c'))"
    using ok pb v p by (simp_all add: record_ok_def playback_ok_def)
  show "records_ok (remember_terminal r c')"
  proof (rule remember_terminal_records [OF touches_only_ok [OF c t ok] p])
    note rs = coordinator_invD(3) [OF c]
    show "dict_wf (rc_records c')" using rs same by (simp add: records_ok_def)
    fix k r' assume "dict_get (rc_records c') k = Some r'"
    then have "dict_get (rc_records c) k = Some r'" using same by simp
    note d = records_okD [OF rs this]
    then show "r' < length (rc_heap c') \<and> record_key (rec_at c' r') = k \<and>
        (k \<in> set (rc_terminal_order c') \<or> rc_active c' = Some r' \<or> r' = r)"
      using t same touches_only_length [OF t] touches_only_key [OF t] by (auto simp: touches_only_def)
  qed
qed

lemma response_complete_inv:
  assumes c: "coordinator_inv c"
  shows "coordinator_inv (snd (response_complete r c))"
proof (cases "isOk (fst (response_complete r c))")
  case True
  define c' where "c' = set_rec r ((rec_at c r)\<lparr>rr_outcome := Some RCompleted\<rparr>) (c\<lparr>rc_active := None\<rparr>)"
  have a: "rc_active c = Some r" "rc_playback c = Some r"
    and eq: "snd (response_complete r c) = remember_terminal r c'"
    using True by (auto simp: response_complete_def Let_def c'_def split: if_splits)
  have r: "r < length (rc_heap c)" using coordinator_invD(5) [OF c a(2)] .
  have at: "rec_at c' r = (rec_at c r)\<lparr>rr_outcome := Some RCompleted\<rparr>" using r by (simp add: c'_def)
  show ?thesis
    unfolding eq
  proof (rule terminal_inv [OF c])
    show "touches_only r c c'" using a r at by (simp add: touches_only_def) (simp add: c'_def)
    show "record_ok c' r" using coordinator_invD(4) [OF c r] at a by (simp add: record_ok_def Let_def) (simp add: c'_def)
    show "playback_ok c'" using coordinator_invD(2) [OF c] at a by (simp add: playback_ok_def) (simp add: c'_def)
  qed (use a coordinator_invD(1) [OF c] in \<open>simp_all add: c'_def\<close>)
qed (use c in \<open>auto simp: response_complete_def Let_def split: if_splits\<close>)


lemma response_fence_inv:
  assumes c: "coordinator_inv c"
  shows "coordinator_inv (snd (response_fence r outcome err c))"
proof (cases "isOk (fst (response_fence r outcome err c))")
  case True
  define s where "s = snd (cancel_playback (rr_target (rec_at c r)) (rc_state c))"
  define x where "x = (if rc_active c = Some r
      then (rec_at c r)\<lparr>rr_outcome := Some outcome, rr_error_code := err\<rparr> else rec_at c r)"
  define c' where "c' = set_rec r (x\<lparr>rr_stop_sent := True\<rparr>)
      (c\<lparr>rc_state := s, rc_active := (if rc_active c = Some r then None else rc_active c)\<rparr>)"
  have p: "rc_playback c = Some r" "\<not> rr_stop_sent (rec_at c r)"
    and ap: "fst (cancel_playback (rr_target (rec_at c r)) (rc_state c)) = APPLIED"
    and eq: "snd (response_fence r outcome err c) = remember_terminal r c'"
    using True by (auto simp: response_fence_def Let_def c'_def x_def s_def split: if_splits prod.splits)
  have s: "s = (rc_state c)\<lparr>vs_generation := vs_generation (rc_state c) + 1, vs_active_playback := None\<rparr>"
    using ap by (auto simp: cancel_playback_def s_def split: if_splits)
  have r: "r < length (rc_heap c)" using coordinator_invD(5) [OF c p(1)] .
  have at: "rec_at c' r = x\<lparr>rr_stop_sent := True\<rparr>" using r by (simp add: c'_def)
  have open_s: "\<not> vs_closed (rc_state c)" using ap by (auto simp: cancel_playback_def split: if_splits)
  have act: "rc_active c = None \<or> rc_active c = Some r"
    using coordinator_invD(6) [OF c] p by (cases "rc_active c") auto
  show ?thesis
    unfolding eq
  proof (rule terminal_inv [OF c])
    show "touches_only r c c'"
      using act r at by (simp add: touches_only_def) (simp add: c'_def x_def s)
    show "record_ok c' r"
      using coordinator_invD(4) [OF c r] at p act by (auto simp: record_ok_def Let_def x_def) (auto simp: c'_def s)
    show "playback_ok c'"
      using coordinator_invD(2) [OF c] at p act r open_s
      by (auto simp: playback_ok_def x_def) (auto simp: c'_def s)
    show "voice_inv (rc_state c')"
      using cancel_playback_inv [OF coordinator_invD(1) [OF c]] by (simp add: c'_def s_def)
  qed (simp_all add: c'_def p)
next
  case False
  have "s = rc_state c" if "cancel_playback t (rc_state c) = (d, s)" "d \<noteq> APPLIED" for t d s
    using that by (simp add: cancel_playback_def split: if_splits)
  then have "snd (response_fence r outcome err c) = c"
    using False by (auto simp: response_fence_def Let_def split: if_splits prod.splits)
  then show ?thesis using c by simp
qed

lemma response_playback_started_inv:
  assumes c: "coordinator_inv c"
  shows "coordinator_inv (snd (response_playback_started i g n c))"
proof (cases "find_record c i g")
  case (Inr r)
  note v = find_record_valid [OF c Inr]
  have "coordinator_inv (set_rec r ((rec_at c r)\<lparr>rr_playback_started := True\<rparr>) c)"
    using v coordinator_invD(4) [OF c, of r] coordinator_invD(2) [OF c]
    by (intro set_rec_inv [OF c]) (auto simp: record_ok_def playback_ok_def Let_def split: option.splits)
  then show ?thesis
    using c Inr by (auto simp: response_playback_started_def Let_def split: option.splits if_splits)
qed (use c in \<open>simp add: response_playback_started_def\<close>)

lemma coordinator_close_inv:
  assumes c: "coordinator_inv c"
  shows "coordinator_inv (fst (snd (coordinator_close run ds c)))"
proof (cases "voice_close run ds (rc_state c)")
  case (fields r s w ds')
  note st = voice_close_state [OF fields]
  have v: "voice_inv s" using voice_close_inv [OF coordinator_invD(1) [OF c]] fields by (metis fst_conv snd_conv)
  have old: "record_ok c r'" if "r' < length (rc_heap c)" for r' using coordinator_invD(4) [OF c that] .
  have mono: "vs_connection_epoch s = vs_connection_epoch (rc_state c)" "vs_generation (rc_state c) \<le> vs_generation s"
    "vs_active_playback (rc_state c) = None \<longrightarrow> vs_active_playback s = None" "s = rc_state c \<or> vs_closed s"
    using st by auto
  have "coordinator_inv (c\<lparr>rc_state := s\<rparr>)"
  proof (rule coordinator_invI)
    show "playback_ok (c\<lparr>rc_state := s\<rparr>)"
      using coordinator_invD(2) [OF c] mono by (auto simp: playback_ok_def split: option.splits)
    show "record_ok (c\<lparr>rc_state := s\<rparr>) r'" if "r' < length (rc_heap (c\<lparr>rc_state := s\<rparr>))" for r'
      using old [of r'] that mono by (auto simp: record_ok_def Let_def)
    show "records_ok (c\<lparr>rc_state := s\<rparr>)"
      using coordinator_invD(3) [OF c] by (simp add: records_ok_def)
  qed (use v c in \<open>simp_all add: coordinator_inv_def\<close>)
  then show ?thesis by (simp add: coordinator_close_def fields)
qed


lemma response_playback_ended_cases:
  obtains (refused) "\<not> isOk (fst (response_playback_ended i g outcome n m c))"
      "snd (response_playback_ended i g outcome n m c) = c"
  | (ended) r s where "find_record c i g = Inr r" "rc_playback c = Some r" "\<not> rr_playback_ended (rec_at c r)"
      "rr_outcome (rec_at c r) \<noteq> None"
      "\<exists>es. expected_outcomes (rec_at c r) = Some es \<and> outcome \<in> set es"
      "playback_evidence (rec_at c r) outcome n m = Inr ()"
      "s = (if rr_outcome (rec_at c r) = Some RCompleted \<and> \<not> rr_stop_sent (rec_at c r)
            then snd (finish_playback (rr_target (rec_at c r)) (rc_state c)) else rc_state c)"
      "rr_outcome (rec_at c r) = Some RCompleted \<and> \<not> rr_stop_sent (rec_at c r) \<longrightarrow>
         fst (finish_playback (rr_target (rec_at c r)) (rc_state c))"
      "response_playback_ended i g outcome n m c =
        (Inr \<lparr>pe_record = r, pe_outcome = outcome, pe_played_samples = n, pe_last_media_sequence = m\<rparr>,
         (set_rec r ((rec_at c r)\<lparr>rr_playback_ended := True\<rparr>) c)\<lparr>rc_state := s, rc_playback := None\<rparr>)"
  | (stale) r where "find_record c i g = Inr r" "rc_playback c = Some r" "rr_outcome (rec_at c r) \<noteq> None"
      "\<not> fst (finish_playback (rr_target (rec_at c r)) (rc_state c))" "\<not> rr_stop_sent (rec_at c r)"
      "response_playback_ended i g outcome n m c =
        (Inl stale_generation, set_rec r ((rec_at c r)\<lparr>rr_playback_ended := True\<rparr>) c)"
proof (cases "find_record c i g")
  case (Inl e)
  then show thesis by (intro refused) (simp_all add: response_playback_ended_def)
next
  case (Inr r)
  define x where "x = rec_at c r"
  define finish where "finish = finish_playback (rr_target x) (rc_state c)"
  have fin: "snd finish = rc_state c" if "\<not> fst finish"
    using that by (auto simp: finish_def finish_playback_def split: if_splits)
  consider (a) "rr_playback_ended x" | (b) "rc_playback c \<noteq> Some r" | (c) "expected_outcomes x = None"
    | (d) es where "expected_outcomes x = Some es" "outcome \<notin> set es"
    | (e) err where "playback_evidence x outcome n m = Inl err"
    | (f) es where "rc_playback c = Some r" "\<not> rr_playback_ended x" "expected_outcomes x = Some es" "outcome \<in> set es"
        "playback_evidence x outcome n m = Inr ()"
    by (cases "playback_evidence x outcome n m"; cases "expected_outcomes x") auto
  then show thesis
  proof cases
    case (f es)
    have trm: "rr_outcome x \<noteq> None" using f(3) by (auto simp: expected_outcomes_def split: option.splits)
    show thesis
    proof (cases "rr_outcome x = Some RCompleted \<and> \<not> rr_stop_sent x \<and> \<not> fst finish")
      case True
      have "response_playback_ended i g outcome n m c =
          (Inl stale_generation, set_rec r (x\<lparr>rr_playback_ended := True\<rparr>) c)"
        using Inr f True fin
        by (simp add: response_playback_ended_def Let_def flip: x_def) (simp add: finish_def set_rec_def case_prod_beta)
      then show thesis using stale [OF Inr] f trm True unfolding x_def finish_def by simp
    next
      case False
      define s where "s = (if rr_outcome x = Some RCompleted \<and> \<not> rr_stop_sent x then snd finish else rc_state c)"
      have "response_playback_ended i g outcome n m c =
          (Inr \<lparr>pe_record = r, pe_outcome = outcome, pe_played_samples = n, pe_last_media_sequence = m\<rparr>,
           (set_rec r (x\<lparr>rr_playback_ended := True\<rparr>) c)\<lparr>rc_state := s, rc_playback := None\<rparr>)"
        using Inr f False
        by (simp add: response_playback_ended_def Let_def flip: x_def) (auto simp: finish_def s_def case_prod_beta)
      then show thesis
        using ended [OF Inr f(1)] f trm False unfolding x_def finish_def s_def by blast
    qed
  qed (rule refused; use Inr in \<open>simp add: response_playback_ended_def Let_def x_def\<close>)+
qed

lemma records_touched:
  assumes c: "coordinator_inv c" and t: "touches_only r c c'"
    and same: "rc_records c' = rc_records c" "rc_terminal_order c' = rc_terminal_order c" "rc_active c' = rc_active c"
  shows "records_ok c'"
proof (rule records_okI)
  note rs = coordinator_invD(3) [OF c]
  show "dict_wf (rc_records c')" "length (rc_terminal_order c') \<le> 32"
    using rs same by (simp_all add: records_ok_def)
  fix k r' assume "dict_get (rc_records c') k = Some r'"
  then have "dict_get (rc_records c) k = Some r'" using same by simp
  note d = records_okD [OF rs this]
  then show "r' < length (rc_heap c') \<and> record_key (rec_at c' r') = k \<and>
      (k \<in> set (rc_terminal_order c') \<or> rc_active c' = Some r')"
    using same touches_only_length [OF t] touches_only_key [OF t] by auto
qed

lemma response_playback_ended_inv:
  assumes c: "coordinator_inv c"
  shows "coordinator_inv (snd (response_playback_ended i g outcome n m c))"
proof (cases rule: response_playback_ended_cases [of i g outcome n m c])
  case refused
  then show ?thesis using c by simp
next
  case (ended r s)
  note r = coordinator_invD(5) [OF c ended(2)]
  let ?c = "(set_rec r ((rec_at c r)\<lparr>rr_playback_ended := True\<rparr>) c)\<lparr>rc_state := s, rc_playback := None\<rparr>"
  note ok = coordinator_invD(4) [OF c r]
  have act: "rc_active c = None"
    using coordinator_invD(6) [OF c] ended(2,4) ok by (cases "rc_active c") (auto simp: record_ok_def Let_def)
  have s: "s = rc_state c \<or> s = (rc_state c)\<lparr>vs_active_playback := None\<rparr>"
    using ended(7) by (auto simp: finish_playback_def split: if_splits)
  have none: "vs_active_playback s = None"
  proof (cases "rr_stop_sent (rec_at c r)")
    case True
    then show ?thesis
      using ended coordinator_invD(1,2) [OF c] by (auto simp: playback_ok_def voice_inv_def split: option.splits)
  next
    case False
    then show ?thesis
      using ended(4,7,8) ok
      by (cases "rr_outcome (rec_at c r)"; cases "the (rr_outcome (rec_at c r))")
        (auto simp: finish_playback_def record_ok_def Let_def split: if_splits)
  qed
  have t: "touches_only r c ?c" using r s ended(2) by (auto simp: touches_only_def)
  have "coordinator_inv ?c"
  proof (rule touches_only_inv [OF c t])
    show "record_ok ?c r" using ok r act s by (auto simp: record_ok_def Let_def)
    show "playback_ok ?c" using act none by (simp add: playback_ok_def)
    show "voice_inv (rc_state ?c)"
      using coordinator_invD(1) [OF c] finish_playback_inv ended(7) by auto
  qed (rule records_touched [OF c t]; simp)
  then show ?thesis using ended by simp
next
  case (stale r)
  note r = coordinator_invD(5) [OF c stale(2)]
  note ok = coordinator_invD(4) [OF c r]
  have act: "rc_active c = None"
    using coordinator_invD(6) [OF c] stale(2,3) ok by (cases "rc_active c") (auto simp: record_ok_def Let_def)
  have closed: "vs_closed (rc_state c)"
    using stale coordinator_invD(2) [OF c] by (auto simp: finish_playback_def playback_ok_def split: if_splits)
  have "coordinator_inv (set_rec r ((rec_at c r)\<lparr>rr_playback_ended := True\<rparr>) c)"
    using r ok act closed stale(2) by (intro set_rec_inv [OF c]) (auto simp: record_ok_def playback_ok_def Let_def)
  then show ?thesis using stale by simp
qed


lemmas coordinator_op_inv [rva_inv] = response_begin_inv note_media_inv response_complete_inv response_fence_inv
  response_playback_started_inv response_playback_ended_inv coordinator_close_inv

section \<open>Sequences of operations\<close>

text \<open>
  What the binding can ask of the coordinator; references are the indices of records the coordinator handed
  out before, and a fence is asked for with a cancelled or failed outcome only.
\<close>

datatype coordinator_op =
    OpBegin string int
  | OpMedia nat int
  | OpComplete nat
  | OpFence nat response_outcome "string option"
  | OpStarted string int int
  | OpEnded string int playback_outcome int "int option"
  | OpClose "string \<Rightarrow> unit task" detached

fun coordinator_op_ok :: "response_coordinator \<Rightarrow> coordinator_op \<Rightarrow> bool" where
  "coordinator_op_ok c (OpMedia r _) = (r < length (rc_heap c))"
| "coordinator_op_ok c (OpComplete r) = (r < length (rc_heap c))"
| "coordinator_op_ok c (OpFence r outcome _) = (r < length (rc_heap c) \<and> outcome \<noteq> RCompleted)"
| "coordinator_op_ok c _ = True"

fun coordinator_run :: "coordinator_op \<Rightarrow> response_coordinator \<Rightarrow> response_coordinator" where
  "coordinator_run (OpBegin i e) c = snd (response_begin i e c)"
| "coordinator_run (OpMedia r n) c = snd (note_media r n c)"
| "coordinator_run (OpComplete r) c = snd (response_complete r c)"
| "coordinator_run (OpFence r outcome err) c = snd (response_fence r outcome err c)"
| "coordinator_run (OpStarted i g n) c = snd (response_playback_started i g n c)"
| "coordinator_run (OpEnded i g outcome n m) c = snd (response_playback_ended i g outcome n m c)"
| "coordinator_run (OpClose run ds) c = fst (snd (coordinator_close run ds c))"

inductive coordinator_steps :: "response_coordinator \<Rightarrow> response_coordinator \<Rightarrow> bool" where
  steps_refl: "coordinator_steps c c"
| steps_op: "coordinator_steps c c' \<Longrightarrow> coordinator_op_ok c' op \<Longrightarrow> coordinator_steps c (coordinator_run op c')"

lemma coordinator_run_inv [rva_inv]: "coordinator_inv c \<Longrightarrow> coordinator_inv (coordinator_run op c)"
  by (cases op) (simp_all add: rva_inv)

lemma coordinator_steps_inv: "coordinator_steps c c' \<Longrightarrow> coordinator_inv c \<Longrightarrow> coordinator_inv c'"
  by (induction rule: coordinator_steps.induct) (simp_all add: rva_inv)

text \<open>
  How a record may develop: its identity is fixed, the outcome and the stop are decided once, the playback
  facts are never withdrawn, and the media range of a terminal response no longer moves.
\<close>

definition record_extends :: "response_record \<Rightarrow> response_record \<Rightarrow> bool" where
  "record_extends x y \<longleftrightarrow>
     rr_response_id y = rr_response_id x \<and> rr_target y = rr_target x \<and>
     rr_producer_epoch y = rr_producer_epoch x \<and>
     (rr_outcome x \<noteq> None \<longrightarrow> rr_outcome y = rr_outcome x \<and> rr_error_code y = rr_error_code x \<and>
        rr_first_media_sequence y = rr_first_media_sequence x \<and>
        rr_last_media_sequence y = rr_last_media_sequence x) \<and>
     (rr_stop_sent x \<longrightarrow> rr_stop_sent y) \<and> (rr_playback_started x \<longrightarrow> rr_playback_started y) \<and>
     (rr_playback_ended x \<longrightarrow> rr_playback_ended y)"

definition coordinator_extends :: "response_coordinator \<Rightarrow> response_coordinator \<Rightarrow> bool" where
  "coordinator_extends c c' \<longleftrightarrow> length (rc_heap c) \<le> length (rc_heap c') \<and>
     (\<forall>r < length (rc_heap c). record_extends (rec_at c r) (rec_at c' r)) \<and>
     vs_generation (rc_state c) \<le> vs_generation (rc_state c') \<and>
     (\<forall>r. length (rc_heap c) \<le> r \<and> r < length (rc_heap c') \<longrightarrow>
        vs_generation (rc_state c) < pr_generation (rr_target (rec_at c' r)))"

lemma record_extends_refl [simp]: "record_extends x x"
  by (simp add: record_extends_def)

lemma record_extends_trans: "record_extends x y \<Longrightarrow> record_extends y z \<Longrightarrow> record_extends x z"
  by (auto simp: record_extends_def)

lemma coordinator_extends_refl [simp]: "coordinator_extends c c"
  by (simp add: coordinator_extends_def)

lemma coordinator_extends_trans:
  assumes a: "coordinator_extends a b" and b: "coordinator_extends b c"
  shows "coordinator_extends a c"
proof -
  have "record_extends (rec_at a r) (rec_at c r)" if "r < length (rc_heap a)" for r
    using a b that unfolding coordinator_extends_def by (meson less_le_trans record_extends_trans)
  moreover have "vs_generation (rc_state a) < pr_generation (rr_target (rec_at c r))"
    if "length (rc_heap a) \<le> r" "r < length (rc_heap c)" for r
  proof (cases "r < length (rc_heap b)")
    case True
    then have "rr_target (rec_at c r) = rr_target (rec_at b r)"
      using b by (simp add: coordinator_extends_def record_extends_def)
    then show ?thesis using a True that by (simp add: coordinator_extends_def)
  next
    case False
    then show ?thesis using a b that unfolding coordinator_extends_def by (meson leI le_less_trans)
  qed
  ultimately show ?thesis using a b by (auto simp: coordinator_extends_def)
qed

text \<open>A change of one record extends the store when that record extends and the generation does not fall.\<close>

lemma extends_one:
  assumes "rc_heap c' = (rc_heap c)[r := x]" "r < length (rc_heap c) \<Longrightarrow> record_extends (rec_at c r) x"
    "vs_generation (rc_state c) \<le> vs_generation (rc_state c')"
  shows "coordinator_extends c c'"
  using assms by (cases "r < length (rc_heap c)") (auto simp: coordinator_extends_def rec_at_def nth_list_update)


lemma cancel_playback_generation:
  "cancel_playback t s = (d, s') \<Longrightarrow> vs_generation s' = (if d = APPLIED then vs_generation s + 1 else vs_generation s)"
  by (auto simp: cancel_playback_def split: if_splits)

lemma finish_playback_generation: "vs_generation (snd (finish_playback t s)) = vs_generation s"
  by (simp add: finish_playback_def)

lemma response_begin_extends:
  assumes "coordinator_inv c"
  shows "coordinator_extends c (snd (response_begin i e c))"
proof (cases "begin_playback (rc_state c)")
  case (Pair a s)
  have "vs_generation (rc_state c) \<le> vs_generation s"
    using Pair by (auto simp: begin_playback_def Let_def split: if_splits)
  moreover have "vs_generation (rc_state c) < pr_generation target" if "a = Inr target" for target
    using Pair that by (auto simp: begin_playback_def Let_def split: if_splits)
  ultimately show ?thesis
    using Pair by (auto simp: response_begin_def Let_def coordinator_extends_def rec_at_def nth_append less_Suc_eq
        split: option.splits sum.splits)
qed

lemma note_media_extends:
  assumes c: "coordinator_inv c"
  shows "coordinator_extends c (snd (note_media r n c))"
proof (cases "response_accepts c r")
  case True
  then have a: "rc_active c = Some r" by (simp add: response_accepts_def)
  note r = coordinator_invD(6) [OF c a]
  have "rr_outcome (rec_at c r) = None"
    using coordinator_invD(4) [OF c, of r] r a by (simp add: record_ok_def Let_def)
  then show ?thesis
    using True by (intro extends_one [of _ _ r "rec_at (snd (note_media r n c)) r"])
      (use r in \<open>simp_all add: note_media_def Let_def record_extends_def\<close>)
qed (simp add: note_media_def)

lemma response_complete_extends:
  assumes c: "coordinator_inv c"
  shows "coordinator_extends c (snd (response_complete r c))"
proof (cases "rc_active c = Some r")
  case True
  note r = coordinator_invD(6) [OF c True]
  have "rr_outcome (rec_at c r) = None"
    using coordinator_invD(4) [OF c, of r] r True by (simp add: record_ok_def Let_def)
  then show ?thesis
    by (auto simp: response_complete_def Let_def record_extends_def
        intro!: extends_one [of _ _ r "(rec_at c r)\<lparr>rr_outcome := Some RCompleted\<rparr>"])
qed (auto simp: response_complete_def Let_def)

lemma response_fence_extends:
  assumes c: "coordinator_inv c"
  shows "coordinator_extends c (snd (response_fence r outcome err c))"
proof (cases "cancel_playback (rr_target (rec_at c r)) (rc_state c)")
  case (Pair d s)
  define x where "x = (if rc_active c = Some r
      then (rec_at c r)\<lparr>rr_outcome := Some outcome, rr_error_code := err\<rparr> else rec_at c r)"
  have "rr_outcome (rec_at c r) = None" if "rc_active c = Some r"
    using coordinator_invD(4) [OF c, of r] coordinator_invD(6) [OF c that] that by (simp add: record_ok_def Let_def)
  then have "record_extends (rec_at c r) (x\<lparr>rr_stop_sent := True\<rparr>)"
    by (auto simp: x_def record_extends_def)
  then have "coordinator_extends c (remember_terminal r (set_rec r (x\<lparr>rr_stop_sent := True\<rparr>)
      (c\<lparr>rc_state := s, rc_active := (if rc_active c = Some r then None else rc_active c)\<rparr>)))"
    using cancel_playback_generation [OF Pair] by (intro extends_one) (auto split: if_splits)
  moreover have "coordinator_extends c (c\<lparr>rc_state := s\<rparr>)"
    using cancel_playback_generation [OF Pair] by (auto simp: coordinator_extends_def split: if_splits)
  ultimately show ?thesis
    by (auto simp: response_fence_def Let_def Pair x_def split: if_splits)
qed

lemma response_playback_started_extends:
  "coordinator_extends c (snd (response_playback_started i g n c))"
  by (auto simp: response_playback_started_def Let_def record_extends_def split: sum.splits option.splits
      intro!: extends_one)

lemma response_playback_ended_extends:
  "coordinator_extends c (snd (response_playback_ended i g outcome n m c))"
proof (cases rule: response_playback_ended_cases [of i g outcome n m c])
  case (ended r s)
  then show ?thesis
    by (auto simp: record_extends_def finish_playback_generation
        intro!: extends_one [of _ _ r "(rec_at c r)\<lparr>rr_playback_ended := True\<rparr>"])
next
  case (stale r)
  then show ?thesis
    by (auto simp: record_extends_def intro!: extends_one [of _ _ r "(rec_at c r)\<lparr>rr_playback_ended := True\<rparr>"])
qed simp

lemma coordinator_close_extends: "coordinator_extends c (fst (snd (coordinator_close run ds c)))"
proof (cases "voice_close run ds (rc_state c)")
  case (fields r s w ds')
  then show ?thesis
    using voice_close_state [OF fields] by (auto simp: coordinator_close_def coordinator_extends_def)
qed

lemma coordinator_run_extends: "coordinator_inv c \<Longrightarrow> coordinator_extends c (coordinator_run op c)"
  by (cases op) (simp_all add: response_begin_extends note_media_extends response_complete_extends
      response_fence_extends response_playback_started_extends response_playback_ended_extends
      coordinator_close_extends)

lemma coordinator_steps_extends: "coordinator_steps c c' \<Longrightarrow> coordinator_inv c \<Longrightarrow> coordinator_extends c c'"
proof (induction rule: coordinator_steps.induct)
  case (steps_op c c' op)
  then show ?case
    using coordinator_run_extends [OF coordinator_steps_inv] coordinator_extends_trans by blast
qed simp


section \<open>Fencing\<close>

lemma response_fence_Inr:
  assumes c: "coordinator_inv c" and f: "response_fence r outcome err c = (Inr g, c')"
  shows "r < length (rc_heap c)" "g = vs_generation (rc_state c')" "g = vs_generation (rc_state c) + 1"
    "pr_generation (rr_target (rec_at c r)) = vs_generation (rc_state c)"
    "rr_stop_sent (rec_at c' r)" "rr_outcome (rec_at c' r) \<noteq> None" "rc_active c' = None"
    "rr_target (rec_at c' r) = rr_target (rec_at c r)" "length (rc_heap c') = length (rc_heap c)"
    "rc_playback c' = Some r"
proof -
  obtain d s where can: "cancel_playback (rr_target (rec_at c r)) (rc_state c) = (d, s)" by fastforce
  have p: "rc_playback c = Some r" and d: "d = APPLIED"
    using f can by (auto simp: response_fence_def Let_def split: if_splits)
  show r: "r < length (rc_heap c)" using coordinator_invD(5) [OF c p] .
  have s: "rc_state c' = s" and g: "g = vs_generation s"
    using f can d by (auto simp: response_fence_def Let_def split: if_splits)
  then show "g = vs_generation (rc_state c')" "g = vs_generation (rc_state c) + 1"
    using cancel_playback_generation [OF can] d by simp_all
  have active: "vs_active_playback (rc_state c) = Some (rr_target (rec_at c r))"
    using can d by (auto simp: cancel_playback_def split: if_splits)
  then show "pr_generation (rr_target (rec_at c r)) = vs_generation (rc_state c)"
    using coordinator_invD(1) [OF c] by (simp add: voice_inv_def)
  have act: "rc_active c = None \<or> rc_active c = Some r"
    using coordinator_invD(6) [OF c] p by (cases "rc_active c") auto
  have "rr_outcome (rec_at c r) = None \<longleftrightarrow> rc_active c = Some r"
    using coordinator_invD(4) [OF c r] by (simp add: record_ok_def Let_def)
  then show "rr_stop_sent (rec_at c' r)" "rr_outcome (rec_at c' r) \<noteq> None" "rc_active c' = None"
    "rr_target (rec_at c' r) = rr_target (rec_at c r)" "length (rc_heap c') = length (rc_heap c)"
    "rc_playback c' = Some r"
    using f can d act r p by (auto simp: response_fence_def Let_def split: if_splits)
qed

text \<open>A record that is terminal is never accepted again, whatever happens later.\<close>

lemma terminal_never_accepted:
  assumes c: "coordinator_inv c" and steps: "coordinator_steps c c'"
    and r: "r < length (rc_heap c)" and t: "rr_outcome (rec_at c r) \<noteq> None"
  shows "\<not> response_accepts c' r"
proof -
  have "coordinator_extends c c'" using coordinator_steps_extends [OF steps c] .
  then have "rr_outcome (rec_at c' r) \<noteq> None" "r < length (rc_heap c')"
    using r t by (auto simp: coordinator_extends_def record_extends_def)
  then show ?thesis
    using coordinator_invD(4) [OF coordinator_steps_inv [OF steps c], of r]
    by (auto simp: record_ok_def Let_def response_accepts_def)
qed

lemma records_length:
  assumes c: "coordinator_inv c"
  shows "length (rc_records c) \<le> 33"
proof -
  note rs = coordinator_invD(3) [OF c]
  have wf: "dict_wf (rc_records c)" using rs by (simp add: records_ok_def)
  define extra where "extra = (case rc_active c of None \<Rightarrow> {} | Some r \<Rightarrow> {record_key (rec_at c r)})"
  have "set (dict_keys (rc_records c)) \<subseteq> set (rc_terminal_order c) \<union> extra"
  proof
    fix k assume "k \<in> set (dict_keys (rc_records c))"
    then obtain r where "dict_get (rc_records c) k = Some r"
      by (metis domD dom_map_of_conv_image_fst list.set_map)
    note d = records_okD [OF rs this]
    then show "k \<in> set (rc_terminal_order c) \<union> extra" by (auto simp: extra_def)
  qed
  then have "card (set (dict_keys (rc_records c))) \<le> card (set (rc_terminal_order c) \<union> extra)"
    by (intro card_mono) (simp_all add: extra_def split: option.splits)
  also have "\<dots> \<le> card (set (rc_terminal_order c)) + card extra" by (rule card_Un_le)
  also have "card (set (rc_terminal_order c)) \<le> 32"
    using rs card_length [of "rc_terminal_order c"] by (simp add: records_ok_def)
  also have "card extra \<le> 1" by (simp add: extra_def split: option.splits)
  finally show ?thesis using distinct_card [OF wf] by simp
qed


section \<open>Properties\<close>

text \<open>
  C1. Fencing is final. Once a fence succeeds on a response, in any state the coordinator can reach, its
  fence generation is the successor of the target's generation, the response has an outcome, no callback of
  that response is accepted in any later state, its outcome and its error code never change again, and every
  response begun later has a generation above the fence.
\<close>

theorem fence_is_final:
  assumes "voice_session_init ports e t fresh = Some s" and "coordinator_steps (coordinator_init s) c"
    and f: "response_fence r outcome err c = (Inr g, c')" and later: "coordinator_steps c' c''"
  shows "g = pr_generation (rr_target (rec_at c r)) + 1 \<and> rr_outcome (rec_at c' r) \<noteq> None \<and>
    \<not> response_accepts c'' r \<and> rr_outcome (rec_at c'' r) = rr_outcome (rec_at c' r) \<and>
    rr_error_code (rec_at c'' r) = rr_error_code (rec_at c' r) \<and>
    (\<forall>r'. length (rc_heap c') \<le> r' \<and> r' < length (rc_heap c'') \<longrightarrow> g < pr_generation (rr_target (rec_at c'' r')))"
proof -
  have inv: "coordinator_inv c"
    using assms(1,2) coordinator_steps_inv coordinator_init_inv voice_init_inv
    by (fastforce simp: voice_session_init_def Let_def split: if_splits)
  have inv': "coordinator_inv c'" using response_fence_inv [OF inv, of r outcome err] f by simp
  note fence = response_fence_Inr [OF inv f]
  note ext = coordinator_steps_extends [OF later inv']
  have "\<not> response_accepts c'' r"
    using terminal_never_accepted [OF inv' later] fence by simp
  then show ?thesis
    using fence ext by (auto simp: coordinator_extends_def record_extends_def)
qed

definition demo_session :: voice_session where
  "demo_session = \<lparr>vs_connection_epoch = ''ep'', vs_close_ports = [], vs_close_stage_timeout = 2,
     vs_generation = 0, vs_active_playback = None, vs_closed = False, vs_close_task = None\<rparr>"

lemma demo_session_init: "voice_session_init [] (Some ''ep'') 2 [] = Some demo_session"
  by (simp add: voice_session_init_def demo_session_def)

definition demo_fenced :: response_coordinator where
  "demo_fenced = coordinator_run (OpBegin ''r1'' 7) (coordinator_init demo_session)"

definition demo_later :: response_coordinator where
  "demo_later = coordinator_run (OpBegin ''r2'' 8)
     (coordinator_run (OpEnded ''r1'' 1 PStopped 0 None) (snd (response_fence 0 RCancelled None demo_fenced)))"

lemma demo_fenced_steps: "coordinator_steps (coordinator_init demo_session) demo_fenced"
  unfolding demo_fenced_def by (intro steps_op steps_refl) simp

lemma demo_later_steps: "coordinator_steps (snd (response_fence 0 RCancelled None demo_fenced)) demo_later"
  unfolding demo_later_def by (intro steps_op steps_refl) simp_all

theorem fence_is_final_witness:
  "response_fence 0 RCancelled None demo_fenced = (Inr 2, snd (response_fence 0 RCancelled None demo_fenced)) \<and>
   length (rc_heap demo_later) = 2 \<and> 2 < pr_generation (rr_target (rec_at demo_later 1)) \<and>
   \<not> response_accepts demo_later 0"
proof -
  have "fst (response_fence 0 RCancelled None demo_fenced) = Inr 2" by code_simp
  then have f: "response_fence 0 RCancelled None demo_fenced = (Inr 2, snd (response_fence 0 RCancelled None demo_fenced))"
    by (metis prod.collapse)
  have l: "length (rc_heap demo_later) = 2" "length (rc_heap (snd (response_fence 0 RCancelled None demo_fenced))) = 1"
    by code_simp+
  show ?thesis
    using fence_is_final [OF demo_session_init demo_fenced_steps f demo_later_steps] f l by simp
qed

text \<open>
  C2. The coordinator's bookkeeping is sound and bounded in every reachable state: its invariant holds (one
  playback at a time, the active response is the current playback, an outcome exactly for the responses that
  are no longer active, strictly increasing generations, consistent lookup table), and it retains at most 33
  records and 32 terminal keys however long the session runs.
\<close>

theorem coordinator_bounded:
  assumes "voice_session_init ports e t fresh = Some s" and "coordinator_steps (coordinator_init s) c"
  shows "coordinator_inv c \<and> length (rc_records c) \<le> 33 \<and> length (rc_terminal_order c) \<le> 32"
proof -
  have inv: "coordinator_inv c"
    using assms coordinator_steps_inv coordinator_init_inv voice_init_inv
    by (fastforce simp: voice_session_init_def Let_def split: if_splits)
  then show ?thesis using records_length coordinator_invD(3) [OF inv] by (auto simp: records_ok_def)
qed

theorem coordinator_bounded_witness: "coordinator_inv demo_fenced \<and> length (rc_records demo_fenced) \<le> 33"
  using coordinator_bounded [OF demo_session_init demo_fenced_steps] by simp

end
