(* ===== verification/Rva_Binding.thy ===== *)
theory Rva_Binding
  imports Response_Coordinator
begin

text \<open>
  One rva/1 session of the worker, \<open>bindings/rva/binding.py\<close>: opening with profile selection, dispatch of
  the client's control messages, uplink and downlink media sequencing, the transcript and response events
  and cancellation. The audio and agent ports belong to the runtime; \<open>receive_media\<close> returns the packet it
  hands to the audio port.
\<close>

record inbound_audio =
  ia_sequence :: int
  ia_timestamp :: int
  ia_payload :: bytes

record control_effect =
  ce_outbound :: "wire_text list"
  ce_interrupt :: "nat option"
  ce_playback_started :: "nat option"
  ce_playback_ended :: "playback_ended_fact option"
  ce_close_after_send :: bool

definition no_effect :: control_effect where
  "no_effect = \<lparr>ce_outbound = [], ce_interrupt = None, ce_playback_started = None,
     ce_playback_ended = None, ce_close_after_send = False\<rparr>"

type_synonym cancel_identity = "string \<times> int \<times> string"

record binding =
  rb_expected_device_id :: string
  rb_session_id :: string
  rb_session_epoch :: string
  rb_media_id :: bytes
  rb_media_epoch :: int
  rb_allowed_profiles :: "string list"
  rb_udp_grant :: "json_dict option"
  rb_responses :: response_coordinator
  rb_opened :: bool
  rb_selected_media_profile :: "string option"
  rb_next_uplink_sequence :: int
  rb_next_downlink_sequence :: int
  rb_next_response_text_sequence :: int
  rb_active_utterance_id :: "string option"
  rb_next_transcript_sequence :: int
  rb_last_finalized_utterance :: "string option"
  rb_cancel_requests :: "(string, cancel_identity) dict"
  rb_cancel_request_order :: "string list"

type_synonym 'a binding_op = "(binding_error, 'a, binding) op_result"

section \<open>Construction\<close>

text \<open>
  The constructor. \<open>None\<close> is the \<open>ValueError\<close> of the coordinator for a timeout that is not positive; the
  session epoch is an identifier, so the coordinator never draws a fresh connection epoch.
\<close>

definition binding_init ::
    "string \<Rightarrow> string \<Rightarrow> string \<Rightarrow> bytes \<Rightarrow> int \<Rightarrow> string list \<Rightarrow> json_dict option \<Rightarrow> real \<Rightarrow>
      binding_error + binding option" where
  "binding_init expected_device_id session_id session_epoch media_id media_epoch allowed udp_grant timeout =
    bind_result (require_identifier (JStr expected_device_id) ''device_id'') (\<lambda>device.
    bind_result (require_identifier (JStr session_id) ''session_id'') (\<lambda>session.
    bind_result (require_identifier (JStr session_epoch) ''session_epoch'') (\<lambda>epoch.
    if length media_id \<noteq> 8 then Inl (RvaBindingError ''invalid_media_id'')
    else
    bind_result (require_uint32 (JInt media_epoch) ''media_epoch'' 1) (\<lambda>mepoch.
    Inr (case voice_session_init [''audio_port'', ''agent_port''] (Some epoch) timeout [] of
      None \<Rightarrow> None
    | Some s \<Rightarrow> Some
       \<lparr>rb_expected_device_id = device, rb_session_id = session, rb_session_epoch = epoch,
        rb_media_id = media_id, rb_media_epoch = mepoch, rb_allowed_profiles = allowed,
        rb_udp_grant = udp_grant, rb_responses = coordinator_init s, rb_opened = False,
        rb_selected_media_profile = None, rb_next_uplink_sequence = 0, rb_next_downlink_sequence = 0,
        rb_next_response_text_sequence = 0, rb_active_utterance_id = None,
        rb_next_transcript_sequence = 0, rb_last_finalized_utterance = None,
        rb_cancel_requests = [], rb_cancel_request_order = []\<rparr>)))))"

section \<open>Helpers\<close>

definition binding_closed :: "binding \<Rightarrow> bool" where
  "binding_closed b = coordinator_closed (rb_responses b)"

definition current_playback :: "binding \<Rightarrow> nat option" where
  "current_playback b = rc_playback (rb_responses b)"

definition active_response :: "binding \<Rightarrow> nat option" where
  "active_response b = rc_active (rb_responses b)"

definition active_playback :: "binding \<Rightarrow> playback_ref option" where
  "active_playback b = map_option (\<lambda>r. rr_target (rec_at (rb_responses b) r)) (current_playback b)"

definition ensure_open :: "binding \<Rightarrow> binding_error + unit" where
  "ensure_open b =
    (if binding_closed b then Inl (RvaBindingError ''session_closed'')
     else if \<not> rb_opened b then Inl (RvaBindingError ''session_not_open'')
     else Inr ())"

definition event :: "binding \<Rightarrow> string \<Rightarrow> json_dict \<Rightarrow> binding_error + wire_text" where
  "event b event_type fs = encode_control
    ([(''type'', JStr event_type), (''session_id'', JStr (rb_session_id b)),
      (''session_epoch'', JStr (rb_session_epoch b))] @ fs)"

definition require_context :: "binding \<Rightarrow> json_dict \<Rightarrow> binding_error + unit" where
  "require_context b message =
    (if jget message ''session_id'' \<noteq> JStr (rb_session_id b) \<or>
        jget message ''session_epoch'' \<noteq> JStr (rb_session_epoch b)
     then Inl (RvaBindingError ''stale_session'') else Inr ())"

definition parse_target :: "json \<Rightarrow> binding_error + string \<times> int" where
  "parse_target value = (case value of
      JObj d \<Rightarrow>
        bind_result (require_exact_fields d [''response_id'', ''generation'']) (\<lambda>_.
        bind_result (require_identifier (jget d ''response_id'') ''response_id'') (\<lambda>response_id.
        bind_result (require_uint32 (jget d ''generation'') ''generation'' 1) (\<lambda>g.
        Inr (response_id, g))))
    | _ \<Rightarrow> Inl (RvaBindingError ''invalid_cancel_target''))"

definition require_uint53 :: "json \<Rightarrow> string \<Rightarrow> binding_error + int" where
  "require_uint53 value name = (case value of
      JInt n \<Rightarrow> if 0 \<le> n \<and> n \<le> 9007199254740991 then Inr n else Inl (invalid_field name)
    | _ \<Rightarrow> Inl (invalid_field name))"

definition require_text :: "json \<Rightarrow> nat \<Rightarrow> bool \<Rightarrow> binding_error + unit" where
  "require_text value maximum_bytes allow_empty = (case value of
      JStr s \<Rightarrow>
        if \<not> allow_empty \<and> s = [] then Inl (RvaBindingError ''invalid_text'')
        else if maximum_bytes < length s then Inl (RvaBindingError ''text_too_large'')
        else Inr ()
    | _ \<Rightarrow> Inl (RvaBindingError ''invalid_text''))"

definition is_valid_error_code :: "string \<Rightarrow> bool" where
  "is_valid_error_code value \<longleftrightarrow> 1 \<le> length value \<and> length value \<le> 64 \<and>
     list_all (\<lambda>c. c \<in> set ''abcdefghijklmnopqrstuvwxyz0123456789_'') value"

definition with_responses ::
    "(response_coordinator \<Rightarrow> (binding_error, 'a, response_coordinator) op_result) \<Rightarrow> binding \<Rightarrow> 'a binding_op" where
  "with_responses f b = (let (r, c) = f (rb_responses b) in (r, b\<lparr>rb_responses := c\<rparr>))"


section \<open>Opening\<close>

definition select_profile :: "string list \<Rightarrow> string \<Rightarrow> string" where
  "select_profile offered preferred =
    (if preferred \<in> set offered then preferred
     else if WSS_PROFILE \<in> set offered then WSS_PROFILE else hd offered)"

definition opened_message :: "binding \<Rightarrow> session_open \<Rightarrow> string \<Rightarrow> json_dict" where
  "opened_message b opened selected =
    [(''type'', JStr ''session.opened''), (''request_id'', JStr (so_request_id opened)),
     (''session_id'', JStr (rb_session_id b)), (''session_epoch'', JStr (rb_session_epoch b)),
     (''media_id'', JStr (hex_of (rb_media_id b))), (''media_epoch'', JInt (rb_media_epoch b)),
     (''selected_media_profile'', JStr selected), (''audio'', JObj AUDIO_PROFILE),
     (''heartbeat_interval_ms'', JInt 15000), (''idle_timeout_ms'', JInt 45000),
     (''max_control_message_bytes'', JInt (int CONTROL_MAX_BYTES))] @
    (if selected = UDP_PROFILE
     then [(''udp_grant'', case rb_udp_grant b of None \<Rightarrow> JNull | Some g \<Rightarrow> JObj g)] else [])"

definition open_session :: "json_dict \<Rightarrow> binding \<Rightarrow> wire_text binding_op" where
  "open_session message b =
    (if rb_opened b then (Inl (RvaBindingError ''duplicate_session_open''), b)
     else if binding_closed b then (Inl (RvaBindingError ''session_closed''), b)
     else (case parse_session_open_object message of
        Inl e \<Rightarrow> (Inl e, b)
      | Inr opened \<Rightarrow>
          if so_device_id opened \<noteq> rb_expected_device_id b
            then (Inl (RvaBindingError ''device_id_mismatch''), b)
          else
            let offered = filter (\<lambda>p. p \<in> set (rb_allowed_profiles b)) (so_supported_media_profiles opened)
            in if offered = [] then (Inl (RvaBindingError ''unsupported_media_profile''), b)
               else
                 let selected = select_profile offered (so_preferred_media_profile opened)
                 in if selected = UDP_PROFILE \<and> rb_udp_grant b = None
                      then (Inl (RvaBindingError ''udp_unavailable''), b)
                    else (encode_control (opened_message b opened selected),
                          b\<lparr>rb_opened := True, rb_selected_media_profile := Some selected\<rparr>)))"

section \<open>Cancellation\<close>

definition STOP_CAUSES :: "string list" where
  "STOP_CAUSES = [''explicit_user_request'', ''recognized_interrupt'', ''session_close'', ''response_failed'']"

definition target_of :: "response_record \<Rightarrow> json" where
  "target_of x = JObj [(''response_id'', JStr (rr_response_id x)),
     (''generation'', JInt (pr_generation (rr_target x)))]"

definition stop_event :: "binding \<Rightarrow> response_record \<Rightarrow> int \<Rightarrow> string \<Rightarrow> binding_error + wire_text" where
  "stop_event b x fence cause = event b ''playback.stop''
     [(''target'', target_of x), (''fence_generation'', JInt fence), (''cause'', JStr cause)]"

text \<open>The \<open>response.end\<close> event of a fenced response; \<open>failed\<close> adds the error code.\<close>

definition fenced_end_event :: "binding \<Rightarrow> response_record \<Rightarrow> bool \<Rightarrow> binding_error + wire_text" where
  "fenced_end_event b x failed = event b ''response.end''
     ([(''response_id'', JStr (rr_response_id x)), (''generation'', JInt (pr_generation (rr_target x))),
       (''outcome'', JStr (if failed then ''failed'' else ''cancelled''))] @
      (if failed then [(''error_code'', JStr ''response_failed'')] else []))"

definition cancel_active_response :: "string \<Rightarrow> binding \<Rightarrow> control_effect binding_op" where
  "cancel_active_response cause b =
    bind_op (ensure_open b, b) (\<lambda>_ b.
    case current_playback b of
      None \<Rightarrow> (Inr no_effect, b)
    | Some r \<Rightarrow>
        if cause \<notin> set STOP_CAUSES then (Inl (RvaBindingError ''invalid_stop_cause''), b)
        else
          let failed = (cause = ''response_failed'')
          in bind_op (with_responses (response_fence r (if failed then RFailed else RCancelled)
                (if failed then Some ''response_failed'' else None)) b) (\<lambda>fence b.
             bind_op (stop_event b (rec_at (rb_responses b) r) fence cause, b) (\<lambda>stop b.
             if rr_outcome (rec_at (rb_responses b) r) \<noteq> Some RCompleted
             then bind_op (fenced_end_event b (rec_at (rb_responses b) r) failed, b) (\<lambda>end_event b.
                    (Inr (no_effect\<lparr>ce_outbound := [stop, end_event], ce_interrupt := Some r\<rparr>), b))
             else (Inr (no_effect\<lparr>ce_outbound := [stop], ce_interrupt := Some r\<rparr>), b))))"

text \<open>The trimming loop of \<open>_remember_cancel_request\<close>.\<close>

fun trim_cancel_requests ::
    "string list \<Rightarrow> (string, cancel_identity) dict \<Rightarrow> string list \<times> (string, cancel_identity) dict" where
  "trim_cancel_requests [] requests = ([], requests)"
| "trim_cancel_requests (expired # order) requests =
    (if length (expired # order) > 64 then trim_cancel_requests order (dict_pop expired requests)
     else (expired # order, requests))"

definition remember_cancel_request :: "string \<Rightarrow> cancel_identity \<Rightarrow> binding \<Rightarrow> binding" where
  "remember_cancel_request request_id identity b =
    (let (order, requests) = trim_cancel_requests (rb_cancel_request_order b @ [request_id])
           (dict_set request_id identity (rb_cancel_requests b))
     in b\<lparr>rb_cancel_requests := requests, rb_cancel_request_order := order\<rparr>)"

definition receive_cancel :: "json_dict \<Rightarrow> binding \<Rightarrow> control_effect binding_op" where
  "receive_cancel message b =
    bind_op (require_exact_fields message
      [''type'', ''session_id'', ''session_epoch'', ''request_id'', ''target'', ''cause''], b) (\<lambda>_ b.
    bind_op (require_context b message, b) (\<lambda>_ b.
    bind_op (require_identifier (jget message ''request_id'') ''request_id'', b) (\<lambda>request_id b.
    if jget message ''cause'' \<noteq> JStr ''user_request''
      then (Inl (RvaBindingError ''invalid_cancel_cause''), b)
    else
    bind_op (parse_target (jget message ''target''), b) (\<lambda>(response_id, g) b.
    let identity = (response_id, g, ''user_request'')
    in case dict_get (rb_cancel_requests b) request_id of
        Some previous \<Rightarrow>
          if previous \<noteq> identity then (Inl (RvaBindingError ''request_id_conflict''), b)
          else (Inr no_effect, b)
      | None \<Rightarrow>
          if (case current_playback b of None \<Rightarrow> True
              | Some r \<Rightarrow> rr_response_id (rec_at (rb_responses b) r) \<noteq> response_id \<or>
                          pr_generation (rr_target (rec_at (rb_responses b) r)) \<noteq> g)
            then (Inl (RvaBindingError ''stale_cancel_target''), b)
          else bind_op (cancel_active_response ''explicit_user_request'' b) (\<lambda>effect b.
                 (Inr effect, remember_cancel_request request_id identity b))))))"

section \<open>Playback evidence and closing\<close>

definition receive_playback_started :: "json_dict \<Rightarrow> binding \<Rightarrow> control_effect binding_op" where
  "receive_playback_started message b =
    bind_op (require_exact_fields message
      [''type'', ''session_id'', ''session_epoch'', ''target'', ''first_media_sequence''], b) (\<lambda>_ b.
    bind_op (require_context b message, b) (\<lambda>_ b.
    bind_op (parse_target (jget message ''target''), b) (\<lambda>(response_id, g) b.
    bind_op (require_uint32 (jget message ''first_media_sequence'') ''first_media_sequence'' 0, b) (\<lambda>n b.
    bind_op (with_responses (response_playback_started response_id g n) b) (\<lambda>r b.
    (Inr (no_effect\<lparr>ce_playback_started := Some r\<rparr>), b))))))"

text \<open>The field check shared by \<open>_playback_ended\<close> and \<open>_receive_close\<close>: one optional field.\<close>

definition require_fields_opt :: "json_dict \<Rightarrow> string list \<Rightarrow> string \<Rightarrow> binding_error + unit" where
  "require_fields_opt message required optional =
    (let actual = set (dict_keys message)
     in if actual \<noteq> set required \<and> actual \<noteq> insert optional (set required)
        then Inl (RvaBindingError (if set required - actual \<noteq> {} then ''missing_field'' else ''unknown_field''))
        else Inr ())"

definition playback_outcome_of :: "json \<Rightarrow> binding_error + playback_outcome" where
  "playback_outcome_of v = (case in_str_set v [''completed'', ''stopped'', ''failed''] of
      None \<Rightarrow> Inl PyTypeError
    | Some False \<Rightarrow> Inl (RvaBindingError ''invalid_playback_outcome'')
    | Some True \<Rightarrow> Inr (if v = JStr ''completed'' then PCompleted
                         else if v = JStr ''stopped'' then PStopped else PFailed))"

definition receive_playback_ended :: "json_dict \<Rightarrow> binding \<Rightarrow> control_effect binding_op" where
  "receive_playback_ended message b =
    bind_op (require_fields_opt message
      [''type'', ''session_id'', ''session_epoch'', ''target'', ''outcome'', ''played_samples'']
      ''last_media_sequence'', b) (\<lambda>_ b.
    bind_op (require_context b message, b) (\<lambda>_ b.
    bind_op (parse_target (jget message ''target''), b) (\<lambda>(response_id, g) b.
    bind_op (playback_outcome_of (jget message ''outcome''), b) (\<lambda>outcome b.
    bind_op (require_uint53 (jget message ''played_samples'') ''played_samples'', b) (\<lambda>played b.
    bind_op (if jget message ''last_media_sequence'' = JNull then Inr None
             else bind_result (require_uint32 (jget message ''last_media_sequence'') ''last_media_sequence'' 0)
                    (\<lambda>n. Inr (Some n)), b) (\<lambda>last_sequence b.
    if outcome = PCompleted \<and> last_sequence = None then (Inl (RvaBindingError ''missing_field''), b)
    else bind_op (with_responses (response_playback_ended response_id g outcome played last_sequence) b) (\<lambda>fact b.
    (Inr (no_effect\<lparr>ce_playback_ended := Some fact\<rparr>), b))))))))"

definition receive_close :: "json_dict \<Rightarrow> binding \<Rightarrow> control_effect binding_op" where
  "receive_close message b =
    bind_op (require_fields_opt message
      [''type'', ''session_id'', ''session_epoch'', ''reason'', ''initiated_by''] ''detail'', b) (\<lambda>_ b.
    bind_op (require_context b message, b) (\<lambda>_ b.
    if jget message ''initiated_by'' \<noteq> JStr ''device'' then (Inl (RvaBindingError ''invalid_close_initiator''), b)
    else
    bind_op (case in_str_set (jget message ''reason'') [''normal'', ''idle_timeout'', ''network_change'', ''protocol_error''] of
        None \<Rightarrow> Inl PyTypeError
      | Some False \<Rightarrow> Inl (RvaBindingError ''invalid_close_reason'')
      | Some True \<Rightarrow> Inr (), b) (\<lambda>_ b.
    bind_op (if ''detail'' \<in> set (dict_keys message) then require_text (jget message ''detail'') 256 True else Inr (), b) (\<lambda>_ b.
    bind_op (cancel_active_response ''session_close'' b) (\<lambda>cancelled b.
    bind_op (event b ''session.close'' [(''reason'', jget message ''reason''), (''initiated_by'', JStr ''server'')], b) (\<lambda>close b.
    (Inr (no_effect\<lparr>ce_outbound := ce_outbound cancelled @ [close], ce_interrupt := ce_interrupt cancelled,
                    ce_close_after_send := True\<rparr>), b)))))))"

definition receive_control :: "wire_text \<Rightarrow> binding \<Rightarrow> control_effect binding_op" where
  "receive_control raw b =
    bind_op (decode_control raw, b) (\<lambda>message b.
    let message_type = jget message ''type''
    in if message_type = JStr ''session.open''
         then bind_op (open_session message b) (\<lambda>t b. (Inr (no_effect\<lparr>ce_outbound := [t]\<rparr>), b))
       else bind_op (ensure_open b, b) (\<lambda>_ b.
         if message_type = JStr ''response.cancel.request'' then receive_cancel message b
         else if message_type = JStr ''playback.started'' then receive_playback_started message b
         else if message_type = JStr ''playback.ended'' then receive_playback_ended message b
         else if message_type = JStr ''session.close'' then receive_close message b
         else (Inl (RvaBindingError ''unknown_client_message''), b)))"

section \<open>Media\<close>

definition receive_media :: "bytes \<Rightarrow> binding \<Rightarrow> inbound_audio binding_op" where
  "receive_media raw b =
    bind_op (ensure_open b, b) (\<lambda>_ b.
    if rb_selected_media_profile b \<noteq> Some WSS_PROFILE then (Inl (RvaBindingError ''transport_mismatch''), b)
    else bind_op (parse raw, b) (\<lambda>frame b.
      if fr_media_id frame \<noteq> rb_media_id b \<or> fr_media_epoch frame \<noteq> rb_media_epoch b
        then (Inl (RvaBindingError ''stale_media_identity''), b)
      else if fr_generation frame \<noteq> 0 then (Inl (RvaBindingError ''invalid_uplink_generation''), b)
      else if fr_sequence frame \<noteq> rb_next_uplink_sequence b
        then (Inl (RvaBindingError ''invalid_media_sequence''), b)
      else (Inr \<lparr>ia_sequence = fr_sequence frame, ia_timestamp = fr_timestamp frame,
                 ia_payload = fr_payload frame\<rparr>,
            b\<lparr>rb_next_uplink_sequence := rb_next_uplink_sequence b + 1\<rparr>)))"

definition reserve_downlink_media :: "nat \<Rightarrow> binding \<Rightarrow> int binding_op" where
  "reserve_downlink_media r b =
    (if rb_next_downlink_sequence b > uint32_max then (Inl (RvaBindingError ''media_sequence_exhausted''), b)
     else
       let n = rb_next_downlink_sequence b
       in bind_op (with_responses (note_media r n) b) (\<lambda>_ b.
            (Inr n, b\<lparr>rb_next_downlink_sequence := rb_next_downlink_sequence b + 1\<rparr>)))"

definition note_downlink_media :: "nat \<Rightarrow> int \<Rightarrow> binding \<Rightarrow> unit binding_op" where
  "note_downlink_media r n b =
    bind_op (require_uint32 (JInt n) ''sequence'' 0, b) (\<lambda>n b. with_responses (note_media r n) b)"

definition serialize_audio :: "bytes \<Rightarrow> int \<Rightarrow> nat \<Rightarrow> binding \<Rightarrow> bytes binding_op" where
  "serialize_audio payload timestamp r b =
    bind_op (ensure_open b, b) (\<lambda>_ b.
    if rb_selected_media_profile b \<noteq> Some WSS_PROFILE then (Inl (RvaBindingError ''transport_mismatch''), b)
    else bind_op (reserve_downlink_media r b) (\<lambda>n b.
    bind_op (require_uint32 (JInt timestamp) ''timestamp'' 0, b) (\<lambda>ts b.
    (serialize \<lparr>fr_media_id = rb_media_id b, fr_media_epoch = rb_media_epoch b, fr_sequence = n,
       fr_timestamp = ts, fr_generation = pr_generation (rr_target (rec_at (rb_responses b) r)),
       fr_payload = payload\<rparr>, b))))"


section \<open>Transcript and response events\<close>

definition advance_transcript :: "string \<Rightarrow> int \<Rightarrow> bool \<Rightarrow> binding \<Rightarrow> unit binding_op" where
  "advance_transcript utterance_id n final b =
    (if Some utterance_id = rb_last_finalized_utterance b
       then (Inl (RvaBindingError ''transcript_already_final''), b)
     else if rb_active_utterance_id b = None \<and> n \<noteq> 0 then (Inl (RvaBindingError ''invalid_sequence''), b)
     else
       let b1 = (if rb_active_utterance_id b = None
                 then b\<lparr>rb_active_utterance_id := Some utterance_id, rb_next_transcript_sequence := 0\<rparr> else b)
       in if Some utterance_id \<noteq> rb_active_utterance_id b1 \<or> n \<noteq> rb_next_transcript_sequence b1
            then (Inl (RvaBindingError ''invalid_sequence''), b1)
          else if final
            then (Inr (), b1\<lparr>rb_next_transcript_sequence := 0, rb_last_finalized_utterance := Some utterance_id,
                             rb_active_utterance_id := None\<rparr>)
          else (Inr (), b1\<lparr>rb_next_transcript_sequence := rb_next_transcript_sequence b1 + 1\<rparr>))"

definition transcript_event :: "bool \<Rightarrow> string \<Rightarrow> int \<Rightarrow> json \<Rightarrow> binding \<Rightarrow> wire_text binding_op" where
  "transcript_event final utterance_id n txt b =
    bind_op (ensure_open b, b) (\<lambda>_ b.
    bind_op (require_identifier (JStr utterance_id) ''utterance_id'', b) (\<lambda>u b.
    bind_op (require_uint32 (JInt n) ''sequence'' 0, b) (\<lambda>n b.
    bind_op (if final then require_text txt 16384 True else require_text txt 4096 False, b) (\<lambda>_ b.
    bind_op (advance_transcript u n final b) (\<lambda>_ b.
    (event b (if final then ''transcript.final'' else ''transcript.delta'')
       [(''utterance_id'', JStr u), (''sequence'', JInt n), (''text'', txt)], b))))))"

definition transcript_delta :: "string \<Rightarrow> int \<Rightarrow> json \<Rightarrow> binding \<Rightarrow> wire_text binding_op" where
  "transcript_delta = transcript_event False"

definition transcript_final :: "string \<Rightarrow> int \<Rightarrow> json \<Rightarrow> binding \<Rightarrow> wire_text binding_op" where
  "transcript_final = transcript_event True"

definition begin_event :: "binding \<Rightarrow> response_record \<Rightarrow> binding_error + wire_text" where
  "begin_event b x = event b ''response.begin''
     [(''response_id'', JStr (rr_response_id x)), (''generation'', JInt (pr_generation (rr_target x)))]"

definition binding_response_begin :: "string \<Rightarrow> int \<Rightarrow> binding \<Rightarrow> (nat \<times> wire_text option) binding_op" where
  "binding_response_begin response_id producer_epoch b =
    bind_op (ensure_open b, b) (\<lambda>_ b.
    bind_op (require_identifier (JStr response_id) ''response_id'', b) (\<lambda>i b.
    bind_op (with_responses (response_begin i producer_epoch) b) (\<lambda>(r, created) b.
    if \<not> created then (Inr (r, None), b)
    else
      let b1 = b\<lparr>rb_next_response_text_sequence := 0\<rparr>
      in bind_op (begin_event b1 (rec_at (rb_responses b1) r), b1) (\<lambda>t b. (Inr (r, Some t), b)))))"

definition response_text :: "nat \<Rightarrow> int \<Rightarrow> json \<Rightarrow> binding \<Rightarrow> wire_text binding_op" where
  "response_text r n txt b =
    bind_op (ensure_open b, b) (\<lambda>_ b.
    if \<not> response_accepts (rb_responses b) r then (Inl stale_generation, b)
    else bind_op (require_uint32 (JInt n) ''sequence'' 0, b) (\<lambda>n b.
    if n \<noteq> rb_next_response_text_sequence b then (Inl (RvaBindingError ''invalid_sequence''), b)
    else bind_op (require_text txt 4096 False, b) (\<lambda>_ b.
      let x = rec_at (rb_responses b) r;
          b1 = b\<lparr>rb_next_response_text_sequence := rb_next_response_text_sequence b + 1\<rparr>
      in (event b1 ''response.text''
            [(''response_id'', JStr (rr_response_id x)), (''generation'', JInt (pr_generation (rr_target x))),
             (''sequence'', JInt n), (''text'', txt)], b1))))"

text \<open>After \<open>complete\<close> the last media sequence is known, so the \<open>assert\<close> holds (\<open>response_end_media\<close>).\<close>

definition end_event :: "binding \<Rightarrow> response_record \<Rightarrow> binding_error + wire_text" where
  "end_event b x = event b ''response.end''
     [(''response_id'', JStr (rr_response_id x)), (''generation'', JInt (pr_generation (rr_target x))),
      (''outcome'', JStr ''completed''),
      (''final_media_sequence'', case rr_last_media_sequence x of None \<Rightarrow> JNull | Some n \<Rightarrow> JInt n)]"

definition response_end :: "nat \<Rightarrow> binding \<Rightarrow> wire_text binding_op" where
  "response_end r b =
    bind_op (ensure_open b, b) (\<lambda>_ b.
    bind_op (with_responses (response_complete r) b) (\<lambda>_ b.
    (end_event b (rec_at (rb_responses b) r), b)))"

definition session_error :: "string \<Rightarrow> bool \<Rightarrow> json \<Rightarrow> binding \<Rightarrow> wire_text binding_op" where
  "session_error code retryable message b =
    bind_op (ensure_open b, b) (\<lambda>_ b.
    if \<not> is_valid_error_code code then (Inl (RvaBindingError ''invalid_error_code''), b)
    else bind_op (require_text message 512 True, b) (\<lambda>_ b.
    (event b ''session.error'' [(''code'', JStr code), (''retryable'', JBool retryable), (''message'', message)], b)))"

definition binding_close ::
    "(string \<Rightarrow> unit task) \<Rightarrow> detached \<Rightarrow> binding \<Rightarrow> (port_error list + unit) \<times> binding \<times> detached" where
  "binding_close run ds b =
    (let (r, c, ds') = coordinator_close run ds (rb_responses b) in (r, b\<lparr>rb_responses := c\<rparr>, ds'))"

section \<open>Invariant\<close>

text \<open>
  The session's own state is consistent with the coordinator: the counters stay in the range of the wire
  fields, the profile is chosen exactly when the session is open, and the cancel memory is a bounded queue
  without repetition.
\<close>

definition responses_ok :: "response_coordinator \<Rightarrow> bool" where
  "responses_ok c \<longleftrightarrow> coordinator_inv c \<and> list_all (\<lambda>x. is_identifier (rr_response_id x)) (rc_heap c)"

definition binding_inv :: "binding \<Rightarrow> bool" where
  "binding_inv b \<longleftrightarrow> responses_ok (rb_responses b) \<and>
     is_identifier (rb_session_id b) \<and> is_identifier (rb_session_epoch b) \<and>
     (rb_opened b \<longleftrightarrow> rb_selected_media_profile b \<noteq> None) \<and>
     (\<forall>p. rb_selected_media_profile b = Some p \<longrightarrow> p \<in> set (rb_allowed_profiles b) \<and> p \<in> set SUPPORTED_PROFILES \<and>
        (p = UDP_PROFILE \<longrightarrow> rb_udp_grant b \<noteq> None)) \<and>
     0 \<le> rb_next_uplink_sequence b \<and> rb_next_uplink_sequence b \<le> uint32_max + 1 \<and>
     0 \<le> rb_next_downlink_sequence b \<and> rb_next_downlink_sequence b \<le> uint32_max + 1 \<and>
     0 \<le> rb_next_response_text_sequence b \<and> 0 \<le> rb_next_transcript_sequence b \<and>
     dict_keys (rb_cancel_requests b) = rb_cancel_request_order b \<and> distinct (rb_cancel_request_order b) \<and>
     length (rb_cancel_request_order b) \<le> 64"

lemma responses_init_ok:
  "voice_inv s \<Longrightarrow> vs_active_playback s = None \<Longrightarrow> responses_ok (coordinator_init s)"
  by (simp add: responses_ok_def coordinator_init_inv) (simp add: coordinator_init_def)

text \<open>An operation that adds no record keeps the response ids.\<close>

lemma responses_ok_extends:
  assumes "responses_ok c" "coordinator_inv c'" "coordinator_extends c c'" "length (rc_heap c') = length (rc_heap c)"
  shows "responses_ok c'"
  using assms by (simp add: responses_ok_def coordinator_extends_def record_extends_def list_all_length rec_at_def)

lemma note_media_ok: "responses_ok c \<Longrightarrow> responses_ok (snd (note_media r n c))"
  by (rule responses_ok_extends [of c]) (auto simp: responses_ok_def note_media_inv note_media_extends, simp add: note_media_def Let_def)

lemma response_complete_ok: "responses_ok c \<Longrightarrow> responses_ok (snd (response_complete r c))"
  by (rule responses_ok_extends [of c])
    (auto simp: responses_ok_def response_complete_inv response_complete_extends, simp add: response_complete_def Let_def)

lemma response_fence_ok: "responses_ok c \<Longrightarrow> responses_ok (snd (response_fence r oc err c))"
  by (rule responses_ok_extends [of c])
    (auto simp: responses_ok_def response_fence_inv response_fence_extends,
     simp add: response_fence_def Let_def split: prod.splits)

lemma response_playback_started_ok: "responses_ok c \<Longrightarrow> responses_ok (snd (response_playback_started i g n c))"
  by (rule responses_ok_extends [of c])
    (auto simp: responses_ok_def response_playback_started_inv response_playback_started_extends,
     simp add: response_playback_started_def Let_def split: sum.splits option.splits)

lemma response_playback_ended_ok: "responses_ok c \<Longrightarrow> responses_ok (snd (response_playback_ended i g oc n m c))"
  by (rule responses_ok_extends [of c])
    (auto simp: responses_ok_def response_playback_ended_inv response_playback_ended_extends,
     cases rule: response_playback_ended_cases [of i g oc n m c], simp_all)

lemma coordinator_close_ok: "responses_ok c \<Longrightarrow> responses_ok (fst (snd (coordinator_close run ds c)))"
  by (rule responses_ok_extends [of c])
    (auto simp: responses_ok_def coordinator_close_inv coordinator_close_extends,
     simp add: coordinator_close_def split: prod.splits)

lemma response_begin_ok: "is_identifier i \<Longrightarrow> responses_ok c \<Longrightarrow> responses_ok (snd (response_begin i e c))"
  using response_begin_inv [of c i e]
  by (auto simp: responses_ok_def response_begin_def Let_def split: option.splits prod.splits sum.splits)

lemma binding_init_inv:
  "binding_init d s e m me allowed grant timeout = Inr (Some b) \<Longrightarrow> binding_inv b"
  by (auto simp: binding_init_def bind_result_Inr_iff binding_inv_def uint32_max_def voice_session_init_def Let_def
      split: if_splits option.splits intro!: responses_init_ok)
    (auto simp: voice_inv_def require_identifier_Inr is_identifier_def)


lemma binding_inv_responses:
  "binding_inv b \<Longrightarrow> responses_ok c \<Longrightarrow> binding_inv (b\<lparr>rb_responses := c\<rparr>)"
  by (simp add: binding_inv_def)

lemma with_responses_snd: "snd (with_responses f b) = b\<lparr>rb_responses := snd (f (rb_responses b))\<rparr>"
  by (simp add: with_responses_def case_prod_beta)

lemma with_responses_inv:
  assumes "binding_inv b" "\<And>c. responses_ok c \<Longrightarrow> responses_ok (snd (f c))"
  shows "keeps binding_inv (with_responses f b)"
  using assms by (simp add: keeps_def with_responses_snd binding_inv_responses binding_inv_def)

lemma supported_profiles:
  "parse_session_open_object m = Inr opened \<Longrightarrow>
    so_supported_media_profiles opened \<noteq> [] \<and> set (so_supported_media_profiles opened) \<subseteq> set SUPPORTED_PROFILES"
  by (auto simp: parse_session_open_object_def bind_result_Inr_iff split: if_splits dest!: parse_profiles_Inr)

lemma select_profile_mem: "offered \<noteq> [] \<Longrightarrow> select_profile offered p \<in> set offered"
  by (simp add: select_profile_def)

lemma open_session_inv:
  assumes b: "binding_inv b"
  shows "keeps binding_inv (open_session m b)"
proof -
  have "binding_inv (b\<lparr>rb_opened := True, rb_selected_media_profile :=
      Some (select_profile (filter (\<lambda>p. p \<in> set (rb_allowed_profiles b)) ps) q)\<rparr>)"
    if "filter (\<lambda>p. p \<in> set (rb_allowed_profiles b)) ps \<noteq> []" "set ps \<subseteq> set SUPPORTED_PROFILES"
      "\<not> (select_profile (filter (\<lambda>p. p \<in> set (rb_allowed_profiles b)) ps) q = UDP_PROFILE \<and> rb_udp_grant b = None)"
    for ps q
    using b that select_profile_mem [OF that(1), of q] by (auto simp: binding_inv_def)
  then show ?thesis
    unfolding open_session_def using b supported_profiles [of m] by (intro keeps_rules) blast+
qed

text \<open>Cancelling the playback changes nothing but the coordinator.\<close>

definition responses_only :: "binding \<Rightarrow> binding \<Rightarrow> bool" where
  "responses_only b b' \<longleftrightarrow> b' = b\<lparr>rb_responses := rb_responses b'\<rparr> \<and> responses_ok (rb_responses b')"

lemma responses_only_self: "binding_inv b \<Longrightarrow> responses_only b b"
  by (simp add: responses_only_def binding_inv_def)

lemma responses_only_with:
  "responses_only b b' \<Longrightarrow> (\<And>c. responses_ok c \<Longrightarrow> responses_ok (snd (f c))) \<Longrightarrow>
    keeps (responses_only b) (with_responses f b')"
  by (cases b; cases b') (simp add: keeps_def responses_only_def with_responses_snd)

lemma responses_only_inv: "binding_inv b \<Longrightarrow> responses_only b b' \<Longrightarrow> binding_inv b'"
  unfolding responses_only_def by (metis binding_inv_responses)

lemma responses_only_fields:
  "responses_only b b' \<Longrightarrow> rb_cancel_requests b' = rb_cancel_requests b \<and> rb_opened b' = rb_opened b \<and>
     rb_session_id b' = rb_session_id b \<and> rb_session_epoch b' = rb_session_epoch b"
  by (cases b; cases b') (simp add: responses_only_def)

lemma cancel_active_response_frame:
  assumes "binding_inv b"
  shows "keeps (responses_only b) (cancel_active_response cause b)"
  unfolding cancel_active_response_def
  by (intro keeps_rules keeps_bind responses_only_with responses_only_self response_fence_ok assms) 

lemma cancel_active_response_inv: "binding_inv b \<Longrightarrow> keeps binding_inv (cancel_active_response cause b)"
  using cancel_active_response_frame [of b cause] responses_only_inv [of b] by (simp add: keeps_def)

lemma trim_cancel_requests_spec:
  assumes "trim_cancel_requests order d = (order', d')" "dict_keys d = order" "distinct order"
  shows "dict_keys d' = order' \<and> distinct order' \<and> length order' \<le> 64"
  using assms
proof (induction order d rule: trim_cancel_requests.induct)
  case (2 expired order d)
  obtain v d1 where d: "d = (expired, v) # d1" "dict_keys d1 = order" using "2.prems"(2) by (cases d) auto
  show ?case
  proof (cases "length (expired # order) > 64")
    case True
    have "dict_pop expired d = d1" using d "2.prems"(3) by (simp add: dict_pop_notin)
    then show ?thesis using "2.IH" [OF True] "2.prems" d True by simp
  qed (use "2.prems" in auto)
qed simp

lemma remember_cancel_request_inv:
  assumes b: "binding_inv b" and new: "dict_get (rb_cancel_requests b) i = None"
  shows "binding_inv (remember_cancel_request i ident b)"
proof -
  have i: "i \<notin> set (dict_keys (rb_cancel_requests b))" using new by (simp add: map_of_eq_None_iff)
  obtain order requests where t: "trim_cancel_requests (rb_cancel_request_order b @ [i])
      (dict_set i ident (rb_cancel_requests b)) = (order, requests)" by fastforce
  have "dict_keys requests = order \<and> distinct order \<and> length order \<le> 64"
    using b i by (intro trim_cancel_requests_spec [OF t]) (auto simp: dict_set_new binding_inv_def)
  then show ?thesis using b t by (simp add: remember_cancel_request_def binding_inv_def)
qed

lemma receive_cancel_inv:
  assumes b: "binding_inv b"
  shows "keeps binding_inv (receive_cancel m b)"
proof -
  have "binding_inv (remember_cancel_request i ident s)"
    if "dict_get (rb_cancel_requests b) i = None" "cancel_active_response ''explicit_user_request'' b = (Inr a, s)"
       "binding_inv s" for i ident a s
    using that responses_only_fields [of b s] cancel_active_response_frame [OF b, of "''explicit_user_request''"]
    by (simp add: keeps_def remember_cancel_request_inv)
  then show ?thesis
    unfolding receive_cancel_def
    by (intro keeps_rules keeps_bind [OF cancel_active_response_inv] b)
qed

lemma receive_playback_started_inv: "binding_inv b \<Longrightarrow> keeps binding_inv (receive_playback_started m b)"
  unfolding receive_playback_started_def
  by (intro keeps_rules keeps_bind with_responses_inv response_playback_started_ok)

lemma receive_playback_ended_inv: "binding_inv b \<Longrightarrow> keeps binding_inv (receive_playback_ended m b)"
  unfolding receive_playback_ended_def
  by (intro keeps_rules keeps_bind with_responses_inv response_playback_ended_ok)

lemma receive_close_inv: "binding_inv b \<Longrightarrow> keeps binding_inv (receive_close m b)"
  unfolding receive_close_def
  by (intro keeps_rules keeps_bind cancel_active_response_inv)

lemma receive_control_inv: "binding_inv b \<Longrightarrow> keeps binding_inv (receive_control raw b)"
  unfolding receive_control_def
  by (intro keeps_rules keeps_bind open_session_inv receive_cancel_inv receive_playback_started_inv
      receive_playback_ended_inv receive_close_inv)

lemma receive_media_inv: "binding_inv b \<Longrightarrow> keeps binding_inv (receive_media raw b)"
  unfolding receive_media_def
  by (intro keeps_rules)
    (auto simp: binding_inv_def parse_eq frame_valid_def is_uint32_def uint32_max_def)

lemma reserve_downlink_media_inv: "binding_inv b \<Longrightarrow> keeps binding_inv (reserve_downlink_media r b)"
  unfolding reserve_downlink_media_def
  by (intro keeps_rules keeps_bind with_responses_inv note_media_ok)
    (auto simp: binding_inv_def with_responses_def split: prod.splits)

lemma note_downlink_media_inv: "binding_inv b \<Longrightarrow> keeps binding_inv (note_downlink_media r n b)"
  unfolding note_downlink_media_def by (intro keeps_rules with_responses_inv note_media_ok)

lemma serialize_audio_inv: "binding_inv b \<Longrightarrow> keeps binding_inv (serialize_audio p ts r b)"
  unfolding serialize_audio_def by (intro keeps_rules keeps_bind reserve_downlink_media_inv)

lemma advance_transcript_inv: "binding_inv b \<Longrightarrow> keeps binding_inv (advance_transcript u n f b)"
  unfolding advance_transcript_def by (intro keeps_rules) (auto simp: binding_inv_def)

lemma transcript_event_inv: "binding_inv b \<Longrightarrow> keeps binding_inv (transcript_event f u n txt b)"
  unfolding transcript_event_def by (intro keeps_rules keeps_bind advance_transcript_inv)

lemma binding_response_begin_inv: "binding_inv b \<Longrightarrow> keeps binding_inv (binding_response_begin i e b)"
  unfolding binding_response_begin_def
  by (intro keeps_rules keeps_bind with_responses_inv response_begin_ok)
    (auto simp: binding_inv_def require_identifier_Inr)

lemma response_text_inv: "binding_inv b \<Longrightarrow> keeps binding_inv (response_text r n txt b)"
  unfolding response_text_def by (intro keeps_rules) (auto simp: binding_inv_def)

lemma response_end_inv: "binding_inv b \<Longrightarrow> keeps binding_inv (response_end r b)"
  unfolding response_end_def by (intro keeps_rules keeps_bind with_responses_inv response_complete_ok)

lemma binding_close_inv: "binding_inv b \<Longrightarrow> binding_inv (fst (snd (binding_close run ds b)))"
  using coordinator_close_ok [of "rb_responses b" run ds]
  by (auto simp: binding_close_def binding_inv_def split: prod.splits)


section \<open>Events always fit a control frame\<close>

lemma sum_list_const_len: "list_all (\<lambda>x. f x = (1::nat)) xs \<Longrightarrow> sum_list (map f xs) = length xs"
  by (induction xs) auto

lemma ident_char_escaped: "ident_char c \<Longrightarrow> escaped_len c = 1"
proof -
  assume "ident_char c"
  then have "45 \<le> (of_char c :: nat) \<and> (of_char c :: nat) \<noteq> 92"
    unfolding ident_char_def Let_def by (elim disjE; simp; elim disjE; simp)
  moreover have "c \<in> {CHR 0x22, CHR 0x5C, CHR 0x0A, CHR 0x0D, CHR 0x09, CHR 0x08, CHR 0x0C} \<Longrightarrow>
      (of_char c :: nat) < 45 \<or> (of_char c :: nat) = 92"
    by (elim insertE emptyE) simp_all
  ultimately show ?thesis unfolding escaped_len_def by (simp split: if_splits del: insert_iff) blast
qed

lemma str_len_identifier: "is_identifier s \<Longrightarrow> str_len s \<le> 130"
  using sum_list_const_len [of escaped_len s]
  by (auto simp: is_identifier_def str_len_def list_all_iff ident_char_escaped)

lemma dec_len_le: "n < 10 ^ Suc k \<Longrightarrow> dec_len n \<le> Suc k"
proof (induction k arbitrary: n)
  case (Suc k)
  have "n div 10 < 10 ^ Suc k" using Suc.prems by (simp add: less_mult_imp_div_less)
  then show ?case using Suc.IH [of "n div 10"] by (subst dec_len.simps) simp
qed (subst dec_len.simps, simp)

lemma int_len_uint32: "0 \<le> n \<Longrightarrow> n \<le> uint32_max + 1 \<Longrightarrow> int_len n \<le> 10"
  using dec_len_le [of "nat n" 9] by (simp add: int_len_def uint32_max_def)

definition fields_len :: "json_dict \<Rightarrow> nat" where
  "fields_len d = sum_list (map (\<lambda>(k, v). str_len k + 1 + json_len v) d)"

lemma event_ok:
  assumes "binding_inv b" "\<not> has_surrogate (JObj fs)" "length fs \<le> 10" "str_len ty \<le> 100" "fields_len fs \<le> 30000"
  shows "\<exists>t. event b ty fs = Inr t"
proof -
  have "str_len (rb_session_id b) \<le> 130" "str_len (rb_session_epoch b) \<le> 130"
    using assms(1) by (simp_all add: binding_inv_def str_len_identifier)
  moreover have "str_len ''type'' + str_len ''session_id'' + str_len ''session_epoch'' \<le> 100"
    by (simp add: str_len_def escaped_len_def)
  ultimately show ?thesis
    using assms(2-) by (auto simp: event_def encode_control_def text_of_def Let_def fields_len_def bracket_len_def
        CONTROL_MAX_BYTES_def)
qed

section \<open>Cancellation succeeds\<close>

lemma ensure_open_iff: "ensure_open b = Inr u \<longleftrightarrow> rb_opened b \<and> \<not> binding_closed b"
  by (auto simp: ensure_open_def)

lemma fence_succeeds:
  assumes c: "coordinator_inv c" and p: "rc_playback c = Some r" and s: "\<not> rr_stop_sent (rec_at c r)"
    and o: "\<not> vs_closed (rc_state c)"
  shows "\<exists>c'. response_fence r outcome err c = (Inr (vs_generation (rc_state c) + 1), c')"
  using coordinator_invD(2) [OF c] p s o
  by (auto simp: response_fence_def cancel_playback_def playback_ok_def Let_def)

lemma cancel_active_response_ok:
  assumes b: "binding_inv b" and o: "ensure_open b = Inr ()" and p: "current_playback b = Some r"
    and s: "\<not> rr_stop_sent (rec_at (rb_responses b) r)" and cause: "cause \<in> set STOP_CAUSES"
    and g: "vs_generation (rc_state (rb_responses b)) \<le> uint32_max"
  shows "\<exists>eff b'. cancel_active_response cause b = (Inr eff, b') \<and> ce_interrupt eff = Some r \<and>
    responses_only b b' \<and> rr_stop_sent (rec_at (rb_responses b') r) \<and> active_response b' = None \<and>
    current_playback b' = Some r \<and>
    length (ce_outbound eff) = (if active_response b = Some r then 2 else 1)"
proof -
  define failed where "failed = (cause = ''response_failed'')"
  define oc where "oc = (if failed then RFailed else RCancelled)"
  define err where "err = (if failed then Some ''response_failed'' else None)"
  let ?c = "rb_responses b"
  have c: "coordinator_inv ?c" and ids: "list_all (\<lambda>x. is_identifier (rr_response_id x)) (rc_heap ?c)"
    using b by (simp_all add: binding_inv_def responses_ok_def)
  have pc: "rc_playback ?c = Some r" using p by (simp add: current_playback_def)
  obtain c' where f: "response_fence r oc err ?c = (Inr (vs_generation (rc_state ?c) + 1), c')"
    using fence_succeeds [OF c pc s] o by (auto simp: ensure_open_iff binding_closed_def coordinator_closed_def)
  note F = response_fence_Inr [OF c f]
  define b1 where "b1 = b\<lparr>rb_responses := c'\<rparr>"
  have w: "with_responses (response_fence r oc err) b = (Inr (vs_generation (rc_state ?c) + 1), b1)"
    by (simp add: with_responses_def f b1_def)
  have only: "responses_only b b1"
    using responses_only_with [OF responses_only_self [OF b], of "response_fence r oc err"] w
    by (simp add: keeps_def response_fence_ok)
  have b1: "binding_inv b1" using responses_only_inv [OF b only] .
  have x: "is_identifier (rr_response_id (rec_at c' r))" "r < length (rc_heap c')"
    using b1 F by (auto simp: binding_inv_def responses_ok_def b1_def list_all_length rec_at_def)
  have gen: "0 \<le> vs_generation (rc_state ?c)"
    using coordinator_invD(1) [OF c] by (simp add: voice_inv_def)
  have out: "(rr_outcome (rec_at c' r) = Some RCompleted) = (active_response b \<noteq> Some r)"
  proof -
    have "rr_outcome (rec_at ?c r) = None \<longleftrightarrow> rc_active ?c = Some r"
      "rr_outcome (rec_at ?c r) \<in> {Some RCancelled, Some RFailed} \<longrightarrow> rr_stop_sent (rec_at ?c r)"
      using coordinator_invD(4) [OF c F(1)] by (simp_all add: record_ok_def Let_def)
    moreover have "rr_outcome (rec_at c' r) = (if rc_active ?c = Some r then Some oc else rr_outcome (rec_at ?c r))"
      using f F(1) by (auto simp: response_fence_def Let_def split: if_splits prod.splits)
    ultimately show ?thesis
      using s by (cases "rr_outcome (rec_at ?c r)"; cases "the (rr_outcome (rec_at ?c r))")
        (auto simp: active_response_def oc_def)
  qed
  have sl: "str_len (rr_response_id (rec_at c' r)) \<le> 130" using str_len_identifier [OF x(1)] .
  have il: "int_len (vs_generation (rc_state ?c)) \<le> 10" "int_len (vs_generation (rc_state ?c) + 1) \<le> 10"
    using gen g by (auto intro: int_len_uint32)
  have tg: "pr_generation (rr_target (rec_at c' r)) = vs_generation (rc_state ?c)" using F by simp
  have cl: "str_len cause \<le> 30" using cause by (auto simp: STOP_CAUSES_def str_len_def escaped_len_def)
  have "\<exists>t. stop_event b1 (rec_at c' r) (vs_generation (rc_state ?c) + 1) cause = Inr t"
    unfolding stop_event_def using sl il tg cl
    by (intro event_ok [OF b1]) (auto simp: target_of_def fields_len_def bracket_len_def str_len_def escaped_len_def)
  then obtain t where t: "stop_event b1 (rec_at c' r) (vs_generation (rc_state ?c) + 1) cause = Inr t" by blast
  have "\<exists>t. fenced_end_event b1 (rec_at c' r) failed = Inr t"
    unfolding fenced_end_event_def using sl il tg
    by (intro event_ok [OF b1]) (auto simp: fields_len_def bracket_len_def str_len_def escaped_len_def)
  then obtain u where u: "fenced_end_event b1 (rec_at c' r) failed = Inr u" by blast
  define eff where "eff = no_effect\<lparr>ce_outbound := (if active_response b = Some r then [t, u] else [t]), ce_interrupt := Some r\<rparr>"
  have "cancel_active_response cause b = (Inr eff, b1)"
    using o p cause t u out w unfolding cancel_active_response_def
    by (simp add: Let_def b1_def eff_def flip: failed_def oc_def err_def)
  then show ?thesis using only F by (simp add: eff_def b1_def active_response_def current_playback_def)
qed


lemma trim_cancel_requests_last:
  assumes "dict_keys d = order" "distinct (order @ [i])"
  shows "dict_get (snd (trim_cancel_requests (order @ [i]) (d @ [(i, v)]))) i = Some v"
  using assms
proof (induction order arbitrary: d)
  case Nil
  then show ?case by simp
next
  case (Cons expired order)
  obtain w d1 where d: "d = (expired, w) # d1" "dict_keys d1 = order" using Cons.prems by (cases d) auto
  have "dict_pop expired (d @ [(i, v)]) = d1 @ [(i, v)]"
    using d Cons.prems by (auto simp: dict_pop_notin)
  moreover have "dict_get d i = None"
    using Cons.prems by (metis (no_types, lifting) distinct_append disjoint_insert(1) list.set_map list.simps(15)
        map_of_eq_None_iff)
  then have "dict_get (d @ [(i, v)]) i = Some v" by (simp add: map_add_def)
  ultimately show ?case using Cons.IH [of d1] d Cons.prems by simp
qed

lemma remember_cancel_request_get:
  assumes "binding_inv b" "dict_get (rb_cancel_requests b) i = None"
  shows "dict_get (rb_cancel_requests (remember_cancel_request i ident b)) i = Some ident"
proof -
  have i: "i \<notin> set (dict_keys (rb_cancel_requests b))" using assms(2) by (simp add: map_of_eq_None_iff)
  have "dict_keys (rb_cancel_requests b) = rb_cancel_request_order b" "distinct (rb_cancel_request_order b)"
    using assms(1) by (simp_all add: binding_inv_def)
  then show ?thesis
    using i trim_cancel_requests_last [of "rb_cancel_requests b" "rb_cancel_request_order b" i ident]
    by (simp add: remember_cancel_request_def dict_set_new [OF i] case_prod_beta)
qed

lemma remember_cancel_request_open: "ensure_open (remember_cancel_request i ident b) = ensure_open b"
  by (simp add: remember_cancel_request_def ensure_open_def binding_closed_def split: prod.splits)

lemma fence_keeps_open: "vs_closed (rc_state (snd (response_fence r oc err c))) = vs_closed (rc_state c)"
  by (auto simp: response_fence_def cancel_playback_def Let_def)

lemma cancel_keeps_open:
  assumes "cancel_active_response cause b = (Inr effect, s)"
  shows "ensure_open s = ensure_open b"
proof -
  have "keeps (\<lambda>b'. ensure_open b' = ensure_open b) (cancel_active_response cause b)"
    unfolding cancel_active_response_def
    by (intro keeps_rules keeps_bind)
      (auto simp: keeps_def with_responses_snd ensure_open_def binding_closed_def coordinator_closed_def fence_keeps_open
        split: if_splits)
  then show ?thesis using assms by (simp add: keeps_def)
qed

section \<open>Properties\<close>

text \<open>
  C9. Uplink media is delivered in order and without gaps. Whatever frames a client sends, in any number and
  with any content, the packets handed to the audio port carry consecutive sequence numbers from the next
  expected one on, each with a payload of one to 1200 bytes, and the expected number advances by exactly the
  packets delivered; a frame that is refused leaves the expectation where it was.
\<close>

theorem uplink_in_order:
  "(case run_all receive_media raws b of (packets, b') \<Rightarrow>
      map ia_sequence packets =
        [rb_next_uplink_sequence b..rb_next_uplink_sequence b + int (length packets) - 1] \<and>
      rb_next_uplink_sequence b' = rb_next_uplink_sequence b + int (length packets) \<and>
      list_all (\<lambda>p. ia_payload p \<noteq> [] \<and> length (ia_payload p) \<le> MEDIA_MAX_PAYLOAD_BYTES) packets)"
proof -
  have "case receive_media raw b of (Inl e, b') \<Rightarrow> rb_next_uplink_sequence b' = rb_next_uplink_sequence b
      | (Inr a, b') \<Rightarrow> ia_sequence a = rb_next_uplink_sequence b \<and>
          rb_next_uplink_sequence b' = rb_next_uplink_sequence b + 1" for raw b
    by (auto simp: receive_media_def bind_op_def split: sum.splits)
  note counter = run_all_counter [where f = receive_media and cnt = rb_next_uplink_sequence and num = ia_sequence
      and xs = raws and s = b, OF this]
  have one: "ia_payload a \<noteq> [] \<and> length (ia_payload a) \<le> MEDIA_MAX_PAYLOAD_BYTES"
    if "receive_media raw b = (Inr a, b')" for raw b a b'
    using that by (auto simp: receive_media_def bind_op_Inr_iff parse_eq frame_valid_def split: if_splits)
  have "list_all (\<lambda>p. ia_payload p \<noteq> [] \<and> length (ia_payload p) \<le> MEDIA_MAX_PAYLOAD_BYTES)
      (fst (run_all receive_media raws b))"
    using one by (rule run_all_list_all)
  then show ?thesis using counter by (simp add: case_prod_beta)
qed

text \<open>
  Cancelling is idempotent. A cancel request that the session answered is remembered: repeating the same
  control message is answered with no effect, sends nothing and changes nothing, so a response is fenced at
  most once for one request id.
\<close>

theorem cancel_request_idempotent:
  assumes b: "binding_inv b" and m: "decode_control raw = Inr m" "jget m ''type'' = JStr ''response.cancel.request''"
    and first: "receive_control raw b = (Inr effect, b')"
  shows "receive_control raw b' = (Inr no_effect, b')"
proof -
  have o: "ensure_open b = Inr ()" and rc: "receive_cancel m b = (Inr effect, b')"
    using first m by (auto simp: receive_control_def bind_op_Inr_iff Let_def)
  obtain i response_id g where
    chk: "require_exact_fields m [''type'', ''session_id'', ''session_epoch'', ''request_id'', ''target'', ''cause''] = Inr ()"
      "require_context b m = Inr ()" "require_identifier (jget m ''request_id'') ''request_id'' = Inr i"
      "jget m ''cause'' = JStr ''user_request''" "parse_target (jget m ''target'') = Inr (response_id, g)"
    using rc by (auto simp: receive_cancel_def bind_op_Inr_iff split: if_splits)
  define ident where "ident = (response_id, g, ''user_request'')"
  have same: "receive_cancel m b' = (Inr no_effect, b')"
    if "require_context b' m = Inr ()" "dict_get (rb_cancel_requests b') i = Some ident"
    using chk that by (simp add: receive_cancel_def Let_def ident_def)
  show ?thesis
  proof (cases "dict_get (rb_cancel_requests b) i")
    case (Some previous)
    then have "b' = b" "previous = ident"
      using rc chk by (auto simp: receive_cancel_def Let_def ident_def split: if_splits)
    then show ?thesis using same o m Some chk by (simp add: receive_control_def)
  next
    case None
    obtain s where can: "cancel_active_response ''explicit_user_request'' b = (Inr effect, s)"
      and b': "b' = remember_cancel_request i ident s"
      using rc chk None by (auto simp: receive_cancel_def Let_def ident_def bind_op_Inr_iff split: if_splits)
    have only: "responses_only b s"
      using cancel_active_response_frame [OF b, of "''explicit_user_request''"] can by (simp add: keeps_def)
    note fs = responses_only_fields [OF only]
    have s: "binding_inv s" "dict_get (rb_cancel_requests s) i = None"
      using responses_only_inv [OF b only] None fs by simp_all
    have "dict_get (rb_cancel_requests b') i = Some ident"
      using remember_cancel_request_get [OF s] b' by simp
    moreover have "require_context b' m = Inr ()"
      using chk(2) fs b' by (simp add: require_context_def remember_cancel_request_def split: prod.splits if_splits)
    moreover have "ensure_open b' = Inr ()"
      using cancel_keeps_open [OF can] o b' by (simp add: remember_cancel_request_open)
    ultimately show ?thesis using same m by (simp add: receive_control_def)
  qed
qed


text \<open>What a well-formed \<open>session.close\<close> of the device is, without the optional detail.\<close>

definition is_close_message :: "binding \<Rightarrow> json_dict \<Rightarrow> bool" where
  "is_close_message b m \<longleftrightarrow>
     set (dict_keys m) = {''type'', ''session_id'', ''session_epoch'', ''reason'', ''initiated_by''} \<and>
     jget m ''type'' = JStr ''session.close'' \<and> jget m ''session_id'' = JStr (rb_session_id b) \<and>
     jget m ''session_epoch'' = JStr (rb_session_epoch b) \<and> jget m ''initiated_by'' = JStr ''device'' \<and>
     in_str_set (jget m ''reason'') [''normal'', ''idle_timeout'', ''network_change'', ''protocol_error''] = Some True"

lemma receive_close_message:
  assumes "is_close_message b m" "decode_control raw = Inr m" "ensure_open b = Inr ()"
  shows "receive_control raw b = bind_op (cancel_active_response ''session_close'' b) (\<lambda>cancelled b.
    bind_op (event b ''session.close'' [(''reason'', jget m ''reason''), (''initiated_by'', JStr ''server'')], b) (\<lambda>close b.
    (Inr (no_effect\<lparr>ce_outbound := ce_outbound cancelled @ [close], ce_interrupt := ce_interrupt cancelled,
                    ce_close_after_send := True\<rparr>), b)))"
proof -
  have "''detail'' \<notin> set (dict_keys m)" using assms(1) by (simp add: is_close_message_def)
  then show ?thesis
    using assms by (simp add: receive_control_def receive_close_def is_close_message_def require_fields_opt_def
        require_context_def Let_def)
qed

text \<open>
  A well-formed close is honoured: on an open session that is not waiting for the client to confirm a stop,
  it is answered with the server's \<open>session.close\<close> as the last event and ends the session; a playback that is
  running is fenced first, with its stop and, if the response was still being produced, its end announced.
\<close>

theorem close_accepted:
  assumes b: "binding_inv b" and o: "ensure_open b = Inr ()"
    and m: "is_close_message b m" "decode_control raw = Inr m"
    and g: "vs_generation (rc_state (rb_responses b)) \<le> uint32_max"
    and idle: "\<And>r. current_playback b = Some r \<Longrightarrow> \<not> rr_stop_sent (rec_at (rb_responses b) r)"
  shows "\<exists>eff b'. receive_control raw b = (Inr eff, b') \<and> ce_close_after_send eff \<and>
    ce_interrupt eff = current_playback b \<and> active_response b' = None \<and>
    length (ce_outbound eff) = 1 + (if current_playback b = None then 0 else if active_response b = None then 1 else 2)"
proof -
  have c: "coordinator_inv (rb_responses b)" using b by (simp add: binding_inv_def responses_ok_def)
  obtain reason where reason: "jget m ''reason'' = JStr reason"
    "reason \<in> set [''normal'', ''idle_timeout'', ''network_change'', ''protocol_error'']"
    using m(1) unfolding is_close_message_def in_str_set_Some_True by blast
  then have "str_len reason \<le> 20" by (auto simp: str_len_def escaped_len_def)
  then have close: "\<exists>t. event b1 ''session.close'' [(''reason'', jget m ''reason''), (''initiated_by'', JStr ''server'')] = Inr t"
    if "binding_inv b1" for b1
    using reason(1) by (intro event_ok [OF that]) (simp_all add: fields_len_def, simp_all add: str_len_def escaped_len_def)
  obtain cancelled b1 where can: "cancel_active_response ''session_close'' b = (Inr cancelled, b1)"
    "ce_interrupt cancelled = current_playback b" "active_response b1 = None" "binding_inv b1"
    "length (ce_outbound cancelled) = (if current_playback b = None then 0 else if active_response b = None then 1 else 2)"
  proof (cases "current_playback b")
    case None
    then have "active_response b = None"
      using coordinator_invD(2) [OF c] by (simp add: current_playback_def active_response_def playback_ok_def)
    then show thesis using that [of no_effect b] None o b by (simp add: cancel_active_response_def no_effect_def)
  next
    case (Some r)
    have "''session_close'' \<in> set STOP_CAUSES" by (simp add: STOP_CAUSES_def)
    then obtain eff b' where e: "cancel_active_response ''session_close'' b = (Inr eff, b')" "ce_interrupt eff = Some r"
      "responses_only b b'" "active_response b' = None" "length (ce_outbound eff) = (if active_response b = Some r then 2 else 1)"
      using cancel_active_response_ok [OF b o Some idle [OF Some] _ g, of "''session_close''"] by auto
    have "active_response b = None \<or> active_response b = Some r"
      using coordinator_invD(6) [OF c] Some by (cases "active_response b") (auto simp: current_playback_def active_response_def)
    moreover have "binding_inv b'" using responses_only_inv [OF b e(3)] .
    ultimately show thesis using e Some by (intro that [OF e(1)]) auto
  qed
  obtain t where "event b1 ''session.close'' [(''reason'', jget m ''reason''), (''initiated_by'', JStr ''server'')] = Inr t"
    using close [OF can(4)] by blast
  then show ?thesis using receive_close_message [OF m o] can by simp
qed

text \<open>
  C10. The same close is refused while the client has been told to stop and has not confirmed yet: the session
  answers \<open>stale_generation\<close>, and nothing changes.
\<close>

theorem close_refused_while_stopping:
  assumes b: "binding_inv b" and o: "ensure_open b = Inr ()"
    and m: "is_close_message b m" "decode_control raw = Inr m"
    and p: "current_playback b = Some r" and s: "rr_stop_sent (rec_at (rb_responses b) r)"
  shows "receive_control raw b = (Inl stale_generation, b)"
  using receive_close_message [OF m o] o p s
  by (simp add: cancel_active_response_def STOP_CAUSES_def response_fence_def with_responses_def Let_def)


section \<open>Witnesses\<close>

text \<open>An open WSS session with one response being produced, and the same session after a stop.\<close>

definition demo_record :: response_record where
  "demo_record = \<lparr>rr_response_id = ''r1'', rr_target = \<lparr>pr_connection_epoch = ''e1'', pr_generation = 1\<rparr>,
     rr_producer_epoch = 0, rr_first_media_sequence = None, rr_last_media_sequence = None, rr_outcome = None,
     rr_error_code = None, rr_stop_sent = False, rr_playback_started = False, rr_playback_ended = False\<rparr>"

definition demo_voice :: voice_session where
  "demo_voice = \<lparr>vs_connection_epoch = ''e1'', vs_close_ports = [''audio_port'', ''agent_port''],
     vs_close_stage_timeout = 2, vs_generation = 1,
     vs_active_playback = Some \<lparr>pr_connection_epoch = ''e1'', pr_generation = 1\<rparr>, vs_closed = False,
     vs_close_task = None\<rparr>"

definition demo_responses :: response_coordinator where
  "demo_responses = \<lparr>rc_state = demo_voice, rc_heap = [demo_record], rc_active = Some 0, rc_playback = Some 0,
     rc_records = [((''r1'', 1), 0)], rc_terminal_order = []\<rparr>"

definition demo_playing :: binding where
  "demo_playing = \<lparr>rb_expected_device_id = ''dev'', rb_session_id = ''s1'', rb_session_epoch = ''e1'',
     rb_media_id = replicate 8 0, rb_media_epoch = 1, rb_allowed_profiles = [WSS_PROFILE], rb_udp_grant = None,
     rb_responses = demo_responses, rb_opened = True, rb_selected_media_profile = Some WSS_PROFILE,
     rb_next_uplink_sequence = 0, rb_next_downlink_sequence = 0, rb_next_response_text_sequence = 0,
     rb_active_utterance_id = None, rb_next_transcript_sequence = 0, rb_last_finalized_utterance = None,
     rb_cancel_requests = [], rb_cancel_request_order = []\<rparr>"

definition demo_cancel :: json_dict where
  "demo_cancel = [(''type'', JStr ''response.cancel.request''), (''session_id'', JStr ''s1''),
     (''session_epoch'', JStr ''e1''), (''request_id'', JStr ''q2''), (''cause'', JStr ''user_request''),
     (''target'', JObj [(''response_id'', JStr ''r1''), (''generation'', JInt 1)])]"

definition demo_close :: json_dict where
  "demo_close = [(''type'', JStr ''session.close''), (''session_id'', JStr ''s1''),
     (''session_epoch'', JStr ''e1''), (''reason'', JStr ''normal''), (''initiated_by'', JStr ''device'')]"

lemma demo_ids: "is_identifier ''s1''" "is_identifier ''e1''" "is_identifier ''r1''" "is_identifier ''q2''"
  by (simp_all add: is_identifier_def ident_char_def)

lemmas demo_defs = demo_playing_def demo_responses_def demo_voice_def demo_record_def

lemma demo_playing_inv: "binding_inv demo_playing"
  by (simp add: binding_inv_def responses_ok_def coordinator_inv_def voice_inv_def playback_ok_def records_ok_def
      record_ok_def record_key_def rec_at_def demo_defs demo_ids SUPPORTED_PROFILES_def WSS_PROFILE_def UDP_PROFILE_def
      uint32_max_def)

lemma demo_playing_facts:
  "ensure_open demo_playing = Inr ()" "current_playback demo_playing = Some 0" "active_response demo_playing = Some 0"
  "\<not> rr_stop_sent (rec_at (rb_responses demo_playing) 0)"
  "vs_generation (rc_state (rb_responses demo_playing)) \<le> uint32_max"
  by (simp_all add: ensure_open_def binding_closed_def coordinator_closed_def current_playback_def active_response_def
      rec_at_def uint32_max_def demo_defs)

lemma demo_playing_fields:
  "rr_response_id (rec_at (rb_responses demo_playing) 0) = ''r1''"
  "pr_generation (rr_target (rec_at (rb_responses demo_playing) 0)) = 1"
  "rb_session_id demo_playing = ''s1''" "rb_session_epoch demo_playing = ''e1''" "rb_cancel_requests demo_playing = []"
  by (simp_all add: rec_at_def demo_defs)

lemma demo_stopped:
  assumes "cause \<in> set STOP_CAUSES"
  obtains eff b' where "cancel_active_response cause demo_playing = (Inr eff, b')"
    "responses_only demo_playing b'" "rr_stop_sent (rec_at (rb_responses b') 0)" "ensure_open b' = Inr ()"
    "current_playback b' = Some 0"
  using cancel_active_response_ok [OF demo_playing_inv demo_playing_facts(1,2,4) assms demo_playing_facts(5)]
    cancel_keeps_open [of cause demo_playing] demo_playing_facts(1) by auto

lemma demo_decode: "decode_control (text_of (JObj demo_cancel)) = Inr demo_cancel"
  "decode_control (text_of (JObj demo_close)) = Inr demo_close"
  by (simp_all add: decode_control_def text_of_def demo_cancel_def demo_close_def CONTROL_MAX_BYTES_def
      str_len_def escaped_len_def bracket_len_def int_len_def dec_len.simps)

lemma demo_close_message: "rb_session_id b = ''s1'' \<Longrightarrow> rb_session_epoch b = ''e1'' \<Longrightarrow> is_close_message b demo_close"
  by (simp add: is_close_message_def demo_close_def jget_def insert_commute)


lemma explicit_cause: "''explicit_user_request'' \<in> set STOP_CAUSES"
  by (simp add: STOP_CAUSES_def)

theorem cancel_request_idempotent_witness:
  "\<exists>eff b'. receive_control (text_of (JObj demo_cancel)) demo_playing = (Inr eff, b') \<and>
     receive_control (text_of (JObj demo_cancel)) b' = (Inr no_effect, b')"
proof -
  obtain eff b1 where can: "cancel_active_response ''explicit_user_request'' demo_playing = (Inr eff, b1)"
    using demo_stopped [OF explicit_cause] by blast
  have ty: "jget demo_cancel ''type'' = JStr ''response.cancel.request''" by (simp add: demo_cancel_def jget_def)
  have "receive_cancel demo_cancel demo_playing =
      (Inr eff, remember_cancel_request ''q2'' (''r1'', 1, ''user_request'') b1)"
    by (simp add: receive_cancel_def demo_cancel_def require_exact_fields_def insert_commute require_context_def
        jget_def require_identifier_def demo_ids parse_target_def require_uint32_def validate_uint32_def uint32_max_def
        check_that_def can demo_playing_facts demo_playing_fields Let_def)
  then have "receive_control (text_of (JObj demo_cancel)) demo_playing =
      (Inr eff, remember_cancel_request ''q2'' (''r1'', 1, ''user_request'') b1)"
    using ty by (simp add: receive_control_def demo_decode demo_playing_facts)
  then show ?thesis using cancel_request_idempotent [OF demo_playing_inv demo_decode(1) ty] by blast
qed

theorem close_accepted_witness:
  "\<exists>eff b'. receive_control (text_of (JObj demo_close)) demo_playing = (Inr eff, b') \<and> ce_close_after_send eff \<and>
     length (ce_outbound eff) = 3"
proof -
  have "is_close_message demo_playing demo_close" by (rule demo_close_message) (simp_all add: demo_playing_def)
  note c = close_accepted [OF demo_playing_inv demo_playing_facts(1) this demo_decode(2) demo_playing_facts(5)]
  show ?thesis using c demo_playing_facts by auto
qed

theorem close_refused_while_stopping_witness:
  "\<exists>b. \<not> binding_closed b \<and> receive_control (text_of (JObj demo_close)) b = (Inl stale_generation, b)"
proof -
  obtain eff b1 where b1: "cancel_active_response ''explicit_user_request'' demo_playing = (Inr eff, b1)"
    "responses_only demo_playing b1" "rr_stop_sent (rec_at (rb_responses b1) 0)" "ensure_open b1 = Inr ()"
    "current_playback b1 = Some 0"
    using demo_stopped [OF explicit_cause] .
  have inv: "binding_inv b1" using responses_only_inv [OF demo_playing_inv b1(2)] .
  have "is_close_message b1 demo_close"
    using responses_only_fields [OF b1(2)] by (intro demo_close_message) (simp_all add: demo_playing_def)
  then have "receive_control (text_of (JObj demo_close)) b1 = (Inl stale_generation, b1)"
    by (rule close_refused_while_stopping [OF inv b1(4) _ demo_decode(2) b1(5,3)])
  then show ?thesis using b1(4) by (auto simp: ensure_open_iff)
qed

end
