(* ===== verification/Uplink_Queue.thy ===== *)
theory Uplink_Queue
  imports Rva_Binding
begin

text \<open>
  The uplink path of \<open>bindings/rva/runtime.py\<close> between the binding and the agent: \<open>_AudioQueuePort\<close>, which checks
  the media timestamps of arriving packets, paces a WSS client, keeps a media timeline and bounds the queue, and the
  freshness recovery of the connection that owns it. Times are reals: rounding of floats is not modelled.
\<close>

section \<open>Limits\<close>

record runtime_limits =
  rl_input_queue_packets :: int
  rl_output_queue_items :: int
  rl_max_segment_frames :: int
  rl_queue_timeout_seconds :: real
  rl_uplink_max_age_seconds :: real
  rl_wire_send_timeout_seconds :: real
  rl_handshake_timeout_seconds :: real
  rl_runner_timeout_seconds :: real
  rl_close_timeout_seconds :: real
  rl_agent_close_stage_timeout_seconds :: real
  rl_playback_terminal_timeout_seconds :: real
  rl_idle_timeout_seconds :: real
  rl_playback_prebuffer_packets :: int
  rl_max_consecutive_invalid_opus_packets :: int

text \<open>\<open>__post_init__\<close>: whether the limits are accepted.\<close>

definition limits_valid :: "runtime_limits \<Rightarrow> bool" where
  "limits_valid l \<longleftrightarrow> rl_input_queue_packets l > 0 \<and> rl_output_queue_items l > 0 \<and> rl_max_segment_frames l > 0 \<and>
    rl_queue_timeout_seconds l > 0 \<and> rl_uplink_max_age_seconds l > 0 \<and> rl_wire_send_timeout_seconds l > 0 \<and>
    rl_handshake_timeout_seconds l > 0 \<and> rl_runner_timeout_seconds l > 0 \<and> rl_close_timeout_seconds l > 0 \<and>
    rl_agent_close_stage_timeout_seconds l > 0 \<and> rl_playback_terminal_timeout_seconds l > 0 \<and> rl_idle_timeout_seconds l > 0 \<and>
    rl_max_consecutive_invalid_opus_packets l > 0 \<and> rl_playback_prebuffer_packets l \<ge> 0"

definition SAMPLE_RATE :: int where "SAMPLE_RATE = 16000"
definition FRAME_DURATION_MS :: int where "FRAME_DURATION_MS = 60"
definition SAMPLES_PER_PACKET :: int where "SAMPLES_PER_PACKET = SAMPLE_RATE * FRAME_DURATION_MS div 1000"
definition TIMELINE_PACING_TOLERANCE_SECONDS :: real where "TIMELINE_PACING_TOLERANCE_SECONDS = 15 / 1000"
definition TIMELINE_MAX_CORRECTION_SECONDS :: real where "TIMELINE_MAX_CORRECTION_SECONDS = 5 / 1000"
definition TIMELINE_REBASE_SECONDS :: real where "TIMELINE_REBASE_SECONDS = 30"
definition TIMELINE_MAX_WSS_CLOCK_SKEW_RATIO :: real where "TIMELINE_MAX_WSS_CLOCK_SKEW_RATIO = 2 / 100"
definition UPLINK_STALE_RECOVERY_WINDOW_SECONDS :: real where "UPLINK_STALE_RECOVERY_WINDOW_SECONDS = 10"
definition UPLINK_MAX_RECOVERABLE_STALE_DROPS :: int where "UPLINK_MAX_RECOVERABLE_STALE_DROPS = 2"
definition UDP_FORWARD_GAP_MAX_FRESHNESS_WINDOWS :: real where "UDP_FORWARD_GAP_MAX_FRESHNESS_WINDOWS = 2"
definition WSS_CATCHUP_MAX_FRESHNESS_WINDOWS :: real where "WSS_CATCHUP_MAX_FRESHNESS_WINDOWS = 2"
definition WSS_CATCHUP_REQUIRED_PACED_INTERVALS :: int where "WSS_CATCHUP_REQUIRED_PACED_INTERVALS = 2"
definition time_slack :: real where "time_slack = 1 / 1000000000"

lemmas uplink_consts = SAMPLE_RATE_def FRAME_DURATION_MS_def SAMPLES_PER_PACKET_def TIMELINE_PACING_TOLERANCE_SECONDS_def
  TIMELINE_MAX_CORRECTION_SECONDS_def TIMELINE_REBASE_SECONDS_def TIMELINE_MAX_WSS_CLOCK_SKEW_RATIO_def
  UPLINK_STALE_RECOVERY_WINDOW_SECONDS_def UPLINK_MAX_RECOVERABLE_STALE_DROPS_def UDP_FORWARD_GAP_MAX_FRESHNESS_WINDOWS_def
  WSS_CATCHUP_MAX_FRESHNESS_WINDOWS_def WSS_CATCHUP_REQUIRED_PACED_INTERVALS_def time_slack_def

section \<open>State\<close>

record queued_audio =
  qa_packet :: inbound_audio
  qa_received_at :: real
  qa_expected_at :: real
  qa_deadline_at :: real

text \<open>
  The port with the counters of its owner that it changes. \<open>up_pending_puts\<close> are the packets whose \<open>put\<close> waits for
  room, in order; the code keeps their number.
\<close>

record uplink =
  up_queue :: "queued_audio option list"
  up_closed :: bool
  up_timeline_timestamp :: "int option"
  up_timeline_started_at :: real
  up_last_timestamp :: "int option"
  up_last_received_at :: real
  up_burst_debt :: real
  up_catchup_active :: bool
  up_catchup_dropped :: int
  up_catchup_paced :: int
  up_pending_puts :: "queued_audio list"
  up_recovered_stale_packets :: int
  up_recovered_catchup_packets :: int
  up_recovered_forward_gaps :: int
  up_recovery_window_started_at :: "real option"
  up_recovery_count :: int

definition uplink_init :: uplink where
  "uplink_init = \<lparr>up_queue = [], up_closed = False, up_timeline_timestamp = None, up_timeline_started_at = 0,
     up_last_timestamp = None, up_last_received_at = 0, up_burst_debt = 0, up_catchup_active = False,
     up_catchup_dropped = 0, up_catchup_paced = 0, up_pending_puts = [], up_recovered_stale_packets = 0,
     up_recovered_catchup_packets = 0, up_recovered_forward_gaps = 0, up_recovery_window_started_at = None,
     up_recovery_count = 0\<rparr>"

record overload =
  ov_source :: string
  ov_qsize :: int
  ov_capacity :: int
  ov_media_age_ms :: int
  ov_dropped_packets :: int
  ov_fresh_packet_available :: "bool option"

datatype uplink_error = AudioInputClosed | MediaTimestampError | Overloaded overload

section \<open>Freshness recovery budget\<close>

definition claim_uplink_freshness_recovery :: "real \<Rightarrow> uplink \<Rightarrow> bool \<times> uplink" where
  "claim_uplink_freshness_recovery now u =
    (let u1 = (if (case up_recovery_window_started_at u of None \<Rightarrow> True
                    | Some t \<Rightarrow> now - t > UPLINK_STALE_RECOVERY_WINDOW_SECONDS)
               then u\<lparr>up_recovery_window_started_at := Some now, up_recovery_count := 0\<rparr> else u);
         u2 = u1\<lparr>up_recovery_count := up_recovery_count u1 + 1\<rparr>
     in (up_recovery_count u2 \<le> UPLINK_MAX_RECOVERABLE_STALE_DROPS, u2))"

section \<open>Arrival of a packet\<close>

definition seconds :: "int \<Rightarrow> real" where
  "seconds samples = of_int samples / of_int SAMPLE_RATE"

text \<open>
  The checks on a packet that has a predecessor, in the order of the code. First the cadence and a jump into the
  future, which only a UDP endpoint may make, over an empty queue and within the recovery budget.
\<close>

definition check_future_jump ::
    "real \<Rightarrow> real \<Rightarrow> real \<Rightarrow> bool \<Rightarrow> int \<Rightarrow> int \<Rightarrow> real \<Rightarrow> uplink \<Rightarrow> (uplink_error, unit, uplink) op_result" where
  "check_future_jump max_age received_at claim_now wss timestamp timestamp_delta arrival_delta u =
    (let media_delta = seconds timestamp_delta
     in if timestamp_delta = 0 \<or> timestamp_delta mod SAMPLES_PER_PACKET \<noteq> 0 then (Inl MediaTimestampError, u)
        else if max 0 (media_delta - arrival_delta) > max_age then
          (if wss \<or> timestamp_delta \<ge> 0x80000000 \<or>
              media_delta > max_age * UDP_FORWARD_GAP_MAX_FRESHNESS_WINDOWS + time_slack \<or>
              up_queue u \<noteq> [] \<or> up_pending_puts u \<noteq> [] then (Inl MediaTimestampError, u)
           else
             let (granted, u1) = claim_uplink_freshness_recovery claim_now u
             in if \<not> granted then (Inl MediaTimestampError, u1)
                else (Inr (), u1\<lparr>up_timeline_timestamp := Some timestamp, up_timeline_started_at := received_at,
                        up_recovered_forward_gaps := up_recovered_forward_gaps u1 + 1\<rparr>))
        else (Inr (), u))"

definition max_catchup_packets :: "real \<Rightarrow> int" where
  "max_catchup_packets max_age =
    max 1 \<lfloor>max_age * WSS_CATCHUP_MAX_FRESHNESS_WINDOWS * 1000 / of_int FRAME_DURATION_MS + time_slack\<rfloor>"

text \<open>Catching up after a stall: the result tells whether the packet is dropped.\<close>

definition wss_catchup ::
    "real \<Rightarrow> int \<Rightarrow> real \<Rightarrow> int \<Rightarrow> real \<Rightarrow> uplink \<Rightarrow> (uplink_error, bool, uplink) op_result" where
  "wss_catchup max_age capacity received_at timestamp arrival_delta u =
    (let first_catchup_packet = up_catchup_dropped u = 0;
         paced_arrival = (\<not> first_catchup_packet \<and>
           \<bar>arrival_delta - of_int FRAME_DURATION_MS / 1000\<bar> \<le> TIMELINE_PACING_TOLERANCE_SECONDS);
         u1 = u\<lparr>up_catchup_paced := (if paced_arrival then up_catchup_paced u + 1 else 0)\<rparr>
     in if up_catchup_paced u1 < WSS_CATCHUP_REQUIRED_PACED_INTERVALS then
          let u2 = u1\<lparr>up_last_timestamp := Some timestamp, up_last_received_at := received_at,
                     up_timeline_timestamp := None, up_timeline_started_at := 0,
                     up_catchup_dropped := up_catchup_dropped u1 + 1\<rparr>
          in if up_catchup_dropped u2 > max_catchup_packets max_age
             then (Inl (Overloaded \<lparr>ov_source = ''opus_input_backpressure'', ov_qsize = int (length (up_queue u2)),
                          ov_capacity = capacity, ov_media_age_ms = -1, ov_dropped_packets = up_catchup_dropped u2,
                          ov_fresh_packet_available = Some False\<rparr>), u2)
             else (Inr True, u2)
        else (Inr False, u1\<lparr>up_recovered_catchup_packets := up_recovered_catchup_packets u1 + up_catchup_dropped u1,
                 up_catchup_active := False, up_catchup_dropped := 0, up_catchup_paced := 0\<rparr>))"

definition charge_burst_debt :: "real \<Rightarrow> real \<Rightarrow> uplink \<Rightarrow> (uplink_error, unit, uplink) op_result" where
  "charge_burst_debt max_age arrival_delta u =
    (let debt = max 0 (up_burst_debt u + of_int SAMPLES_PER_PACKET / of_int SAMPLE_RATE
           - arrival_delta * (1 + TIMELINE_MAX_WSS_CLOCK_SKEW_RATIO));
         u1 = u\<lparr>up_burst_debt := debt\<rparr>
     in if debt > max_age + time_slack then (Inl MediaTimestampError, u1) else (Inr (), u1))"

text \<open>
  The media timeline: when the packet is expected, re-anchored when it lies too far ahead, and gently corrected when
  it arrived in pace with its predecessor. \<open>None\<close> for a timeline that catch-up has cleared cannot occur here: a packet
  that catch-up clears the timeline for is dropped.
\<close>

definition place_on_timeline ::
    "real \<Rightarrow> real \<Rightarrow> int \<Rightarrow> (real \<times> real) option \<Rightarrow> uplink \<Rightarrow> real \<times> uplink" where
  "place_on_timeline max_age received_at timestamp deltas u =
    (let u1 = u\<lparr>up_last_timestamp := Some timestamp, up_last_received_at := received_at\<rparr>;
         origin = (case up_timeline_timestamp u1 of None \<Rightarrow> timestamp | Some t \<Rightarrow> t);
         expected_at = up_timeline_started_at u1 + seconds (mask32 (timestamp - origin));
         (expected1, u2) = (if expected_at - received_at > max_age
            then (received_at, u1\<lparr>up_timeline_timestamp := Some timestamp, up_timeline_started_at := received_at\<rparr>)
            else (expected_at, u1))
     in case deltas of
          None \<Rightarrow> (expected1, u2)
        | Some (arrival_delta, media_delta) \<Rightarrow>
            if \<bar>arrival_delta - media_delta\<bar> \<le> TIMELINE_PACING_TOLERANCE_SECONDS then
              let correction = max (- TIMELINE_MAX_CORRECTION_SECONDS)
                    (min TIMELINE_MAX_CORRECTION_SECONDS (arrival_delta - media_delta))
              in (expected1 + correction, u2\<lparr>up_timeline_started_at := up_timeline_started_at u2 + correction\<rparr>)
            else (expected1, u2))"

text \<open>
  \<open>_receive_audio\<close> up to the call of \<open>put_nowait\<close>: the packet to queue, or \<open>None\<close> for one that catch-up drops.
\<close>

definition receive_admit ::
    "real \<Rightarrow> int \<Rightarrow> real \<Rightarrow> real \<Rightarrow> bool \<Rightarrow> inbound_audio \<Rightarrow> uplink \<Rightarrow> (uplink_error, queued_audio option, uplink) op_result" where
  "receive_admit max_age capacity received_at claim_now wss packet u0 =
    (if up_closed u0 then (Inl AudioInputClosed, u0)
     else
       let u = (if up_timeline_timestamp u0 = None
                then u0\<lparr>up_timeline_timestamp := Some (ia_timestamp packet), up_timeline_started_at := received_at\<rparr> else u0);
           queued = (\<lambda>deltas u. let (expected_at, u1) = place_on_timeline max_age received_at (ia_timestamp packet) deltas u
              in (Inr (Some \<lparr>qa_packet = packet, qa_received_at = received_at, qa_expected_at = expected_at,
                     qa_deadline_at = min received_at expected_at + max_age\<rparr>), u1))
       in case up_last_timestamp u of
            None \<Rightarrow> queued None u
          | Some previous \<Rightarrow>
              let timestamp_delta = mask32 (ia_timestamp packet - previous);
                  arrival_delta = max 0 (received_at - up_last_received_at u);
                  deltas = Some (arrival_delta, seconds timestamp_delta)
              in bind_op (check_future_jump max_age received_at claim_now wss (ia_timestamp packet) timestamp_delta arrival_delta u)
                  (\<lambda>_ u1.
                  bind_op (if wss \<and> up_catchup_active u1
                           then wss_catchup max_age capacity received_at (ia_timestamp packet) arrival_delta u1
                           else (Inr False, u1)) (\<lambda>dropped u2.
                  if dropped then (Inr None, u2)
                  else bind_op (if wss then charge_burst_debt max_age arrival_delta u2 else (Inr (), u2))
                         (\<lambda>_ u3. queued deltas u3))))"

text \<open>The rest: the packet is queued, or its \<open>put\<close> starts to wait.\<close>

definition up_full :: "int \<Rightarrow> uplink \<Rightarrow> bool" where
  "up_full capacity u \<longleftrightarrow> int (length (up_queue u)) \<ge> capacity"

definition put_or_wait :: "int \<Rightarrow> queued_audio \<Rightarrow> uplink \<Rightarrow> uplink" where
  "put_or_wait capacity q u =
    (if up_full capacity u then u\<lparr>up_pending_puts := up_pending_puts u @ [q]\<rparr>
     else u\<lparr>up_queue := up_queue u @ [Some q]\<rparr>)"

definition receive_audio ::
    "real \<Rightarrow> int \<Rightarrow> real \<Rightarrow> real \<Rightarrow> bool \<Rightarrow> inbound_audio \<Rightarrow> uplink \<Rightarrow> (uplink_error, unit, uplink) op_result" where
  "receive_audio max_age capacity received_at claim_now wss packet u =
    bind_op (receive_admit max_age capacity received_at claim_now wss packet u) (\<lambda>q u1.
      case q of None \<Rightarrow> (Inr (), u1) | Some q \<Rightarrow> (Inr (), put_or_wait capacity q u1))"

text \<open>
  How a waiting \<open>put\<close> ends: there is room and the oldest one is queued, it times out and the arrival raises, or the
  port is closed, see \<open>uplink_close\<close>.
\<close>

definition put_resumes :: "int \<Rightarrow> uplink \<Rightarrow> uplink" where
  "put_resumes capacity u = (case up_pending_puts u of
      [] \<Rightarrow> u
    | q # qs \<Rightarrow> if up_full capacity u then u else u\<lparr>up_queue := up_queue u @ [Some q], up_pending_puts := qs\<rparr>)"

definition put_times_out :: "int \<Rightarrow> queued_audio \<Rightarrow> uplink \<Rightarrow> (uplink_error, unit, uplink) op_result" where
  "put_times_out capacity q u =
    (Inl (Overloaded \<lparr>ov_source = ''opus_input'', ov_qsize = int (length (up_queue u)), ov_capacity = capacity,
       ov_media_age_ms = -1, ov_dropped_packets = 0, ov_fresh_packet_available = None\<rparr>),
     u\<lparr>up_pending_puts := remove1 q (up_pending_puts u)\<rparr>)"

section \<open>Consumption\<close>

definition mark_consumed :: "queued_audio \<Rightarrow> uplink \<Rightarrow> uplink" where
  "mark_consumed q u = (case up_timeline_timestamp u of
      None \<Rightarrow> u
    | Some origin \<Rightarrow>
        if seconds (mask32 (ia_timestamp (qa_packet q) - origin)) < TIMELINE_REBASE_SECONDS then u
        else u\<lparr>up_timeline_timestamp := Some (ia_timestamp (qa_packet q)), up_timeline_started_at := qa_expected_at q\<rparr>)"

record freshness_drop =
  fd_source :: string
  fd_dropped_packets :: int
  fd_live_edge :: "queued_audio option"
  fd_backlog_qsize :: int

text \<open>The packets the loop takes off the queue, up to the sentinel, and what stays behind the sentinel.\<close>

fun take_pending :: "queued_audio option list \<Rightarrow> queued_audio list \<times> bool \<times> queued_audio option list" where
  "take_pending [] = ([], False, [])"
| "take_pending (None # q) = ([], True, q)"
| "take_pending (Some x # q) = (let (xs, closed, rest) = take_pending q in (x # xs, closed, rest))"

definition drop_stale_to_live_edge ::
    "real \<Rightarrow> int \<Rightarrow> queued_audio \<Rightarrow> real \<Rightarrow> uplink \<Rightarrow> freshness_drop \<times> uplink" where
  "drop_stale_to_live_edge max_age capacity current now u =
    (let backlog = int (length (up_queue u));
         (pending, closed_sentinel, rest) = take_pending (up_queue u);
         candidates = current # pending;
         fresh = filter (\<lambda>q. qa_deadline_at q > now) candidates;
         stale_count = length (filter (\<lambda>q. qa_deadline_at q \<le> now) candidates);
         isolated_stale = (stale_count = 1 \<and> backlog < capacity \<and> up_pending_puts u = []);
         live_edge = (if fresh \<noteq> [] \<and> \<not> closed_sentinel then
            let q = List.last fresh
            in Some \<lparr>qa_packet = qa_packet q, qa_received_at = qa_received_at q, qa_expected_at = qa_received_at q,
                  qa_deadline_at = qa_received_at q + max_age\<rparr>
            else None);
         u1 = (case live_edge of
              Some q \<Rightarrow> u\<lparr>up_timeline_timestamp := Some (ia_timestamp (qa_packet q)), up_timeline_started_at := qa_received_at q,
                          up_queue := rest @ [Some q]\<rparr>
            | None \<Rightarrow> if closed_sentinel then u\<lparr>up_queue := rest\<rparr>
                      else u\<lparr>up_queue := rest, up_timeline_timestamp := None, up_timeline_started_at := 0\<rparr>);
         u2 = (if closed_sentinel then u1\<lparr>up_queue := up_queue u1 @ [None]\<rparr> else u1)
     in (\<lparr>fd_source = (if isolated_stale then ''opus_input_stale'' else ''opus_input_backpressure''),
          fd_dropped_packets = int (length candidates) - (if live_edge \<noteq> None then 1 else 0),
          fd_live_edge = live_edge, fd_backlog_qsize = backlog\<rparr>, u2))"

definition begin_wss_catchup :: "uplink \<Rightarrow> uplink" where
  "begin_wss_catchup u =
    u\<lparr>up_catchup_active := True, up_catchup_dropped := 0, up_catchup_paced := 0, up_burst_debt := 0\<rparr>"

text \<open>
  \<open>close\<close>: the queue is replaced by the sentinel and the waiting puts return; one that is still woken lands behind
  the sentinel, where nobody reads.
\<close>

definition uplink_close :: "uplink \<Rightarrow> uplink" where
  "uplink_close u = (if up_closed u then u else u\<lparr>up_closed := True, up_queue := [None], up_pending_puts := []\<rparr>)"

text \<open>\<open>round\<close> of a float: to the nearest integer, halves to the even one.\<close>

definition py_round :: "real \<Rightarrow> int" where
  "py_round x = (let f = \<lfloor>x\<rfloor>; r = x - of_int f
     in if r < 1 / 2 then f else if r > 1 / 2 then f + 1 else if even f then f else f + 1)"

definition stale_uplink_error :: "real \<Rightarrow> int \<Rightarrow> queued_audio \<Rightarrow> real \<Rightarrow> uplink \<Rightarrow> overload \<times> uplink" where
  "stale_uplink_error max_age capacity q now u =
    (let media_age_seconds = max 0 (max (now - qa_received_at q) (now - qa_expected_at q));
         (dropped, u1) = drop_stale_to_live_edge max_age capacity q now u
     in (\<lparr>ov_source = fd_source dropped, ov_qsize = fd_backlog_qsize dropped, ov_capacity = capacity,
          ov_media_age_ms = py_round (media_age_seconds * 1000), ov_dropped_packets = fd_dropped_packets dropped,
          ov_fresh_packet_available = Some (fd_live_edge dropped \<noteq> None)\<rparr>, u1))"

text \<open>Two readings of the clock: one for the decision, one for the error.\<close>

definition remaining_uplink_budget ::
    "real \<Rightarrow> int \<Rightarrow> queued_audio \<Rightarrow> real \<Rightarrow> real \<Rightarrow> uplink \<Rightarrow> (uplink_error, real, uplink) op_result" where
  "remaining_uplink_budget max_age capacity q now error_now u =
    (if qa_deadline_at q - now \<le> 0 then
       let (e, u1) = stale_uplink_error max_age capacity q error_now u in (Inl (Overloaded e), u1)
     else (Inr (qa_deadline_at q - now), u))"

definition recover_isolated_stale :: "string option \<Rightarrow> real \<Rightarrow> overload \<Rightarrow> uplink \<Rightarrow> bool \<times> uplink" where
  "recover_isolated_stale profile now e u =
    (if ov_source e \<noteq> ''opus_input_stale'' \<or> profile \<notin> {Some WSS_PROFILE, Some UDP_PROFILE} then (False, u)
     else
       let (granted, u1) = claim_uplink_freshness_recovery now u
       in if \<not> granted then (False, u1)
          else
            let u2 = u1\<lparr>up_recovered_stale_packets := up_recovered_stale_packets u1 + ov_dropped_packets e\<rparr>
            in (True, if ov_fresh_packet_available e = Some False \<and> profile = Some WSS_PROFILE
                      then begin_wss_catchup u2 else u2))"

text \<open>
  The head of \<open>_input_loop\<close>: the next packet that may be decoded (\<open>Take\<close>), nothing yet (\<open>Wait\<close>), the end of input
  (\<open>Stop\<close>), or the overload that ends the session.
\<close>

datatype input_step = Take queued_audio | Wait | Stop | Skipped

definition input_loop_head ::
    "real \<Rightarrow> int \<Rightarrow> string option \<Rightarrow> real \<Rightarrow> real \<Rightarrow> real \<Rightarrow> uplink \<Rightarrow> (uplink_error, input_step, uplink) op_result" where
  "input_loop_head max_age capacity profile now error_now claim_now u = (case up_queue u of
      [] \<Rightarrow> (Inr Wait, u)
    | None # rest \<Rightarrow> (Inr Stop, u\<lparr>up_queue := rest\<rparr>)
    | Some q # rest \<Rightarrow>
        (case remaining_uplink_budget max_age capacity q now error_now (u\<lparr>up_queue := rest\<rparr>) of
           (Inr _, u1) \<Rightarrow> (Inr (Take q), u1)
         | (Inl (Overloaded e), u1) \<Rightarrow>
             (let (recovered, u2) = recover_isolated_stale profile claim_now e u1
              in if recovered then (Inr Skipped, u2) else (Inl (Overloaded e), u2))
         | (Inl e, u1) \<Rightarrow> (Inl e, u1)))"

section \<open>Queue bound and freshness\<close>

definition deadline_ok :: "real \<Rightarrow> queued_audio \<Rightarrow> bool" where
  "deadline_ok max_age q \<longleftrightarrow> qa_deadline_at q \<le> qa_received_at q + max_age"

definition slot_ok :: "real \<Rightarrow> queued_audio option \<Rightarrow> bool" where
  "slot_ok max_age x = (case x of None \<Rightarrow> True | Some q \<Rightarrow> deadline_ok max_age q)"

definition uplink_inv :: "real \<Rightarrow> int \<Rightarrow> uplink \<Rightarrow> bool" where
  "uplink_inv max_age capacity u \<longleftrightarrow> int (length (up_queue u)) \<le> capacity \<and>
     list_all (slot_ok max_age) (up_queue u) \<and> list_all (deadline_ok max_age) (up_pending_puts u) \<and>
     0 \<le> up_burst_debt u"

lemma uplink_inv_init: "0 \<le> capacity \<Longrightarrow> uplink_inv max_age capacity uplink_init"
  by (simp add: uplink_inv_def uplink_init_def)

lemma claim_fields [simp]:
  "up_queue (snd (claim_uplink_freshness_recovery now u)) = up_queue u"
  "up_pending_puts (snd (claim_uplink_freshness_recovery now u)) = up_pending_puts u"
  "up_burst_debt (snd (claim_uplink_freshness_recovery now u)) = up_burst_debt u"
  "up_catchup_active (snd (claim_uplink_freshness_recovery now u)) = up_catchup_active u"
  "up_closed (snd (claim_uplink_freshness_recovery now u)) = up_closed u"
  "up_last_received_at (snd (claim_uplink_freshness_recovery now u)) = up_last_received_at u"
  by (simp_all add: claim_uplink_freshness_recovery_def Let_def)

text \<open>What the parts of an arrival leave alone.\<close>

lemma check_future_jump_frame:
  assumes "check_future_jump a t c wss ts d ad u = (r, u')"
  shows "up_queue u' = up_queue u" "up_pending_puts u' = up_pending_puts u" "up_burst_debt u' = up_burst_debt u"
    "up_catchup_active u' = up_catchup_active u" "up_last_received_at u' = up_last_received_at u"
  using assms by (auto simp: check_future_jump_def Let_def case_prod_beta split: if_splits)

lemma wss_catchup_frame:
  assumes "wss_catchup a c t ts ad u = (r, u')"
  shows "up_queue u' = up_queue u" "up_pending_puts u' = up_pending_puts u" "up_burst_debt u' = up_burst_debt u"
  using assms by (auto simp: wss_catchup_def Let_def split: if_splits)

lemma charge_burst_debt_frame:
  assumes "charge_burst_debt a ad u = (r, u')"
  shows "up_queue u' = up_queue u" "up_pending_puts u' = up_pending_puts u" "0 \<le> up_burst_debt u'"
    "up_last_received_at u' = up_last_received_at u" "up_catchup_active u' = up_catchup_active u"
  using assms by (auto simp: charge_burst_debt_def Let_def split: if_splits)

lemma place_on_timeline_frame:
  assumes "place_on_timeline a t ts deltas u = (e, u')"
  shows "up_queue u' = up_queue u" "up_pending_puts u' = up_pending_puts u" "up_burst_debt u' = up_burst_debt u"
    "up_last_received_at u' = t" "up_last_timestamp u' = Some ts" "up_catchup_active u' = up_catchup_active u"
  using assms by (auto simp: place_on_timeline_def Let_def split: if_splits option.splits prod.splits)

definition same_queues :: "uplink \<Rightarrow> uplink \<Rightarrow> bool" where
  "same_queues u u' \<longleftrightarrow> up_queue u' = up_queue u \<and> up_pending_puts u' = up_pending_puts u \<and> (0 \<le> up_burst_debt u \<longrightarrow> 0 \<le> up_burst_debt u')"

lemma same_queues_parts:
  "check_future_jump a t c wss ts d ad u = (r, u1) \<Longrightarrow> same_queues u u1"
  "wss_catchup a cap t ts ad u = (r', u1) \<Longrightarrow> same_queues u u1"
  "charge_burst_debt a ad u = (r'', u1) \<Longrightarrow> same_queues u u1"
  "place_on_timeline a t ts deltas u = (e, u1) \<Longrightarrow> same_queues u u1"
  by (simp_all add: same_queues_def check_future_jump_frame wss_catchup_frame charge_burst_debt_frame place_on_timeline_frame)

lemma same_queues_refl [simp]: "same_queues u u"
  by (simp add: same_queues_def)

lemma same_queues_trans: "same_queues u v \<Longrightarrow> same_queues v w \<Longrightarrow> same_queues u w"
  by (simp add: same_queues_def)

text \<open>The arrival of a packet that has a predecessor, as the chain of its parts.\<close>

lemma receive_admit_later:
  assumes "\<not> up_closed u0" "up_last_timestamp u0 = Some previous"
    and u: "u = (if up_timeline_timestamp u0 = None
      then u0\<lparr>up_timeline_timestamp := Some (ia_timestamp packet), up_timeline_started_at := t\<rparr> else u0)"
    and d: "d = mask32 (ia_timestamp packet - previous)" and ad: "ad = max 0 (t - up_last_received_at u0)"
  shows "receive_admit max_age capacity t c wss packet u0 =
    bind_op (check_future_jump max_age t c wss (ia_timestamp packet) d ad u) (\<lambda>_ u1.
    bind_op (if wss \<and> up_catchup_active u1 then wss_catchup max_age capacity t (ia_timestamp packet) ad u1 else (Inr False, u1))
      (\<lambda>dropped u2.
      if dropped then (Inr None, u2)
      else bind_op (if wss then charge_burst_debt max_age ad u2 else (Inr (), u2)) (\<lambda>_ u3.
        let (e, u4) = place_on_timeline max_age t (ia_timestamp packet) (Some (ad, seconds d)) u3
        in (Inr (Some \<lparr>qa_packet = packet, qa_received_at = t, qa_expected_at = e, qa_deadline_at = min t e + max_age\<rparr>), u4))))"
proof -
  have l: "up_last_timestamp u = Some previous" "up_last_received_at u = up_last_received_at u0" using assms(2) by (simp_all add: u)
  show ?thesis
    unfolding receive_admit_def Let_def u [symmetric] d ad l option.case if_not_P [OF assms(1)] by (rule refl)
qed

lemma receive_admit_parts:
  assumes r: "receive_admit max_age capacity t c wss packet u0 = (r, u')"
  obtains "r = Inl AudioInputClosed" "u' = u0"
  | u e where "same_queues u0 u" "up_last_timestamp u = None" "place_on_timeline max_age t (ia_timestamp packet) None u = (e, u')"
      "r = Inr (Some \<lparr>qa_packet = packet, qa_received_at = t, qa_expected_at = e, qa_deadline_at = min t e + max_age\<rparr>)"
  | u previous err where "same_queues u0 u" "up_last_timestamp u = Some previous" "r = Inl err" "same_queues u u'"
  | u previous where "same_queues u0 u" "up_last_timestamp u = Some previous" "r = Inr None" "same_queues u u'"
  | u previous e deltas where "same_queues u0 u" "up_last_timestamp u = Some previous" "same_queues u u'"
      "r = Inr (Some \<lparr>qa_packet = packet, qa_received_at = t, qa_expected_at = e, qa_deadline_at = min t e + max_age\<rparr>)"
proof (cases "up_closed u0")
  case True
  then show ?thesis using r that(1) by (simp add: receive_admit_def)
next
  case False
  define u where "u = (if up_timeline_timestamp u0 = None
    then u0\<lparr>up_timeline_timestamp := Some (ia_timestamp packet), up_timeline_started_at := t\<rparr> else u0)"
  have q0: "same_queues u0 u" by (simp add: u_def same_queues_def)
  show ?thesis
  proof (cases "up_last_timestamp u")
    case None
    then show ?thesis
      using r False that(2) [OF q0] unfolding receive_admit_def Let_def u_def [symmetric] by (auto split: prod.splits)
  next
    case (Some previous)
    let ?d = "mask32 (ia_timestamp packet - previous)"
    let ?a = "max 0 (t - up_last_received_at u)"
    obtain r1 u1 where c1: "check_future_jump max_age t c wss (ia_timestamp packet) ?d ?a u = (r1, u1)" by fastforce
    obtain r2 u2 where c2: "(if wss \<and> up_catchup_active u1 then wss_catchup max_age capacity t (ia_timestamp packet) ?a u1
        else (Inr False, u1)) = (r2, u2)" by fastforce
    obtain r3 u3 where c3: "(if wss then charge_burst_debt max_age ?a u2 else (Inr (), u2)) = (r3, u3)" by fastforce
    obtain e u4 where c4: "place_on_timeline max_age t (ia_timestamp packet) (Some (?a, seconds ?d)) u3 = (e, u4)" by fastforce
    have s1: "same_queues u u1" using same_queues_parts(1) [OF c1] .
    have s2: "same_queues u u2" using same_queues_trans [OF s1] c2 same_queues_parts(2) by (auto simp: s1 split: if_splits)
    have s3: "same_queues u u3" using same_queues_trans [OF s2] c3 same_queues_parts(3) by (auto simp: s2 split: if_splits)
    have s4: "same_queues u u4" using same_queues_trans [OF s3 same_queues_parts(4) [OF c4]] .
    have p0: "up_last_timestamp u0 = Some previous" and l0: "up_last_received_at u = up_last_received_at u0"
      using Some by (simp_all add: u_def split: if_splits)
    note eq = r [symmetric, unfolded receive_admit_later [OF False p0 u_def refl refl], folded l0, unfolded c1]
    show ?thesis
    proof (cases r1)
      case (Inl e1)
      then show ?thesis using eq that(3) [OF q0 Some] s1 by simp
    next
      case r1: (Inr x)
      show ?thesis
      proof (cases r2)
        case (Inl e2)
        then show ?thesis using eq r1 c2 that(3) [OF q0 Some] s2 by simp
      next
        case r2: (Inr dropped)
        show ?thesis
        proof (cases "dropped \<or> (\<exists>e3. r3 = Inl e3)")
          case True
          then show ?thesis using eq r1 r2 c2 c3 that(3) [OF q0 Some] s3 that(4) [OF q0 Some] s2 by (cases dropped) auto
        next
          case nd: False
          then obtain y where "r3 = Inr y" by (cases r3) auto
          then show ?thesis using eq r1 r2 c2 c3 c4 nd that(5) [OF q0 Some] s4 by simp
        qed
      qed
    qed
  qed
qed

lemma receive_admit_inv:
  assumes "uplink_inv max_age capacity u" "receive_admit max_age capacity t c wss packet u = (r, u')"
  shows "uplink_inv max_age capacity u' \<and> (\<forall>q. r = Inr (Some q) \<longrightarrow> deadline_ok max_age q)"
  using receive_admit_parts [OF assms(2)]
proof cases
  case 1
  then show ?thesis using assms(1) by simp
next
  case (2 u e)
  then show ?thesis
    using assms(1) same_queues_trans [OF 2(1) same_queues_parts(4) [OF 2(3)]]
    by (simp add: uplink_inv_def same_queues_def deadline_ok_def)
qed (use assms(1) in \<open>auto simp: uplink_inv_def same_queues_def deadline_ok_def\<close>)

lemma put_or_wait_inv: "uplink_inv max_age capacity u \<Longrightarrow> deadline_ok max_age q \<Longrightarrow> uplink_inv max_age capacity (put_or_wait capacity q u)"
  by (simp add: uplink_inv_def put_or_wait_def up_full_def slot_ok_def)

lemma receive_audio_inv:
  assumes "uplink_inv max_age capacity u"
  shows "uplink_inv max_age capacity (snd (receive_audio max_age capacity t c wss packet u))"
proof -
  obtain r u1 where a: "receive_admit max_age capacity t c wss packet u = (r, u1)" by fastforce
  have "uplink_inv max_age capacity u1" "\<And>q. r = Inr (Some q) \<Longrightarrow> deadline_ok max_age q"
    using receive_admit_inv [OF assms a] by simp_all
  then show ?thesis
    using put_or_wait_inv by (cases r) (auto simp: receive_audio_def a split: option.splits)
qed

lemma put_resumes_inv: "uplink_inv max_age capacity u \<Longrightarrow> uplink_inv max_age capacity (put_resumes capacity u)"
  by (cases "up_pending_puts u") (simp_all add: uplink_inv_def put_resumes_def up_full_def slot_ok_def)

lemma put_times_out_inv: "uplink_inv max_age capacity u \<Longrightarrow> uplink_inv max_age capacity (snd (put_times_out capacity q u))"
  by (auto simp: uplink_inv_def put_times_out_def list_all_iff dest: notin_set_remove1)

lemma mark_consumed_inv: "uplink_inv max_age capacity u \<Longrightarrow> uplink_inv max_age capacity (mark_consumed q u)"
  by (auto simp: uplink_inv_def mark_consumed_def split: option.splits)

lemma uplink_close_inv: "1 \<le> capacity \<Longrightarrow> uplink_inv max_age capacity u \<Longrightarrow> uplink_inv max_age capacity (uplink_close u)"
  by (auto simp: uplink_inv_def uplink_close_def slot_ok_def)

lemma take_pending_spec:
  assumes "take_pending q = (xs, ended, rest)"
  shows "q = map Some xs @ (if ended then None # rest else [])" "\<not> ended \<Longrightarrow> rest = []"
  using assms by (induction q arbitrary: xs ended rest rule: take_pending.induct) (auto split: prod.splits)

lemma drop_stale_inv:
  assumes inv: "uplink_inv max_age capacity u" and c: "1 \<le> capacity"
    and d: "drop_stale_to_live_edge max_age capacity q now u = (f, u')"
  shows "uplink_inv max_age capacity u'"
proof -
  obtain xs ended rest where tp: "take_pending (up_queue u) = (xs, ended, rest)" by (metis prod_cases3)
  have q: "up_queue u = map Some xs @ (if ended then None # rest else [])" and r: "\<not> ended \<Longrightarrow> rest = []"
    using take_pending_spec [OF tp] by blast+
  have rest: "list_all (slot_ok max_age) rest" "int (length rest) + 1 \<le> capacity"
    using inv q r c by (cases ended; auto simp: uplink_inv_def)+
  have p: "up_pending_puts u' = up_pending_puts u" "up_burst_debt u' = up_burst_debt u"
    using d by (auto simp: drop_stale_to_live_edge_def tp Let_def split: if_splits option.splits)
  have "up_queue u' = rest @ [None] \<or> up_queue u' = rest \<or> (\<exists>x. up_queue u' = rest @ [Some x] \<and> deadline_ok max_age x)"
    using d by (auto simp: drop_stale_to_live_edge_def tp Let_def deadline_ok_def split: if_splits)
  then show ?thesis using inv rest p by (auto simp: uplink_inv_def slot_ok_def)
qed

lemma recover_frame:
  "up_queue (snd (recover_isolated_stale profile now e u)) = up_queue u \<and>
   up_pending_puts (snd (recover_isolated_stale profile now e u)) = up_pending_puts u \<and>
   (0 \<le> up_burst_debt u \<longrightarrow> 0 \<le> up_burst_debt (snd (recover_isolated_stale profile now e u)))"
  by (simp add: recover_isolated_stale_def begin_wss_catchup_def Let_def case_prod_beta)

lemma stale_uplink_error_inv:
  assumes "uplink_inv max_age capacity u" "1 \<le> capacity" "stale_uplink_error max_age capacity q now u = (e, u')"
  shows "uplink_inv max_age capacity u'"
  using drop_stale_inv [OF assms(1,2)] assms(3) by (auto simp: stale_uplink_error_def Let_def split: prod.splits)

lemma input_loop_head_inv:
  assumes inv: "uplink_inv max_age capacity u" and c: "1 \<le> capacity"
    and h: "input_loop_head max_age capacity profile now error_now claim_now u = (r, u')"
  shows "uplink_inv max_age capacity u' \<and> (\<forall>q. r = Inr (Take q) \<longrightarrow> now < qa_received_at q + max_age)"
proof (cases "up_queue u")
  case Nil
  then show ?thesis using h inv by (auto simp: input_loop_head_def)
next
  case (Cons x rest)
  have i: "uplink_inv max_age capacity (u\<lparr>up_queue := rest\<rparr>)" using inv Cons by (simp add: uplink_inv_def)
  show ?thesis
  proof (cases x)
    case None
    then show ?thesis using h Cons i by (auto simp: input_loop_head_def)
  next
    case (Some q)
    have dq: "deadline_ok max_age q" using inv Cons Some by (simp add: uplink_inv_def slot_ok_def)
    obtain e u1 where s: "stale_uplink_error max_age capacity q error_now (u\<lparr>up_queue := rest\<rparr>) = (e, u1)" by fastforce
    have i1: "uplink_inv max_age capacity u1" using stale_uplink_error_inv [OF i c s] .
    obtain b u2 where rc: "recover_isolated_stale profile claim_now e u1 = (b, u2)" by fastforce
    have i2: "uplink_inv max_age capacity u2" using i1 recover_frame [of profile claim_now e u1] rc by (simp add: uplink_inv_def)
    show ?thesis
    proof (cases "qa_deadline_at q - now \<le> 0")
      case True
      then show ?thesis using h Cons Some s rc i2 by (cases b) (auto simp: input_loop_head_def remaining_uplink_budget_def)
    next
      case False
      then show ?thesis using h Cons Some i dq by (auto simp: input_loop_head_def remaining_uplink_budget_def deadline_ok_def)
    qed
  qed
qed

datatype uplink_event =
    Arrive real real bool inbound_audio
  | Put_Resumes
  | Put_Times_Out queued_audio
  | Consume "string option" real real real
  | Stale_In_Flight queued_audio real
  | Consumed queued_audio
  | Close_Uplink

fun uplink_step :: "real \<Rightarrow> int \<Rightarrow> uplink_event \<Rightarrow> uplink \<Rightarrow> uplink" where
  "uplink_step a cap (Arrive t c wss packet) u = snd (receive_audio a cap t c wss packet u)"
| "uplink_step a cap Put_Resumes u = put_resumes cap u"
| "uplink_step a cap (Put_Times_Out q) u = snd (put_times_out cap q u)"
| "uplink_step a cap (Consume profile now error_now claim_now) u = snd (input_loop_head a cap profile now error_now claim_now u)"
| "uplink_step a cap (Stale_In_Flight q now) u = snd (stale_uplink_error a cap q now u)"
| "uplink_step a cap (Consumed q) u = mark_consumed q u"
| "uplink_step a cap Close_Uplink u = uplink_close u"

lemma uplink_step_inv:
  assumes "uplink_inv a cap u" "1 \<le> cap"
  shows "uplink_inv a cap (uplink_step a cap ev u)"
proof (cases ev)
  case (Consume profile now error_now claim_now)
  then show ?thesis using input_loop_head_inv [OF assms, of profile now error_now claim_now] by (metis prod.collapse uplink_step.simps(4))
next
  case (Stale_In_Flight q now)
  then show ?thesis using stale_uplink_error_inv [OF assms] by (metis prod.collapse uplink_step.simps(5))
qed (use assms in \<open>simp_all add: receive_audio_inv put_resumes_inv put_times_out_inv mark_consumed_inv uplink_close_inv\<close>)

lemma uplink_run_inv: "uplink_inv a cap u \<Longrightarrow> 1 \<le> cap \<Longrightarrow> uplink_inv a cap (fold (uplink_step a cap) evs u)"
  by (induction evs arbitrary: u) (simp_all add: uplink_step_inv)

text \<open>
  C34. The uplink queue is bounded and only fresh audio leaves it. In every run of the uplink, whatever packets arrive and
  however the waiting puts, the consumer and the close take turns, the queue holds at most its capacity, and a packet
  that the input loop takes for decoding was received less than the freshness budget ago.
\<close>

theorem uplink_fresh_and_bounded:
  assumes "limits_valid l"
  shows "let a = rl_uplink_max_age_seconds l; cap = rl_input_queue_packets l; u = fold (uplink_step a cap) evs uplink_init in
    int (length (up_queue u)) \<le> cap \<and>
    (case input_loop_head a cap profile now error_now claim_now u of
       (Inr (Take q), _) \<Rightarrow> now < qa_received_at q + a | _ \<Rightarrow> True)"
proof -
  define a cap where "a = rl_uplink_max_age_seconds l" and "cap = rl_input_queue_packets l"
  have c: "1 \<le> cap" using assms by (simp add: limits_valid_def cap_def)
  define u where "u = fold (uplink_step a cap) evs uplink_init"
  have inv: "uplink_inv a cap u" using uplink_run_inv [OF uplink_inv_init c] c by (simp add: u_def)
  obtain r u' where h: "input_loop_head a cap profile now error_now claim_now u = (r, u')" by fastforce
  have "case (r, u') of (Inr (Take q), _) \<Rightarrow> now < qa_received_at q + a | _ \<Rightarrow> True"
    using input_loop_head_inv [OF inv c h] by (auto split: sum.splits input_step.splits)
  then show ?thesis
    using inv h unfolding a_def [symmetric] cap_def [symmetric] Let_def u_def [symmetric] by (simp add: uplink_inv_def)
qed

section \<open>The pace of a WSS client\<close>

definition frame_seconds :: real where
  "frame_seconds = of_int SAMPLES_PER_PACKET / of_int SAMPLE_RATE"

lemma frame_seconds: "frame_seconds = 6 / 100"
  by (simp add: frame_seconds_def uplink_consts)

text \<open>
  A run over WSS in which no arrival is refused (a refused one ends the session), and how often a kind of step occurs in
  a run: arrivals that are admitted to the queue, and rounds of the input loop that skip a stale packet, which claim a
  freshness recovery and may begin a catch-up.
\<close>

definition arrival_time :: "uplink_event \<Rightarrow> real option" where
  "arrival_time ev = (case ev of Arrive t c wss packet \<Rightarrow> Some t | _ \<Rightarrow> None)"

definition claim_time :: "uplink_event \<Rightarrow> real option" where
  "claim_time ev = (case ev of Consume profile now error_now claim_now \<Rightarrow> Some claim_now | _ \<Rightarrow> None)"

definition wss_accepts :: "real \<Rightarrow> int \<Rightarrow> uplink_event \<Rightarrow> uplink \<Rightarrow> bool" where
  "wss_accepts a cap ev u = (case ev of
      Arrive t c wss packet \<Rightarrow> wss \<and> (case fst (receive_audio a cap t c wss packet u) of Inl _ \<Rightarrow> False | Inr _ \<Rightarrow> True)
    | _ \<Rightarrow> True)"

fun wss_run :: "real \<Rightarrow> int \<Rightarrow> uplink_event list \<Rightarrow> uplink \<Rightarrow> bool" where
  "wss_run a cap [] u = True"
| "wss_run a cap (ev # evs) u \<longleftrightarrow> wss_accepts a cap ev u \<and> wss_run a cap evs (uplink_step a cap ev u)"

definition admits :: "real \<Rightarrow> int \<Rightarrow> uplink_event \<Rightarrow> uplink \<Rightarrow> bool" where
  "admits a cap ev u = (case ev of
      Arrive t c wss packet \<Rightarrow> (case fst (receive_admit a cap t c wss packet u) of Inr (Some q) \<Rightarrow> True | _ \<Rightarrow> False)
    | _ \<Rightarrow> False)"

definition recovers :: "real \<Rightarrow> int \<Rightarrow> uplink_event \<Rightarrow> uplink \<Rightarrow> bool" where
  "recovers a cap ev u = (case ev of
      Consume profile now error_now claim_now \<Rightarrow> fst (input_loop_head a cap profile now error_now claim_now u) = Inr Skipped
    | _ \<Rightarrow> False)"

fun count_steps :: "(real \<Rightarrow> int \<Rightarrow> uplink_event \<Rightarrow> uplink \<Rightarrow> bool) \<Rightarrow> real \<Rightarrow> int \<Rightarrow> uplink_event list \<Rightarrow> uplink \<Rightarrow> nat" where
  "count_steps P a cap [] u = 0"
| "count_steps P a cap (ev # evs) u = (if P a cap ev u then 1 else 0) + count_steps P a cap evs (uplink_step a cap ev u)"

lemma admit_first:
  assumes "receive_admit a cap t c True packet u = (Inr res, u1)" "up_last_timestamp u = None"
  shows "res \<noteq> None \<and> up_last_received_at u1 = t \<and> up_last_timestamp u1 \<noteq> None \<and> up_burst_debt u1 = up_burst_debt u"
proof -
  define v where "v = (if up_timeline_timestamp u = None
    then u\<lparr>up_timeline_timestamp := Some (ia_timestamp packet), up_timeline_started_at := t\<rparr> else u)"
  have v: "up_last_timestamp v = None" "up_burst_debt v = up_burst_debt u" using assms by (simp_all add: v_def)
  obtain e w where p: "place_on_timeline a t (ia_timestamp packet) None v = (e, w)" by fastforce
  have "u1 = w" "res \<noteq> None"
    using assms(1) v(1) p unfolding receive_admit_def Let_def v_def [symmetric] by (auto split: if_splits)
  then show ?thesis using place_on_timeline_frame [OF p] v by simp
qed

lemma catchup_result:
  assumes "wss_catchup a cap t ts ad u = (Inr dropped, u')"
  shows "up_burst_debt u' = up_burst_debt u"
    "if dropped then up_last_received_at u' = t \<and> up_last_timestamp u' = Some ts else up_last_received_at u' = up_last_received_at u"
  using assms by (auto simp: wss_catchup_def Let_def split: if_splits)

text \<open>A packet that has a predecessor is dropped by a catch-up, or it is charged.\<close>

lemma admit_charged:
  assumes r: "receive_admit a cap t c True packet u = (Inr res, u1)" and l: "up_last_timestamp u \<noteq> None"
  shows "up_last_received_at u1 = t" "up_last_timestamp u1 \<noteq> None"
    "case res of None \<Rightarrow> up_burst_debt u1 = up_burst_debt u
     | Some q \<Rightarrow> 0 \<le> up_burst_debt u1 \<and> up_burst_debt u1 \<le> a + time_slack \<and>
         up_burst_debt u + frame_seconds - max 0 (t - up_last_received_at u) * (1 + TIMELINE_MAX_WSS_CLOCK_SKEW_RATIO) \<le> up_burst_debt u1"
proof -
  define v where "v = (if up_timeline_timestamp u = None
    then u\<lparr>up_timeline_timestamp := Some (ia_timestamp packet), up_timeline_started_at := t\<rparr> else u)"
  have v: "up_last_timestamp v = up_last_timestamp u" "up_burst_debt v = up_burst_debt u"
    "up_last_received_at v = up_last_received_at u" by (simp_all add: v_def)
  obtain previous where pr: "up_last_timestamp u = Some previous" using l by auto
  have opened: "\<not> up_closed u" using r by (auto simp: receive_admit_def)
  let ?d = "mask32 (ia_timestamp packet - previous)"
  let ?a = "max 0 (t - up_last_received_at u)"
  obtain r1 w1 where c1: "check_future_jump a t c True (ia_timestamp packet) ?d ?a v = (r1, w1)" by fastforce
  have w1: "up_burst_debt w1 = up_burst_debt u" "up_last_received_at w1 = up_last_received_at u"
    using check_future_jump_frame [OF c1] v by simp_all
  obtain r2 w2 where c2: "(if True \<and> up_catchup_active w1 then wss_catchup a cap t (ia_timestamp packet) ?a w1 else (Inr False, w1)) = (r2, w2)"
    by fastforce
  obtain r3 w3 where c3: "charge_burst_debt a ?a w2 = (r3, w3)" by fastforce
  obtain e w4 where c4: "place_on_timeline a t (ia_timestamp packet) (Some (?a, seconds ?d)) w3 = (e, w4)" by fastforce
  note eq = r [symmetric, unfolded receive_admit_later [OF opened pr v_def refl refl] c1]
  obtain x where r1: "r1 = Inr x" using eq by (cases r1) simp_all
  note eq2 = eq [unfolded r1 bind_op_simps c2]
  obtain dropped where r2: "r2 = Inr dropped" using eq2 by (cases r2) simp_all
  have w2: "up_burst_debt w2 = up_burst_debt u"
    "dropped \<Longrightarrow> up_last_received_at w2 = t \<and> up_last_timestamp w2 \<noteq> None"
    using c2 r2 catchup_result [of a cap t "ia_timestamp packet" ?a w1 dropped w2] w1 by (auto split: if_splits)
  show "up_last_received_at u1 = t" "up_last_timestamp u1 \<noteq> None"
    "case res of None \<Rightarrow> up_burst_debt u1 = up_burst_debt u
     | Some q \<Rightarrow> 0 \<le> up_burst_debt u1 \<and> up_burst_debt u1 \<le> a + time_slack \<and>
         up_burst_debt u + frame_seconds - max 0 (t - up_last_received_at u) * (1 + TIMELINE_MAX_WSS_CLOCK_SKEW_RATIO) \<le> up_burst_debt u1"
  proof (atomize (full), cases dropped)
    case True
    then show "up_last_received_at u1 = t \<and> up_last_timestamp u1 \<noteq> None \<and> (case res of None \<Rightarrow> up_burst_debt u1 = up_burst_debt u
     | Some q \<Rightarrow> 0 \<le> up_burst_debt u1 \<and> up_burst_debt u1 \<le> a + time_slack \<and>
         up_burst_debt u + frame_seconds - max 0 (t - up_last_received_at u) * (1 + TIMELINE_MAX_WSS_CLOCK_SKEW_RATIO) \<le> up_burst_debt u1)"
      using eq2 r2 w2 by simp
  next
    case False
    obtain y where r3: "r3 = Inr y" using eq2 r2 False c3 by (cases r3) simp_all
    have "u1 = w4" "res \<noteq> None" using eq2 r2 False c3 r3 c4 by auto
    moreover have "up_burst_debt w3 = max 0 (up_burst_debt u + frame_seconds - ?a * (1 + TIMELINE_MAX_WSS_CLOCK_SKEW_RATIO))"
      "up_burst_debt w3 \<le> a + time_slack"
      using c3 r3 w2(1) by (auto simp: charge_burst_debt_def frame_seconds_def Let_def split: if_splits)
    ultimately show "up_last_received_at u1 = t \<and> up_last_timestamp u1 \<noteq> None \<and> (case res of None \<Rightarrow> up_burst_debt u1 = up_burst_debt u
     | Some q \<Rightarrow> 0 \<le> up_burst_debt u1 \<and> up_burst_debt u1 \<le> a + time_slack \<and>
         up_burst_debt u + frame_seconds - max 0 (t - up_last_received_at u) * (1 + TIMELINE_MAX_WSS_CLOCK_SKEW_RATIO) \<le> up_burst_debt u1)"
      using place_on_timeline_frame [OF c4] by auto
  qed
qed



text \<open>What the other steps do to the pace: nothing, except that a recovery may begin a catch-up, which forgives the debt.\<close>

definition same_pace :: "uplink \<Rightarrow> uplink \<Rightarrow> bool" where
  "same_pace u u' \<longleftrightarrow> up_last_timestamp u' = up_last_timestamp u \<and> up_last_received_at u' = up_last_received_at u \<and> up_burst_debt u' = up_burst_debt u"

definition same_claims :: "uplink \<Rightarrow> uplink \<Rightarrow> bool" where
  "same_claims u u' \<longleftrightarrow> up_recovery_window_started_at u' = up_recovery_window_started_at u \<and> up_recovery_count u' = up_recovery_count u"

lemma stale_error_frame: "same_pace u (snd (stale_uplink_error a cap q now u)) \<and> same_claims u (snd (stale_uplink_error a cap q now u))"
  by (simp add: same_pace_def same_claims_def stale_uplink_error_def drop_stale_to_live_edge_def Let_def case_prod_beta split: option.split)

lemma claim_pace [simp]: "up_last_timestamp (snd (claim_uplink_freshness_recovery now u)) = up_last_timestamp u"
  by (simp add: claim_uplink_freshness_recovery_def Let_def)

lemma claim_same:
  assumes "same_claims u u'"
  shows "fst (claim_uplink_freshness_recovery now u') = fst (claim_uplink_freshness_recovery now u)"
    "same_claims (snd (claim_uplink_freshness_recovery now u)) (snd (claim_uplink_freshness_recovery now u'))"
  using assms by (auto simp: same_claims_def claim_uplink_freshness_recovery_def Let_def split: option.splits)

lemma recover_cases:
  assumes "recover_isolated_stale profile now e u = (b, u')"
  shows "\<not> b \<and> same_pace u u' \<and> same_claims u u' \<or>
    b = fst (claim_uplink_freshness_recovery now u) \<and> same_claims (snd (claim_uplink_freshness_recovery now u)) u' \<and>
    (if b then up_last_timestamp u' = up_last_timestamp u \<and> up_last_received_at u' = up_last_received_at u \<and>
        (up_burst_debt u' = up_burst_debt u \<or> up_burst_debt u' = 0) else same_pace u u')"
proof (cases "ov_source e \<noteq> ''opus_input_stale'' \<or> profile \<notin> {Some WSS_PROFILE, Some UDP_PROFILE}")
  case True
  then show ?thesis using assms by (auto simp: recover_isolated_stale_def same_pace_def same_claims_def)
next
  case False
  obtain g u1 where c: "claim_uplink_freshness_recovery now u = (g, u1)" by fastforce
  have u1: "same_pace u u1" using c by (auto simp: same_pace_def claim_uplink_freshness_recovery_def Let_def)
  have "b = g \<and> same_claims u1 u' \<and> (if b then up_last_timestamp u' = up_last_timestamp u1 \<and> up_last_received_at u' = up_last_received_at u1 \<and>
        (up_burst_debt u' = up_burst_debt u1 \<or> up_burst_debt u' = 0) else same_pace u1 u')"
    using assms unfolding recover_isolated_stale_def if_not_P [OF False] c
    by (auto simp: Let_def begin_wss_catchup_def same_claims_def same_pace_def split: if_splits)
  then show ?thesis using u1 c by (auto simp: same_pace_def split: if_splits)
qed

text \<open>A round of the input loop claims no recovery, or it claims one and skips its packet exactly when it is granted.\<close>

lemma input_loop_head_pace:
  assumes "input_loop_head a cap profile now error_now claim_now u = (r, u')"
  shows "r \<noteq> Inr Skipped \<and> same_pace u u' \<and> same_claims u u' \<or>
    (r = Inr Skipped \<longleftrightarrow> fst (claim_uplink_freshness_recovery claim_now u)) \<and>
    same_claims (snd (claim_uplink_freshness_recovery claim_now u)) u' \<and>
    (if r = Inr Skipped then up_last_timestamp u' = up_last_timestamp u \<and> up_last_received_at u' = up_last_received_at u \<and>
        (up_burst_debt u' = up_burst_debt u \<or> up_burst_debt u' = 0) else same_pace u u')"
proof -
  have id: "same_pace u u" "same_claims u u" by (simp_all add: same_pace_def same_claims_def)
  show ?thesis
  proof (cases "up_queue u")
    case Nil
    then show ?thesis using assms id by (auto simp: input_loop_head_def)
  next
    case (Cons x rest)
    let ?v = "u\<lparr>up_queue := rest\<rparr>"
    have v: "same_pace u ?v" "same_claims u ?v" by (simp_all add: same_pace_def same_claims_def)
    show ?thesis
    proof (cases "\<exists>q. x = Some q \<and> qa_deadline_at q - now \<le> 0")
      case False
      then show ?thesis
        using assms Cons v by (cases x) (auto simp: input_loop_head_def remaining_uplink_budget_def)
    next
      case True
      then obtain q where x: "x = Some q" and late: "qa_deadline_at q - now \<le> 0" by blast
      obtain e w where s: "stale_uplink_error a cap q error_now ?v = (e, w)" by fastforce
      have w: "same_pace u w" "same_claims u w"
        using v stale_error_frame [of ?v a cap q error_now] s by (simp_all add: same_pace_def same_claims_def)
      obtain b z where rc: "recover_isolated_stale profile claim_now e w = (b, z)" by fastforce
      have "u' = z \<and> (r = Inr Skipped \<longleftrightarrow> b)"
        using assms Cons x late s rc by (auto simp: input_loop_head_def remaining_uplink_budget_def split: if_splits)
      then show ?thesis
        using recover_cases [OF rc] w claim_same [OF w(2), of claim_now] by (auto simp: same_pace_def same_claims_def)
    qed
  qed
qed

lemma receive_audio_pace:
  "receive_admit a cap t c wss packet u = (r, u1) \<Longrightarrow> same_pace u1 (snd (receive_audio a cap t c wss packet u)) \<and>
    same_claims u1 (snd (receive_audio a cap t c wss packet u))"
  by (cases r) (auto simp: receive_audio_def put_or_wait_def same_pace_def same_claims_def split: option.split)

lemma claims_kept:
  assumes "same_claims u v"
  shows "keeps (same_claims u) (check_future_jump a t c True ts d ad v)" "keeps (same_claims u) (wss_catchup a cap t ts ad v)"
    "keeps (same_claims u) (charge_burst_debt a ad v)"
  using assms
  by (simp_all add: keeps_def same_claims_def check_future_jump_def wss_catchup_def charge_burst_debt_def Let_def)

lemma placed_claims: "place_on_timeline a t ts deltas v = (e, w) \<Longrightarrow> same_claims u v \<Longrightarrow> same_claims u w"
  by (auto simp: same_claims_def place_on_timeline_def Let_def split: option.splits if_splits)

lemma receive_admit_claims: "keeps (same_claims u) (receive_admit a cap t c True packet u)"
proof -
  have "same_claims u (u\<lparr>up_timeline_timestamp := x, up_timeline_started_at := y\<rparr>)" "same_claims u u" for x y
    by (simp_all add: same_claims_def)
  then show ?thesis
    unfolding receive_admit_def by (intro keeps_rules keeps_bind claims_kept) (auto elim: placed_claims)
qed

lemma quiet_step_pace:
  assumes "arrival_time ev = None" "claim_time ev = None"
  shows "same_pace u (uplink_step a cap ev u)" "same_claims u (uplink_step a cap ev u)"
  using assms stale_error_frame [of u a cap]
  by (cases ev; auto simp: arrival_time_def claim_time_def same_pace_def same_claims_def put_resumes_def put_times_out_def
      mark_consumed_def uplink_close_def split: list.split option.split)+

text \<open>The steps of an accepted run over WSS, by kind.\<close>

lemma wss_step_cases:
  assumes ok: "wss_accepts a cap ev u" and u': "u' = uplink_step a cap ev u"
  obtains (arrival) t c packet res u1 where "ev = Arrive t c True packet" "receive_admit a cap t c True packet u = (Inr res, u1)"
      "same_pace u1 u'" "admits a cap ev u \<longleftrightarrow> res \<noteq> None" "\<not> recovers a cap ev u"
  | (round) c where "claim_time ev = Some c" "arrival_time ev = None" "\<not> admits a cap ev u"
      "recovers a cap ev u \<Longrightarrow> up_last_timestamp u' = up_last_timestamp u \<and> up_last_received_at u' = up_last_received_at u \<and>
         (up_burst_debt u' = up_burst_debt u \<or> up_burst_debt u' = 0)"
      "\<not> recovers a cap ev u \<Longrightarrow> same_pace u u'"
  | (quiet) "arrival_time ev = None" "claim_time ev = None" "\<not> admits a cap ev u" "\<not> recovers a cap ev u" "same_pace u u'"
proof (cases ev)
  case (Arrive t c wss packet)
  obtain r u1 where r: "receive_admit a cap t c wss packet u = (r, u1)" by fastforce
  show thesis
  proof (cases r)
    case (Inl e)
    then show thesis using ok r Arrive by (simp add: wss_accepts_def receive_audio_def)
  next
    case (Inr res)
    have "wss" using ok Arrive by (simp add: wss_accepts_def)
    moreover have "admits a cap ev u \<longleftrightarrow> res \<noteq> None" "\<not> recovers a cap ev u"
      using r Inr Arrive by (auto simp: admits_def recovers_def split: option.split)
    ultimately show thesis using arrival Arrive r Inr receive_audio_pace [OF r] u' by simp
  qed
next
  case (Consume profile now error_now c)
  obtain r v where r: "input_loop_head a cap profile now error_now c u = (r, v)" by fastforce
  have "recovers a cap ev u \<longleftrightarrow> r = Inr Skipped" "v = u'" using r u' Consume by (simp_all add: recovers_def)
  then show thesis
    using round [of c] Consume input_loop_head_pace [OF r] by (auto simp: claim_time_def arrival_time_def admits_def)
qed (use quiet quiet_step_pace(1) [of ev u a cap] u' in \<open>simp_all add: arrival_time_def claim_time_def admits_def recovers_def\<close>)

abbreviation arrivals :: "uplink_event list \<Rightarrow> real list" where
  "arrivals evs \<equiv> List.map_filter arrival_time evs"

abbreviation claims :: "uplink_event list \<Rightarrow> real list" where
  "claims evs \<equiv> List.map_filter claim_time evs"

lemma times_Cons [simp]:
  "arrivals (ev # evs) = (case arrival_time ev of None \<Rightarrow> arrivals evs | Some t \<Rightarrow> t # arrivals evs)"
  "claims (ev # evs) = (case claim_time ev of None \<Rightarrow> claims evs | Some t \<Rightarrow> t # claims evs)"
  by (simp_all add: List.map_filter_simps)

lemma debt_bound:
  assumes "wss_run a cap evs u" "up_last_timestamp u \<noteq> None" "0 \<le> up_burst_debt u" "up_burst_debt u \<le> a + time_slack"
    "sorted_wrt (\<le>) (up_last_received_at u # arrivals evs @ [T])"
  shows "up_burst_debt u + real (count_steps admits a cap evs u) * frame_seconds
      - (T - up_last_received_at u) * (1 + TIMELINE_MAX_WSS_CLOCK_SKEW_RATIO) \<le> (1 + real (count_steps recovers a cap evs u)) * (a + time_slack)"
  using assms
proof (induction evs arbitrary: u)
  case Nil
  have "0 \<le> (T - up_last_received_at u) * (1 + TIMELINE_MAX_WSS_CLOCK_SKEW_RATIO)"
    using Nil.prems(5) by (intro mult_nonneg_nonneg) (simp_all add: TIMELINE_MAX_WSS_CLOCK_SKEW_RATIO_def List.map_filter_simps)
  then show ?case using Nil.prems(4) by simp
next
  case (Cons ev evs)
  define u' where "u' = uplink_step a cap ev u"
  let ?k = "1 + TIMELINE_MAX_WSS_CLOCK_SKEW_RATIO"
  have k: "0 \<le> ?k" by (simp add: TIMELINE_MAX_WSS_CLOCK_SKEW_RATIO_def)
  have run: "wss_run a cap evs u'" and ok: "wss_accepts a cap ev u" using Cons.prems(1) by (simp_all add: u'_def)
  note ih = Cons.IH [OF run, folded u'_def]
  from ok u'_def show ?case
  proof (cases rule: wss_step_cases)
    case (arrival t c packet res u1)
    have at: "arrival_time ev = Some t" using arrival(1) by (simp add: arrival_time_def)
    note A = admit_charged [OF arrival(2) Cons.prems(2)]
    have u': "up_last_received_at u' = t" "up_last_timestamp u' \<noteq> None" "up_burst_debt u' = up_burst_debt u1"
      using A(1,2) arrival(3) by (simp_all add: same_pace_def)
    have le: "up_last_received_at u \<le> t" and srt: "sorted_wrt (\<le>) (up_last_received_at u' # arrivals evs @ [T])"
      using Cons.prems(5) at u'(1) by simp_all
    show ?thesis
    proof (cases res)
      case None
      have "up_burst_debt u' = up_burst_debt u" using A(3) None u'(3) by simp
      moreover from this have "up_burst_debt u' + real (count_steps admits a cap evs u') * frame_seconds - (T - t) * ?k \<le> (1 + real (count_steps recovers a cap evs u')) * (a + time_slack)"
        using ih u' srt Cons.prems(3,4) by simp
      moreover have "(T - t) * ?k \<le> (T - up_last_received_at u) * ?k" using le k by (intro mult_right_mono) simp_all
      ultimately show ?thesis using arrival None by (simp add: u'_def)
    next
      case (Some q)
      have d: "0 \<le> up_burst_debt u'" "up_burst_debt u' \<le> a + time_slack"
        "up_burst_debt u + frame_seconds - (t - up_last_received_at u) * ?k \<le> up_burst_debt u'"
        using A(3) Some u'(3) le by simp_all
      have "up_burst_debt u' + real (count_steps admits a cap evs u') * frame_seconds - (T - t) * ?k \<le> (1 + real (count_steps recovers a cap evs u')) * (a + time_slack)"
        using ih u'(1,2) d(1,2) srt by simp
      then show ?thesis using arrival Some d(3) by (simp add: u'_def algebra_simps)
    qed
  next
    case (round c)
    have srt: "sorted_wrt (\<le>) (up_last_received_at u # arrivals evs @ [T])" using Cons.prems(5) round(2) by simp
    show ?thesis
    proof (cases "recovers a cap ev u")
      case True
      note R = round(4) [OF True]
      then have "0 \<le> up_burst_debt u'" "up_burst_debt u' \<le> a + time_slack" using Cons.prems(3,4) by auto
      then have "up_burst_debt u' + real (count_steps admits a cap evs u') * frame_seconds - (T - up_last_received_at u) * ?k \<le> (1 + real (count_steps recovers a cap evs u')) * (a + time_slack)"
        using ih R Cons.prems(2) srt by simp
      then have "up_burst_debt u + real (count_steps admits a cap evs u') * frame_seconds - (T - up_last_received_at u) * ?k \<le> (1 + (1 + real (count_steps recovers a cap evs u'))) * (a + time_slack)"
        using Cons.prems(4) \<open>0 \<le> up_burst_debt u'\<close> by (simp add: algebra_simps)
      then show ?thesis using round(3) True by (simp add: u'_def)
    next
      case False
      then show ?thesis using ih round(3,5) Cons.prems srt by (simp add: u'_def same_pace_def)
    qed
  next
    case quiet
    then show ?thesis using ih Cons.prems by (simp add: u'_def same_pace_def)
  qed
qed

lemma burst_bound_start:
  assumes "wss_run a cap evs u" "up_last_timestamp u = None" "up_burst_debt u = 0" "0 < a" "sorted_wrt (\<le>) (S # arrivals evs @ [T])"
  shows "real (count_steps admits a cap evs u) * frame_seconds \<le> (T - S) * (1 + TIMELINE_MAX_WSS_CLOCK_SKEW_RATIO) + frame_seconds +
    (1 + real (count_steps recovers a cap evs u)) * (a + time_slack)"
  using assms
proof (induction evs arbitrary: u)
  case Nil
  have "0 \<le> (T - S) * (1 + TIMELINE_MAX_WSS_CLOCK_SKEW_RATIO)"
    using Nil.prems(5) by (intro mult_nonneg_nonneg) (simp_all add: TIMELINE_MAX_WSS_CLOCK_SKEW_RATIO_def List.map_filter_simps)
  then show ?case using Nil.prems(4) by (simp add: frame_seconds time_slack_def)
next
  case (Cons ev evs)
  define u' where "u' = uplink_step a cap ev u"
  have run: "wss_run a cap evs u'" and ok: "wss_accepts a cap ev u" using Cons.prems(1) by (simp_all add: u'_def)
  note ih = Cons.IH [OF run, folded u'_def]
  from ok u'_def show ?case
  proof (cases rule: wss_step_cases)
    case (arrival t c packet res u1)
    have at: "arrival_time ev = Some t" using arrival(1) by (simp add: arrival_time_def)
    note A = admit_first [OF arrival(2) Cons.prems(2)]
    have u': "up_last_received_at u' = t" "up_last_timestamp u' \<noteq> None" "up_burst_debt u' = 0"
      using A arrival(3) Cons.prems(3) by (simp_all add: same_pace_def)
    have le: "S \<le> t" and srt: "sorted_wrt (\<le>) (up_last_received_at u' # arrivals evs @ [T])"
      using Cons.prems(5) at u'(1) by simp_all
    have "real (count_steps admits a cap evs u') * frame_seconds - (T - t) * (1 + TIMELINE_MAX_WSS_CLOCK_SKEW_RATIO) \<le> (1 + real (count_steps recovers a cap evs u')) * (a + time_slack)"
      using debt_bound [OF run u'(2) _ _ srt] u' Cons.prems(4) by (simp add: time_slack_def)
    moreover have "(T - t) * (1 + TIMELINE_MAX_WSS_CLOCK_SKEW_RATIO) \<le> (T - S) * (1 + TIMELINE_MAX_WSS_CLOCK_SKEW_RATIO)"
      using le by (intro mult_right_mono) (simp_all add: TIMELINE_MAX_WSS_CLOCK_SKEW_RATIO_def)
    ultimately show ?thesis using arrival(4,5) A by (simp add: u'_def algebra_simps)
  next
    case (round c)
    have "up_last_timestamp u' = None" "up_burst_debt u' = 0"
      using round(4,5) Cons.prems(2,3) by (cases "recovers a cap ev u"; auto simp: same_pace_def)+
    moreover have "0 \<le> a + time_slack" using Cons.prems(4) by (simp add: time_slack_def)
    ultimately show ?thesis
      using ih Cons.prems(4,5) round(2,3) by (simp add: u'_def algebra_simps)
  next
    case quiet
    then show ?thesis using ih Cons.prems by (simp add: u'_def same_pace_def)
  qed
qed

text \<open>Recoveries are rationed, two in a window of ten seconds.\<close>

lemma wss_step_claims:
  assumes ok: "wss_accepts a cap ev u" and u': "u' = uplink_step a cap ev u"
  obtains (unclaimed) "\<not> recovers a cap ev u" "same_claims u u'"
  | (claimed) c where "claim_time ev = Some c" "recovers a cap ev u \<longleftrightarrow> fst (claim_uplink_freshness_recovery c u)"
      "same_claims (snd (claim_uplink_freshness_recovery c u)) u'"
proof (cases ev)
  case (Arrive t c wss packet)
  obtain r u1 where r: "receive_admit a cap t c wss packet u = (r, u1)" by fastforce
  have "wss" using ok Arrive by (simp add: wss_accepts_def)
  then have "same_claims u u1" using r receive_admit_claims [of u a cap t c packet] by (simp add: keeps_def)
  then show thesis
    using unclaimed receive_audio_pace [OF r] Arrive u' by (simp add: recovers_def same_claims_def)
next
  case (Consume profile now error_now c)
  obtain r v where r: "input_loop_head a cap profile now error_now c u = (r, v)" by fastforce
  have "recovers a cap ev u \<longleftrightarrow> r = Inr Skipped" "v = u'" using r u' Consume by (simp_all add: recovers_def)
  then show thesis
    using claimed [of c] unclaimed Consume input_loop_head_pace [OF r] by (auto simp: claim_time_def)
qed (use unclaimed quiet_step_pace(2) [of ev u a cap] u' in \<open>simp_all add: arrival_time_def claim_time_def recovers_def\<close>)

lemma recoveries_in_window:
  assumes "wss_run a cap evs u" "up_recovery_window_started_at u = Some w" "1 \<le> up_recovery_count u"
    "sorted_wrt (\<le>) (w # claims evs @ [T])"
  shows "int (count_steps recovers a cap evs u) + min (up_recovery_count u) 2 \<le> 2 + 2 * \<lfloor>(T - w) / 10\<rfloor>"
  using assms
proof (induction evs arbitrary: u w)
  case Nil
  then have "0 \<le> \<lfloor>(T - w) / 10\<rfloor>" by (simp add: List.map_filter_simps)
  moreover have "min (up_recovery_count u) 2 \<le> 2" by simp
  ultimately show ?case unfolding count_steps.simps by linarith
next
  case (Cons ev evs)
  define u' where "u' = uplink_step a cap ev u"
  have run: "wss_run a cap evs u'" and ok: "wss_accepts a cap ev u" using Cons.prems(1) by (simp_all add: u'_def)
  have tail: "sorted_wrt (\<le>) (w # claims evs @ [T])" using Cons.prems(4) by (simp split: option.splits)
  from ok u'_def show ?case
  proof (cases rule: wss_step_claims)
    case unclaimed
    then show ?thesis using Cons.IH [OF run, of w] Cons.prems(2,3) tail by (simp add: same_claims_def u'_def)
  next
    case (claimed t)
    have tw: "w \<le> t" and srt: "sorted_wrt (\<le>) (t # claims evs @ [T])" using Cons.prems(4) claimed(1) by simp_all
    show ?thesis
    proof (cases "t - w > 10")
      case True
      have u': "up_recovery_window_started_at u' = Some t" "up_recovery_count u' = 1" "recovers a cap ev u"
        using claimed(2,3) Cons.prems(2) True by (simp_all add: claim_uplink_freshness_recovery_def same_claims_def uplink_consts Let_def)
      have "int (count_steps recovers a cap evs u') + 1 \<le> 2 + 2 * \<lfloor>(T - t) / 10\<rfloor>" using Cons.IH [OF run u'(1) _ srt] u'(2) by simp
      moreover have "(T - t) / 10 + 1 \<le> (T - w) / 10" using True by argo
      then have "\<lfloor>(T - t) / 10 + 1\<rfloor> \<le> \<lfloor>(T - w) / 10\<rfloor>" by (rule floor_mono)
      then have "\<lfloor>(T - t) / 10\<rfloor> + 1 \<le> \<lfloor>(T - w) / 10\<rfloor>" by simp
      ultimately show ?thesis using u'(3) by (simp add: u'_def min_def)
    next
      case False
      have u': "up_recovery_window_started_at u' = Some w" "up_recovery_count u' = up_recovery_count u + 1"
        "recovers a cap ev u \<longleftrightarrow> up_recovery_count u + 1 \<le> 2"
        using claimed(2,3) Cons.prems(2) False by (simp_all add: claim_uplink_freshness_recovery_def same_claims_def uplink_consts Let_def)
      have "int (count_steps recovers a cap evs u') + min (up_recovery_count u + 1) 2 \<le> 2 + 2 * \<lfloor>(T - w) / 10\<rfloor>"
        using Cons.IH [OF run u'(1) _ tail] u'(2) Cons.prems(3) by simp
      then show ?thesis using u'(3) Cons.prems(3) by (cases "up_recovery_count u = 1") (simp_all add: u'_def)
    qed
  qed
qed

lemma recoveries_rationed:
  assumes "wss_run a cap evs u" "up_recovery_window_started_at u = None" "sorted_wrt (\<le>) (S # claims evs @ [T])"
  shows "int (count_steps recovers a cap evs u) \<le> 2 + 2 * \<lfloor>(T - S) / 10\<rfloor>"
  using assms
proof (induction evs arbitrary: u)
  case Nil
  then have "0 \<le> \<lfloor>(T - S) / 10\<rfloor>" by (simp add: List.map_filter_simps)
  then show ?case unfolding count_steps.simps by linarith
next
  case (Cons ev evs)
  define u' where "u' = uplink_step a cap ev u"
  have run: "wss_run a cap evs u'" and ok: "wss_accepts a cap ev u" using Cons.prems(1) by (simp_all add: u'_def)
  have tail: "sorted_wrt (\<le>) (S # claims evs @ [T])" using Cons.prems(3) by (simp split: option.splits)
  from ok u'_def show ?case
  proof (cases rule: wss_step_claims)
    case unclaimed
    then show ?thesis using Cons.IH [OF run] Cons.prems(2) tail by (simp add: same_claims_def u'_def)
  next
    case (claimed t)
    have u': "up_recovery_window_started_at u' = Some t" "up_recovery_count u' = 1" "recovers a cap ev u"
      using claimed(2,3) Cons.prems(2) by (simp_all add: claim_uplink_freshness_recovery_def same_claims_def uplink_consts Let_def)
    have St: "S \<le> t" and srt: "sorted_wrt (\<le>) (t # claims evs @ [T])" using Cons.prems(3) claimed(1) by simp_all
    have "int (count_steps recovers a cap evs u') + 1 \<le> 2 + 2 * \<lfloor>(T - t) / 10\<rfloor>" using recoveries_in_window [OF run u'(1) _ srt] u'(2) by simp
    moreover have "\<lfloor>(T - t) / 10\<rfloor> \<le> \<lfloor>(T - S) / 10\<rfloor>" using St by (intro floor_mono divide_right_mono) simp_all
    ultimately show ?thesis using u'(3) by (simp add: u'_def)
  qed
qed


section \<open>The live edge\<close>

text \<open>
  Dropping to the live edge keeps exactly the newest packet that is still fresh. With no close in the queue, the drop
  empties it except for that packet, if there is one, which gets a full budget from its arrival and so is still fresh;
  the count of dropped packets plus the kept one is all there were; without a fresh packet the timeline restarts.
\<close>

theorem live_edge_kept:
  assumes q: "up_queue u = map Some xs" and ok: "list_all (deadline_ok max_age) (current # xs)"
    and d: "drop_stale_to_live_edge max_age capacity current now u = (f, u')"
  shows "case fd_live_edge f of
      None \<Rightarrow> up_queue u' = [] \<and> list_all (\<lambda>x. qa_deadline_at x \<le> now) (current # xs) \<and> up_timeline_timestamp u' = None \<and>
        fd_dropped_packets f = int (length xs) + 1
    | Some e \<Rightarrow> up_queue u' = [Some e] \<and> now < qa_deadline_at e \<and> fd_dropped_packets f = int (length xs) \<and>
        (\<exists>older newer x. current # xs = older @ x # newer \<and> qa_packet e = qa_packet x \<and> now < qa_deadline_at x \<and>
           list_all (\<lambda>y. qa_deadline_at y \<le> now) newer)"
proof -
  have tp: "take_pending (map Some ys) = (ys, False, [])" for ys by (induction ys) simp_all
  show ?thesis
  proof (cases "filter (\<lambda>x. qa_deadline_at x > now) (current # xs) = []")
    case True
    then have e: "fd_live_edge f = None" "up_queue u' = []" "up_timeline_timestamp u' = None" "fd_dropped_packets f = int (length xs) + 1"
      using d q tp by (auto simp: drop_stale_to_live_edge_def Let_def split: if_splits)
    have "list_all (\<lambda>x. qa_deadline_at x \<le> now) (current # xs)" using True unfolding filter_empty_conv list_all_iff by auto
    then show ?thesis using e by simp
  next
    case False
    let ?fresh = "filter (\<lambda>x. qa_deadline_at x > now) (current # xs)"
    define x where "x = last ?fresh"
    obtain ys where ys: "?fresh = ys @ [x]" using False by (metis append_butlast_last_id x_def)
    from filter_eq_Cons_iff [of "\<lambda>x. qa_deadline_at x > now" "rev (current # xs)" x "rev ys"]
    obtain us vs where uv: "rev (current # xs) = us @ x # vs" "\<forall>u\<in>set us. \<not> now < qa_deadline_at u" "now < qa_deadline_at x"
      using ys by (metis (no_types, lifting) rev_append rev_filter rev_singleton_conv rev_swap append_Cons append_Nil)
    have split: "current # xs = rev vs @ x # rev us"
    proof -
      have "rev (rev (current # xs)) = rev (us @ x # vs)" using uv(1) by (rule arg_cong)
      then show ?thesis by simp
    qed
    have "deadline_ok max_age x" using ok split unfolding list_all_iff by (metis in_set_conv_decomp)
    moreover have e: "fd_live_edge f = Some \<lparr>qa_packet = qa_packet x, qa_received_at = qa_received_at x,
        qa_expected_at = qa_received_at x, qa_deadline_at = qa_received_at x + max_age\<rparr>"
      "up_queue u' = [fd_live_edge f]" "fd_dropped_packets f = int (length xs)"
      using d q tp False unfolding x_def by (auto simp: drop_stale_to_live_edge_def Let_def split: if_splits)
    moreover have "list_all (\<lambda>y. qa_deadline_at y \<le> now) (rev us)" using uv(2) by (simp add: list_all_iff not_less)
    ultimately have "now < qa_deadline_at (the (fd_live_edge f))" "qa_packet (the (fd_live_edge f)) = qa_packet x"
      "list_all (\<lambda>y. qa_deadline_at y \<le> now) (rev us)"
      using uv(3) by (simp_all add: deadline_ok_def)
    then show ?thesis using e split uv(3) by (simp only: option.case option.sel) blast
  qed
qed

section \<open>Witnesses\<close>

definition uplink_demo_limits :: runtime_limits where
  "uplink_demo_limits = \<lparr>rl_input_queue_packets = 8, rl_output_queue_items = 12, rl_max_segment_frames = 1500,
     rl_queue_timeout_seconds = 1 / 5, rl_uplink_max_age_seconds = 3 / 5, rl_wire_send_timeout_seconds = 1,
     rl_handshake_timeout_seconds = 5, rl_runner_timeout_seconds = 5, rl_close_timeout_seconds = 5,
     rl_agent_close_stage_timeout_seconds = 2, rl_playback_terminal_timeout_seconds = 3, rl_idle_timeout_seconds = 45,
     rl_playback_prebuffer_packets = 4, rl_max_consecutive_invalid_opus_packets = 8\<rparr>"

definition uplink_demo_packet :: "int \<Rightarrow> inbound_audio" where
  "uplink_demo_packet n = \<lparr>ia_sequence = n, ia_timestamp = 960 * n, ia_payload = [1]\<rparr>"

theorem uplink_fresh_and_bounded_witness:
  "let u = fold (uplink_step (3 / 5) 8) [Arrive 0 0 True (uplink_demo_packet 0)] uplink_init in
    int (length (up_queue u)) \<le> 8 \<and>
    (case input_loop_head (3 / 5) 8 (Some WSS_PROFILE) (1 / 10) (1 / 10) (1 / 10) u of
       (Inr (Take q), _) \<Rightarrow> 1 / 10 < qa_received_at q + 3 / 5 | _ \<Rightarrow> True)"
proof -
  have l: "limits_valid uplink_demo_limits" "rl_uplink_max_age_seconds uplink_demo_limits = 3 / 5"
    "rl_input_queue_packets uplink_demo_limits = 8" by (simp_all add: limits_valid_def uplink_demo_limits_def)
  from uplink_fresh_and_bounded [OF l(1), where evs = "[Arrive 0 0 True (uplink_demo_packet 0)]" and profile = "Some WSS_PROFILE"
      and now = "1 / 10" and error_now = "1 / 10" and claim_now = "1 / 10"]
  show ?thesis unfolding l Let_def .
qed

text \<open>A packet that is skipped as stale, and one that the catch-up drops.\<close>

definition uplink_demo_run :: "uplink_event list" where
  "uplink_demo_run = [Arrive 0 0 True (uplink_demo_packet 0), Consume (Some WSS_PROFILE) 1 1 1,
     Arrive (102 / 100) (102 / 100) True (uplink_demo_packet 17)]"

lemmas uplink_demo_unfold = uplink_demo_run_def wss_accepts_def admits_def recovers_def receive_audio_def receive_admit_def uplink_init_def
  uplink_demo_packet_def place_on_timeline_def check_future_jump_def wss_catchup_def charge_burst_debt_def put_or_wait_def up_full_def
  input_loop_head_def remaining_uplink_budget_def stale_uplink_error_def drop_stale_to_live_edge_def recover_isolated_stale_def
  claim_uplink_freshness_recovery_def begin_wss_catchup_def max_catchup_packets_def mask32_mod seconds_def uplink_consts Let_def

lemma uplink_demo_wss_run: "wss_run (3 / 5) 8 uplink_demo_run uplink_init"
  by (simp add: uplink_demo_unfold)

lemma uplink_demo_counts:
  "count_steps admits (3 / 5) 8 uplink_demo_run uplink_init = 1" "count_steps recovers (3 / 5) 8 uplink_demo_run uplink_init = 1"
  by (simp_all add: uplink_demo_unfold)


definition uplink_demo_queued :: "real \<Rightarrow> queued_audio" where
  "uplink_demo_queued t = \<lparr>qa_packet = uplink_demo_packet 0, qa_received_at = t, qa_expected_at = t, qa_deadline_at = t + 3 / 5\<rparr>"

theorem live_edge_kept_witness:
  "let u = uplink_init\<lparr>up_queue := [Some (uplink_demo_queued 1)]\<rparr>;
       (f, u') = drop_stale_to_live_edge (3 / 5) 8 (uplink_demo_queued 0) 1 u in
    fd_live_edge f \<noteq> None \<and> up_queue u' = [fd_live_edge f] \<and> fd_dropped_packets f = 1"
proof -
  let ?u = "uplink_init\<lparr>up_queue := [Some (uplink_demo_queued 1)]\<rparr>"
  let ?d = "drop_stale_to_live_edge (3 / 5) 8 (uplink_demo_queued 0) 1 ?u"
  have ok: "list_all (deadline_ok (3 / 5)) [uplink_demo_queued 0, uplink_demo_queued 1]"
    by (simp add: deadline_ok_def uplink_demo_queued_def)
  have fresh: "fd_live_edge (fst ?d) \<noteq> None"
    by (simp add: drop_stale_to_live_edge_def uplink_demo_queued_def Let_def)
  from live_edge_kept [of ?u "[uplink_demo_queued 1]", OF _ ok prod.collapse [symmetric], of 8 1] fresh
  show ?thesis by (auto simp: Let_def case_prod_beta)
qed

end
