(* ===== verification/Replay_Guard.thy ===== *)
theory Replay_Guard
  imports Rva_Prelude
begin

text \<open>
  The contract of a sliding replay window with a bounded forward jump, which the worker and the desktop
  client both implement, its consequences for a whole stream of packets, and the lemmas on bitmaps that
  both implementations need.
\<close>

section \<open>Bitmaps\<close>

lemma and_single_bit_eq_0: "(b :: int) AND push_bit d 1 = 0 \<longleftrightarrow> \<not> bit b d"
proof
  assume "b AND push_bit d 1 = 0"
  then have "\<not> bit (b AND push_bit d 1) d" by simp
  then show "\<not> bit b d" by (simp add: bit_simps)
next
  assume "\<not> bit b d"
  then show "b AND push_bit d 1 = 0"
    by (intro bit_eqI) (auto simp: bit_simps)
qed

lemma and_exp_eq_0: "(b :: int) AND 2 ^ d = 0 \<longleftrightarrow> \<not> bit b d"
  using and_single_bit_eq_0 [of b d] by simp

definition window_mask :: int where
  "window_mask = push_bit 64 1 - 1"

lemma bit_window_mask: "bit window_mask n \<longleftrightarrow> n < 64"
proof -
  have "window_mask = mask 64"
    by (simp add: window_mask_def mask_eq_exp_minus_1)
  then have "bit window_mask n \<longleftrightarrow> bit (mask 64 :: int) n" by (rule arg_cong)
  then show ?thesis by (simp only: bit_mask_iff possible_bit_int simp_thms)
qed

lemma bit_shifted_window:
  "bit ((push_bit k b OR 1) AND window_mask) n \<longleftrightarrow> n < 64 \<and> (n = 0 \<or> (k \<le> n \<and> bit b (n - k)))"
  by (auto simp: bit_window_mask bit_or_iff bit_and_iff bit_push_bit_iff_int bit_1_iff)

text \<open>
  A bitmap with highest sequence \<open>h\<close> records the history \<open>H\<close>: \<open>h\<close> is its maximum and bit \<open>d\<close> tells
  whether \<open>h - d\<close> is in it, for the 64 newest sequences.
\<close>

definition window_tracks :: "int \<Rightarrow> int \<Rightarrow> int set \<Rightarrow> bool" where
  "window_tracks h b H \<longleftrightarrow> finite H \<and> h \<in> H \<and> (\<forall>n \<in> H. 0 \<le> n \<and> n \<le> h) \<and>
     (\<forall>d < 64. bit b d \<longleftrightarrow> h - int d \<in> H)"

lemma window_tracks_Max: "window_tracks h b H \<Longrightarrow> Max H = h"
  by (auto simp: window_tracks_def intro!: Max_eqI)

lemma window_tracks_single: "0 \<le> n \<Longrightarrow> (\<forall>d < 64. bit b d \<longleftrightarrow> d = 0) \<Longrightarrow> window_tracks n b {n}"
  by (auto simp: window_tracks_def)

lemma window_tracks_forward:
  assumes "window_tracks h b H" and "h < n" and "\<forall>d < 64. bit b' d \<longleftrightarrow> d = 0 \<or>
    (nat (n - h) \<le> d \<and> bit b (d - nat (n - h)))"
  shows "window_tracks n b' (insert n H)"
proof -
  have le: "\<forall>m \<in> H. m \<le> h" and h: "0 \<le> h"
    using assms(1) by (auto simp: window_tracks_def)
  have "bit b' d \<longleftrightarrow> n - int d \<in> insert n H" if d: "d < 64" for d
  proof (cases "nat (n - h) \<le> d")
    case True
    have "bit b (d - nat (n - h)) \<longleftrightarrow> h - int (d - nat (n - h)) \<in> H"
      using assms(1) d by (simp add: window_tracks_def)
    moreover have "h - int (d - nat (n - h)) = n - int d"
      using True assms(2) by simp
    ultimately show ?thesis using assms(2,3) d True by auto
  next
    case False
    then have "n - int d \<notin> H" using le by force
    then show ?thesis using assms(3) d False by auto
  qed
  then show ?thesis
    using assms(1,2) le h by (auto simp: window_tracks_def)
qed

lemma window_tracks_backward:
  assumes "window_tracks h b H" and "0 \<le> n" "n \<le> h"
  shows "window_tracks h (b OR push_bit (nat (h - n)) 1) (insert n H)"
proof -
  have "bit (b OR push_bit (nat (h - n)) 1) d \<longleftrightarrow> h - int d \<in> insert n H" if "d < 64" for d
    using assms that by (auto simp: window_tracks_def bit_or_iff bit_exp_iff)
  then show ?thesis
    using assms by (auto simp: window_tracks_def)
qed

lemma window_tracks_bit:
  "window_tracks h b H \<Longrightarrow> n \<le> h \<Longrightarrow> h - n < 64 \<Longrightarrow> bit b (nat (h - n)) \<longleftrightarrow> n \<in> H"
  by (simp add: window_tracks_def)

section \<open>The contract\<close>

text \<open>
  Admission of a stream: a refused sequence (\<open>commit\<close> raises, here \<open>None\<close>) leaves the window as it is.
\<close>

fun admitted :: "('s \<Rightarrow> int \<Rightarrow> 's option) \<Rightarrow> 's \<Rightarrow> int list \<Rightarrow> int list" where
  "admitted commit w [] = []"
| "admitted commit w (n # ns) = (case commit w n of
      None \<Rightarrow> admitted commit w ns
    | Some w' \<Rightarrow> n # admitted commit w' ns)"

locale replay_guard =
  fixes init :: 's
    and acceptable :: "'s \<Rightarrow> int \<Rightarrow> bool"
    and commit :: "'s \<Rightarrow> int \<Rightarrow> 's option"
    and tracks :: "'s \<Rightarrow> int set \<Rightarrow> bool"
  assumes tracks_init: "tracks init {}"
    and commit_iff: "commit w n \<noteq> None \<longleftrightarrow> acceptable w n"
    and commit_tracks: "tracks w H \<Longrightarrow> is_uint32 n \<Longrightarrow> commit w n = Some w' \<Longrightarrow> tracks w' (insert n H)"
    and acceptable_first: "tracks w {} \<Longrightarrow> is_uint32 n \<Longrightarrow> acceptable w n"
    and acceptable_iff: "tracks w H \<Longrightarrow> H \<noteq> {} \<Longrightarrow> is_uint32 n \<Longrightarrow>
      acceptable w n \<longleftrightarrow> n \<notin> H \<and> Max H - 64 < n \<and> n \<le> Max H + 1024"
begin

lemma acceptable_fresh: "tracks w H \<Longrightarrow> is_uint32 n \<Longrightarrow> acceptable w n \<Longrightarrow> n \<notin> H"
  using acceptable_iff by (cases "H = {}") auto

lemma admitted_fresh:
  "tracks w H \<Longrightarrow> list_all is_uint32 ns \<Longrightarrow>
     distinct (admitted commit w ns) \<and> set (admitted commit w ns) \<inter> H = {}"
proof (induction ns arbitrary: w H)
  case Nil
  then show ?case by simp
next
  case (Cons n ns)
  show ?case
  proof (cases "commit w n")
    case None
    with Cons show ?thesis by simp
  next
    case (Some w')
    then have "n \<notin> H"
      using Cons.prems acceptable_fresh commit_iff by force
    moreover have "tracks w' (insert n H)"
      using Cons.prems Some commit_tracks by simp
    ultimately show ?thesis
      using Cons.IH [of w' "insert n H"] Cons.prems Some by auto
  qed
qed

lemma admitted_distinct: "list_all is_uint32 ns \<Longrightarrow> distinct (admitted commit init ns)"
  using admitted_fresh [OF tracks_init] by simp

lemma admitted_in_order:
  assumes "tracks w H" "H \<noteq> {}" "Max H = m" "finite H" "0 \<le> m" "m + int k \<le> uint32_max"
  shows "admitted commit w (map (\<lambda>i. m + 1 + int i) [0..<k]) = map (\<lambda>i. m + 1 + int i) [0..<k]"
  using assms
proof (induction k arbitrary: w H m)
  case 0
  then show ?case by simp
next
  case (Suc k)
  have u: "is_uint32 (m + 1)" using Suc.prems by (simp add: is_uint32_def)
  have nm: "m + 1 \<notin> H" using Suc.prems Max_ge [of H "m + 1"] by auto
  then have "acceptable w (m + 1)" using acceptable_iff [OF Suc.prems(1,2) u] Suc.prems(3) by simp
  then obtain w' where w': "commit w (m + 1) = Some w'" using commit_iff by blast
  have "tracks w' (insert (m + 1) H)" using commit_tracks Suc.prems(1) u w' by blast
  moreover have "Max (insert (m + 1) H) = m + 1"
    using Suc.prems Max_ge [of H] by (intro Max_eqI) fastforce+
  ultimately have "admitted commit w' (map (\<lambda>i. (m + 1) + 1 + int i) [0..<k]) =
      map (\<lambda>i. (m + 1) + 1 + int i) [0..<k]"
    using Suc.prems by (intro Suc.IH [of w' "insert (m + 1) H"]) auto
  moreover have "map (\<lambda>i. m + 1 + int i) [0..<Suc k] =
      (m + 1) # map (\<lambda>i. (m + 1) + 1 + int i) [0..<k]"
    by (simp add: upt_conv_Cons map_Suc_upt [symmetric] add.assoc del: upt_Suc)
  ultimately show ?case using w' by simp
qed

end

end
