(* ===== verification/Udp_Wire.thy ===== *)
theory Udp_Wire
  imports Media_Header Replay_Guard
begin

text \<open>
  The packet primitives of the \<open>udp-opus-gcm/1\<close> profile on the worker, \<open>transport/udp_wire.py\<close>: the packet
  header and the 64-packet replay window, an instance of the contract of \<open>Replay_Guard\<close>.
\<close>

section \<open>Constants\<close>

definition UDP_MAGIC :: bytes where "UDP_MAGIC = [0x56, 0x41]"
definition UDP_VERSION :: int where "UDP_VERSION = 1"
definition UDP_FLAG_AUDIO :: int where "UDP_FLAG_AUDIO = 1"
definition UDP_FLAG_PROBE :: int where "UDP_FLAG_PROBE = 2"
definition UDP_FLAG_PROBE_ACK :: int where "UDP_FLAG_PROBE_ACK = 4"
definition UDP_FLAG_KEEPALIVE :: int where "UDP_FLAG_KEEPALIVE = 8"
definition UDP_TAG_BYTES :: nat where "UDP_TAG_BYTES = 16"
definition UDP_SALT_BYTES :: nat where "UDP_SALT_BYTES = 8"
definition UDP_KEY_BYTES :: nat where "UDP_KEY_BYTES = 16"
definition UDP_HEADER_BYTES :: nat where "UDP_HEADER_BYTES = 32"
definition UDP_MAX_DATAGRAM_BYTES :: nat where "UDP_MAX_DATAGRAM_BYTES = 1280"
definition UDP_MAX_PAYLOAD_BYTES :: nat where "UDP_MAX_PAYLOAD_BYTES = 1200"
definition UDP_REPLAY_WINDOW_PACKETS :: int where "UDP_REPLAY_WINDOW_PACKETS = 64"
definition UDP_MAX_SEQUENCE_FORWARD_JUMP :: int where "UDP_MAX_SEQUENCE_FORWARD_JUMP = 1024"
definition UDP_JITTER_WINDOW_PACKETS :: int where "UDP_JITTER_WINDOW_PACKETS = 4"

lemmas udp_consts = UDP_MAGIC_def UDP_VERSION_def UDP_FLAG_AUDIO_def UDP_FLAG_PROBE_def
  UDP_FLAG_PROBE_ACK_def UDP_FLAG_KEEPALIVE_def UDP_TAG_BYTES_def UDP_HEADER_BYTES_def
  UDP_MAX_DATAGRAM_BYTES_def UDP_MAX_PAYLOAD_BYTES_def UDP_REPLAY_WINDOW_PACKETS_def
  UDP_MAX_SEQUENCE_FORWARD_JUMP_def UDP_JITTER_WINDOW_PACKETS_def

section \<open>Packet header\<close>

record udp_packet_header =
  uh_flags :: int
  uh_media_id :: bytes
  uh_media_epoch :: int
  uh_sequence :: int
  uh_timestamp :: int
  uh_generation :: int
  uh_payload_length :: int

definition udp_struct :: "udp_packet_header \<Rightarrow> media_header" where
  "udp_struct u = \<lparr>h_magic = UDP_MAGIC, h_version = UDP_VERSION, h_flags = uh_flags u,
     h_media_id = uh_media_id u, h_epoch = uh_media_epoch u, h_sequence = uh_sequence u,
     h_timestamp = uh_timestamp u, h_generation = uh_generation u,
     h_length = uh_payload_length u\<rparr>"

text \<open>\<open>None\<close> is \<open>struct.error\<close>: the header itself does not validate its fields.\<close>

definition udp_header_encode :: "udp_packet_header \<Rightarrow> bytes option" where
  "udp_header_encode u = header_pack (udp_struct u)"

text \<open>Every refusal is a \<open>ValueError\<close>, here with its message.\<close>

definition udp_header_decode :: "bytes \<Rightarrow> string + (udp_packet_header \<times> bytes)" where
  "udp_header_decode datagram =
    (if length datagram < UDP_HEADER_BYTES + UDP_TAG_BYTES
       then Inl ''UDP datagram is shorter than header and tag''
     else
       let h = header_unpack datagram; encrypted = drop UDP_HEADER_BYTES datagram
       in if h_magic h \<noteq> UDP_MAGIC \<or> h_version h \<noteq> UDP_VERSION
            then Inl ''unsupported UDP media packet''
          else if h_epoch h = 0 then Inl ''UDP media epoch must be non-zero''
          else if h_length h > int UDP_MAX_PAYLOAD_BYTES then Inl ''UDP payload is too large''
          else if int (length encrypted) \<noteq> h_length h + int UDP_TAG_BYTES
            then Inl ''UDP payload length does not match datagram''
          else Inr (\<lparr>uh_flags = h_flags h, uh_media_id = h_media_id h, uh_media_epoch = h_epoch h,
                     uh_sequence = h_sequence h, uh_timestamp = h_timestamp h,
                     uh_generation = h_generation h, uh_payload_length = h_length h\<rparr>, encrypted))"

section \<open>Replay window\<close>

record replay_window =
  rw_highest :: int
  rw_bitmap :: int

definition replay_init :: replay_window where
  "replay_init = \<lparr>rw_highest = -1, rw_bitmap = 0\<rparr>"

definition can_accept :: "replay_window \<Rightarrow> int \<Rightarrow> bool" where
  "can_accept w n =
    (if rw_highest w < 0 then True
     else if n > rw_highest w then n - rw_highest w \<le> UDP_MAX_SEQUENCE_FORWARD_JUMP
     else
       let distance = rw_highest w - n
       in distance < UDP_REPLAY_WINDOW_PACKETS \<and> rw_bitmap w AND push_bit (nat distance) 1 = 0)"

definition replay_contains :: "replay_window \<Rightarrow> int \<Rightarrow> bool" where
  "replay_contains w n =
    (if rw_highest w < 0 \<or> n > rw_highest w then False
     else
       let distance = rw_highest w - n
       in distance < UDP_REPLAY_WINDOW_PACKETS \<and> rw_bitmap w AND push_bit (nat distance) 1 \<noteq> 0)"

definition exceeds_forward_window :: "replay_window \<Rightarrow> int \<Rightarrow> bool" where
  "exceeds_forward_window w n \<longleftrightarrow>
    rw_highest w \<ge> 0 \<and> n > rw_highest w + UDP_MAX_SEQUENCE_FORWARD_JUMP"

text \<open>\<open>None\<close> is the \<open>ValueError\<close> of a refused sequence.\<close>

definition replay_commit :: "replay_window \<Rightarrow> int \<Rightarrow> replay_window option" where
  "replay_commit w n =
    (if \<not> can_accept w n then None
     else if n > rw_highest w then
       let shift = n - rw_highest w
       in Some \<lparr>rw_highest = n,
                rw_bitmap = (if shift \<ge> UDP_REPLAY_WINDOW_PACKETS then 1
                             else (push_bit (nat shift) (rw_bitmap w) OR 1) AND window_mask)\<rparr>
     else Some (w\<lparr>rw_bitmap := rw_bitmap w OR push_bit (nat (rw_highest w - n)) 1\<rparr>))"

section \<open>Header round trip\<close>

definition udp_header_valid :: "udp_packet_header \<Rightarrow> bool" where
  "udp_header_valid u \<longleftrightarrow> is_byte (uh_flags u) \<and> length (uh_media_id u) = 8 \<and>
     1 \<le> uh_media_epoch u \<and> uh_media_epoch u \<le> uint32_max \<and> is_uint32 (uh_sequence u) \<and>
     is_uint32 (uh_timestamp u) \<and> is_uint32 (uh_generation u) \<and>
     0 \<le> uh_payload_length u \<and> uh_payload_length u \<le> int UDP_MAX_PAYLOAD_BYTES"

lemma udp_struct_wf: "udp_header_valid u \<Longrightarrow> header_wf (udp_struct u)"
  by (auto simp: udp_header_valid_def header_wf_def header_in_range_def udp_struct_def udp_consts
      is_byte_def is_uint32_def uint32_max_def)

lemma udp_header_encode_valid:
  "udp_header_valid u \<Longrightarrow> udp_header_encode u = Some (header_wire (udp_struct u))"
  using udp_struct_wf by (auto simp: udp_header_encode_def header_pack_def header_wf_def)

lemma udp_header_decode_iff:
  "udp_header_decode d = Inr (u, enc) \<longleftrightarrow>
     udp_header_valid u \<and> d = header_wire (udp_struct u) @ enc \<and>
     int (length enc) = uh_payload_length u + 16"
proof
  assume r: "udp_header_valid u \<and> d = header_wire (udp_struct u) @ enc \<and>
     int (length enc) = uh_payload_length u + 16"
  then have "header_unpack d = udp_struct u"
    using header_unpack_wire [OF udp_struct_wf] by blast
  then show "udp_header_decode d = Inr (u, enc)"
    using r by (auto simp: udp_header_decode_def udp_consts udp_struct_def udp_header_valid_def)
next
  assume d: "udp_header_decode d = Inr (u, enc)"
  then have l: "32 \<le> length d"
    by (auto simp: udp_header_decode_def udp_consts split: if_splits)
  have h: "header_unpack d = udp_struct u \<and> enc = drop 32 d \<and> uh_media_epoch u \<noteq> 0 \<and>
      uh_payload_length u \<le> 1200 \<and> int (length enc) = uh_payload_length u + 16"
    using d by (auto simp: udp_header_decode_def Let_def udp_consts udp_struct_def
        split: if_splits intro: media_header.equality)
  then have "header_wf (udp_struct u)" using header_unpack_wf [OF l] by simp
  then have "udp_header_valid u"
    using h by (auto simp: udp_header_valid_def header_wf_def header_in_range_def udp_struct_def
        udp_consts is_uint32_def)
  then show "udp_header_valid u \<and> d = header_wire (udp_struct u) @ enc \<and>
      int (length enc) = uh_payload_length u + 16"
    using h header_unpack_eq_wire [OF l] by metis
qed

section \<open>The replay window meets the contract\<close>

definition replay_tracks :: "replay_window \<Rightarrow> int set \<Rightarrow> bool" where
  "replay_tracks w H \<longleftrightarrow>
    (if H = {} then w = replay_init else window_tracks (rw_highest w) (rw_bitmap w) H)"

lemma replay_tracks_nonneg: "replay_tracks w H \<Longrightarrow> rw_highest w < 0 \<longleftrightarrow> H = {}"
  by (auto simp: replay_tracks_def window_tracks_def replay_init_def split: if_splits)

lemma can_accept_tracks:
  assumes "replay_tracks w H" "H \<noteq> {}" "0 \<le> n"
  shows "can_accept w n \<longleftrightarrow> n \<notin> H \<and> Max H - 64 < n \<and> n \<le> Max H + 1024"
proof -
  have t: "window_tracks (rw_highest w) (rw_bitmap w) H" and p: "\<not> rw_highest w < 0"
    using assms replay_tracks_nonneg [OF assms(1)] by (auto simp: replay_tracks_def)
  note m = window_tracks_Max [OF t]
  show ?thesis
  proof (cases "n > rw_highest w")
    case True
    then have "n \<notin> H" using t by (auto simp: window_tracks_def)
    with True p m show ?thesis by (auto simp: can_accept_def udp_consts)
  next
    case False
    then show ?thesis
      using p m window_tracks_bit [OF t, of n]
      by (auto simp: can_accept_def udp_consts and_exp_eq_0 Let_def)
  qed
qed

lemma replay_commit_tracks:
  assumes "replay_tracks w H" "0 \<le> n" "replay_commit w n = Some w'"
  shows "replay_tracks w' (insert n H)"
proof (cases "H = {}")
  case True
  then have "w = replay_init" using assms(1) by (simp add: replay_tracks_def)
  then have "rw_highest w' = n \<and> (\<forall>d < 64. bit (rw_bitmap w') d \<longleftrightarrow> d = 0)"
    using assms(2,3)
    by (auto simp: replay_commit_def replay_init_def bit_and_iff bit_window_mask bit_1_iff can_accept_def
        Let_def split: if_splits)
  then show ?thesis
    using True assms(2) window_tracks_single by (simp add: replay_tracks_def)
next
  case False
  then have t: "window_tracks (rw_highest w) (rw_bitmap w) H"
    using assms(1) by (simp add: replay_tracks_def)
  show ?thesis
  proof (cases "n > rw_highest w")
    case True
    then have "rw_highest w' = n" and "\<forall>d < 64. bit (rw_bitmap w') d \<longleftrightarrow> d = 0 \<or>
        (nat (n - rw_highest w) \<le> d \<and> bit (rw_bitmap w) (d - nat (n - rw_highest w)))"
      using assms(3)
      by (auto simp: replay_commit_def bit_shifted_window bit_1_iff udp_consts Let_def split: if_splits)
    then show ?thesis
      using window_tracks_forward [OF t True] by (simp add: replay_tracks_def)
  next
    case older: False
    then have "w' = w\<lparr>rw_bitmap := rw_bitmap w OR push_bit (nat (rw_highest w - n)) 1\<rparr>"
      using assms(3) by (auto simp: replay_commit_def split: if_splits)
    then show ?thesis
      using window_tracks_backward [OF t assms(2)] older by (simp add: replay_tracks_def)
  qed
qed

interpretation worker_replay: replay_guard replay_init can_accept replay_commit replay_tracks
proof unfold_locales
  show "replay_tracks replay_init {}" by (simp add: replay_tracks_def)
  show "replay_commit w n \<noteq> None \<longleftrightarrow> can_accept w n" for w n
    by (simp add: replay_commit_def Let_def)
  show "replay_tracks w H \<Longrightarrow> is_uint32 n \<Longrightarrow> replay_commit w n = Some w' \<Longrightarrow>
      replay_tracks w' (insert n H)" for w H n w'
    by (simp add: replay_commit_tracks is_uint32_def)
  show "replay_tracks w {} \<Longrightarrow> is_uint32 n \<Longrightarrow> can_accept w n" for w n
    by (simp add: replay_tracks_def can_accept_def replay_init_def)
  show "replay_tracks w H \<Longrightarrow> H \<noteq> {} \<Longrightarrow> is_uint32 n \<Longrightarrow>
      can_accept w n \<longleftrightarrow> n \<notin> H \<and> Max H - 64 < n \<and> n \<le> Max H + 1024" for w H n
    by (simp add: can_accept_tracks is_uint32_def)
qed

end
