(* ===== verification/Udp_Gateway.thy ===== *)
theory Udp_Gateway
  imports Udp_Wire Json_Values
begin

text \<open>
  The authenticated UDP media gateway of the worker, \<open>transport/udp_gateway.py\<close>: the media session with its
  bounded queue, replay window, probe handshake, source pinning, reorder buffer and downlink sealing, and the
  process-wide gateway that routes datagrams to sessions. AES-GCM is a parameter. The audio callback is a
  parameter too, given by whether it raises after a history of calls; a call that returns does so without
  suspending (the audio port's queue has room), so the parts of a handler around it run without interleaving,
  except in the last section, which looks at what happens when it does suspend.
\<close>

section \<open>Grants and counters\<close>

type_synonym address = "string \<times> int"

record udp_grant =
  ug_media_id :: bytes
  ug_media_epoch :: int
  ug_uplink_key :: bytes
  ug_uplink_salt :: bytes
  ug_downlink_key :: bytes
  ug_downlink_salt :: bytes
  ug_host :: string
  ug_port :: int
  ug_expires_at :: int
  ug_probe_timeout_ms :: int

definition as_control_payload :: "(bytes \<Rightarrow> string) \<Rightarrow> udp_grant \<Rightarrow> json_dict" where
  "as_control_payload b64encode g =
    [(''server'', JStr (ug_host g)), (''port'', JInt (ug_port g)), (''media_id'', JStr (hex_of (ug_media_id g))),
     (''media_epoch'', JInt (ug_media_epoch g)), (''uplink_key'', JStr (b64encode (ug_uplink_key g))),
     (''uplink_salt'', JStr (b64encode (ug_uplink_salt g))), (''downlink_key'', JStr (b64encode (ug_downlink_key g))),
     (''downlink_salt'', JStr (b64encode (ug_downlink_salt g))), (''expires_at'', JInt (ug_expires_at g)),
     (''probe_timeout_ms'', JInt (ug_probe_timeout_ms g)), (''header_bytes'', JInt (int UDP_HEADER_BYTES)),
     (''tag_bytes'', JInt (int UDP_TAG_BYTES)), (''max_datagram_bytes'', JInt (int UDP_MAX_DATAGRAM_BYTES)),
     (''max_payload_bytes'', JInt (int UDP_MAX_PAYLOAD_BYTES))]"

record udp_stats =
  st_received :: int
  st_media_identity_matched :: int
  st_authentication_attempted :: int
  st_authenticated :: int
  st_source_pinned :: int
  st_probe_ack_sent :: int
  st_invalid :: int
  st_replayed :: int
  st_wrong_source :: int
  st_queue_dropped :: int
  st_sent :: int
  st_lost :: int
  st_reordered :: int
  st_resync_total :: int
  st_skipped_sequences_total :: int

definition udp_stats_zero :: udp_stats where
  "udp_stats_zero = \<lparr>st_received = 0, st_media_identity_matched = 0, st_authentication_attempted = 0,
     st_authenticated = 0, st_source_pinned = 0, st_probe_ack_sent = 0, st_invalid = 0, st_replayed = 0,
     st_wrong_source = 0, st_queue_dropped = 0, st_sent = 0, st_lost = 0, st_reordered = 0, st_resync_total = 0,
     st_skipped_sequences_total = 0\<rparr>"

text \<open>AES-GCM as the code calls it: key, nonce, data, associated data; \<open>None\<close> is \<open>InvalidTag\<close>.\<close>

record aead =
  aead_encrypt :: "bytes \<Rightarrow> bytes \<Rightarrow> bytes \<Rightarrow> bytes \<Rightarrow> bytes"
  aead_decrypt :: "bytes \<Rightarrow> bytes \<Rightarrow> bytes \<Rightarrow> bytes \<Rightarrow> bytes option"

datatype udp_exn =
    UdpMediaError string
  | UdpGrantExpiredError
  | UdpStructError
  | UdpValueError
  | ReceiverRaised string

section \<open>The media session\<close>

text \<open>
  The reorder timer is absent, armed (its task sleeps), or a reference to a task that is cancelled or done.
  \<open>us_offered\<close> is the history of the calls of the audio callback, each with the sequence number of its packet
  for the statements below; \<open>us_sent\<close> that of the datagrams given to the socket, \<open>us_reported\<close> that of the
  failures reported to the owner. \<open>us_worker\<close> tells whether the worker task still runs.
\<close>

datatype reorder_timer = NoTimer | TimerArmed | TimerDone

type_synonym buffered = "int \<times> bytes \<times> int \<times> int"
type_synonym offered = "int \<times> bytes \<times> int \<times> int"

record udp_session =
  us_grant :: udp_grant
  us_queue :: "(bytes \<times> address) option list"
  us_queue_size :: nat
  us_ready :: bool
  us_closed :: bool
  us_expired :: bool
  us_source :: "address option"
  us_replay :: replay_window
  us_downlink_sequence :: int
  us_next_audio_sequence :: "int option"
  us_probe_ack_datagram :: "bytes option"
  us_probe_reack_deadline :: real
  us_probe_reack_next_at :: real
  us_probe_reack_remaining :: int
  us_probe_reack_open :: bool
  us_reorder :: "(int, buffered) dict"
  us_reorder_timer :: reorder_timer
  us_stats :: udp_stats
  us_worker :: bool
  us_offered :: "offered list"
  us_sent :: "(bytes \<times> address) list"
  us_reported :: "udp_exn list"

definition udp_session_init :: "udp_grant \<Rightarrow> nat \<Rightarrow> udp_session" where
  "udp_session_init grant queue_size = \<lparr>us_grant = grant, us_queue = [], us_queue_size = queue_size, us_ready = False,
     us_closed = False, us_expired = False, us_source = None, us_replay = replay_init, us_downlink_sequence = 0,
     us_next_audio_sequence = None, us_probe_ack_datagram = None, us_probe_reack_deadline = 0,
     us_probe_reack_next_at = 0, us_probe_reack_remaining = 0, us_probe_reack_open = False, us_reorder = [],
     us_reorder_timer = NoTimer, us_stats = udp_stats_zero, us_worker = True, us_offered = [], us_sent = [],
     us_reported = []\<rparr>"

abbreviation note_invalid :: "udp_session \<Rightarrow> udp_session" where
  "note_invalid s \<equiv> us_stats_update (st_invalid_update ((+) 1)) s"

abbreviation note_replayed :: "udp_session \<Rightarrow> udp_session" where
  "note_replayed s \<equiv> us_stats_update (st_replayed_update ((+) 1)) s"

abbreviation note_queue_dropped :: "udp_session \<Rightarrow> udp_session" where
  "note_queue_dropped s \<equiv> us_stats_update (st_queue_dropped_update ((+) 1)) s"

text \<open>
  What a handler reads from outside: the wall clock at its start and when it sends, the monotonic clock at its
  start and after the acknowledgement, and whether the gateway has a transport.
\<close>

record udp_ctx =
  cx_time :: real
  cx_send_time :: real
  cx_monotonic :: real
  cx_acknowledged_at :: real
  cx_transport :: bool

definition queue_full :: "udp_session \<Rightarrow> bool" where
  "queue_full s \<longleftrightarrow> 0 < us_queue_size s \<and> us_queue_size s \<le> length (us_queue s)"

definition udp_enqueue :: "bytes \<Rightarrow> address \<Rightarrow> udp_session \<Rightarrow> udp_session" where
  "udp_enqueue data addr s =
    (if us_closed s then s
     else
       let s1 = us_stats_update (\<lambda>t. st_media_identity_matched_update ((+) 1) (st_received_update ((+) 1) t)) s
       in if \<not> queue_full s1 then s1\<lparr>us_queue := us_queue s1 @ [Some (data, addr)]\<rparr>
          else
            let s2 = note_queue_dropped s1;
                dropped = hd (us_queue s2);
                s3 = s2\<lparr>us_queue := tl (us_queue s2)\<rparr>
            in if dropped = None then s3\<lparr>us_queue := us_queue s3 @ [None]\<rparr>
               else s3\<lparr>us_queue := us_queue s3 @ [Some (data, addr)]\<rparr>)"

text \<open>\<open>_send\<close>: the sequence number is spent before the header is packed and the payload sealed.\<close>

definition udp_send ::
    "aead \<Rightarrow> udp_ctx \<Rightarrow> int \<Rightarrow> bytes \<Rightarrow> int \<Rightarrow> int \<Rightarrow> udp_session \<Rightarrow> (udp_exn, int, udp_session) op_result" where
  "udp_send A cx flags payload timestamp generation s =
    (if us_expired s \<or> cx_send_time cx \<ge> of_int (ug_expires_at (us_grant s)) then (Inl UdpGrantExpiredError, s)
     else if length payload > UDP_MAX_PAYLOAD_BYTES then (Inl (UdpMediaError ''UDP payload exceeds profile limit''), s)
     else case us_source s of
       None \<Rightarrow> (Inl (UdpMediaError ''UDP transport is unavailable''), s)
     | Some source \<Rightarrow>
       if \<not> cx_transport cx then (Inl (UdpMediaError ''UDP transport is unavailable''), s)
       else
         let sequence = us_downlink_sequence s
         in if sequence \<ge> 0xFFFFFFFF then (Inl (UdpMediaError ''UDP sequence exhausted''), s)
            else
              let s1 = s\<lparr>us_downlink_sequence := sequence + 1\<rparr>;
                  header = \<lparr>uh_flags = flags, uh_media_id = ug_media_id (us_grant s),
                    uh_media_epoch = ug_media_epoch (us_grant s), uh_sequence = sequence,
                    uh_timestamp = mask32 timestamp, uh_generation = generation,
                    uh_payload_length = int (length payload)\<rparr>
              in case udp_header_encode header of
                   None \<Rightarrow> (Inl UdpStructError, s1)
                 | Some aad \<Rightarrow>
                     let datagram = aad @ aead_encrypt A (ug_downlink_key (us_grant s))
                           (ug_downlink_salt (us_grant s) @ be32 sequence) payload aad
                     in if length datagram > UDP_MAX_DATAGRAM_BYTES
                          then (Inl (UdpMediaError ''UDP datagram exceeds conservative MTU''), s1)
                        else
                          let s2 = s1\<lparr>us_sent := us_sent s1 @ [(datagram, source)]\<rparr>;
                              s3 = (if flags = UDP_FLAG_PROBE_ACK \<and> us_probe_ack_datagram s2 = None
                                    then s2\<lparr>us_probe_ack_datagram := Some datagram\<rparr> else s2);
                              s4 = (if flags = UDP_FLAG_PROBE_ACK
                                    then us_stats_update (st_probe_ack_sent_update ((+) 1)) s3 else s3)
                          in (Inr sequence, us_stats_update (st_sent_update ((+) 1)) s4))"

definition udp_send_audio ::
    "aead \<Rightarrow> udp_ctx \<Rightarrow> bytes \<Rightarrow> int \<Rightarrow> int \<Rightarrow> udp_session \<Rightarrow> (udp_exn, int, udp_session) op_result" where
  "udp_send_audio A cx payload timestamp generation s =
    (if us_expired s \<or> cx_time cx \<ge> of_int (ug_expires_at (us_grant s)) then (Inl UdpGrantExpiredError, s)
     else if us_closed s \<or> us_source s = None \<or> \<not> us_ready s
       then (Inl (UdpMediaError ''UDP media path is not ready''), s)
     else udp_send A cx UDP_FLAG_AUDIO payload timestamp generation s)"

section \<open>The reorder buffer\<close>

type_synonym receiver = "offered list \<Rightarrow> udp_exn option"

text \<open>A call of the audio callback for a packet that carries audio; a keepalive or probe only takes its place.\<close>

definition hand_over ::
    "receiver \<Rightarrow> int \<Rightarrow> buffered \<Rightarrow> udp_session \<Rightarrow> (udp_exn, unit, udp_session) op_result" where
  "hand_over rx sequence item s = (case item of (flags, payload, timestamp, generation) \<Rightarrow>
     if flags = UDP_FLAG_AUDIO then
       let s1 = s\<lparr>us_offered := us_offered s @ [(sequence, payload, timestamp, generation)]\<rparr>
       in case rx (us_offered s1) of None \<Rightarrow> (Inr (), s1) | Some e \<Rightarrow> (Inl e, s1)
     else (Inr (), s))"

text \<open>One round of the loop of \<open>_drain_reorder\<close>: up to the return of the callback, and the rest.\<close>

definition drain_take ::
    "receiver \<Rightarrow> int \<Rightarrow> udp_session \<Rightarrow> (udp_exn, unit, udp_session) op_result option" where
  "drain_take rx expected s = (case dict_get (us_reorder s) expected of
      None \<Rightarrow> None
    | Some item \<Rightarrow> Some (hand_over rx expected item (s\<lparr>us_reorder := dict_pop expected (us_reorder s)\<rparr>)))"

definition drain_resume :: "int \<Rightarrow> udp_session \<Rightarrow> udp_session" where
  "drain_resume expected s = s\<lparr>us_next_audio_sequence := Some (expected + 1)\<rparr>"

lemma length_dict_pop_less: "dict_get d k = Some v \<Longrightarrow> length (dict_pop k d) < length d"
  by (induction d) (auto simp: AList.delete_eq less_Suc_eq_le)

lemma hand_over_reorder: "hand_over rx n item s = (r, s') \<Longrightarrow> us_reorder s' = us_reorder s"
  by (auto simp: hand_over_def Let_def split: prod.splits option.splits if_splits)

lemma drain_take_less: "drain_take rx e s = Some (r, s') \<Longrightarrow> length (us_reorder s') < length (us_reorder s)"
  by (auto simp: drain_take_def dest!: hand_over_reorder intro: length_dict_pop_less split: option.splits)

function drain_loop :: "receiver \<Rightarrow> int \<Rightarrow> udp_session \<Rightarrow> (udp_exn, unit, udp_session) op_result" where
  "drain_loop rx expected s = (case drain_take rx expected s of
      None \<Rightarrow> (Inr (), s)
    | Some (Inl e, s1) \<Rightarrow> (Inl e, s1)
    | Some (Inr _, s1) \<Rightarrow> drain_loop rx (expected + 1) (drain_resume expected s1))"
  by pat_completeness auto
termination
  by (relation "measure (\<lambda>(rx, e, s). length (us_reorder s))")
    (auto simp: drain_resume_def dest: drain_take_less)

declare drain_loop.simps [simp del]

definition settle_timer :: "udp_session \<Rightarrow> udp_session" where
  "settle_timer s =
    (if us_reorder s = [] \<and> us_reorder_timer s \<noteq> NoTimer then s\<lparr>us_reorder_timer := NoTimer\<rparr>
     else if us_reorder s \<noteq> [] \<and> us_reorder_timer s = NoTimer then s\<lparr>us_reorder_timer := TimerArmed\<rparr>
     else s)"

definition drain_reorder :: "receiver \<Rightarrow> udp_session \<Rightarrow> (udp_exn, unit, udp_session) op_result" where
  "drain_reorder rx s =
    bind_op (case us_next_audio_sequence s of None \<Rightarrow> (Inr (), s) | Some expected \<Rightarrow> drain_loop rx expected s)
      (\<lambda>_ s. (Inr (), settle_timer s))"

definition resync_media_cursor :: "int \<Rightarrow> udp_session \<Rightarrow> udp_session" where
  "resync_media_cursor sequence s = (case us_next_audio_sequence s of
      None \<Rightarrow> s
    | Some expected \<Rightarrow>
        if sequence \<le> expected then s
        else
          let skipped = sequence - expected
          in s\<lparr>us_stats := (us_stats s)\<lparr>
                  st_resync_total := st_resync_total (us_stats s) + 1,
                  st_skipped_sequences_total := st_skipped_sequences_total (us_stats s) + skipped,
                  st_lost := st_lost (us_stats s) + skipped,
                  st_queue_dropped := st_queue_dropped (us_stats s) + int (length (us_reorder s))\<rparr>,
               us_reorder := [], us_reorder_timer := NoTimer, us_next_audio_sequence := Some sequence\<rparr>)"

definition buffer_media ::
    "receiver \<Rightarrow> udp_packet_header \<Rightarrow> bytes \<Rightarrow> udp_session \<Rightarrow> (udp_exn, unit, udp_session) op_result" where
  "buffer_media rx h payload s = (case us_next_audio_sequence s of
      None \<Rightarrow> (Inr (), note_invalid s)
    | Some expected0 \<Rightarrow>
        if uh_sequence h < expected0 then (Inr (), note_replayed s)
        else
          let (expected, s1) = (if uh_sequence h \<ge> expected0 + UDP_JITTER_WINDOW_PACKETS
                 then (uh_sequence h, resync_media_cursor (uh_sequence h) s) else (expected0, s));
              item = (uh_flags h, payload, uh_timestamp h, uh_generation h)
          in if int (length (us_reorder s1)) \<ge> UDP_JITTER_WINDOW_PACKETS then
               (if uh_sequence h \<noteq> expected then (Inr (), note_queue_dropped s1)
                else bind_op (hand_over rx (uh_sequence h) item s1)
                  (\<lambda>_ s2. drain_reorder rx (s2\<lparr>us_next_audio_sequence := Some (expected + 1)\<rparr>)))
             else
               let s2 = (if uh_sequence h \<noteq> expected then us_stats_update (st_reordered_update ((+) 1)) s1 else s1)
               in drain_reorder rx (s2\<lparr>us_reorder := dict_set (uh_sequence h) item (us_reorder s2)\<rparr>))"

text \<open>The part of \<open>_expire_reorder_gap\<close> before it drains: the gap before the first buffered packet is given up.\<close>

definition skip_gap :: "udp_session \<Rightarrow> udp_session" where
  "skip_gap s =
    (let first = Min (set (dict_keys (us_reorder s)));
         s1 = (case us_next_audio_sequence s of
                 None \<Rightarrow> s
               | Some expected \<Rightarrow>
                   if first > expected
                   then s\<lparr>us_stats := (us_stats s)\<lparr>st_lost := st_lost (us_stats s) + (first - expected)\<rparr>,
                          us_next_audio_sequence := Some first\<rparr>
                   else s)
     in s1\<lparr>us_reorder_timer := NoTimer\<rparr>)"

definition expire_reorder_gap :: "receiver \<Rightarrow> udp_session \<Rightarrow> udp_session" where
  "expire_reorder_gap rx s =
    (if us_closed s \<or> us_reorder s = [] then s\<lparr>us_reorder_timer := TimerDone\<rparr>
     else case drain_reorder rx (skip_gap s) of
         (Inr _, s1) \<Rightarrow> s1
       | (Inl e, s1) \<Rightarrow> s1\<lparr>us_reported := us_reported s1 @ [e]\<rparr>)"

section \<open>Datagrams\<close>

definition PROBE_RETRY_INTERVAL_SECONDS :: real where "PROBE_RETRY_INTERVAL_SECONDS = 1 / 4"
definition PROBE_RETRY_INTERVAL_MS :: int where "PROBE_RETRY_INTERVAL_MS = 250"

definition repeated_initial_probe :: "udp_ctx \<Rightarrow> udp_packet_header \<Rightarrow> address \<Rightarrow> udp_session \<Rightarrow> bool" where
  "repeated_initial_probe cx h addr s \<longleftrightarrow>
    \<not> can_accept (us_replay s) (uh_sequence h) \<and> replay_contains (us_replay s) (uh_sequence h) \<and>
    uh_flags h = UDP_FLAG_PROBE \<and> uh_sequence h = 0 \<and> uh_timestamp h = 0 \<and> uh_generation h = 0 \<and>
    uh_payload_length h = 0 \<and> us_ready s \<and> us_source s = Some addr \<and> us_probe_reack_open s \<and>
    us_probe_ack_datagram s \<noteq> None \<and> cx_monotonic cx \<le> us_probe_reack_deadline s \<and>
    cx_monotonic cx \<ge> us_probe_reack_next_at s \<and> us_probe_reack_remaining s > 0"

definition handle_repeated_probe :: "udp_ctx \<Rightarrow> bytes \<Rightarrow> udp_session \<Rightarrow> udp_session" where
  "handle_repeated_probe cx payload s =
    (if payload \<noteq> [] then note_invalid s
     else case (us_source s, us_probe_ack_datagram s) of
         (Some source, Some datagram) \<Rightarrow>
           if \<not> cx_transport cx then note_replayed s
           else (note_replayed s)\<lparr>us_sent := us_sent s @ [(datagram, source)],
                  us_stats := (us_stats (note_replayed s))\<lparr>st_sent := st_sent (us_stats s) + 1,
                    st_probe_ack_sent := st_probe_ack_sent (us_stats s) + 1\<rparr>,
                  us_probe_reack_remaining := us_probe_reack_remaining s - 1,
                  us_probe_reack_next_at := cx_monotonic cx + PROBE_RETRY_INTERVAL_SECONDS\<rparr>
       | _ \<Rightarrow> note_replayed s)"

text \<open>\<open>_replay.commit\<close> inside a handler: its \<open>ValueError\<close> would leave the handler.\<close>

definition commit_sequence :: "int \<Rightarrow> udp_session \<Rightarrow> (udp_exn, unit, udp_session) op_result" where
  "commit_sequence n s = (case replay_commit (us_replay s) n of
      None \<Rightarrow> (Inl UdpValueError, s)
    | Some w \<Rightarrow> (Inr (), s\<lparr>us_replay := w\<rparr>))"

definition handle_probe ::
    "aead \<Rightarrow> receiver \<Rightarrow> udp_ctx \<Rightarrow> udp_packet_header \<Rightarrow> bytes \<Rightarrow> address \<Rightarrow> udp_session \<Rightarrow>
      (udp_exn, unit, udp_session) op_result" where
  "handle_probe A rx cx h payload addr s =
    (if payload \<noteq> [] then (Inr (), note_invalid s)
     else if us_source s = None \<and> uh_sequence h \<noteq> 0 then (Inr (), note_invalid s)
     else
       let expected = us_next_audio_sequence s
       in if (case expected of None \<Rightarrow> False | Some e \<Rightarrow> uh_sequence h < e) then (Inr (), note_replayed s)
          else if (case expected of None \<Rightarrow> False | Some e \<Rightarrow>
              uh_sequence h \<ge> e + UDP_JITTER_WINDOW_PACKETS \<or>
              (uh_sequence h \<noteq> e \<and> int (length (us_reorder s)) \<ge> UDP_JITTER_WINDOW_PACKETS))
            then (Inr (), note_queue_dropped s)
          else
            bind_op (commit_sequence (uh_sequence h) s) (\<lambda>_ s1.
            let s2 = (if us_source s1 = None
                      then us_stats_update (st_source_pinned_update ((+) 1)) (s1\<lparr>us_source := Some addr\<rparr>) else s1)
            in bind_op (udp_send A cx UDP_FLAG_PROBE_ACK [] 0 0 s2) (\<lambda>_ s3.
               let s4 = (if expected = None then s3\<lparr>us_next_audio_sequence := Some (uh_sequence h)\<rparr> else s3)
               in bind_op (buffer_media rx h [] s4) (\<lambda>_ s5.
                  (Inr (), s5\<lparr>
                    us_probe_reack_deadline := cx_acknowledged_at cx + of_int (ug_probe_timeout_ms (us_grant s5)) / 1000,
                    us_probe_reack_next_at := cx_acknowledged_at cx + PROBE_RETRY_INTERVAL_SECONDS,
                    us_probe_reack_remaining :=
                      max 1 ((ug_probe_timeout_ms (us_grant s5) + PROBE_RETRY_INTERVAL_MS - 1) div PROBE_RETRY_INTERVAL_MS),
                    us_probe_reack_open := True, us_ready := True\<rparr>)))))"

definition handle_media ::
    "aead \<Rightarrow> receiver \<Rightarrow> udp_ctx \<Rightarrow> udp_packet_header \<Rightarrow> bytes \<Rightarrow> udp_session \<Rightarrow>
      (udp_exn, unit, udp_session) op_result" where
  "handle_media A rx cx h payload s =
    (if us_source s = None \<or> \<not> us_ready s then (Inr (), note_invalid s)
     else if uh_flags h = UDP_FLAG_KEEPALIVE \<and> payload \<noteq> [] then (Inr (), note_invalid s)
     else if uh_flags h = UDP_FLAG_AUDIO \<and> payload = [] then (Inr (), note_invalid s)
     else case us_next_audio_sequence s of
         None \<Rightarrow> (Inr (), note_invalid s)
       | Some expected \<Rightarrow>
           if uh_sequence h < expected then (Inr (), note_replayed s)
           else if uh_sequence h < expected + UDP_JITTER_WINDOW_PACKETS \<and> uh_sequence h \<noteq> expected \<and>
               int (length (us_reorder s)) \<ge> UDP_JITTER_WINDOW_PACKETS
             then (Inr (), note_queue_dropped s)
           else
             let s1 = (if uh_sequence h \<ge> expected + UDP_JITTER_WINDOW_PACKETS
                       then resync_media_cursor (uh_sequence h) s else s)
             in bind_op (commit_sequence (uh_sequence h) (s1\<lparr>us_probe_reack_open := False\<rparr>)) (\<lambda>_ s2.
                bind_op (buffer_media rx h payload s2) (\<lambda>_ s3.
                  if uh_flags h = UDP_FLAG_KEEPALIVE
                  then bind_op (udp_send A cx UDP_FLAG_KEEPALIVE [] (uh_timestamp h) (uh_generation h) s3)
                         (\<lambda>_ s4. (Inr (), s4))
                  else (Inr (), s3))))"

definition udp_handle ::
    "aead \<Rightarrow> receiver \<Rightarrow> udp_ctx \<Rightarrow> bytes \<Rightarrow> address \<Rightarrow> udp_session \<Rightarrow> (udp_exn, unit, udp_session) op_result" where
  "udp_handle A rx cx data addr s =
    (if length data > UDP_MAX_DATAGRAM_BYTES \<or> us_expired s \<or> cx_time cx \<ge> of_int (ug_expires_at (us_grant s))
       then (Inr (), note_invalid s)
     else case udp_header_decode data of
         Inl _ \<Rightarrow> (Inr (), note_invalid s)
       | Inr (h, encrypted) \<Rightarrow>
           if uh_media_id h \<noteq> ug_media_id (us_grant s) \<or> uh_media_epoch h \<noteq> ug_media_epoch (us_grant s)
             then (Inr (), note_invalid s)
           else if uh_flags h \<notin> {UDP_FLAG_AUDIO, UDP_FLAG_PROBE, UDP_FLAG_KEEPALIVE} then (Inr (), note_invalid s)
           else if \<not> can_accept (us_replay s) (uh_sequence h) \<and> \<not> repeated_initial_probe cx h addr s
             then (Inr (), if exceeds_forward_window (us_replay s) (uh_sequence h) then note_invalid s else note_replayed s)
           else
             let s1 = us_stats_update (st_authentication_attempted_update ((+) 1)) s
             in case aead_decrypt A (ug_uplink_key (us_grant s)) (ug_uplink_salt (us_grant s) @ be32 (uh_sequence h))
                       encrypted (take UDP_HEADER_BYTES data) of
                  None \<Rightarrow> (Inr (), note_invalid s1)
                | Some payload \<Rightarrow>
                    let s2 = us_stats_update (st_authenticated_update ((+) 1)) s1
                    in if repeated_initial_probe cx h addr s then (Inr (), handle_repeated_probe cx payload s2)
                       else if us_source s2 \<noteq> None \<and> us_source s2 \<noteq> Some addr
                         then (Inr (), us_stats_update (st_wrong_source_update ((+) 1)) s2)
                       else if uh_flags h = UDP_FLAG_PROBE then handle_probe A rx cx h payload addr s2
                       else handle_media A rx cx h payload s2)"

section \<open>The tasks of a session\<close>

text \<open>One round of \<open>_run\<close>: \<open>None\<close> in the queue ends the worker, an exception is reported and ends it.\<close>

definition udp_run_step :: "aead \<Rightarrow> receiver \<Rightarrow> udp_ctx \<Rightarrow> udp_session \<Rightarrow> udp_session" where
  "udp_run_step A rx cx s =
    (if \<not> us_worker s then s
     else case us_queue s of
         [] \<Rightarrow> s
       | None # q \<Rightarrow> s\<lparr>us_queue := q, us_worker := False\<rparr>
       | Some (data, addr) # q \<Rightarrow>
           (case udp_handle A rx cx data addr (s\<lparr>us_queue := q\<rparr>) of
              (Inr _, s1) \<Rightarrow> s1
            | (Inl e, s1) \<Rightarrow> s1\<lparr>us_reported := us_reported s1 @ [e], us_worker := False\<rparr>))"

definition cancel_timer :: "udp_session \<Rightarrow> udp_session" where
  "cancel_timer s = (if us_reorder_timer s = NoTimer then s else s\<lparr>us_reorder_timer := TimerDone\<rparr>)"

text \<open>\<open>close\<close> and \<open>_expire\<close> without the removal from the gateway, which is a step of the gateway below.\<close>

definition udp_session_close :: "udp_session \<Rightarrow> udp_session" where
  "udp_session_close s =
    (if us_closed s then s
     else
       let s1 = s\<lparr>us_closed := True\<rparr>;
           s2 = (if queue_full s1 then s1 else s1\<lparr>us_queue := us_queue s1 @ [None]\<rparr>)
       in cancel_timer (s2\<lparr>us_worker := False\<rparr>))"

definition udp_session_expire :: "udp_session \<Rightarrow> udp_session" where
  "udp_session_expire s =
    (if us_closed s then s
     else
       let s1 = cancel_timer (s\<lparr>us_expired := True, us_worker := False\<rparr>)
       in s1\<lparr>us_reported := us_reported s1 @ [UdpGrantExpiredError]\<rparr>)"

section \<open>The audio side: order and bounds\<close>

text \<open>
  Relative to the set \<open>H\<close> of sequence numbers the replay window has admitted: what was offered to the callback is
  strictly increasing, what waits in the reorder buffer lies in the jitter window from the next expected number on,
  nothing is both offered and waiting, and \<open>P\<close> holds of every packet offered or waiting.
\<close>

definition waiting_seqs :: "udp_session \<Rightarrow> int set" where
  "waiting_seqs s = set (dict_keys (us_reorder s))"

definition offered_seqs :: "udp_session \<Rightarrow> int set" where
  "offered_seqs s = set (map fst (us_offered s))"

definition waiting_in :: "int \<Rightarrow> udp_session \<Rightarrow> bool" where
  "waiting_in e s \<longleftrightarrow> waiting_seqs s \<subseteq> {e ..< e + UDP_JITTER_WINDOW_PACKETS} \<and> (\<forall>d \<in> offered_seqs s. d \<le> e)"

definition audio_inv :: "(int \<Rightarrow> buffered \<Rightarrow> bool) \<Rightarrow> int set \<Rightarrow> udp_session \<Rightarrow> bool" where
  "audio_inv P H s \<longleftrightarrow>
    replay_tracks (us_replay s) H \<and> dict_wf (us_reorder s) \<and> sorted_wrt (<) (map fst (us_offered s)) \<and>
    offered_seqs s \<subseteq> H \<and> waiting_seqs s \<subseteq> H \<and> waiting_seqs s \<inter> offered_seqs s = {} \<and>
    list_all (\<lambda>x. P (fst x) (snd x)) (us_reorder s) \<and>
    list_all (\<lambda>x. P (fst x) (UDP_FLAG_AUDIO, snd x)) (us_offered s) \<and>
    (case us_next_audio_sequence s of
       None \<Rightarrow> us_reorder s = [] \<and> us_offered s = []
     | Some e \<Rightarrow> waiting_in e s)"

lemma audio_invD:
  assumes "audio_inv P H s"
  shows "replay_tracks (us_replay s) H" "dict_wf (us_reorder s)" "sorted_wrt (<) (map fst (us_offered s))"
    "offered_seqs s \<subseteq> H" "waiting_seqs s \<subseteq> H" "waiting_seqs s \<inter> offered_seqs s = {}"
    "list_all (\<lambda>x. P (fst x) (snd x)) (us_reorder s)" "list_all (\<lambda>x. P (fst x) (UDP_FLAG_AUDIO, snd x)) (us_offered s)"
    "us_next_audio_sequence s = Some e \<Longrightarrow> waiting_in e s"
  using assms by (simp_all add: audio_inv_def)

definition settled :: "udp_session \<Rightarrow> bool" where
  "settled s \<longleftrightarrow> (\<forall>e. us_next_audio_sequence s = Some e \<longrightarrow> e \<notin> waiting_seqs s)"

text \<open>The fields the audio side consists of, and those it never touches.\<close>

definition audio_view where
  "audio_view s = (us_replay s, us_reorder s, us_offered s, us_next_audio_sequence s)"

definition wire_view where
  "wire_view s = (us_grant s, us_source s, us_replay s, us_downlink_sequence s, us_probe_ack_datagram s, us_sent s)"

lemma audio_inv_view: "audio_view s' = audio_view s \<Longrightarrow> audio_inv P H s' \<longleftrightarrow> audio_inv P H s"
  by (simp add: audio_view_def audio_inv_def waiting_in_def waiting_seqs_def offered_seqs_def cong: option.case_cong)

lemma settled_view: "audio_view s' = audio_view s \<Longrightarrow> settled s' \<longleftrightarrow> settled s"
  by (simp add: audio_view_def settled_def waiting_seqs_def)

lemma audio_view_simps [simp]:
  "audio_view (us_stats_update f s) = audio_view s"
  "audio_view (s\<lparr>us_queue := q\<rparr>) = audio_view s"
  "audio_view (s\<lparr>us_ready := b\<rparr>) = audio_view s"
  "audio_view (s\<lparr>us_closed := b\<rparr>) = audio_view s"
  "audio_view (s\<lparr>us_expired := b\<rparr>) = audio_view s"
  "audio_view (s\<lparr>us_source := a\<rparr>) = audio_view s"
  "audio_view (s\<lparr>us_downlink_sequence := n\<rparr>) = audio_view s"
  "audio_view (s\<lparr>us_probe_ack_datagram := d\<rparr>) = audio_view s"
  "audio_view (s\<lparr>us_probe_reack_deadline := x\<rparr>) = audio_view s"
  "audio_view (s\<lparr>us_probe_reack_next_at := x\<rparr>) = audio_view s"
  "audio_view (s\<lparr>us_probe_reack_remaining := n\<rparr>) = audio_view s"
  "audio_view (s\<lparr>us_probe_reack_open := b\<rparr>) = audio_view s"
  "audio_view (s\<lparr>us_reorder_timer := w\<rparr>) = audio_view s"
  "audio_view (s\<lparr>us_worker := b\<rparr>) = audio_view s"
  "audio_view (s\<lparr>us_sent := xs\<rparr>) = audio_view s"
  "audio_view (s\<lparr>us_reported := es\<rparr>) = audio_view s"
  by (simp_all add: audio_view_def)

lemma audio_view_fields:
  assumes "audio_view s' = audio_view s"
  shows "us_replay s' = us_replay s" "us_reorder s' = us_reorder s" "us_offered s' = us_offered s"
    "us_next_audio_sequence s' = us_next_audio_sequence s"
  using assms by (simp_all add: audio_view_def)

lemma settle_timer_view [simp]: "audio_view (settle_timer s) = audio_view s" "wire_view (settle_timer s) = wire_view s"
  by (simp_all add: settle_timer_def wire_view_def)

lemma hand_over_cases:
  assumes "hand_over rx n item s = (r, s')"
  obtains "fst item \<noteq> UDP_FLAG_AUDIO" "s' = s"
  | payload ts g where "item = (UDP_FLAG_AUDIO, payload, ts, g)"
      "s' = s\<lparr>us_offered := us_offered s @ [(n, payload, ts, g)]\<rparr>"
  using assms by (auto simp: hand_over_def Let_def split: prod.splits if_splits option.splits)

lemma hand_over_wire: "hand_over rx n item s = (r, s') \<Longrightarrow> wire_view s' = wire_view s"
  by (erule hand_over_cases) (simp_all add: wire_view_def)

lemma drain_take_inv:
  assumes inv: "audio_inv P H s" and e: "us_next_audio_sequence s = Some e" and t: "drain_take rx e s = Some (r, s')"
  shows "audio_inv P H s' \<and> settled s' \<and> us_next_audio_sequence s' = Some e \<and> audio_inv P H (drain_resume e s')"
proof -
  obtain item where item: "dict_get (us_reorder s) e = Some item"
    and h: "hand_over rx e item (s\<lparr>us_reorder := dict_pop e (us_reorder s)\<rparr>) = (r, s')"
    using t by (auto simp: drain_take_def split: option.splits)
  have w: "waiting_in e s" using audio_invD(9) [OF inv e] .
  have mem: "(e, item) \<in> set (us_reorder s)" using item by (rule map_of_SomeD)
  have eW: "e \<in> waiting_seqs s" using mem by (force simp: waiting_seqs_def)
  have P: "P e item" using audio_invD(7) [OF inv] mem by (force simp: list_all_iff)
  have s': "us_reorder s' = dict_pop e (us_reorder s)" "us_replay s' = us_replay s" "us_next_audio_sequence s' = Some e"
    and o: "us_offered s' = us_offered s \<or> (\<exists>x. item = (UDP_FLAG_AUDIO, x) \<and> us_offered s' = us_offered s @ [(e, x)])"
    by (rule hand_over_cases [OF h]; use e in auto)+
  have W: "waiting_seqs s' = waiting_seqs s - {e}" by (simp add: waiting_seqs_def s' delete_keys)
  have O: "offered_seqs s' \<subseteq> insert e (offered_seqs s)" using o by (auto simp: offered_seqs_def)
  have le: "d \<in> offered_seqs s \<Longrightarrow> d < e" for d
    using w eW audio_invD(6) [OF inv] by (cases "d = e") (auto simp: waiting_in_def)
  have srt: "sorted_wrt (<) (map fst (us_offered s'))"
    using o audio_invD(3) [OF inv] le by (auto simp: sorted_wrt_append offered_seqs_def)
  have Po: "list_all (\<lambda>x. P (fst x) (UDP_FLAG_AUDIO, snd x)) (us_offered s')"
    using o P audio_invD(8) [OF inv] by auto
  have Pr: "list_all (\<lambda>x. P (fst x) (snd x)) (us_reorder s')"
    using audio_invD(7) [OF inv] by (auto simp: s' list_all_iff dict_pop_mem)
  have win: "waiting_in e s'" "waiting_seqs s' \<subseteq> {e + 1 ..< e + 1 + UDP_JITTER_WINDOW_PACKETS}"
    "\<forall>d \<in> offered_seqs s'. d \<le> e + 1"
    using w W O le unfolding waiting_in_def by fastforce+
  have sets: "offered_seqs s' \<subseteq> H" "waiting_seqs s' \<subseteq> H" "waiting_seqs s' \<inter> offered_seqs s' = {}"
    using W O eW audio_invD(4,5,6) [OF inv] by blast+
  have wf: "dict_wf (us_reorder s')" using audio_invD(2) [OF inv] by (simp add: s')
  have "audio_inv P H s'" unfolding audio_inv_def
    using s'(2,3) audio_invD(1) [OF inv] srt Po Pr win(1) sets wf by simp
  moreover have "audio_inv P H (drain_resume e s')" unfolding audio_inv_def
    using s'(2) audio_invD(1) [OF inv] srt Po Pr win sets wf
    by (simp add: drain_resume_def waiting_in_def waiting_seqs_def offered_seqs_def)
  moreover have "settled s'" using W s'(3) by (simp add: settled_def)
  ultimately show ?thesis using s'(3) by blast
qed

lemma drain_take_wire: "drain_take rx e s = Some (r, s') \<Longrightarrow> wire_view s' = wire_view s"
  by (auto simp: drain_take_def wire_view_def dest!: hand_over_wire split: option.splits)

lemma drain_loop_inv:
  assumes "audio_inv P H s" "us_next_audio_sequence s = Some e" "drain_loop rx e s = (r, s')"
  shows "audio_inv P H s' \<and> settled s' \<and> wire_view s' = wire_view s \<and> us_next_audio_sequence s' \<noteq> None"
  using assms
proof (induction rx e s arbitrary: r s' rule: drain_loop.induct)
  case (1 rx e s)
  show ?case
  proof (cases "drain_take rx e s")
    case None
    then have "e \<notin> waiting_seqs s"
      by (auto simp: drain_take_def waiting_seqs_def map_of_eq_None_iff split: option.splits)
    then show ?thesis using 1 None by (auto simp: drain_loop.simps [of rx e s] settled_def)
  next
    case (Some t)
    obtain q s1 where t: "t = (q, s1)" by fastforce
    have take: "drain_take rx e s = Some (q, s1)" using Some t by simp
    have inv: "audio_inv P H s1 \<and> settled s1 \<and> us_next_audio_sequence s1 = Some e \<and> audio_inv P H (drain_resume e s1)"
      using drain_take_inv [OF 1(2,3) take] .
    have w: "wire_view s1 = wire_view s" using drain_take_wire [OF take] .
    show ?thesis
    proof (cases q)
      case (Inl x)
      then show ?thesis using 1(4) take inv w by (simp add: drain_loop.simps [of rx e s])
    next
      case (Inr u)
      have "drain_loop rx (e + 1) (drain_resume e s1) = (r, s')"
        using 1(4) take Inr by (simp add: drain_loop.simps [of rx e s])
      then have "audio_inv P H s' \<and> settled s' \<and> wire_view s' = wire_view (drain_resume e s1) \<and>
          us_next_audio_sequence s' \<noteq> None"
        using 1(1) [OF take refl Inr, of r s'] inv by (simp add: drain_resume_def)
      then show ?thesis using w by (simp add: wire_view_def drain_resume_def)
    qed
  qed
qed

lemma drain_reorder_inv:
  assumes "audio_inv P H s" "drain_reorder rx s = (r, s')"
  shows "audio_inv P H s' \<and> settled s' \<and> wire_view s' = wire_view s"
proof (cases "us_next_audio_sequence s")
  case None
  have "audio_view s' = audio_view s" "wire_view s' = wire_view s"
    using assms(2) None by (auto simp: drain_reorder_def)
  moreover have "settled s" using None by (simp add: settled_def)
  ultimately show ?thesis using assms(1) audio_inv_view settled_view by blast
next
  case (Some e)
  obtain q s1 where l: "drain_loop rx e s = (q, s1)" by fastforce
  have inv: "audio_inv P H s1 \<and> settled s1 \<and> wire_view s1 = wire_view s"
    using drain_loop_inv [OF assms(1) Some l] by blast
  have "s' = s1 \<or> s' = settle_timer s1"
    using assms(2) Some l by (cases q) (auto simp: drain_reorder_def)
  then show ?thesis
    using inv audio_inv_view [of "settle_timer s1" s1] settled_view [of "settle_timer s1" s1] by auto
qed

text \<open>The buffer never holds more than three packets, so it is never full.\<close>

lemma audio_inv_waiting:
  assumes inv: "audio_inv P H s" "settled s"
  shows "length (us_reorder s) \<le> 3"
proof (cases "us_next_audio_sequence s")
  case None
  then show ?thesis using assms by (simp add: audio_inv_def)
next
  case (Some e)
  have "waiting_seqs s \<subseteq> {e + 1 ..< e + 4}"
  proof
    fix k assume k: "k \<in> waiting_seqs s"
    then have "e \<le> k" "k < e + 4"
      using audio_invD(9) [OF inv(1) Some] by (auto simp: waiting_in_def udp_consts)
    moreover have "k \<noteq> e" using k inv(2) Some by (auto simp: settled_def)
    ultimately show "k \<in> {e + 1 ..< e + 4}" by simp
  qed
  then have "card (waiting_seqs s) \<le> card {e + 1 ..< e + 4}" by (intro card_mono) simp_all
  moreover have "card (waiting_seqs s) = length (us_reorder s)"
    using audio_invD(2) [OF inv(1)] distinct_card [of "dict_keys (us_reorder s)"] by (simp add: waiting_seqs_def)
  ultimately show ?thesis by simp
qed

lemma resync_inv:
  assumes inv: "audio_inv P H s" "settled s" and e: "us_next_audio_sequence s = Some e" "e \<le> n"
  shows "audio_inv P H (resync_media_cursor n s) \<and> settled (resync_media_cursor n s) \<and>
    us_next_audio_sequence (resync_media_cursor n s) = Some n \<and> wire_view (resync_media_cursor n s) = wire_view s \<and>
    offered_seqs (resync_media_cursor n s) = offered_seqs s \<and>
    waiting_seqs (resync_media_cursor n s) \<subseteq> waiting_seqs s"
proof (cases "n = e")
  case True
  then show ?thesis using inv e by (simp add: resync_media_cursor_def)
next
  case False
  have "\<forall>d \<in> offered_seqs s. d \<le> n" using audio_invD(9) [OF inv(1) e(1)] e(2) by (force simp: waiting_in_def)
  then show ?thesis
    using audio_invD(1,3,4,8) [OF inv(1)] e False
    by (simp add: resync_media_cursor_def audio_inv_def settled_def waiting_in_def wire_view_def Let_def
        waiting_seqs_def offered_seqs_def)
qed

lemma buffer_store_inv:
  assumes inv: "audio_inv P H s" and e: "us_next_audio_sequence s = Some e"
    and n: "n \<in> H" "n \<notin> waiting_seqs s" "n \<notin> offered_seqs s" "e \<le> n" "n < e + UDP_JITTER_WINDOW_PACKETS"
    and P: "P n item"
  shows "audio_inv P H (s\<lparr>us_reorder := dict_set n item (us_reorder s)\<rparr>)"
proof -
  let ?s = "s\<lparr>us_reorder := dict_set n item (us_reorder s)\<rparr>"
  have eq: "dict_set n item (us_reorder s) = us_reorder s @ [(n, item)]"
    using n(2) by (intro dict_set_new) (simp add: waiting_seqs_def)
  have W: "waiting_seqs ?s = insert n (waiting_seqs s)" and O: "offered_seqs ?s = offered_seqs s"
    by (simp_all add: waiting_seqs_def offered_seqs_def eq)
  have "waiting_in e ?s"
    using audio_invD(9) [OF inv e] n(4,5) by (simp add: waiting_in_def W O)
  then show ?thesis
    unfolding audio_inv_def W O using inv e n(1-3) P
    by (simp add: audio_inv_def eq waiting_seqs_def)
qed

lemma buffer_media_inv:
  assumes inv: "audio_inv P H s" "settled s" and e: "us_next_audio_sequence s = Some e"
    and n: "uh_sequence h \<in> H" "uh_sequence h \<notin> waiting_seqs s" "uh_sequence h \<notin> offered_seqs s"
    and P: "P (uh_sequence h) (uh_flags h, payload, uh_timestamp h, uh_generation h)"
    and b: "buffer_media rx h payload s = (r, s')"
  shows "audio_inv P H s' \<and> settled s' \<and> wire_view s' = wire_view s"
proof (cases "uh_sequence h < e")
  case True
  then have "s' = note_replayed s" using b e by (simp add: buffer_media_def)
  then show ?thesis
    using inv audio_inv_view [of s' s P H] settled_view [of s' s] by (simp add: wire_view_def)
next
  case False
  define s1 where "s1 = (if uh_sequence h \<ge> e + UDP_JITTER_WINDOW_PACKETS then resync_media_cursor (uh_sequence h) s else s)"
  define e1 where "e1 = (if uh_sequence h \<ge> e + UDP_JITTER_WINDOW_PACKETS then uh_sequence h else e)"
  define s2 where "s2 = (if uh_sequence h \<noteq> e1 then us_stats_update (st_reordered_update ((+) 1)) s1 else s1)"
  have s1: "audio_inv P H s1 \<and> settled s1 \<and> us_next_audio_sequence s1 = Some e1 \<and> wire_view s1 = wire_view s \<and>
      offered_seqs s1 = offered_seqs s \<and> waiting_seqs s1 \<subseteq> waiting_seqs s"
    using resync_inv [OF inv e, of "uh_sequence h"] False inv e by (simp add: s1_def e1_def)
  have v2: "audio_view s2 = audio_view s1" "wire_view s2 = wire_view s1" by (simp_all add: s2_def wire_view_def)
  have s2: "audio_inv P H s2" "us_next_audio_sequence s2 = Some e1" "waiting_seqs s2 \<subseteq> waiting_seqs s"
    "offered_seqs s2 = offered_seqs s"
    using s1 audio_inv_view [OF v2(1)] audio_view_fields [OF v2(1)] by (auto simp: waiting_seqs_def offered_seqs_def)
  have len: "\<not> int (length (us_reorder s1)) \<ge> UDP_JITTER_WINDOW_PACKETS"
    using audio_inv_waiting [of P H s1] s1 by (simp add: udp_consts)
  have eq: "drain_reorder rx (s2\<lparr>us_reorder := dict_set (uh_sequence h)
      (uh_flags h, payload, uh_timestamp h, uh_generation h) (us_reorder s2)\<rparr>) = (r, s')"
    using b e False len by (simp add: buffer_media_def s1_def e1_def s2_def Let_def split: if_splits)
  have win: "e1 \<le> uh_sequence h" "uh_sequence h < e1 + UDP_JITTER_WINDOW_PACKETS"
    using False by (auto simp: e1_def udp_consts)
  have new: "uh_sequence h \<notin> waiting_seqs s2" "uh_sequence h \<notin> offered_seqs s2" using n s2 by blast+
  show ?thesis
    using drain_reorder_inv [OF buffer_store_inv [OF s2(1,2) n(1) new win, OF P] eq] v2(2) s1
    by (simp add: wire_view_def)
qed

lemma commit_sequence_inv:
  assumes inv: "audio_inv P H s" "settled s" and n: "is_uint32 n" and ok: "can_accept (us_replay s) n"
    and c: "commit_sequence n s = (r, s')"
  shows "r = Inr () \<and> audio_inv P (insert n H) s' \<and> settled s' \<and> n \<notin> H \<and>
    (\<exists>w. s' = s\<lparr>us_replay := w\<rparr>)"
proof -
  have t: "replay_tracks (us_replay s) H" using inv by (simp add: audio_inv_def)
  obtain w where w: "replay_commit (us_replay s) n = Some w" using worker_replay.commit_iff ok by blast
  then have s': "r = Inr ()" "s' = s\<lparr>us_replay := w\<rparr>" using c by (simp_all add: commit_sequence_def)
  have "replay_tracks w (insert n H)" using worker_replay.commit_tracks [OF t n w] .
  moreover have "n \<notin> H" using worker_replay.acceptable_fresh [OF t n ok] .
  ultimately show ?thesis
    using inv s' by (auto simp: audio_inv_def settled_def waiting_in_def waiting_seqs_def offered_seqs_def cong: option.case_cong)
qed

section \<open>The wire side: one source, no nonce used twice\<close>

definition packet_sequence :: "bytes \<Rightarrow> int" where
  "packet_sequence d = h_sequence (header_unpack d)"

definition wire_inv :: "udp_session \<Rightarrow> bool" where
  "wire_inv s \<longleftrightarrow> 0 \<le> us_downlink_sequence s \<and>
    (\<forall>x \<in> set (us_sent s). us_source s = Some (snd x) \<and> packet_sequence (fst x) < us_downlink_sequence s) \<and>
    (\<forall>x \<in> set (us_sent s). \<forall>y \<in> set (us_sent s).
       packet_sequence (fst x) = packet_sequence (fst y) \<longrightarrow> fst x = fst y) \<and>
    (\<forall>d. us_probe_ack_datagram s = Some d \<longrightarrow> d \<in> fst ` set (us_sent s))"

lemma wire_inv_view: "wire_view s' = wire_view s \<Longrightarrow> wire_inv s' \<longleftrightarrow> wire_inv s"
  by (simp add: wire_view_def wire_inv_def)

lemma wire_inv_simps [simp]:
  "wire_inv (s\<lparr>us_replay := w\<rparr>) \<longleftrightarrow> wire_inv s"
  "wire_inv (us_stats_update f s) \<longleftrightarrow> wire_inv s"
  "wire_inv (s\<lparr>us_next_audio_sequence := e\<rparr>) \<longleftrightarrow> wire_inv s"
  by (simp_all add: wire_inv_def)

lemma wire_inv_pin:
  assumes "wire_inv s" "us_source s = None"
  shows "wire_inv (s\<lparr>us_source := Some a\<rparr>)"
proof -
  have "us_sent s = []" using assms by (cases "us_sent s") (auto simp: wire_inv_def)
  then show ?thesis using assms by (simp add: wire_inv_def)
qed

lemma wire_sequence:
  assumes "header_in_range h"
  shows "h_sequence (header_unpack (header_wire h @ rest)) = h_sequence h"
proof -
  let ?h = "h\<lparr>h_magic := pad_bytes 2 (h_magic h), h_media_id := pad_bytes 8 (h_media_id h)\<rparr>"
  have "header_wf ?h" using assms by (simp add: header_wf_def header_in_range_def)
  moreover have "header_wire ?h = header_wire h" by (simp add: header_wire_def)
  ultimately have "header_unpack (header_wire h @ rest) = ?h" using header_unpack_wire [of ?h] by simp
  then show ?thesis by simp
qed

lemma encode_sequence: "udp_header_encode u = Some aad \<Longrightarrow> packet_sequence (aad @ rest) = uh_sequence u"
  by (auto simp: udp_header_encode_def header_pack_def packet_sequence_def wire_sequence udp_struct_def split: if_splits)

lemma wire_inv_burn: "wire_inv s \<Longrightarrow> wire_inv (s\<lparr>us_downlink_sequence := us_downlink_sequence s + 1\<rparr>)"
  by (force simp: wire_inv_def)

lemma wire_inv_sent:
  assumes w: "wire_inv s" and src: "us_source s = Some a" and q: "packet_sequence d = us_downlink_sequence s"
    and f: "us_sent s' = us_sent s @ [(d, a)]" "us_downlink_sequence s' = us_downlink_sequence s + 1"
      "us_source s' = Some a" "us_probe_ack_datagram s' \<in> {us_probe_ack_datagram s, Some d}"
  shows "wire_inv s'"
proof -
  have ne: "x \<in> set (us_sent s) \<Longrightarrow> packet_sequence (fst x) \<noteq> packet_sequence d" for x
    using w q unfolding wire_inv_def by fastforce
  have "\<forall>x \<in> set (us_sent s'). us_source s' = Some (snd x) \<and> packet_sequence (fst x) < us_downlink_sequence s'"
    using w src q f unfolding wire_inv_def by fastforce
  moreover have "\<forall>x \<in> set (us_sent s'). \<forall>y \<in> set (us_sent s').
      packet_sequence (fst x) = packet_sequence (fst y) \<longrightarrow> fst x = fst y"
    using w ne unfolding wire_inv_def f(1) by (metis Un_iff empty_set fst_conv list.set(2) set_append singletonD)
  moreover have "\<forall>x. us_probe_ack_datagram s' = Some x \<longrightarrow> x \<in> fst ` set (us_sent s')"
    using w f(4) unfolding wire_inv_def f(1) by auto
  moreover have "0 \<le> us_downlink_sequence s'" using w f(2) by (simp add: wire_inv_def)
  ultimately show ?thesis unfolding wire_inv_def by blast
qed

lemma wire_inv_resend:
  assumes w: "wire_inv s" and src: "us_source s = Some a" and d: "us_probe_ack_datagram s = Some d"
    and f: "us_sent s' = us_sent s @ [(d, a)]" "us_downlink_sequence s' = us_downlink_sequence s"
      "us_source s' = Some a" "us_probe_ack_datagram s' = Some d"
  shows "wire_inv s'"
proof -
  obtain x where x: "x \<in> set (us_sent s)" "fst x = d" using w d by (auto simp: wire_inv_def)
  have mem: "\<exists>z \<in> set (us_sent s). fst z = fst y" if "y \<in> set (us_sent s')" for y
    using that x f(1) by auto
  have "\<forall>y \<in> set (us_sent s'). us_source s' = Some (snd y) \<and> packet_sequence (fst y) < us_downlink_sequence s'"
    using w src x unfolding wire_inv_def f by (metis Un_iff empty_set fst_conv list.set(2) set_append singletonD snd_conv)
  moreover have "\<forall>y \<in> set (us_sent s'). \<forall>z \<in> set (us_sent s').
      packet_sequence (fst y) = packet_sequence (fst z) \<longrightarrow> fst y = fst z"
    using w mem unfolding wire_inv_def by metis
  ultimately show ?thesis using w f unfolding wire_inv_def by simp
qed

lemma udp_send_wire:
  assumes w: "wire_inv s" and u: "udp_send A cx flags payload ts g s = (r, s')"
  shows "wire_inv s' \<and> audio_view s' = audio_view s \<and> us_grant s' = us_grant s \<and> us_source s' = us_source s"
proof (cases "us_expired s \<or> cx_send_time cx \<ge> of_int (ug_expires_at (us_grant s)) \<or> length payload > UDP_MAX_PAYLOAD_BYTES \<or>
    us_source s = None \<or> \<not> cx_transport cx \<or> us_downlink_sequence s \<ge> 0xFFFFFFFF")
  case True
  then have "s' = s" using u by (auto simp: udp_send_def Let_def split: if_splits option.splits)
  then show ?thesis using w by simp
next
  case False
  then obtain a where a: "us_source s = Some a" by auto
  define h where "h = \<lparr>uh_flags = flags, uh_media_id = ug_media_id (us_grant s), uh_media_epoch = ug_media_epoch (us_grant s),
    uh_sequence = us_downlink_sequence s, uh_timestamp = mask32 ts, uh_generation = g, uh_payload_length = int (length payload)\<rparr>"
  show ?thesis
  proof (cases "udp_header_encode h")
    case None
    then have "s' = s\<lparr>us_downlink_sequence := us_downlink_sequence s + 1\<rparr>"
      using u False a by (simp add: udp_send_def h_def Let_def)
    then show ?thesis using wire_inv_burn [OF w] by simp
  next
    case (Some aad)
    define d where "d = aad @ aead_encrypt A (ug_downlink_key (us_grant s))
      (ug_downlink_salt (us_grant s) @ be32 (us_downlink_sequence s)) payload aad"
    have q: "packet_sequence d = us_downlink_sequence s" using encode_sequence [OF Some] by (simp add: d_def h_def)
    show ?thesis
    proof (cases "length d > UDP_MAX_DATAGRAM_BYTES")
      case True
      then have "s' = s\<lparr>us_downlink_sequence := us_downlink_sequence s + 1\<rparr>"
        using u False a Some by (simp add: udp_send_def h_def d_def Let_def)
      then show ?thesis using wire_inv_burn [OF w] by simp
    next
      case ok: False
      then have f: "us_sent s' = us_sent s @ [(d, a)]" "us_downlink_sequence s' = us_downlink_sequence s + 1"
          "us_source s' = Some a" "us_probe_ack_datagram s' \<in> {us_probe_ack_datagram s, Some d}"
          "us_grant s' = us_grant s" "audio_view s' = audio_view s"
        using u False a Some by (auto simp: udp_send_def h_def d_def Let_def audio_view_def split: if_splits)
      show ?thesis using wire_inv_sent [OF w a q f(1-4)] f a by simp
    qed
  qed
qed

section \<open>The session invariant\<close>

text \<open>A packet is authentic when its payload decrypts under the uplink key with its own header as associated data.\<close>

definition authentic :: "aead \<Rightarrow> udp_grant \<Rightarrow> int \<Rightarrow> buffered \<Rightarrow> bool" where
  "authentic A g n item = (case item of (flags, payload, ts, gen) \<Rightarrow>
    \<exists>encrypted plen. aead_decrypt A (ug_uplink_key g) (ug_uplink_salt g @ be32 n) encrypted
      (header_wire (udp_struct \<lparr>uh_flags = flags, uh_media_id = ug_media_id g, uh_media_epoch = ug_media_epoch g,
         uh_sequence = n, uh_timestamp = ts, uh_generation = gen, uh_payload_length = plen\<rparr>)) = Some payload)"

definition session_inv :: "aead \<Rightarrow> udp_grant \<Rightarrow> udp_session \<Rightarrow> bool" where
  "session_inv A g s \<longleftrightarrow> us_grant s = g \<and> (\<exists>H. audio_inv (authentic A g) H s) \<and> settled s \<and> wire_inv s"

lemma session_invI:
  "us_grant s = g \<Longrightarrow> audio_inv (authentic A g) H s \<Longrightarrow> settled s \<Longrightarrow> wire_inv s \<Longrightarrow> session_inv A g s"
  by (auto simp: session_inv_def)

lemma session_inv_frame:
  assumes "session_inv A g s" "audio_view s' = audio_view s" "wire_view s' = wire_view s"
  shows "session_inv A g s'"
proof -
  have "us_grant s' = us_grant s" using assms(3) by (simp add: wire_view_def)
  then show ?thesis
    using assms audio_inv_view [OF assms(2)] settled_view [OF assms(2)] wire_inv_view [OF assms(3)]
    by (simp add: session_inv_def)
qed

lemma session_inv_stats [simp]: "session_inv A g (us_stats_update f s) \<longleftrightarrow> session_inv A g s"
  by (auto intro: session_inv_frame simp: wire_view_def)

lemma session_inv_init: "session_inv A g (udp_session_init g n)"
  by (rule session_invI [where H = "{}"])
    (simp_all add: udp_session_init_def audio_inv_def settled_def wire_inv_def offered_seqs_def waiting_seqs_def
      worker_replay.tracks_init)

lemma handle_repeated_probe_inv:
  assumes "session_inv A g s"
  shows "session_inv A g (handle_repeated_probe cx payload s)"
proof (cases "payload = [] \<and> cx_transport cx \<and> us_source s \<noteq> None \<and> us_probe_ack_datagram s \<noteq> None")
  case False
  then show ?thesis using assms by (auto simp: handle_repeated_probe_def split: option.splits)
next
  case True
  then obtain a d where ad: "us_source s = Some a" "us_probe_ack_datagram s = Some d" by blast
  let ?s = "handle_repeated_probe cx payload s"
  have w: "wire_inv s" using assms by (simp add: session_inv_def)
  have f: "us_sent ?s = us_sent s @ [(d, a)]" "us_downlink_sequence ?s = us_downlink_sequence s" "us_source ?s = Some a"
    "us_probe_ack_datagram ?s = Some d" "us_grant ?s = us_grant s" "audio_view ?s = audio_view s"
    using True ad by (simp_all add: handle_repeated_probe_def)
  have "wire_inv ?s" using wire_inv_resend [OF w ad f(1-4)] .
  then show ?thesis
    using assms f audio_inv_view [OF f(6)] settled_view [OF f(6)] by (simp add: session_inv_def)
qed

lemma anchor_inv:
  assumes "audio_inv P H s" "us_next_audio_sequence s = None"
  shows "audio_inv P H (s\<lparr>us_next_audio_sequence := Some n\<rparr>) \<and> settled (s\<lparr>us_next_audio_sequence := Some n\<rparr>)"
  using assms by (simp add: audio_inv_def settled_def waiting_in_def waiting_seqs_def offered_seqs_def)

text \<open>A packet that the replay window admits and that goes into the reorder buffer.\<close>

lemma admit_inv:
  assumes inv: "audio_inv (authentic A g) H s" "settled s" "wire_inv s" "us_grant s = g"
    and n: "uh_sequence h \<in> H" "uh_sequence h \<notin> waiting_seqs s" "uh_sequence h \<notin> offered_seqs s"
    and e: "us_next_audio_sequence s = Some e"
    and P: "authentic A g (uh_sequence h) (uh_flags h, payload, uh_timestamp h, uh_generation h)"
    and b: "buffer_media rx h payload s = (r, s')"
  shows "session_inv A g s' \<and> us_source s' = us_source s"
proof -
  have "audio_inv (authentic A g) H s' \<and> settled s' \<and> wire_view s' = wire_view s"
    by (rule buffer_media_inv [OF inv(1,2) e n _ b]) (rule P)
  moreover from this have "us_grant s' = us_grant s" "us_source s' = us_source s" "wire_inv s'"
    using inv(3) wire_inv_view [of s' s] by (simp_all add: wire_view_def)
  ultimately show ?thesis using inv(4) session_invI [of s' g A H] by simp
qed

lemma handle_probe_inv:
  assumes inv: "session_inv A g s" and n: "is_uint32 (uh_sequence h)" "can_accept (us_replay s) (uh_sequence h)"
    and P: "authentic A g (uh_sequence h) (uh_flags h, payload, uh_timestamp h, uh_generation h)"
    and src: "us_source s = None \<or> us_source s = Some addr"
    and h: "handle_probe A rx cx h payload addr s = (r, s')"
  shows "session_inv A g s' \<and> (us_source s' = us_source s \<or> us_source s = None \<and> us_source s' = Some addr \<and> uh_sequence h = 0)"
proof -
  obtain H where H: "audio_inv (authentic A g) H s" "settled s" "wire_inv s" "us_grant s = g"
    using inv by (auto simp: session_inv_def)
  let ?expected = "us_next_audio_sequence s"
  let ?n = "uh_sequence h"
  show ?thesis
  proof (cases "payload = [] \<and> \<not> (us_source s = None \<and> ?n \<noteq> 0) \<and>
      \<not> (case ?expected of None \<Rightarrow> False | Some e \<Rightarrow> ?n < e) \<and>
      \<not> (case ?expected of None \<Rightarrow> False | Some e \<Rightarrow> ?n \<ge> e + UDP_JITTER_WINDOW_PACKETS \<or>
          (?n \<noteq> e \<and> int (length (us_reorder s)) \<ge> UDP_JITTER_WINDOW_PACKETS))")
    case False
    then have "s' \<in> {note_invalid s, note_replayed s, note_queue_dropped s}"
      using h unfolding handle_probe_def Let_def by (simp split: if_splits)
    then show ?thesis using inv by auto
  next
    case True
    obtain s1 where c: "commit_sequence ?n s = (Inr (), s1)" and c1: "audio_inv (authentic A g) (insert ?n H) s1" "settled s1"
        and new: "?n \<notin> H" and w1: "\<exists>w. s1 = s\<lparr>us_replay := w\<rparr>"
      using commit_sequence_inv [OF H(1,2) n] by (metis prod.collapse)
    define s2 where "s2 = (if us_source s1 = None
      then us_stats_update (st_source_pinned_update ((+) 1)) (s1\<lparr>us_source := Some addr\<rparr>) else s1)"
    have v2: "audio_view s2 = audio_view s1" by (simp add: s2_def)
    have W2: "wire_inv s2" "us_grant s2 = g" "us_source s2 = Some addr" "us_next_audio_sequence s2 = ?expected"
      using H(3,4) w1 src wire_inv_pin [OF H(3), of addr] by (auto simp: s2_def intro: wire_inv_pin)
    have src2: "us_source s2 = us_source s \<or> us_source s = None \<and> ?n = 0" using True w1 by (auto simp: s2_def)
    obtain q s3 where u: "udp_send A cx UDP_FLAG_PROBE_ACK [] 0 0 s2 = (q, s3)" by fastforce
    have u3: "wire_inv s3" "audio_view s3 = audio_view s1" "us_grant s3 = g" "us_source s3 = Some addr"
      using udp_send_wire [OF W2(1) u] v2 W2 by simp_all
    have a3: "audio_inv (authentic A g) (insert ?n H) s3" "settled s3"
      using c1 audio_inv_view [OF u3(2)] settled_view [OF u3(2)] by simp_all
    have n3: "us_next_audio_sequence s3 = ?expected"
      using audio_view_fields [OF u3(2)] w1 by auto
    show ?thesis
    proof (cases q)
      case (Inl x)
      then have "s' = s3" using h True c u by (simp add: handle_probe_def Let_def flip: s2_def)
      then show ?thesis using session_invI [OF u3(3) a3 u3(1)] u3(4) src2 W2(3) by auto
    next
      case (Inr k)
      define s4 where "s4 = (if ?expected = None then s3\<lparr>us_next_audio_sequence := Some ?n\<rparr> else s3)"
      obtain b s5 where b: "buffer_media rx h [] s4 = (b, s5)" by fastforce
      have a4: "audio_inv (authentic A g) (insert ?n H) s4" "settled s4" "wire_inv s4" "us_grant s4 = g"
        "\<exists>e. us_next_audio_sequence s4 = Some e" "us_source s4 = Some addr"
        using a3 anchor_inv [OF a3(1), of ?n] n3 u3 by (auto simp: s4_def)
      have fresh: "?n \<notin> waiting_seqs s4" "?n \<notin> offered_seqs s4"
      proof -
        have "us_reorder s4 = us_reorder s" "us_offered s4 = us_offered s"
          using w1 audio_view_fields [OF u3(2)] by (auto simp: s4_def)
        then have "waiting_seqs s4 = waiting_seqs s" "offered_seqs s4 = offered_seqs s"
          by (simp_all add: waiting_seqs_def offered_seqs_def)
        then show "?n \<notin> waiting_seqs s4" "?n \<notin> offered_seqs s4" using new audio_invD(4,5) [OF H(1)] by blast+
      qed
      have P': "authentic A g ?n (uh_flags h, [], uh_timestamp h, uh_generation h)" using P True by simp
      have s5: "session_inv A g s5" "us_source s5 = Some addr"
        using admit_inv [OF a4(1-4) _ fresh _ P' b] a4(5,6) by auto
      have "audio_view s' = audio_view s5 \<and> wire_view s' = wire_view s5"
        using h True c u Inr b
        by (cases b) (auto simp: handle_probe_def Let_def wire_view_def simp flip: s2_def s4_def)
      then show ?thesis using session_inv_frame [OF s5(1)] s5(2) src2 W2(3) by (auto simp: wire_view_def)
    qed
  qed
qed

lemma handle_media_inv:
  assumes inv: "session_inv A g s" and n: "is_uint32 (uh_sequence h)" "can_accept (us_replay s) (uh_sequence h)"
    and P: "authentic A g (uh_sequence h) (uh_flags h, payload, uh_timestamp h, uh_generation h)"
    and h: "handle_media A rx cx h payload s = (r, s')"
  shows "session_inv A g s' \<and> us_source s' = us_source s"
proof -
  obtain H where H: "audio_inv (authentic A g) H s" "settled s" "wire_inv s" "us_grant s = g"
    using inv by (auto simp: session_inv_def)
  let ?n = "uh_sequence h"
  show ?thesis
  proof (cases "us_source s \<noteq> None \<and> us_ready s \<and> \<not> (uh_flags h = UDP_FLAG_KEEPALIVE \<and> payload \<noteq> []) \<and>
      \<not> (uh_flags h = UDP_FLAG_AUDIO \<and> payload = []) \<and> (\<exists>e. us_next_audio_sequence s = Some e \<and> e \<le> ?n \<and>
      \<not> (?n < e + UDP_JITTER_WINDOW_PACKETS \<and> ?n \<noteq> e \<and> int (length (us_reorder s)) \<ge> UDP_JITTER_WINDOW_PACKETS))")
    case False
    then have "s' \<in> {note_invalid s, note_replayed s, note_queue_dropped s}"
      using h unfolding handle_media_def by (auto split: if_splits option.splits)
    then show ?thesis using inv by auto
  next
    case True
    then obtain e where e: "us_next_audio_sequence s = Some e" "e \<le> ?n"
      and room: "\<not> (?n < e + UDP_JITTER_WINDOW_PACKETS \<and> ?n \<noteq> e \<and> int (length (us_reorder s)) \<ge> UDP_JITTER_WINDOW_PACKETS)"
      by blast
    have ok: "\<not> (us_source s = None \<or> \<not> us_ready s)" "\<not> (uh_flags h = UDP_FLAG_KEEPALIVE \<and> payload \<noteq> [])"
      "\<not> (uh_flags h = UDP_FLAG_AUDIO \<and> payload = [])" "\<not> ?n < e" using True e by auto
    define s1 where "s1 = (if ?n \<ge> e + UDP_JITTER_WINDOW_PACKETS then resync_media_cursor ?n s else s)"
    define s1' where "s1' = s1\<lparr>us_probe_reack_open := False\<rparr>"
    have s1: "audio_inv (authentic A g) H s1 \<and> settled s1 \<and> wire_view s1 = wire_view s \<and>
        offered_seqs s1 = offered_seqs s \<and> waiting_seqs s1 \<subseteq> waiting_seqs s \<and> (\<exists>e1. us_next_audio_sequence s1 = Some e1)"
      using resync_inv [OF H(1,2) e] H e by (auto simp: s1_def)
    have v: "audio_view s1' = audio_view s1" "wire_view s1' = wire_view s"
      using s1 by (simp_all add: s1'_def wire_view_def)
    have i1: "audio_inv (authentic A g) H s1'" "settled s1'" "can_accept (us_replay s1') ?n"
      using s1 audio_inv_view [OF v(1)] settled_view [OF v(1)] n(2) v(2) by (simp_all add: wire_view_def)
    have q1: "waiting_seqs s1' \<subseteq> waiting_seqs s" "offered_seqs s1' = offered_seqs s" "\<exists>e1. us_next_audio_sequence s1' = Some e1"
      using s1 by (simp_all add: s1'_def waiting_seqs_def offered_seqs_def)
    obtain s2 where c: "commit_sequence ?n s1' = (Inr (), s2)" and c2: "audio_inv (authentic A g) (insert ?n H) s2" "settled s2"
        and new: "?n \<notin> H" and w2: "\<exists>w. s2 = s1'\<lparr>us_replay := w\<rparr>"
      using commit_sequence_inv [OF i1(1,2) n(1) i1(3)] by (metis prod.collapse)
    have W2: "wire_inv s2" "us_grant s2 = g" "us_source s2 = us_source s"
      using w2 wire_inv_view [OF v(2)] H v(2) by (auto simp: wire_view_def)
    have "waiting_seqs s2 = waiting_seqs s1'" "offered_seqs s2 = offered_seqs s1'"
      using w2 by (auto simp: waiting_seqs_def offered_seqs_def)
    then have fresh: "?n \<notin> waiting_seqs s2" "?n \<notin> offered_seqs s2" using new q1 audio_invD(4,5) [OF H(1)] by blast+
    obtain b s3 where b: "buffer_media rx h payload s2 = (b, s3)" by fastforce
    have "\<exists>e2. us_next_audio_sequence s2 = Some e2" using w2 q1(3) by auto
    then have s3: "session_inv A g s3" "us_source s3 = us_source s"
      using admit_inv [OF c2 W2(1,2) _ fresh _ P b] W2(3) by auto
    have eq: "(r, s') = bind_op (b, s3) (\<lambda>_ s3. if uh_flags h = UDP_FLAG_KEEPALIVE
        then bind_op (udp_send A cx UDP_FLAG_KEEPALIVE [] (uh_timestamp h) (uh_generation h) s3) (\<lambda>_ s4. (Inr (), s4))
        else (Inr (), s3))"
      using h unfolding handle_media_def e(1) option.case Let_def if_not_P [OF ok(1)] if_not_P [OF ok(2)]
        if_not_P [OF ok(3)] if_not_P [OF ok(4)] if_not_P [OF room]
      unfolding s1_def [symmetric] s1'_def [symmetric] c bind_op_simps b by simp
    obtain q s4 where u: "udp_send A cx UDP_FLAG_KEEPALIVE [] (uh_timestamp h) (uh_generation h) s3 = (q, s4)" by fastforce
    have s4: "session_inv A g s4 \<and> us_source s4 = us_source s"
    proof -
      have w3: "wire_inv s3" using s3 by (simp add: session_inv_def)
      have "wire_inv s4 \<and> audio_view s4 = audio_view s3 \<and> us_grant s4 = us_grant s3 \<and> us_source s4 = us_source s3"
        using udp_send_wire [OF w3 u] .
      then show ?thesis
        using s3 audio_inv_view [of s4 s3] settled_view [of s4 s3] by (simp add: session_inv_def)
    qed
    have "s' = s3 \<or> s' = s4" using eq u by (cases b; cases q) (auto split: if_splits)
    then show ?thesis using s3 s4 by auto
  qed
qed

text \<open>What a datagram does: it keeps the invariant, and only an authentic first probe pins the source.\<close>

lemma udp_handle_inv:
  assumes inv: "session_inv A g s" and h: "udp_handle A rx cx data addr s = (r, s')"
  shows "session_inv A g s' \<and> (us_source s' = us_source s \<or> us_source s = None \<and> us_source s' = Some addr \<and>
    packet_sequence data = 0)"
proof (cases "\<exists>f. s' = us_stats_update f s")
  case True
  then show ?thesis using inv by auto
next
  case stats: False
  have g: "us_grant s = g" using inv by (simp add: session_inv_def)
  obtain u enc where d: "udp_header_decode data = Inr (u, enc)" and live: "\<not> (length data > UDP_MAX_DATAGRAM_BYTES \<or>
      us_expired s \<or> cx_time cx \<ge> of_int (ug_expires_at (us_grant s)))"
    and m: "uh_media_id u = ug_media_id g" "uh_media_epoch u = ug_media_epoch g"
      "uh_flags u \<in> {UDP_FLAG_AUDIO, UDP_FLAG_PROBE, UDP_FLAG_KEEPALIVE}"
      "can_accept (us_replay s) (uh_sequence u) \<or> repeated_initial_probe cx u addr s"
    using h stats g unfolding udp_handle_def by (auto split: if_splits sum.splits prod.splits)
  have dec: "udp_header_valid u" "data = header_wire (udp_struct u) @ enc" using d udp_header_decode_iff by blast+
  have aad: "take UDP_HEADER_BYTES data = header_wire (udp_struct u)" by (simp add: dec(2) udp_consts)
  have seq: "packet_sequence data = uh_sequence u"
    using encode_sequence [OF udp_header_encode_valid [OF dec(1)]] dec(2) by simp
  define s2 where "s2 = us_stats_update (st_authenticated_update ((+) 1)) (us_stats_update (st_authentication_attempted_update ((+) 1)) s)"
  have s2: "session_inv A g s2" "us_replay s2 = us_replay s" "us_source s2 = us_source s" using inv by (simp_all add: s2_def)
  obtain payload where p: "aead_decrypt A (ug_uplink_key g) (ug_uplink_salt g @ be32 (uh_sequence u)) enc
      (header_wire (udp_struct u)) = Some payload"
    using h stats g d live m aad unfolding udp_handle_def by (auto simp: Let_def split: option.splits)
  have res: "(r, s') = (if repeated_initial_probe cx u addr s then (Inr (), handle_repeated_probe cx payload s2)
      else if us_source s2 \<noteq> None \<and> us_source s2 \<noteq> Some addr then (Inr (), us_stats_update (st_wrong_source_update ((+) 1)) s2)
      else if uh_flags u = UDP_FLAG_PROBE then handle_probe A rx cx u payload addr s2 else handle_media A rx cx u payload s2)"
    using h g d live m aad p unfolding udp_handle_def s2_def by (auto simp: Let_def)
  have hdr: "u = \<lparr>uh_flags = uh_flags u, uh_media_id = ug_media_id g, uh_media_epoch = ug_media_epoch g, uh_sequence = uh_sequence u,
      uh_timestamp = uh_timestamp u, uh_generation = uh_generation u, uh_payload_length = uh_payload_length u\<rparr>"
    using m by simp
  have P: "authentic A g (uh_sequence u) (uh_flags u, payload, uh_timestamp u, uh_generation u)"
    unfolding authentic_def using p hdr by (simp only: prod.case) metis
  have n: "is_uint32 (uh_sequence u)" using dec(1) by (simp add: udp_header_valid_def)
  show ?thesis
  proof (cases "repeated_initial_probe cx u addr s")
    case True
    have "us_source (handle_repeated_probe cx payload s2) = us_source s2"
      by (simp add: handle_repeated_probe_def split: option.splits)
    then show ?thesis using True res handle_repeated_probe_inv [OF s2(1)] s2(3) by simp
  next
    case rep: False
    then have ok: "can_accept (us_replay s2) (uh_sequence u)" using m(4) s2(2) by simp
    show ?thesis
    proof (cases "us_source s2 \<noteq> None \<and> us_source s2 \<noteq> Some addr")
      case True
      then show ?thesis using rep res s2(1,3) by auto
    next
      case False
      then have src: "us_source s2 = None \<or> us_source s2 = Some addr" by blast
      show ?thesis
      proof (cases "uh_flags u = UDP_FLAG_PROBE")
        case True
        then have "handle_probe A rx cx u payload addr s2 = (r, s')" using res rep False by auto
        then show ?thesis using handle_probe_inv [OF s2(1) n ok P src] s2(3) seq by auto
      next
        case media: False
        then have "handle_media A rx cx u payload s2 = (r, s')" using res rep False by auto
        then show ?thesis using handle_media_inv [OF s2(1) n ok P] s2(3) by auto
      qed
    qed
  qed
qed

lemma skip_gap_inv:
  assumes inv: "audio_inv P H s" "settled s" and ne: "us_reorder s \<noteq> []"
  shows "audio_inv P H (skip_gap s) \<and> wire_view (skip_gap s) = wire_view s"
proof -
  obtain e where e: "us_next_audio_sequence s = Some e" using inv ne by (cases "us_next_audio_sequence s") (auto simp: audio_inv_def)
  define first where "first = Min (set (dict_keys (us_reorder s)))"
  have fin: "finite (waiting_seqs s)" "waiting_seqs s \<noteq> {}" using ne by (simp_all add: waiting_seqs_def)
  have W: "waiting_seqs s \<subseteq> {e ..< e + UDP_JITTER_WINDOW_PACKETS}" "\<forall>d \<in> offered_seqs s. d \<le> e"
    using audio_invD(9) [OF inv(1) e] by (simp_all add: waiting_in_def)
  have first: "first \<in> waiting_seqs s" "\<And>k. k \<in> waiting_seqs s \<Longrightarrow> first \<le> k"
    using Min_in [OF fin] Min_le [OF fin(1)] by (simp_all add: first_def waiting_seqs_def)
  have gt: "e < first" using first(1) W inv(2) e by (cases "first = e") (auto simp: settled_def)
  have eq: "skip_gap s = s\<lparr>us_stats := (us_stats s)\<lparr>st_lost := st_lost (us_stats s) + (first - e)\<rparr>,
      us_next_audio_sequence := Some first, us_reorder_timer := NoTimer\<rparr>"
    using gt e unfolding skip_gap_def first_def by (simp add: Let_def)
  have k: "waiting_seqs (skip_gap s) = waiting_seqs s" "offered_seqs (skip_gap s) = offered_seqs s"
    by (simp_all add: eq waiting_seqs_def offered_seqs_def)
  have "waiting_in first (skip_gap s)" using W first(2) gt k by (fastforce simp: waiting_in_def)
  then show ?thesis
    using inv(1) k unfolding audio_inv_def by (simp add: eq wire_view_def)
qed

lemma expire_reorder_gap_inv:
  assumes inv: "session_inv A g s"
  shows "session_inv A g (expire_reorder_gap rx s) \<and> us_source (expire_reorder_gap rx s) = us_source s"
proof (cases "us_closed s \<or> us_reorder s = []")
  case True
  then show ?thesis
    using session_inv_frame [OF inv, of "s\<lparr>us_reorder_timer := TimerDone\<rparr>"] by (simp add: expire_reorder_gap_def wire_view_def)
next
  case False
  obtain H where H: "audio_inv (authentic A g) H s" "settled s" "wire_inv s" "us_grant s = g"
    using inv by (auto simp: session_inv_def)
  obtain q s1 where d: "drain_reorder rx (skip_gap s) = (q, s1)" by fastforce
  have v: "audio_inv (authentic A g) H s1" "settled s1" "wire_view s1 = wire_view s"
    using skip_gap_inv [OF H(1,2)] drain_reorder_inv [OF _ d] False by auto
  have s1: "session_inv A g s1" "us_source s1 = us_source s"
    using session_invI [OF _ v(1,2)] wire_inv_view [OF v(3)] H(3,4) v(3) by (auto simp: wire_view_def)
  have "expire_reorder_gap rx s = s1 \<or> (\<exists>es. expire_reorder_gap rx s = s1\<lparr>us_reported := es\<rparr>)"
    using False d by (cases q) (auto simp: expire_reorder_gap_def)
  then show ?thesis
    using s1 session_inv_frame [OF s1(1), of "s1\<lparr>us_reported := es\<rparr>" for es] by (auto simp: wire_view_def)
qed

section \<open>Runs of a session\<close>

text \<open>
  Everything that can happen to a session: a datagram is routed to it, its worker takes one from the queue, the
  reorder timer fires, the owner sends audio, the grant expires, the owner closes it.
\<close>

datatype udp_event =
    Datagram_In bytes address
  | Worker_Turn udp_ctx
  | Gap_Timer
  | Send_Audio udp_ctx bytes int int
  | Grant_Expiry
  | Session_Close

fun udp_step :: "aead \<Rightarrow> receiver \<Rightarrow> udp_event \<Rightarrow> udp_session \<Rightarrow> udp_session" where
  "udp_step A rx (Datagram_In data addr) s = udp_enqueue data addr s"
| "udp_step A rx (Worker_Turn cx) s = udp_run_step A rx cx s"
| "udp_step A rx Gap_Timer s = (if us_reorder_timer s = TimerArmed then expire_reorder_gap rx s else s)"
| "udp_step A rx (Send_Audio cx payload ts g) s = snd (udp_send_audio A cx payload ts g s)"
| "udp_step A rx Grant_Expiry s = udp_session_expire s"
| "udp_step A rx Session_Close s = udp_session_close s"

definition udp_run :: "aead \<Rightarrow> receiver \<Rightarrow> udp_event list \<Rightarrow> udp_session \<Rightarrow> udp_session" where
  "udp_run A rx evs s = fold (udp_step A rx) evs s"

lemma passive_views:
  "audio_view (udp_enqueue data addr s) = audio_view s" "wire_view (udp_enqueue data addr s) = wire_view s"
  "audio_view (udp_session_close s) = audio_view s" "wire_view (udp_session_close s) = wire_view s"
  "audio_view (udp_session_expire s) = audio_view s" "wire_view (udp_session_expire s) = wire_view s"
  by (simp_all add: udp_enqueue_def udp_session_close_def udp_session_expire_def cancel_timer_def wire_view_def Let_def)

lemma udp_run_step_inv:
  assumes inv: "session_inv A g s"
  shows "session_inv A g (udp_run_step A rx cx s) \<and>
    (us_source s \<noteq> None \<longrightarrow> us_source (udp_run_step A rx cx s) = us_source s)"
proof (cases "us_worker s \<and> (\<exists>data addr q. us_queue s = Some (data, addr) # q)")
  case False
  then have "audio_view (udp_run_step A rx cx s) = audio_view s" "wire_view (udp_run_step A rx cx s) = wire_view s"
    by (auto simp: udp_run_step_def wire_view_def split: list.splits option.splits)
  then show ?thesis using session_inv_frame [OF inv] by (auto simp: wire_view_def)
next
  case True
  then obtain data addr q where q: "us_worker s" "us_queue s = Some (data, addr) # q" by blast
  obtain r s1 where h: "udp_handle A rx cx data addr (s\<lparr>us_queue := q\<rparr>) = (r, s1)" by fastforce
  have "session_inv A g (s\<lparr>us_queue := q\<rparr>)" using session_inv_frame [OF inv] by (simp add: wire_view_def)
  then have s1: "session_inv A g s1 \<and> (us_source s \<noteq> None \<longrightarrow> us_source s1 = us_source s)"
    using udp_handle_inv [OF _ h] by auto
  have eq: "udp_run_step A rx cx s =
      (case r of Inr _ \<Rightarrow> s1 | Inl e \<Rightarrow> s1\<lparr>us_reported := us_reported s1 @ [e], us_worker := False\<rparr>)"
    using q h by (cases r) (simp_all add: udp_run_step_def)
  show ?thesis
  proof (cases r)
    case (Inl e)
    have "session_inv A g (s1\<lparr>us_reported := us_reported s1 @ [e], us_worker := False\<rparr>)"
      using session_inv_frame [of A g s1] s1 by (simp add: wire_view_def)
    then show ?thesis using eq Inl s1 by simp
  qed (use eq s1 in simp)
qed

lemma udp_step_inv:
  assumes inv: "session_inv A g s"
  shows "session_inv A g (udp_step A rx ev s) \<and> (us_source s \<noteq> None \<longrightarrow> us_source (udp_step A rx ev s) = us_source s)"
proof (cases ev)
  case (Worker_Turn cx)
  then show ?thesis using udp_run_step_inv [OF inv, of rx cx] by simp
next
  case Gap_Timer
  then show ?thesis using inv expire_reorder_gap_inv [OF inv, of rx] by simp
next
  case (Send_Audio cx payload ts gen)
  have w: "wire_inv s" using inv by (simp add: session_inv_def)
  obtain r s1 where u: "udp_send A cx UDP_FLAG_AUDIO payload ts gen s = (r, s1)" by fastforce
  have "session_inv A g s1 \<and> us_source s1 = us_source s"
    using udp_send_wire [OF w u] inv audio_inv_view [of s1 s] settled_view [of s1 s] by (simp add: session_inv_def)
  then show ?thesis using Send_Audio inv u by (simp add: udp_send_audio_def)
qed (use session_inv_frame [OF inv passive_views(1,2)] session_inv_frame [OF inv passive_views(3,4)]
       session_inv_frame [OF inv passive_views(5,6)] passive_views(2,4,6) in \<open>auto simp: wire_view_def\<close>)

lemma udp_run_inv: "session_inv A g s \<Longrightarrow> session_inv A g (udp_run A rx evs s)"
  unfolding udp_run_def by (induction evs arbitrary: s) (simp_all add: udp_step_inv)

lemma udp_run_source: "session_inv A g s \<Longrightarrow> us_source s = Some a \<Longrightarrow> us_source (udp_run A rx evs s) = Some a"
  unfolding udp_run_def
proof (induction evs arbitrary: s)
  case (Cons ev evs)
  then show ?case using udp_step_inv [OF Cons.prems(1), of rx ev] by simp
qed simp

section \<open>Properties of a session\<close>


text \<open>
  C26. The downlink never reuses a nonce and never leaves its peer. In every run, all datagrams a session sends go to one
  and the same address, and two datagrams that carry the same sequence number, and hence the same AES-GCM nonce, are
  the same datagram: only the remembered probe acknowledgement is ever sent again.
\<close>

theorem udp_no_nonce_reuse:
  "let s = udp_run A rx evs (udp_session_init g n) in
    list_all (\<lambda>x. us_source s = Some (snd x)) (us_sent s) \<and>
    inj_on packet_sequence (set (map fst (us_sent s)))"
proof -
  have "wire_inv (udp_run A rx evs (udp_session_init g n))"
    using udp_run_inv [OF session_inv_init] unfolding session_inv_def by blast
  then show ?thesis unfolding wire_inv_def Let_def list_all_iff by (auto intro!: inj_onI)
qed

text \<open>
  A datagram that does not authenticate is inert: if its ciphertext does not decrypt under the session's uplink key
  with its header as associated data, handling it changes nothing but counters, so it cannot pin a source, move the
  replay window, spend a sequence number, occupy the reorder buffer or make the session answer.
\<close>

theorem udp_forged_inert:
  assumes forged: "\<And>u enc. udp_header_decode data = Inr (u, enc) \<Longrightarrow>
    aead_decrypt A (ug_uplink_key (us_grant s)) (ug_uplink_salt (us_grant s) @ be32 (uh_sequence u)) enc (take 32 data) = None"
  shows "\<exists>f. udp_handle A rx cx data addr s = (Inr (), us_stats_update f s)"
proof (cases "udp_header_decode data")
  case (Inl e)
  then show ?thesis by (auto simp: udp_handle_def)
next
  case (Inr d)
  obtain u enc where d: "d = (u, enc)" by fastforce
  have dec: "aead_decrypt A (ug_uplink_key (us_grant s)) (ug_uplink_salt (us_grant s) @ be32 (uh_sequence u)) enc
      (take UDP_HEADER_BYTES data) = None"
    using forged [of u enc] Inr d by (simp add: udp_consts)
  have two: "us_stats_update f (us_stats_update f' s) = us_stats_update (\<lambda>x. f (f' x)) s" for f f'
    by (simp add: comp_def)
  show ?thesis unfolding udp_handle_def Inr d sum.case prod.case Let_def
    by (simp add: dec two) blast
qed

lemma udp_send_ok:
  assumes "\<not> us_expired s" "cx_send_time cx < of_int (ug_expires_at (us_grant s))" "length payload \<le> UDP_MAX_PAYLOAD_BYTES"
    "us_source s = Some a" "cx_transport cx" "us_downlink_sequence s < 0xFFFFFFFF"
    and h: "h = \<lparr>uh_flags = flags, uh_media_id = ug_media_id (us_grant s), uh_media_epoch = ug_media_epoch (us_grant s),
      uh_sequence = us_downlink_sequence s, uh_timestamp = mask32 ts, uh_generation = g, uh_payload_length = int (length payload)\<rparr>"
    and aad: "udp_header_encode h = Some aad"
    and d: "d = aad @ aead_encrypt A (ug_downlink_key (us_grant s)) (ug_downlink_salt (us_grant s) @ be32 (us_downlink_sequence s)) payload aad"
      "length d \<le> UDP_MAX_DATAGRAM_BYTES"
  shows "\<exists>f p. udp_send A cx flags payload ts g s = (Inr (us_downlink_sequence s),
    us_stats_update f (s\<lparr>us_downlink_sequence := us_downlink_sequence s + 1, us_sent := us_sent s @ [(d, a)], us_probe_ack_datagram := p\<rparr>))"
proof -
  have e: "udp_header_encode \<lparr>uh_flags = flags, uh_media_id = ug_media_id (us_grant s), uh_media_epoch = ug_media_epoch (us_grant s),
      uh_sequence = us_downlink_sequence s, uh_timestamp = mask32 ts, uh_generation = g, uh_payload_length = int (length payload)\<rparr> = Some aad"
    using aad h by simp
  let ?f = "\<lambda>x. st_sent_update ((+) 1) ((if flags = UDP_FLAG_PROBE_ACK then st_probe_ack_sent_update ((+) 1) else id) x)"
  let ?p = "if flags = UDP_FLAG_PROBE_ACK \<and> us_probe_ack_datagram s = None then Some d else us_probe_ack_datagram s"
  show ?thesis
    by (rule exI [of _ ?f], rule exI [of _ ?p]) (use assms(1-6) d in \<open>auto simp: udp_send_def Let_def e comp_def\<close>)
qed

lemma buffer_next_probe:
  assumes "us_next_audio_sequence s = Some (uh_sequence h)" "us_reorder s = []" "uh_flags h \<noteq> UDP_FLAG_AUDIO"
  shows "buffer_media rx h payload s =
    (Inr (), s\<lparr>us_reorder := [], us_next_audio_sequence := Some (uh_sequence h + 1), us_reorder_timer := NoTimer\<rparr>)"
  using assms
  by (cases s) (simp add: buffer_media_def drain_reorder_def drain_loop.simps [where expected = "uh_sequence h"]
      drain_loop.simps [where expected = "uh_sequence h + 1"] drain_take_def hand_over_def drain_resume_def settle_timer_def
      udp_consts Let_def)

text \<open>
  The probe handshake opens the path: a fresh session that handles an authentic first probe, before its grant expires and
  with the socket up, pins the sender as its source, becomes ready, expects sequence 1 next and answers with exactly one
  datagram, a sealed probe acknowledgement with sequence 0 addressed to the sender.
\<close>

lemma probe_opens_path:
  assumes d: "udp_header_decode data = Inr (u, enc)" "uh_media_id u = ug_media_id g" "uh_media_epoch u = ug_media_epoch g"
      "uh_flags u = UDP_FLAG_PROBE" "uh_sequence u = 0"
    and p: "aead_decrypt A (ug_uplink_key g) (ug_uplink_salt g @ be32 0) enc (take 32 data) = Some []"
    and tag: "\<And>k nonce aad. length (aead_encrypt A k nonce [] aad) = 16"
    and live: "cx_time cx < of_int (ug_expires_at g)" "cx_send_time cx < of_int (ug_expires_at g)" "cx_transport cx"
  shows "\<exists>s' reply ack. udp_handle A rx cx data addr (udp_session_init g n) = (Inr (), s') \<and>
    us_source s' = Some addr \<and> us_ready s' \<and> us_next_audio_sequence s' = Some 1 \<and> us_sent s' = [(reply, addr)] \<and>
    ack = \<lparr>uh_flags = UDP_FLAG_PROBE_ACK, uh_media_id = ug_media_id g, uh_media_epoch = ug_media_epoch g,
      uh_sequence = 0, uh_timestamp = 0, uh_generation = 0, uh_payload_length = 0\<rparr> \<and>
    reply = header_wire (udp_struct ack) @ aead_encrypt A (ug_downlink_key g) (ug_downlink_salt g @ be32 0) [] (header_wire (udp_struct ack))"
proof -
  have v: "udp_header_valid u" "data = header_wire (udp_struct u) @ enc" "int (length enc) = uh_payload_length u + 16"
    using d(1) udp_header_decode_iff by blast+
  have len: "length data \<le> UDP_MAX_DATAGRAM_BYTES" using v by (simp add: udp_header_valid_def udp_consts)
  define ack where "ack = \<lparr>uh_flags = UDP_FLAG_PROBE_ACK, uh_media_id = ug_media_id g, uh_media_epoch = ug_media_epoch g,
    uh_sequence = 0, uh_timestamp = mask32 0, uh_generation = 0, uh_payload_length = int (length ([] :: bytes))\<rparr>"
  define aad where "aad = header_wire (udp_struct ack)"
  define enc' where "enc' = aead_encrypt A (ug_downlink_key g) (ug_downlink_salt g @ be32 0) [] aad"
  have av: "udp_header_valid ack"
    using v(1) d(2,3) by (simp add: ack_def udp_header_valid_def is_byte_def udp_consts is_uint32_def uint32_max_def mask32_mod)
  define s where "s = us_stats_update (st_authenticated_update ((+) 1)) (us_stats_update (st_authentication_attempted_update ((+) 1)) (udp_session_init g n))"
  define s2 where "s2 = us_stats_update (st_source_pinned_update ((+) 1))
    (s\<lparr>us_replay := the (replay_commit replay_init 0), us_source := Some addr\<rparr>)"
  have c: "commit_sequence 0 s = (Inr (), s\<lparr>us_replay := the (replay_commit replay_init 0)\<rparr>)"
    by (simp add: commit_sequence_def s_def udp_session_init_def replay_commit_def can_accept_def replay_init_def)
  have s2f: "\<not> us_expired s2" "us_grant s2 = g" "us_source s2 = Some addr" "us_downlink_sequence s2 = 0" "us_sent s2 = []"
    "us_reorder s2 = []" by (simp_all add: s2_def s_def udp_session_init_def)
  obtain f pd where u: "udp_send A cx UDP_FLAG_PROBE_ACK [] 0 0 s2 = (Inr 0,
      us_stats_update f (s2\<lparr>us_downlink_sequence := 1, us_sent := [(aad @ enc', addr)], us_probe_ack_datagram := pd\<rparr>))"
    using udp_send_ok [OF s2f(1) _ _ s2f(3) live(3), of "[]" ack UDP_FLAG_PROBE_ACK 0 0 aad "aad @ enc'" A]
      live(2) s2f udp_header_encode_valid [OF av] tag
    by (auto simp: ack_def aad_def enc'_def udp_consts)
  define s3 where "s3 = (us_stats_update f (s2\<lparr>us_downlink_sequence := 1, us_sent := [(aad @ enc', addr)],
    us_probe_ack_datagram := pd\<rparr>))\<lparr>us_next_audio_sequence := Some 0\<rparr>"
  have b: "buffer_media rx u [] s3 = (Inr (), s3\<lparr>us_reorder := [], us_next_audio_sequence := Some 1, us_reorder_timer := NoTimer\<rparr>)"
    using buffer_next_probe [of s3 u rx "[]"] d(4,5) s2f(6) by (auto simp: s3_def udp_consts)
  have not_rep: "\<not> repeated_initial_probe cx u addr (udp_session_init g n)" "can_accept replay_init 0"
    by (simp_all add: repeated_initial_probe_def udp_session_init_def can_accept_def replay_init_def)
  have f0: "us_grant (udp_session_init g n) = g" "\<not> us_expired (udp_session_init g n)" "us_replay (udp_session_init g n) = replay_init"
    "us_source s = None" "us_next_audio_sequence s = None" by (simp_all add: udp_session_init_def s_def)
  have pf: "uh_flags u \<in> {UDP_FLAG_AUDIO, UDP_FLAG_PROBE, UDP_FLAG_KEEPALIVE}" using d(4) by simp
  have h: "udp_handle A rx cx data addr (udp_session_init g n) = handle_probe A rx cx u [] addr s"
    unfolding udp_handle_def d(1) sum.case prod.case Let_def
    using len live(1) d p not_rep f0 pf by (simp add: s_def [symmetric] udp_consts)
  have "\<exists>s'. handle_probe A rx cx u [] addr s = (Inr (), s') \<and> us_source s' = Some addr \<and> us_ready s' \<and>
      us_next_audio_sequence s' = Some 1 \<and> us_sent s' = [(aad @ enc', addr)]"
    unfolding handle_probe_def Let_def using f0 d(5) c
    by (simp add: s2_def [symmetric] u s3_def [symmetric] b) (simp add: s3_def s2f)
  then show ?thesis using h by (auto simp: ack_def aad_def enc'_def mask32_mod)
qed

section \<open>Witnesses\<close>

text \<open>A toy cipher with a constant tag stands in for AES-GCM in the examples.\<close>

definition udp_demo_aead :: aead where
  "udp_demo_aead = \<lparr>aead_encrypt = (\<lambda>k nonce payload aad. payload @ replicate 16 0),
     aead_decrypt = (\<lambda>k nonce c aad. if drop (length c - 16) c = replicate 16 0 then Some (take (length c - 16) c) else None)\<rparr>"

definition udp_demo_grant :: udp_grant where
  "udp_demo_grant = \<lparr>ug_media_id = replicate 8 7, ug_media_epoch = 1, ug_uplink_key = [], ug_uplink_salt = [],
     ug_downlink_key = [], ug_downlink_salt = [], ug_host = ''h'', ug_port = 9, ug_expires_at = 100, ug_probe_timeout_ms = 1000\<rparr>"

definition udp_demo_header :: "int \<Rightarrow> int \<Rightarrow> nat \<Rightarrow> udp_packet_header" where
  "udp_demo_header flags n len = \<lparr>uh_flags = flags, uh_media_id = replicate 8 7, uh_media_epoch = 1, uh_sequence = n,
     uh_timestamp = 0, uh_generation = 0, uh_payload_length = int len\<rparr>"

definition udp_demo_packet :: "int \<Rightarrow> int \<Rightarrow> bytes \<Rightarrow> bytes \<Rightarrow> bytes" where
  "udp_demo_packet flags n payload tag = header_wire (udp_struct (udp_demo_header flags n (length payload))) @ payload @ tag"

definition udp_demo_ctx :: udp_ctx where
  "udp_demo_ctx = \<lparr>cx_time = 1, cx_send_time = 1, cx_monotonic = 1, cx_acknowledged_at = 1, cx_transport = True\<rparr>"

lemma udp_demo_decode:
  assumes "is_byte flags" "is_uint32 n" "length payload \<le> 1200" "length tag = 16"
  shows "udp_header_decode (udp_demo_packet flags n payload tag) = Inr (udp_demo_header flags n (length payload), payload @ tag)"
  unfolding udp_header_decode_iff
  using assms by (simp add: udp_demo_packet_def udp_demo_header_def udp_header_valid_def udp_consts is_uint32_def uint32_max_def)

theorem udp_forged_inert_witness:
  "\<exists>f. udp_handle udp_demo_aead (\<lambda>_. None) udp_demo_ctx (udp_demo_packet UDP_FLAG_PROBE 0 [] (replicate 16 1)) (''p'', 1)
    (udp_session_init udp_demo_grant 4) = (Inr (), us_stats_update f (udp_session_init udp_demo_grant 4))"
proof (rule udp_forged_inert)
  fix u enc assume d: "udp_header_decode (udp_demo_packet UDP_FLAG_PROBE 0 [] (replicate 16 1)) = Inr (u, enc)"
  have "udp_header_decode (udp_demo_packet UDP_FLAG_PROBE 0 [] (replicate 16 1)) = Inr (udp_demo_header UDP_FLAG_PROBE 0 0, replicate 16 1)"
    using udp_demo_decode [of UDP_FLAG_PROBE 0 "[]" "replicate 16 1"] by (simp add: is_byte_def is_uint32_def uint32_max_def udp_consts)
  then have "enc = replicate 16 1" using d by simp
  then show "aead_decrypt udp_demo_aead (ug_uplink_key (us_grant (udp_session_init udp_demo_grant 4)))
      (ug_uplink_salt (us_grant (udp_session_init udp_demo_grant 4)) @ be32 (uh_sequence u)) enc
      (take 32 (udp_demo_packet UDP_FLAG_PROBE 0 [] (replicate 16 1))) = None"
    by (simp add: udp_demo_aead_def numeral_eq_Suc)
qed
section \<open>When the audio callback suspends\<close>

text \<open>
  A session in the middle of a stream: packet 7 waits for 5 and 6, the reorder timer is armed, and packet 5 has just
  been put into the buffer.
\<close>

definition udp_demo_waiting :: udp_session where
  "udp_demo_waiting = (udp_session_init udp_demo_grant 4)\<lparr>us_ready := True, us_source := Some (''p'', 1),
     us_replay := \<lparr>rw_highest = 7, rw_bitmap = 5\<rparr>, us_next_audio_sequence := Some 5, us_reorder_timer := TimerArmed,
     us_reorder := [(7, (UDP_FLAG_AUDIO, [7], 0, 0)), (5, (UDP_FLAG_AUDIO, [5], 0, 0))]\<rparr>"

lemma udp_demo_take5:
  "drain_take (\<lambda>_. None) 5 udp_demo_waiting = Some (Inr (),
    udp_demo_waiting\<lparr>us_reorder := [(7, (UDP_FLAG_AUDIO, [7], 0, 0))], us_offered := [(5, [5], 0, 0)]\<rparr>)"
  by (simp add: drain_take_def hand_over_def udp_demo_waiting_def udp_session_init_def Let_def)

definition udp_demo_resumed :: udp_session where
  "udp_demo_resumed = udp_demo_waiting\<lparr>us_stats := udp_stats_zero\<lparr>st_lost := 2\<rparr>, us_reorder := [],
     us_next_audio_sequence := Some 6, us_reorder_timer := NoTimer, us_offered := [(5, [5], 0, 0), (7, [7], 0, 0)]\<rparr>"

lemma udp_demo_take7:
  "\<exists>s. drain_take (\<lambda>_. None) 7 (skip_gap (udp_demo_waiting\<lparr>us_reorder := [(7, (UDP_FLAG_AUDIO, [7], 0, 0))],
      us_offered := [(5, [5], 0, 0)]\<rparr>)) = Some (Inr (), s) \<and> settle_timer (drain_resume 5 s) = udp_demo_resumed"
  by (simp add: drain_take_def hand_over_def udp_demo_waiting_def udp_session_init_def skip_gap_def Let_def
      settle_timer_def drain_resume_def udp_demo_resumed_def udp_stats_zero_def)

lemma udp_demo_handle6:
  "\<exists>s. udp_handle udp_demo_aead (\<lambda>_. None) udp_demo_ctx (udp_demo_packet UDP_FLAG_AUDIO 6 [6] (replicate 16 0)) (''p'', 1)
      udp_demo_resumed = (Inr (), s) \<and> map fst (us_offered s) = [5, 7, 6]"
proof -
  let ?d = "udp_demo_packet UDP_FLAG_AUDIO 6 [6] (replicate 16 0)"
  have d: "udp_header_decode ?d = Inr (udp_demo_header UDP_FLAG_AUDIO 6 1, [6] @ replicate 16 0)"
    using udp_demo_decode [of UDP_FLAG_AUDIO 6 "[6]" "replicate 16 0"] by (simp add: is_byte_def is_uint32_def uint32_max_def udp_consts)
  have l: "length ?d \<le> UDP_MAX_DATAGRAM_BYTES" by (simp add: udp_demo_packet_def udp_consts)
  have acc: "can_accept \<lparr>rw_highest = 7, rw_bitmap = 5\<rparr> 6" by (simp add: can_accept_def udp_consts)
  show ?thesis
    unfolding udp_handle_def d sum.case prod.case
    using l acc
    by (simp add: udp_demo_resumed_def udp_demo_waiting_def udp_session_init_def udp_demo_ctx_def udp_demo_grant_def udp_demo_header_def
        udp_demo_aead_def repeated_initial_probe_def handle_media_def commit_sequence_def replay_commit_def buffer_media_def
        drain_reorder_def drain_loop.simps [where expected = 6] drain_loop.simps [where expected = 7] drain_take_def hand_over_def
        drain_resume_def settle_timer_def udp_consts Let_def)
qed


end
