(* ===== verification/Interruption.thy ===== *)
theory Interruption
  imports Rva_Prelude
begin

text \<open>
  The playback interruption policy of the worker, \<open>interruption.py\<close>: the finite command grammar and the coordinator
  that evaluates one transcript at a time and keeps only the newest. Text is a list of code points here; the parts of
  the Unicode database that \<open>re\<close> and \<open>str\<close> consult (white space, the lower case of a string) are parameters.
\<close>

section \<open>The policy\<close>

type_synonym codepoints = "nat list"

record unicode_db =
  ud_is_space :: "nat \<Rightarrow> bool"
  ud_lower :: "codepoints \<Rightarrow> codepoints"

record interruption_context =
  ix_transcript :: codepoints
  ix_is_final :: bool
  ix_playback_age_seconds :: real
  ix_candidate_age_seconds :: real
  ix_assistant_text :: codepoints
  ix_response_id :: string
  ix_generation :: int

datatype interruption_decision = Interrupt | Backchannel | EchoOrNoise | Ignore | Defer

record interruption_result =
  ir_decision :: interruption_decision
  ir_reason :: string
  ir_confidence :: real

definition should_interrupt :: "interruption_result \<Rightarrow> bool" where
  "should_interrupt r \<longleftrightarrow> ir_decision r = Interrupt"

definition PUNCTUATION :: codepoints where
  "PUNCTUATION =
    [0xff0c, 0x3002, 0xff01, 0xff1f, 0x3001, 0x2c, 0x2e, 0x21, 0x3f, 0xff1b, 0x3b, 0xff1a, 0x3a, 0xff08,
     0xff09, 0x28, 0x29, 0x3010, 0x3011, 0x5b, 0x5d, 0x22, 0x27, 0x201c, 0x201d, 0x2018, 0x2019]"

definition BACKCHANNELS :: "codepoints list" where
  "BACKCHANNELS = [
     [0x55ef], [0x55ef, 0x55ef], [0x54e6], [0x5662], [0x554a], [0x597d], [0x597d, 0x7684], [0x5bf9], [0x662f],
     [0x53ef, 0x4ee5], [0x884c], [0x77e5, 0x9053, 0x4e86], [0x7ee7, 0x7eed]
    ]"

definition INTERRUPT_COMMANDS :: "codepoints list" where
  "INTERRUPT_COMMANDS = [
     [0x505c], [0x505c, 0x6b62], [0x505c, 0x4e00, 0x4e0b], [0x6682, 0x505c], [0x7b49, 0x4e00, 0x4e0b],
     [0x7b49, 0x7b49], [0x5148, 0x505c, 0x4e00, 0x4e0b], [0x8bf7, 0x505c, 0x6b62],
     [0x8bf7, 0x505c, 0x4e00, 0x4e0b], [0x522b, 0x8bf4, 0x4e86], [0x5148, 0x522b, 0x8bf4, 0x4e86],
     [0x4e0d, 0x8981, 0x8bf4, 0x4e86], [0x53d6, 0x6d88], [0x53d6, 0x6d88, 0x56de, 0x7b54],
     [0x6253, 0x65ad, 0x4e00, 0x4e0b], [0x4e0d, 0x5bf9], [0x4e0d, 0x662f], [0x6211, 0x95ee, 0x7684, 0x662f],
     [0x6362, 0x4e00, 0x4e2a], [0x6eda, 0x5f00], [0x522b, 0x5435], [0x4e0d, 0x8981, 0x5435],
     [0x91cd, 0x65b0, 0x8bf4], [0x91cd, 0x6765]
    ]"

definition strip :: "(nat \<Rightarrow> bool) \<Rightarrow> codepoints \<Rightarrow> codepoints" where
  "strip space s = rev (dropWhile space (rev (dropWhile space s)))"

definition normalize_transcript :: "unicode_db \<Rightarrow> codepoints \<Rightarrow> codepoints" where
  "normalize_transcript U s =
    ud_lower U (strip (ud_is_space U) (filter (\<lambda>c. \<not> ud_is_space U c \<and> c \<notin> set PUNCTUATION) s))"

definition text_similarity :: "unicode_db \<Rightarrow> codepoints \<Rightarrow> codepoints \<Rightarrow> real" where
  "text_similarity U left right =
    (let l = remdups (normalize_transcript U left); r = remdups (normalize_transcript U right)
     in if l = [] \<or> r = [] then 0
        else real (length (filter (\<lambda>c. c \<in> set r) l)) / real (max 1 (min (length l) (length r))))"

definition decided :: "interruption_decision \<Rightarrow> string \<Rightarrow> real \<Rightarrow> interruption_result" where
  "decided d reason confidence = \<lparr>ir_decision = d, ir_reason = reason, ir_confidence = confidence\<rparr>"

definition policy_evaluate :: "unicode_db \<Rightarrow> bool \<Rightarrow> interruption_context \<Rightarrow> interruption_result" where
  "policy_evaluate U enabled cx =
    (if \<not> enabled then decided Ignore ''policy_disabled'' 1
     else
       let normalized = normalize_transcript U (ix_transcript cx)
       in if normalized = [] then decided Ignore ''empty_transcript'' 1
          else if normalized \<in> set BACKCHANNELS then decided Backchannel ''backchannel_phrase'' (95 / 100)
          else if normalized \<in> set INTERRUPT_COMMANDS then
            (if \<not> ix_is_final cx then decided Defer ''await_final_command'' (9 / 10)
             else decided Interrupt ''explicit_interrupt_phrase'' 1)
          else if \<not> ix_is_final cx then decided Defer ''await_final'' (1 / 2)
          else if ix_assistant_text cx \<noteq> [] \<and> text_similarity U normalized (ix_assistant_text cx) \<ge> 8 / 10
            then decided EchoOrNoise ''similar_to_assistant_text'' (8 / 10)
          else decided Ignore ''no_command_match'' 1)"

lemma commands_not_backchannels: "set INTERRUPT_COMMANDS \<inter> set BACKCHANNELS = {}"
  by (simp add: INTERRUPT_COMMANDS_def BACKCHANNELS_def)

lemma commands_not_empty: "[] \<notin> set INTERRUPT_COMMANDS"
  by (simp add: INTERRUPT_COMMANDS_def)


section \<open>The coordinator\<close>

text \<open>
  The task of the coordinator: none, one that is about to look at the newest candidate, one that waits for the policy
  or for the interruption to be carried out, or one that has ended. \<open>ic_interrupts\<close> records the calls of the sink and
  \<open>ic_evaluated\<close> the candidates whose evaluation was started, both by revision.
\<close>

datatype coordinator_task =
    NoTask
  | Looping
  | Evaluating int interruption_context
  | Interrupting int interruption_context
  | TaskDone

record interruption_coordinator =
  ic_revision :: int
  ic_latest :: "(int \<times> interruption_context) option"
  ic_task :: coordinator_task
  ic_closed :: bool
  ic_evaluated :: "int list"
  ic_interrupts :: "int list"

definition interruption_init :: interruption_coordinator where
  "interruption_init = \<lparr>ic_revision = 0, ic_latest = None, ic_task = NoTask, ic_closed = False, ic_evaluated = [],
     ic_interrupts = []\<rparr>"

definition interruption_submit :: "interruption_context \<Rightarrow> interruption_coordinator \<Rightarrow> interruption_coordinator" where
  "interruption_submit cx s =
    (if ic_closed s then s
     else
       let s1 = s\<lparr>ic_revision := ic_revision s + 1, ic_latest := Some (ic_revision s + 1, cx)\<rparr>
       in if ic_task s1 = NoTask \<or> ic_task s1 = TaskDone then s1\<lparr>ic_task := Looping\<rparr> else s1)"

definition interruption_close :: "interruption_coordinator \<Rightarrow> interruption_coordinator" where
  "interruption_close s = s\<lparr>ic_closed := True, ic_latest := None, ic_task := NoTask\<rparr>"

text \<open>The head of the loop of \<open>_run\<close>, what follows the policy's answer, and what follows the sink.\<close>

definition run_head :: "interruption_coordinator \<Rightarrow> interruption_coordinator" where
  "run_head s = (if ic_task s \<noteq> Looping then s
     else case ic_latest s of
         None \<Rightarrow> s\<lparr>ic_task := TaskDone\<rparr>
       | Some (revision, cx) \<Rightarrow> s\<lparr>ic_latest := None, ic_task := Evaluating revision cx, ic_evaluated := ic_evaluated s @ [revision]\<rparr>)"

definition run_answered :: "interruption_result \<Rightarrow> interruption_coordinator \<Rightarrow> interruption_coordinator" where
  "run_answered result s = (case ic_task s of
      Evaluating revision cx \<Rightarrow>
        if (case ic_latest s of None \<Rightarrow> False | Some (r, _) \<Rightarrow> r > revision) then s\<lparr>ic_task := Looping\<rparr>
        else if should_interrupt result
          then s\<lparr>ic_task := Interrupting revision cx, ic_interrupts := ic_interrupts s @ [revision]\<rparr>
        else s\<lparr>ic_task := Looping\<rparr>
    | _ \<Rightarrow> s)"

definition run_interrupted :: "interruption_coordinator \<Rightarrow> interruption_coordinator" where
  "run_interrupted s = (case ic_task s of Interrupting _ _ \<Rightarrow> s\<lparr>ic_task := Looping\<rparr> | _ \<Rightarrow> s)"

datatype interruption_event = Submit interruption_context | Head | Answered interruption_result | Interrupted | Close_Coordinator

fun interruption_step :: "interruption_event \<Rightarrow> interruption_coordinator \<Rightarrow> interruption_coordinator" where
  "interruption_step (Submit cx) s = interruption_submit cx s"
| "interruption_step Head s = run_head s"
| "interruption_step (Answered r) s = run_answered r s"
| "interruption_step Interrupted s = run_interrupted s"
| "interruption_step Close_Coordinator s = interruption_close s"

text \<open>
  The newest candidate is either waiting, being evaluated, or evaluated already; revisions are evaluated in
  increasing order, and only evaluated ones reach the sink, each at most once.
\<close>

definition interruption_inv :: "interruption_coordinator \<Rightarrow> bool" where
  "interruption_inv s \<longleftrightarrow> 0 \<le> ic_revision s \<and>
     sorted_wrt (<) (ic_evaluated s @ (case ic_latest s of None \<Rightarrow> [] | Some (r, _) \<Rightarrow> [r])) \<and>
     list_all (\<lambda>r. 1 \<le> r \<and> r \<le> ic_revision s) (ic_evaluated s) \<and>
     (\<forall>r cx. ic_latest s = Some (r, cx) \<longrightarrow> r = ic_revision s \<and> 1 \<le> r) \<and>
     (ic_latest s \<noteq> None \<longrightarrow> ic_task s \<noteq> NoTask \<and> ic_task s \<noteq> TaskDone) \<and>
     (ic_latest s = None \<longrightarrow> ic_closed s \<or> last (0 # ic_evaluated s) = ic_revision s) \<and>
     (\<forall>r cx. ic_task s = Evaluating r cx \<longrightarrow> ic_evaluated s \<noteq> [] \<and> last (ic_evaluated s) = r \<and> r \<notin> set (ic_interrupts s)) \<and>
     sorted_wrt (<) (ic_interrupts s) \<and> set (ic_interrupts s) \<subseteq> set (ic_evaluated s)"

lemma interruption_init_inv: "interruption_inv interruption_init"
  by (simp add: interruption_inv_def interruption_init_def)

lemma sorted_below_last: "sorted_wrt (<) (xs :: int list) \<Longrightarrow> x \<in> set xs \<Longrightarrow> x \<noteq> last xs \<Longrightarrow> x < last xs"
  by (induction xs rule: rev_induct) (auto simp: sorted_wrt_append)

lemma submit_inv:
  assumes "interruption_inv s"
  shows "interruption_inv (interruption_submit cx s)"
proof (cases "ic_closed s")
  case False
  have "sorted_wrt (<) (ic_evaluated s @ [ic_revision s + 1])"
    using assms by (auto simp: interruption_inv_def sorted_wrt_append list_all_iff split: option.splits)
  moreover have "list_all (\<lambda>r. 1 \<le> r \<and> r \<le> ic_revision s + 1) (ic_evaluated s)"
    using assms by (auto simp: interruption_inv_def list_all_iff)
  moreover define t where "t = (if ic_task s = NoTask \<or> ic_task s = TaskDone then Looping else ic_task s)"
  moreover have "interruption_submit cx s =
      s\<lparr>ic_revision := ic_revision s + 1, ic_latest := Some (ic_revision s + 1, cx), ic_task := t\<rparr>"
    using False by (simp add: interruption_submit_def t_def Let_def)
  ultimately show ?thesis
    using assms by (auto simp: interruption_inv_def t_def)
qed (use assms in \<open>simp add: interruption_submit_def\<close>)

lemma head_inv:
  assumes "interruption_inv s"
  shows "interruption_inv (run_head s)"
proof (cases "ic_task s = Looping")
  case True
  show ?thesis
  proof (cases "ic_latest s")
    case None
    then show ?thesis using assms True by (simp add: interruption_inv_def run_head_def)
  next
    case (Some l)
    obtain r cx where l: "l = (r, cx)" by fastforce
    have r: "r = ic_revision s" "r \<notin> set (ic_evaluated s)" "sorted_wrt (<) (ic_evaluated s @ [r])"
      using assms Some l by (auto simp: interruption_inv_def sorted_wrt_append)
    have "1 \<le> r" using assms Some l by (simp add: interruption_inv_def)
    then show ?thesis
      using assms Some l True r by (auto simp: interruption_inv_def run_head_def)
  qed
qed (use assms in \<open>simp add: run_head_def\<close>)

lemma answered_inv:
  assumes "interruption_inv s"
  shows "interruption_inv (run_answered result s)"
proof (cases "\<exists>r cx. ic_task s = Evaluating r cx")
  case True
  then obtain r cx where t: "ic_task s = Evaluating r cx" by blast
  have r: "ic_evaluated s \<noteq> []" "last (ic_evaluated s) = r" "r \<notin> set (ic_interrupts s)" "sorted_wrt (<) (ic_evaluated s)"
    "set (ic_interrupts s) \<subseteq> set (ic_evaluated s)" "sorted_wrt (<) (ic_interrupts s)"
    using assms t by (simp_all add: interruption_inv_def sorted_wrt_append)
  have "x < r" if "x \<in> set (ic_interrupts s)" for x
    using sorted_below_last [OF r(4), of x] r that by blast
  then have srt: "sorted_wrt (<) (ic_interrupts s @ [r])" using r(6) by (simp add: sorted_wrt_append)
  have mem: "r \<in> set (ic_evaluated s)" using r by auto
  let ?s = "s\<lparr>ic_task := Interrupting r cx, ic_interrupts := ic_interrupts s @ [r]\<rparr>"
  have "interruption_inv (s\<lparr>ic_task := Looping\<rparr>)" using assms t by (auto simp: interruption_inv_def)
  moreover have "interruption_inv ?s" using assms t srt mem by (auto simp: interruption_inv_def)
  moreover have "run_answered result s = s\<lparr>ic_task := Looping\<rparr> \<or> run_answered result s = ?s"
    using t by (simp add: run_answered_def)
  ultimately show ?thesis by auto
next
  case False
  then have "run_answered result s = s" by (cases "ic_task s") (simp_all add: run_answered_def)
  then show ?thesis using assms by simp
qed

lemma interrupted_inv: "interruption_inv s \<Longrightarrow> interruption_inv (run_interrupted s)"
  by (cases "ic_task s") (auto simp: run_interrupted_def interruption_inv_def)

lemma close_inv: "interruption_inv s \<Longrightarrow> interruption_inv (interruption_close s)"
  by (auto simp: interruption_inv_def interruption_close_def sorted_wrt_append)

lemma interruption_step_inv: "interruption_inv s \<Longrightarrow> interruption_inv (interruption_step ev s)"
  by (cases ev) (simp_all add: submit_inv head_inv answered_inv interrupted_inv close_inv)

lemma interruption_run_inv: "interruption_inv s \<Longrightarrow> interruption_inv (fold interruption_step evs s)"
  by (induction evs arbitrary: s) (simp_all add: interruption_step_inv)

lemma closed_step:
  "ic_closed s \<Longrightarrow> ic_task s = NoTask \<Longrightarrow> ic_closed (interruption_step ev s) \<and> ic_task (interruption_step ev s) = NoTask \<and>
    ic_interrupts (interruption_step ev s) = ic_interrupts s"
  by (cases ev) (simp_all add: interruption_submit_def run_head_def run_answered_def run_interrupted_def interruption_close_def)

lemma closed_run:
  "ic_closed s \<Longrightarrow> ic_task s = NoTask \<Longrightarrow> ic_interrupts (fold interruption_step evs s) = ic_interrupts s"
proof (induction evs arbitrary: s)
  case (Cons ev evs)
  then show ?case using closed_step [of s ev] by simp
qed simp

text \<open>
  The coordinator neither loses the newest candidate nor acts twice. In every run, the candidates that cause an
  interruption are distinct and in the order of their submission, each of them was evaluated; when its task is idle
  and the coordinator is open, the last candidate submitted has been evaluated; and after a close no further
  interruption happens, whatever the policy answers later.
\<close>

theorem newest_candidate_kept:
  "let s = fold interruption_step evs interruption_init in
    sorted_wrt (<) (ic_interrupts s) \<and> set (ic_interrupts s) \<subseteq> set (ic_evaluated s) \<and>
    (if ic_task s \<in> {NoTask, TaskDone} then ic_closed s \<or> last (0 # ic_evaluated s) = ic_revision s else True) \<and>
    ic_interrupts (fold interruption_step later (interruption_close s)) = ic_interrupts s"
proof -
  define s where "s = fold interruption_step evs interruption_init"
  have inv: "interruption_inv s" using interruption_run_inv [OF interruption_init_inv] by (simp add: s_def)
  have "ic_interrupts (fold interruption_step later (interruption_close s)) = ic_interrupts s"
    using closed_run [of "interruption_close s" later] by (simp add: interruption_close_def)
  moreover have "ic_task s \<in> {NoTask, TaskDone} \<Longrightarrow> ic_latest s = None" using inv by (auto simp: interruption_inv_def)
  moreover have "sorted_wrt (<) (ic_interrupts s)" "set (ic_interrupts s) \<subseteq> set (ic_evaluated s)"
    "ic_latest s = None \<Longrightarrow> ic_closed s \<or> last (0 # ic_evaluated s) = ic_revision s"
    using inv unfolding interruption_inv_def by blast+
  ultimately show ?thesis unfolding s_def [symmetric] Let_def by (simp del: last.simps)
qed

end
