(* ===== verification/Rva_Runtime.thy ===== *)
theory Rva_Runtime
  imports Uplink_Queue Udp_Gateway Interruption
begin

text \<open>
  The connection of \<open>bindings/rva/runtime.py\<close>, which owns one session: how the output of the agent becomes responses,
  text and media, how transcripts and interruptions reach the wire, the watchdog on the client's playback, and how the
  exceptions of its tasks become a close code. Every operation is a section of the code between two suspensions;
  the wire and the runner are parameters, and the calls of the runner are recorded.
\<close>

section \<open>Exceptions and close causes\<close>

datatype runtime_exn =
    WebSocketDisconnect
  | HandshakeTimeout
  | ControlTimeout
  | MediaSendTimeout
  | RuntimeStartTimeout
  | AgentRuntimeFailed
  | PlaybackTerminalTimeout
  | UdpProbeTimeout
  | UdpGrantExpired
  | MessageTooLarge
  | RuntimeOverloaded overload
  | IdleTimeout
  | MediaDecodeFailed
  | BindingFailure string
  | OtherFailure string

definition exn_of_binding :: "binding_error \<Rightarrow> runtime_exn" where
  "exn_of_binding e = (case e of RvaBindingError code \<Rightarrow> BindingFailure code | RvaMessageTooLarge \<Rightarrow> MessageTooLarge
     | _ \<Rightarrow> OtherFailure ''uncaught'')"

definition exn_of_udp :: "udp_exn \<Rightarrow> runtime_exn" where
  "exn_of_udp e = (case e of UdpGrantExpiredError \<Rightarrow> UdpGrantExpired | _ \<Rightarrow> OtherFailure ''udp'')"

definition exn_of_uplink :: "uplink_error \<Rightarrow> runtime_exn" where
  "exn_of_uplink e = (case e of MediaTimestampError \<Rightarrow> BindingFailure ''invalid_media_timestamp''
     | Overloaded ov \<Rightarrow> RuntimeOverloaded ov | AudioInputClosed \<Rightarrow> OtherFailure ''audio input is closed'')"

text \<open>The \<open>except\<close> clauses of \<open>run\<close>, in their order; \<open>None\<close> is a run that ends without an exception.\<close>

definition close_cause :: "runtime_exn option \<Rightarrow> int \<times> string" where
  "close_cause e = (case e of
      None \<Rightarrow> (1000, ''normal'')
    | Some WebSocketDisconnect \<Rightarrow> (1000, ''normal'')
    | Some HandshakeTimeout \<Rightarrow> (1008, ''handshake_timeout'')
    | Some ControlTimeout \<Rightarrow> (1011, ''control_timeout'')
    | Some MediaSendTimeout \<Rightarrow> (1011, ''media_send_timeout'')
    | Some RuntimeStartTimeout \<Rightarrow> (1011, ''runtime_start_timeout'')
    | Some AgentRuntimeFailed \<Rightarrow> (1011, ''runtime_failure'')
    | Some PlaybackTerminalTimeout \<Rightarrow> (1011, ''playback_terminal_timeout'')
    | Some UdpProbeTimeout \<Rightarrow> (1008, ''udp_probe_timeout'')
    | Some UdpGrantExpired \<Rightarrow> (1000, ''udp_grant_expired'')
    | Some MessageTooLarge \<Rightarrow> (1009, ''message_too_large'')
    | Some (RuntimeOverloaded _) \<Rightarrow> (1013, ''media_overloaded'')
    | Some IdleTimeout \<Rightarrow> (1000, ''idle_timeout'')
    | Some MediaDecodeFailed \<Rightarrow> (1011, ''media_decode_failed'')
    | Some (BindingFailure _) \<Rightarrow> (1002, ''protocol_error'')
    | Some (OtherFailure _) \<Rightarrow> (1011, ''runtime_failure''))"

section \<open>State\<close>

datatype runner_call = SetResponseGate bool | RunnerPlaybackStarted | RunnerPlaybackFinished real bool

text \<open>An agent output segment: its epoch and how many 20 ms frames it has.\<close>

record segment =
  sg_producer_epoch :: int
  sg_frames :: nat

text \<open>The items of the segment queue; the control queue holds the events of \<open>cn_output\<close>.\<close>

datatype outbound = OutSegment segment "string option" | OutResponseEnd int

record connection =
  cn_limits :: runtime_limits
  cn_binding :: binding
  cn_udp :: "udp_session option"
  cn_uplink :: uplink
  cn_interruption :: "interruption_coordinator option"
  cn_runner :: bool
  cn_runner_calls :: "runner_call list"
  cn_closed :: bool
  cn_failures :: "runtime_exn list"
  cn_output :: "wire_text list"
  cn_sent :: "wire_text list"
  cn_media_sent :: "bytes list"
  cn_minimum_producer_epoch :: int
  cn_active_producer_epoch :: "int option"
  cn_generation_changed :: bool
  cn_response_sequence :: nat
  cn_utterance_sequence :: nat
  cn_active_utterance_id :: "string option"
  cn_transcript_sequence :: int
  cn_pending_assistant_text :: "string option"
  cn_assistant_text_sent :: string
  cn_active_assistant_text :: string
  cn_response_text_sequence :: int
  cn_playback_started_at :: "real option"
  cn_interrupt_candidate_started_at :: "real option"
  cn_watchdog_target :: "(string \<times> int) option"
  cn_primary_close_cause :: "(int \<times> string) option"
  cn_interrupt_tasks :: "nat list"
  cn_downlink_timestamp :: int
  cn_downlink_packets :: int
  cn_udp_uplink_sequence :: int
  cn_udp_input_packets :: int
  cn_last_activity :: real
  cn_last_udp_authenticated :: int
  cn_segments :: "outbound list"
  cn_wss_input_packets :: int
  cn_input_pcm_sequence :: int
  cn_decoded_pcm_frames :: int
  cn_invalid_opus_packets :: int
  cn_consecutive_invalid_opus_packets :: int
  cn_runner_push_frames :: int
  cn_overload :: "overload option"
  cn_close_code :: "(int \<times> string) option"

type_synonym 'a runtime_op = "(runtime_exn, 'a, connection) op_result"

text \<open>
  The constructor. The grant of the UDP session supplies the media identity of the binding, so the binding is built
  by the caller from \<open>rva_udp_grant\<close> and handed in.
\<close>

definition connection_init ::
    "runtime_limits \<Rightarrow> binding \<Rightarrow> udp_session option \<Rightarrow> bool \<Rightarrow> real \<Rightarrow> connection" where
  "connection_init limits b udp interruption now =
    \<lparr>cn_limits = limits, cn_binding = b, cn_udp = udp, cn_uplink = uplink_init,
     cn_interruption = (if interruption then Some interruption_init else None), cn_runner = False, cn_runner_calls = [],
     cn_closed = False, cn_failures = [], cn_output = [], cn_sent = [], cn_media_sent = [],
     cn_minimum_producer_epoch = 1, cn_active_producer_epoch = None, cn_generation_changed = False,
     cn_response_sequence = 0, cn_utterance_sequence = 0, cn_active_utterance_id = None, cn_transcript_sequence = 0,
     cn_pending_assistant_text = None, cn_assistant_text_sent = [], cn_active_assistant_text = [],
     cn_response_text_sequence = 0, cn_playback_started_at = None, cn_interrupt_candidate_started_at = None,
     cn_watchdog_target = None, cn_primary_close_cause = None, cn_interrupt_tasks = [], cn_downlink_timestamp = 0,
     cn_downlink_packets = 0, cn_udp_uplink_sequence = 0, cn_udp_input_packets = 0, cn_last_activity = now,
     cn_last_udp_authenticated = 0, cn_segments = [], cn_wss_input_packets = 0, cn_input_pcm_sequence = 0,
     cn_decoded_pcm_frames = 0, cn_invalid_opus_packets = 0, cn_consecutive_invalid_opus_packets = 0,
     cn_runner_push_frames = 0, cn_overload = None, cn_close_code = None\<rparr>"

text \<open>The failure queue holds one exception: the first one counts.\<close>

definition report_failure :: "runtime_exn \<Rightarrow> connection \<Rightarrow> connection" where
  "report_failure e s = (if cn_failures s = [] then s\<lparr>cn_failures := [e]\<rparr> else s)"

text \<open>An operation whose exception is reported.\<close>

definition reported :: "'a runtime_op \<Rightarrow> connection" where
  "reported m = (case m of (Inl e, s) \<Rightarrow> report_failure e s | (Inr _, s) \<Rightarrow> s)"

definition on_binding :: "'a binding_op \<Rightarrow> connection \<Rightarrow> 'a runtime_op" where
  "on_binding m s = (case m of (Inl e, b) \<Rightarrow> (Inl (exn_of_binding e), s\<lparr>cn_binding := b\<rparr>)
     | (Inr a, b) \<Rightarrow> (Inr a, s\<lparr>cn_binding := b\<rparr>))"

section \<open>Control output\<close>

text \<open>
  \<open>_send_control_serialized\<close> returns once the writer has acknowledged the event, so everything queued before it has
  been sent as well; \<open>wire\<close> tells which histories of control events run into a timeout or a full queue.
\<close>

type_synonym wire = "wire_text list \<Rightarrow> runtime_exn option"

definition send_control :: "wire \<Rightarrow> wire_text \<Rightarrow> connection \<Rightarrow> unit runtime_op" where
  "send_control wire ev s = (case wire (cn_sent s @ cn_output s @ [ev]) of
      Some e \<Rightarrow> (Inl e, s)
    | None \<Rightarrow> (Inr (), s\<lparr>cn_sent := cn_sent s @ cn_output s @ [ev], cn_output := []\<rparr>))"

definition enqueue_nowait :: "wire_text \<Rightarrow> connection \<Rightarrow> unit runtime_op" where
  "enqueue_nowait ev s =
    (if int (length (cn_output s)) \<ge> rl_output_queue_items (cn_limits s)
     then (Inl (RuntimeOverloaded \<lparr>ov_source = ''control_output'', ov_qsize = int (length (cn_output s)),
            ov_capacity = rl_output_queue_items (cn_limits s), ov_media_age_ms = -1, ov_dropped_packets = 0,
            ov_fresh_packet_available = None\<rparr>), s)
     else (Inr (), s\<lparr>cn_output := cn_output s @ [ev]\<rparr>))"

text \<open>The session error sent before a close swallows every exception.\<close>

definition send_session_error_best_effort :: "wire \<Rightarrow> string \<Rightarrow> string \<Rightarrow> connection \<Rightarrow> connection" where
  "send_session_error_best_effort wire code message s =
    snd (bind_op (on_binding (session_error code True (JStr message) (cn_binding s)) s) (\<lambda>ev s. send_control wire ev s))"

section \<open>The end of a run\<close>

text \<open>The first \<open>close\<close> fixes the code; later calls wait for the same task.\<close>

definition connection_close :: "int \<times> string \<Rightarrow> connection \<Rightarrow> connection" where
  "connection_close cause s =
    (if cn_close_code s = None then s\<lparr>cn_closed := True, cn_close_code := Some cause\<rparr> else s)"

text \<open>
  The \<open>except\<close> and \<open>finally\<close> clauses of a run that ends with \<open>e\<close>: an overload of the uplink is announced to the
  client, and a cause that was recorded earlier wins.
\<close>

definition finish_run :: "wire \<Rightarrow> runtime_exn option \<Rightarrow> connection \<Rightarrow> connection" where
  "finish_run wire e s =
    (let s1 = (case e of
           Some (RuntimeOverloaded ov) \<Rightarrow>
             let s0 = s\<lparr>cn_overload := Some ov\<rparr>
             in if ov_source ov \<in> {''opus_input_stale'', ''opus_input_backpressure''}
                then send_session_error_best_effort wire ''media_overloaded'' ''Media freshness budget exceeded; reconnect required''
                       (s0\<lparr>cn_primary_close_cause := Some (1013, ''media_overloaded'')\<rparr>)
                else s0
         | _ \<Rightarrow> s)
     in connection_close (case cn_primary_close_cause s1 of None \<Rightarrow> close_cause e | Some c \<Rightarrow> c) s1)"

text \<open>\<open>_runner_terminal_loop\<close> when the runner ends by itself, and when its owner closed it.\<close>

definition runner_terminal :: "wire \<Rightarrow> bool \<Rightarrow> connection \<Rightarrow> unit runtime_op" where
  "runner_terminal wire owner_closed s =
    (if owner_closed then (Inr (), s)
     else (Inl AgentRuntimeFailed, send_session_error_best_effort wire ''agent_runtime_failed''
             ''Agent runtime terminated; reconnect required''
             (s\<lparr>cn_primary_close_cause := Some (1011, ''runtime_failure'')\<rparr>)))"

text \<open>\<open>_receive_first_control\<close>: what the first frame is.\<close>

datatype frame = Disconnected | TextFrame wire_text | BinaryFrame bytes | OtherFrame

definition receive_first_control :: "frame option \<Rightarrow> runtime_exn + wire_text" where
  "receive_first_control f = (case f of
      None \<Rightarrow> Inl HandshakeTimeout
    | Some Disconnected \<Rightarrow> Inl WebSocketDisconnect
    | Some (TextFrame t) \<Rightarrow> Inr t
    | Some _ \<Rightarrow> Inl (BindingFailure ''first_frame_must_be_session_open''))"

section \<open>Identifiers\<close>

text \<open>\<open>f"{n:08d}"\<close>.\<close>

fun dec :: "nat \<Rightarrow> string" where
  "dec n = (if n < 10 then [char_of (48 + n)] else dec (n div 10) @ [char_of (48 + n mod 10)])"

declare dec.simps [simp del]

definition pad8 :: "nat \<Rightarrow> string" where
  "pad8 n = replicate (8 - length (dec n)) CHR ''0'' @ dec n"

definition utterance_id :: "nat \<Rightarrow> string" where "utterance_id n = ''utt-'' @ pad8 n"
definition response_id_of :: "nat \<Rightarrow> string" where "response_id_of n = ''resp-'' @ pad8 n"

section \<open>Assistant text\<close>

definition emit_assistant_text :: "string \<Rightarrow> connection \<Rightarrow> connection" where
  "emit_assistant_text txt s =
    (if \<not> cn_closed s \<and> txt \<noteq> [] then s\<lparr>cn_pending_assistant_text := Some txt\<rparr> else s)"

definition text_delta :: "string \<Rightarrow> string \<Rightarrow> string" where
  "text_delta sent current = (if take (length sent) current = sent then drop (length sent) current else current)"

definition send_pending_assistant_text :: "wire \<Rightarrow> nat \<Rightarrow> connection \<Rightarrow> unit runtime_op" where
  "send_pending_assistant_text wire r s = (case cn_pending_assistant_text s of
      None \<Rightarrow> (Inr (), s)
    | Some current \<Rightarrow>
        if current = [] \<or> active_response (cn_binding s) \<noteq> Some r then (Inr (), s)
        else
          let delta = text_delta (cn_assistant_text_sent s) current;
              s1 = s\<lparr>cn_pending_assistant_text := None, cn_assistant_text_sent := current\<rparr>
          in if delta = [] then (Inr (), s1)
             else bind_op (on_binding (response_text r (cn_response_text_sequence s1) (JStr delta) (cn_binding s1)) s1) (\<lambda>ev s2.
                    send_control wire ev (s2\<lparr>cn_response_text_sequence := cn_response_text_sequence s2 + 1\<rparr>)))"

section \<open>Segments\<close>

definition segment_refused :: "segment \<Rightarrow> connection \<Rightarrow> bool" where
  "segment_refused sg s \<longleftrightarrow> cn_closed s \<or> sg_producer_epoch sg < cn_minimum_producer_epoch s \<or> sg_frames sg = 0"

text \<open>
  The segment queue. A \<open>put\<close> on a full queue waits: it is this call at the later moment at which there is room, or
  the error once the timeout has passed.
\<close>

definition enqueue_segment :: "outbound \<Rightarrow> connection \<Rightarrow> unit runtime_op" where
  "enqueue_segment item s =
    (if int (length (cn_segments s)) \<ge> rl_output_queue_items (cn_limits s)
     then (Inl (RuntimeOverloaded \<lparr>ov_source = ''segment_output'', ov_qsize = int (length (cn_segments s)),
            ov_capacity = rl_output_queue_items (cn_limits s), ov_media_age_ms = -1, ov_dropped_packets = 0,
            ov_fresh_packet_available = None\<rparr>), s)
     else (Inr (), s\<lparr>cn_segments := cn_segments s @ [item]\<rparr>))"

definition emit_segment :: "segment \<Rightarrow> connection \<Rightarrow> unit runtime_op" where
  "emit_segment sg s =
    (if segment_refused sg s then (Inr (), s)
     else if int (sg_frames sg) > rl_max_segment_frames (cn_limits s) then
       let e = RuntimeOverloaded \<lparr>ov_source = ''agent_output_segment'', ov_qsize = int (sg_frames sg),
             ov_capacity = rl_max_segment_frames (cn_limits s), ov_media_age_ms = -1, ov_dropped_packets = 0,
             ov_fresh_packet_available = None\<rparr>
       in (Inl e, report_failure e s)
     else
       case enqueue_segment (OutSegment sg (cn_pending_assistant_text s)) (s\<lparr>cn_pending_assistant_text := None\<rparr>) of
         (Inl e, s1) \<Rightarrow> (Inl e, report_failure e s1)
       | (Inr _, s1) \<Rightarrow> (Inr (), s1))"

text \<open>\<open>_request_response_end\<close> with the task it starts, whose exception \<open>_on_aux_done\<close> reports.\<close>

definition request_response_end :: "int \<Rightarrow> connection \<Rightarrow> connection" where
  "request_response_end producer_epoch s =
    (if cn_closed s then s
     else case enqueue_segment (OutResponseEnd producer_epoch) s of
         (Inl e, s1) \<Rightarrow> report_failure e s1
       | (Inr _, s1) \<Rightarrow> s1)"

definition or_text :: "string option \<Rightarrow> string option \<Rightarrow> string option" where
  "or_text a b = (case a of Some t \<Rightarrow> if t = [] then b else a | None \<Rightarrow> b)"

text \<open>
  \<open>_send_segment\<close> up to its first suspension: the record the packets belong to and the event that announces it, or
  \<open>None\<close> for a segment that is skipped.
\<close>

definition begin_segment :: "segment \<Rightarrow> connection \<Rightarrow> (nat \<times> wire_text option) option runtime_op" where
  "begin_segment sg s =
    (if segment_refused sg s then (Inr None, s)
     else
       let s0 = (if active_response (cn_binding s) = None then s\<lparr>cn_response_sequence := cn_response_sequence s + 1\<rparr> else s);
           response_id = (case active_response (cn_binding s0) of
               None \<Rightarrow> response_id_of (cn_response_sequence s0)
             | Some r \<Rightarrow> rr_response_id (rec_at (rb_responses (cn_binding s0)) r))
       in bind_op (on_binding (binding_response_begin response_id (sg_producer_epoch sg) (cn_binding s0)) s0) (\<lambda>begun s1.
            (Inr (Some begun), if snd begun \<noteq> None \<and> cn_runner s1
               then s1\<lparr>cn_runner_calls := cn_runner_calls s1 @ [SetResponseGate True]\<rparr> else s1)))"

text \<open>After the announcement was acknowledged.\<close>

definition response_announced :: "connection \<Rightarrow> connection" where
  "response_announced s = s\<lparr>cn_assistant_text_sent := [], cn_active_assistant_text := [], cn_response_text_sequence := 0\<rparr>"

text \<open>The text that goes with the segment, before the loop.\<close>

definition segment_text :: "wire \<Rightarrow> segment \<Rightarrow> string option \<Rightarrow> nat \<Rightarrow> connection \<Rightarrow> unit runtime_op" where
  "segment_text wire sg assistant_text r s =
    (let pending = or_text (cn_pending_assistant_text s) assistant_text
     in send_pending_assistant_text wire r
          (s\<lparr>cn_active_producer_epoch := Some (sg_producer_epoch sg), cn_pending_assistant_text := pending,
             cn_active_assistant_text := (case pending of Some t \<Rightarrow> if t = [] then cn_active_assistant_text s else t
                | None \<Rightarrow> cn_active_assistant_text s)\<rparr>))"

text \<open>The test at the head of each round of the loop.\<close>

definition packet_gate :: "segment \<Rightarrow> nat \<Rightarrow> connection \<Rightarrow> bool" where
  "packet_gate sg r s \<longleftrightarrow>
    sg_producer_epoch sg \<ge> cn_minimum_producer_epoch s \<and> active_response (cn_binding s) = Some r"

text \<open>
  The tail of a round, once the packet is encoded and due. The UDP datagram leaves before the binding is asked, without
  a suspension in between. A WSS frame is serialized by the binding, and the segment task then waits for the wire lock
  (the result is the frame), hands the frame to the socket and waits for the socket, which may time out.
\<close>

definition send_media ::
    "aead \<Rightarrow> udp_ctx \<Rightarrow> bytes \<Rightarrow> nat \<Rightarrow> connection \<Rightarrow> bytes option runtime_op" where
  "send_media A cx payload r s =
    (if rb_selected_media_profile (cn_binding s) = Some UDP_PROFILE then
       (case cn_udp s of
          None \<Rightarrow> (Inl (OtherFailure ''UDP media session is unavailable''), s)
        | Some u \<Rightarrow>
            (case udp_send_audio A cx payload (cn_downlink_timestamp s)
                    (pr_generation (rr_target (rec_at (rb_responses (cn_binding s)) r))) u of
               (Inl e, u1) \<Rightarrow> (Inl (exn_of_udp e), s\<lparr>cn_udp := Some u1\<rparr>)
             | (Inr n, u1) \<Rightarrow> bind_op (on_binding (note_downlink_media r n (cn_binding s)) (s\<lparr>cn_udp := Some u1\<rparr>))
                 (\<lambda>_ s2. (Inr None, s2))))
     else bind_op (on_binding (serialize_audio payload (cn_downlink_timestamp s) r (cn_binding s)) s)
            (\<lambda>media s1. (Inr (Some media), s1)))"

definition packet_counted :: "connection \<Rightarrow> connection" where
  "packet_counted s = s\<lparr>cn_downlink_packets := cn_downlink_packets s + 1,
     cn_downlink_timestamp := mask32 (cn_downlink_timestamp s + SAMPLES_PER_PACKET)\<rparr>"

text \<open>Either the packet was sent, or its frame is serialized, or the response turned out to be stale, which ends the segment.\<close>

datatype packet_progress = PacketSent | FrameReady bytes | PacketStale

definition transmit :: "aead \<Rightarrow> udp_ctx \<Rightarrow> bytes \<Rightarrow> nat \<Rightarrow> connection \<Rightarrow> packet_progress runtime_op" where
  "transmit A cx payload r s = (case send_media A cx payload r s of
      (Inr None, s2) \<Rightarrow> (Inr PacketSent, packet_counted s2)
    | (Inr (Some media), s2) \<Rightarrow> (Inr (FrameReady media), s2)
    | (Inl e, s2) \<Rightarrow> if e = BindingFailure ''stale_generation'' then (Inr PacketStale, s2) else (Inl e, s2))"

text \<open>The wire lock is free: the frame goes to the socket. Then the socket has taken it, in time or not.\<close>

definition write_frame :: "bytes \<Rightarrow> connection \<Rightarrow> connection" where
  "write_frame media s = s\<lparr>cn_media_sent := cn_media_sent s @ [media]\<rparr>"

definition frame_written :: "bool \<Rightarrow> connection \<Rightarrow> unit runtime_op" where
  "frame_written sent_in_time s = (if sent_in_time then (Inr (), packet_counted s) else (Inl MediaSendTimeout, s))"

section \<open>The playback watchdog\<close>

definition watch_key :: "connection \<Rightarrow> nat \<Rightarrow> string \<times> int" where
  "watch_key s r = record_key (rec_at (rb_responses (cn_binding s)) r)"

definition arm_playback_terminal_watchdog :: "nat \<Rightarrow> connection \<Rightarrow> connection" where
  "arm_playback_terminal_watchdog r s =
    (if current_playback (cn_binding s) \<noteq> Some r then s
     else if cn_watchdog_target s = Some (watch_key s r) then s
     else s\<lparr>cn_watchdog_target := Some (watch_key s r)\<rparr>)"

definition cancel_playback_terminal_watchdog :: "nat \<Rightarrow> connection \<Rightarrow> connection" where
  "cancel_playback_terminal_watchdog r s =
    (if cn_watchdog_target s \<noteq> Some (watch_key s r) then s else s\<lparr>cn_watchdog_target := None\<rparr>)"

text \<open>The watchdog task at its deadline, and the callback when it is done.\<close>

definition playback_terminal_watchdog :: "wire \<Rightarrow> string \<times> int \<Rightarrow> connection \<Rightarrow> connection" where
  "playback_terminal_watchdog wire target s =
    (if cn_watchdog_target s \<noteq> Some target then s
     else if (case current_playback (cn_binding s) of None \<Rightarrow> True | Some r \<Rightarrow> watch_key s r \<noteq> target)
       then s\<lparr>cn_watchdog_target := None\<rparr>
     else
       let s1 = send_session_error_best_effort wire ''playback_terminal_timeout''
             ''Endpoint playback terminal was not received; reconnect required''
             (s\<lparr>cn_primary_close_cause := Some (1011, ''playback_terminal_timeout'')\<rparr>)
       in report_failure PlaybackTerminalTimeout (s1\<lparr>cn_watchdog_target := None\<rparr>))"

text \<open>
  \<open>_finish_response\<close> in its sections: the record that ends and its last text, the end of the response (\<open>None\<close> when
  it turned out to be stale), and the watchdog once the event is acknowledged.
\<close>

definition finish_response :: "wire \<Rightarrow> int \<Rightarrow> connection \<Rightarrow> nat option runtime_op" where
  "finish_response wire producer_epoch s = (case active_response (cn_binding s) of
      None \<Rightarrow> (Inr None, s)
    | Some r \<Rightarrow>
        if rr_producer_epoch (rec_at (rb_responses (cn_binding s)) r) \<noteq> producer_epoch then (Inr None, s)
        else (case send_pending_assistant_text wire r s of
             (Inl e, s1) \<Rightarrow> if e = BindingFailure ''stale_generation'' then (Inr None, s1) else (Inl e, s1)
           | (Inr _, s1) \<Rightarrow> (Inr (Some r), s1)))"

definition end_response :: "wire \<Rightarrow> nat \<Rightarrow> connection \<Rightarrow> bool runtime_op" where
  "end_response wire r s = (case on_binding (response_end r (cn_binding s)) s of
      (Inl e, s1) \<Rightarrow> if e = BindingFailure ''stale_generation'' then (Inr False, s1) else (Inl e, s1)
    | (Inr ev, s1) \<Rightarrow> bind_op (send_control wire ev s1) (\<lambda>_ s2. (Inr True, s2)))"

definition response_ended :: "int \<Rightarrow> nat \<Rightarrow> connection \<Rightarrow> connection" where
  "response_ended producer_epoch r s =
    (let s1 = arm_playback_terminal_watchdog r s
     in if cn_active_producer_epoch s1 = Some producer_epoch then s1\<lparr>cn_active_producer_epoch := None\<rparr> else s1)"

section \<open>Effects of control messages\<close>

definition fence_producer :: "nat \<Rightarrow> connection \<Rightarrow> connection" where
  "fence_producer r s = s\<lparr>cn_minimum_producer_epoch := max (cn_minimum_producer_epoch s)
      (rr_producer_epoch (rec_at (rb_responses (cn_binding s)) r) + 1), cn_generation_changed := True\<rparr>"

text \<open>
  \<open>_apply_control_effect\<close>: the producer is fenced in the section that fenced the response, then the events go out one
  by one, and the rest follows once they are acknowledged. The calls of the runner are taken to return at once.
\<close>

definition effect_begin :: "control_effect \<Rightarrow> connection \<Rightarrow> connection" where
  "effect_begin effect s = (case ce_interrupt effect of None \<Rightarrow> s | Some r \<Rightarrow> fence_producer r s)"

definition effect_playback_started :: "real \<Rightarrow> control_effect \<Rightarrow> connection \<Rightarrow> connection" where
  "effect_playback_started now effect s =
    (if ce_playback_started effect \<noteq> None \<and> cn_runner s
     then s\<lparr>cn_playback_started_at := Some now, cn_interrupt_candidate_started_at := None,
            cn_runner_calls := cn_runner_calls s @ [RunnerPlaybackStarted]\<rparr> else s)"

definition effect_playback_ended :: "control_effect \<Rightarrow> connection \<Rightarrow> connection" where
  "effect_playback_ended effect s = (case ce_playback_ended effect of
      None \<Rightarrow> s
    | Some ended \<Rightarrow>
        if \<not> cn_runner s then s
        else
          let s1 = cancel_playback_terminal_watchdog (pe_record ended) s
          in s1\<lparr>cn_runner_calls := cn_runner_calls s1 @
                 [RunnerPlaybackFinished (of_int (pe_played_samples ended) / of_int SAMPLE_RATE) (pe_outcome ended \<noteq> PCompleted),
                  SetResponseGate False],
                cn_playback_started_at := None, cn_interrupt_candidate_started_at := None,
                cn_active_assistant_text := []\<rparr>)"

definition effect_end :: "real \<Rightarrow> control_effect \<Rightarrow> connection \<Rightarrow> connection" where
  "effect_end now effect s =
    (let s1 = (case ce_interrupt effect of None \<Rightarrow> s | Some r \<Rightarrow> arm_playback_terminal_watchdog r s);
         s2 = effect_playback_ended effect (effect_playback_started now effect s1)
     in case ce_interrupt effect of None \<Rightarrow> s2 | Some r \<Rightarrow> s2\<lparr>cn_interrupt_tasks := cn_interrupt_tasks s2 @ [r]\<rparr>)"

text \<open>
  \<open>_AgentPort.interrupt\<close> before and after the call of the runner; \<open>answer\<close> is the epoch the runner returns, or
  \<open>None\<close> when it does not answer in time.
\<close>

definition agent_interrupt :: "connection \<Rightarrow> unit runtime_op" where
  "agent_interrupt s =
    (let s1 = (case cn_active_producer_epoch s of
            None \<Rightarrow> s
          | Some e \<Rightarrow> s\<lparr>cn_minimum_producer_epoch := max (cn_minimum_producer_epoch s) (e + 1)\<rparr>);
         s2 = s1\<lparr>cn_generation_changed := True\<rparr>
     in if \<not> cn_runner s2 then (Inl (OtherFailure ''agent runner is unavailable''), s2) else (Inr (), s2))"

definition agent_interrupted :: "int option \<Rightarrow> connection \<Rightarrow> unit runtime_op" where
  "agent_interrupted answer s = (case answer of
      None \<Rightarrow> (Inl (OtherFailure ''agent interrupt timed out''), s)
    | Some e \<Rightarrow> (Inr (), s\<lparr>cn_minimum_producer_epoch := max (cn_minimum_producer_epoch s) e\<rparr>))"

text \<open>The effect to apply, when the candidate still matches the playback.\<close>

definition accept_interruption :: "interruption_context \<Rightarrow> connection \<Rightarrow> control_effect option runtime_op" where
  "accept_interruption cx s =
    (if (case current_playback (cn_binding s) of None \<Rightarrow> True | Some r \<Rightarrow> watch_key s r \<noteq> (ix_response_id cx, ix_generation cx))
     then (Inr None, s)
     else bind_op (on_binding (cancel_active_response ''recognized_interrupt'' (cn_binding s)) s) (\<lambda>effect s1.
            (Inr (Some effect), effect_begin effect s1)))"

section \<open>User transcripts\<close>

text \<open>Decoding of UTF-8, for the policy, which looks at code points.\<close>

fun utf8_decode :: "nat list \<Rightarrow> codepoints" where
  "utf8_decode [] = []"
| "utf8_decode (b # bs) =
    (if b < 0x80 then b # utf8_decode bs
     else if b < 0xE0 then (case bs of c # cs \<Rightarrow> ((b - 0xC0) * 64 + (c - 0x80)) # utf8_decode cs | [] \<Rightarrow> [])
     else if b < 0xF0 then (case bs of c # d # cs \<Rightarrow> ((b - 0xE0) * 4096 + (c - 0x80) * 64 + (d - 0x80)) # utf8_decode cs | _ \<Rightarrow> [])
     else (case bs of c # d # e # cs \<Rightarrow>
        ((b - 0xF0) * 262144 + (c - 0x80) * 4096 + (d - 0x80) * 64 + (e - 0x80)) # utf8_decode cs | _ \<Rightarrow> []))"

definition codepoints_of :: "string \<Rightarrow> codepoints" where
  "codepoints_of s = utf8_decode (map of_char s)"

definition submit_interruption_candidate :: "real \<Rightarrow> real \<Rightarrow> string \<Rightarrow> bool \<Rightarrow> connection \<Rightarrow> connection" where
  "submit_interruption_candidate candidate_now now txt is_final s =
    (case (cn_interruption s, current_playback (cn_binding s), cn_playback_started_at s) of
       (Some ic, Some r, Some started) \<Rightarrow>
         let s1 = (if cn_interrupt_candidate_started_at s = None
                   then s\<lparr>cn_interrupt_candidate_started_at := Some candidate_now\<rparr> else s);
             x = rec_at (rb_responses (cn_binding s1)) r
         in s1\<lparr>cn_interruption := Some (interruption_submit
              \<lparr>ix_transcript = codepoints_of txt, ix_is_final = is_final, ix_playback_age_seconds = max 0 (now - started),
               ix_candidate_age_seconds = max 0 (now - the (cn_interrupt_candidate_started_at s1)),
               ix_assistant_text = codepoints_of (cn_active_assistant_text s1), ix_response_id = rr_response_id x,
               ix_generation = pr_generation (rr_target x)\<rparr> ic)\<rparr>
     | _ \<Rightarrow> s)"

text \<open>A transcript outside an utterance opens the next one.\<close>

definition begin_utterance :: "connection \<Rightarrow> connection" where
  "begin_utterance s =
    (if cn_active_utterance_id s = None
     then s\<lparr>cn_utterance_sequence := cn_utterance_sequence s + 1,
            cn_active_utterance_id := Some (utterance_id (cn_utterance_sequence s + 1)), cn_transcript_sequence := 0\<rparr>
     else s)"

text \<open>The part of \<open>_emit_user_transcript\<close> inside its \<open>try\<close>, after the interruption candidate.\<close>

definition emit_transcript :: "string \<Rightarrow> bool \<Rightarrow> connection \<Rightarrow> unit runtime_op" where
  "emit_transcript txt is_final s =
    (let s1 = begin_utterance s;
         u = the (cn_active_utterance_id s1)
     in if is_final
        then bind_op (on_binding (transcript_final u (cn_transcript_sequence s1) (JStr txt) (cn_binding s1)) s1) (\<lambda>ev s2.
               enqueue_nowait ev (s2\<lparr>cn_active_utterance_id := None, cn_transcript_sequence := 0\<rparr>))
        else bind_op (on_binding (transcript_delta u (cn_transcript_sequence s1) (JStr txt) (cn_binding s1)) s1) (\<lambda>ev s2.
               enqueue_nowait ev (s2\<lparr>cn_transcript_sequence := cn_transcript_sequence s2 + 1\<rparr>)))"

definition emit_user_transcript :: "real \<Rightarrow> real \<Rightarrow> string \<Rightarrow> bool \<Rightarrow> connection \<Rightarrow> bool \<times> connection" where
  "emit_user_transcript candidate_now now txt is_final s =
    (if cn_closed s then (False, s)
     else
       (current_playback (cn_binding s) \<noteq> None,
        reported (emit_transcript txt is_final (submit_interruption_candidate candidate_now now txt is_final s))))"

section \<open>UDP uplink, grant and idle time\<close>

definition mark_activity :: "real \<Rightarrow> connection \<Rightarrow> connection" where
  "mark_activity now s = s\<lparr>cn_last_activity := now\<rparr>"

definition receive_udp_audio :: "real \<Rightarrow> real \<Rightarrow> bytes \<Rightarrow> int \<Rightarrow> int \<Rightarrow> connection \<Rightarrow> unit runtime_op" where
  "receive_udp_audio now claim_now payload timestamp generation s =
    (let s1 = mark_activity now s
     in if generation \<noteq> 0 then (Inr (), s1)
        else
          let packet = \<lparr>ia_sequence = cn_udp_uplink_sequence s1, ia_timestamp = timestamp, ia_payload = payload\<rparr>;
              s2 = s1\<lparr>cn_udp_uplink_sequence := cn_udp_uplink_sequence s1 + 1, cn_udp_input_packets := cn_udp_input_packets s1 + 1\<rparr>;
              (r, u) = receive_audio (rl_uplink_max_age_seconds (cn_limits s2)) (rl_input_queue_packets (cn_limits s2))
                         now claim_now False packet (cn_uplink s2)
          in (case r of Inl e \<Rightarrow> Inl (exn_of_uplink e) | Inr _ \<Rightarrow> Inr (), s2\<lparr>cn_uplink := u\<rparr>))"

definition rva_udp_grant :: "(bytes \<Rightarrow> string) \<Rightarrow> real \<Rightarrow> udp_session option \<Rightarrow> json_dict option" where
  "rva_udp_grant b64encode wall_now session = (case session of
      None \<Rightarrow> None
    | Some u \<Rightarrow>
        let g = us_grant u;
            refresh_after_ms = max 1000 (min 3600000 (ug_expires_at g * 1000 - \<lfloor>wall_now * 1000\<rfloor> - 5000))
        in Some [(''host'', JStr (ug_host g)), (''port'', JInt (ug_port g)), (''expires_at_ms'', JInt (ug_expires_at g * 1000)),
             (''refresh_after_ms'', JInt refresh_after_ms), (''uplink_key_b64'', JStr (b64encode (ug_uplink_key g))),
             (''uplink_salt_b64'', JStr (b64encode (ug_uplink_salt g))), (''downlink_key_b64'', JStr (b64encode (ug_downlink_key g))),
             (''downlink_salt_b64'', JStr (b64encode (ug_downlink_salt g))), (''probe_timeout_ms'', JInt (ug_probe_timeout_ms g))])"

text \<open>One round of \<open>_idle_loop\<close>: how long to wait, or the timeout.\<close>

definition idle_round :: "real \<Rightarrow> real \<Rightarrow> connection \<Rightarrow> real runtime_op" where
  "idle_round activity_now now s =
    (let s1 = (case cn_udp s of
           Some u \<Rightarrow> if st_authenticated (us_stats u) \<noteq> cn_last_udp_authenticated s
                     then mark_activity activity_now (s\<lparr>cn_last_udp_authenticated := st_authenticated (us_stats u)\<rparr>) else s
         | None \<Rightarrow> s);
         remaining = cn_last_activity s1 + rl_idle_timeout_seconds (cn_limits s1) - now
     in if remaining \<le> 0 then (Inl IdleTimeout, s1)
        else (Inr (min remaining (min 1 (rl_idle_timeout_seconds (cn_limits s1) / 4))), s1))"

section \<open>The reader and the input loop\<close>

definition on_uplink :: "(uplink_error, 'a, uplink) op_result \<Rightarrow> connection \<Rightarrow> 'a runtime_op" where
  "on_uplink m s = (case m of (Inl e, u) \<Rightarrow> (Inl (exn_of_uplink e), s\<lparr>cn_uplink := u\<rparr>) | (Inr a, u) \<Rightarrow> (Inr a, s\<lparr>cn_uplink := u\<rparr>))"

datatype reader_result = ReaderDone | ReaderEffect control_effect | ReaderNext

text \<open>One frame of \<open>_reader_loop\<close>; the effect of a control message is then applied as above.\<close>

definition reader_frame :: "real \<Rightarrow> real \<Rightarrow> real \<Rightarrow> frame \<Rightarrow> connection \<Rightarrow> reader_result runtime_op" where
  "reader_frame received_at claim_now now f s = (case f of
      Disconnected \<Rightarrow> (Inr ReaderDone, s)
    | TextFrame t \<Rightarrow>
        bind_op (on_binding (receive_control t (cn_binding s)) s) (\<lambda>effect s1.
          (Inr (ReaderEffect effect), effect_begin effect (mark_activity now s1)))
    | BinaryFrame raw \<Rightarrow>
        bind_op (on_binding (receive_media raw (cn_binding s)) s) (\<lambda>packet s1.
        bind_op (on_uplink (receive_audio (rl_uplink_max_age_seconds (cn_limits s1)) (rl_input_queue_packets (cn_limits s1))
                   received_at claim_now True packet (cn_uplink s1)) s1) (\<lambda>_ s2.
          (Inr ReaderNext, mark_activity now (s2\<lparr>cn_wss_input_packets := cn_wss_input_packets s2 + 1\<rparr>))))
    | OtherFrame \<Rightarrow> (Inl (BindingFailure ''unsupported_websocket_frame''), s))"

text \<open>
  \<open>_input_loop\<close> after the decoder answered with its frames, or with \<open>None\<close> for a packet it cannot decode:
  \<open>True\<close> when there are frames to push.
\<close>

definition input_decoded :: "nat option \<Rightarrow> connection \<Rightarrow> bool runtime_op" where
  "input_decoded frames s = (case frames of
      None \<Rightarrow>
        let s1 = s\<lparr>cn_invalid_opus_packets := cn_invalid_opus_packets s + 1,
                   cn_consecutive_invalid_opus_packets := cn_consecutive_invalid_opus_packets s + 1\<rparr>
        in if cn_consecutive_invalid_opus_packets s1 \<ge> rl_max_consecutive_invalid_opus_packets (cn_limits s1)
           then (Inl MediaDecodeFailed, s1) else (Inr False, s1)
    | Some n \<Rightarrow>
        (Inr True, s\<lparr>cn_consecutive_invalid_opus_packets := 0, cn_input_pcm_sequence := cn_input_pcm_sequence s + int n,
                     cn_decoded_pcm_frames := cn_decoded_pcm_frames s + int n\<rparr>))"

datatype push_answer = Pushed | PushTimedOut | PushOverloaded string int int | PushTerminated | PushBufferError

definition input_budget :: "queued_audio \<Rightarrow> real \<Rightarrow> real \<Rightarrow> connection \<Rightarrow> real runtime_op" where
  "input_budget q now error_now s =
    on_uplink (remaining_uplink_budget (rl_uplink_max_age_seconds (cn_limits s)) (rl_input_queue_packets (cn_limits s))
      q now error_now (cn_uplink s)) s"

text \<open>One frame of the packet \<open>q\<close>: the budget is tested before and after the runner takes it.\<close>

definition push_frame ::
    "queued_audio \<Rightarrow> real \<times> real \<Rightarrow> push_answer \<Rightarrow> real \<times> real \<Rightarrow> connection \<Rightarrow> unit runtime_op" where
  "push_frame q before answer after s =
    bind_op (input_budget q (fst before) (snd before) s) (\<lambda>_ s1.
      case answer of
        Pushed \<Rightarrow> bind_op (input_budget q (fst after) (snd after) s1) (\<lambda>_ s2.
                    (Inr (), s2\<lparr>cn_runner_push_frames := cn_runner_push_frames s2 + 1\<rparr>))
      | PushTimedOut \<Rightarrow>
          (let (e, u) = stale_uplink_error (rl_uplink_max_age_seconds (cn_limits s1)) (rl_input_queue_packets (cn_limits s1))
                 q (snd after) (cn_uplink s1)
           in (Inl (RuntimeOverloaded e), s1\<lparr>cn_uplink := u\<rparr>))
      | PushOverloaded source qsize capacity \<Rightarrow>
          (Inl (RuntimeOverloaded \<lparr>ov_source = source, ov_qsize = qsize, ov_capacity = capacity, ov_media_age_ms = -1,
             ov_dropped_packets = 0, ov_fresh_packet_available = None\<rparr>), s1)
      | PushTerminated \<Rightarrow> (Inl AgentRuntimeFailed, s1)
      | PushBufferError \<Rightarrow>
          (Inl (RuntimeOverloaded \<lparr>ov_source = ''agent_input_unknown'', ov_qsize = -1, ov_capacity = -1, ov_media_age_ms = -1,
             ov_dropped_packets = 0, ov_fresh_packet_available = None\<rparr>), s1))"

end
