(* ===== verification/Runtime_Tasks.thy ===== *)
theory Runtime_Tasks
  imports Rva_Runtime
begin

text \<open>
  The tasks of one connection and their interleavings: the segment task of \<open>runtime.py\<close> with its program counter at
  every suspension of \<open>_send_segment\<close> and \<open>_finish_response\<close>, the effects of control messages that are being sent, and
  the single sections of all other tasks. A schedule is a list of events; nothing restricts which one comes next.
\<close>

section \<open>Tasks\<close>

text \<open>
  Where the segment task is suspended: waiting for an item, for the acknowledgement of \<open>response.begin\<close>, for the text
  before a round of the loop, for the encoder, for the playback deadline, for the wire lock with a serialized frame, for
  the socket that takes the frame, for the text before \<open>response.end\<close>, for the acknowledgement of \<open>response.end\<close>; or it
  has raised.
\<close>

datatype sender =
    SenderIdle
  | SenderBegun segment "string option" nat
  | SenderLoop segment nat nat
  | SenderEncoding segment nat nat
  | SenderPacing segment nat nat bytes
  | SenderLocking segment nat nat bytes
  | SenderWriting segment nat nat
  | SenderEnding int nat
  | SenderEnded int nat
  | SenderFailed

record runtime =
  rt_conn :: connection
  rt_sender :: sender
  rt_effects :: "(control_effect \<times> wire_text list) list"
  rt_exn :: "runtime_exn option"

record runtime_env =
  re_wire :: wire
  re_aead :: aead
  re_udp :: udp_ctx

text \<open>The first exception of a task ends the run.\<close>

definition task_raises :: "runtime_exn \<Rightarrow> runtime \<Rightarrow> runtime" where
  "task_raises e rt = rt\<lparr>rt_exn := (case rt_exn rt of None \<Rightarrow> Some e | Some first \<Rightarrow> Some first)\<rparr>"

definition sender_does :: "'a runtime_op \<Rightarrow> ('a \<Rightarrow> connection \<Rightarrow> sender) \<Rightarrow> runtime \<Rightarrow> runtime" where
  "sender_does m k rt = (case m of
      (Inl e, s) \<Rightarrow> task_raises e (rt\<lparr>rt_conn := s, rt_sender := SenderFailed\<rparr>)
    | (Inr a, s) \<Rightarrow> rt\<lparr>rt_conn := s, rt_sender := k a s\<rparr>)"

definition task_does :: "'a runtime_op \<Rightarrow> runtime \<Rightarrow> runtime" where
  "task_does m rt = (case m of
      (Inl e, s) \<Rightarrow> task_raises e (rt\<lparr>rt_conn := s\<rparr>)
    | (Inr _, s) \<Rightarrow> rt\<lparr>rt_conn := s\<rparr>)"

section \<open>The segment task\<close>

definition take_item :: "runtime_env \<Rightarrow> runtime \<Rightarrow> runtime" where
  "take_item env rt =
    (let s = rt_conn rt in case cn_segments s of
       [] \<Rightarrow> rt
     | OutSegment sg txt # items \<Rightarrow>
         sender_does (bind_op (begin_segment sg (s\<lparr>cn_segments := items\<rparr>)) (\<lambda>begun s1. case begun of
             None \<Rightarrow> (Inr SenderIdle, s1)
           | Some (r, None) \<Rightarrow> bind_op (segment_text (re_wire env) sg txt r s1) (\<lambda>_ s2. (Inr (SenderLoop sg r 0), s2))
           | Some (r, Some ev) \<Rightarrow> bind_op (send_control (re_wire env) ev s1) (\<lambda>_ s2. (Inr (SenderBegun sg txt r), s2))))
           (\<lambda>pc _. pc) rt
     | OutResponseEnd e # items \<Rightarrow>
         sender_does (finish_response (re_wire env) e (s\<lparr>cn_segments := items\<rparr>))
           (\<lambda>ending _. case ending of None \<Rightarrow> SenderIdle | Some r \<Rightarrow> SenderEnding e r) rt)"

text \<open>The text after the loop, which every way out of it passes.\<close>

definition leave_loop :: "runtime_env \<Rightarrow> nat \<Rightarrow> connection \<Rightarrow> sender runtime_op" where
  "leave_loop env r s = bind_op (send_pending_assistant_text (re_wire env) r s) (\<lambda>_ s1. (Inr SenderIdle, s1))"

definition send_packet :: "runtime_env \<Rightarrow> segment \<Rightarrow> nat \<Rightarrow> nat \<Rightarrow> bytes \<Rightarrow> connection \<Rightarrow> sender runtime_op" where
  "send_packet env sg r i payload s =
    bind_op (transmit (re_aead env) (re_udp env) payload r s) (\<lambda>progress s1. case progress of
        PacketSent \<Rightarrow> (Inr (SenderLoop sg r (Suc i)), s1)
      | FrameReady media \<Rightarrow> (Inr (SenderLocking sg r i media), s1)
      | PacketStale \<Rightarrow> leave_loop env r s1)"

text \<open>The last test of \<open>_wait_playback_deadline\<close> and what follows it.\<close>

definition packet_due :: "runtime_env \<Rightarrow> segment \<Rightarrow> nat \<Rightarrow> nat \<Rightarrow> bytes \<Rightarrow> connection \<Rightarrow> sender runtime_op" where
  "packet_due env sg r i payload s =
    (if active_response (cn_binding s) = Some r then send_packet env sg r i payload s else leave_loop env r s)"

text \<open>The head of the loop.\<close>

definition loop_head :: "runtime_env \<Rightarrow> segment \<Rightarrow> nat \<Rightarrow> nat \<Rightarrow> connection \<Rightarrow> sender runtime_op" where
  "loop_head env sg r i s =
    (if 3 * i < sg_frames sg \<and> packet_gate sg r s
     then bind_op (send_pending_assistant_text (re_wire env) r s) (\<lambda>_ s1. (Inr (SenderEncoding sg r i), s1))
     else leave_loop env r s)"

text \<open>The encoder has answered: \<open>overdue\<close> tells whether the deadline has passed already.\<close>

definition packet_encoded :: "runtime_env \<Rightarrow> bool \<Rightarrow> segment \<Rightarrow> nat \<Rightarrow> nat \<Rightarrow> bytes \<Rightarrow> connection \<Rightarrow> sender runtime_op" where
  "packet_encoded env overdue sg r i payload s =
    (if int i < rl_playback_prebuffer_packets (cn_limits s) then send_packet env sg r i payload s
     else if overdue then packet_due env sg r i payload s
     else (Inr (SenderPacing sg r i payload), s\<lparr>cn_generation_changed := False\<rparr>))"

text \<open>The wait for the deadline ends: woken by a change of generation, or at the timeout.\<close>

definition pacing_ends :: "runtime_env \<Rightarrow> bool \<Rightarrow> segment \<Rightarrow> nat \<Rightarrow> nat \<Rightarrow> bytes \<Rightarrow> connection \<Rightarrow> sender runtime_op" where
  "pacing_ends env timed_out sg r i payload s =
    (if timed_out then packet_due env sg r i payload s
     else if cn_generation_changed s then leave_loop env r s
     else (Inr (SenderPacing sg r i payload), s))"

definition sender_resumes :: "runtime_env \<Rightarrow> bytes \<Rightarrow> bool \<Rightarrow> bool \<Rightarrow> runtime \<Rightarrow> runtime" where
  "sender_resumes env payload late sent_in_time rt =
    (let s = rt_conn rt in case rt_sender rt of
       SenderIdle \<Rightarrow> take_item env rt
     | SenderBegun sg txt r \<Rightarrow>
         sender_does (segment_text (re_wire env) sg txt r (response_announced s)) (\<lambda>_ _. SenderLoop sg r 0) rt
     | SenderLoop sg r i \<Rightarrow> sender_does (loop_head env sg r i s) (\<lambda>pc _. pc) rt
     | SenderEncoding sg r i \<Rightarrow> sender_does (packet_encoded env late sg r i payload s) (\<lambda>pc _. pc) rt
     | SenderPacing sg r i p \<Rightarrow> sender_does (pacing_ends env late sg r i p s) (\<lambda>pc _. pc) rt
     | SenderLocking sg r i media \<Rightarrow> rt\<lparr>rt_conn := write_frame media s, rt_sender := SenderWriting sg r i\<rparr>
     | SenderWriting sg r i \<Rightarrow> sender_does (frame_written sent_in_time s) (\<lambda>_ _. SenderLoop sg r (Suc i)) rt
     | SenderEnding e r \<Rightarrow> sender_does (end_response (re_wire env) r s) (\<lambda>ended _. if ended then SenderEnded e r else SenderIdle) rt
     | SenderEnded e r \<Rightarrow> rt\<lparr>rt_conn := response_ended e r s, rt_sender := SenderIdle\<rparr>
     | SenderFailed \<Rightarrow> rt)"

section \<open>Effects of control messages\<close>

definition start_effect :: "control_effect \<Rightarrow> runtime \<Rightarrow> runtime" where
  "start_effect effect rt = rt\<lparr>rt_effects := rt_effects rt @ [(effect, ce_outbound effect)]\<rparr>"

definition drop_at :: "nat \<Rightarrow> 'a list \<Rightarrow> 'a list" where
  "drop_at i xs = take i xs @ drop (Suc i) xs"

definition effect_resumes :: "runtime_env \<Rightarrow> nat \<Rightarrow> real \<Rightarrow> runtime \<Rightarrow> runtime" where
  "effect_resumes env i now rt =
    (if i \<ge> length (rt_effects rt) then rt
     else case rt_effects rt ! i of
         (effect, ev # evs) \<Rightarrow>
           (case send_control (re_wire env) ev (rt_conn rt) of
              (Inl e, s) \<Rightarrow> task_raises e (rt\<lparr>rt_conn := s, rt_effects := drop_at i (rt_effects rt)\<rparr>)
            | (Inr _, s) \<Rightarrow> rt\<lparr>rt_conn := s, rt_effects := (rt_effects rt)[i := (effect, evs)]\<rparr>)
       | (effect, []) \<Rightarrow> rt\<lparr>rt_conn := effect_end now effect (rt_conn rt), rt_effects := drop_at i (rt_effects rt)\<rparr>)"

definition reader_reads :: "real \<Rightarrow> real \<Rightarrow> real \<Rightarrow> frame \<Rightarrow> runtime \<Rightarrow> runtime" where
  "reader_reads received_at claim_now now f rt = (case reader_frame received_at claim_now now f (rt_conn rt) of
      (Inl e, s) \<Rightarrow> task_raises e (rt\<lparr>rt_conn := s\<rparr>)
    | (Inr (ReaderEffect effect), s) \<Rightarrow> start_effect effect (rt\<lparr>rt_conn := s\<rparr>)
    | (Inr _, s) \<Rightarrow> rt\<lparr>rt_conn := s\<rparr>)"

definition interruption_accepted :: "interruption_context \<Rightarrow> runtime \<Rightarrow> runtime" where
  "interruption_accepted cx rt = (case accept_interruption cx (rt_conn rt) of
      (Inl e, s) \<Rightarrow> rt\<lparr>rt_conn := s\<rparr>
    | (Inr None, s) \<Rightarrow> rt\<lparr>rt_conn := s\<rparr>
    | (Inr (Some effect), s) \<Rightarrow> start_effect effect (rt\<lparr>rt_conn := s\<rparr>))"

section \<open>Schedules\<close>

datatype runtime_event =
    Sender_Resumes bytes bool bool
  | Effect_Resumes nat real
  | Reader_Reads real real real frame
  | Interruption_Accepted interruption_context
  | Runner_Interrupt
  | Runner_Interrupted "int option"
  | Agent_Segment segment
  | Agent_Response_End int
  | Agent_Text string
  | User_Transcript real real string bool
  | Udp_Audio real real bytes int int
  | Watchdog_Due "string \<times> int"
  | Runner_Terminal bool
  | Runner_Started

fun runtime_step :: "runtime_env \<Rightarrow> runtime_event \<Rightarrow> runtime \<Rightarrow> runtime" where
  "runtime_step env (Sender_Resumes payload late ok) rt = sender_resumes env payload late ok rt"
| "runtime_step env (Effect_Resumes i now) rt = effect_resumes env i now rt"
| "runtime_step env (Reader_Reads t c now f) rt = reader_reads t c now f rt"
| "runtime_step env (Interruption_Accepted cx) rt = interruption_accepted cx rt"
| "runtime_step env Runner_Interrupt rt = (let (r, s) = agent_interrupt (rt_conn rt) in
     rt\<lparr>rt_conn := (case r of Inl e \<Rightarrow> report_failure e s | Inr _ \<Rightarrow> s)\<rparr>)"
| "runtime_step env (Runner_Interrupted answer) rt = (let (r, s) = agent_interrupted answer (rt_conn rt) in
     rt\<lparr>rt_conn := (case r of Inl e \<Rightarrow> report_failure e s | Inr _ \<Rightarrow> s)\<rparr>)"
| "runtime_step env (Agent_Segment sg) rt = rt\<lparr>rt_conn := snd (emit_segment sg (rt_conn rt))\<rparr>"
| "runtime_step env (Agent_Response_End e) rt = rt\<lparr>rt_conn := request_response_end e (rt_conn rt)\<rparr>"
| "runtime_step env (Agent_Text txt) rt = rt\<lparr>rt_conn := emit_assistant_text txt (rt_conn rt)\<rparr>"
| "runtime_step env (User_Transcript c now txt final) rt = rt\<lparr>rt_conn := snd (emit_user_transcript c now txt final (rt_conn rt))\<rparr>"
| "runtime_step env (Udp_Audio now c payload ts g) rt = rt\<lparr>rt_conn := snd (receive_udp_audio now c payload ts g (rt_conn rt))\<rparr>"
| "runtime_step env (Watchdog_Due target) rt = rt\<lparr>rt_conn := playback_terminal_watchdog (re_wire env) target (rt_conn rt)\<rparr>"
| "runtime_step env (Runner_Terminal owner) rt = task_does (runner_terminal (re_wire env) owner (rt_conn rt)) rt"
| "runtime_step env Runner_Started rt = rt\<lparr>rt_conn := (rt_conn rt)\<lparr>cn_runner := True\<rparr>\<rparr>"

definition runtime_run :: "runtime_env \<Rightarrow> runtime_event list \<Rightarrow> runtime \<Rightarrow> runtime" where
  "runtime_run env evs rt = fold (runtime_step env) evs rt"

definition runtime_init :: "connection \<Rightarrow> runtime" where
  "runtime_init s = \<lparr>rt_conn = s, rt_sender = SenderIdle, rt_effects = [], rt_exn = None\<rparr>"

section \<open>What the steps do to the connection\<close>

lemma task_raises_conn [simp]: "rt_conn (task_raises e rt) = rt_conn rt" "rt_effects (task_raises e rt) = rt_effects rt"
  by (simp_all add: task_raises_def)

lemma sender_does_conn [simp]: "rt_conn (sender_does m k rt) = snd m" "rt_effects (sender_does m k rt) = rt_effects rt"
  by (auto simp: sender_does_def split: prod.splits sum.splits)

lemma task_does_conn [simp]: "rt_conn (task_does m rt) = snd m" "rt_effects (task_does m rt) = rt_effects rt"
  by (auto simp: task_does_def split: prod.splits sum.splits)

lemma start_effect_conn [simp]: "rt_conn (start_effect effect rt) = rt_conn rt"
  by (simp add: start_effect_def)

section \<open>Invariants of a connection\<close>

text \<open>The frame that is serialized and not yet handed to the socket.\<close>

definition parked_frame :: "sender \<Rightarrow> bytes option" where
  "parked_frame pc = (case pc of SenderLocking sg r i media \<Rightarrow> Some media | _ \<Rightarrow> None)"

text \<open>
  What a property of the connection has to satisfy so that every section of every task keeps it: the operations of the
  binding that the sections call, the minimum epoch, the transcripts and the failures keep it, and it does not depend on
  the other fields, the frames that were sent apart.
\<close>

locale connection_property =
  fixes P :: "connection \<Rightarrow> bool"
  assumes fields:
    "P (s\<lparr>cn_limits := x0\<rparr>) = P s"
    "P (s\<lparr>cn_uplink := x1\<rparr>) = P s"
    "P (s\<lparr>cn_interruption := x2\<rparr>) = P s"
    "P (s\<lparr>cn_runner := x3\<rparr>) = P s"
    "P (s\<lparr>cn_runner_calls := x4\<rparr>) = P s"
    "P (s\<lparr>cn_closed := x5\<rparr>) = P s"
    "P (s\<lparr>cn_output := x6\<rparr>) = P s"
    "P (s\<lparr>cn_sent := x7\<rparr>) = P s"
    "P (s\<lparr>cn_active_producer_epoch := x8\<rparr>) = P s"
    "P (s\<lparr>cn_generation_changed := x9\<rparr>) = P s"
    "P (s\<lparr>cn_response_sequence := x10\<rparr>) = P s"
    "P (s\<lparr>cn_pending_assistant_text := x11\<rparr>) = P s"
    "P (s\<lparr>cn_assistant_text_sent := x12\<rparr>) = P s"
    "P (s\<lparr>cn_active_assistant_text := x13\<rparr>) = P s"
    "P (s\<lparr>cn_response_text_sequence := x14\<rparr>) = P s"
    "P (s\<lparr>cn_playback_started_at := x15\<rparr>) = P s"
    "P (s\<lparr>cn_interrupt_candidate_started_at := x16\<rparr>) = P s"
    "P (s\<lparr>cn_watchdog_target := x17\<rparr>) = P s"
    "P (s\<lparr>cn_primary_close_cause := x18\<rparr>) = P s"
    "P (s\<lparr>cn_interrupt_tasks := x19\<rparr>) = P s"
    "P (s\<lparr>cn_downlink_timestamp := x20\<rparr>) = P s"
    "P (s\<lparr>cn_downlink_packets := x21\<rparr>) = P s"
    "P (s\<lparr>cn_udp_uplink_sequence := x22\<rparr>) = P s"
    "P (s\<lparr>cn_udp_input_packets := x23\<rparr>) = P s"
    "P (s\<lparr>cn_last_activity := x24\<rparr>) = P s"
    "P (s\<lparr>cn_last_udp_authenticated := x25\<rparr>) = P s"
    "P (s\<lparr>cn_segments := x26\<rparr>) = P s"
    "P (s\<lparr>cn_wss_input_packets := x27\<rparr>) = P s"
    "P (s\<lparr>cn_input_pcm_sequence := x28\<rparr>) = P s"
    "P (s\<lparr>cn_decoded_pcm_frames := x29\<rparr>) = P s"
    "P (s\<lparr>cn_invalid_opus_packets := x30\<rparr>) = P s"
    "P (s\<lparr>cn_consecutive_invalid_opus_packets := x31\<rparr>) = P s"
    "P (s\<lparr>cn_runner_push_frames := x32\<rparr>) = P s"
    "P (s\<lparr>cn_overload := x33\<rparr>) = P s"
    "P (s\<lparr>cn_close_code := x34\<rparr>) = P s"
    and epoch: "P s \<Longrightarrow> cn_minimum_producer_epoch s \<le> e \<Longrightarrow> P (s\<lparr>cn_minimum_producer_epoch := e\<rparr>)"
    and failure: "P s \<Longrightarrow> P (report_failure exn s)"
    and transcript: "P s \<Longrightarrow> P (reported (emit_transcript speech final s))"
    and control: "P s \<Longrightarrow> keeps P (on_binding (receive_control raw (cn_binding s)) s)"
    and media: "P s \<Longrightarrow> keeps P (on_binding (receive_media data (cn_binding s)) s)"
    and cancel: "P s \<Longrightarrow> keeps P (on_binding (cancel_active_response cause (cn_binding s)) s)"
    and begins: "P s \<Longrightarrow> keeps P (on_binding (binding_response_begin i pe (cn_binding s)) s)"
    and says: "P s \<Longrightarrow> keeps P (on_binding (response_text r n v (cn_binding s)) s)"
    and ends: "P s \<Longrightarrow> keeps P (on_binding (response_end r (cn_binding s)) s)"
    and error: "P s \<Longrightarrow> keeps P (on_binding (session_error code retry msg (cn_binding s)) s)"
    and noted: "P s \<Longrightarrow> keeps P (on_binding (note_downlink_media r n (cn_binding s)) s)"
    and datagram: "P s \<Longrightarrow> cn_udp s = Some u \<Longrightarrow> P (s\<lparr>cn_udp := Some u'\<rparr>)"
    and frame: "P s \<Longrightarrow> keeps P (on_binding (serialize_audio payload ts r (cn_binding s)) s)"
begin

lemmas free_fields [simp] = fields

lemma send_control_keeps: "P s \<Longrightarrow> keeps P (send_control wire ev s)"
  unfolding send_control_def by (intro keeps_rules) simp_all

lemma enqueue_nowait_keeps: "P s \<Longrightarrow> keeps P (enqueue_nowait ev s)"
  unfolding enqueue_nowait_def by (intro keeps_rules) simp_all

lemma send_session_error_keeps: "P s \<Longrightarrow> P (send_session_error_best_effort wire code msg s)"
proof -
  assume s: "P s"
  have "keeps P
     (bind_op (on_binding (session_error code True (JStr msg) (cn_binding s)) s) (\<lambda>ev s. send_control wire ev s))"
    using s by (intro keeps_bind error send_control_keeps)
  then show ?thesis by (simp add: keeps_def send_session_error_best_effort_def)
qed

lemma send_pending_keeps: "P s \<Longrightarrow> keeps P (send_pending_assistant_text wire r s)"
  unfolding send_pending_assistant_text_def
  by (intro keeps_rules keeps_bind says send_control_keeps)
    simp_all

lemma segment_text_keeps: "P s \<Longrightarrow> keeps P (segment_text wire sg txt r s)"
  unfolding segment_text_def by (intro keeps_let send_pending_keeps) simp_all

lemma begin_segment_keeps: "P s \<Longrightarrow> keeps P (begin_segment sg s)"
  unfolding begin_segment_def
  by (intro keeps_rules keeps_bind begins) simp_all

lemma enqueue_segment_keeps: "P s \<Longrightarrow> keeps P (enqueue_segment item s)"
  unfolding enqueue_segment_def by (intro keeps_rules) simp_all

lemma emit_segment_keeps: "P s \<Longrightarrow> keeps P (emit_segment sg s)"
proof -
  assume s: "P s"
  then have "P (s\<lparr>cn_pending_assistant_text := None\<rparr>)" by simp
  from enqueue_segment_keeps [OF this, of "OutSegment sg (cn_pending_assistant_text s)"] show ?thesis
    using s failure unfolding emit_segment_def
    by (auto simp: keeps_def Let_def split: prod.splits sum.splits)
qed

lemma request_response_end_keeps: "P s \<Longrightarrow> P (request_response_end e s)"
  using enqueue_segment_keeps [of s "OutResponseEnd e"] failure
  by (auto simp: keeps_def request_response_end_def split: prod.splits sum.splits)

lemma finish_response_keeps: "P s \<Longrightarrow> keeps P (finish_response wire e s)"
  using send_pending_keeps [of s wire]
  by (auto simp: keeps_def finish_response_def split: prod.splits sum.splits option.splits)
    (metis snd_conv)+

lemma arm_watchdog_keeps: "P s \<Longrightarrow> P (arm_playback_terminal_watchdog r s)"
  by (simp add: arm_playback_terminal_watchdog_def)

lemma cancel_watchdog_keeps: "P s \<Longrightarrow> P (cancel_playback_terminal_watchdog r s)"
  by (simp add: cancel_playback_terminal_watchdog_def)

lemma end_response_keeps: "P s \<Longrightarrow> keeps P (end_response wire r s)"
proof -
  assume s: "P s"
  have "P (snd (on_binding (response_end r (cn_binding s)) s))"
    using ends [OF s, of r] by (simp add: keeps_def)
  then show ?thesis
    unfolding end_response_def
    by (cases "on_binding (response_end r (cn_binding s)) s")
      (auto intro!: keeps_rules keeps_bind send_control_keeps split: sum.splits)
qed

lemma response_ended_keeps: "P s \<Longrightarrow> P (response_ended e r s)"
  by (simp add: response_ended_def Let_def arm_watchdog_keeps)

lemma effect_begin_keeps: "P s \<Longrightarrow> P (effect_begin effect s)"
  by (auto simp: effect_begin_def fence_producer_def split: option.splits intro!: epoch)

lemma mark_activity_keeps: "P s \<Longrightarrow> P (mark_activity now s)"
  by (simp add: mark_activity_def)

lemma effect_started_keeps: "P s \<Longrightarrow> P (effect_playback_started now effect s)"
  by (simp add: effect_playback_started_def)

lemma effect_ended_keeps: "P s \<Longrightarrow> P (effect_playback_ended effect s)"
  by (simp add: effect_playback_ended_def Let_def cancel_watchdog_keeps split: option.split)

lemma effect_end_keeps: "P s \<Longrightarrow> P (effect_end now effect s)"
  by (simp add: effect_end_def Let_def effect_ended_keeps effect_started_keeps arm_watchdog_keeps split: option.split)

lemma agent_interrupt_keeps: "P s \<Longrightarrow> keeps P (agent_interrupt s)"
  by (auto simp: keeps_def agent_interrupt_def Let_def split: option.splits intro!: epoch)

lemma agent_interrupted_keeps: "P s \<Longrightarrow> keeps P (agent_interrupted answer s)"
  by (auto simp: keeps_def agent_interrupted_def split: option.splits intro!: epoch)

lemma accept_interruption_keeps: "P s \<Longrightarrow> keeps P (accept_interruption cx s)"
  unfolding accept_interruption_def
  by (intro keeps_rules keeps_bind cancel) (auto intro: effect_begin_keeps)

lemma on_uplink_keeps: "P s \<Longrightarrow> keeps P (on_uplink m s)"
  by (auto simp: keeps_def on_uplink_def split: prod.splits sum.splits)

lemma reader_frame_keeps: "P s \<Longrightarrow> keeps P (reader_frame t c now f s)"
  unfolding reader_frame_def
  by (cases f)
    (auto intro!: keeps_pair keeps_bind control media on_uplink_keeps
      effect_begin_keeps mark_activity_keeps)

lemma submit_candidate_keeps: "P s \<Longrightarrow> P (submit_interruption_candidate c now txt final s)"
  by (simp add: submit_interruption_candidate_def Let_def split: option.split)

lemma emit_user_transcript_keeps: "P s \<Longrightarrow> P (snd (emit_user_transcript c now speech final s))"
  by (simp add: emit_user_transcript_def transcript submit_candidate_keeps)

lemma receive_udp_audio_keeps: "P s \<Longrightarrow> P (snd (receive_udp_audio now c p ts g s))"
  by (simp add: receive_udp_audio_def Let_def mark_activity_def split: prod.split)

lemma watchdog_keeps: "P s \<Longrightarrow> P (playback_terminal_watchdog wire target s)"
  by (simp add: playback_terminal_watchdog_def Let_def failure send_session_error_keeps split: option.split)

lemma runner_terminal_keeps: "P s \<Longrightarrow> keeps P (runner_terminal wire owner s)"
  unfolding runner_terminal_def by (intro keeps_rules send_session_error_keeps) simp_all

lemma send_media_keeps:
  assumes s: "P s"
  shows "keeps P (send_media A cx payload r s)"
proof -
  have wss: "keeps P (bind_op (on_binding (serialize_audio payload (cn_downlink_timestamp s) r (cn_binding s)) s)
      (\<lambda>m s1. (Inr (Some m), s1)))"
    by (intro keeps_bind frame s keeps_pair)
  have udp: "keeps P (bind_op (on_binding (note_downlink_media r n (cn_binding s)) (s\<lparr>cn_udp := Some u'\<rparr>)) (\<lambda>_ s2. (Inr None, s2)))"
    if "cn_udp s = Some u" for n u u'
    using noted [OF datagram [OF s that], of r n u'] by (intro keeps_bind keeps_pair) simp_all
  show ?thesis
    unfolding send_media_def by (intro keeps_rules wss udp) (simp_all add: s datagram)
qed

lemma packet_counted_keeps: "P s \<Longrightarrow> P (packet_counted s)"
  by (simp add: packet_counted_def)

lemma transmit_keeps: "P s \<Longrightarrow> keeps P (transmit A cx payload r s)"
  using send_media_keeps [of s A cx payload r]
  by (auto simp: keeps_def transmit_def packet_counted_keeps split: prod.splits sum.splits option.splits)

lemma leave_loop_keeps: "P s \<Longrightarrow> keeps P (leave_loop env r s)"
  unfolding leave_loop_def by (intro keeps_bind keeps_pair send_pending_keeps)

lemma send_packet_keeps: "P s \<Longrightarrow> keeps P (send_packet env sg r i payload s)"
  unfolding send_packet_def
  by (intro keeps_bind transmit_keeps) (auto intro!: keeps_pair leave_loop_keeps split: packet_progress.split)

lemma packet_due_keeps: "P s \<Longrightarrow> keeps P (packet_due env sg r i payload s)"
  unfolding packet_due_def by (intro keeps_if send_packet_keeps leave_loop_keeps)

lemma loop_head_keeps: "P s \<Longrightarrow> keeps P (loop_head env sg r i s)"
  unfolding loop_head_def by (intro keeps_bind keeps_if keeps_pair send_pending_keeps leave_loop_keeps)

lemma packet_encoded_keeps: "P s \<Longrightarrow> keeps P (packet_encoded env od sg r i payload s)"
  unfolding packet_encoded_def by (intro keeps_if keeps_pair send_packet_keeps packet_due_keeps) simp_all

lemma pacing_ends_keeps: "P s \<Longrightarrow> keeps P (pacing_ends env to sg r i payload s)"
  unfolding pacing_ends_def by (intro keeps_if keeps_pair leave_loop_keeps packet_due_keeps)

lemma frame_written_keeps: "P s \<Longrightarrow> keeps P (frame_written ok s)"
  unfolding frame_written_def by (intro keeps_if keeps_pair packet_counted_keeps)

lemma take_item_keeps: "P (rt_conn rt) \<Longrightarrow> P (rt_conn (take_item env rt))"
proof -
  assume s: "P (rt_conn rt)"
  have seg: "keeps P (bind_op (begin_segment sg ((rt_conn rt)\<lparr>cn_segments := items\<rparr>)) (\<lambda>begun s1. case begun of
             None \<Rightarrow> (Inr SenderIdle, s1)
           | Some (r, None) \<Rightarrow> bind_op (segment_text (re_wire env) sg t r s1) (\<lambda>_ s2. (Inr (SenderLoop sg r 0), s2))
           | Some (r, Some ev) \<Rightarrow> bind_op (send_control (re_wire env) ev s1) (\<lambda>_ s2. (Inr (SenderBegun sg t r), s2))))" for sg items t
    using s by (intro keeps_bind begin_segment_keeps)
      (auto intro!: keeps_pair keeps_bind segment_text_keeps send_control_keeps split: option.split)
  show ?thesis
    using s seg finish_response_keeps [of "(rt_conn rt)\<lparr>cn_segments := items\<rparr>" for items]
    by (auto simp: take_item_def Let_def keeps_def split: list.split outbound.split)
qed

lemma sender_resumes_keeps:
  assumes s: "P (rt_conn rt)" and w: "\<And>media. parked_frame (rt_sender rt) = Some media \<Longrightarrow> P (write_frame media (rt_conn rt))"
  shows "P (rt_conn (sender_resumes env p l ok rt))"
proof -
  note ext = take_item_keeps [OF s] loop_head_keeps [OF s] packet_encoded_keeps [OF s] pacing_ends_keeps [OF s]
    end_response_keeps [OF s] response_ended_keeps [OF s] frame_written_keeps [OF s]
  have "P (response_announced (rt_conn rt))" using s by (simp add: response_announced_def)
  note segment_text_keeps [OF this]
  with ext s w show ?thesis by (auto simp: sender_resumes_def Let_def keeps_def parked_frame_def split: sender.splits)
qed

lemma effect_resumes_keeps: "P (rt_conn rt) \<Longrightarrow> P (rt_conn (effect_resumes env i now rt))"
  using send_control_keeps [of "rt_conn rt"] effect_end_keeps [of "rt_conn rt"]
  by (auto simp: effect_resumes_def keeps_def split: prod.splits list.splits sum.splits) (metis snd_conv)+

lemma reader_reads_keeps: "P (rt_conn rt) \<Longrightarrow> P (rt_conn (reader_reads t c now f rt))"
  using reader_frame_keeps [of "rt_conn rt" t c now f]
  by (auto simp: reader_reads_def keeps_def split: prod.splits sum.splits reader_result.splits)

lemma interruption_accepted_keeps: "P (rt_conn rt) \<Longrightarrow> P (rt_conn (interruption_accepted cx rt))"
  using accept_interruption_keeps [of "rt_conn rt" cx]
  by (auto simp: interruption_accepted_def keeps_def split: prod.splits sum.splits option.splits)

lemma runtime_step_keeps:
  assumes s: "P (rt_conn rt)" and w: "\<And>p l ok media. ev = Sender_Resumes p l ok \<Longrightarrow> parked_frame (rt_sender rt) = Some media \<Longrightarrow> P (write_frame media (rt_conn rt))"
  shows "P (rt_conn (runtime_step env ev rt))"
proof (cases ev)
  case Runner_Interrupt
  then show ?thesis
    using agent_interrupt_keeps [OF s] failure by (auto simp: keeps_def split: prod.splits sum.splits)
next
  case (Runner_Interrupted answer)
  then show ?thesis
    using agent_interrupted_keeps [OF s, of answer] failure by (auto simp: keeps_def split: prod.splits sum.splits)
next
  case (Agent_Segment sg)
  then show ?thesis using emit_segment_keeps [OF s, of sg] by (simp add: keeps_def)
next
  case (Runner_Terminal owner)
  then show ?thesis using runner_terminal_keeps [OF s, of "re_wire env" owner] by (simp add: keeps_def)
next
  case (Sender_Resumes p l ok)
  then show ?thesis using sender_resumes_keeps [OF s w] by simp
qed (simp_all add: s effect_resumes_keeps reader_reads_keeps interruption_accepted_keeps request_response_end_keeps
  emit_user_transcript_keeps receive_udp_audio_keeps watchdog_keeps emit_assistant_text_def)

end

text \<open>A property that also does not depend on the frames that were sent is kept by every schedule.\<close>

locale connection_invariant = connection_property +
  assumes frames: "P (s\<lparr>cn_media_sent := ms\<rparr>) = P s"
begin

lemma runtime_run_keeps: "P (rt_conn rt) \<Longrightarrow> P (rt_conn (runtime_run env evs rt))"
proof (induction evs arbitrary: rt)
  case (Cons ev evs)
  have "P (rt_conn (runtime_step env ev rt))"
    by (rule runtime_step_keeps) (simp_all add: Cons.prems write_frame_def frames)
  then show ?case using Cons.IH by (simp add: runtime_run_def)
qed (simp add: runtime_run_def)

end

section \<open>How the coordinator develops\<close>

definition later :: "response_coordinator \<Rightarrow> binding \<Rightarrow> bool" where
  "later c b \<longleftrightarrow> binding_inv b \<and> coordinator_extends c (rb_responses b)"

lemma later_self: "binding_inv b \<Longrightarrow> later (rb_responses b) b"
  by (simp add: later_def)

lemma later_with:
  assumes "later c b" and "\<And>c. responses_ok c \<Longrightarrow> responses_ok (snd (f c)) \<and> coordinator_extends c (snd (f c))"
  shows "keeps (later c) (with_responses f b)"
proof -
  have ok: "responses_ok (rb_responses b)" using assms(1) by (simp add: later_def binding_inv_def)
  show ?thesis
    using assms(1) assms(2) [OF ok] with_responses_inv [of b f] assms(2) coordinator_extends_trans
    by (auto simp: later_def keeps_def with_responses_snd)
qed

lemma later_same: "later c b \<Longrightarrow> rb_responses b' = rb_responses b \<Longrightarrow> (binding_inv b \<Longrightarrow> binding_inv b') \<Longrightarrow> later c b'"
  by (simp add: later_def)

lemma later_inv: "later c b \<Longrightarrow> binding_inv b"
  by (simp add: later_def)

lemma responses_ok_inv: "responses_ok c \<Longrightarrow> coordinator_inv c"
  by (simp add: responses_ok_def)

lemma cancel_active_response_later: "later c b \<Longrightarrow> keeps (later c) (cancel_active_response cause b)"
  unfolding cancel_active_response_def
  by (intro keeps_rules keeps_bind later_with conjI response_fence_ok response_fence_extends responses_ok_inv)

text \<open>An operation that leaves the coordinator alone, and one that only replaces it.\<close>

lemma keeps_later_frame:
  assumes "later c b" "keeps binding_inv m" "keeps (\<lambda>b'. rb_responses b' = rb_responses b) m"
  shows "keeps (later c) m"
  using assms by (auto simp: keeps_def later_def)

lemma open_session_later: "later c b \<Longrightarrow> keeps (later c) (open_session m b)"
  by (rule keeps_later_frame, assumption, rule open_session_inv, erule later_inv)
    (unfold open_session_def, intro keeps_rules, simp_all)

lemma remember_cancel_request_responses [simp]: "rb_responses (remember_cancel_request i ident b) = rb_responses b"
  by (simp add: remember_cancel_request_def split: prod.splits)

lemma receive_cancel_later: "later c b \<Longrightarrow> keeps (later c) (receive_cancel m b)"
proof -
  assume b: "later c b"
  have "keeps (\<lambda>b'. coordinator_extends c (rb_responses b')) (receive_cancel m b)"
    unfolding receive_cancel_def
    using b cancel_active_response_later [OF b, of "''explicit_user_request''"]
    by (intro keeps_rules keeps_bind) (auto simp: keeps_def later_def)
  then show ?thesis using receive_cancel_inv [OF later_inv [OF b], of m] by (simp add: keeps_def later_def)
qed

lemma receive_playback_started_later: "later c b \<Longrightarrow> keeps (later c) (receive_playback_started m b)"
  unfolding receive_playback_started_def
  by (intro keeps_rules keeps_bind later_with conjI response_playback_started_ok response_playback_started_extends responses_ok_inv)

lemma receive_playback_ended_later: "later c b \<Longrightarrow> keeps (later c) (receive_playback_ended m b)"
  unfolding receive_playback_ended_def
  by (intro keeps_rules keeps_bind later_with conjI response_playback_ended_ok response_playback_ended_extends responses_ok_inv)

lemma receive_close_later: "later c b \<Longrightarrow> keeps (later c) (receive_close m b)"
  unfolding receive_close_def by (intro keeps_rules keeps_bind cancel_active_response_later)

lemma receive_control_later: "later c b \<Longrightarrow> keeps (later c) (receive_control raw b)"
  unfolding receive_control_def
  by (intro keeps_rules keeps_bind open_session_later receive_cancel_later receive_playback_started_later
      receive_playback_ended_later receive_close_later)

lemma receive_media_later: "later c b \<Longrightarrow> keeps (later c) (receive_media raw b)"
  by (rule keeps_later_frame, assumption, rule receive_media_inv, erule later_inv)
    (unfold receive_media_def, intro keeps_rules, simp_all)

lemma reserve_downlink_media_later: "later c b \<Longrightarrow> keeps (later c) (reserve_downlink_media r b)"
proof -
  assume b: "later c b"
  have "keeps (\<lambda>b'. coordinator_extends c (rb_responses b')) (reserve_downlink_media r b)"
    unfolding reserve_downlink_media_def
    using b later_with [OF b, of "note_media r n" for n] note_media_ok note_media_extends responses_ok_inv
    by (intro keeps_rules keeps_bind) (auto simp: keeps_def later_def)
  then show ?thesis using reserve_downlink_media_inv [OF later_inv [OF b], of r] by (simp add: keeps_def later_def)
qed

lemma note_downlink_media_later: "later c b \<Longrightarrow> keeps (later c) (note_downlink_media r n b)"
  unfolding note_downlink_media_def
  by (intro keeps_rules later_with conjI note_media_ok note_media_extends responses_ok_inv)

lemma serialize_audio_later: "later c b \<Longrightarrow> keeps (later c) (serialize_audio p ts r b)"
  unfolding serialize_audio_def by (intro keeps_rules keeps_bind reserve_downlink_media_later)

lemma transcript_event_later: "later c b \<Longrightarrow> keeps (later c) (transcript_event f u n txt b)"
  by (rule keeps_later_frame, assumption, rule transcript_event_inv, erule later_inv)
    (unfold transcript_event_def advance_transcript_def, intro keeps_rules keeps_bind, simp_all)

lemma binding_response_begin_later: "later c b \<Longrightarrow> keeps (later c) (binding_response_begin i e b)"
proof -
  assume b: "later c b"
  have "keeps (\<lambda>b'. coordinator_extends c (rb_responses b')) (binding_response_begin i e b)"
    unfolding binding_response_begin_def
    using b later_with [OF b, of "response_begin i e"] response_begin_ok response_begin_extends responses_ok_inv
    by (intro keeps_rules keeps_bind) (auto simp: keeps_def later_def require_identifier_Inr)
  then show ?thesis using binding_response_begin_inv [OF later_inv [OF b], of i e] by (simp add: keeps_def later_def)
qed

lemma response_text_later: "later c b \<Longrightarrow> keeps (later c) (response_text r n txt b)"
  by (rule keeps_later_frame, assumption, rule response_text_inv, erule later_inv)
    (unfold response_text_def, intro keeps_rules, simp_all)

lemma response_end_later: "later c b \<Longrightarrow> keeps (later c) (response_end r b)"
  unfolding response_end_def
  by (intro keeps_rules keeps_bind later_with conjI response_complete_ok response_complete_extends responses_ok_inv)

lemma session_error_later: "later c b \<Longrightarrow> keeps (later c) (session_error code retry msg b)"
  unfolding session_error_def by (intro keeps_rules)

section \<open>How a connection develops\<close>

text \<open>
  From one moment to a later one, the records of the responses only extend and the minimum epoch of the producer does
  not fall.
\<close>

definition conn_extends :: "connection \<Rightarrow> connection \<Rightarrow> bool" where
  "conn_extends s s' \<longleftrightarrow> later (rb_responses (cn_binding s)) (cn_binding s') \<and>
     cn_minimum_producer_epoch s \<le> cn_minimum_producer_epoch s'"

lemma conn_extends_refl: "binding_inv (cn_binding s) \<Longrightarrow> conn_extends s s"
  by (simp add: conn_extends_def later_self)

lemma conn_extends_trans:
  assumes a: "conn_extends s s'" and b: "conn_extends s' s''"
  shows "conn_extends s s''"
  using a b coordinator_extends_trans by (auto simp: conn_extends_def later_def)

lemma conn_extends_inv: "conn_extends s s' \<Longrightarrow> binding_inv (cn_binding s')"
  by (simp add: conn_extends_def later_def)

text \<open>Nothing but the binding and the minimum epoch matters.\<close>

lemma conn_extends_updates [simp]:
  "conn_extends s0 (s\<lparr>cn_limits := x0\<rparr>) = conn_extends s0 s"
  "conn_extends s0 (s\<lparr>cn_udp := x1\<rparr>) = conn_extends s0 s"
  "conn_extends s0 (s\<lparr>cn_uplink := x2\<rparr>) = conn_extends s0 s"
  "conn_extends s0 (s\<lparr>cn_interruption := x3\<rparr>) = conn_extends s0 s"
  "conn_extends s0 (s\<lparr>cn_runner := x4\<rparr>) = conn_extends s0 s"
  "conn_extends s0 (s\<lparr>cn_runner_calls := x5\<rparr>) = conn_extends s0 s"
  "conn_extends s0 (s\<lparr>cn_closed := x6\<rparr>) = conn_extends s0 s"
  "conn_extends s0 (s\<lparr>cn_failures := x7\<rparr>) = conn_extends s0 s"
  "conn_extends s0 (s\<lparr>cn_output := x8\<rparr>) = conn_extends s0 s"
  "conn_extends s0 (s\<lparr>cn_sent := x9\<rparr>) = conn_extends s0 s"
  "conn_extends s0 (s\<lparr>cn_active_producer_epoch := x10\<rparr>) = conn_extends s0 s"
  "conn_extends s0 (s\<lparr>cn_generation_changed := x11\<rparr>) = conn_extends s0 s"
  "conn_extends s0 (s\<lparr>cn_response_sequence := x12\<rparr>) = conn_extends s0 s"
  "conn_extends s0 (s\<lparr>cn_utterance_sequence := x13\<rparr>) = conn_extends s0 s"
  "conn_extends s0 (s\<lparr>cn_active_utterance_id := x14\<rparr>) = conn_extends s0 s"
  "conn_extends s0 (s\<lparr>cn_transcript_sequence := x15\<rparr>) = conn_extends s0 s"
  "conn_extends s0 (s\<lparr>cn_pending_assistant_text := x16\<rparr>) = conn_extends s0 s"
  "conn_extends s0 (s\<lparr>cn_assistant_text_sent := x17\<rparr>) = conn_extends s0 s"
  "conn_extends s0 (s\<lparr>cn_active_assistant_text := x18\<rparr>) = conn_extends s0 s"
  "conn_extends s0 (s\<lparr>cn_response_text_sequence := x19\<rparr>) = conn_extends s0 s"
  "conn_extends s0 (s\<lparr>cn_playback_started_at := x20\<rparr>) = conn_extends s0 s"
  "conn_extends s0 (s\<lparr>cn_interrupt_candidate_started_at := x21\<rparr>) = conn_extends s0 s"
  "conn_extends s0 (s\<lparr>cn_watchdog_target := x22\<rparr>) = conn_extends s0 s"
  "conn_extends s0 (s\<lparr>cn_primary_close_cause := x23\<rparr>) = conn_extends s0 s"
  "conn_extends s0 (s\<lparr>cn_interrupt_tasks := x24\<rparr>) = conn_extends s0 s"
  "conn_extends s0 (s\<lparr>cn_downlink_timestamp := x25\<rparr>) = conn_extends s0 s"
  "conn_extends s0 (s\<lparr>cn_downlink_packets := x26\<rparr>) = conn_extends s0 s"
  "conn_extends s0 (s\<lparr>cn_udp_uplink_sequence := x27\<rparr>) = conn_extends s0 s"
  "conn_extends s0 (s\<lparr>cn_udp_input_packets := x28\<rparr>) = conn_extends s0 s"
  "conn_extends s0 (s\<lparr>cn_last_activity := x29\<rparr>) = conn_extends s0 s"
  "conn_extends s0 (s\<lparr>cn_last_udp_authenticated := x30\<rparr>) = conn_extends s0 s"
  "conn_extends s0 (s\<lparr>cn_segments := x31\<rparr>) = conn_extends s0 s"
  "conn_extends s0 (s\<lparr>cn_wss_input_packets := x32\<rparr>) = conn_extends s0 s"
  "conn_extends s0 (s\<lparr>cn_input_pcm_sequence := x33\<rparr>) = conn_extends s0 s"
  "conn_extends s0 (s\<lparr>cn_decoded_pcm_frames := x34\<rparr>) = conn_extends s0 s"
  "conn_extends s0 (s\<lparr>cn_invalid_opus_packets := x35\<rparr>) = conn_extends s0 s"
  "conn_extends s0 (s\<lparr>cn_consecutive_invalid_opus_packets := x36\<rparr>) = conn_extends s0 s"
  "conn_extends s0 (s\<lparr>cn_runner_push_frames := x37\<rparr>) = conn_extends s0 s"
  "conn_extends s0 (s\<lparr>cn_overload := x38\<rparr>) = conn_extends s0 s"
  "conn_extends s0 (s\<lparr>cn_close_code := x39\<rparr>) = conn_extends s0 s"
  "conn_extends s0 (s\<lparr>cn_media_sent := x40\<rparr>) = conn_extends s0 s"
  by (simp_all add: conn_extends_def)

lemma conn_extends_epoch:
  "conn_extends s0 s \<Longrightarrow> cn_minimum_producer_epoch s \<le> e \<Longrightarrow> conn_extends s0 (s\<lparr>cn_minimum_producer_epoch := e\<rparr>)"
  by (simp add: conn_extends_def)

lemma conn_extends_binding:
  assumes s: "conn_extends s0 s" and m: "\<And>c. later c (cn_binding s) \<Longrightarrow> keeps (later c) m"
  shows "keeps (conn_extends s0) (on_binding m s)"
proof -
  have "later (rb_responses (cn_binding s)) (snd m)"
    using m [OF later_self] conn_extends_inv [OF s] by (simp add: keeps_def)
  then have "conn_extends s (s\<lparr>cn_binding := snd m\<rparr>)" by (simp add: conn_extends_def)
  from conn_extends_trans [OF s this] show ?thesis
    by (auto simp: keeps_def on_binding_def split: prod.splits sum.splits)
qed

interpretation develops: connection_invariant "conn_extends s0" for s0
proof unfold_locales
  fix s and speech :: string and final :: bool
  assume s: "conn_extends s0 s"
  have "keeps (conn_extends s0) (emit_transcript speech final s)"
    unfolding emit_transcript_def transcript_final_def transcript_delta_def enqueue_nowait_def
    by (intro keeps_rules keeps_bind conn_extends_binding transcript_event_later) (simp_all add: s begin_utterance_def)
  then show "conn_extends s0 (reported (emit_transcript speech final s))"
    by (auto simp: keeps_def reported_def report_failure_def split: prod.splits sum.splits)
qed (simp_all add: conn_extends_epoch report_failure_def conn_extends_binding receive_control_later receive_media_later
  cancel_active_response_later binding_response_begin_later response_text_later response_end_later session_error_later
  note_downlink_media_later serialize_audio_later)

section \<open>Frames are serialized for live responses only\<close>

text \<open>
  The frames of a connection are those handed to the socket and the one that waits for the wire lock. Those that come
  in between two moments belong to responses that had no outcome at the earlier one.
\<close>

definition media_frames :: "runtime \<Rightarrow> bytes list" where
  "media_frames rt = cn_media_sent (rt_conn rt) @ (case parked_frame (rt_sender rt) of None \<Rightarrow> [] | Some media \<Rightarrow> [media])"

definition live_frame :: "response_coordinator \<Rightarrow> response_coordinator \<Rightarrow> bytes \<Rightarrow> bool" where
  "live_frame c c' m \<longleftrightarrow> (\<exists>fr r. serialize fr = Inr m \<and> r < length (rc_heap c') \<and>
     fr_generation fr = pr_generation (rr_target (rec_at c' r)) \<and> (r < length (rc_heap c) \<longrightarrow> rr_outcome (rec_at c r) = None))"

lemma live_frame_later:
  "live_frame c c' m \<Longrightarrow> coordinator_extends c' c'' \<Longrightarrow> live_frame c c'' m"
  unfolding live_frame_def coordinator_extends_def record_extends_def by (metis less_le_trans)

lemma live_frame_earlier:
  "live_frame c' c'' m \<Longrightarrow> coordinator_extends c c' \<Longrightarrow> live_frame c c'' m"
  unfolding live_frame_def coordinator_extends_def record_extends_def by (metis less_le_trans)

lemma serialize_audio_live:
  assumes b: "binding_inv b" and m: "serialize_audio payload ts r b = (Inr m, b')"
  shows "live_frame (rb_responses b) (rb_responses b') m"
proof -
  have c: "coordinator_inv (rb_responses b)" using b by (simp add: binding_inv_def responses_ok_def)
  obtain fr where fr: "serialize fr = Inr m" "fr_generation fr = pr_generation (rr_target (rec_at (rb_responses b') r))"
    and acc: "response_accepts (rb_responses b) r" and len: "length (rc_heap (rb_responses b')) = length (rc_heap (rb_responses b))"
    using m by (auto simp: serialize_audio_def reserve_downlink_media_def bind_op_Inr_iff with_responses_def note_media_def
        Let_def split: if_splits prod.splits)
  have "r < length (rc_heap (rb_responses b))" "rr_outcome (rec_at (rb_responses b) r) = None"
    using acc coordinator_invD(6) [OF c, of r] coordinator_invD(4) [OF c, of r]
    by (auto simp: response_accepts_def record_ok_def Let_def)
  then show ?thesis using fr len unfolding live_frame_def by metis
qed

interpretation media_kept: connection_property "\<lambda>s. cn_media_sent s = ms" for ms
proof unfold_locales
  fix s :: connection and speech :: string and final :: bool
  assume s: "cn_media_sent s = ms"
  then show "cn_media_sent (reported (emit_transcript speech final s)) = ms"
    by (auto simp: emit_transcript_def transcript_final_def transcript_delta_def enqueue_nowait_def reported_def report_failure_def
        begin_utterance_def bind_op_def on_binding_def Let_def split: prod.splits sum.splits)
qed (auto simp: report_failure_def keeps_def on_binding_def split: prod.splits sum.splits)

lemma leave_loop_idle: "leave_loop env r s = (Inr pc, s') \<Longrightarrow> pc = SenderIdle"
  by (auto simp: leave_loop_def bind_op_Inr_iff)

lemma send_media_frame:
  "send_media A cx payload r s = (Inr (Some m), s') \<Longrightarrow>
    on_binding (serialize_audio payload (cn_downlink_timestamp s) r (cn_binding s)) s = (Inr m, s')"
  by (auto simp: send_media_def bind_op_Inr_iff split: if_splits option.splits prod.splits sum.splits)

lemma transmit_frame: "transmit A cx payload r s = (Inr (FrameReady m), s') \<Longrightarrow> send_media A cx payload r s = (Inr (Some m), s')"
  by (auto simp: transmit_def split: if_splits option.splits prod.splits sum.splits)

lemma send_packet_parked:
  assumes p: "send_packet env sg r i payload s = (Inr pc, s')" and m: "parked_frame pc = Some m"
  shows "on_binding (serialize_audio payload (cn_downlink_timestamp s) r (cn_binding s)) s = (Inr m, s')"
proof -
  obtain progress s1 where "transmit (re_aead env) (re_udp env) payload r s = (Inr progress, s1)"
    and "(case progress of PacketSent \<Rightarrow> (Inr (SenderLoop sg r (Suc i)), s1) | FrameReady media \<Rightarrow> (Inr (SenderLocking sg r i media), s1)
      | PacketStale \<Rightarrow> leave_loop env r s1) = (Inr pc, s')"
    using p by (auto simp: send_packet_def bind_op_Inr_iff)
  then have "transmit (re_aead env) (re_udp env) payload r s = (Inr (FrameReady m), s')"
    using m by (cases progress) (auto simp: parked_frame_def dest!: leave_loop_idle)
  then show ?thesis by (intro send_media_frame transmit_frame)
qed

lemma packet_due_parked:
  assumes "packet_due env sg r i payload s = (Inr pc, s')" "parked_frame pc = Some m"
  shows "on_binding (serialize_audio payload (cn_downlink_timestamp s) r (cn_binding s)) s = (Inr m, s')"
  using assms send_packet_parked by (auto simp: packet_due_def parked_frame_def dest!: leave_loop_idle split: if_splits)

lemma packet_encoded_parked:
  assumes "packet_encoded env late sg r i payload s = (Inr pc, s')" "parked_frame pc = Some m"
  shows "on_binding (serialize_audio payload (cn_downlink_timestamp s) r (cn_binding s)) s = (Inr m, s')"
  using assms send_packet_parked packet_due_parked by (auto simp: packet_encoded_def parked_frame_def split: if_splits)

lemma pacing_ends_parked:
  assumes "pacing_ends env late sg r i payload s = (Inr pc, s')" "parked_frame pc = Some m"
  shows "on_binding (serialize_audio payload (cn_downlink_timestamp s) r (cn_binding s)) s = (Inr m, s')"
  using assms packet_due_parked by (auto simp: pacing_ends_def parked_frame_def dest!: leave_loop_idle split: if_splits)

lemma sender_does_parked:
  assumes "parked_frame (rt_sender (sender_does op k rt)) = Some m"
  obtains a s where "op = (Inr a, s)" "parked_frame (k a s) = Some m" "rt_conn (sender_does op k rt) = s"
  using assms by (cases op; cases "fst op") (simp_all add: sender_does_def task_raises_def parked_frame_def)

lemma take_item_not_parked: "parked_frame (rt_sender rt) = None \<Longrightarrow> parked_frame (rt_sender (take_item env rt)) = None"
  by (auto simp: take_item_def Let_def sender_does_def task_raises_def parked_frame_def bind_op_def
      split: list.splits outbound.splits prod.splits sum.splits option.splits)

lemma loop_head_not_parked: "loop_head env sg r i s = (Inr pc, s') \<Longrightarrow> parked_frame pc = None"
  by (auto simp: loop_head_def bind_op_Inr_iff parked_frame_def dest!: leave_loop_idle split: if_splits)

lemma sender_parks:
  assumes before: "parked_frame (rt_sender rt) = None"
    and after: "parked_frame (rt_sender (sender_resumes env payload late ok rt)) = Some m"
  shows "\<exists>r p. on_binding (serialize_audio p (cn_downlink_timestamp (rt_conn rt)) r (cn_binding (rt_conn rt))) (rt_conn rt) =
    (Inr m, rt_conn (sender_resumes env payload late ok rt))"
proof (cases "rt_sender rt")
  case (SenderEncoding sg r i)
  then have eq: "sender_resumes env payload late ok rt = sender_does (packet_encoded env late sg r i payload (rt_conn rt)) (\<lambda>pc _. pc) rt"
    by (simp add: sender_resumes_def)
  show ?thesis using after packet_encoded_parked unfolding eq by (elim sender_does_parked) blast
next
  case (SenderPacing sg r i p)
  then have eq: "sender_resumes env payload late ok rt = sender_does (pacing_ends env late sg r i p (rt_conn rt)) (\<lambda>pc _. pc) rt"
    by (simp add: sender_resumes_def)
  show ?thesis using after pacing_ends_parked unfolding eq by (elim sender_does_parked) blast
next
  case SenderIdle
  then show ?thesis using assms take_item_not_parked by (simp add: sender_resumes_def)
next
  case (SenderLoop sg r i)
  then have eq: "sender_resumes env payload late ok rt = sender_does (loop_head env sg r i (rt_conn rt)) (\<lambda>pc _. pc) rt"
    by (simp add: sender_resumes_def)
  show ?thesis using after loop_head_not_parked unfolding eq by (elim sender_does_parked) fastforce
qed (use assms in \<open>auto simp: sender_resumes_def Let_def parked_frame_def sender_does_def task_raises_def
  split: prod.splits sum.splits if_splits\<close>)

lemma other_task_sender: "(\<And>p l ok. ev \<noteq> Sender_Resumes p l ok) \<Longrightarrow> rt_sender (runtime_step env ev rt) = rt_sender rt"
  by (cases ev) (auto simp: effect_resumes_def reader_reads_def interruption_accepted_def start_effect_def task_does_def task_raises_def
      split: prod.splits sum.splits option.splits list.splits reader_result.splits)

lemma runtime_step_frames:
  assumes b: "binding_inv (cn_binding (rt_conn rt))"
  shows "\<exists>ms. media_frames (runtime_step env ev rt) = media_frames rt @ ms \<and>
    list_all (live_frame (rb_responses (cn_binding (rt_conn rt))) (rb_responses (cn_binding (rt_conn (runtime_step env ev rt))))) ms"
proof (cases "\<exists>p l ok. ev = Sender_Resumes p l ok")
  case False
  then have "cn_media_sent (rt_conn (runtime_step env ev rt)) = cn_media_sent (rt_conn rt)"
    by (intro media_kept.runtime_step_keeps) auto
  then show ?thesis using False other_task_sender [of ev env rt] by (simp add: media_frames_def)
next
  case True
  then obtain p l ok where ev: "ev = Sender_Resumes p l ok" by blast
  show ?thesis
  proof (cases "parked_frame (rt_sender rt)")
    case (Some media)
    then show ?thesis
      by (auto simp: ev media_frames_def parked_frame_def sender_resumes_def write_frame_def Let_def split: sender.splits)
  next
    case None
    let ?rt = "runtime_step env ev rt"
    have kept: "cn_media_sent (rt_conn ?rt) = cn_media_sent (rt_conn rt)"
      using None by (intro media_kept.runtime_step_keeps) auto
    show ?thesis
    proof (cases "parked_frame (rt_sender ?rt)")
      case (Some m)
      obtain r q where on: "on_binding (serialize_audio q (cn_downlink_timestamp (rt_conn rt)) r (cn_binding (rt_conn rt))) (rt_conn rt) = (Inr m, rt_conn ?rt)"
        using sender_parks [OF None, of env p l ok m] Some by (auto simp: ev)
      obtain b' where "serialize_audio q (cn_downlink_timestamp (rt_conn rt)) r (cn_binding (rt_conn rt)) = (Inr m, b')" "rt_conn ?rt = (rt_conn rt)\<lparr>cn_binding := b'\<rparr>"
        using on unfolding on_binding_def by (auto split: prod.splits sum.splits)
      then show ?thesis using serialize_audio_live [OF b] kept None Some by (simp add: media_frames_def)
    qed (simp add: media_frames_def kept None)
  qed
qed

lemma runtime_step_extends:
  "binding_inv (cn_binding (rt_conn rt)) \<Longrightarrow> conn_extends (rt_conn rt) (rt_conn (runtime_step env ev rt))"
  by (intro develops.runtime_step_keeps conn_extends_refl) (simp_all add: write_frame_def conn_extends_refl)

lemma runtime_run_frames:
  assumes "binding_inv (cn_binding (rt_conn rt))"
  shows "\<exists>ms. media_frames (runtime_run env evs rt) = media_frames rt @ ms \<and>
    list_all (live_frame (rb_responses (cn_binding (rt_conn rt))) (rb_responses (cn_binding (rt_conn (runtime_run env evs rt))))) ms"
  using assms
proof (induction evs arbitrary: rt)
  case (Cons ev evs)
  let ?c = "\<lambda>rt. rb_responses (cn_binding (rt_conn rt))" and ?rt = "runtime_step env ev rt"
  have ext: "conn_extends (rt_conn rt) (rt_conn ?rt)" by (rule runtime_step_extends [OF Cons.prems])
  note inv = conn_extends_inv [OF ext]
  obtain ms ns where m: "media_frames ?rt = media_frames rt @ ms" "list_all (live_frame (?c rt) (?c ?rt)) ms"
    and n: "media_frames (runtime_run env evs ?rt) = media_frames ?rt @ ns" "list_all (live_frame (?c ?rt) (?c (runtime_run env evs ?rt))) ns"
    using runtime_step_frames [OF Cons.prems, of env ev] Cons.IH [OF inv] by blast
  have e: "coordinator_extends (?c rt) (?c ?rt)" "coordinator_extends (?c ?rt) (?c (runtime_run env evs ?rt))"
    using ext develops.runtime_run_keeps [OF conn_extends_refl [OF inv], of env evs] by (auto simp: conn_extends_def later_def)
  have "list_all (live_frame (?c rt) (?c (runtime_run env evs ?rt))) (ms @ ns)"
    using m(2) n(2) live_frame_later [OF _ e(2)] live_frame_earlier [OF _ e(1)] by (auto simp: list_all_iff)
  then show ?case using m(1) n(1) by (auto simp: runtime_run_def)
qed (simp add: runtime_run_def)

section \<open>A stop that is on its way is final\<close>

definition stopped_record :: "binding \<Rightarrow> nat \<Rightarrow> bool" where
  "stopped_record b r \<longleftrightarrow> r < length (rc_heap (rb_responses b)) \<and> rr_outcome (rec_at (rb_responses b) r) \<noteq> None"

definition effect_fenced :: "control_effect \<Rightarrow> connection \<Rightarrow> bool" where
  "effect_fenced effect s \<longleftrightarrow> (\<forall>r. ce_interrupt effect = Some r \<longrightarrow> stopped_record (cn_binding s) r \<and>
     rr_producer_epoch (rec_at (rb_responses (cn_binding s)) r) < cn_minimum_producer_epoch s)"

definition runtime_inv :: "runtime \<Rightarrow> bool" where
  "runtime_inv rt \<longleftrightarrow> binding_inv (cn_binding (rt_conn rt)) \<and> (\<forall>x\<in>set (rt_effects rt). effect_fenced (fst x) (rt_conn rt))"

lemma effect_fenced_ext: "effect_fenced effect s \<Longrightarrow> conn_extends s s' \<Longrightarrow> effect_fenced effect s'"
  unfolding effect_fenced_def conn_extends_def later_def stopped_record_def coordinator_extends_def record_extends_def
  by (metis less_le_trans)

lemma with_responses_Inr:
  "with_responses f b = (Inr a, b') \<longleftrightarrow> f (rb_responses b) = (Inr a, rb_responses b') \<and> b' = b\<lparr>rb_responses := rb_responses b'\<rparr>"
  by (cases "f (rb_responses b)"; cases b; cases b') (auto simp: with_responses_def)

lemma cancel_interrupt:
  assumes b: "binding_inv b" and c: "cancel_active_response cause b = (Inr effect, b')" and r: "ce_interrupt effect = Some r"
  shows "stopped_record b' r"
proof -
  have inv: "coordinator_inv (rb_responses b)" using b by (simp add: binding_inv_def responses_ok_def)
  obtain g outcome err where f: "response_fence r outcome err (rb_responses b) = (Inr g, rb_responses b')"
    using c r
    by (auto simp: cancel_active_response_def bind_op_Inr_iff with_responses_Inr no_effect_def Let_def
        split: option.splits if_splits)
  show ?thesis using response_fence_Inr [OF inv f] by (simp add: stopped_record_def)
qed

lemma receive_control_interrupt:
  assumes b: "binding_inv b" and c: "receive_control raw b = (Inr effect, b')" and r: "ce_interrupt effect = Some r"
  shows "stopped_record b' r"
proof -
  consider m where "receive_cancel m b = (Inr effect, b')" | m where "receive_close m b = (Inr effect, b')"
    using c r
    by (auto simp: receive_control_def bind_op_Inr_iff receive_playback_started_def receive_playback_ended_def no_effect_def
        Let_def split: if_splits prod.splits)
  then show ?thesis
  proof cases
    case 1
    then show ?thesis
      using r cancel_interrupt [OF b]
      by (auto simp: receive_cancel_def bind_op_Inr_iff no_effect_def stopped_record_def Let_def
          split: if_splits prod.splits option.splits)
  next
    case 2
    then show ?thesis
      using r cancel_interrupt [OF b] by (auto simp: receive_close_def bind_op_Inr_iff no_effect_def split: if_splits)
  qed
qed

lemma effect_begin_fenced:
  assumes "\<And>r. ce_interrupt effect = Some r \<Longrightarrow> stopped_record (cn_binding s) r"
  shows "effect_fenced effect (effect_begin effect s)"
  using assms by (auto simp: effect_fenced_def effect_begin_def fence_producer_def)

lemma reader_frame_fenced:
  assumes b: "binding_inv (cn_binding s)" and f: "reader_frame t c now f s = (Inr (ReaderEffect effect), s')"
  shows "effect_fenced effect s'"
proof -
  obtain raw b1 where a: "receive_control raw (cn_binding s) = (Inr effect, b1)"
    and s': "s' = effect_begin effect (mark_activity now (s\<lparr>cn_binding := b1\<rparr>))"
    using f by (auto simp: reader_frame_def on_binding_def bind_op_Inr_iff split: frame.splits prod.splits sum.splits)
  show ?thesis
    unfolding s' using receive_control_interrupt [OF b a] by (intro effect_begin_fenced) (simp add: mark_activity_def)
qed

lemma accept_interruption_fenced:
  assumes b: "binding_inv (cn_binding s)" and f: "accept_interruption cx s = (Inr (Some effect), s')"
  shows "effect_fenced effect s'"
proof -
  obtain b1 where a: "cancel_active_response ''recognized_interrupt'' (cn_binding s) = (Inr effect, b1)"
    and s': "s' = effect_begin effect (s\<lparr>cn_binding := b1\<rparr>)"
    using f by (auto simp: accept_interruption_def on_binding_def bind_op_Inr_iff split: if_splits prod.splits sum.splits)
  show ?thesis unfolding s' using cancel_interrupt [OF b a] by (intro effect_begin_fenced) simp
qed

lemma set_drop_at: "set (drop_at i xs) \<subseteq> set xs"
  by (auto simp: drop_at_def dest: in_set_takeD in_set_dropD)

text \<open>The effects of a step: those of before, the one that was resumed, and a new one that is fenced.\<close>

lemma runtime_step_effects:
  assumes inv: "runtime_inv rt" and x: "x \<in> set (rt_effects (runtime_step env ev rt))"
  shows "fst x \<in> fst ` set (rt_effects rt) \<or> effect_fenced (fst x) (rt_conn (runtime_step env ev rt))"
proof (cases ev)
  case (Sender_Resumes p l ok)
  then show ?thesis
    using x by (auto simp: sender_resumes_def take_item_def Let_def split: sender.splits list.splits outbound.splits)
next
  case (Effect_Resumes i now)
  show ?thesis
  proof (cases "i < length (rt_effects rt)")
    case True
    have upd: "y \<in> set (rt_effects rt) \<or> y = z" if "y \<in> set ((rt_effects rt)[i := z])" for y z
      using set_update_subset_insert [of "rt_effects rt" i z] that by blast
    show ?thesis
      using x Effect_Resumes True set_drop_at [of i "rt_effects rt"]
      by (auto simp: effect_resumes_def split: prod.splits list.splits sum.splits dest!: upd) (metis fst_conv image_eqI nth_mem)
  qed (use x Effect_Resumes in \<open>auto simp: effect_resumes_def\<close>)
next
  case (Reader_Reads t c now f)
  obtain res s' where rf: "reader_frame t c now f (rt_conn rt) = (res, s')" by fastforce
  show ?thesis
    using x Reader_Reads rf reader_frame_fenced [of "rt_conn rt" t c now f _ s'] inv
    by (auto simp: reader_reads_def start_effect_def runtime_inv_def split: sum.splits reader_result.splits)
next
  case (Interruption_Accepted cx)
  obtain res s' where a: "accept_interruption cx (rt_conn rt) = (res, s')" by fastforce
  show ?thesis
    using x Interruption_Accepted a accept_interruption_fenced [of "rt_conn rt" cx _ s'] inv
    by (auto simp: interruption_accepted_def start_effect_def runtime_inv_def split: sum.splits option.splits)
qed (use x in \<open>auto simp: split: prod.splits\<close>)

lemma runtime_step_inv:
  assumes inv: "runtime_inv rt"
  shows "runtime_inv (runtime_step env ev rt)"
proof -
  have ext: "conn_extends (rt_conn rt) (rt_conn (runtime_step env ev rt))"
    using inv by (intro runtime_step_extends) (simp add: runtime_inv_def)
  have "effect_fenced (fst x) (rt_conn (runtime_step env ev rt))" if "x \<in> set (rt_effects (runtime_step env ev rt))" for x
    using runtime_step_effects [OF inv that] effect_fenced_ext [OF _ ext] inv by (auto simp: runtime_inv_def)
  then show ?thesis using conn_extends_inv [OF ext] by (simp add: runtime_inv_def)
qed

lemma runtime_run_inv: "runtime_inv rt \<Longrightarrow> runtime_inv (runtime_run env evs rt)"
  by (induction evs arbitrary: rt) (simp_all add: runtime_run_def runtime_step_inv)

lemma generations_distinct:
  assumes c: "coordinator_inv c" and r: "r < length (rc_heap c)" "r' < length (rc_heap c)"
    and eq: "pr_generation (rr_target (rec_at c r)) = pr_generation (rr_target (rec_at c r'))"
  shows "r = r'"
proof -
  have "sorted_wrt (<) (map (\<lambda>x. pr_generation (rr_target x)) (rc_heap c))"
    using c by (simp add: coordinator_inv_def)
  then have "distinct (map (\<lambda>x. pr_generation (rr_target x)) (rc_heap c))"
    by (simp add: strict_sorted_iff)
  then show ?thesis
    using r eq nth_eq_iff_index_eq [of "map (\<lambda>x. pr_generation (rr_target x)) (rc_heap c)" r r'] by (simp add: rec_at_def)
qed

lemma live_frame_generation:
  assumes l: "live_frame c c' m" and e: "coordinator_extends c c'" and c': "coordinator_inv c'"
    and r: "r < length (rc_heap c)" "rr_outcome (rec_at c r) \<noteq> None" and p: "parse m = Inr fr"
  shows "fr_generation fr \<noteq> pr_generation (rr_target (rec_at c r))"
proof
  assume eq: "fr_generation fr = pr_generation (rr_target (rec_at c r))"
  obtain fr' r' where f: "serialize fr' = Inr m" "r' < length (rc_heap c')"
    "fr_generation fr' = pr_generation (rr_target (rec_at c' r'))" "r' < length (rc_heap c) \<longrightarrow> rr_outcome (rec_at c r') = None"
    using l by (auto simp: live_frame_def)
  have "fr' = fr" using p wss_frame.decode_encode [OF f(1)] by simp
  moreover have "rr_target (rec_at c' r) = rr_target (rec_at c r)" "r < length (rc_heap c')"
    using e r by (auto simp: coordinator_extends_def record_extends_def)
  ultimately have "r' = r" using generations_distinct [OF c' f(2)] eq f(3) by metis
  then show False using f(4) r by simp
qed

text \<open>Frames of one generation among those sent from a moment on.\<close>

definition frames_of :: "int \<Rightarrow> bytes list \<Rightarrow> bytes list" where
  "frames_of g ms = filter (\<lambda>m. case parse m of Inr fr \<Rightarrow> fr_generation fr = g | Inl _ \<Rightarrow> False) ms"

lemma stopped_stays_silent:
  assumes b: "binding_inv (cn_binding (rt_conn rt))" and st: "stopped_record (cn_binding (rt_conn rt)) r"
    and rt': "rt' = runtime_run env evs rt"
  defines "g \<equiv> pr_generation (rr_target (rec_at (rb_responses (cn_binding (rt_conn rt))) r))"
  shows "\<exists>k \<le> 1. frames_of g (drop (length (cn_media_sent (rt_conn rt))) (cn_media_sent (rt_conn rt'))) =
    take k (case parked_frame (rt_sender rt) of None \<Rightarrow> [] | Some media \<Rightarrow> [media])"
proof -
  let ?c = "\<lambda>rt. rb_responses (cn_binding (rt_conn rt))"
  let ?s = "cn_media_sent (rt_conn rt)" and ?s' = "cn_media_sent (rt_conn rt')"
  let ?p = "\<lambda>rt. case parked_frame (rt_sender rt) of None \<Rightarrow> [] | Some x \<Rightarrow> [x]"
  obtain ms where f: "media_frames rt' = media_frames rt @ ms" and live: "list_all (live_frame (?c rt) (?c rt')) ms"
    using runtime_run_frames [OF b, of env evs] rt' by blast
  have "conn_extends (rt_conn rt) (rt_conn rt')"
    unfolding rt' by (intro develops.runtime_run_keeps conn_extends_refl b)
  then have e: "coordinator_extends (?c rt) (?c rt')" "coordinator_inv (?c rt')"
    by (auto simp: conn_extends_def later_def binding_inv_def responses_ok_def)
  have "fr_generation fr \<noteq> g" if "m \<in> set ms" "parse m = Inr fr" for m fr
    unfolding g_def using live e st that by (intro live_frame_generation) (auto simp: list_all_iff stopped_record_def)
  then have none: "frames_of g ms = []" by (auto simp: frames_of_def filter_empty_conv split: sum.splits)
  have "?s' @ ?p rt' = ?s @ ?p rt @ ms" using f by (simp add: media_frames_def)
  then have "drop (length ?s) ?s' @ drop (length ?s - length ?s') (?p rt') = ?p rt @ ms"
    by (metis append_eq_conv_conj drop_append)
  then have eq: "frames_of g (drop (length ?s) ?s') @ frames_of g (drop (length ?s - length ?s') (?p rt')) = frames_of g (?p rt)"
    using none by (metis append_Nil2 filter_append frames_of_def)
  show ?thesis
  proof (cases "frames_of g (drop (length ?s) ?s')")
    case Nil
    then show ?thesis by (intro exI [of _ 0]) simp
  next
    case (Cons m rest)
    then have "frames_of g (drop (length ?s) ?s') = ?p rt"
      using eq by (cases "parked_frame (rt_sender rt)") (auto simp: frames_of_def split: if_splits)
    then show ?thesis by (intro exI [of _ 1]) (auto split: option.split)
  qed
qed


definition runtime_demo_conn :: connection where
  "runtime_demo_conn = connection_init uplink_demo_limits demo_playing None False 0"

definition runtime_demo_context :: interruption_context where
  "runtime_demo_context = \<lparr>ix_transcript = [], ix_is_final = True, ix_playback_age_seconds = 1, ix_candidate_age_seconds = 1,
     ix_assistant_text = [], ix_response_id = ''r1'', ix_generation = 1\<rparr>"


definition runtime_demo_env :: runtime_env where
  "runtime_demo_env = \<lparr>re_wire = (\<lambda>_. None), re_aead = udp_demo_aead, re_udp = udp_demo_ctx\<rparr>"


lemma udp_send_audio_sent:
  assumes "udp_send_audio A cx payload ts g u = (Inr n, u')"
  shows "\<exists>d. us_sent u' = us_sent u @ [d]"
  using assms by (auto simp: udp_send_audio_def udp_send_def Let_def split: if_splits option.splits)

lemma sender_encoded_stopped:
  assumes pc: "rt_sender rt = SenderEncoding sg r i" and i: "int i < rl_playback_prebuffer_packets (cn_limits (rt_conn rt))"
    and p: "rb_selected_media_profile (cn_binding (rt_conn rt)) = Some UDP_PROFILE" and u: "cn_udp (rt_conn rt) = Some u"
    and sent: "udp_send_audio (re_aead env) (re_udp env) payload (cn_downlink_timestamp (rt_conn rt))
      (pr_generation (rr_target (rec_at (rb_responses (cn_binding (rt_conn rt))) r))) u = (Inr n, u')"
    and n: "is_uint32 n" and inactive: "active_response (cn_binding (rt_conn rt)) \<noteq> Some r"
  shows "rt_sender (sender_resumes env payload late ok rt) = SenderIdle \<and>
    rt_conn (sender_resumes env payload late ok rt) = (rt_conn rt)\<lparr>cn_udp := Some u'\<rparr>"
proof -
  have "\<not> response_accepts (rb_responses (cn_binding (rt_conn rt))) r"
    using inactive by (auto simp: response_accepts_def active_response_def)
  then have noted: "note_downlink_media r n (cn_binding (rt_conn rt)) = (Inl stale_generation, cn_binding (rt_conn rt))"
    using n by (simp add: note_downlink_media_def require_uint32_def validate_uint32_def is_uint32_def with_responses_def
        note_media_def check_that_def)
  have "send_media (re_aead env) (re_udp env) payload r (rt_conn rt) =
      (Inl (BindingFailure ''stale_generation''), (rt_conn rt)\<lparr>cn_udp := Some u'\<rparr>)"
    using p u sent noted by (simp add: send_media_def on_binding_def exn_of_binding_def)
  then have "transmit (re_aead env) (re_udp env) payload r (rt_conn rt) = (Inr PacketStale, (rt_conn rt)\<lparr>cn_udp := Some u'\<rparr>)"
    by (simp add: transmit_def)
  moreover have "send_pending_assistant_text (re_wire env) r ((rt_conn rt)\<lparr>cn_udp := Some u'\<rparr>) = (Inr (), (rt_conn rt)\<lparr>cn_udp := Some u'\<rparr>)"
    using inactive by (simp add: send_pending_assistant_text_def split: option.split)
  ultimately show ?thesis
    using pc i by (simp add: sender_resumes_def Let_def sender_does_def packet_encoded_def send_packet_def leave_loop_def)
qed

lemma leave_loop_inactive:
  "active_response (cn_binding s) \<noteq> Some r \<Longrightarrow> leave_loop env r s = (Inr SenderIdle, s)"
  by (simp add: leave_loop_def send_pending_assistant_text_def split: option.split)

lemma sender_late_stopped:
  assumes pc: "rt_sender rt = SenderEncoding sg r i" and i: "\<not> int i < rl_playback_prebuffer_packets (cn_limits (rt_conn rt))"
    and inactive: "active_response (cn_binding (rt_conn rt)) \<noteq> Some r" and rt': "rt' = sender_resumes env payload late ok rt"
  shows "rt_sender rt' \<in> {SenderIdle, SenderPacing sg r i payload}" "cn_udp (rt_conn rt') = cn_udp (rt_conn rt)"
    "active_response (cn_binding (rt_conn rt')) \<noteq> Some r"
  using pc i inactive leave_loop_inactive [OF inactive, of env]
  by (simp_all add: rt' sender_resumes_def Let_def sender_does_def packet_encoded_def packet_due_def)

lemma sender_pacing_stopped:
  assumes pc: "rt_sender rt = SenderPacing sg r i payload" and inactive: "active_response (cn_binding (rt_conn rt)) \<noteq> Some r"
  shows "cn_udp (rt_conn (sender_resumes env p late ok rt)) = cn_udp (rt_conn rt)"
  using pc inactive leave_loop_inactive [OF inactive, of env]
  by (simp add: sender_resumes_def Let_def sender_does_def pacing_ends_def packet_due_def)


definition runtime_demo_encoding :: runtime where
  "runtime_demo_encoding = (runtime_init (connection_init uplink_demo_limits
       (demo_playing\<lparr>rb_allowed_profiles := [UDP_PROFILE], rb_udp_grant := Some [], rb_selected_media_profile := Some UDP_PROFILE\<rparr>)
       (Some ((udp_session_init udp_demo_grant 4)\<lparr>us_ready := True, us_source := Some (''p'', 1)\<rparr>)) False 0))
     \<lparr>rt_sender := SenderEncoding \<lparr>sg_producer_epoch = 0, sg_frames = 3\<rparr> 0 0\<rparr>"

lemma runtime_demo_binding_inv:
  "binding_inv (demo_playing\<lparr>rb_allowed_profiles := [UDP_PROFILE], rb_udp_grant := Some [], rb_selected_media_profile := Some UDP_PROFILE\<rparr>)"
  using demo_playing_inv by (simp add: binding_inv_def SUPPORTED_PROFILES_def demo_playing_def)

lemma runtime_demo_send:
  "\<exists>u'. udp_send_audio udp_demo_aead udp_demo_ctx [1] 0 1
     ((udp_session_init udp_demo_grant 4)\<lparr>us_ready := True, us_source := Some (''p'', 1)\<rparr>) = (Inr 0, u')"
  by (simp add: udp_send_audio_def udp_send_def udp_session_init_def udp_demo_grant_def udp_demo_ctx_def udp_demo_aead_def
      udp_header_encode_def udp_struct_def header_pack_def header_in_range_def header_wire_def udp_consts is_byte_def
      is_uint32_def uint32_max_def mask32_mod Let_def)


end
