(* ===== verification/Runtime_Text.thy ===== *)
theory Runtime_Text
  imports Runtime_Tasks "HOL-Library.Sublist"
begin

text \<open>
  The numbering of transcripts: the connection and the binding each keep the current utterance and its next sequence
  number, and they never disagree while nothing has failed.
\<close>

section \<open>Utterance ids are distinct\<close>

definition dec_value :: "string \<Rightarrow> nat" where
  "dec_value s = foldl (\<lambda>a c. 10 * a + (of_char c - 48)) 0 s"

lemma dec_value_append: "dec_value (s @ [c]) = 10 * dec_value s + (of_char c - 48)"
  by (simp add: dec_value_def)

lemma dec_value_dec: "dec_value (dec n) = n"
proof (induction n rule: dec.induct)
  case (1 n)
  show ?case
  proof (cases "n < 10")
    case True
    then show ?thesis by (subst dec.simps) (simp add: dec_value_def)
  next
    case False
    then show ?thesis using 1 by (subst dec.simps) (simp add: dec_value_append)
  qed
qed

lemma dec_value_pad: "dec_value (replicate k CHR ''0'' @ s) = dec_value s"
proof -
  have "foldl (\<lambda>a c. 10 * a + (of_char c - 48)) 0 (replicate k CHR ''0'') = (0 :: nat)" by (induction k) simp_all
  then show ?thesis by (simp add: dec_value_def)
qed

lemma utterance_id_inj: "utterance_id m = utterance_id n \<longleftrightarrow> m = n"
  unfolding utterance_id_def pad8_def by (metis append_same_eq dec_value_dec dec_value_pad same_append_eq)

section \<open>The binding's transcript state\<close>

definition transcript_view :: "binding \<Rightarrow> string option \<times> int \<times> string option" where
  "transcript_view b = (rb_active_utterance_id b, rb_next_transcript_sequence b, rb_last_finalized_utterance b)"

abbreviation same_transcripts :: "binding \<Rightarrow> binding \<Rightarrow> bool" where
  "same_transcripts b b' \<equiv> transcript_view b' = transcript_view b"

lemma same_transcripts_with: "same_transcripts b b' \<Longrightarrow> keeps (same_transcripts b) (with_responses f b')"
  by (simp add: keeps_def with_responses_snd transcript_view_def)

lemma cancel_same: "same_transcripts b b' \<Longrightarrow> keeps (same_transcripts b) (cancel_active_response cause b')"
  unfolding cancel_active_response_def by (intro keeps_rules keeps_bind same_transcripts_with)

lemma open_same: "same_transcripts b b' \<Longrightarrow> keeps (same_transcripts b) (open_session m b')"
  unfolding open_session_def by (intro keeps_rules) (simp_all add: transcript_view_def)

lemma receive_cancel_same: "same_transcripts b b' \<Longrightarrow> keeps (same_transcripts b) (receive_cancel m b')"
  unfolding receive_cancel_def
  by (intro keeps_rules keeps_bind cancel_same) (simp_all add: transcript_view_def remember_cancel_request_def split: prod.split)

lemma receive_control_same: "same_transcripts b b' \<Longrightarrow> keeps (same_transcripts b) (receive_control raw b')"
  unfolding receive_control_def receive_playback_started_def receive_playback_ended_def receive_close_def
  by (intro keeps_rules keeps_bind open_same receive_cancel_same cancel_same same_transcripts_with)

lemma receive_media_same: "same_transcripts b b' \<Longrightarrow> keeps (same_transcripts b) (receive_media raw b')"
  unfolding receive_media_def by (intro keeps_rules) (simp_all add: transcript_view_def)

lemma binding_response_begin_same: "same_transcripts b b' \<Longrightarrow> keeps (same_transcripts b) (binding_response_begin i e b')"
  unfolding binding_response_begin_def
  by (intro keeps_rules keeps_bind same_transcripts_with) (simp_all add: transcript_view_def)

lemma response_text_same: "same_transcripts b b' \<Longrightarrow> keeps (same_transcripts b) (response_text r n v b')"
  unfolding response_text_def by (intro keeps_rules) (simp_all add: transcript_view_def)

lemma response_end_same: "same_transcripts b b' \<Longrightarrow> keeps (same_transcripts b) (response_end r b')"
  unfolding response_end_def by (intro keeps_rules keeps_bind same_transcripts_with)

lemma session_error_same: "same_transcripts b b' \<Longrightarrow> keeps (same_transcripts b) (session_error code retry msg b')"
  unfolding session_error_def by (intro keeps_rules)

lemma note_downlink_media_same: "same_transcripts b b' \<Longrightarrow> keeps (same_transcripts b) (note_downlink_media r n b')"
  unfolding note_downlink_media_def by (intro keeps_rules same_transcripts_with)

lemma serialize_audio_same: "same_transcripts b b' \<Longrightarrow> keeps (same_transcripts b) (serialize_audio p ts r b')"
  unfolding serialize_audio_def reserve_downlink_media_def
  by (intro keeps_rules keeps_bind same_transcripts_with) (simp_all add: transcript_view_def)

section \<open>Agreement\<close>

definition numbers_agree :: "nat \<Rightarrow> string option \<Rightarrow> int \<Rightarrow> string option \<times> int \<times> string option \<Rightarrow> bool" where
  "numbers_agree k active n view = (case view of (rb_active, rb_next, rb_last) \<Rightarrow> active = rb_active \<and>
     (case active of
        None \<Rightarrow> (\<forall>u. rb_last = Some u \<longrightarrow> (\<exists>m \<le> k. u = utterance_id m))
      | Some a \<Rightarrow> a = utterance_id k \<and> n = rb_next \<and> (\<forall>u. rb_last = Some u \<longrightarrow> (\<exists>m < k. u = utterance_id m))))"

definition in_step :: "connection \<Rightarrow> bool" where
  "in_step s \<longleftrightarrow> numbers_agree (cn_utterance_sequence s) (cn_active_utterance_id s) (cn_transcript_sequence s)
     (transcript_view (cn_binding s))"

lemmas in_step_unfold = in_step_def numbers_agree_def transcript_view_def

definition transcripts_agree :: "connection \<Rightarrow> bool" where
  "transcripts_agree s \<longleftrightarrow> cn_failures s = [] \<longrightarrow> in_step s"

text \<open>After the id was chosen, the binding has either not seen the utterance or is at the same number.\<close>

definition utterance_ready :: "connection \<Rightarrow> bool" where
  "utterance_ready s \<longleftrightarrow> cn_active_utterance_id s = Some (utterance_id (cn_utterance_sequence s)) \<and>
     rb_last_finalized_utterance (cn_binding s) \<noteq> Some (utterance_id (cn_utterance_sequence s)) \<and>
     (\<forall>u. rb_last_finalized_utterance (cn_binding s) = Some u \<longrightarrow> (\<exists>n < cn_utterance_sequence s. u = utterance_id n)) \<and>
     (case rb_active_utterance_id (cn_binding s) of
        None \<Rightarrow> cn_transcript_sequence s = 0
      | Some a \<Rightarrow> a = utterance_id (cn_utterance_sequence s) \<and> cn_transcript_sequence s = rb_next_transcript_sequence (cn_binding s))"

lemma begin_utterance_ready: "in_step s \<Longrightarrow> utterance_ready (begin_utterance s)"
  by (auto simp: in_step_unfold utterance_ready_def begin_utterance_def utterance_id_inj split: option.splits)

lemma advance_ready:
  assumes "utterance_ready s"
  shows "\<exists>b. advance_transcript (utterance_id (cn_utterance_sequence s)) (cn_transcript_sequence s) final (cn_binding s) = (Inr (), b) \<and>
    rb_active_utterance_id b = (if final then None else Some (utterance_id (cn_utterance_sequence s))) \<and>
    rb_next_transcript_sequence b = (if final then 0 else cn_transcript_sequence s + 1) \<and>
    rb_last_finalized_utterance b =
      (if final then Some (utterance_id (cn_utterance_sequence s)) else rb_last_finalized_utterance (cn_binding s))"
  using assms by (auto simp: utterance_ready_def advance_transcript_def Let_def split: option.splits)

lemma transcript_event_Inr:
  assumes "transcript_event final u n v b = (Inr ev, b')"
  shows "advance_transcript u n final b = (Inr (), b')"
  using assms by (auto simp: transcript_event_def bind_op_Inr_iff require_identifier_Inr require_uint32_Inr)

lemma emit_transcript_agrees:
  assumes s: "transcripts_agree s"
  shows "transcripts_agree (reported (emit_transcript speech final s))"
proof (cases "emit_transcript speech final s")
  case (Pair res s')
  show ?thesis
  proof (cases res)
    case (Inl e)
    then show ?thesis using Pair by (simp add: reported_def report_failure_def transcripts_agree_def)
  next
    case (Inr x)
    let ?s = "begin_utterance s"
    have fl: "cn_failures ?s = cn_failures s" by (simp add: begin_utterance_def)
    obtain b ev where ev: "transcript_event final (the (cn_active_utterance_id ?s)) (cn_transcript_sequence ?s) (JStr speech) (cn_binding ?s) = (Inr ev, b)"
      and s': "cn_failures s' = cn_failures s" "cn_binding s' = b" "cn_utterance_sequence s' = cn_utterance_sequence ?s"
        "cn_active_utterance_id s' = (if final then None else cn_active_utterance_id ?s)"
        "cn_transcript_sequence s' = (if final then 0 else cn_transcript_sequence ?s + 1)"
      using Pair Inr
      by (auto simp: emit_transcript_def Let_def transcript_final_def transcript_delta_def bind_op_Inr_iff on_binding_def
          enqueue_nowait_def fl split: if_splits prod.splits sum.splits)
    show ?thesis
      unfolding transcripts_agree_def
    proof
      assume "cn_failures (reported (emit_transcript speech final s)) = []"
      then have "in_step s" using s Pair Inr s' by (simp add: reported_def transcripts_agree_def)
      then have ready: "utterance_ready ?s" by (rule begin_utterance_ready)
      then have "the (cn_active_utterance_id ?s) = utterance_id (cn_utterance_sequence ?s)" by (simp add: utterance_ready_def)
      with ev have "advance_transcript (utterance_id (cn_utterance_sequence ?s)) (cn_transcript_sequence ?s) final (cn_binding ?s) = (Inr (), b)"
        using transcript_event_Inr by metis
      then show "in_step (reported (emit_transcript speech final s))"
        using advance_ready [OF ready, of final] ready Pair Inr s'
        by (auto simp: reported_def in_step_unfold utterance_ready_def)
    qed
  qed
qed

lemma agree_binding:
  assumes "transcripts_agree s" and "keeps (same_transcripts (cn_binding s)) m"
  shows "keeps transcripts_agree (on_binding m s)"
  using assms
  by (auto simp: keeps_def transcripts_agree_def in_step_def on_binding_def split: prod.splits sum.splits)

interpretation transcripts: connection_invariant transcripts_agree
proof unfold_locales
  fix s and speech :: string and final :: bool
  assume "transcripts_agree s"
  then show "transcripts_agree (reported (emit_transcript speech final s))" by (rule emit_transcript_agrees)
next
  fix s exn
  assume "transcripts_agree s"
  then show "transcripts_agree (report_failure exn s)" by (simp add: report_failure_def transcripts_agree_def)
qed (simp_all add: agree_binding receive_control_same receive_media_same cancel_same binding_response_begin_same
  response_text_same response_end_same session_error_same note_downlink_media_same serialize_audio_same,
  simp_all add: transcripts_agree_def in_step_def)

text \<open>
  C24. The connection and the binding number transcripts in step. In every state the tasks can reach, whatever they do
  and in whatever order, as long as no task has reported a failure: the utterance id and the sequence number the
  connection would use next are the ones the binding accepts, for a delta and for a final transcript.
\<close>

theorem transcripts_in_step:
  assumes "binding_init d sid ep mid me allowed grant timeout = Inr (Some b)"
    and "s = rt_conn (runtime_run env evs (runtime_init (connection_init limits b udp interruption now)))"
    and "cn_failures s = []"
  shows "let s1 = begin_utterance s in
    fst (advance_transcript (the (cn_active_utterance_id s1)) (cn_transcript_sequence s1) final (cn_binding s1)) = Inr () \<and>
    the (cn_active_utterance_id s1) = utterance_id (cn_utterance_sequence s1)"
proof -
  have "rb_active_utterance_id b = None" "rb_last_finalized_utterance b = None"
    using assms(1) by (auto simp: binding_init_def bind_result_Inr_iff split: if_splits option.splits)
  then have "transcripts_agree (connection_init limits b udp interruption now)"
    by (simp add: transcripts_agree_def in_step_unfold connection_init_def)
  then have "transcripts_agree s"
    unfolding assms(2) by (intro transcripts.runtime_run_keeps) (simp add: runtime_init_def)
  then have "utterance_ready (begin_utterance s)"
    using assms(3) by (intro begin_utterance_ready) (simp add: transcripts_agree_def)
  then show ?thesis using advance_ready [of "begin_utterance s" final] by (auto simp: utterance_ready_def Let_def)
qed

theorem transcripts_in_step_witness:
  "\<exists>b. binding_init ''dev'' ''s1'' ''e1'' (replicate 8 7) 1 [WSS_PROFILE] None 2 = Inr (Some b) \<and>
     fst (advance_transcript (utterance_id 1) 0 True b) = Inr ()"
proof -
  have ids: "is_identifier ''dev''" "is_identifier ''s1''" "is_identifier ''e1''"
    by (simp_all add: is_identifier_def ident_char_def)
  have "\<exists>b. binding_init ''dev'' ''s1'' ''e1'' (replicate 8 7) 1 [WSS_PROFILE] None 2 = Inr (Some b)"
    by (simp add: binding_init_def require_identifier_def ids require_uint32_def validate_uint32_def uint32_max_def
        voice_session_init_def check_that_def)
  then obtain b where b: "binding_init ''dev'' ''s1'' ''e1'' (replicate 8 7) 1 [WSS_PROFILE] None 2 = Inr (Some b)" by blast
  define s where "s = rt_conn (runtime_run runtime_demo_env [Agent_Text ''hi'']
    (runtime_init (connection_init uplink_demo_limits b None False 0)))"
  have "cn_failures s = []" "begin_utterance s = s\<lparr>cn_utterance_sequence := 1, cn_active_utterance_id := Some (utterance_id 1),
      cn_transcript_sequence := 0\<rparr>" "cn_binding s = b"
    by (simp_all add: s_def runtime_run_def runtime_init_def connection_init_def emit_assistant_text_def begin_utterance_def)
  then show ?thesis using transcripts_in_step [OF b s_def, of True] b by (simp add: Let_def)
qed

section \<open>Undecodable packets\<close>

text \<open>The decoder's answers to consecutive packets, until one ends the session.\<close>

fun decode_all :: "nat option list \<Rightarrow> connection \<Rightarrow> unit runtime_op" where
  "decode_all [] s = (Inr (), s)"
| "decode_all (a # as) s = bind_op (input_decoded a s) (\<lambda>_ s1. decode_all as s1)"

lemma decode_all_fails:
  assumes "0 \<le> c" "c < int k" "cn_consecutive_invalid_opus_packets s = c"
    "rl_max_consecutive_invalid_opus_packets (cn_limits s) = int k"
  shows "fst (decode_all as s) = Inl MediaDecodeFailed \<longleftrightarrow>
    prefix (replicate (k - nat c) None) as \<or> sublist (replicate k None) as"
  using assms
proof (induction as arbitrary: s c)
  case Nil
  then show ?case by simp
next
  case (Cons a as)
  show ?case
  proof (cases a)
    case (Some n)
    have "\<not> prefix (replicate (k - nat c) None) (a # as)" using Cons.prems Some by (cases "k - nat c") auto
    moreover have "sublist (replicate k None) (a # as) \<longleftrightarrow> sublist (replicate k None) as"
      using Cons.prems Some by (cases k) (auto simp: sublist_Cons_right)
    moreover have "prefix (replicate k None) as \<Longrightarrow> sublist (replicate k None) as" by (rule prefix_imp_sublist)
    ultimately show ?thesis
      using Cons.IH [of 0 "snd (input_decoded a s)"] Cons.prems Some by (auto simp: input_decoded_def)
  next
    case None
    show ?thesis
    proof (cases "c + 1 \<ge> int k")
      case True
      then have "k - nat c = 1" using Cons.prems by linarith
      then show ?thesis using None Cons.prems True by (auto simp: input_decoded_def Let_def)
    next
      case False
      have k: "k - nat c = Suc (k - nat (c + 1))" using False Cons.prems by linarith
      obtain m where m: "k = Suc m" using Cons.prems by (cases k) auto
      have "prefix (replicate k None) (None # as) \<longrightarrow> prefix (replicate (k - nat (c + 1)) None) as"
      proof
        assume "prefix (replicate k None) (None # as)"
        then have "prefix (replicate m None) as" by (simp add: m)
        moreover have "prefix (replicate (k - nat (c + 1)) None) (replicate m (None :: nat option))"
          using m Cons.prems by (intro prefixI [of _ _ "replicate (nat c) None"]) (simp flip: replicate_add)
        ultimately show "prefix (replicate (k - nat (c + 1)) None) as" using prefix_order.trans by blast
      qed
      then show ?thesis
        using Cons.IH [of "c + 1" "snd (input_decoded a s)"] Cons.prems None False k
        by (auto simp: input_decoded_def Let_def sublist_Cons_right)
    qed
  qed
qed

text \<open>
  Undecodable packets end the session exactly when the configured number of them arrives in a row: a packet that
  decodes in between starts the count anew.
\<close>

theorem decode_failure_iff_run:
  assumes "limits_valid limits"
  shows "fst (decode_all answers (connection_init limits b udp interruption now)) = Inl MediaDecodeFailed \<longleftrightarrow>
    sublist (replicate (nat (rl_max_consecutive_invalid_opus_packets limits)) None) answers"
proof -
  let ?k = "nat (rl_max_consecutive_invalid_opus_packets limits)"
  have "fst (decode_all answers (connection_init limits b udp interruption now)) = Inl MediaDecodeFailed \<longleftrightarrow>
    prefix (replicate (?k - nat 0) None) answers \<or> sublist (replicate ?k None) answers"
    by (rule decode_all_fails) (use assms in \<open>simp_all add: limits_valid_def connection_init_def\<close>)
  then show ?thesis using prefix_imp_sublist by auto
qed

theorem decode_failure_iff_run_witness:
  "fst (decode_all (replicate 7 None @ [Some 3] @ replicate 7 None) (connection_init uplink_demo_limits demo_playing None False 0))
     \<noteq> Inl MediaDecodeFailed"
proof -
  have "limits_valid uplink_demo_limits" by (simp add: limits_valid_def uplink_demo_limits_def)
  note eq = decode_failure_iff_run [OF this, of "replicate 7 None @ [Some 3] @ replicate 7 None" demo_playing None False 0]
  have "\<not> sublist (replicate 8 None) (replicate 7 None @ [Some 3] @ replicate 7 (None :: nat option))"
    by (simp add: numeral_eq_Suc sublist_Cons_right)
  then show ?thesis unfolding eq by (simp add: uplink_demo_limits_def)
qed

end
