(* ===== verification/Udp_Routing.thy ===== *)
theory Udp_Routing
  imports Udp_Gateway
begin

text \<open>
  The process-wide side of \<open>transport/udp_gateway.py\<close>: the life cycle of the socket with its transport generations,
  the table of media sessions, the routing of datagrams, and the failure of the transport. Sessions are objects on a
  heap (their index is their identity), since the table, their owner and their own tasks share them; a protocol object
  is known by the generation it was created for, which no other protocol object has.
\<close>

record gateway_config =
  gf_bind_port :: int
  gf_advertised_host :: string
  gf_advertised_port :: int
  gf_lifetime_seconds :: int
  gf_probe_timeout_seconds :: real
  gf_queue_size :: nat

record gateway_stats =
  gs_datagram_arrived :: int
  gs_undersized :: int
  gs_media_identity_matched :: int
  gs_media_identity_unknown :: int

record udp_gateway =
  gw_transport :: "nat option"
  gw_protocol :: "nat option"
  gw_transport_generation :: nat
  gw_sessions :: "(bytes, nat) dict"
  gw_heap :: "udp_session list"
  gw_stats :: gateway_stats
  gw_unknown_datagrams_since_log :: int
  gw_unknown_datagram_last_log_at :: "real option"
  gw_failure :: "udp_exn option"
  gw_closing :: bool
  gw_closed_transports :: "nat list"

definition gateway_init :: udp_gateway where
  "gateway_init = \<lparr>gw_transport = None, gw_protocol = None, gw_transport_generation = 0, gw_sessions = [], gw_heap = [],
     gw_stats = \<lparr>gs_datagram_arrived = 0, gs_undersized = 0, gs_media_identity_matched = 0, gs_media_identity_unknown = 0\<rparr>,
     gw_unknown_datagrams_since_log = 0, gw_unknown_datagram_last_log_at = None, gw_failure = None, gw_closing = False,
     gw_closed_transports = []\<rparr>"

definition gateway_is_ready :: "udp_gateway \<Rightarrow> bool" where
  "gateway_is_ready w \<longleftrightarrow> gw_transport w \<noteq> None \<and> gw_failure w = None \<and> \<not> gw_closing w"

definition gateway_session_count :: "udp_gateway \<Rightarrow> nat" where
  "gateway_session_count w = length (gw_sessions w)"

text \<open>The port the transport is bound to comes from the socket.\<close>

definition local_port :: "gateway_config \<Rightarrow> int \<Rightarrow> udp_gateway \<Rightarrow> int" where
  "local_port cfg sockname_port w = (case gw_transport w of None \<Rightarrow> gf_bind_port cfg | Some _ \<Rightarrow> sockname_port)"

definition is_current_transport :: "nat \<Rightarrow> nat \<Rightarrow> udp_gateway \<Rightarrow> bool" where
  "is_current_transport protocol generation w \<longleftrightarrow>
    gw_protocol w = Some protocol \<and> gw_transport_generation w = generation"

section \<open>The socket\<close>

text \<open>\<open>start\<close> up to the creation of the endpoint (\<open>None\<close>: nothing to do), and what it does when that raises.\<close>

definition gateway_start_begin :: "udp_gateway \<Rightarrow> nat option \<times> udp_gateway" where
  "gateway_start_begin w =
    (if gateway_is_ready w then (None, w)
     else
       let generation = gw_transport_generation w + 1
       in (Some generation, w\<lparr>gw_closing := False, gw_failure := None, gw_transport_generation := generation,
             gw_protocol := Some generation\<rparr>))"

definition gateway_start_failed :: "nat \<Rightarrow> udp_exn \<Rightarrow> udp_gateway \<Rightarrow> udp_gateway" where
  "gateway_start_failed generation exc w =
    (if is_current_transport generation generation w
     then w\<lparr>gw_protocol := None, gw_transport := None, gw_failure := Some exc\<rparr> else w)"

definition transport_started :: "nat \<Rightarrow> nat \<Rightarrow> nat \<Rightarrow> udp_gateway \<Rightarrow> udp_gateway" where
  "transport_started protocol generation transport w =
    (if gw_closing w \<or> \<not> is_current_transport protocol generation w
     then w\<lparr>gw_closed_transports := gw_closed_transports w @ [transport]\<rparr>
     else w\<lparr>gw_transport := Some transport\<rparr>)"

definition transport_error :: "nat \<Rightarrow> nat \<Rightarrow> udp_gateway \<Rightarrow> udp_gateway" where
  "transport_error protocol generation w = w"

definition report_to :: "udp_exn \<Rightarrow> nat \<Rightarrow> udp_session list \<Rightarrow> udp_session list" where
  "report_to exc i heap = heap[i := (heap ! i)\<lparr>us_reported := us_reported (heap ! i) @ [exc]\<rparr>]"

definition fail_transport :: "nat \<Rightarrow> nat \<Rightarrow> udp_exn \<Rightarrow> bool \<Rightarrow> udp_gateway \<Rightarrow> udp_gateway" where
  "fail_transport protocol generation exc close_transport w =
    (if gw_closing w \<or> gw_failure w \<noteq> None \<or> \<not> is_current_transport protocol generation w then w
     else w\<lparr>gw_failure := Some exc, gw_protocol := None, gw_transport := None,
       gw_closed_transports := gw_closed_transports w @
         (case gw_transport w of None \<Rightarrow> [] | Some t \<Rightarrow> if close_transport then [t] else []),
       gw_heap := fold (report_to exc) (dict_values (gw_sessions w)) (gw_heap w)\<rparr>)"

definition transport_lost :: "nat \<Rightarrow> nat \<Rightarrow> udp_exn \<Rightarrow> udp_gateway \<Rightarrow> udp_gateway" where
  "transport_lost protocol generation exc w = fail_transport protocol generation exc False w"

definition transport_failed :: "udp_exn \<Rightarrow> udp_gateway \<Rightarrow> udp_gateway" where
  "transport_failed exc w = (case gw_protocol w of
      None \<Rightarrow> w
    | Some protocol \<Rightarrow> fail_transport protocol (gw_transport_generation w) exc True w)"

section \<open>Sessions\<close>

definition gateway_remove :: "bytes \<Rightarrow> nat \<Rightarrow> udp_gateway \<Rightarrow> udp_gateway" where
  "gateway_remove media_id i w =
    (if dict_get (gw_sessions w) media_id = Some i then w\<lparr>gw_sessions := dict_pop media_id (gw_sessions w)\<rparr> else w)"

definition close_session :: "nat \<Rightarrow> udp_gateway \<Rightarrow> udp_gateway" where
  "close_session i w =
    (if us_closed (gw_heap w ! i) then w
     else
       let w1 = gateway_remove (ug_media_id (us_grant (gw_heap w ! i))) i w
       in w1\<lparr>gw_heap := (gw_heap w1)[i := udp_session_close (gw_heap w1 ! i)]\<rparr>)"

definition expire_session :: "nat \<Rightarrow> udp_gateway \<Rightarrow> udp_gateway" where
  "expire_session i w =
    (if us_closed (gw_heap w ! i) then w
     else
       let w1 = gateway_remove (ug_media_id (us_grant (gw_heap w ! i))) i w
       in w1\<lparr>gw_heap := (gw_heap w1)[i := udp_session_expire (gw_heap w1 ! i)]\<rparr>)"

definition gateway_close :: "udp_gateway \<Rightarrow> udp_gateway" where
  "gateway_close w =
    (let w1 = fold close_session (dict_values (gw_sessions w)) (w\<lparr>gw_closing := True, gw_sessions := []\<rparr>)
     in w1\<lparr>gw_protocol := None, gw_transport := None,
          gw_closed_transports := gw_closed_transports w1 @ (case gw_transport w1 of None \<Rightarrow> [] | Some t \<Rightarrow> [t])\<rparr>)"

text \<open>
  \<open>int(x)\<close> of a float truncates. The random values are arguments: \<open>draws\<close> is what successive calls of
  \<open>token_bytes(8)\<close> give, and \<open>None\<close> is a loop that has not found an unused id among them.
\<close>

definition trunc :: "real \<Rightarrow> int" where
  "trunc x = (if 0 \<le> x then \<lfloor>x\<rfloor> else \<lceil>x\<rceil>)"

record session_secrets =
  ss_epoch_bits :: int
  ss_uplink_key :: bytes
  ss_uplink_salt :: bytes
  ss_downlink_key :: bytes
  ss_downlink_salt :: bytes

definition session_grant :: "gateway_config \<Rightarrow> session_secrets \<Rightarrow> real \<Rightarrow> int \<Rightarrow> bytes \<Rightarrow> udp_gateway \<Rightarrow> udp_grant" where
  "session_grant cfg sec now sockname_port media_id w =
    \<lparr>ug_media_id = media_id, ug_media_epoch = (if ss_epoch_bits sec = 0 then 1 else ss_epoch_bits sec),
     ug_uplink_key = ss_uplink_key sec, ug_uplink_salt = ss_uplink_salt sec, ug_downlink_key = ss_downlink_key sec,
     ug_downlink_salt = ss_downlink_salt sec, ug_host = gf_advertised_host cfg,
     ug_port = (if gf_advertised_port cfg = 0 then local_port cfg sockname_port w else gf_advertised_port cfg),
     ug_expires_at = trunc now + gf_lifetime_seconds cfg, ug_probe_timeout_ms = trunc (gf_probe_timeout_seconds cfg * 1000)\<rparr>"

definition create_session ::
    "gateway_config \<Rightarrow> session_secrets \<Rightarrow> real \<Rightarrow> int \<Rightarrow> bytes list \<Rightarrow> udp_gateway \<Rightarrow> (udp_exn, nat, udp_gateway) op_result option" where
  "create_session cfg sec now sockname_port draws w =
    (if \<not> gateway_is_ready w then Some (Inl (UdpMediaError ''UDP gateway is unavailable''), w)
     else case find (\<lambda>m. m \<notin> set (dict_keys (gw_sessions w))) draws of
         None \<Rightarrow> None
       | Some media_id \<Rightarrow>
           let i = length (gw_heap w);
               s = udp_session_init (session_grant cfg sec now sockname_port media_id w) (gf_queue_size cfg)
           in Some (Inr i, w\<lparr>gw_heap := gw_heap w @ [s], gw_sessions := dict_set media_id i (gw_sessions w)\<rparr>))"

section \<open>Routing\<close>

definition UNKNOWN_DATAGRAM_LOG_INTERVAL_SECONDS :: real where "UNKNOWN_DATAGRAM_LOG_INTERVAL_SECONDS = 5"

definition log_unknown_datagrams_if_due :: "real \<Rightarrow> udp_gateway \<Rightarrow> udp_gateway" where
  "log_unknown_datagrams_if_due now w =
    (let w1 = w\<lparr>gw_unknown_datagrams_since_log := gw_unknown_datagrams_since_log w + 1\<rparr>
     in if (case gw_unknown_datagram_last_log_at w of None \<Rightarrow> False
              | Some t \<Rightarrow> now - t < UNKNOWN_DATAGRAM_LOG_INTERVAL_SECONDS) then w1
        else w1\<lparr>gw_unknown_datagrams_since_log := 0, gw_unknown_datagram_last_log_at := Some now\<rparr>)"

definition route_datagram :: "nat \<Rightarrow> nat \<Rightarrow> real \<Rightarrow> bytes \<Rightarrow> address \<Rightarrow> udp_gateway \<Rightarrow> udp_gateway" where
  "route_datagram protocol generation now data addr w =
    (if \<not> is_current_transport protocol generation w then w
     else
       let w1 = gw_stats_update (gs_datagram_arrived_update ((+) 1)) w
       in if length data < UDP_HEADER_BYTES
            then log_unknown_datagrams_if_due now (gw_stats_update (gs_undersized_update ((+) 1)) w1)
          else case dict_get (gw_sessions w1) (take 8 (drop 4 data)) of
              None \<Rightarrow> log_unknown_datagrams_if_due now (gw_stats_update (gs_media_identity_unknown_update ((+) 1)) w1)
            | Some i \<Rightarrow>
                let w2 = gw_stats_update (gs_media_identity_matched_update ((+) 1)) w1
                in w2\<lparr>gw_heap := (gw_heap w2)[i := udp_enqueue data addr (gw_heap w2 ! i)]\<rparr>)"

section \<open>Invariant\<close>

text \<open>
  The table maps each media id to a session that was created for it and is not closed; a closing or failed gateway
  has no transport, and only the current generation has a protocol.
\<close>

definition entry_ok :: "udp_session list \<Rightarrow> bytes \<times> nat \<Rightarrow> bool" where
  "entry_ok heap x \<longleftrightarrow> snd x < length heap \<and> ug_media_id (us_grant (heap ! snd x)) = fst x \<and> \<not> us_closed (heap ! snd x)"

definition gateway_inv :: "udp_gateway \<Rightarrow> bool" where
  "gateway_inv w \<longleftrightarrow> dict_wf (gw_sessions w) \<and> list_all (entry_ok (gw_heap w)) (gw_sessions w) \<and>
    (gw_failure w \<noteq> None \<longrightarrow> gw_transport w = None \<and> gw_protocol w = None) \<and>
    (gw_protocol w \<noteq> None \<longrightarrow> gw_protocol w = Some (gw_transport_generation w))"

lemma gateway_init_inv: "gateway_inv gateway_init"
  by (simp add: gateway_inv_def gateway_init_def)

lemma start_inv: "gateway_inv w \<Longrightarrow> gateway_inv (snd (gateway_start_begin w))"
  by (auto simp: gateway_inv_def gateway_start_begin_def Let_def)

lemma start_failed_inv: "gateway_inv w \<Longrightarrow> gateway_inv (gateway_start_failed g exc w)"
  by (auto simp: gateway_inv_def gateway_start_failed_def)

lemma transport_started_inv: "gateway_inv w \<Longrightarrow> gateway_inv (transport_started p g t w)"
  by (auto simp: gateway_inv_def transport_started_def is_current_transport_def)

lemma report_to_fields:
  "length (fold (report_to exc) is heap) = length heap"
  "j < length heap \<Longrightarrow> us_grant (fold (report_to exc) is heap ! j) = us_grant (heap ! j) \<and>
     us_closed (fold (report_to exc) is heap ! j) = us_closed (heap ! j)"
proof (induction "is" arbitrary: heap)
  case (Cons i "is")
  { case 1
    show ?case using Cons(1) [of "report_to exc i heap"] by (simp add: report_to_def) }
  { case 2
    have "us_grant (report_to exc i heap ! j) = us_grant (heap ! j) \<and> us_closed (report_to exc i heap ! j) = us_closed (heap ! j)"
      using 2 by (cases "i = j") (simp_all add: report_to_def)
    then show ?case using Cons(2) [of "report_to exc i heap"] 2 by (simp add: report_to_def) }
qed simp_all

lemma entry_ok_heap:
  assumes "length heap' = length heap"
    and "\<And>j. j < length heap \<Longrightarrow> us_grant (heap' ! j) = us_grant (heap ! j) \<and> us_closed (heap' ! j) = us_closed (heap ! j)"
  shows "entry_ok heap x \<Longrightarrow> entry_ok heap' x"
  using assms by (simp add: entry_ok_def)

lemma fail_transport_inv:
  assumes "gateway_inv w"
  shows "gateway_inv (fail_transport p g exc c w)"
proof -
  have "list_all (entry_ok (fold (report_to exc) (dict_values (gw_sessions w)) (gw_heap w))) (gw_sessions w)"
    using assms entry_ok_heap [OF report_to_fields] unfolding gateway_inv_def list_all_iff by blast
  then show ?thesis using assms by (simp add: gateway_inv_def fail_transport_def)
qed

lemma transport_lost_inv: "gateway_inv w \<Longrightarrow> gateway_inv (transport_lost p g exc w)"
  by (simp add: transport_lost_def fail_transport_inv)

lemma transport_failed_inv: "gateway_inv w \<Longrightarrow> gateway_inv (transport_failed exc w)"
  by (simp add: transport_failed_def fail_transport_inv split: option.splits)

lemma create_session_inv:
  assumes "gateway_inv w" "create_session cfg sec now port draws w = Some (r, w')"
  shows "gateway_inv w'"
proof (cases "\<exists>i. r = Inr i")
  case False
  then have "w' = w" using assms(2) by (auto simp: create_session_def Let_def split: if_splits option.splits)
  then show ?thesis using assms(1) by simp
next
  case True
  then obtain m where m: "m \<notin> set (dict_keys (gw_sessions w))"
    and w': "gw_sessions w' = gw_sessions w @ [(m, length (gw_heap w))]"
      "gw_heap w' = gw_heap w @ [udp_session_init (session_grant cfg sec now port m w) (gf_queue_size cfg)]"
      "gw_failure w' = gw_failure w" "gw_transport w' = gw_transport w" "gw_protocol w' = gw_protocol w"
      "gw_transport_generation w' = gw_transport_generation w"
    using assms(2) by (auto simp: create_session_def Let_def find_Some_iff dict_set_new nth_mem split: if_splits option.splits)
  have "list_all (entry_ok (gw_heap w')) (gw_sessions w')"
    using assms(1) by (auto simp: w' gateway_inv_def entry_ok_def list_all_iff nth_append session_grant_def udp_session_init_def)
  then show ?thesis using assms(1) m w' by (simp add: gateway_inv_def)
qed

lemma route_datagram_inv:
  assumes "gateway_inv w"
  shows "gateway_inv (route_datagram p g now data addr w)"
proof (cases "is_current_transport p g w \<and> \<not> length data < UDP_HEADER_BYTES \<and> dict_get (gw_sessions w) (take 8 (drop 4 data)) \<noteq> None")
  case False
  then show ?thesis
    using assms by (auto simp: route_datagram_def log_unknown_datagrams_if_due_def gateway_inv_def Let_def split: option.splits)
next
  case True
  then obtain i where i: "dict_get (gw_sessions w) (take 8 (drop 4 data)) = Some i" by auto
  let ?heap = "(gw_heap w)[i := udp_enqueue data addr (gw_heap w ! i)]"
  have "us_grant (?heap ! j) = us_grant (gw_heap w ! j) \<and> us_closed (?heap ! j) = us_closed (gw_heap w ! j)" if "j < length (gw_heap w)" for j
    using that by (cases "i = j") (simp_all add: udp_enqueue_def Let_def)
  then have "list_all (entry_ok ?heap) (gw_sessions w)"
    using assms entry_ok_heap [of ?heap "gw_heap w"] by (simp add: gateway_inv_def list_all_iff)
  then show ?thesis using assms True i by (simp add: route_datagram_def gateway_inv_def Let_def)
qed

lemma table_unique:
  assumes "gateway_inv w" "(m, i) \<in> set (gw_sessions w)"
  shows "i < length (gw_heap w)" "ug_media_id (us_grant (gw_heap w ! i)) = m" "\<not> us_closed (gw_heap w ! i)"
  using assms by (auto simp: gateway_inv_def list_all_iff entry_ok_def dest!: bspec)

text \<open>A session leaves the table in the same step that closes or expires it.\<close>

lemma detach_inv:
  assumes inv: "gateway_inv w" and g: "us_grant s' = us_grant (gw_heap w ! i)"
  shows "gateway_inv (let w1 = gateway_remove (ug_media_id (us_grant (gw_heap w ! i))) i w in w1\<lparr>gw_heap := (gw_heap w1)[i := s']\<rparr>)"
proof -
  define m where "m = ug_media_id (us_grant (gw_heap w ! i))"
  define w1 where "w1 = gateway_remove m i w"
  have f: "gw_heap w1 = gw_heap w" "gw_failure w1 = gw_failure w" "gw_transport w1 = gw_transport w" "gw_protocol w1 = gw_protocol w"
    "gw_transport_generation w1 = gw_transport_generation w" by (simp_all add: w1_def gateway_remove_def)
  have sub: "set (gw_sessions w1) \<subseteq> set (gw_sessions w)" "dict_wf (gw_sessions w1)"
    using inv by (auto simp: w1_def gateway_remove_def gateway_inv_def dict_pop_mem)
  have "entry_ok ((gw_heap w)[i := s']) x" if x: "x \<in> set (gw_sessions w1)" for x
  proof -
    have e: "entry_ok (gw_heap w) x" using inv sub(1) x by (auto simp: gateway_inv_def list_all_iff)
    have "snd x \<noteq> i"
    proof
      assume i: "snd x = i"
      then have "fst x = m" using e by (simp add: entry_ok_def m_def)
      then have "x = (m, i)" using i by (simp add: prod_eq_iff)
      then have "(m, i) \<in> set (gw_sessions w)" using x sub(1) by blast
      then have "dict_get (gw_sessions w) m = Some i" using inv by (simp add: gateway_inv_def)
      then have "gw_sessions w1 = dict_pop m (gw_sessions w)" by (simp add: w1_def gateway_remove_def)
      then show False using x \<open>fst x = m\<close> by (simp add: dict_pop_mem)
    qed
    then show ?thesis using e by (simp add: entry_ok_def)
  qed
  then have "list_all (entry_ok ((gw_heap w)[i := s'])) (gw_sessions w1)" by (simp add: list_all_iff)
  then show ?thesis
    using inv sub(2) unfolding Let_def m_def [symmetric] w1_def [symmetric] by (simp add: gateway_inv_def f)
qed

lemma close_grant [simp]: "us_grant (udp_session_close s) = us_grant s" "us_grant (udp_session_expire s) = us_grant s"
  using passive_views(4,6) [of s] by (simp_all add: wire_view_def)

lemma gateway_remove_heap [simp]: "gw_heap (gateway_remove m i w) = gw_heap w"
  by (simp add: gateway_remove_def)

lemma close_session_inv: "gateway_inv w \<Longrightarrow> gateway_inv (close_session i w)"
  using detach_inv [of w "udp_session_close (gw_heap w ! i)" i] by (simp add: close_session_def Let_def)

lemma expire_session_inv: "gateway_inv w \<Longrightarrow> gateway_inv (expire_session i w)"
  using detach_inv [of w "udp_session_expire (gw_heap w ! i)" i] by (simp add: expire_session_def Let_def)

lemma fold_close_inv: "gateway_inv w \<Longrightarrow> gateway_inv (fold close_session xs w)"
  by (induction xs arbitrary: w) (simp_all add: close_session_inv)

lemma gateway_close_inv: "gateway_inv w \<Longrightarrow> gateway_inv (gateway_close w)"
proof -
  assume "gateway_inv w"
  then have "gateway_inv (w\<lparr>gw_closing := True, gw_sessions := []\<rparr>)" by (simp add: gateway_inv_def)
  from fold_close_inv [OF this] show ?thesis by (simp add: gateway_close_def Let_def gateway_inv_def)
qed

section \<open>Runs of the gateway\<close>

datatype gateway_event =
    Gateway_Start
  | Start_Failed nat udp_exn
  | Transport_Started nat nat
  | Transport_Lost nat udp_exn
  | Transport_Failed udp_exn
  | Create gateway_config session_secrets real int "bytes list"
  | Route nat real bytes address
  | Close_Session nat
  | Expire_Session nat
  | Gateway_Close

fun gateway_step :: "gateway_event \<Rightarrow> udp_gateway \<Rightarrow> udp_gateway" where
  "gateway_step Gateway_Start w = snd (gateway_start_begin w)"
| "gateway_step (Start_Failed g exc) w = gateway_start_failed g exc w"
| "gateway_step (Transport_Started g t) w = transport_started g g t w"
| "gateway_step (Transport_Lost g exc) w = transport_lost g g exc w"
| "gateway_step (Transport_Failed exc) w = transport_failed exc w"
| "gateway_step (Create cfg sec now port draws) w = (case create_session cfg sec now port draws w of None \<Rightarrow> w | Some (_, w') \<Rightarrow> w')"
| "gateway_step (Route g now data addr) w = route_datagram g g now data addr w"
| "gateway_step (Close_Session i) w = close_session i w"
| "gateway_step (Expire_Session i) w = expire_session i w"
| "gateway_step Gateway_Close w = gateway_close w"

lemma gateway_step_inv: "gateway_inv w \<Longrightarrow> gateway_inv (gateway_step ev w)"
  by (cases ev) (auto simp: start_inv start_failed_inv transport_started_inv transport_lost_inv transport_failed_inv
      route_datagram_inv close_session_inv expire_session_inv gateway_close_inv create_session_inv split: option.splits)

lemma gateway_run_inv: "gateway_inv w \<Longrightarrow> gateway_inv (fold gateway_step evs w)"
  by (induction evs arbitrary: w) (simp_all add: gateway_step_inv)

lemma close_session_generation [simp]: "gw_transport_generation (close_session i w) = gw_transport_generation w"
  by (simp add: close_session_def gateway_remove_def Let_def)

lemma fold_close_generation [simp]: "gw_transport_generation (fold close_session xs w) = gw_transport_generation w"
  by (induction xs arbitrary: w) simp_all

lemma gateway_step_generation: "gw_transport_generation w \<le> gw_transport_generation (gateway_step ev w)"
proof (cases ev)
  case (Create cfg sec now port draws)
  then show ?thesis by (simp add: create_session_def Let_def split: option.splits)
next
  case (Transport_Failed exc)
  then show ?thesis by (simp add: transport_failed_def fail_transport_def split: option.splits)
next
  case (Route g now data addr)
  then show ?thesis by (simp add: route_datagram_def log_unknown_datagrams_if_due_def Let_def split: option.splits)
qed (simp_all add: gateway_start_begin_def gateway_start_failed_def transport_started_def transport_lost_def fail_transport_def
      expire_session_def gateway_remove_def gateway_close_def Let_def)

lemma gateway_run_generation: "gw_transport_generation w \<le> gw_transport_generation (fold gateway_step evs w)"
proof (induction evs arbitrary: w)
  case (Cons ev evs)
  then show ?case using gateway_step_generation [of w ev] le_trans by fastforce
qed simp

section \<open>Properties\<close>

text \<open>
  A restarted socket is deaf to its predecessors. Once a start has begun a new transport generation, then in every
  later state a callback of an earlier generation does nothing: its datagrams are not counted or routed, its loss
  does not fail the gateway, and a socket that comes up late for it is closed at once instead of being adopted.
\<close>

theorem stale_transport_ignored:
  assumes inv: "gateway_inv w0" and start: "gateway_start_begin w0 = (Some g, w1)" and old: "p < g"
    and w: "w = fold gateway_step evs w1"
  shows "route_datagram p p now data addr w = w \<and> transport_lost p p exc w = w \<and> gateway_start_failed p exc w = w \<and>
    transport_started p p t w = w\<lparr>gw_closed_transports := gw_closed_transports w @ [t]\<rparr>"
proof -
  have w1: "gateway_inv w1" "gw_transport_generation w1 = g"
    using start_inv [OF inv] start by (auto simp: gateway_start_begin_def Let_def split: if_splits)
  have "gw_transport_generation w \<noteq> p" using gateway_run_generation [of w1 evs] w1(2) old w by simp
  then have "\<not> is_current_transport p p w" by (simp add: is_current_transport_def)
  then show ?thesis
    by (simp add: route_datagram_def transport_lost_def fail_transport_def gateway_start_failed_def transport_started_def)
qed

text \<open>
  C28. Routing respects the media id. In every reachable state of the gateway a datagram can only reach the one open
  session whose grant carries the id in its bytes 4 to 11: every other session is left exactly as it is, and that one
  has the datagram offered to its bounded queue.
\<close>

theorem route_isolated:
  assumes "j < length (gw_heap (fold gateway_step evs gateway_init))"
  shows "let w = fold gateway_step evs gateway_init; w' = route_datagram g g now data addr w in
    gw_heap w' ! j = gw_heap w ! j \<or>
    (ug_media_id (us_grant (gw_heap w ! j)) = take 8 (drop 4 data) \<and> \<not> us_closed (gw_heap w ! j) \<and>
     gw_heap w' ! j = udp_enqueue data addr (gw_heap w ! j))"
proof -
  define w where "w = fold gateway_step evs gateway_init"
  have inv: "gateway_inv w" using gateway_run_inv [OF gateway_init_inv] by (simp add: w_def)
  show ?thesis
  proof (cases "is_current_transport g g w \<and> \<not> length data < UDP_HEADER_BYTES \<and> dict_get (gw_sessions w) (take 8 (drop 4 data)) = Some j")
    case False
    then have "gw_heap (route_datagram g g now data addr w) ! j = gw_heap w ! j"
      by (auto simp: route_datagram_def log_unknown_datagrams_if_due_def Let_def nth_list_update split: option.splits)
    then show ?thesis unfolding w_def Let_def by simp
  next
    case True
    then have "(take 8 (drop 4 data), j) \<in> set (gw_sessions w)" by (blast dest: map_of_SomeD)
    moreover have "gw_heap (route_datagram g g now data addr w) ! j = udp_enqueue data addr (gw_heap w ! j)"
      using True assms by (simp add: route_datagram_def Let_def flip: w_def)
    ultimately show ?thesis using table_unique [OF inv] unfolding w_def Let_def by blast
  qed
qed

lemma report_to_spec:
  "distinct is \<Longrightarrow> j < length heap \<Longrightarrow> us_reported (fold (report_to exc) is heap ! j) =
    us_reported (heap ! j) @ (if j \<in> set is then [exc] else [])"
proof (induction "is" arbitrary: heap)
  case (Cons i "is")
  have "us_reported (report_to exc i heap ! j) = us_reported (heap ! j) @ (if j = i then [exc] else [])"
    using Cons.prems(2) by (simp add: report_to_def nth_list_update)
  moreover have "j < length (report_to exc i heap)" using Cons.prems(2) by (simp add: report_to_def)
  ultimately show ?case using Cons.IH [of "report_to exc i heap"] Cons.prems(1) by simp
qed simp

lemma table_values_distinct:
  assumes "gateway_inv w"
  shows "distinct (dict_values (gw_sessions w))"
proof -
  have "inj_on snd (set (gw_sessions w))"
  proof (rule inj_onI)
    fix x y assume x: "x \<in> set (gw_sessions w)" "y \<in> set (gw_sessions w)" "snd x = snd y"
    then have "entry_ok (gw_heap w) x" "entry_ok (gw_heap w) y" using assms by (auto simp: gateway_inv_def list_all_iff)
    then show "x = y" using x(3) by (simp add: entry_ok_def prod_eq_iff)
  qed
  moreover have "distinct (gw_sessions w)" using assms by (simp add: gateway_inv_def distinct_map)
  ultimately show ?thesis by (simp add: distinct_map)
qed

text \<open>
  A lost socket is reported to every open session exactly once. When the transport of the current generation is lost
  on a healthy gateway, each session in the table gets exactly one failure report, every other session none; the
  gateway refuses new sessions until it is started again, and further losses report nothing.
\<close>

theorem transport_loss_reported:
  assumes inv: "gateway_inv w" and up: "gw_protocol w = Some g" "gw_failure w = None" "\<not> gw_closing w"
    and j: "j < length (gw_heap w)"
  shows "let w' = transport_lost g g exc w in
    us_reported (gw_heap w' ! j) = us_reported (gw_heap w ! j) @ (if j \<in> set (dict_values (gw_sessions w)) then [exc] else []) \<and>
    \<not> gateway_is_ready w' \<and> transport_lost g g exc' w' = w' \<and> transport_failed exc' w' = w' \<and>
    create_session cfg sec now port draws w' = Some (Inl (UdpMediaError ''UDP gateway is unavailable''), w')"
proof -
  have cur: "is_current_transport g g w" using inv up by (simp add: is_current_transport_def gateway_inv_def)
  show ?thesis
    using up cur report_to_spec [OF table_values_distinct [OF inv] j]
    by (simp add: transport_lost_def fail_transport_def transport_failed_def create_session_def gateway_is_ready_def Let_def
        is_current_transport_def)
qed

section \<open>Witnesses\<close>

theorem stale_transport_ignored_witness:
  "let w = fold gateway_step [Transport_Started 1 10] (snd (gateway_start_begin gateway_init)) in
    route_datagram 0 0 0 [] (''p'', 1) w = w \<and> transport_lost 0 0 UdpValueError w = w \<and> gateway_start_failed 0 UdpValueError w = w \<and>
    transport_started 0 0 11 w = w\<lparr>gw_closed_transports := gw_closed_transports w @ [11]\<rparr>"
proof -
  have "gateway_start_begin gateway_init = (Some 1, snd (gateway_start_begin gateway_init))"
    by (simp add: gateway_start_begin_def gateway_init_def gateway_is_ready_def Let_def)
  from stale_transport_ignored [OF gateway_init_inv this _ refl, of 0]
  show ?thesis unfolding Let_def by (meson zero_less_one)
qed

definition gateway_demo_events :: "gateway_event list" where
  "gateway_demo_events = [Gateway_Start, Transport_Started 1 10,
     Create \<lparr>gf_bind_port = 9, gf_advertised_host = ''h'', gf_advertised_port = 0, gf_lifetime_seconds = 60,
       gf_probe_timeout_seconds = 1, gf_queue_size = 4\<rparr>
       \<lparr>ss_epoch_bits = 5, ss_uplink_key = [], ss_uplink_salt = [], ss_downlink_key = [], ss_downlink_salt = []\<rparr> 1 9 [replicate 8 7]]"

lemma gateway_demo_run:
  "length (gw_heap (fold gateway_step gateway_demo_events gateway_init)) = 1"
  "gw_protocol (fold gateway_step gateway_demo_events gateway_init) = Some 1"
  "gw_failure (fold gateway_step gateway_demo_events gateway_init) = None"
  "\<not> gw_closing (fold gateway_step gateway_demo_events gateway_init)"
  by (simp_all add: gateway_demo_events_def gateway_start_begin_def gateway_init_def gateway_is_ready_def transport_started_def
      is_current_transport_def create_session_def Let_def)

theorem route_isolated_witness:
  "let w = fold gateway_step gateway_demo_events gateway_init; w' = route_datagram 1 1 0 (replicate 40 7) (''p'', 1) w in
    gw_heap w' ! 0 = gw_heap w ! 0 \<or>
    (ug_media_id (us_grant (gw_heap w ! 0)) = take 8 (drop 4 (replicate 40 7)) \<and> \<not> us_closed (gw_heap w ! 0) \<and>
     gw_heap w' ! 0 = udp_enqueue (replicate 40 7) (''p'', 1) (gw_heap w ! 0))"
  using route_isolated [of 0 gateway_demo_events 1 0 "replicate 40 7" "(''p'', 1)"] gateway_demo_run(1) by simp

theorem transport_loss_reported_witness:
  "let w = fold gateway_step gateway_demo_events gateway_init; w' = transport_lost 1 1 UdpValueError w in
    us_reported (gw_heap w' ! 0) = us_reported (gw_heap w ! 0) @ (if 0 \<in> set (dict_values (gw_sessions w)) then [UdpValueError] else []) \<and>
    \<not> gateway_is_ready w'"
  using transport_loss_reported [OF gateway_run_inv [OF gateway_init_inv] gateway_demo_run(2-4), of 0 UdpValueError UdpValueError]
    gateway_demo_run(1) unfolding Let_def by simp

end
