(* ===== verification/Contracts.thy ===== *)
theory Contracts
  imports Json_Values
begin

text \<open>
  The contracts Director and Worker share, \<open>voice_contracts/models.py\<close> and \<open>voice_contracts/grants.py\<close>: the
  validated records, the route key, and the signed connect grant. The field constraints and validators of the
  models are predicates on the records; HMAC-SHA256, base64, the JSON reader and the pydantic JSON of the
  claims are the components of a record the grant codec takes as an argument.
\<close>

section \<open>Identifiers and route keys\<close>

definition alnum_char :: "char \<Rightarrow> bool" where
  "alnum_char c \<longleftrightarrow> (let n = of_char c :: nat in
     (65 \<le> n \<and> n \<le> 90) \<or> (97 \<le> n \<and> n \<le> 122) \<or> (48 \<le> n \<and> n \<le> 57))"

definition contract_char :: "char \<Rightarrow> bool" where
  "contract_char c \<longleftrightarrow> alnum_char c \<or> c \<in> {CHR ''_'', CHR ''.'', CHR '':'', CHR ''-''}"

definition contract_identifier :: "string \<Rightarrow> bool" where
  "contract_identifier s \<longleftrightarrow> s \<noteq> [] \<and> length s \<le> 96 \<and> alnum_char (hd s) \<and> list_all contract_char (tl s)"

text \<open>\<open>urllib.parse.quote(s, safe='')\<close> on the UTF-8 bytes of the text.\<close>

definition unreserved :: "char \<Rightarrow> bool" where
  "unreserved c \<longleftrightarrow> alnum_char c \<or> c \<in> {CHR ''_'', CHR ''.'', CHR ''-'', CHR ''~''}"

definition hex_upper :: "nat \<Rightarrow> char" where
  "hex_upper n = (if n < 10 then char_of (48 + n) else char_of (55 + n))"

definition quote_char :: "char \<Rightarrow> string" where
  "quote_char c = (if unreserved c then [c]
     else [CHR ''%'', hex_upper (of_char c div 16), hex_upper (of_char c mod 16)])"

definition quote :: "string \<Rightarrow> string" where
  "quote s = concat (map quote_char s)"

definition encode_route_key :: "string \<Rightarrow> string \<Rightarrow> string" where
  "encode_route_key tenant_id device_id = quote tenant_id @ '':'' @ quote device_id"

section \<open>Models\<close>

definition CONTROL_TRANSPORT_PROFILES :: "string \<Rightarrow> string list" where
  "CONTROL_TRANSPORT_PROFILES control_protocol =
    (if control_protocol = ''rva/1'' then [''wss-opus/1'', ''udp-opus-gcm/1''] else [])"

definition is_transport_profile :: "string \<Rightarrow> bool" where
  "is_transport_profile p \<longleftrightarrow> p \<in> set [''wss-opus/1'', ''udp-opus-gcm/1'']"

definition validate_control_profiles :: "string \<Rightarrow> string list \<Rightarrow> bool" where
  "validate_control_profiles control_protocol profiles \<longleftrightarrow>
     set profiles - set (CONTROL_TRANSPORT_PROFILES control_protocol) = {}"

definition unique_profiles :: "string list \<Rightarrow> bool" where
  "unique_profiles ps \<longleftrightarrow> ps \<noteq> [] \<and> distinct ps"

text \<open>The parts of \<open>urlsplit\<close> the endpoint check reads.\<close>

record url_parts =
  up_scheme :: string
  up_hostname :: "string option"
  up_path :: string
  up_query :: string
  up_fragment :: string
  up_username :: "string option"
  up_password :: "string option"

record binding_advertisement =
  ba_control_protocol :: string
  ba_public_wss_url :: string
  ba_profiles :: "string list"

definition canonical_endpoint :: "(string \<Rightarrow> url_parts) \<Rightarrow> binding_advertisement \<Rightarrow> bool" where
  "canonical_endpoint urlsplit b \<longleftrightarrow>
    (let parsed = urlsplit (ba_public_wss_url b) in
      \<not> (up_scheme parsed \<notin> {''ws'', ''wss''} \<or> up_hostname parsed = None \<or> up_path parsed \<noteq> ''/rva/v1/voice'' \<or>
         up_query parsed \<noteq> [] \<or> up_fragment parsed \<noteq> [] \<or> up_username parsed \<noteq> None \<or>
         up_password parsed \<noteq> None) \<and>
      validate_control_profiles (ba_control_protocol b) (ba_profiles b))"

definition advertisement_valid :: "(string \<Rightarrow> url_parts) \<Rightarrow> binding_advertisement \<Rightarrow> bool" where
  "advertisement_valid urlsplit b \<longleftrightarrow> ba_control_protocol b = ''rva/1'' \<and>
     list_all is_transport_profile (ba_profiles b) \<and> unique_profiles (ba_profiles b) \<and>
     canonical_endpoint urlsplit b"

record lease_renewal =
  lr_tenant_id :: string
  lr_device_id :: string
  lr_session_epoch :: string
  lr_fencing_token :: int

definition renewal_valid :: "lease_renewal \<Rightarrow> bool" where
  "renewal_valid r \<longleftrightarrow> contract_identifier (lr_tenant_id r) \<and> contract_identifier (lr_device_id r) \<and>
     contract_identifier (lr_session_epoch r) \<and> 1 \<le> lr_fencing_token r"

record worker_heartbeat =
  wh_worker_id :: string
  wh_public_wss_url :: string
  wh_active_sessions :: int
  wh_max_sessions :: int
  wh_draining :: bool
  wh_healthy :: bool
  wh_profiles :: "string list"
  wh_bindings :: "binding_advertisement list"
  wh_active_leases :: "lease_renewal list"
  wh_released_leases :: "lease_renewal list"

definition resolved_bindings :: "worker_heartbeat \<Rightarrow> binding_advertisement list" where
  "resolved_bindings w = (if wh_bindings w \<noteq> [] then wh_bindings w
     else [\<lparr>ba_control_protocol = ''rva/1'', ba_public_wss_url = wh_public_wss_url w,
            ba_profiles = wh_profiles w\<rparr>])"

definition bounded_active_leases :: "(string \<Rightarrow> url_parts) \<Rightarrow> worker_heartbeat \<Rightarrow> bool" where
  "bounded_active_leases urlsplit w \<longleftrightarrow>
     int (length (wh_active_leases w)) \<le> wh_max_sessions w \<and>
     distinct (map (\<lambda>l. (lr_tenant_id l, lr_device_id l)) (wh_active_leases w)) \<and>
     distinct (map (\<lambda>l. (lr_tenant_id l, lr_device_id l, lr_session_epoch l)) (wh_released_leases w)) \<and>
     (if wh_bindings w \<noteq> [] then
        distinct (map ba_control_protocol (wh_bindings w)) \<and>
        set (concat (map ba_profiles (wh_bindings w))) = set (wh_profiles w)
      else list_all (advertisement_valid urlsplit) (resolved_bindings w))"

definition heartbeat_valid :: "(string \<Rightarrow> url_parts) \<Rightarrow> worker_heartbeat \<Rightarrow> bool" where
  "heartbeat_valid urlsplit w \<longleftrightarrow> contract_identifier (wh_worker_id w) \<and> 0 \<le> wh_active_sessions w \<and>
     1 \<le> wh_max_sessions w \<and> wh_max_sessions w \<le> 1024 \<and> list_all is_transport_profile (wh_profiles w) \<and>
     unique_profiles (wh_profiles w) \<and> list_all (advertisement_valid urlsplit) (wh_bindings w) \<and>
     list_all renewal_valid (wh_active_leases w) \<and> list_all renewal_valid (wh_released_leases w) \<and>
     length (wh_released_leases w) \<le> 64 \<and> bounded_active_leases urlsplit w"

record worker_snapshot = worker_heartbeat +
  ws_heartbeat_expires_at :: real

definition available_slots :: "worker_snapshot \<Rightarrow> int" where
  "available_slots w = max 0 (wh_max_sessions w - wh_active_sessions w)"

record heartbeat_response =
  hr_draining :: bool
  hr_heartbeat_expires_at :: real
  hr_lease_expires_at :: real
  hr_rejected_session_epochs :: "string list"

record route_lease =
  rl_tenant_id :: string
  rl_device_id :: string
  rl_worker_id :: string
  rl_session_epoch :: string
  rl_fencing_token :: int
  rl_expires_at :: real

definition route_key :: "route_lease \<Rightarrow> string" where
  "route_key l = encode_route_key (rl_tenant_id l) (rl_device_id l)"

record connect_grant_claims =
  cg_iss :: string
  cg_aud :: string
  cg_tenant_id :: string
  cg_device_id :: string
  cg_worker_id :: string
  cg_session_epoch :: string
  cg_fencing_token :: int
  cg_profiles :: "string list"
  cg_control_protocol :: string
  cg_iat :: real
  cg_exp :: real
  cg_jti :: string

definition claims_valid :: "connect_grant_claims \<Rightarrow> bool" where
  "claims_valid c \<longleftrightarrow> cg_iss c = ''session_director'' \<and> cg_aud c = ''realtime_worker'' \<and>
     contract_identifier (cg_tenant_id c) \<and> contract_identifier (cg_device_id c) \<and> contract_identifier (cg_worker_id c) \<and>
     contract_identifier (cg_session_epoch c) \<and> 1 \<le> cg_fencing_token c \<and>
     list_all is_transport_profile (cg_profiles c) \<and> unique_profiles (cg_profiles c) \<and>
     cg_control_protocol c = ''rva/1'' \<and> contract_identifier (cg_jti c) \<and>
     validate_control_profiles (cg_control_protocol c) (cg_profiles c)"

record bootstrap_request =
  br_tenant_id :: string
  br_device_id :: string
  br_supported_profiles :: "string list"
  br_control_protocol :: string

record bootstrap_response =
  bs_worker_id :: string
  bs_worker_wss_url :: string
  bs_connect_grant :: string
  bs_session_epoch :: string
  bs_fencing_token :: int
  bs_allowed_profiles :: "string list"
  bs_control_protocol :: string
  bs_expires_at :: real

record route_release_request =
  rq_tenant_id :: string
  rq_device_id :: string
  rq_worker_id :: string
  rq_session_epoch :: string
  rq_fencing_token :: int


section \<open>The route key is injective\<close>

lemma hex_upper_code: "k < 16 \<Longrightarrow> of_char (hex_upper k) = (if k < 10 then 48 + k else 55 + k)"
  by (simp add: hex_upper_def)

lemma hex_upper_inj:
  assumes "m < 16" "n < 16" "hex_upper m = hex_upper n"
  shows "m = n"
proof -
  have "(if m < 10 then 48 + m else 55 + m) = (if n < 10 then 48 + n else 55 + n)"
    using hex_upper_code [OF assms(1)] hex_upper_code [OF assms(2)] assms(3) by metis
  then show ?thesis by (simp split: if_splits)
qed

lemma hex_upper_alnum: "k < 16 \<Longrightarrow> alnum_char (hex_upper k)"
  using hex_upper_code [of k] by (auto simp: alnum_char_def Let_def split: if_splits)

lemma unreserved_marks: "\<not> unreserved (CHR ''%'')" "\<not> unreserved (CHR '':'')"
  by (simp_all add: unreserved_def alnum_char_def)

lemma char_halves: "(of_char c :: nat) div 16 < 16"
proof -
  have "(of_char c :: nat) < 256" by (metis of_char_mod_256 mod_less_divisor zero_less_numeral)
  then show ?thesis by (simp add: less_mult_imp_div_less)
qed

lemma quote_char_prefix:
  assumes eq: "quote_char c @ xs = quote_char d @ ys"
  shows "c = d \<and> xs = ys"
proof (cases "unreserved c = unreserved d")
  case True
  show ?thesis
  proof (cases "unreserved c")
    case False
    have "hex_upper (of_char c div 16) = hex_upper (of_char d div 16)"
      "hex_upper (of_char c mod 16) = hex_upper (of_char d mod 16)" and xs: "xs = ys"
      using eq True False by (simp_all add: quote_char_def)
    then have "(of_char c :: nat) div 16 = of_char d div 16" "(of_char c :: nat) mod 16 = of_char d mod 16"
      using hex_upper_inj char_halves by simp_all
    then have "(of_char c :: nat) = of_char d" by (metis div_mod_decomp)
    then show ?thesis using xs by simp
  qed (use eq True in \<open>simp add: quote_char_def\<close>)
next
  case False
  then show ?thesis using eq unreserved_marks by (auto simp: quote_char_def split: if_splits)
qed

lemma quote_inj: "quote s = quote t \<Longrightarrow> s = t"
proof (induction s arbitrary: t)
  case Nil
  then show ?case by (cases t) (auto simp: quote_def quote_char_def split: if_splits)
next
  case (Cons c s)
  then obtain d t' where t: "t = d # t'"
    by (cases t) (auto simp: quote_def quote_char_def split: if_splits)
  then have "quote_char c @ quote s = quote_char d @ quote t'" using Cons.prems by (simp add: quote_def)
  then show ?case using quote_char_prefix Cons.IH t by blast
qed

lemma quote_no_colon: "CHR '':'' \<notin> set (quote s)"
proof -
  have "CHR '':'' \<notin> set (quote_char c)" for c
  proof -
    have "hex_upper (of_char c div 16) \<noteq> CHR '':''" "hex_upper (of_char c mod 16) \<noteq> CHR '':''"
      using hex_upper_alnum char_halves [of c] unreserved_marks(2) by (metis mod_less_divisor unreserved_def zero_less_numeral)+
    then show ?thesis using unreserved_marks by (auto simp: quote_char_def)
  qed
  then show ?thesis by (simp add: quote_def)
qed

lemma takeWhile_colon: "CHR '':'' \<notin> set u \<Longrightarrow> takeWhile (\<lambda>c. c \<noteq> CHR '':'') (u @ '':'' @ v) = u"
  by (induction u) auto

lemma encode_route_key_inj: "encode_route_key t d = encode_route_key t' d' \<longleftrightarrow> t = t' \<and> d = d'"
proof
  assume eq: "encode_route_key t d = encode_route_key t' d'"
  then have "quote t = quote t'"
    unfolding encode_route_key_def by (metis quote_no_colon takeWhile_colon)
  then show "t = t' \<and> d = d'" using eq quote_inj by (auto simp: encode_route_key_def)
qed simp

section \<open>Connect grants\<close>

text \<open>
  What \<open>json.loads\<close> does with bytes: a value, one of the errors that are caught (\<open>JSONDecodeError\<close>,
  \<open>UnicodeDecodeError\<close>), or another exception.
\<close>

datatype loads_result = LoadsOk json | LoadsMalformed | LoadsRaises

text \<open>
  The primitives of the codec: the HMAC-SHA256 of a key and a message, \<open>urlsafe_b64encode\<close> without padding and
  its inverse (\<open>None\<close> for the \<open>ValueError\<close>), the JSON reader, \<open>model_dump_json\<close> and the reading of JSON into the typed
  fields of the claims (\<open>None\<close> for a missing field or one of another type). The validators of the model are \<open>claims_valid\<close>.
\<close>

record codec_env =
  ce_mac :: "bytes \<Rightarrow> string \<Rightarrow> bytes"
  ce_b64encode :: "bytes \<Rightarrow> string"
  ce_b64decode :: "string \<Rightarrow> bytes option"
  ce_loads :: "bytes \<Rightarrow> loads_result"
  ce_dump :: "connect_grant_claims \<Rightarrow> bytes"
  ce_read :: "bytes \<Rightarrow> connect_grant_claims option"

definition model_validate_json :: "codec_env \<Rightarrow> bytes \<Rightarrow> connect_grant_claims option" where
  "model_validate_json E bs = (case ce_read E bs of None \<Rightarrow> None | Some c \<Rightarrow> if claims_valid c then Some c else None)"

record grant_codec =
  gc_key :: bytes
  gc_clock_skew_seconds :: real

text \<open>\<open>GrantError\<close> by its message; \<open>GrantRaises\<close> is any other exception that leaves \<open>verify\<close>.\<close>

datatype grant_error = GrantError string | GrantRaises

definition grant_codec_init :: "bytes \<Rightarrow> real \<Rightarrow> grant_codec option" where
  "grant_codec_init key skew = (if length key < 16 then None
     else Some \<lparr>gc_key = key, gc_clock_skew_seconds = skew\<rparr>)"

definition ascii_bytes :: "string \<Rightarrow> bytes" where
  "ascii_bytes s = map (\<lambda>c. of_nat (of_char c)) s"

definition GRANT_HEADER :: string where
  "GRANT_HEADER = ''{'' @ [CHR 0x22] @ ''alg'' @ [CHR 0x22] @ '':'' @ [CHR 0x22] @ ''HS256'' @ [CHR 0x22] @ '','' @
     [CHR 0x22] @ ''typ'' @ [CHR 0x22] @ '':'' @ [CHR 0x22] @ ''VAG'' @ [CHR 0x22] @ '','' @
     [CHR 0x22] @ ''v'' @ [CHR 0x22] @ '':1}''"

definition GRANT_HEADER_VALUE :: json_dict where
  "GRANT_HEADER_VALUE = [(''alg'', JStr ''HS256''), (''typ'', JStr ''VAG''), (''v'', JInt 1)]"

definition grant_issue :: "codec_env \<Rightarrow> grant_codec \<Rightarrow> connect_grant_claims \<Rightarrow> string" where
  "grant_issue E codec claims =
    (let header = ce_b64encode E (ascii_bytes GRANT_HEADER);
         payload = ce_b64encode E (ce_dump E claims);
         signing_input = header @ ''.'' @ payload;
         signature = ce_b64encode E (ce_mac E (gc_key codec) signing_input)
     in header @ ''.'' @ payload @ ''.'' @ signature)"

text \<open>\<open>token.split(".")\<close>.\<close>

fun split_dot :: "string \<Rightarrow> string list" where
  "split_dot [] = [[]]"
| "split_dot (c # s) = (if c = CHR ''.'' then [] # split_dot s
     else (case split_dot s of p # ps \<Rightarrow> (c # p) # ps | [] \<Rightarrow> [[c]]))"

definition is_ascii :: "string \<Rightarrow> bool" where
  "is_ascii s \<longleftrightarrow> list_all (\<lambda>c. (of_char c :: nat) < 128) s"

definition grant_decode :: "codec_env \<Rightarrow> string \<Rightarrow> grant_error + bytes" where
  "grant_decode E value = (case ce_b64decode E value of
      None \<Rightarrow> Inl (GrantError ''malformed grant encoding'') | Some bs \<Rightarrow> Inr bs)"

definition grant_verify ::
    "codec_env \<Rightarrow> grant_codec \<Rightarrow> real \<Rightarrow> string \<Rightarrow> string option \<Rightarrow> string option \<Rightarrow>
      grant_error + connect_grant_claims" where
  "grant_verify E codec now token worker_id device_id = (case split_dot token of
      [header, payload, supplied_signature] \<Rightarrow>
        bind_result (grant_decode E header) (\<lambda>hb.
        bind_result (case ce_loads E hb of
            LoadsOk v \<Rightarrow> Inr v
          | LoadsMalformed \<Rightarrow> Inl (GrantError ''malformed grant header'')
          | LoadsRaises \<Rightarrow> Inl GrantRaises) (\<lambda>header_value.
        if \<not> eq_const_dict header_value GRANT_HEADER_VALUE then Inl (GrantError ''unsupported grant header'')
        else if \<not> (is_ascii header \<and> is_ascii payload) then Inl GrantRaises
        else
          let expected = ce_mac E (gc_key codec) (header @ ''.'' @ payload)
          in bind_result (grant_decode E supplied_signature) (\<lambda>signature.
          if signature \<noteq> expected then Inl (GrantError ''invalid grant signature'')
          else
          bind_result (grant_decode E payload) (\<lambda>pb.
          bind_result (case model_validate_json E pb of
              None \<Rightarrow> Inl (GrantError ''invalid grant claims'') | Some c \<Rightarrow> Inr c) (\<lambda>claims.
          if cg_exp claims \<le> now then Inl (GrantError ''grant expired'')
          else if cg_iat claims > now + gc_clock_skew_seconds codec \<or> cg_exp claims \<le> cg_iat claims
            then Inl (GrantError ''invalid grant lifetime'')
          else if (case worker_id of None \<Rightarrow> False | Some w \<Rightarrow> cg_worker_id claims \<noteq> w)
            then Inl (GrantError ''grant belongs to another worker'')
          else if (case device_id of None \<Rightarrow> False | Some d \<Rightarrow> cg_device_id claims \<noteq> d)
            then Inl (GrantError ''grant belongs to another device'')
          else Inr claims)))))
    | _ \<Rightarrow> Inl (GrantError ''malformed grant''))"


lemma split_dot_nonempty: "split_dot s \<noteq> []"
  by (induction s) (auto split: list.splits)

lemma split_dot_append: "CHR ''.'' \<notin> set p \<Longrightarrow> split_dot (p @ CHR ''.'' # s) = p # split_dot s"
  by (induction p) auto

lemma split_dot_whole: "CHR ''.'' \<notin> set p \<Longrightarrow> split_dot p = [p]"
  by (induction p) auto

text \<open>Joining the parts with dots gives the token back.\<close>

fun join_dot :: "string list \<Rightarrow> string" where
  "join_dot [] = []"
| "join_dot [p] = p"
| "join_dot (p # ps) = p @ ''.'' @ join_dot ps"

lemma join_split_dot: "join_dot (split_dot s) = s"
proof (induction s)
  case (Cons c s)
  obtain p ps where ps: "split_dot s = p # ps" using split_dot_nonempty by (cases "split_dot s") auto
  then have "p @ (if ps = [] then [] else ''.'' @ join_dot ps) = s" using Cons.IH by (cases ps) auto
  then show ?case using ps by (cases ps) auto
qed simp

text \<open>
  What the codec relies on: decoding inverts encoding, encoded text is ASCII without dots, the fixed header reads
  back as the object it spells, and validating the JSON of the claims \<open>c\<close> returns them.
\<close>

definition codec_ok :: "codec_env \<Rightarrow> connect_grant_claims \<Rightarrow> bool" where
  "codec_ok E c \<longleftrightarrow> (\<forall>bs. ce_b64decode E (ce_b64encode E bs) = Some bs \<and> is_ascii (ce_b64encode E bs) \<and>
       CHR ''.'' \<notin> set (ce_b64encode E bs)) \<and>
     ce_loads E (ascii_bytes GRANT_HEADER) = LoadsOk (JObj GRANT_HEADER_VALUE) \<and>
     model_validate_json E (ce_dump E c) = Some c"

lemma header_value_eq: "eq_const_dict (JObj GRANT_HEADER_VALUE) GRANT_HEADER_VALUE"
  by (simp add: eq_const_dict_def GRANT_HEADER_VALUE_def)

lemma grant_verify_issue:
  assumes E: "codec_ok E c" and t: "now < cg_exp c" "cg_iat c \<le> now + gc_clock_skew_seconds codec" "cg_iat c < cg_exp c"
  shows "grant_verify E codec now (grant_issue E codec c) (Some (cg_worker_id c)) (Some (cg_device_id c)) = Inr c"
proof -
  have parts: "split_dot (grant_issue E codec c) =
      [ce_b64encode E (ascii_bytes GRANT_HEADER), ce_b64encode E (ce_dump E c),
       ce_b64encode E (ce_mac E (gc_key codec) (ce_b64encode E (ascii_bytes GRANT_HEADER) @ ''.'' @ ce_b64encode E (ce_dump E c)))]"
    using E by (simp add: grant_issue_def codec_ok_def split_dot_append split_dot_whole Let_def)
  show ?thesis
    using E t header_value_eq unfolding grant_verify_def parts
    by (simp add: codec_ok_def grant_decode_def Let_def)
qed

text \<open>
  C15. Issue and verify are inverse: a grant the Director issues is accepted by a codec with the same key, for
  the worker and the device it names, at every moment before its expiry that is not earlier than its issue time
  minus the clock skew, and verification returns exactly the claims that were signed.
\<close>

theorem grant_roundtrip:
  assumes "codec_ok E c" "now < cg_exp c" "cg_iat c \<le> now + gc_clock_skew_seconds codec" "cg_iat c < cg_exp c"
  shows "grant_verify E codec now (grant_issue E codec c) (Some (cg_worker_id c)) (Some (cg_device_id c)) = Inr c"
  using grant_verify_issue [OF assms] .

lemma model_validate_valid: "model_validate_json E bs = Some c \<Longrightarrow> claims_valid c"
  by (auto simp: model_validate_json_def split: option.splits if_splits)

lemma grant_verify_sound:
  assumes v: "grant_verify E codec now token (Some w) (Some d) = Inr c"
  shows "\<exists>header payload signature pb. token = header @ ''.'' @ payload @ ''.'' @ signature \<and>
    ce_b64decode E signature = Some (ce_mac E (gc_key codec) (header @ ''.'' @ payload)) \<and>
    ce_b64decode E payload = Some pb \<and> model_validate_json E pb = Some c \<and>
    now < cg_exp c \<and> cg_iat c \<le> now + gc_clock_skew_seconds codec \<and> cg_iat c < cg_exp c \<and>
    cg_worker_id c = w \<and> cg_device_id c = d"
proof -
  obtain h p s where parts: "split_dot token = [h, p, s]"
    using v by (auto simp: grant_verify_def split: list.splits)
  then have "token = h @ ''.'' @ p @ ''.'' @ s" using join_split_dot [of token] by simp
  moreover have "\<exists>pb. ce_b64decode E s = Some (ce_mac E (gc_key codec) (h @ ''.'' @ p)) \<and>
      ce_b64decode E p = Some pb \<and> model_validate_json E pb = Some c \<and> now < cg_exp c \<and>
      cg_iat c \<le> now + gc_clock_skew_seconds codec \<and> cg_iat c < cg_exp c \<and> cg_worker_id c = w \<and> cg_device_id c = d"
    using v unfolding grant_verify_def parts
    by (auto simp: bind_result_Inr_iff grant_decode_def Let_def split: if_splits option.splits)
  ultimately show ?thesis by blast
qed

text \<open>
  C16. Verification is sound: a token is accepted only when it is three dot-separated parts whose third decodes to
  the HMAC, under the codec's key, of the first two as they stand, whose payload validates as the claims returned: they meet every
  constraint of the model (issuer, audience, identifiers, a positive token, non-empty unique profiles that fit the protocol), are unexpired, not from the future, and name the worker and the device that were asked for.
\<close>

theorem grant_authentic:
  assumes "grant_verify E codec now token (Some w) (Some d) = Inr c"
  shows "\<exists>header payload signature pb. token = header @ ''.'' @ payload @ ''.'' @ signature \<and>
    ce_b64decode E signature = Some (ce_mac E (gc_key codec) (header @ ''.'' @ payload)) \<and>
    ce_b64decode E payload = Some pb \<and> model_validate_json E pb = Some c \<and> claims_valid c \<and>
    now < cg_exp c \<and> cg_iat c \<le> now + gc_clock_skew_seconds codec \<and> cg_iat c < cg_exp c \<and>
    cg_worker_id c = w \<and> cg_device_id c = d"
  using grant_verify_sound [OF assms] model_validate_valid by metis

section \<open>Witnesses\<close>

definition demo_claims :: connect_grant_claims where
  "demo_claims = \<lparr>cg_iss = ''session_director'', cg_aud = ''realtime_worker'', cg_tenant_id = ''lab'',
     cg_device_id = ''dev'', cg_worker_id = ''w1'', cg_session_epoch = ''e1'', cg_fencing_token = 1,
     cg_profiles = [''wss-opus/1''], cg_control_protocol = ''rva/1'', cg_iat = 100, cg_exp = 130, cg_jti = ''j1''\<rparr>"

definition nibble_char :: "nat \<Rightarrow> char" where
  "nibble_char n = char_of (97 + n)"

definition demo_encode :: "bytes \<Rightarrow> string" where
  "demo_encode bs = concat (map (\<lambda>b. [nibble_char (unat b div 16), nibble_char (unat b mod 16)]) bs)"

fun demo_decode :: "string \<Rightarrow> bytes option" where
  "demo_decode [] = Some []"
| "demo_decode (x # y # s) =
    map_option ((#) (of_nat ((of_char x - 97) * 16 + (of_char y - 97)))) (demo_decode s)"
| "demo_decode [x] = None"

definition demo_env :: codec_env where
  "demo_env = \<lparr>ce_mac = (\<lambda>key message. [of_nat (length key + length message)]), ce_b64encode = demo_encode,
     ce_b64decode = demo_decode,
     ce_loads = (\<lambda>b. if b = ascii_bytes GRANT_HEADER then LoadsOk (JObj GRANT_HEADER_VALUE) else LoadsMalformed),
     ce_dump = (\<lambda>c. [1]), ce_read = (\<lambda>b. if b = [1] then Some demo_claims else None)\<rparr>"

lemma nibble_code: "n < 16 \<Longrightarrow> (of_char (nibble_char n) :: nat) = 97 + n"
  by (simp add: nibble_char_def)

lemma byte_nibbles: "unat (b :: byte) div 16 < 16"
  using unsigned_less [of b, where 'a = nat] by (simp add: less_mult_imp_div_less)

lemma demo_encode_chars: "list_all (\<lambda>c. 97 \<le> (of_char c :: nat) \<and> (of_char c :: nat) < 128) (demo_encode bs)"
proof (induction bs)
  case (Cons b bs)
  then show ?case using byte_nibbles [of b] by (simp add: demo_encode_def nibble_code)
qed (simp add: demo_encode_def)

lemma demo_decode_encode: "demo_decode (demo_encode bs) = Some bs"
  using byte_nibbles by (induction bs) (auto simp: demo_encode_def nibble_code)

lemma demo_codec_ok: "codec_ok demo_env demo_claims"
proof -
  have "is_ascii (demo_encode bs) \<and> CHR ''.'' \<notin> set (demo_encode bs)" for bs
    using demo_encode_chars [of bs] by (auto simp: is_ascii_def list_all_iff)
  moreover have "claims_valid demo_claims" by code_simp
  ultimately show ?thesis by (simp add: codec_ok_def demo_env_def demo_decode_encode model_validate_json_def)
qed

theorem grant_roundtrip_witness:
  "grant_verify demo_env \<lparr>gc_key = replicate 16 7, gc_clock_skew_seconds = 2\<rparr> 110
     (grant_issue demo_env \<lparr>gc_key = replicate 16 7, gc_clock_skew_seconds = 2\<rparr> demo_claims)
     (Some ''w1'') (Some ''dev'') = Inr demo_claims"
  using grant_roundtrip [OF demo_codec_ok, of 110 "\<lparr>gc_key = replicate 16 7, gc_clock_skew_seconds = 2\<rparr>"]
  by (simp add: demo_claims_def)

definition demo_codec :: grant_codec where
  "demo_codec = \<lparr>gc_key = replicate 16 7, gc_clock_skew_seconds = 2\<rparr>"

theorem grant_authentic_witness:
  "\<exists>header payload signature. grant_issue demo_env demo_codec demo_claims = header @ ''.'' @ payload @ ''.'' @ signature \<and>
     ce_b64decode demo_env signature = Some (ce_mac demo_env (gc_key demo_codec) (header @ ''.'' @ payload))"
proof -
  have "grant_verify demo_env demo_codec 110 (grant_issue demo_env demo_codec demo_claims) (Some ''w1'') (Some ''dev'') =
      Inr demo_claims"
    using grant_verify_issue [OF demo_codec_ok, of 110 demo_codec] by (simp add: demo_claims_def demo_codec_def)
  then show ?thesis using grant_authentic by blast
qed

end
