(* ===== verification/Coordination_Store.thy ===== *)
theory Coordination_Store
  imports Contracts
begin

text \<open>
  The coordination store of the Director, \<open>session_director/store.py\<close>: the port the service calls, the
  process-local adapter that implements it, and the contract of the port as a locale. Every method of the
  adapter runs under one lock without suspending, so it is one atomic step. The Redis adapter runs the same
  decisions as Lua scripts inside the Redis server, which is outside the sources.
\<close>

section \<open>The port\<close>

datatype store_error = LeaseConflictError string | WorkerNotFoundError string | WorkerCapacityError string

record grant_consume_result =
  gr_consumed :: bool
  gr_reason :: string

text \<open>The keyword arguments of \<open>acquire_route\<close>.\<close>

record acquire_args =
  aq_tenant_id :: string
  aq_device_id :: string
  aq_worker_id :: string
  aq_worker_active_sessions :: int
  aq_worker_max_sessions :: int
  aq_session_epoch :: string
  aq_now :: real
  aq_expires_at :: real

record 's store_ops =
  so_heartbeat :: "worker_heartbeat \<Rightarrow> real \<Rightarrow> 's \<Rightarrow> worker_snapshot \<times> 's"
  so_list_workers :: "real \<Rightarrow> 's \<Rightarrow> worker_snapshot list \<times> 's"
  so_set_draining :: "string \<Rightarrow> bool \<Rightarrow> real \<Rightarrow> 's \<Rightarrow> (store_error, worker_snapshot, 's) op_result"
  so_acquire_route :: "acquire_args \<Rightarrow> 's \<Rightarrow> (store_error, route_lease, 's) op_result"
  so_release_route :: "route_lease \<Rightarrow> 's \<Rightarrow> bool \<times> 's"
  so_renew_route :: "string \<Rightarrow> lease_renewal \<Rightarrow> real \<Rightarrow> real \<Rightarrow> 's \<Rightarrow> bool \<times> 's"
  so_release_route_claim :: "string \<Rightarrow> lease_renewal \<Rightarrow> 's \<Rightarrow> bool \<times> 's"
  so_consume_grant_result :: "connect_grant_claims \<Rightarrow> real \<Rightarrow> 's \<Rightarrow> grant_consume_result \<times> 's"

section \<open>The in-memory adapter\<close>

record memory_store =
  ms_workers :: "(string, worker_snapshot) dict"
  ms_leases :: "(string, route_lease) dict"
  ms_fencing :: "(string, int) dict"
  ms_consumed_jti :: "(string, real) dict"

definition memory_init :: memory_store where
  "memory_init = \<lparr>ms_workers = [], ms_leases = [], ms_fencing = [], ms_consumed_jti = []\<rparr>"

definition memory_heartbeat ::
    "worker_heartbeat \<Rightarrow> real \<Rightarrow> memory_store \<Rightarrow> worker_snapshot \<times> memory_store" where
  "memory_heartbeat h expires_at s =
    (let snapshot = worker_heartbeat.extend h \<lparr>ws_heartbeat_expires_at = expires_at\<rparr>;
         snapshot' = (case dict_get (ms_workers s) (wh_worker_id h) of
             None \<Rightarrow> snapshot
           | Some current \<Rightarrow> if wh_draining current then snapshot\<lparr>wh_draining := True\<rparr> else snapshot)
     in (snapshot', s\<lparr>ms_workers := dict_set (wh_worker_id h) snapshot' (ms_workers s)\<rparr>))"

definition memory_list_workers :: "real \<Rightarrow> memory_store \<Rightarrow> worker_snapshot list \<times> memory_store" where
  "memory_list_workers now s =
    (let workers = filter (\<lambda>(_, w). \<not> ws_heartbeat_expires_at w \<le> now) (ms_workers s)
     in (dict_values workers, s\<lparr>ms_workers := workers\<rparr>))"

definition memory_set_draining ::
    "string \<Rightarrow> bool \<Rightarrow> real \<Rightarrow> memory_store \<Rightarrow> (store_error, worker_snapshot, memory_store) op_result" where
  "memory_set_draining worker_id draining now s = (case dict_get (ms_workers s) worker_id of
      None \<Rightarrow> (Inl (WorkerNotFoundError worker_id), s)
    | Some worker \<Rightarrow>
        if ws_heartbeat_expires_at worker \<le> now then (Inl (WorkerNotFoundError worker_id), s)
        else
          let updated = worker\<lparr>wh_draining := draining\<rparr>
          in (Inr updated, s\<lparr>ms_workers := dict_set worker_id updated (ms_workers s)\<rparr>))"

text \<open>Dropping the expired leases, the first step of \<open>acquire_route\<close>.\<close>

definition drop_expired :: "real \<Rightarrow> (string, route_lease) dict \<Rightarrow> (string, route_lease) dict" where
  "drop_expired now leases = filter (\<lambda>(_, l). \<not> rl_expires_at l \<le> now) leases"

definition memory_acquire_route ::
    "acquire_args \<Rightarrow> memory_store \<Rightarrow> (store_error, route_lease, memory_store) op_result" where
  "memory_acquire_route a s =
    (let key = encode_route_key (aq_tenant_id a) (aq_device_id a);
         leases = drop_expired (aq_now a) (ms_leases s);
         s1 = s\<lparr>ms_leases := leases\<rparr>
     in if (case dict_get leases key of None \<Rightarrow> False | Some current \<Rightarrow> rl_expires_at current > aq_now a)
          then (Inl (LeaseConflictError key), s1)
        else
          let reserved = int (length (filter (\<lambda>l. rl_worker_id l = aq_worker_id a) (dict_values leases)))
          in if max (aq_worker_active_sessions a) reserved \<ge> aq_worker_max_sessions a
               then (Inl (WorkerCapacityError (aq_worker_id a)), s1)
             else
               let fencing_token = (case dict_get (ms_fencing s) key of None \<Rightarrow> 0 | Some n \<Rightarrow> n) + 1;
                   lease = \<lparr>rl_tenant_id = aq_tenant_id a, rl_device_id = aq_device_id a,
                            rl_worker_id = aq_worker_id a, rl_session_epoch = aq_session_epoch a,
                            rl_fencing_token = fencing_token, rl_expires_at = aq_expires_at a\<rparr>
               in (Inr lease, s1\<lparr>ms_fencing := dict_set key fencing_token (ms_fencing s),
                                ms_leases := dict_set key lease leases\<rparr>))"

definition memory_release_route :: "route_lease \<Rightarrow> memory_store \<Rightarrow> bool \<times> memory_store" where
  "memory_release_route lease s =
    (if dict_get (ms_leases s) (route_key lease) \<noteq> Some lease then (False, s)
     else (True, s\<lparr>ms_leases := dict_pop (route_key lease) (ms_leases s)\<rparr>))"

definition memory_renew_route ::
    "string \<Rightarrow> lease_renewal \<Rightarrow> real \<Rightarrow> real \<Rightarrow> memory_store \<Rightarrow> bool \<times> memory_store" where
  "memory_renew_route worker_id r now expires_at s =
    (let key = encode_route_key (lr_tenant_id r) (lr_device_id r)
     in case dict_get (ms_leases s) key of
          None \<Rightarrow> (False, s)
        | Some current \<Rightarrow>
            if rl_expires_at current \<le> now \<or> rl_worker_id current \<noteq> worker_id \<or>
               rl_session_epoch current \<noteq> lr_session_epoch r \<or> rl_fencing_token current \<noteq> lr_fencing_token r
              then (False, s)
            else (True, s\<lparr>ms_leases := dict_set key (current\<lparr>rl_expires_at := expires_at\<rparr>) (ms_leases s)\<rparr>))"

definition memory_release_route_claim :: "string \<Rightarrow> lease_renewal \<Rightarrow> memory_store \<Rightarrow> bool \<times> memory_store" where
  "memory_release_route_claim worker_id r s =
    (let key = encode_route_key (lr_tenant_id r) (lr_device_id r)
     in case dict_get (ms_leases s) key of
          None \<Rightarrow> (False, s)
        | Some current \<Rightarrow>
            if rl_worker_id current \<noteq> worker_id \<or> rl_session_epoch current \<noteq> lr_session_epoch r \<or>
               rl_fencing_token current \<noteq> lr_fencing_token r
              then (False, s)
            else (True, s\<lparr>ms_leases := dict_pop key (ms_leases s)\<rparr>))"

definition refused :: "string \<Rightarrow> grant_consume_result" where
  "refused reason = \<lparr>gr_consumed = False, gr_reason = reason\<rparr>"

definition memory_consume_grant_result ::
    "connect_grant_claims \<Rightarrow> real \<Rightarrow> memory_store \<Rightarrow> grant_consume_result \<times> memory_store" where
  "memory_consume_grant_result c now s =
    (let key = encode_route_key (cg_tenant_id c) (cg_device_id c);
         s1 = s\<lparr>ms_consumed_jti := filter (\<lambda>(_, expiry). expiry > now) (ms_consumed_jti s)\<rparr>
     in case dict_get (ms_leases s) key of
          None \<Rightarrow> (refused ''no_route'', s1)
        | Some current \<Rightarrow>
            if rl_expires_at current \<le> now then (refused ''route_expired'', s1)
            else if cg_exp c \<le> now then (refused ''grant_expired'', s1)
            else if rl_tenant_id current \<noteq> cg_tenant_id c \<or> rl_device_id current \<noteq> cg_device_id c
              then (refused ''route_principal_mismatch'', s1)
            else if rl_worker_id current \<noteq> cg_worker_id c then (refused ''worker_mismatch'', s1)
            else if rl_session_epoch current \<noteq> cg_session_epoch c then (refused ''session_epoch_mismatch'', s1)
            else if rl_fencing_token current \<noteq> cg_fencing_token c then (refused ''fencing_token_mismatch'', s1)
            else if cg_jti c \<in> set (dict_keys (ms_consumed_jti s1)) then (refused ''grant_replay'', s1)
            else (\<lparr>gr_consumed = True, gr_reason = ''consumed''\<rparr>,
                  s1\<lparr>ms_consumed_jti := dict_set (cg_jti c) (cg_exp c) (ms_consumed_jti s1)\<rparr>))"

definition memory_consume_grant :: "connect_grant_claims \<Rightarrow> real \<Rightarrow> memory_store \<Rightarrow> bool \<times> memory_store" where
  "memory_consume_grant c now s = (let (r, s') = memory_consume_grant_result c now s in (gr_consumed r, s'))"

definition memory_ops :: "memory_store store_ops" where
  "memory_ops = \<lparr>so_heartbeat = memory_heartbeat, so_list_workers = memory_list_workers,
     so_set_draining = memory_set_draining, so_acquire_route = memory_acquire_route,
     so_release_route = memory_release_route, so_renew_route = memory_renew_route,
     so_release_route_claim = memory_release_route_claim, so_consume_grant_result = memory_consume_grant_result\<rparr>"

section \<open>The contract\<close>

type_synonym principal = "string \<times> string"

definition lease_matches :: "string \<Rightarrow> string \<Rightarrow> int \<Rightarrow> route_lease \<Rightarrow> bool" where
  "lease_matches worker_id epoch token l \<longleftrightarrow>
     rl_worker_id l = worker_id \<and> rl_session_epoch l = epoch \<and> rl_fencing_token l = token"

definition renewal_principal :: "lease_renewal \<Rightarrow> principal" where
  "renewal_principal r = (lr_tenant_id r, lr_device_id r)"

definition args_principal :: "acquire_args \<Rightarrow> principal" where
  "args_principal a = (aq_tenant_id a, aq_device_id a)"

definition claims_principal :: "connect_grant_claims \<Rightarrow> principal" where
  "claims_principal c = (cg_tenant_id c, cg_device_id c)"

text \<open>
  The laws of the port, over the leases and fencing counters the store holds. A lease is granted only when the
  principal has no unexpired one, and its token is above every earlier token of that principal; the lease a
  principal holds always carries the latest token; renewing, releasing and consuming require the exact holder.
\<close>

locale coordination_store =
  fixes ops :: "'s store_ops" and leases :: "'s \<Rightarrow> principal \<Rightarrow> route_lease option"
    and fences :: "'s \<Rightarrow> principal \<Rightarrow> int" and inv :: "'s \<Rightarrow> bool"
  assumes inv_heartbeat: "inv s \<Longrightarrow> inv (snd (so_heartbeat ops h e s))"
    and inv_list: "inv s \<Longrightarrow> inv (snd (so_list_workers ops now s))"
    and inv_draining: "inv s \<Longrightarrow> inv (snd (so_set_draining ops w dr now s))"
    and inv_acquire: "inv s \<Longrightarrow> inv (snd (so_acquire_route ops a s))"
    and inv_release: "inv s \<Longrightarrow> inv (snd (so_release_route ops l s))"
    and inv_renew: "inv s \<Longrightarrow> inv (snd (so_renew_route ops w r now e s))"
    and inv_release_claim: "inv s \<Longrightarrow> inv (snd (so_release_route_claim ops w r s))"
    and inv_consume: "inv s \<Longrightarrow> inv (snd (so_consume_grant_result ops c now s))"
    and token_current: "inv s \<Longrightarrow> leases s p = Some l \<Longrightarrow> rl_fencing_token l = fences s p"
    and acquire_granted: "inv s \<Longrightarrow> so_acquire_route ops a s = (Inr l, s') \<Longrightarrow>
      (\<forall>l0. leases s (args_principal a) = Some l0 \<longrightarrow> rl_expires_at l0 \<le> aq_now a) \<and>
      leases s' (args_principal a) = Some l \<and> fences s' (args_principal a) = fences s (args_principal a) + 1 \<and>
      rl_worker_id l = aq_worker_id a \<and> rl_session_epoch l = aq_session_epoch a \<and>
      rl_expires_at l = aq_expires_at a"
    and fences_acquire: "inv s \<Longrightarrow> fences (snd (so_acquire_route ops a s)) p \<noteq> fences s p \<Longrightarrow>
      p = args_principal a \<and> isOk (fst (so_acquire_route ops a s))"
    and leases_acquire: "inv s \<Longrightarrow> leases (snd (so_acquire_route ops a s)) p = Some l \<Longrightarrow>
      leases s p = Some l \<or> (p = args_principal a \<and> fst (so_acquire_route ops a s) = Inr l)"
    and acquire_keeps: "inv s \<Longrightarrow> leases s p = Some l \<Longrightarrow> aq_now a < rl_expires_at l \<Longrightarrow>
      leases (snd (so_acquire_route ops a s)) p = Some l"
    and others_heartbeat: "leases (snd (so_heartbeat ops h e s)) = leases s \<and> fences (snd (so_heartbeat ops h e s)) = fences s"
    and others_list: "leases (snd (so_list_workers ops now s)) = leases s \<and> fences (snd (so_list_workers ops now s)) = fences s"
    and others_draining: "leases (snd (so_set_draining ops w dr now s)) = leases s \<and>
      fences (snd (so_set_draining ops w dr now s)) = fences s"
    and others_consume: "leases (snd (so_consume_grant_result ops c now s)) = leases s \<and>
      fences (snd (so_consume_grant_result ops c now s)) = fences s"
    and fences_release: "fences (snd (so_release_route ops l s)) = fences s"
    and fences_renew: "fences (snd (so_renew_route ops w r now e s)) = fences s"
    and fences_release_claim: "fences (snd (so_release_route_claim ops w r s)) = fences s"
    and renew_iff: "inv s \<Longrightarrow> fst (so_renew_route ops w r now e s) \<longleftrightarrow>
      (\<exists>l. leases s (renewal_principal r) = Some l \<and> now < rl_expires_at l \<and>
         lease_matches w (lr_session_epoch r) (lr_fencing_token r) l)"
    and release_claim_iff: "inv s \<Longrightarrow> fst (so_release_route_claim ops w r s) \<longleftrightarrow>
      (\<exists>l. leases s (renewal_principal r) = Some l \<and>
         lease_matches w (lr_session_epoch r) (lr_fencing_token r) l)"
    and consume_holder: "inv s \<Longrightarrow> gr_consumed (fst (so_consume_grant_result ops c now s)) \<Longrightarrow>
      (\<exists>l. leases s (claims_principal c) = Some l \<and> now < rl_expires_at l \<and>
         lease_matches (cg_worker_id c) (cg_session_epoch c) (cg_fencing_token c) l) \<and> now < cg_exp c"
    and renew_effect: "inv s \<Longrightarrow> leases (snd (so_renew_route ops w r now e s)) =
      (if fst (so_renew_route ops w r now e s)
       then (leases s)(renewal_principal r := map_option (\<lambda>l. l\<lparr>rl_expires_at := e\<rparr>) (leases s (renewal_principal r)))
       else leases s)"
    and release_claim_effect: "inv s \<Longrightarrow> leases (snd (so_release_route_claim ops w r s)) =
      (if fst (so_release_route_claim ops w r s) then (leases s)(renewal_principal r := None) else leases s)"

section \<open>Sequences of calls\<close>

datatype store_call =
    CallHeartbeat worker_heartbeat real
  | CallList real
  | CallDraining string bool real
  | CallAcquire acquire_args
  | CallRelease route_lease
  | CallRenew string lease_renewal real real
  | CallReleaseClaim string lease_renewal
  | CallConsume connect_grant_claims real

text \<open>One call; the first component is the lease it granted, with the principal it was granted to.\<close>

fun store_step :: "'s store_ops \<Rightarrow> store_call \<Rightarrow> 's \<Rightarrow> (principal \<times> route_lease) option \<times> 's" where
  "store_step ops (CallHeartbeat h e) s = (None, snd (so_heartbeat ops h e s))"
| "store_step ops (CallList now) s = (None, snd (so_list_workers ops now s))"
| "store_step ops (CallDraining w dr now) s = (None, snd (so_set_draining ops w dr now s))"
| "store_step ops (CallAcquire a) s =
    ((case fst (so_acquire_route ops a s) of Inl _ \<Rightarrow> None | Inr l \<Rightarrow> Some (args_principal a, l)),
     snd (so_acquire_route ops a s))"
| "store_step ops (CallRelease l) s = (None, snd (so_release_route ops l s))"
| "store_step ops (CallRenew w r now e) s = (None, snd (so_renew_route ops w r now e s))"
| "store_step ops (CallReleaseClaim w r) s = (None, snd (so_release_route_claim ops w r s))"
| "store_step ops (CallConsume c now) s = (None, snd (so_consume_grant_result ops c now s))"

fun store_run :: "'s store_ops \<Rightarrow> store_call list \<Rightarrow> 's \<Rightarrow> (principal \<times> route_lease) list \<times> 's" where
  "store_run ops [] s = ([], s)"
| "store_run ops (c # cs) s =
    (let (g, s1) = store_step ops c s; (gs, s2) = store_run ops cs s1
     in ((case g of None \<Rightarrow> gs | Some x \<Rightarrow> x # gs), s2))"

text \<open>The fencing tokens granted to one principal, in the order of the calls.\<close>

definition tokens_of :: "principal \<Rightarrow> (principal \<times> route_lease) list \<Rightarrow> int list" where
  "tokens_of p gs = map (\<lambda>(_, l). rl_fencing_token l) (filter (\<lambda>(q, _). q = p) gs)"

lemma tokens_of_simps [simp]:
  "tokens_of p [] = []"
  "tokens_of p ((q, l) # gs) = (if q = p then rl_fencing_token l # tokens_of p gs else tokens_of p gs)"
  by (simp_all add: tokens_of_def)

context coordination_store
begin

lemma step_inv: "inv s \<Longrightarrow> inv (snd (store_step ops c s))"
  by (cases c) (simp_all add: inv_heartbeat inv_list inv_draining inv_acquire inv_release inv_renew
      inv_release_claim inv_consume)

lemma step_fence:
  assumes "inv s"
  shows "case fst (store_step ops c s) of
      Some (q, l) \<Rightarrow> rl_fencing_token l = fences s q + 1 \<and> fences (snd (store_step ops c s)) = (fences s)(q := fences s q + 1)
    | None \<Rightarrow> fences (snd (store_step ops c s)) = fences s"
proof (cases c)
  case (CallAcquire a)
  obtain r s' where r: "so_acquire_route ops a s = (r, s')" by fastforce
  have inv': "inv s'" using inv_acquire [OF assms, of a] r by simp
  show ?thesis
  proof (cases r)
    case (Inl e)
    then have "fences s' = fences s" using fences_acquire [OF assms, of a] r by fastforce
    then show ?thesis using CallAcquire r Inl by simp
  next
    case (Inr l)
    have g: "leases s' (args_principal a) = Some l" "fences s' (args_principal a) = fences s (args_principal a) + 1"
      using acquire_granted [OF assms, of a l s'] r Inr by simp_all
    have "fences s' = (fences s)(args_principal a := fences s (args_principal a) + 1)"
      using fences_acquire [OF assms, of a] r g(2) by fastforce
    moreover have "rl_fencing_token l = fences s (args_principal a) + 1"
      using token_current [OF inv' g(1)] g(2) by simp
    ultimately show ?thesis using CallAcquire r Inr by simp
  qed
qed (simp_all add: others_heartbeat others_list others_draining others_consume fences_release fences_renew
      fences_release_claim)

lemma run_inv: "inv s \<Longrightarrow> inv (snd (store_run ops cs s))"
  by (induction cs arbitrary: s) (auto simp: Let_def case_prod_beta step_inv)

lemma tokens_increase:
  assumes "inv s"
  shows "sorted_wrt (<) (tokens_of p (fst (store_run ops cs s))) \<and>
    (\<forall>t \<in> set (tokens_of p (fst (store_run ops cs s))). fences s p < t \<and> t \<le> fences (snd (store_run ops cs s)) p) \<and>
    fences s p \<le> fences (snd (store_run ops cs s)) p"
  using assms
proof (induction cs arbitrary: s)
  case (Cons c cs)
  obtain g s1 where st: "store_step ops c s = (g, s1)" by fastforce
  obtain gs s2 where rest: "store_run ops cs s1 = (gs, s2)" by fastforce
  have "inv s1" using step_inv [OF Cons.prems, of c] st by simp
  note IH = Cons.IH [OF this, unfolded rest]
  show ?case
  proof (cases g)
    case None
    then show ?thesis using IH step_fence [OF Cons.prems, of c] st rest by simp
  next
    case (Some x)
    obtain q l where x: "x = (q, l)" by fastforce
    have f: "rl_fencing_token l = fences s q + 1" "fences s1 = (fences s)(q := fences s q + 1)"
      using step_fence [OF Cons.prems, of c] st Some x by simp_all
    have up: "fences s p \<le> fences s1 p" "q = p \<longrightarrow> fences s1 p = rl_fencing_token l" using f by auto
    have "\<forall>t \<in> set (tokens_of p gs). fences s1 p < t \<and> t \<le> fences s2 p" "fences s1 p \<le> fences s2 p"
      "sorted_wrt (<) (tokens_of p gs)" using IH by auto
    then show ?thesis
      using up f st rest Some x by (cases "q = p") fastforce+
  qed
qed simp

text \<open>A token below the current one is refused by every operation that asks for the holder.\<close>

lemma stale_renew:
  assumes "inv s" "lr_fencing_token r < fences s (renewal_principal r)"
  shows "\<not> fst (so_renew_route ops w r now e s)" "\<not> fst (so_release_route_claim ops w r s)"
proof -
  have "rl_fencing_token l \<noteq> lr_fencing_token r" if "leases s (renewal_principal r) = Some l" for l
    using token_current [OF assms(1) that] assms(2) by simp
  then show "\<not> fst (so_renew_route ops w r now e s)" "\<not> fst (so_release_route_claim ops w r s)"
    by (auto simp: renew_iff [OF assms(1)] release_claim_iff [OF assms(1)] lease_matches_def)
qed

lemma stale_consume:
  assumes "inv s" "cg_fencing_token c < fences s (claims_principal c)"
  shows "\<not> gr_consumed (fst (so_consume_grant_result ops c now s))"
proof
  assume "gr_consumed (fst (so_consume_grant_result ops c now s))"
  then obtain l where "leases s (claims_principal c) = Some l" "rl_fencing_token l = cg_fencing_token c"
    using consume_holder [OF assms(1)] by (auto simp: lease_matches_def)
  then show False using token_current [OF assms(1)] assms(2) by fastforce
qed

end

section \<open>The adapter meets the contract\<close>

definition memory_lease :: "memory_store \<Rightarrow> principal \<Rightarrow> route_lease option" where
  "memory_lease s p = dict_get (ms_leases s) (encode_route_key (fst p) (snd p))"

definition memory_fence :: "memory_store \<Rightarrow> principal \<Rightarrow> int" where
  "memory_fence s p = (case dict_get (ms_fencing s) (encode_route_key (fst p) (snd p)) of None \<Rightarrow> 0 | Some n \<Rightarrow> n)"

definition memory_inv :: "memory_store \<Rightarrow> bool" where
  "memory_inv s \<longleftrightarrow> dict_wf (ms_leases s) \<and> dict_wf (ms_workers s) \<and> dict_wf (ms_consumed_jti s) \<and>
     (\<forall>k l. dict_get (ms_leases s) k = Some l \<longrightarrow>
        k = route_key l \<and> dict_get (ms_fencing s) k = Some (rl_fencing_token l))"

lemma key_eq_iff: "encode_route_key (fst p) (snd p) = encode_route_key t d \<longleftrightarrow> p = (t, d)"
  by (cases p) (simp add: encode_route_key_inj)

lemma memory_init_inv: "memory_inv memory_init"
  by (simp add: memory_inv_def memory_init_def)

lemma drop_expired_get:
  "dict_wf d \<Longrightarrow> dict_get (drop_expired now d) k =
     (case dict_get d k of None \<Rightarrow> None | Some l \<Rightarrow> if rl_expires_at l \<le> now then None else Some l)"
  by (auto simp: drop_expired_def dict_get_filter split: option.splits)


lemmas memory_defs = memory_ops_def memory_heartbeat_def memory_list_workers_def memory_set_draining_def
  memory_release_route_def memory_consume_grant_result_def refused_def

lemma memory_invI:
  assumes "dict_wf (ms_leases s)" "dict_wf (ms_workers s)" "dict_wf (ms_consumed_jti s)"
    "\<And>k l. dict_get (ms_leases s) k = Some l \<Longrightarrow> k = route_key l \<and> dict_get (ms_fencing s) k = Some (rl_fencing_token l)"
  shows "memory_inv s"
  using assms by (auto simp: memory_inv_def)

lemma memory_invD:
  assumes "memory_inv s"
  shows "dict_wf (ms_leases s)" "dict_wf (ms_workers s)" "dict_wf (ms_consumed_jti s)"
    "dict_get (ms_leases s) k = Some l \<Longrightarrow> k = route_key l \<and> dict_get (ms_fencing s) k = Some (rl_fencing_token l)"
  using assms by (auto simp: memory_inv_def)

lemma memory_acquire_cases:
  obtains (refused) "\<not> isOk (fst (memory_acquire_route a s))"
      "snd (memory_acquire_route a s) = s\<lparr>ms_leases := drop_expired (aq_now a) (ms_leases s)\<rparr>"
  | (granted) l where
    "dict_get (drop_expired (aq_now a) (ms_leases s)) (encode_route_key (aq_tenant_id a) (aq_device_id a)) = None \<or>
     (\<exists>l0. dict_get (drop_expired (aq_now a) (ms_leases s)) (encode_route_key (aq_tenant_id a) (aq_device_id a)) = Some l0 \<and>
        rl_expires_at l0 \<le> aq_now a)"
    "l = \<lparr>rl_tenant_id = aq_tenant_id a, rl_device_id = aq_device_id a, rl_worker_id = aq_worker_id a,
      rl_session_epoch = aq_session_epoch a, rl_fencing_token = memory_fence s (args_principal a) + 1,
      rl_expires_at = aq_expires_at a\<rparr>"
    "memory_acquire_route a s = (Inr l, s\<lparr>ms_fencing := dict_set (encode_route_key (aq_tenant_id a) (aq_device_id a))
        (memory_fence s (args_principal a) + 1) (ms_fencing s),
      ms_leases := dict_set (encode_route_key (aq_tenant_id a) (aq_device_id a)) l
        (drop_expired (aq_now a) (ms_leases s))\<rparr>)"
    "int (length (filter (\<lambda>l. rl_worker_id l = aq_worker_id a) (dict_values (drop_expired (aq_now a) (ms_leases s))))) <
       aq_worker_max_sessions a"
proof -
  let ?key = "encode_route_key (aq_tenant_id a) (aq_device_id a)"
  let ?d = "drop_expired (aq_now a) (ms_leases s)"
  show thesis
  proof (cases "(case dict_get ?d ?key of None \<Rightarrow> False | Some current \<Rightarrow> rl_expires_at current > aq_now a) \<or>
      max (aq_worker_active_sessions a) (int (length (filter (\<lambda>l. rl_worker_id l = aq_worker_id a) (dict_values ?d)))) \<ge>
        aq_worker_max_sessions a")
    case True
    then show thesis by (intro refused) (auto simp: memory_acquire_route_def Let_def split: option.splits)
  next
    case False
    then show thesis
      by (intro granted) (auto simp: memory_acquire_route_def Let_def memory_fence_def args_principal_def not_less
          split: option.splits if_splits)
  qed
qed

lemma memory_acquire_inv: "memory_inv s \<Longrightarrow> memory_inv (snd (memory_acquire_route a s))"
proof (cases rule: memory_acquire_cases [of a s])
  assume s: "memory_inv s"
  note get = drop_expired_get [OF memory_invD(1) [OF s], of "aq_now a"]
  have wf: "dict_wf (drop_expired (aq_now a) (ms_leases s))"
    using memory_invD(1) [OF s] by (simp add: drop_expired_def)
  {
    case refused
    then show ?thesis
      using memory_invD [OF s] wf get by (intro memory_invI) (auto split: option.splits if_splits)
  next
    case (granted l)
    have "dict_get (ms_leases s) k = Some l' \<Longrightarrow> k = route_key l' \<and> dict_get (ms_fencing s) k = Some (rl_fencing_token l')" for k l'
      using memory_invD(4) [OF s] by blast
    then show ?thesis
      using memory_invD(1-3) [OF s] wf get granted
      by (intro memory_invI) (auto simp: route_key_def split: option.splits if_splits)
  }
qed


lemma memory_renew_inv: "memory_inv s \<Longrightarrow> memory_inv (snd (memory_renew_route w r now e s))"
proof -
  assume s: "memory_inv s"
  have keep: "route_key (l\<lparr>rl_expires_at := e\<rparr>) = route_key l" for l by (simp add: route_key_def)
  show ?thesis
  proof (cases "dict_get (ms_leases s) (encode_route_key (lr_tenant_id r) (lr_device_id r))")
    case (Some l)
    have "memory_inv (s\<lparr>ms_leases := dict_set (encode_route_key (lr_tenant_id r) (lr_device_id r))
        (l\<lparr>rl_expires_at := e\<rparr>) (ms_leases s)\<rparr>)"
    proof (rule memory_invI)
      fix k l'
      assume "dict_get (ms_leases (s\<lparr>ms_leases := dict_set (encode_route_key (lr_tenant_id r) (lr_device_id r))
        (l\<lparr>rl_expires_at := e\<rparr>) (ms_leases s)\<rparr>)) k = Some l'"
      then show "k = route_key l' \<and> dict_get (ms_fencing (s\<lparr>ms_leases := dict_set (encode_route_key (lr_tenant_id r)
          (lr_device_id r)) (l\<lparr>rl_expires_at := e\<rparr>) (ms_leases s)\<rparr>)) k = Some (rl_fencing_token l')"
        using memory_invD(4) [OF s Some] memory_invD(4) [OF s, of k l'] keep by (auto split: if_splits)
    qed (use memory_invD(1-3) [OF s] in simp_all)
    then show ?thesis using Some s by (simp add: memory_renew_route_def Let_def)
  qed (use s in \<open>simp add: memory_renew_route_def\<close>)
qed

lemma memory_pop_inv:
  assumes s: "memory_inv s"
  shows "memory_inv (s\<lparr>ms_leases := dict_pop k (ms_leases s)\<rparr>)"
proof (rule memory_invI)
  fix k' l assume "dict_get (ms_leases (s\<lparr>ms_leases := dict_pop k (ms_leases s)\<rparr>)) k' = Some l"
  then have "dict_get (ms_leases s) k' = Some l" by (simp split: if_splits)
  from memory_invD(4) [OF s this]
  show "k' = route_key l \<and> dict_get (ms_fencing (s\<lparr>ms_leases := dict_pop k (ms_leases s)\<rparr>)) k' = Some (rl_fencing_token l)"
    by fastforce
qed (use memory_invD [OF s] in simp_all)

lemma memory_simple_inv:
  assumes "memory_inv s"
  shows "memory_inv (snd (memory_heartbeat h e s))" "memory_inv (snd (memory_list_workers now s))"
    "memory_inv (snd (memory_set_draining w dr now s))" "memory_inv (snd (memory_release_route l s))"
    "memory_inv (snd (memory_release_route_claim w r s))" "memory_inv (snd (memory_consume_grant_result c now s))"
proof -
  have jti: "memory_inv (s\<lparr>ms_consumed_jti := d\<rparr>)" if "dict_wf d" for d using assms that by (simp add: memory_inv_def)
  have wk: "memory_inv (s\<lparr>ms_workers := d\<rparr>)" if "dict_wf d" for d using assms that by (simp add: memory_inv_def)
  note wf = memory_invD(2,3) [OF assms]
  show "memory_inv (snd (memory_heartbeat h e s))" "memory_inv (snd (memory_list_workers now s))"
    using wf by (simp_all add: memory_heartbeat_def memory_list_workers_def Let_def wk)
  show "memory_inv (snd (memory_set_draining w dr now s))"
    using wf assms by (simp add: memory_set_draining_def Let_def wk split: option.splits)
  show "memory_inv (snd (memory_release_route l s))"
    using memory_pop_inv [OF assms] assms by (simp add: memory_release_route_def)
  show "memory_inv (snd (memory_release_route_claim w r s))"
    using memory_pop_inv [OF assms] assms by (simp add: memory_release_route_claim_def Let_def split: option.splits)
  show "memory_inv (snd (memory_consume_grant_result c now s))"
    using wf by (simp add: memory_consume_grant_result_def Let_def jti split: option.splits)
qed

lemma memory_frames:
  "memory_lease (snd (memory_heartbeat h e s)) = memory_lease s" "memory_fence (snd (memory_heartbeat h e s)) = memory_fence s"
  "memory_lease (snd (memory_list_workers now s)) = memory_lease s" "memory_fence (snd (memory_list_workers now s)) = memory_fence s"
  "memory_lease (snd (memory_set_draining w dr now s)) = memory_lease s" "memory_fence (snd (memory_set_draining w dr now s)) = memory_fence s"
  "memory_lease (snd (memory_consume_grant_result c now s)) = memory_lease s"
  "memory_fence (snd (memory_consume_grant_result c now s)) = memory_fence s"
  "memory_fence (snd (memory_release_route l s)) = memory_fence s"
  "memory_fence (snd (memory_renew_route w r now e s)) = memory_fence s"
  "memory_fence (snd (memory_release_route_claim w r s)) = memory_fence s"
  by (simp_all add: fun_eq_iff memory_lease_def memory_fence_def memory_defs memory_renew_route_def
      memory_release_route_claim_def Let_def split: option.splits)

lemma memory_acquire_granted:
  assumes s: "memory_inv s" and g: "memory_acquire_route a s = (Inr l, s')"
  shows "(\<forall>l0. memory_lease s (args_principal a) = Some l0 \<longrightarrow> rl_expires_at l0 \<le> aq_now a) \<and>
    memory_lease s' (args_principal a) = Some l \<and>
    memory_fence s' (args_principal a) = memory_fence s (args_principal a) + 1 \<and>
    rl_worker_id l = aq_worker_id a \<and> rl_session_epoch l = aq_session_epoch a \<and> rl_expires_at l = aq_expires_at a"
proof (cases rule: memory_acquire_cases [of a s])
  case (granted m)
  have "rl_expires_at l0 \<le> aq_now a" if "memory_lease s (args_principal a) = Some l0" for l0
    using granted(1) that drop_expired_get [OF memory_invD(1) [OF s], of "aq_now a"]
    by (auto simp: memory_lease_def args_principal_def split: if_splits)
  then show ?thesis using granted(2,3) g by (simp add: memory_lease_def memory_fence_def args_principal_def)
qed (use g in simp)

lemma memory_acquire_others:
  assumes s: "memory_inv s"
  shows "memory_fence (snd (memory_acquire_route a s)) p \<noteq> memory_fence s p \<Longrightarrow>
      p = args_principal a \<and> isOk (fst (memory_acquire_route a s))"
    and "memory_lease (snd (memory_acquire_route a s)) p = Some l \<Longrightarrow>
      memory_lease s p = Some l \<or> (p = args_principal a \<and> fst (memory_acquire_route a s) = Inr l)"
proof -
  note get = drop_expired_get [OF memory_invD(1) [OF s], of "aq_now a"]
  show "memory_fence (snd (memory_acquire_route a s)) p \<noteq> memory_fence s p \<Longrightarrow>
      p = args_principal a \<and> isOk (fst (memory_acquire_route a s))"
    by (cases rule: memory_acquire_cases [of a s])
      (auto simp: memory_fence_def key_eq_iff args_principal_def split: if_splits)
  show "memory_lease (snd (memory_acquire_route a s)) p = Some l \<Longrightarrow>
      memory_lease s p = Some l \<or> (p = args_principal a \<and> fst (memory_acquire_route a s) = Inr l)"
    by (cases rule: memory_acquire_cases [of a s])
      (auto simp: memory_lease_def key_eq_iff args_principal_def get split: if_splits option.splits)
qed

lemma memory_acquire_keeps:
  assumes s: "memory_inv s" and l: "memory_lease s p = Some l" "aq_now a < rl_expires_at l"
  shows "memory_lease (snd (memory_acquire_route a s)) p = Some l"
proof -
  note get = drop_expired_get [OF memory_invD(1) [OF s], of "aq_now a"]
  show ?thesis
    using l get by (cases rule: memory_acquire_cases [of a s]) (auto simp: memory_lease_def key_eq_iff args_principal_def)
qed

lemma memory_renew_iff:
  "fst (memory_renew_route w r now e s) \<longleftrightarrow> (\<exists>l. memory_lease s (renewal_principal r) = Some l \<and> now < rl_expires_at l \<and>
     lease_matches w (lr_session_epoch r) (lr_fencing_token r) l)"
  by (auto simp: memory_renew_route_def memory_lease_def renewal_principal_def lease_matches_def Let_def
      split: option.splits)

lemma memory_release_claim_iff:
  "fst (memory_release_route_claim w r s) \<longleftrightarrow> (\<exists>l. memory_lease s (renewal_principal r) = Some l \<and>
     lease_matches w (lr_session_epoch r) (lr_fencing_token r) l)"
  by (auto simp: memory_release_route_claim_def memory_lease_def renewal_principal_def lease_matches_def Let_def
      split: option.splits)

lemma memory_renew_effect:
  "memory_lease (snd (memory_renew_route w r now e s)) =
    (if fst (memory_renew_route w r now e s)
     then (memory_lease s)(renewal_principal r := map_option (\<lambda>l. l\<lparr>rl_expires_at := e\<rparr>) (memory_lease s (renewal_principal r)))
     else memory_lease s)"
  by (auto simp: fun_eq_iff memory_renew_route_def memory_lease_def renewal_principal_def encode_route_key_inj Let_def
      split: option.splits)

lemma memory_release_claim_effect:
  "memory_lease (snd (memory_release_route_claim w r s)) =
    (if fst (memory_release_route_claim w r s) then (memory_lease s)(renewal_principal r := None) else memory_lease s)"
  by (auto simp: fun_eq_iff memory_release_route_claim_def memory_lease_def renewal_principal_def encode_route_key_inj
      Let_def split: option.splits)

lemma memory_consume_holder:
  "gr_consumed (fst (memory_consume_grant_result c now s)) \<Longrightarrow>
    (\<exists>l. memory_lease s (claims_principal c) = Some l \<and> now < rl_expires_at l \<and>
       lease_matches (cg_worker_id c) (cg_session_epoch c) (cg_fencing_token c) l) \<and> now < cg_exp c"
  by (auto simp: memory_consume_grant_result_def memory_lease_def claims_principal_def lease_matches_def refused_def
      Let_def split: option.splits if_splits)

lemma memory_token_current:
  "memory_inv s \<Longrightarrow> memory_lease s p = Some l \<Longrightarrow> rl_fencing_token l = memory_fence s p"
  using memory_invD(4) [of s] by (auto simp: memory_lease_def memory_fence_def)

interpretation memory: coordination_store memory_ops memory_lease memory_fence memory_inv
  by unfold_locales (simp_all add: memory_ops_def memory_simple_inv memory_acquire_inv memory_renew_inv memory_frames
      memory_token_current memory_renew_iff memory_release_claim_iff memory_consume_holder memory_acquire_granted
      memory_acquire_others(1) memory_acquire_keeps memory_renew_effect memory_release_claim_effect, use memory_acquire_others(2) in blast)


section \<open>Properties\<close>

text \<open>
  C17. Fencing tokens only grow. For every sequence of calls to the store, in any order and at any times, the
  tokens granted to one principal are strictly increasing, and all of them lie above the counter at the start;
  so two leases of a device, however they were acquired, released, renewed or expired, never carry the same
  token.
\<close>

theorem fencing_tokens_increase:
  assumes "memory_inv s"
  shows "sorted_wrt (<) (tokens_of p (fst (store_run memory_ops calls s))) \<and>
    list_all (\<lambda>t. memory_fence s p < t) (tokens_of p (fst (store_run memory_ops calls s)))"
  using memory.tokens_increase [OF assms, of p calls] by (simp add: list_all_iff)

text \<open>
  C18. A superseded holder is shut out. Once a principal has been granted a new lease, in every later state the
  old holder can neither renew nor release the route, and no grant made for the old lease can be consumed,
  whatever worker presents it and whenever.
\<close>

theorem superseded_holder_refused:
  assumes s: "memory_inv s" and new: "memory_acquire_route a s = (Inr l, s')"
    and old: "lr_tenant_id r = aq_tenant_id a" "lr_device_id r = aq_device_id a" "lr_fencing_token r < rl_fencing_token l"
    and oldc: "cg_tenant_id c = aq_tenant_id a" "cg_device_id c = aq_device_id a" "cg_fencing_token c < rl_fencing_token l"
  shows "let s'' = snd (store_run memory_ops calls s') in
    \<not> fst (memory_renew_route w r now e s'') \<and> \<not> fst (memory_release_route_claim w r s'') \<and>
    \<not> gr_consumed (fst (memory_consume_grant_result c now s''))"
proof -
  define s'' where "s'' = snd (store_run memory_ops calls s')"
  have inv': "memory_inv s'" using memory_acquire_inv [OF s, of a] new by simp
  have inv'': "memory_inv s''" unfolding s''_def by (rule memory.run_inv [OF inv'])
  have "rl_fencing_token l = memory_fence s' (args_principal a)"
    using memory_token_current [OF inv', of "args_principal a" l] memory_acquire_granted [OF s new] by blast
  also have "\<dots> \<le> memory_fence s'' (args_principal a)"
    using memory.tokens_increase [OF inv', of "args_principal a" calls] by (simp add: s''_def)
  finally have f: "rl_fencing_token l \<le> memory_fence s'' (args_principal a)" .
  have p: "renewal_principal r = args_principal a" "claims_principal c = args_principal a"
    using old oldc by (simp_all add: renewal_principal_def args_principal_def claims_principal_def)
  have "\<not> fst (memory_renew_route w r now e s'') \<and> \<not> fst (memory_release_route_claim w r s'')"
    using memory.stale_renew(1) [OF inv'', of r w now e] memory.stale_renew(2) [OF inv'', of r w] f p old
    by (simp add: memory_ops_def)
  moreover have "\<not> gr_consumed (fst (memory_consume_grant_result c now s''))"
    using memory.stale_consume [OF inv'', of c now] f p oldc by (simp add: memory_ops_def)
  ultimately show ?thesis by (simp add: s''_def Let_def)
qed

text \<open>The time at which a call consumes a grant is at most \<open>t\<close>.\<close>

fun consumes_by :: "real \<Rightarrow> store_call \<Rightarrow> bool" where
  "consumes_by t (CallConsume _ now) = (now \<le> t)"
| "consumes_by t _ = True"

lemma consumed_kept:
  assumes "memory_inv s" "dict_get (ms_consumed_jti s) j = Some e" "consumes_by t c" "t < e"
  shows "dict_get (ms_consumed_jti (snd (store_step memory_ops c s))) j = Some e"
proof (cases c)
  case (CallConsume c' now)
  define d where "d = filter (\<lambda>(_, expiry). expiry > now) (ms_consumed_jti s)"
  have d: "dict_get d j = Some e"
    using assms(2-4) CallConsume dict_get_filter [OF memory_invD(3) [OF assms(1)], of "\<lambda>_ expiry. expiry > now"]
    by (simp add: d_def)
  then have "j \<in> set (dict_keys d)" by (metis map_of_eq_None_iff not_None_eq list.set_map)
  then show ?thesis
    using CallConsume d
    by (cases "cg_jti c' = j") (simp_all add: memory_ops_def memory_consume_grant_result_def refused_def Let_def
        flip: d_def split: option.splits)
next
  case (CallAcquire a)
  then show ?thesis using assms(2) by (cases rule: memory_acquire_cases [of a s]) (simp_all add: memory_ops_def)
qed (use assms(2) in \<open>simp_all add: memory_defs memory_renew_route_def memory_release_route_claim_def Let_def
      split: option.splits\<close>)

lemma consumed_kept_run:
  assumes "memory_inv s" "dict_get (ms_consumed_jti s) j = Some e" "list_all (consumes_by t) cs" "t < e"
  shows "dict_get (ms_consumed_jti (snd (store_run memory_ops cs s))) j = Some e"
  using assms
proof (induction cs arbitrary: s)
  case (Cons c cs)
  have "memory_inv (snd (store_step memory_ops c s))" by (rule memory.step_inv [OF Cons.prems(1)])
  then show ?case
    using Cons.IH [of "snd (store_step memory_ops c s)"] Cons.prems consumed_kept [OF Cons.prems(1,2), of t c]
    by (simp add: Let_def case_prod_beta)
qed simp

lemma consume_replay:
  assumes "memory_inv s" "dict_get (ms_consumed_jti s) (cg_jti c) = Some (cg_exp c)"
  shows "\<not> gr_consumed (fst (memory_consume_grant_result c now s))"
proof (cases "cg_exp c \<le> now")
  case False
  define d where "d = filter (\<lambda>(_, expiry). expiry > now) (ms_consumed_jti s)"
  have "dict_get d (cg_jti c) = Some (cg_exp c)"
    using assms(2) False dict_get_filter [OF memory_invD(3) [OF assms(1)], of "\<lambda>_ expiry. expiry > now"]
    by (simp add: d_def)
  then have "cg_jti c \<in> set (dict_keys d)" by (metis map_of_eq_None_iff not_None_eq list.set_map)
  then show ?thesis
    by (simp add: memory_consume_grant_result_def refused_def Let_def flip: d_def split: option.splits)
qed (simp add: memory_consume_grant_result_def refused_def Let_def split: option.splits)

text \<open>
  A connect grant is used at most once. After it has been consumed, every later attempt to consume it is
  refused, whatever calls reach the store in between, as long as the store's clock does not run backwards.
\<close>

theorem grant_single_use:
  assumes s: "memory_inv s" and first: "gr_consumed (fst (memory_consume_grant_result c now s))"
    and calls: "list_all (consumes_by later) calls"
  shows "\<not> gr_consumed (fst (memory_consume_grant_result c later
    (snd (store_run memory_ops calls (snd (memory_consume_grant_result c now s))))))"
proof (cases "later < cg_exp c")
  case True
  let ?s = "snd (memory_consume_grant_result c now s)"
  have inv: "memory_inv ?s" using memory_simple_inv(6) [OF s] .
  have "dict_get (ms_consumed_jti ?s) (cg_jti c) = Some (cg_exp c)"
  proof (cases "dict_get (ms_leases s) (encode_route_key (cg_tenant_id c) (cg_device_id c))")
    case (Some current)
    then show ?thesis using first by (simp add: memory_consume_grant_result_def refused_def Let_def split: if_splits)
  qed (use first in \<open>simp add: memory_consume_grant_result_def refused_def\<close>)
  then have "dict_get (ms_consumed_jti (snd (store_run memory_ops calls ?s))) (cg_jti c) = Some (cg_exp c)"
    by (rule consumed_kept_run [OF inv _ calls True])
  then show ?thesis using consume_replay memory.run_inv [OF inv] by blast
next
  case False
  then show ?thesis using memory_consume_holder [of c later] by blast
qed

text \<open>
  The capacity of a worker is respected: a route is granted to a worker only when the routes it already holds,
  after dropping expired ones, are fewer than its limit, and the principal has no other unexpired route.
\<close>

theorem acquire_within_capacity:
  assumes s: "memory_inv s" and g: "memory_acquire_route a s = (Inr l, s')"
  shows "int (length (filter (\<lambda>l. rl_worker_id l = aq_worker_id a) (dict_values (ms_leases s')))) \<le> aq_worker_max_sessions a \<and>
    (case memory_lease s (aq_tenant_id a, aq_device_id a) of None \<Rightarrow> True | Some l0 \<Rightarrow> rl_expires_at l0 \<le> aq_now a)"
proof (cases rule: memory_acquire_cases [of a s])
  case (granted m)
  let ?key = "encode_route_key (aq_tenant_id a) (aq_device_id a)"
  have "dict_get (drop_expired (aq_now a) (ms_leases s)) ?key = None"
    using granted(1) drop_expired_get [OF memory_invD(1) [OF s], of "aq_now a" ?key] by (auto split: option.splits if_splits)
  then have new: "?key \<notin> set (dict_keys (drop_expired (aq_now a) (ms_leases s)))" by (simp add: map_of_eq_None_iff)
  have "ms_leases s' = drop_expired (aq_now a) (ms_leases s) @ [(?key, l)]"
    using granted(3) g dict_set_new [OF new] by simp
  then show ?thesis
    using granted(4) memory_acquire_granted [OF s g] by (simp add: args_principal_def split: option.splits)
qed (use g in simp)

section \<open>Witnesses\<close>

definition demo_acquire :: "string \<Rightarrow> real \<Rightarrow> acquire_args" where
  "demo_acquire epoch now = \<lparr>aq_tenant_id = ''lab'', aq_device_id = ''dev'', aq_worker_id = ''w1'',
     aq_worker_active_sessions = 0, aq_worker_max_sessions = 5, aq_session_epoch = epoch, aq_now = now,
     aq_expires_at = now + 30\<rparr>"

definition demo_lease :: route_lease where
  "demo_lease = \<lparr>rl_tenant_id = ''lab'', rl_device_id = ''dev'', rl_worker_id = ''w1'', rl_session_epoch = ''e1'',
     rl_fencing_token = 1, rl_expires_at = 130\<rparr>"

definition demo_store :: memory_store where
  "demo_store = snd (memory_acquire_route (demo_acquire ''e1'' 100) memory_init)"

lemma demo_store_eq:
  "memory_acquire_route (demo_acquire ''e1'' 100) memory_init = (Inr demo_lease, demo_store)"
  "ms_leases demo_store = [(encode_route_key ''lab'' ''dev'', demo_lease)]"
  "ms_fencing demo_store = [(encode_route_key ''lab'' ''dev'', 1)]" "ms_consumed_jti demo_store = []"
  by (simp_all add: demo_store_def memory_acquire_route_def demo_acquire_def memory_init_def drop_expired_def
      demo_lease_def Let_def)

lemma demo_store_inv: "memory_inv demo_store"
  using memory_acquire_inv [OF memory_init_inv] by (simp add: demo_store_def)

theorem fencing_tokens_increase_witness:
  "tokens_of (''lab'', ''dev'') (fst (store_run memory_ops
     [CallAcquire (demo_acquire ''e1'' 100), CallAcquire (demo_acquire ''e2'' 200)] memory_init)) = [1, 2] \<and>
   sorted_wrt (<) (tokens_of (''lab'', ''dev'') (fst (store_run memory_ops
     [CallAcquire (demo_acquire ''e1'' 100), CallAcquire (demo_acquire ''e2'' 200)] memory_init)))"
  using fencing_tokens_increase [OF memory_init_inv, of "(''lab'', ''dev'')"
      "[CallAcquire (demo_acquire ''e1'' 100), CallAcquire (demo_acquire ''e2'' 200)]"]
  by (simp add: memory_ops_def memory_acquire_route_def demo_acquire_def memory_init_def drop_expired_def
      args_principal_def Let_def)

theorem superseded_holder_refused_witness:
  "isOk (fst (memory_acquire_route (demo_acquire ''e2'' 200) demo_store)) \<and>
   \<not> fst (memory_renew_route ''w1'' \<lparr>lr_tenant_id = ''lab'', lr_device_id = ''dev'', lr_session_epoch = ''e1'',
      lr_fencing_token = 1\<rparr> 201 231 (snd (memory_acquire_route (demo_acquire ''e2'' 200) demo_store)))"
proof -
  let ?r = "\<lparr>lr_tenant_id = ''lab'', lr_device_id = ''dev'', lr_session_epoch = ''e1'', lr_fencing_token = 1\<rparr>"
  let ?l = "demo_lease\<lparr>rl_session_epoch := ''e2'', rl_fencing_token := 2, rl_expires_at := 230\<rparr>"
  have g: "memory_acquire_route (demo_acquire ''e2'' 200) demo_store =
      (Inr ?l, snd (memory_acquire_route (demo_acquire ''e2'' 200) demo_store))"
    by (simp add: memory_acquire_route_def demo_store_eq demo_acquire_def demo_lease_def drop_expired_def Let_def)
  have "let s'' = snd (store_run memory_ops [] (snd (memory_acquire_route (demo_acquire ''e2'' 200) demo_store))) in
    \<not> fst (memory_renew_route ''w1'' ?r 201 231 s'') \<and> \<not> fst (memory_release_route_claim ''w1'' ?r s'') \<and>
    \<not> gr_consumed (fst (memory_consume_grant_result demo_claims 201 s''))"
    by (rule superseded_holder_refused [OF demo_store_inv g])
      (simp_all add: demo_acquire_def demo_lease_def demo_claims_def)
  then show ?thesis using g by (simp add: Let_def) (metis fst_conv isOk_simps(2))
qed

theorem grant_single_use_witness:
  "gr_consumed (fst (memory_consume_grant_result demo_claims 110 demo_store)) \<and>
   \<not> gr_consumed (fst (memory_consume_grant_result demo_claims 111 (snd (memory_consume_grant_result demo_claims 110 demo_store))))"
proof -
  have "gr_consumed (fst (memory_consume_grant_result demo_claims 110 demo_store))"
    by (simp add: memory_consume_grant_result_def demo_store_eq demo_lease_def demo_claims_def Let_def)
  then show ?thesis using grant_single_use [OF demo_store_inv, of demo_claims 110 111 "[]"] by simp
qed

theorem acquire_within_capacity_witness:
  "length (filter (\<lambda>l. rl_worker_id l = ''w1'') (dict_values (ms_leases demo_store))) = 1 \<and>
   int (length (filter (\<lambda>l. rl_worker_id l = ''w1'') (dict_values (ms_leases demo_store)))) \<le> 5"
  using acquire_within_capacity [OF memory_init_inv demo_store_eq(1)]
  by (simp add: demo_acquire_def demo_store_eq demo_lease_def)

end
