(* ===== verification/Director_Service.thy ===== *)
theory Director_Service
  imports Coordination_Store "HOL-Library.Product_Lexorder" "HOL-Library.List_Lexorder" "HOL-Library.Char_ord"
begin

text \<open>
  The Director, \<open>session_director/service.py\<close> with the HTTP handlers of \<open>session_director/app.py\<close> and the
  settings check of \<open>session_director/config.py\<close>. The service is written against the store port, so its
  definitions take the operations of the port as an argument; clock readings and the random parts of fresh
  identifiers are arguments too.
\<close>

record director_config =
  dc_heartbeat_ttl_seconds :: real
  dc_lease_ttl_seconds :: real

text \<open>
  What leaves a service method as an exception: its own errors, the store's, the pydantic error of a record that
  does not validate, and whatever else the grant codec raises.
\<close>

datatype director_error =
    NoCapacityError
  | GrantConsumeError string
  | StoreError store_error
  | ModelInvalid
  | CodecRaises

section \<open>Heartbeats\<close>

fun release_claims :: "'s store_ops \<Rightarrow> string \<Rightarrow> lease_renewal list \<Rightarrow> 's \<Rightarrow> nat \<times> 's" where
  "release_claims ops worker_id [] s = (0, s)"
| "release_claims ops worker_id (r # rs) s =
    (let (ok, s1) = so_release_route_claim ops worker_id r s;
         (n, s2) = release_claims ops worker_id rs s1
     in ((if ok then 1 else 0) + n, s2))"

fun renew_leases :: "'s store_ops \<Rightarrow> string \<Rightarrow> real \<Rightarrow> real \<Rightarrow> lease_renewal list \<Rightarrow> 's \<Rightarrow> string list \<times> 's" where
  "renew_leases ops worker_id now expires_at [] s = ([], s)"
| "renew_leases ops worker_id now expires_at (r # rs) s =
    (let (accepted, s1) = so_renew_route ops worker_id r now expires_at s;
         (rejected, s2) = renew_leases ops worker_id now expires_at rs s1
     in (if accepted then rejected else lr_session_epoch r # rejected, s2))"

definition director_heartbeat ::
    "'s store_ops \<Rightarrow> director_config \<Rightarrow> real \<Rightarrow> worker_heartbeat \<Rightarrow> 's \<Rightarrow> heartbeat_response \<times> 's" where
  "director_heartbeat ops cfg now h s =
    (let (snapshot, s1) = so_heartbeat ops h (now + dc_heartbeat_ttl_seconds cfg) s;
         (_, s2) = release_claims ops (wh_worker_id h) (wh_released_leases h) s1;
         (rejected, s3) = renew_leases ops (wh_worker_id h) now (now + dc_lease_ttl_seconds cfg)
                            (wh_active_leases h) s2
     in (\<lparr>hr_draining = wh_draining snapshot, hr_heartbeat_expires_at = ws_heartbeat_expires_at snapshot,
          hr_lease_expires_at = now + dc_lease_ttl_seconds cfg, hr_rejected_session_epochs = rejected\<rparr>, s3))"

section \<open>Grants\<close>

definition GRANT_ERROR_REASONS :: "(string, string) dict" where
  "GRANT_ERROR_REASONS =
    [(''malformed grant'', ''malformed_grant''),
     (''malformed grant encoding'', ''malformed_grant_encoding''),
     (''malformed grant header'', ''malformed_grant_header''),
     (''unsupported grant header'', ''unsupported_grant_header''),
     (''invalid grant signature'', ''invalid_grant_signature''),
     (''invalid grant claims'', ''invalid_grant_claims''),
     (''grant expired'', ''grant_expired''),
     (''invalid grant lifetime'', ''invalid_grant_lifetime''),
     (''grant belongs to another worker'', ''worker_mismatch''),
     (''grant belongs to another device'', ''device_mismatch'')]"

definition grant_error_reason :: "string \<Rightarrow> string" where
  "grant_error_reason message =
    (case dict_get GRANT_ERROR_REASONS message of None \<Rightarrow> ''invalid_grant'' | Some r \<Rightarrow> r)"

definition director_consume_grant ::
    "'s store_ops \<Rightarrow> codec_env \<Rightarrow> grant_codec \<Rightarrow> real \<Rightarrow> string \<Rightarrow> string \<Rightarrow> string \<Rightarrow> 's \<Rightarrow>
      (director_error, connect_grant_claims, 's) op_result" where
  "director_consume_grant ops E codec now token worker_id device_id s =
    (case grant_verify E codec now token (Some worker_id) (Some device_id) of
      Inl (GrantError message) \<Rightarrow> (Inl (GrantConsumeError (grant_error_reason message)), s)
    | Inl GrantRaises \<Rightarrow> (Inl CodecRaises, s)
    | Inr claims \<Rightarrow>
        (let (result, s1) = so_consume_grant_result ops claims now s
         in if \<not> gr_consumed result then (Inl (GrantConsumeError (gr_reason result)), s1)
            else (Inr claims, s1)))"

section \<open>Bootstrap\<close>

type_synonym candidate = "worker_snapshot \<times> string \<times> string list"

definition candidate_of :: "string list \<Rightarrow> string \<Rightarrow> worker_snapshot \<Rightarrow> candidate option" where
  "candidate_of requested_profiles control_protocol worker =
    (case find (\<lambda>b. ba_control_protocol b = control_protocol) (resolved_bindings (worker_heartbeat.truncate worker)) of
      None \<Rightarrow> None
    | Some b \<Rightarrow>
        (let allowed = filter (\<lambda>p. p \<in> set (ba_profiles b)) requested_profiles
         in if wh_healthy worker \<and> \<not> wh_draining worker \<and> available_slots worker > 0 \<and> allowed \<noteq> []
            then Some (worker, ba_public_wss_url b, allowed) else None))"

definition candidate_key :: "candidate \<Rightarrow> real \<times> int \<times> string" where
  "candidate_key c = (let w = fst c in
     (of_int (wh_active_sessions w) / of_int (wh_max_sessions w), wh_active_sessions w, wh_worker_id w))"

definition candidate_workers ::
    "worker_snapshot list \<Rightarrow> string list \<Rightarrow> string \<Rightarrow> director_error + candidate list" where
  "candidate_workers workers requested_profiles control_protocol =
    (let candidates = List.map_filter (candidate_of requested_profiles control_protocol) workers
     in if candidates = [] then Inl NoCapacityError else Inr (sort_key candidate_key candidates))"

definition route_args :: "bootstrap_request \<Rightarrow> candidate \<Rightarrow> string \<Rightarrow> real \<Rightarrow> real \<Rightarrow> acquire_args" where
  "route_args req c fresh now expires_at =
    \<lparr>aq_tenant_id = br_tenant_id req, aq_device_id = br_device_id req, aq_worker_id = wh_worker_id (fst c),
     aq_worker_active_sessions = wh_active_sessions (fst c), aq_worker_max_sessions = wh_max_sessions (fst c),
     aq_session_epoch = ''epoch-'' @ fresh, aq_now = now, aq_expires_at = expires_at\<rparr>"

text \<open>
  The loop over the candidates; \<open>fresh\<close> gives the hex of the \<open>uuid4\<close> drawn for the \<open>i\<close>-th attempt. \<open>None\<close> is the
  loop ending without a lease.
\<close>

fun acquire_first ::
    "'s store_ops \<Rightarrow> bootstrap_request \<Rightarrow> real \<Rightarrow> real \<Rightarrow> (nat \<Rightarrow> string) \<Rightarrow> nat \<Rightarrow> candidate list \<Rightarrow> 's \<Rightarrow>
      (director_error, (candidate \<times> route_lease) option, 's) op_result" where
  "acquire_first ops req now expires_at fresh i [] s = (Inr None, s)"
| "acquire_first ops req now expires_at fresh i (c # cs) s =
    (case so_acquire_route ops (route_args req c (fresh i) now expires_at) s of
      (Inr lease, s1) \<Rightarrow> (Inr (Some (c, lease)), s1)
    | (Inl (WorkerCapacityError _), s1) \<Rightarrow> acquire_first ops req now expires_at fresh (Suc i) cs s1
    | (Inl e, s1) \<Rightarrow> (Inl (StoreError e), s1))"

definition bootstrap_claims ::
    "bootstrap_request \<Rightarrow> candidate \<Rightarrow> route_lease \<Rightarrow> real \<Rightarrow> real \<Rightarrow> string \<Rightarrow> connect_grant_claims" where
  "bootstrap_claims req c lease now expires_at jti =
    \<lparr>cg_iss = ''session_director'', cg_aud = ''realtime_worker'', cg_tenant_id = br_tenant_id req,
     cg_device_id = br_device_id req, cg_worker_id = wh_worker_id (fst c), cg_session_epoch = rl_session_epoch lease,
     cg_fencing_token = rl_fencing_token lease, cg_profiles = snd (snd c),
     cg_control_protocol = br_control_protocol req, cg_iat = now, cg_exp = expires_at, cg_jti = ''jti-'' @ jti\<rparr>"

definition director_bootstrap ::
    "'s store_ops \<Rightarrow> codec_env \<Rightarrow> grant_codec \<Rightarrow> director_config \<Rightarrow> real \<Rightarrow> (nat \<Rightarrow> string) \<Rightarrow> string \<Rightarrow>
      bootstrap_request \<Rightarrow> 's \<Rightarrow> (director_error, bootstrap_response, 's) op_result" where
  "director_bootstrap ops E codec cfg now fresh jti req s =
    (let (workers, s1) = so_list_workers ops now s;
         expires_at = now + dc_lease_ttl_seconds cfg
     in bind_op (candidate_workers workers (br_supported_profiles req) (br_control_protocol req), s1) (\<lambda>candidates s1.
        bind_op (acquire_first ops req now expires_at fresh 0 candidates s1) (\<lambda>selected s2.
        case selected of
          None \<Rightarrow> (Inl NoCapacityError, s2)
        | Some (c, lease) \<Rightarrow>
            (let claims = bootstrap_claims req c lease now expires_at jti
             in if \<not> claims_valid claims \<or> rl_fencing_token lease > 9007199254740991 then (Inl ModelInvalid, s2)
                else (Inr \<lparr>bs_worker_id = wh_worker_id (fst c), bs_worker_wss_url = fst (snd c),
                           bs_connect_grant = grant_issue E codec claims,
                           bs_session_epoch = rl_session_epoch lease, bs_fencing_token = rl_fencing_token lease,
                           bs_allowed_profiles = snd (snd c), bs_control_protocol = br_control_protocol req,
                           bs_expires_at = expires_at\<rparr>, s2)))))"

definition director_release :: "'s store_ops \<Rightarrow> route_release_request \<Rightarrow> 's \<Rightarrow> bool \<times> 's" where
  "director_release ops req s = so_release_route_claim ops (rq_worker_id req)
     \<lparr>lr_tenant_id = rq_tenant_id req, lr_device_id = rq_device_id req, lr_session_epoch = rq_session_epoch req,
      lr_fencing_token = rq_fencing_token req\<rparr> s"

definition director_set_draining ::
    "'s store_ops \<Rightarrow> real \<Rightarrow> string \<Rightarrow> bool \<Rightarrow> 's \<Rightarrow> (store_error, worker_snapshot, 's) op_result" where
  "director_set_draining ops now worker_id draining s = so_set_draining ops worker_id draining now s"

section \<open>HTTP handlers\<close>

record director_settings =
  ds_coordination_backend :: string
  ds_redis_url :: string
  ds_internal_token :: string
  ds_grant_signing_key :: string
  ds_device_bootstrap_token :: string
  ds_environment :: string
  ds_allow_shared_bootstrap_auth :: bool
  ds_device_credentials :: "(string, (string, string) dict) dict"

definition starts_with :: "string \<Rightarrow> string \<Rightarrow> bool" where
  "starts_with p s \<longleftrightarrow> take (length p) s = p"

text \<open>\<open>validate_runtime\<close>: the \<open>ValueError\<close> it raises, by its first word, or nothing.\<close>

definition validate_runtime :: "director_settings \<Rightarrow> string + unit" where
  "validate_runtime d =
    (if starts_with ''replace-with-'' (ds_internal_token d) then Inl ''VOICE_INTERNAL_TOKEN''
     else if starts_with ''replace-with-'' (ds_grant_signing_key d) then Inl ''VOICE_GRANT_SIGNING_KEY''
     else if length (ds_grant_signing_key d) < 16 then Inl ''VOICE_GRANT_SIGNING_KEY''
     else if ds_coordination_backend d = ''redis'' \<and> ds_redis_url d = [] then Inl ''VOICE_REDIS_URL''
     else if ds_allow_shared_bootstrap_auth d \<and> starts_with ''replace-with-'' (ds_device_bootstrap_token d)
       then Inl ''VOICE_DEVICE_BOOTSTRAP_TOKEN''
     else if ds_environment d = ''production'' \<and> ds_coordination_backend d \<noteq> ''redis'' then Inl ''production''
     else if ds_environment d = ''production'' \<and> ds_allow_shared_bootstrap_auth d then Inl ''production''
     else if ds_environment d = ''production'' \<and> ds_device_credentials d = [] then Inl ''production''
     else Inr ())"

text \<open>\<open>str.partition(" ")\<close> and the lower case of the scheme; \<open>None\<close> is the \<open>TypeError\<close> \<open>compare_digest\<close>
  raises on text that is not ASCII.\<close>

definition partition_space :: "string \<Rightarrow> string \<times> string" where
  "partition_space s = (takeWhile (\<lambda>c. c \<noteq> CHR '' '') s, drop 1 (dropWhile (\<lambda>c. c \<noteq> CHR '' '') s))"

definition lower_char :: "char \<Rightarrow> char" where
  "lower_char c = (let n = of_char c :: nat in if 65 \<le> n \<and> n \<le> 90 then char_of (n + 32) else c)"

definition compare_digest :: "string \<Rightarrow> string \<Rightarrow> bool option" where
  "compare_digest a b = (if is_ascii a \<and> is_ascii b then Some (a = b) else None)"

definition bearer_matches :: "string option \<Rightarrow> string \<Rightarrow> bool option" where
  "bearer_matches authorization expected = (case authorization of
      None \<Rightarrow> Some False
    | Some a \<Rightarrow>
        (let (scheme, supplied) = partition_space a
         in if map lower_char scheme \<noteq> ''bearer'' then Some False else compare_digest supplied expected))"

definition device_matches :: "string option \<Rightarrow> string \<Rightarrow> string \<Rightarrow> director_settings \<Rightarrow> bool option" where
  "device_matches authorization tenant_id device_id d =
    (let credential = (case dict_get (ds_device_credentials d) tenant_id of None \<Rightarrow> None
           | Some ds \<Rightarrow> dict_get ds device_id);
         own = (case credential of None \<Rightarrow> Some False | Some secret \<Rightarrow> bearer_matches authorization secret)
     in case own of
          None \<Rightarrow> None
        | Some True \<Rightarrow> Some True
        | Some False \<Rightarrow>
            if ds_allow_shared_bootstrap_auth d then bearer_matches authorization (ds_device_bootstrap_token d)
            else Some False)"

definition require_internal :: "string option \<Rightarrow> director_settings \<Rightarrow> bool option" where
  "require_internal value d = (case value of None \<Rightarrow> Some False | Some v \<Rightarrow> compare_digest v (ds_internal_token d))"

datatype 'a http = Http_Ok 'a | Http_Error nat string | Http_Uncaught

definition handle_bootstrap ::
    "'s store_ops \<Rightarrow> codec_env \<Rightarrow> grant_codec \<Rightarrow> director_config \<Rightarrow> director_settings \<Rightarrow> real \<Rightarrow> (nat \<Rightarrow> string) \<Rightarrow>
      string \<Rightarrow> string option \<Rightarrow> bootstrap_request \<Rightarrow> 's \<Rightarrow> bootstrap_response http \<times> 's" where
  "handle_bootstrap ops E codec cfg d now fresh jti authorization req s =
    (case device_matches authorization (br_tenant_id req) (br_device_id req) d of
      None \<Rightarrow> (Http_Uncaught, s)
    | Some False \<Rightarrow> (Http_Error 401 ''invalid_credentials'', s)
    | Some True \<Rightarrow>
        (case director_bootstrap ops E codec cfg now fresh jti req s of
          (Inr response, s1) \<Rightarrow> (Http_Ok response, s1)
        | (Inl NoCapacityError, s1) \<Rightarrow> (Http_Error 503 ''no_capacity'', s1)
        | (Inl (StoreError (LeaseConflictError _)), s1) \<Rightarrow> (Http_Error 409 ''route_already_leased'', s1)
        | (Inl _, s1) \<Rightarrow> (Http_Uncaught, s1)))"

definition handle_release ::
    "'s store_ops \<Rightarrow> director_settings \<Rightarrow> string option \<Rightarrow> route_release_request \<Rightarrow> 's \<Rightarrow> unit http \<times> 's" where
  "handle_release ops d authorization req s =
    (case device_matches authorization (rq_tenant_id req) (rq_device_id req) d of
      None \<Rightarrow> (Http_Uncaught, s)
    | Some False \<Rightarrow> (Http_Error 401 ''invalid_credentials'', s)
    | Some True \<Rightarrow> (Http_Ok (), snd (director_release ops req s)))"

definition handle_heartbeat ::
    "'s store_ops \<Rightarrow> director_config \<Rightarrow> director_settings \<Rightarrow> real \<Rightarrow> string option \<Rightarrow> worker_heartbeat \<Rightarrow> 's \<Rightarrow>
      heartbeat_response http \<times> 's" where
  "handle_heartbeat ops cfg d now token h s =
    (case require_internal token d of
      None \<Rightarrow> (Http_Uncaught, s)
    | Some False \<Rightarrow> (Http_Error 401 ''invalid_internal_credentials'', s)
    | Some True \<Rightarrow> (let (r, s1) = director_heartbeat ops cfg now h s in (Http_Ok r, s1)))"

definition handle_drain ::
    "'s store_ops \<Rightarrow> director_settings \<Rightarrow> real \<Rightarrow> string option \<Rightarrow> string \<Rightarrow> 's \<Rightarrow> worker_snapshot http \<times> 's" where
  "handle_drain ops d now token worker_id s =
    (case require_internal token d of
      None \<Rightarrow> (Http_Uncaught, s)
    | Some False \<Rightarrow> (Http_Error 401 ''invalid_internal_credentials'', s)
    | Some True \<Rightarrow> (case director_set_draining ops now worker_id True s of
        (Inr w, s1) \<Rightarrow> (Http_Ok w, s1)
      | (Inl (WorkerNotFoundError _), s1) \<Rightarrow> (Http_Error 404 ''worker_not_found'', s1)
      | (Inl _, s1) \<Rightarrow> (Http_Uncaught, s1)))"

definition handle_consume_grant ::
    "'s store_ops \<Rightarrow> codec_env \<Rightarrow> grant_codec \<Rightarrow> director_settings \<Rightarrow> real \<Rightarrow> string option \<Rightarrow> string \<Rightarrow> string \<Rightarrow>
      string \<Rightarrow> 's \<Rightarrow> (string \<times> int \<times> real) http \<times> 's" where
  "handle_consume_grant ops E codec d now token grant worker_id device_id s =
    (case require_internal token d of
      None \<Rightarrow> (Http_Uncaught, s)
    | Some False \<Rightarrow> (Http_Error 401 ''invalid_internal_credentials'', s)
    | Some True \<Rightarrow> (case director_consume_grant ops E codec now grant worker_id device_id s of
        (Inr c, s1) \<Rightarrow> (Http_Ok (cg_session_epoch c, cg_fencing_token c, cg_exp c), s1)
      | (Inl (GrantConsumeError reason), s1) \<Rightarrow> (Http_Error 409 reason, s1)
      | (Inl _, s1) \<Rightarrow> (Http_Uncaught, s1)))"


section \<open>What the service does with a store that keeps the contract\<close>

definition request_principal :: "bootstrap_request \<Rightarrow> principal" where
  "request_principal req = (br_tenant_id req, br_device_id req)"

context coordination_store
begin

lemma acquire_first_lease:
  assumes "inv s" "acquire_first ops req now e fresh i cs s = (Inr (Some (c, l)), s')"
  shows "inv s' \<and> c \<in> set cs \<and> leases s' (request_principal req) = Some l \<and>
    rl_worker_id l = wh_worker_id (fst c) \<and> rl_expires_at l = e \<and>
    fences s' (request_principal req) = fences s (request_principal req) + 1 \<and>
    rl_fencing_token l = fences s (request_principal req) + 1"
  using assms
proof (induction cs arbitrary: i s)
  case (Cons d ds)
  define a where "a = route_args req d (fresh i) now e"
  have p: "args_principal a = request_principal req" by (simp add: a_def route_args_def args_principal_def request_principal_def)
  obtain r s1 where r: "so_acquire_route ops a s = (r, s1)" by fastforce
  have inv1: "inv s1" using inv_acquire [OF Cons.prems(1), of a] r by simp
  show ?case
  proof (cases r)
    case (Inl err)
    have same: "fences s1 p = fences s p" for p using fences_acquire [OF Cons.prems(1), of a p] r Inl by auto
    obtain w where "err = WorkerCapacityError w"
      using Cons.prems(2) r Inl by (cases err) (simp_all flip: a_def)
    then have "acquire_first ops req now e fresh (Suc i) ds s1 = (Inr (Some (c, l)), s')"
      using Cons.prems(2) r Inl by (simp flip: a_def)
    then show ?thesis using Cons.IH [OF inv1] same by auto
  next
    case (Inr l1)
    then have eq: "c = d" "l = l1" "s' = s1" using Cons.prems(2) r by (simp_all flip: a_def)
    have g: "leases s1 (args_principal a) = Some l1" "fences s1 (args_principal a) = fences s (args_principal a) + 1"
      "rl_worker_id l1 = wh_worker_id (fst d)" "rl_expires_at l1 = e"
      using acquire_granted [OF Cons.prems(1), of a l1 s1] r Inr by (simp_all add: a_def route_args_def)
    then show ?thesis using eq inv1 p token_current [OF inv1 g(1)] by simp
  qed
qed simp

lemma bootstrap_lease:
  assumes "inv s" "director_bootstrap ops E codec cfg now fresh jti req s = (Inr resp, s')"
  shows "\<exists>c l cs. candidate_workers (fst (so_list_workers ops now s)) (br_supported_profiles req) (br_control_protocol req) = Inr cs \<and>
    c \<in> set cs \<and> inv s' \<and> leases s' (request_principal req) = Some l \<and>
    rl_worker_id l = wh_worker_id (fst c) \<and> rl_expires_at l = now + dc_lease_ttl_seconds cfg \<and>
    rl_session_epoch l = bs_session_epoch resp \<and> rl_fencing_token l = bs_fencing_token resp \<and>
    fences s' (request_principal req) = fences s (request_principal req) + 1 \<and>
    rl_fencing_token l = fences s (request_principal req) + 1 \<and>
    claims_valid (bootstrap_claims req c l now (now + dc_lease_ttl_seconds cfg) jti) \<and>
    bs_connect_grant resp = grant_issue E codec (bootstrap_claims req c l now (now + dc_lease_ttl_seconds cfg) jti) \<and>
    bs_worker_id resp = wh_worker_id (fst c) \<and> bs_allowed_profiles resp = snd (snd c) \<and>
    bs_worker_wss_url resp = fst (snd c) \<and> bs_expires_at resp = now + dc_lease_ttl_seconds cfg"
proof -
  obtain ws s1 where ws: "so_list_workers ops now s = (ws, s1)" by fastforce
  have inv1: "inv s1" and f1: "fences s1 = fences s"
    using inv_list [OF assms(1), of now] others_list [of now s] ws by simp_all
  obtain cs c l where cs: "candidate_workers ws (br_supported_profiles req) (br_control_protocol req) = Inr cs"
    and a: "acquire_first ops req now (now + dc_lease_ttl_seconds cfg) fresh 0 cs s1 = (Inr (Some (c, l)), s')"
    and v: "claims_valid (bootstrap_claims req c l now (now + dc_lease_ttl_seconds cfg) jti)"
    and resp: "resp = \<lparr>bs_worker_id = wh_worker_id (fst c), bs_worker_wss_url = fst (snd c),
       bs_connect_grant = grant_issue E codec (bootstrap_claims req c l now (now + dc_lease_ttl_seconds cfg) jti),
       bs_session_epoch = rl_session_epoch l, bs_fencing_token = rl_fencing_token l,
       bs_allowed_profiles = snd (snd c), bs_control_protocol = br_control_protocol req,
       bs_expires_at = now + dc_lease_ttl_seconds cfg\<rparr>"
    using assms(2) ws by (fastforce simp: director_bootstrap_def Let_def bind_op_Inr_iff split: option.splits if_splits)
  show ?thesis
    by (rule exI [of _ c], rule exI [of _ l], rule exI [of _ cs])
      (use acquire_first_lease [OF inv1 a] cs ws f1 v resp in simp)
qed

text \<open>A batch of renewals: a lease whose epoch is not reported back is extended and held by this worker.\<close>

lemma renew_leases_others:
  assumes "inv s" "p \<notin> renewal_principal ` set rs"
  shows "leases (snd (renew_leases ops w now e rs s)) p = leases s p"
  using assms
proof (induction rs arbitrary: s)
  case (Cons r rs)
  have "inv (snd (so_renew_route ops w r now e s))" by (rule inv_renew [OF Cons.prems(1)])
  then show ?case
    using Cons.IH Cons.prems renew_effect [OF Cons.prems(1), of w r now e] by (simp add: Let_def case_prod_beta)
qed simp

lemma renew_leases_result:
  assumes "inv s" "distinct (map renewal_principal rs)" "r \<in> set rs"
  shows "if (\<exists>l. leases s (renewal_principal r) = Some l \<and> now < rl_expires_at l \<and>
              lease_matches w (lr_session_epoch r) (lr_fencing_token r) l)
    then leases (snd (renew_leases ops w now e rs s)) (renewal_principal r) =
           map_option (\<lambda>l. l\<lparr>rl_expires_at := e\<rparr>) (leases s (renewal_principal r))
    else lr_session_epoch r \<in> set (fst (renew_leases ops w now e rs s))"
  using assms
proof (induction rs arbitrary: s)
  case (Cons q qs)
  let ?s = "snd (so_renew_route ops w q now e s)"
  have inv': "inv ?s" by (rule inv_renew [OF Cons.prems(1)])
  note eff = renew_effect [OF Cons.prems(1), of w q now e]
  show ?case
  proof (cases "r = q")
    case True
    have "leases (snd (renew_leases ops w now e qs ?s)) (renewal_principal r) = leases ?s (renewal_principal r)"
      using renew_leases_others [OF inv'] Cons.prems(2) True by simp
    then show ?thesis
      unfolding renew_iff [OF Cons.prems(1), of w r now e, symmetric]
      using True eff by (simp add: Let_def case_prod_beta)
  next
    case False
    then have r: "r \<in> set qs" using Cons.prems(3) by simp
    then have "renewal_principal r \<in> set (map renewal_principal qs)" by simp
    then have "renewal_principal r \<noteq> renewal_principal q" using Cons.prems(2) by (metis distinct.simps(2) list.simps(9))
    then have "leases ?s (renewal_principal r) = leases s (renewal_principal r)" using eff by simp
    then show ?thesis
      using Cons.IH [OF inv' _ r] Cons.prems(2) by (simp add: Let_def case_prod_beta split: if_splits)
  qed
qed simp

end

section \<open>Properties\<close>

lemma candidate_workers_mem:
  assumes "candidate_workers ws ps ctl = Inr cs" "c \<in> set cs"
  shows "\<exists>w \<in> set ws. candidate_of ps ctl w = Some c"
proof -
  have "c \<in> set (List.map_filter (candidate_of ps ctl) ws)"
    using assms by (simp add: candidate_workers_def Let_def split: if_splits) (metis set_sort)
  then show ?thesis by (force simp: map_filter_def)
qed

lemma candidate_ofD:
  "candidate_of ps ctl w = Some c \<Longrightarrow> fst c = w \<and> wh_healthy w \<and> \<not> wh_draining w \<and> wh_active_sessions w < wh_max_sessions w \<and>
     snd (snd c) \<noteq> [] \<and> set (snd (snd c)) \<subseteq> set ps"
  by (auto simp: candidate_of_def available_slots_def Let_def split: option.splits if_splits)

text \<open>The claims of the grant a bootstrap answers with.\<close>

definition signed_claims :: "real \<Rightarrow> string \<Rightarrow> bootstrap_request \<Rightarrow> bootstrap_response \<Rightarrow> connect_grant_claims" where
  "signed_claims now jti req resp = \<lparr>cg_iss = ''session_director'', cg_aud = ''realtime_worker'', cg_tenant_id = br_tenant_id req,
     cg_device_id = br_device_id req, cg_worker_id = bs_worker_id resp, cg_session_epoch = bs_session_epoch resp,
     cg_fencing_token = bs_fencing_token resp, cg_profiles = bs_allowed_profiles resp, cg_control_protocol = br_control_protocol req,
     cg_iat = now, cg_exp = bs_expires_at resp, cg_jti = ''jti-'' @ jti\<rparr>"

text \<open>A grant verifies, if at all, as the claims that were signed.\<close>

lemma grant_verify_issued:
  assumes "codec_ok E c" "grant_verify E codec now (grant_issue E codec c) w d = Inr c'"
  shows "c' = c"
proof -
  have parts: "split_dot (grant_issue E codec c) =
      [ce_b64encode E (ascii_bytes GRANT_HEADER), ce_b64encode E (ce_dump E c),
       ce_b64encode E (ce_mac E (gc_key codec) (ce_b64encode E (ascii_bytes GRANT_HEADER) @ ''.'' @ ce_b64encode E (ce_dump E c)))]"
    using assms(1) by (simp add: grant_issue_def codec_ok_def split_dot_append split_dot_whole Let_def)
  show ?thesis
    using assms header_value_eq unfolding grant_verify_def parts
    by (auto simp: codec_ok_def grant_decode_def Let_def split: if_splits)
qed

text \<open>
  C19. Bootstrap works end to end: when the Director answers a bootstrap request, the route of that device is leased to
  the worker it names, with a fencing token above every earlier one, the grant it hands out carries exactly that lease,
  and presenting the grant on behalf of that worker and device at any moment before the lease expires is accepted, unless its random
  identifier is that of a grant already used. After that, presenting it again is refused, by whomever and whatever calls reach the store in
  between, as long as the store's clock does not run backwards.
\<close>

theorem bootstrap_grant_usable:
  assumes s: "memory_inv s" and skew: "0 \<le> gc_clock_skew_seconds codec"
    and boot: "director_bootstrap memory_ops E codec cfg now fresh jti req s = (Inr resp, s')"
  shows "let claims = signed_claims now jti req resp in
    bs_connect_grant resp = grant_issue E codec claims \<and> memory_fence s (request_principal req) < bs_fencing_token resp \<and>
    (\<exists>l. memory_lease s' (request_principal req) = Some l \<and> rl_expires_at l = bs_expires_at resp \<and>
       lease_matches (bs_worker_id resp) (bs_session_epoch resp) (bs_fencing_token resp) l) \<and>
    (\<forall>later. codec_ok E claims \<and> now \<le> later \<and> later < bs_expires_at resp \<and>
        cg_jti claims \<notin> set (dict_keys (ms_consumed_jti s')) \<longrightarrow>
      (case director_consume_grant memory_ops E codec later (bs_connect_grant resp) (bs_worker_id resp) (br_device_id req) s' of
        (r, s1) \<Rightarrow> r = Inr claims \<and>
          (\<forall>calls again w d. list_all (consumes_by again) calls \<longrightarrow>
            \<not> isOk (fst (director_consume_grant memory_ops E codec again (bs_connect_grant resp) w d (snd (store_run memory_ops calls s1)))))))"
proof -
  obtain c l where l: "memory_lease s' (request_principal req) = Some l" "rl_worker_id l = wh_worker_id (fst c)"
    "rl_expires_at l = now + dc_lease_ttl_seconds cfg" "rl_session_epoch l = bs_session_epoch resp"
    "rl_fencing_token l = bs_fencing_token resp" "rl_fencing_token l = memory_fence s (request_principal req) + 1"
    "bs_connect_grant resp = grant_issue E codec (bootstrap_claims req c l now (now + dc_lease_ttl_seconds cfg) jti)"
    "bs_worker_id resp = wh_worker_id (fst c)" "bs_expires_at resp = now + dc_lease_ttl_seconds cfg" "memory_inv s'"
    "bs_allowed_profiles resp = snd (snd c)"
    using memory.bootstrap_lease [OF s boot] by auto
  define claims where "claims = signed_claims now jti req resp"
  have same: "claims = bootstrap_claims req c l now (now + dc_lease_ttl_seconds cfg) jti"
    using l by (simp add: claims_def signed_claims_def bootstrap_claims_def)
  have cl: "cg_worker_id claims = bs_worker_id resp" "cg_device_id claims = br_device_id req"
    "cg_tenant_id claims = br_tenant_id req" "cg_session_epoch claims = bs_session_epoch resp"
    "cg_fencing_token claims = bs_fencing_token resp" "cg_iat claims = now" "cg_exp claims = bs_expires_at resp"
    by (simp_all add: claims_def signed_claims_def)
  have key: "dict_get (ms_leases s') (encode_route_key (br_tenant_id req) (br_device_id req)) = Some l"
    using l(1) by (simp add: memory_lease_def request_principal_def)
  have prin: "rl_tenant_id l = br_tenant_id req" "rl_device_id l = br_device_id req"
    using memory_invD(4) [OF l(10) key] by (simp_all add: route_key_def encode_route_key_inj)
  define grant where "grant = bs_connect_grant resp"
  have issued: "grant = grant_issue E codec claims" using l(7) by (simp add: grant_def same)
  have ok: "case director_consume_grant memory_ops E codec later grant (bs_worker_id resp) (br_device_id req) s' of
      (r, s1) \<Rightarrow> r = Inr claims \<and> (\<forall>calls again w d. list_all (consumes_by again) calls \<longrightarrow>
        \<not> isOk (fst (director_consume_grant memory_ops E codec again grant w d (snd (store_run memory_ops calls s1)))))"
    if E: "codec_ok E claims" and t: "now \<le> later" "later < bs_expires_at resp"
      and j: "cg_jti claims \<notin> set (dict_keys (ms_consumed_jti s'))" for later
  proof -
    have v: "grant_verify E codec later grant (Some (bs_worker_id resp)) (Some (br_device_id req)) = Inr claims"
      using grant_verify_issue [OF E, of later codec] t skew cl issued by simp
    have "cg_jti claims \<notin> set (dict_keys (filter (\<lambda>(_, expiry). expiry > later) (ms_consumed_jti s')))"
      using j by auto
    then have first: "gr_consumed (fst (memory_consume_grant_result claims later s'))"
      using key cl l prin t by (simp add: memory_consume_grant_result_def Let_def)
    then have "director_consume_grant memory_ops E codec later grant (bs_worker_id resp) (br_device_id req) s' =
        (Inr claims, snd (memory_consume_grant_result claims later s'))"
      using v by (simp add: director_consume_grant_def memory_ops_def case_prod_beta Let_def)
    moreover have "\<not> isOk (fst (director_consume_grant memory_ops E codec again grant w d
        (snd (store_run memory_ops calls (snd (memory_consume_grant_result claims later s'))))))"
      if "list_all (consumes_by again) calls" for calls again w d
    proof (cases "grant_verify E codec again grant (Some w) (Some d)")
      case (Inl e)
      then show ?thesis by (cases e) (simp_all add: director_consume_grant_def)
    next
      case (Inr c)
      then have "c = claims" using grant_verify_issued [OF E] issued by blast
      then show ?thesis
        using grant_single_use [OF l(10) first that] Inr by (simp add: director_consume_grant_def memory_ops_def case_prod_beta Let_def)
    qed
    ultimately show ?thesis by simp
  qed
  have "memory_fence s (request_principal req) < bs_fencing_token resp"
    "lease_matches (bs_worker_id resp) (bs_session_epoch resp) (bs_fencing_token resp) l" "rl_expires_at l = bs_expires_at resp"
    using l by (simp_all add: lease_matches_def)
  then have "\<exists>l. memory_lease s' (request_principal req) = Some l \<and> rl_expires_at l = bs_expires_at resp \<and>
      lease_matches (bs_worker_id resp) (bs_session_epoch resp) (bs_fencing_token resp) l" "memory_fence s (request_principal req) < bs_fencing_token resp"
    using l(1) by auto
  then show ?thesis
    unfolding Let_def claims_def [symmetric] grant_def [symmetric]
    by (intro conjI allI impI issued) (assumption | elim conjE, rule ok)+
qed

text \<open>
  The Director never routes a device to an unfit worker: the worker of a bootstrap answer sent a heartbeat that has
  not expired, reports itself healthy, is not draining, has a free slot, and every profile granted was requested.
\<close>

theorem bootstrap_worker_fit:
  assumes s: "memory_inv s" and boot: "director_bootstrap memory_ops E codec cfg now fresh jti req s = (Inr resp, s')"
  shows "\<exists>w. w \<in> set (dict_values (ms_workers s)) \<and> wh_worker_id w = bs_worker_id resp \<and>
    now < ws_heartbeat_expires_at w \<and> wh_healthy w \<and> \<not> wh_draining w \<and> wh_active_sessions w < wh_max_sessions w \<and>
    bs_allowed_profiles resp \<noteq> [] \<and> set (bs_allowed_profiles resp) \<subseteq> set (br_supported_profiles req)"
proof -
  obtain c cs where c: "candidate_workers (fst (memory_list_workers now s)) (br_supported_profiles req) (br_control_protocol req) = Inr cs"
    "c \<in> set cs" "bs_worker_id resp = wh_worker_id (fst c)" "bs_allowed_profiles resp = snd (snd c)"
    using memory.bootstrap_lease [OF s boot] by (auto simp: memory_ops_def)
  then obtain w where w: "w \<in> set (fst (memory_list_workers now s))"
    "candidate_of (br_supported_profiles req) (br_control_protocol req) w = Some c"
    using candidate_workers_mem by blast
  have "w \<in> set (dict_values (ms_workers s)) \<and> now < ws_heartbeat_expires_at w"
    using w(1) by (auto simp: memory_list_workers_def Let_def)
  then show ?thesis using candidate_ofD [OF w(2)] c by auto
qed


text \<open>
  A heartbeat keeps the leases its worker really holds and reports the others. For every lease the heartbeat lists
  (one per principal, as the heartbeat model demands), either the store then holds that very lease, extended to the
  announced expiry, or its session epoch is among the rejected epochs of the answer.
\<close>

theorem heartbeat_renews_or_rejects:
  assumes s: "memory_inv s" and d: "distinct (map renewal_principal (wh_active_leases h))"
    and r: "r \<in> set (wh_active_leases h)"
  shows "(case director_heartbeat memory_ops cfg now h s of (response, s') \<Rightarrow>
    lr_session_epoch r \<in> set (hr_rejected_session_epochs response) \<or>
    (\<exists>l. memory_lease s' (renewal_principal r) = Some l \<and> rl_expires_at l = hr_lease_expires_at response \<and>
       lease_matches (wh_worker_id h) (lr_session_epoch r) (lr_fencing_token r) l))"
proof -
  define s1 where "s1 = snd (memory_heartbeat h (now + dc_heartbeat_ttl_seconds cfg) s)"
  define s2 where "s2 = snd (release_claims memory_ops (wh_worker_id h) (wh_released_leases h) s1)"
  have rel: "memory_inv s \<Longrightarrow> memory_inv (snd (release_claims memory_ops w rs s))" for w rs s
  proof (induction rs arbitrary: s)
    case (Cons q qs)
    then show ?case using memory.inv_release_claim [of s w q] by (simp add: Let_def case_prod_beta)
  qed simp
  have "memory_inv s2" using rel memory_simple_inv(1) [OF s] by (simp add: s2_def s1_def)
  note R = memory.renew_leases_result [OF this d r, of now "wh_worker_id h" "now + dc_lease_ttl_seconds cfg"]
  have eq: "director_heartbeat memory_ops cfg now h s =
    (\<lparr>hr_draining = wh_draining (fst (memory_heartbeat h (now + dc_heartbeat_ttl_seconds cfg) s)),
      hr_heartbeat_expires_at = ws_heartbeat_expires_at (fst (memory_heartbeat h (now + dc_heartbeat_ttl_seconds cfg) s)),
      hr_lease_expires_at = now + dc_lease_ttl_seconds cfg,
      hr_rejected_session_epochs = fst (renew_leases memory_ops (wh_worker_id h) now (now + dc_lease_ttl_seconds cfg) (wh_active_leases h) s2)\<rparr>,
     snd (renew_leases memory_ops (wh_worker_id h) now (now + dc_lease_ttl_seconds cfg) (wh_active_leases h) s2))"
    by (simp add: director_heartbeat_def Let_def case_prod_beta s1_def s2_def memory_ops_def)
  show ?thesis
    unfolding eq using R by (auto simp: lease_matches_def split: if_splits)
qed

text \<open>
  C20. A bootstrap request that lists a profile twice strands its own route: the request model admits the repetition,
  the lease is taken, and only then the claims refuse to validate, so the caller gets an error while the route stays
  leased (and further attempts conflict) until the lease expires.
\<close>

theorem duplicate_profiles_strand_route:
  assumes s: "memory_inv s"
    and cs: "candidate_workers (fst (memory_list_workers now s)) (br_supported_profiles req) (br_control_protocol req) = Inr cs"
    and a: "acquire_first memory_ops req now (now + dc_lease_ttl_seconds cfg) fresh 0 cs (snd (memory_list_workers now s)) =
      (Inr (Some (c, l)), s')"
    and dup: "\<not> distinct (snd (snd c))"
  shows "director_bootstrap memory_ops E codec cfg now fresh jti req s = (Inl ModelInvalid, s') \<and>
    memory_lease s' (request_principal req) = Some l"
proof -
  have "\<not> claims_valid (bootstrap_claims req c l now (now + dc_lease_ttl_seconds cfg) jti)"
    using dup by (simp add: claims_valid_def bootstrap_claims_def unique_profiles_def)
  moreover have "memory_inv (snd (memory_list_workers now s))" by (rule memory_simple_inv(2) [OF s])
  note lease = memory.acquire_first_lease [OF this a]
  ultimately show ?thesis
    using cs a lease by (simp add: director_bootstrap_def memory_ops_def Let_def case_prod_beta)
qed

section \<open>Witnesses\<close>

definition demo_heartbeat :: worker_heartbeat where
  "demo_heartbeat = \<lparr>wh_worker_id = ''w1'', wh_public_wss_url = ''wss://w1/rva/v1/voice'', wh_active_sessions = 0,
     wh_max_sessions = 5, wh_draining = False, wh_healthy = True, wh_profiles = [''wss-opus/1''], wh_bindings = [],
     wh_active_leases = [], wh_released_leases = []\<rparr>"

definition demo_snapshot :: worker_snapshot where
  "demo_snapshot = worker_heartbeat.extend demo_heartbeat \<lparr>ws_heartbeat_expires_at = 115\<rparr>"

definition demo_workers :: memory_store where
  "demo_workers = memory_init\<lparr>ms_workers := [(''w1'', demo_snapshot)]\<rparr>"

definition demo_config :: director_config where
  "demo_config = \<lparr>dc_heartbeat_ttl_seconds = 15, dc_lease_ttl_seconds = 30\<rparr>"

definition demo_request :: "string list \<Rightarrow> bootstrap_request" where
  "demo_request ps = \<lparr>br_tenant_id = ''lab'', br_device_id = ''dev'', br_supported_profiles = ps,
     br_control_protocol = ''rva/1''\<rparr>"

definition demo_candidate :: "string list \<Rightarrow> candidate" where
  "demo_candidate ps = (demo_snapshot, ''wss://w1/rva/v1/voice'', ps)"

definition demo_route :: route_lease where
  "demo_route = \<lparr>rl_tenant_id = ''lab'', rl_device_id = ''dev'', rl_worker_id = ''w1'', rl_session_epoch = ''epoch-a'',
     rl_fencing_token = 1, rl_expires_at = 130\<rparr>"

definition demo_routed :: memory_store where
  "demo_routed = demo_workers\<lparr>ms_fencing := [(encode_route_key ''lab'' ''dev'', 1)],
     ms_leases := [(encode_route_key ''lab'' ''dev'', demo_route)]\<rparr>"

lemma demo_workers_inv: "memory_inv demo_workers"
  by (simp add: memory_inv_def demo_workers_def memory_init_def)

lemma demo_listed: "memory_list_workers 100 demo_workers = ([demo_snapshot], demo_workers)"
  by (simp add: memory_list_workers_def demo_workers_def demo_snapshot_def memory_init_def worker_heartbeat.defs)

lemma demo_candidates:
  assumes "set ps = {''wss-opus/1''}" "ps \<noteq> []"
  shows "candidate_workers [demo_snapshot] ps ''rva/1'' = Inr [demo_candidate ps]"
proof -
  have "filter (\<lambda>p. p = ''wss-opus/1'') ps = ps" using assms by (auto simp: filter_id_conv)
  then show ?thesis
    using assms(2) by (simp add: candidate_workers_def map_filter_def candidate_of_def resolved_bindings_def
        demo_snapshot_def demo_heartbeat_def demo_candidate_def worker_heartbeat.defs available_slots_def)
qed

lemma demo_acquired:
  "acquire_first memory_ops (demo_request ps) 100 130 (\<lambda>i. ''a'') 0 [demo_candidate qs] demo_workers =
    (Inr (Some (demo_candidate qs, demo_route)), demo_routed)"
  by (simp add: memory_ops_def memory_acquire_route_def route_args_def demo_request_def demo_candidate_def
      demo_snapshot_def demo_heartbeat_def worker_heartbeat.defs demo_workers_def memory_init_def drop_expired_def
      demo_route_def demo_routed_def Let_def)

theorem duplicate_profiles_strand_route_witness:
  "fst (director_bootstrap memory_ops demo_env demo_codec demo_config 100 (\<lambda>i. ''a'') ''j''
     (demo_request [''wss-opus/1'', ''wss-opus/1'']) demo_workers) = Inl ModelInvalid \<and>
   memory_lease demo_routed (''lab'', ''dev'') = Some demo_route"
proof -
  let ?ps = "[''wss-opus/1'', ''wss-opus/1'']"
  have cs: "candidate_workers (fst (memory_list_workers 100 demo_workers)) (br_supported_profiles (demo_request ?ps))
      (br_control_protocol (demo_request ?ps)) = Inr [demo_candidate ?ps]"
    by (simp add: demo_listed demo_candidates demo_request_def)
  have a: "acquire_first memory_ops (demo_request ?ps) 100 (100 + dc_lease_ttl_seconds demo_config) (\<lambda>i. ''a'') 0
      [demo_candidate ?ps] (snd (memory_list_workers 100 demo_workers)) = (Inr (Some (demo_candidate ?ps, demo_route)), demo_routed)"
    using demo_acquired [of ?ps ?ps] by (simp add: demo_listed demo_config_def del: acquire_first.simps)
  show ?thesis
    using duplicate_profiles_strand_route [OF demo_workers_inv cs a, of demo_env demo_codec "''j''"]
    by (simp add: demo_candidate_def request_principal_def demo_request_def)
qed


definition demo_response :: "codec_env \<Rightarrow> bootstrap_response" where
  "demo_response E = \<lparr>bs_worker_id = ''w1'', bs_worker_wss_url = ''wss://w1/rva/v1/voice'',
     bs_connect_grant = grant_issue E demo_codec
       (bootstrap_claims (demo_request [''wss-opus/1'']) (demo_candidate [''wss-opus/1'']) demo_route 100 130 ''j''),
     bs_session_epoch = ''epoch-a'', bs_fencing_token = 1, bs_allowed_profiles = [''wss-opus/1''],
     bs_control_protocol = ''rva/1'', bs_expires_at = 130\<rparr>"

lemma demo_claims_valid:
  "claims_valid (bootstrap_claims (demo_request [''wss-opus/1'']) (demo_candidate [''wss-opus/1'']) demo_route 100 130 ''j'')"
  by (simp add: claims_valid_def bootstrap_claims_def demo_request_def demo_candidate_def demo_route_def demo_snapshot_def
      demo_heartbeat_def worker_heartbeat.defs contract_identifier_def alnum_char_def contract_char_def
      is_transport_profile_def unique_profiles_def validate_control_profiles_def CONTROL_TRANSPORT_PROFILES_def)

lemma demo_bootstrap:
  "director_bootstrap memory_ops E demo_codec demo_config 100 (\<lambda>i. ''a'') ''j''
     (demo_request [''wss-opus/1'']) demo_workers = (Inr (demo_response E), demo_routed)"
proof -
  have l: "so_list_workers memory_ops 100 demo_workers = ([demo_snapshot], demo_workers)"
    by (simp add: memory_ops_def demo_listed)
  have c: "candidate_workers [demo_snapshot] (br_supported_profiles (demo_request [''wss-opus/1'']))
      (br_control_protocol (demo_request [''wss-opus/1''])) = Inr [demo_candidate [''wss-opus/1'']]"
    by (simp add: demo_candidates demo_request_def)
  show ?thesis
    using demo_acquired [of "[''wss-opus/1'']" "[''wss-opus/1'']"] demo_claims_valid
    by (simp add: director_bootstrap_def l c Let_def demo_config_def del: acquire_first.simps)
      (simp add: demo_response_def demo_route_def demo_candidate_def demo_snapshot_def demo_heartbeat_def
        demo_request_def worker_heartbeat.defs)
qed

definition demo_signed :: connect_grant_claims where
  "demo_signed = \<lparr>cg_iss = ''session_director'', cg_aud = ''realtime_worker'', cg_tenant_id = ''lab'', cg_device_id = ''dev'', cg_worker_id = ''w1'',
     cg_session_epoch = ''epoch-a'', cg_fencing_token = 1, cg_profiles = [''wss-opus/1''], cg_control_protocol = ''rva/1'', cg_iat = 100, cg_exp = 130,
     cg_jti = ''jti-j''\<rparr>"

lemma demo_signed_eq:
  "bootstrap_claims (demo_request [''wss-opus/1'']) (demo_candidate [''wss-opus/1'']) demo_route 100 130 ''j'' = demo_signed"
  by (simp add: bootstrap_claims_def demo_request_def demo_candidate_def demo_route_def demo_snapshot_def demo_heartbeat_def worker_heartbeat.defs demo_signed_def)

lemma demo_signed_valid: "claims_valid demo_signed"
  using demo_claims_valid by (simp add: demo_signed_eq)

definition demo_grant_env :: codec_env where
  "demo_grant_env = demo_env\<lparr>ce_read := (\<lambda>b. if b = [1] then Some demo_signed else None)\<rparr>"

lemma demo_grant_ok: "codec_ok demo_grant_env demo_signed"
  using demo_codec_ok demo_signed_valid by (simp add: codec_ok_def demo_grant_env_def demo_env_def model_validate_json_def)

theorem bootstrap_grant_usable_witness:
  "case director_consume_grant memory_ops demo_grant_env demo_codec 110 (bs_connect_grant (demo_response demo_grant_env)) ''w1'' ''dev'' demo_routed of
     (r, s1) \<Rightarrow> r = Inr demo_signed \<and>
       \<not> isOk (fst (director_consume_grant memory_ops demo_grant_env demo_codec 111 (bs_connect_grant (demo_response demo_grant_env)) ''w1'' ''dev'' s1))"
proof -
  have "0 \<le> gc_clock_skew_seconds demo_codec" by (simp add: demo_codec_def)
  note u = bootstrap_grant_usable [OF demo_workers_inv this demo_bootstrap [of demo_grant_env], unfolded Let_def, THEN conjunct2, THEN conjunct2, THEN conjunct2]
  have c: "signed_claims 100 ''j'' (demo_request [''wss-opus/1'']) (demo_response demo_grant_env) = demo_signed"
    by (simp add: signed_claims_def demo_request_def demo_response_def demo_signed_def)
  have f: "bs_worker_id (demo_response E) = ''w1''" "bs_expires_at (demo_response E) = 130" "br_device_id (demo_request ps) = ''dev''"
    "ms_consumed_jti demo_routed = []" for E ps
    by (simp_all add: demo_response_def demo_request_def demo_routed_def demo_workers_def memory_init_def)
  obtain r s1 where r: "director_consume_grant memory_ops demo_grant_env demo_codec 110 (bs_connect_grant (demo_response demo_grant_env)) ''w1'' ''dev'' demo_routed = (r, s1)"
    by fastforce
  have "r = Inr demo_signed \<and> (\<forall>calls again w d. list_all (consumes_by again) calls \<longrightarrow> \<not> isOk (fst (director_consume_grant memory_ops demo_grant_env demo_codec again
      (bs_connect_grant (demo_response demo_grant_env)) w d (snd (store_run memory_ops calls s1)))))"
    using u [unfolded c f, rule_format, of 110] demo_grant_ok r by simp
  then show ?thesis unfolding r by (auto dest: spec [of _ "[]"])
qed

theorem bootstrap_worker_fit_witness:
  "\<exists>w. w \<in> set (dict_values (ms_workers demo_workers)) \<and> wh_worker_id w = ''w1'' \<and> 100 < ws_heartbeat_expires_at w \<and> wh_healthy w"
  using bootstrap_worker_fit [OF demo_workers_inv demo_bootstrap [of demo_env]] by (auto simp: demo_response_def)

definition demo_renewal :: lease_renewal where
  "demo_renewal = \<lparr>lr_tenant_id = ''lab'', lr_device_id = ''dev'', lr_session_epoch = ''epoch-a'', lr_fencing_token = 1\<rparr>"

lemma demo_routed_inv: "memory_inv demo_routed"
  using memory.bootstrap_lease [OF demo_workers_inv demo_bootstrap [of demo_env]] by auto

theorem heartbeat_renews_or_rejects_witness:
  "(case director_heartbeat memory_ops demo_config 110 (demo_heartbeat\<lparr>wh_active_leases := [demo_renewal]\<rparr>) demo_routed of
     (response, s') \<Rightarrow> ''epoch-a'' \<in> set (hr_rejected_session_epochs response) \<or>
       (\<exists>l. memory_lease s' (''lab'', ''dev'') = Some l \<and> rl_expires_at l = hr_lease_expires_at response))"
  using heartbeat_renews_or_rejects [OF demo_routed_inv, of "demo_heartbeat\<lparr>wh_active_leases := [demo_renewal]\<rparr>"
      demo_renewal demo_config 110]
  by (auto simp: demo_renewal_def renewal_principal_def)

end
