(* ===== verification/Worker_Admission.thy ===== *)
theory Worker_Admission
  imports Contracts
begin

text \<open>
  The front door of a worker: the process-wide bound on sessions, \<open>realtime_worker/admission.py\<close>, and the
  authentication of a connection by lab token or Director grant, \<open>realtime_worker/auth.py\<close>. The methods of the
  admission run under one lock without suspending; the \<open>uuid4\<close> a reservation draws is an argument.
\<close>

section \<open>Admission\<close>

record session_admission =
  ad_max_sessions :: int
  ad_reservations :: "(string, string \<times> string) dict"
  ad_principals :: "(string \<times> string) list"
  ad_draining :: bool

definition admission_init :: "int \<Rightarrow> session_admission" where
  "admission_init max_sessions =
    \<lparr>ad_max_sessions = max_sessions, ad_reservations = [], ad_principals = [], ad_draining = False\<rparr>"

definition admission_reserve ::
    "string \<Rightarrow> string \<times> string \<Rightarrow> session_admission \<Rightarrow> string option \<times> session_admission" where
  "admission_reserve token who a =
    (if ad_draining a \<or> int (length (ad_reservations a)) \<ge> ad_max_sessions a \<or> who \<in> set (ad_principals a)
     then (None, a)
     else (Some token, a\<lparr>ad_reservations := dict_set token who (ad_reservations a),
                         ad_principals := List.insert who (ad_principals a)\<rparr>))"

definition admission_release :: "string \<Rightarrow> session_admission \<Rightarrow> session_admission" where
  "admission_release token a = (case dict_get (ad_reservations a) token of
      None \<Rightarrow> a
    | Some who \<Rightarrow> a\<lparr>ad_reservations := dict_pop token (ad_reservations a),
                          ad_principals := removeAll who (ad_principals a)\<rparr>)"

definition admission_active_count :: "session_admission \<Rightarrow> int" where
  "admission_active_count a = int (length (ad_reservations a))"

definition admission_set_draining :: "bool \<Rightarrow> session_admission \<Rightarrow> session_admission" where
  "admission_set_draining v a = a\<lparr>ad_draining := v\<rparr>"

definition admission_inv :: "session_admission \<Rightarrow> bool" where
  "admission_inv a \<longleftrightarrow> dict_wf (ad_reservations a) \<and> distinct (dict_values (ad_reservations a)) \<and>
     set (ad_principals a) = set (dict_values (ad_reservations a)) \<and>
     int (length (ad_reservations a)) \<le> max 0 (ad_max_sessions a)"

datatype admission_op = Reserve string "string \<times> string" | Release string | Drain bool

fun admission_step :: "admission_op \<Rightarrow> session_admission \<Rightarrow> session_admission" where
  "admission_step (Reserve token p) a = snd (admission_reserve token p a)"
| "admission_step (Release token) a = admission_release token a"
| "admission_step (Drain v) a = admission_set_draining v a"

text \<open>A \<open>uuid4\<close> is not one of the tokens in use.\<close>

fun fresh_op :: "session_admission \<Rightarrow> admission_op \<Rightarrow> bool" where
  "fresh_op a (Reserve token p) = (token \<notin> set (dict_keys (ad_reservations a)))"
| "fresh_op a _ = True"

fun fresh_ops :: "admission_op list \<Rightarrow> session_admission \<Rightarrow> bool" where
  "fresh_ops [] a = True"
| "fresh_ops (x # xs) a = (fresh_op a x \<and> fresh_ops xs (admission_step x a))"

lemma admission_init_inv: "admission_inv (admission_init n)"
  by (simp add: admission_inv_def admission_init_def)

lemma admission_reserve_inv:
  assumes a: "admission_inv a" and f: "token \<notin> set (dict_keys (ad_reservations a))"
  shows "admission_inv (snd (admission_reserve token p a))"
proof -
  have "token \<notin> fst ` set (ad_reservations a)" using f by simp
  then show ?thesis using a by (auto simp: admission_inv_def admission_reserve_def dict_set_new [OF f] rev_image_eqI)
qed

lemma dict_pop_values:
  assumes "dict_wf d" "distinct (dict_values d)" "dict_get d k = Some v"
  shows "distinct (dict_values (dict_pop k d)) \<and> set (dict_values (dict_pop k d)) = set (dict_values d) - {v} \<and>
    length (dict_pop k d) < length d"
  using assms
proof (induction d)
  case (Cons x d)
  obtain k' v' where x: "x = (k', v')" by fastforce
  show ?case
  proof (cases "k' = k")
    case True
    then show ?thesis using Cons.prems x by (auto simp: dict_pop_notin)
  next
    case False
    have "v \<in> set (dict_values d)" using Cons.prems x False by (force dest: map_of_SomeD)
    then show ?thesis using Cons x False by auto
  qed
qed simp

lemma admission_release_inv: "admission_inv a \<Longrightarrow> admission_inv (admission_release token a)"
proof (cases "dict_get (ad_reservations a) token")
  case (Some who)
  assume "admission_inv a"
  then show ?thesis
    using dict_pop_values [of "ad_reservations a" token who] Some
    by (simp add: admission_inv_def admission_release_def)
qed (simp add: admission_release_def)

lemma admission_step_inv: "admission_inv a \<Longrightarrow> fresh_op a x \<Longrightarrow> admission_inv (admission_step x a)"
  by (cases x) (simp_all add: admission_reserve_inv admission_release_inv, simp add: admission_set_draining_def admission_inv_def)

lemma admission_max: "ad_max_sessions (admission_step x a) = ad_max_sessions a"
  by (cases x) (simp_all add: admission_reserve_def admission_release_def admission_set_draining_def split: option.splits)

lemma admission_run_inv:
  "admission_inv a \<Longrightarrow> fresh_ops xs a \<Longrightarrow>
    admission_inv (fold admission_step xs a) \<and> ad_max_sessions (fold admission_step xs a) = ad_max_sessions a"
  by (induction xs arbitrary: a) (simp_all add: admission_step_inv admission_max)

text \<open>
  The session bound of a worker is hard: whatever sequence of reservations, releases and drain switches it sees,
  the number of reservations never exceeds the limit, no principal holds two reservations at once, and the set of
  principals is exactly that of the open reservations, so a released principal can always return.
\<close>

theorem admission_bounded:
  assumes "fresh_ops ops (admission_init n)"
  shows "(let a = fold admission_step ops (admission_init n) in
    admission_active_count a \<le> max 0 n \<and> distinct (dict_values (ad_reservations a)) \<and>
    set (ad_principals a) = set (dict_values (ad_reservations a)))"
proof -
  have "ad_max_sessions (admission_init n) = n" by (simp add: admission_init_def)
  then show ?thesis
    using admission_run_inv [OF admission_init_inv assms]
    unfolding Let_def admission_inv_def admission_active_count_def by metis
qed

theorem admission_bounded_witness:
  "(let a = fold admission_step [Reserve ''t1'' (''lab'', ''d1''), Reserve ''t2'' (''lab'', ''d1''), Release ''t1''] (admission_init 2)
    in admission_active_count a \<le> 2 \<and> set (ad_principals a) = set (dict_values (ad_reservations a)))"
  using admission_bounded [of "[Reserve ''t1'' (''lab'', ''d1''), Reserve ''t2'' (''lab'', ''d1''), Release ''t1'']" 2]
  by (simp add: Let_def admission_reserve_def admission_init_def admission_release_def)

section \<open>Authentication\<close>

record auth_context =
  ac_tenant_id :: string
  ac_device_id :: string
  ac_allowed_profiles :: "string list"
  ac_session_epoch :: "string option"
  ac_fencing_token :: "int option"
  ac_expires_at :: "real option"
  ac_control_protocol :: string

text \<open>\<open>VerifiedAuth\<close> with the grant it rests on, the \<open>None\<close> of a rejection, or an exception that leaves \<open>verify\<close>.\<close>

datatype auth_result = VerifiedAuth auth_context "string option" | AuthRejected | AuthRaises

record worker_authenticator =
  wa_worker_id :: string
  wa_rva_udp_enabled :: bool
  wa_lab_token :: "string option"
  wa_codec :: grant_codec

definition bearer_scheme :: "string \<Rightarrow> string" where
  "bearer_scheme s = map (\<lambda>c. let n = of_char c :: nat in if 65 \<le> n \<and> n \<le> 90 then char_of (n + 32) else c)
     (takeWhile (\<lambda>c. c \<noteq> CHR '' '') s)"

definition bearer_value :: "string \<Rightarrow> string" where
  "bearer_value s = drop 1 (dropWhile (\<lambda>c. c \<noteq> CHR '' '') s)"

definition auth_verify ::
    "codec_env \<Rightarrow> worker_authenticator \<Rightarrow> real \<Rightarrow> string option \<Rightarrow> string option \<Rightarrow> string \<Rightarrow> auth_result" where
  "auth_verify E w now authorization device_id control_protocol =
    (case (authorization, device_id) of
      (Some a, Some device) \<Rightarrow>
        if bearer_scheme a \<noteq> ''bearer'' then AuthRejected
        else
          let supplied = bearer_value a
          in if wa_lab_token w \<noteq> None \<and> \<not> (is_ascii supplied \<and> is_ascii (the (wa_lab_token w))) then AuthRaises
             else if wa_lab_token w = Some supplied then
               VerifiedAuth \<lparr>ac_tenant_id = ''lab'', ac_device_id = device,
                 ac_allowed_profiles = (if wa_rva_udp_enabled w then [''wss-opus/1'', ''udp-opus-gcm/1''] else [''wss-opus/1'']),
                 ac_session_epoch = None, ac_fencing_token = None, ac_expires_at = None,
                 ac_control_protocol = control_protocol\<rparr> None
             else (case grant_verify E (wa_codec w) now supplied (Some (wa_worker_id w)) (Some device) of
                 Inl (GrantError _) \<Rightarrow> AuthRejected
               | Inl GrantRaises \<Rightarrow> AuthRaises
               | Inr claims \<Rightarrow>
                   if cg_control_protocol claims \<noteq> control_protocol then AuthRejected
                   else VerifiedAuth \<lparr>ac_tenant_id = cg_tenant_id claims, ac_device_id = cg_device_id claims,
                     ac_allowed_profiles = cg_profiles claims, ac_session_epoch = Some (cg_session_epoch claims),
                     ac_fencing_token = Some (cg_fencing_token claims), ac_expires_at = Some (cg_exp claims),
                     ac_control_protocol = cg_control_protocol claims\<rparr> (Some supplied))
    | _ \<Rightarrow> AuthRejected)"

definition valid_device_text :: "string \<Rightarrow> bool" where
  "valid_device_text v \<longleftrightarrow> 1 \<le> length v \<and> length v \<le> 96 \<and> is_ascii v \<and> alnum_char (v ! 0) \<and>
     list_all (\<lambda>c. alnum_char c \<or> c \<in> set ''_.:-'') v"

definition resolve_device_id :: "string option \<Rightarrow> string option \<Rightarrow> string option" where
  "resolve_device_id device_id client_id =
    (if (case device_id of None \<Rightarrow> True | Some d \<Rightarrow> \<not> valid_device_text d) \<or>
        (case client_id of None \<Rightarrow> False | Some c \<Rightarrow> \<not> valid_device_text c)
     then None else device_id)"

lemma contract_char_ascii: "contract_char c \<Longrightarrow> (of_char c :: nat) < 128"
  by (auto simp: contract_char_def alnum_char_def Let_def)

lemma valid_device_text_iff: "valid_device_text v \<longleftrightarrow> contract_identifier v"
proof (cases v)
  case (Cons c s)
  have "is_ascii v" if "list_all contract_char v" using that contract_char_ascii by (auto simp: is_ascii_def list_all_iff)
  moreover have "(\<lambda>c. alnum_char c \<or> c \<in> set ''_.:-'') = contract_char" by (auto simp: contract_char_def fun_eq_iff)
  ultimately show ?thesis
    using Cons by (auto simp: valid_device_text_def contract_identifier_def contract_char_def)
qed (simp add: valid_device_text_def contract_identifier_def)

text \<open>
  The hand-written device id check of the worker agrees with the declared identifier pattern of the contracts:
  a connection gets a device principal exactly when the \<open>Device-Id\<close> header is a contract identifier and the optional
  \<open>Client-Id\<close> is one too, and then the principal is the device id itself.
\<close>

theorem resolve_device_id_spec:
  "resolve_device_id device_id client_id = Some d \<longleftrightarrow>
    device_id = Some d \<and> contract_identifier d \<and> (client_id = None \<or> contract_identifier (the client_id))"
  by (auto simp: resolve_device_id_def valid_device_text_iff split: option.splits)

text \<open>
  C21. Without the lab token nobody enters without a signed grant: an accepted connection presented a bearer token
  whose signature part decodes to the HMAC of its first two parts under the worker's key, unexpired, issued for this
  worker and for the device that connects, and the session's profiles, epoch and fencing token are the signed ones.
\<close>

theorem auth_requires_signed_grant:
  assumes v: "auth_verify E w now authorization (Some device) control_protocol = VerifiedAuth ctx grant"
    and lab: "wa_lab_token w = None"
  shows "\<exists>header payload signature pb claims. grant = Some (header @ ''.'' @ payload @ ''.'' @ signature) \<and>
    ce_b64decode E signature = Some (ce_mac E (gc_key (wa_codec w)) (header @ ''.'' @ payload)) \<and>
    ce_b64decode E payload = Some pb \<and> model_validate_json E pb = Some claims \<and> now < cg_exp claims \<and>
    cg_worker_id claims = wa_worker_id w \<and> cg_device_id claims = device \<and> ac_device_id ctx = device \<and>
    ac_allowed_profiles ctx = cg_profiles claims \<and> ac_session_epoch ctx = Some (cg_session_epoch claims) \<and>
    ac_fencing_token ctx = Some (cg_fencing_token claims)"
proof -
  obtain a claims where g: "grant = Some (bearer_value a)"
    "grant_verify E (wa_codec w) now (bearer_value a) (Some (wa_worker_id w)) (Some device) = Inr claims"
    "ac_device_id ctx = cg_device_id claims" "ac_allowed_profiles ctx = cg_profiles claims"
    "ac_session_epoch ctx = Some (cg_session_epoch claims)" "ac_fencing_token ctx = Some (cg_fencing_token claims)"
    using v lab by (auto simp: auth_verify_def Let_def split: option.splits if_splits sum.splits grant_error.splits)
  show ?thesis using grant_verify_sound [OF g(2)] g by metis
qed

definition demo_authenticator :: worker_authenticator where
  "demo_authenticator = \<lparr>wa_worker_id = ''w1'', wa_rva_udp_enabled = False, wa_lab_token = None, wa_codec = demo_codec\<rparr>"

lemma demo_auth:
  "\<exists>ctx. auth_verify demo_env demo_authenticator 110 (Some (''bearer '' @ grant_issue demo_env demo_codec demo_claims))
     (Some ''dev'') ''rva/1'' = VerifiedAuth ctx (Some (grant_issue demo_env demo_codec demo_claims))"
proof -
  have "grant_verify demo_env demo_codec 110 (grant_issue demo_env demo_codec demo_claims) (Some ''w1'') (Some ''dev'') =
      Inr demo_claims"
    using grant_verify_issue [OF demo_codec_ok, of 110 demo_codec] by (simp add: demo_claims_def demo_codec_def)
  then show ?thesis
    by (simp add: auth_verify_def bearer_scheme_def bearer_value_def demo_authenticator_def Let_def)
      (simp add: demo_claims_def)
qed

theorem auth_requires_signed_grant_witness:
  "\<exists>header payload signature. grant_issue demo_env demo_codec demo_claims = header @ ''.'' @ payload @ ''.'' @ signature \<and>
     ce_b64decode demo_env signature = Some (ce_mac demo_env (gc_key demo_codec) (header @ ''.'' @ payload))"
proof -
  obtain ctx where v: "auth_verify demo_env demo_authenticator 110
      (Some (''bearer '' @ grant_issue demo_env demo_codec demo_claims)) (Some ''dev'') ''rva/1'' =
      VerifiedAuth ctx (Some (grant_issue demo_env demo_codec demo_claims))"
    using demo_auth by blast
  show ?thesis using auth_requires_signed_grant [OF v] by (auto simp: demo_authenticator_def)
qed

end
