(* ===== verification/Worker_Registry.thy ===== *)
theory Worker_Registry
  imports Worker_Admission Director_Service
begin

text \<open>
  The sessions a worker owns, \<open>realtime_worker/app.py\<close>: \<open>RvaSessionRegistry\<close> with its lease deadlines, pending
  releases and retirements, the WebSocket handler that takes a connection from its credentials to its end, and
  the heartbeats that renew and release leases at the Director.

  No section under the registry's lock suspends, so the lock is always free when it is asked for and each section is one atomic step;
  \<open>reserve\<close> and what follows the answer to a heartbeat are then atomic as well. A connection object is a number. The connection itself is
  the subject of the runtime theories; here it is created, retired and ends.
\<close>

section \<open>State\<close>

type_synonym claim_key = "string \<times> string \<times> string \<times> int"

record session_registry =
  rg_admission :: session_admission
  rg_connections :: "(principal, nat \<times> auth_context) dict"
  rg_lease_deadlines :: "(claim_key, real) dict"
  rg_pending_releases :: "lease_renewal list"
  rg_closing :: bool
  rg_closed :: bool
  rg_close_task :: bool
  rg_expiry_task :: bool
  rg_retirement_tasks :: "(nat, int \<times> string) dict"

definition registry_init :: "session_admission \<Rightarrow> session_registry" where
  "registry_init admission = \<lparr>rg_admission = admission, rg_connections = [], rg_lease_deadlines = [], rg_pending_releases = [],
     rg_closing = False, rg_closed = False, rg_close_task = False, rg_expiry_task = False, rg_retirement_tasks = []\<rparr>"

section \<open>Claims\<close>

definition lease_claim :: "auth_context \<Rightarrow> lease_renewal option" where
  "lease_claim auth = (case (ac_session_epoch auth, ac_fencing_token auth) of
      (Some epoch, Some token) \<Rightarrow> Some \<lparr>lr_tenant_id = ac_tenant_id auth, lr_device_id = ac_device_id auth,
        lr_session_epoch = epoch, lr_fencing_token = token\<rparr>
    | _ \<Rightarrow> None)"

definition lease_claim_key :: "lease_renewal \<Rightarrow> claim_key" where
  "lease_claim_key c = (lr_tenant_id c, lr_device_id c, lr_session_epoch c, lr_fencing_token c)"

definition queue_lease_release :: "auth_context \<Rightarrow> session_registry \<Rightarrow> session_registry" where
  "queue_lease_release auth r = (case lease_claim auth of
      None \<Rightarrow> r
    | Some release \<Rightarrow>
        if release \<in> set (rg_pending_releases r) then r
        else r\<lparr>rg_pending_releases := rg_pending_releases r @ [release]\<rparr>)"

definition auth_principal :: "auth_context \<Rightarrow> principal" where
  "auth_principal auth = (ac_tenant_id auth, ac_device_id auth)"

section \<open>Reservations\<close>

definition registry_admission :: "(session_admission \<Rightarrow> session_admission) \<Rightarrow> session_registry \<Rightarrow> session_registry" where
  "registry_admission f r = r\<lparr>rg_admission := f (rg_admission r)\<rparr>"

definition registry_reserve :: "string \<Rightarrow> auth_context \<Rightarrow> session_registry \<Rightarrow> string option \<times> session_registry" where
  "registry_reserve fresh auth r =
    (if rg_closing r \<or> rg_closed r then (None, r)
     else case admission_reserve fresh (auth_principal auth) (rg_admission r) of
        (None, a) \<Rightarrow> (None, r\<lparr>rg_admission := a\<rparr>)
      | (Some token, a) \<Rightarrow>
          let r1 = r\<lparr>rg_admission := a\<rparr>
          in if \<not> rg_closing r1 \<and> \<not> rg_closed r1 then (Some token, r1)
             else (None, registry_admission (admission_release token) r1))"

definition release_reservation :: "string \<Rightarrow> session_registry \<Rightarrow> session_registry" where
  "release_reservation token r = registry_admission (admission_release token) r"

definition abort_startup :: "auth_context \<Rightarrow> string \<Rightarrow> session_registry \<Rightarrow> session_registry" where
  "abort_startup auth token r = release_reservation token (queue_lease_release auth r)"

section \<open>Lease expiry\<close>

definition start_expiry_enforcement :: "session_registry \<Rightarrow> session_registry" where
  "start_expiry_enforcement r = (if rg_closing r \<or> rg_closed r then r else r\<lparr>rg_expiry_task := True\<rparr>)"

definition detach_expiry_task_if_idle :: "session_registry \<Rightarrow> bool \<times> session_registry" where
  "detach_expiry_task_if_idle r =
    (if rg_lease_deadlines r \<noteq> [] then (False, r) else (rg_expiry_task r, r\<lparr>rg_expiry_task := False\<rparr>))"

text \<open>The loop of \<open>_remove_claims_locked\<close> over the connections as they were when it started.\<close>

fun remove_connections ::
    "claim_key set \<Rightarrow> (principal \<times> nat \<times> auth_context) list \<Rightarrow> session_registry \<Rightarrow> nat list \<times> session_registry" where
  "remove_connections claims [] r = ([], r)"
| "remove_connections claims ((p, conn, auth) # cs) r =
    (case lease_claim auth of
      None \<Rightarrow> remove_connections claims cs r
    | Some c \<Rightarrow>
        if lease_claim_key c \<notin> claims then remove_connections claims cs r
        else
          let r1 = (case dict_get (rg_connections r) p of
                Some (current, _) \<Rightarrow> if current = conn then r\<lparr>rg_connections := dict_pop p (rg_connections r)\<rparr> else r
              | None \<Rightarrow> r);
              (rest, r2) = remove_connections claims cs (queue_lease_release auth r1)
          in (conn # rest, r2))"

definition remove_claims :: "claim_key list \<Rightarrow> session_registry \<Rightarrow> nat list \<times> session_registry" where
  "remove_claims claims r =
    (let r1 = r\<lparr>rg_lease_deadlines := filter (\<lambda>(k, _). k \<notin> set claims) (rg_lease_deadlines r)\<rparr>
     in remove_connections (set claims) (rg_connections r1) r1)"

fun schedule_retirements :: "nat list \<Rightarrow> int \<Rightarrow> string \<Rightarrow> session_registry \<Rightarrow> session_registry" where
  "schedule_retirements [] code reason r = r"
| "schedule_retirements (conn # cs) code reason r = schedule_retirements cs code reason
    (case dict_get (rg_retirement_tasks r) conn of
       Some _ \<Rightarrow> r
     | None \<Rightarrow> r\<lparr>rg_retirement_tasks := dict_set conn (code, reason) (rg_retirement_tasks r)\<rparr>)"

definition retirement_done :: "nat \<Rightarrow> session_registry \<Rightarrow> session_registry" where
  "retirement_done conn r = r\<lparr>rg_retirement_tasks := dict_pop conn (rg_retirement_tasks r)\<rparr>"

definition revoke_claims :: "claim_key list \<Rightarrow> session_registry \<Rightarrow> session_registry" where
  "revoke_claims claims r =
    (let (connections, r1) = remove_claims claims r
     in schedule_retirements connections 1008 ''stale_route_lease'' r1)"

definition revoke_lease_claims :: "lease_renewal list \<Rightarrow> session_registry \<Rightarrow> session_registry" where
  "revoke_lease_claims claims r = (if claims = [] then r else revoke_claims (map lease_claim_key claims) r)"

definition revoke_expired_leases :: "real \<Rightarrow> session_registry \<Rightarrow> session_registry" where
  "revoke_expired_leases now r =
    revoke_claims (map fst (filter (\<lambda>(_, deadline). deadline \<le> now) (rg_lease_deadlines r))) r"

text \<open>
  One round of \<open>_enforce_lease_expiry\<close>: wait for a change (\<open>None\<close>), wait for the nearest deadline, or revoke at once
  (no wait). A wait that times out is followed by \<open>revoke_expired_leases\<close>.
\<close>

definition enforce_round :: "real \<Rightarrow> session_registry \<Rightarrow> real option \<times> session_registry" where
  "enforce_round now r = (case dict_values (rg_lease_deadlines r) of
      [] \<Rightarrow> (None, r)
    | d # ds \<Rightarrow>
        let remaining = fold min ds d - now
        in if remaining \<le> 0 then (Some 0, revoke_expired_leases now r) else (Some remaining, r))"

section \<open>Renewals and releases\<close>

text \<open>The loop of \<open>extend_lease_deadlines\<close> over the set of accepted claims.\<close>

definition extend_lease_deadlines :: "real \<Rightarrow> real \<Rightarrow> lease_renewal list \<Rightarrow> session_registry \<Rightarrow> session_registry" where
  "extend_lease_deadlines now expires_at accepted r =
    r\<lparr>rg_lease_deadlines := map (\<lambda>(k, deadline).
        if k \<in> lease_claim_key ` set accepted \<and> deadline > now then (k, expires_at) else (k, deadline)) (rg_lease_deadlines r)\<rparr>"

definition lease_renewal_deadline :: "lease_renewal list \<Rightarrow> session_registry \<Rightarrow> real option" where
  "lease_renewal_deadline renewals r =
    (case map snd (filter (\<lambda>(k, _). k \<in> lease_claim_key ` set renewals) (rg_lease_deadlines r)) of
      [] \<Rightarrow> None | d # ds \<Rightarrow> Some (fold min ds d))"

definition active_lease_renewals :: "session_registry \<Rightarrow> lease_renewal list" where
  "active_lease_renewals r = List.map_filter (\<lambda>(_, _, auth). lease_claim auth) (rg_connections r)"

definition acknowledge_lease_releases :: "lease_renewal list \<Rightarrow> session_registry \<Rightarrow> session_registry" where
  "acknowledge_lease_releases releases r =
    r\<lparr>rg_pending_releases := filter (\<lambda>c. lease_claim_key c \<notin> lease_claim_key ` set releases) (rg_pending_releases r)\<rparr>"

definition snapshot_active_lease_releases :: "session_registry \<Rightarrow> session_registry" where
  "snapshot_active_lease_releases r = fold (\<lambda>(_, _, auth). queue_lease_release auth) (rg_connections r) r"

text \<open>\<open>CombinedLeaseRegistry\<close> over the one registry of the process bounds what one heartbeat releases.\<close>

definition pending_lease_releases :: "session_registry \<Rightarrow> lease_renewal list" where
  "pending_lease_releases r = take 64 (rg_pending_releases r)"

definition revoke_session_epochs :: "string list \<Rightarrow> session_registry \<Rightarrow> session_registry" where
  "revoke_session_epochs epochs r = revoke_lease_claims
     (filter (\<lambda>c. lr_session_epoch c \<in> set epochs) (active_lease_renewals r)) r"

section \<open>Connections\<close>

text \<open>
  \<open>run\<close> up to the first \<open>await\<close> of the connection: the number of the new connection, or \<open>None\<close> when the registry is
  shutting down and the socket is closed at once.
\<close>

definition run_start :: "nat \<Rightarrow> auth_context \<Rightarrow> string \<Rightarrow> session_registry \<Rightarrow> nat option \<times> session_registry" where
  "run_start conn auth token r =
    (if rg_closing r \<or> rg_closed r then (None, release_reservation token (queue_lease_release auth r))
     else
       let r1 = r\<lparr>rg_connections := dict_set (auth_principal auth) (conn, auth) (rg_connections r)\<rparr>
       in (Some conn, case (lease_claim auth, ac_expires_at auth) of
            (Some c, Some e) \<Rightarrow>
              start_expiry_enforcement (r1\<lparr>rg_lease_deadlines := dict_set (lease_claim_key c) e (rg_lease_deadlines r1)\<rparr>)
          | _ \<Rightarrow> r1))"

text \<open>The locked section after \<open>wait_closed\<close>; the result tells whether the expiry task is to be awaited.\<close>

definition run_cleanup :: "nat \<Rightarrow> auth_context \<Rightarrow> session_registry \<Rightarrow> bool \<times> session_registry" where
  "run_cleanup conn auth r =
    (let r1 = (case dict_get (rg_connections r) (auth_principal auth) of
           Some (current, _) \<Rightarrow>
             if current = conn then r\<lparr>rg_connections := dict_pop (auth_principal auth) (rg_connections r)\<rparr> else r
         | None \<Rightarrow> r);
         r2 = (case lease_claim auth of
           Some c \<Rightarrow> r1\<lparr>rg_lease_deadlines := dict_pop (lease_claim_key c) (rg_lease_deadlines r1)\<rparr>
         | None \<Rightarrow> r1)
     in detach_expiry_task_if_idle (queue_lease_release auth r2))"

text \<open>
  The stages of the handler \<open>rva_voice\<close>, named by the \<open>await\<close> where it is suspended: the Director's answer to the grant, the
  acceptance of the WebSocket, the connection, the expiry task it stopped. \<open>VClosed\<close> is the close frame it sent, \<open>VRaised\<close>
  an exception that leaves it.
\<close>

datatype voice_stage =
    VConsuming string string
  | VAccepting string
  | VRunning string nat
  | VReaping string
  | VClosed int string
  | VRaised
  | VFinished

record voice_handler =
  vh_auth :: auth_context
  vh_stage :: voice_stage

definition rejected_handler :: "int \<Rightarrow> string \<Rightarrow> voice_handler" where
  "rejected_handler code reason = \<lparr>vh_auth = \<lparr>ac_tenant_id = [], ac_device_id = [], ac_allowed_profiles = [], ac_session_epoch = None,
     ac_fencing_token = None, ac_expires_at = None, ac_control_protocol = []\<rparr>, vh_stage = VClosed code reason\<rparr>"

text \<open>The handler up to its first \<open>await\<close>. Without a grant (the lab token) there is nothing to consume.\<close>

definition voice_begin :: "bool \<Rightarrow> auth_result \<Rightarrow> string \<Rightarrow> session_registry \<Rightarrow> voice_handler \<times> session_registry" where
  "voice_begin rva_udp_enabled verified fresh r = (case verified of
      AuthRejected \<Rightarrow> (rejected_handler 1008 ''invalid_credentials'', r)
    | AuthRaises \<Rightarrow> ((rejected_handler 0 [])\<lparr>vh_stage := VRaised\<rparr>, r)
    | VerifiedAuth auth grant \<Rightarrow>
        let enabled_profiles = (if rva_udp_enabled then [''wss-opus/1'', ''udp-opus-gcm/1''] else [''wss-opus/1''])
        in if set enabled_profiles \<inter> set (ac_allowed_profiles auth) = {}
             then (\<lparr>vh_auth = auth, vh_stage = VClosed 1008 ''invalid_credentials''\<rparr>, r)
           else (case registry_reserve fresh auth r of
               (None, r1) \<Rightarrow> (\<lparr>vh_auth = auth, vh_stage = VClosed 1013 ''session_overloaded''\<rparr>, r1)
             | (Some token, r1) \<Rightarrow>
                 (\<lparr>vh_auth = auth, vh_stage = (case grant of None \<Rightarrow> VAccepting token | Some g \<Rightarrow> VConsuming token g)\<rparr>, r1)))"

text \<open>
  The answer of \<open>DirectorGrantConsumer.consume\<close>: whether the Director answered 200, or an exception (\<open>None\<close>).
\<close>

definition voice_consumed :: "bool option \<Rightarrow> voice_handler \<Rightarrow> session_registry \<Rightarrow> voice_handler \<times> session_registry" where
  "voice_consumed answer h r = (case vh_stage h of
      VConsuming token _ \<Rightarrow> (case answer of
          None \<Rightarrow> (h\<lparr>vh_stage := VRaised\<rparr>, abort_startup (vh_auth h) token r)
        | Some False \<Rightarrow> (h\<lparr>vh_stage := VClosed 1008 ''grant_rejected''\<rparr>, release_reservation token r)
        | Some True \<Rightarrow> (h\<lparr>vh_stage := VAccepting token\<rparr>, r))
    | _ \<Rightarrow> (h, r))"

definition voice_accepted :: "bool \<Rightarrow> nat \<Rightarrow> voice_handler \<Rightarrow> session_registry \<Rightarrow> voice_handler \<times> session_registry" where
  "voice_accepted ok conn h r = (case vh_stage h of
      VAccepting token \<Rightarrow>
        if \<not> ok then (h\<lparr>vh_stage := VRaised\<rparr>, abort_startup (vh_auth h) token r)
        else (case run_start conn (vh_auth h) token r of
            (None, r1) \<Rightarrow> (h\<lparr>vh_stage := VClosed 1001 ''server_shutdown''\<rparr>, r1)
          | (Some n, r1) \<Rightarrow> (h\<lparr>vh_stage := VRunning token n\<rparr>, r1))
    | _ \<Rightarrow> (h, r))"

definition voice_ended :: "voice_handler \<Rightarrow> session_registry \<Rightarrow> voice_handler \<times> session_registry" where
  "voice_ended h r = (case vh_stage h of
      VRunning token conn \<Rightarrow> (h\<lparr>vh_stage := VReaping token\<rparr>, snd (run_cleanup conn (vh_auth h) r))
    | _ \<Rightarrow> (h, r))"

definition voice_released :: "voice_handler \<Rightarrow> session_registry \<Rightarrow> voice_handler \<times> session_registry" where
  "voice_released h r = (case vh_stage h of
      VReaping token \<Rightarrow> (h\<lparr>vh_stage := VFinished\<rparr>, release_reservation token r)
    | _ \<Rightarrow> (h, r))"

section \<open>Closing\<close>

definition registry_close :: "session_registry \<Rightarrow> session_registry" where
  "registry_close r = (if rg_close_task r \<or> rg_closed r then r else r\<lparr>rg_closing := True, rg_close_task := True\<rparr>)"

definition close_owner_begin :: "session_registry \<Rightarrow> session_registry" where
  "close_owner_begin r =
    (let connections = map (\<lambda>(_, conn, _). conn) (rg_connections r);
         r1 = fold (\<lambda>(_, _, auth). queue_lease_release auth) (rg_connections r) (r\<lparr>rg_expiry_task := False\<rparr>)
     in schedule_retirements connections 1001 ''server_shutdown'' (r1\<lparr>rg_connections := [], rg_lease_deadlines := []\<rparr>))"

definition close_owner_end :: "session_registry \<Rightarrow> session_registry" where
  "close_owner_end r = r\<lparr>rg_closing := False, rg_closed := True\<rparr>"

section \<open>Heartbeats\<close>

record worker_settings =
  wt_worker_id :: string
  wt_rva_public_ws_url :: string
  wt_max_sessions :: int
  wt_rva_enabled :: bool
  wt_rva_udp_enabled :: bool
  wt_provider_readiness_required :: bool
  wt_director_url :: string

definition heartbeat_payload :: "worker_settings \<Rightarrow> bool \<Rightarrow> bool \<Rightarrow> session_registry \<Rightarrow> worker_heartbeat" where
  "heartbeat_payload w udp_ready provider_healthy r =
    (let udp_unavailable = (wt_rva_udp_enabled w \<and> \<not> udp_ready);
         rva_profiles = (if wt_rva_udp_enabled w \<and> udp_ready then [''wss-opus/1'', ''udp-opus-gcm/1''] else [''wss-opus/1'']);
         profiles = (if wt_rva_enabled w then rva_profiles else [])
     in \<lparr>wh_worker_id = wt_worker_id w, wh_public_wss_url = wt_rva_public_ws_url w,
         wh_active_sessions = admission_active_count (rg_admission r), wh_max_sessions = wt_max_sessions w,
         wh_draining = ad_draining (rg_admission r),
         wh_healthy = ((provider_healthy \<or> \<not> wt_provider_readiness_required w) \<and> \<not> udp_unavailable),
         wh_profiles = profiles,
         wh_bindings = (if wt_rva_enabled w then [\<lparr>ba_control_protocol = ''rva/1'', ba_public_wss_url = wt_rva_public_ws_url w,
            ba_profiles = rva_profiles\<rparr>] else []),
         wh_active_leases = active_lease_renewals r, wh_released_leases = pending_lease_releases r\<rparr>)"

text \<open>
  How long \<open>_send_once\<close> may wait for the Director: without limit (\<open>None\<close>), until the nearest deadline of the leases it renews,
  or not at all.
\<close>

definition heartbeat_budget :: "real \<Rightarrow> worker_heartbeat \<Rightarrow> session_registry \<Rightarrow> (real option) option" where
  "heartbeat_budget now h r = (case lease_renewal_deadline (wh_active_leases h) r of
      None \<Rightarrow> Some None
    | Some deadline \<Rightarrow> if deadline - now \<le> 0 then None else Some (Some (deadline - now)))"

definition rejected_claims :: "heartbeat_response \<Rightarrow> worker_heartbeat \<Rightarrow> lease_renewal list" where
  "rejected_claims resp h = filter (\<lambda>c. lr_session_epoch c \<in> set (hr_rejected_session_epochs resp)) (wh_active_leases h)"

definition accepted_claims :: "heartbeat_response \<Rightarrow> worker_heartbeat \<Rightarrow> lease_renewal list" where
  "accepted_claims resp h = filter (\<lambda>c. lr_session_epoch c \<notin> set (hr_rejected_session_epochs resp)) (wh_active_leases h)"

text \<open>What follows the exchange: an exception (\<open>None\<close>), or a valid answer.\<close>

definition heartbeat_answered ::
    "real \<Rightarrow> heartbeat_response option \<Rightarrow> worker_heartbeat \<Rightarrow> session_registry \<Rightarrow> bool \<times> session_registry" where
  "heartbeat_answered now answer h r = (case answer of
      None \<Rightarrow> (False, revoke_expired_leases now r)
    | Some resp \<Rightarrow>
        let r1 = extend_lease_deadlines now (hr_lease_expires_at resp) (accepted_claims resp h) r;
            r2 = acknowledge_lease_releases (wh_released_leases h) (revoke_expired_leases now r1);
            r3 = (if hr_draining resp then registry_admission (admission_set_draining True) r2 else r2)
        in (True, revoke_lease_claims (rejected_claims resp h) r3))"

definition worker_ready :: "worker_settings \<Rightarrow> bool \<Rightarrow> bool \<Rightarrow> bool \<Rightarrow> session_registry \<Rightarrow> bool" where
  "worker_ready w udp_ready provider_healthy last_success r \<longleftrightarrow>
     \<not> ad_draining (rg_admission r) \<and> (\<not> wt_rva_udp_enabled w \<or> udp_ready) \<and>
     (provider_healthy \<or> \<not> wt_provider_readiness_required w) \<and> (wt_director_url w = [] \<or> last_success)"

text \<open>The shutdown of the application: draining, and the leases of all connections queued for release.\<close>

definition shutdown_begin :: "session_registry \<Rightarrow> session_registry" where
  "shutdown_begin r = snapshot_active_lease_releases (registry_admission (admission_set_draining True) r)"

section \<open>What the operations change\<close>

text \<open>The sessions of a registry without its admission and tasks: connections, deadlines and releases.\<close>

definition claimed :: "claim_key set \<Rightarrow> auth_context \<Rightarrow> bool" where
  "claimed ks auth = (case lease_claim auth of None \<Rightarrow> False | Some c \<Rightarrow> lease_claim_key c \<in> ks)"

lemma lease_claim_key_inj [simp]: "lease_claim_key c = lease_claim_key c' \<longleftrightarrow> c = c'"
  by (cases c, cases c') (auto simp: lease_claim_key_def)

lemma lease_claim_principal: "lease_claim auth = Some c \<Longrightarrow> renewal_principal c = auth_principal auth"
  by (auto simp: lease_claim_def renewal_principal_def auth_principal_def split: option.splits)

lemma queue_fields [simp]:
  "rg_admission (queue_lease_release auth r) = rg_admission r" "rg_connections (queue_lease_release auth r) = rg_connections r"
  "rg_lease_deadlines (queue_lease_release auth r) = rg_lease_deadlines r" "rg_closing (queue_lease_release auth r) = rg_closing r"
  "rg_closed (queue_lease_release auth r) = rg_closed r" "rg_close_task (queue_lease_release auth r) = rg_close_task r"
  "rg_expiry_task (queue_lease_release auth r) = rg_expiry_task r" "rg_retirement_tasks (queue_lease_release auth r) = rg_retirement_tasks r"
  "set (rg_pending_releases (queue_lease_release auth r)) = set (rg_pending_releases r) \<union> set_option (lease_claim auth)"
  "distinct (rg_pending_releases r) \<Longrightarrow> distinct (rg_pending_releases (queue_lease_release auth r))"
  by (auto simp: queue_lease_release_def split: option.splits)

lemma queue_all_fields [simp]:
  fixes cs :: "(principal \<times> nat \<times> auth_context) list"
  defines "q \<equiv> fold (\<lambda>(_, _, auth). queue_lease_release auth)"
  shows "rg_admission (q cs r) = rg_admission r" "rg_connections (q cs r) = rg_connections r" "rg_lease_deadlines (q cs r) = rg_lease_deadlines r"
    "rg_closing (q cs r) = rg_closing r" "rg_closed (q cs r) = rg_closed r" "rg_close_task (q cs r) = rg_close_task r"
    "rg_expiry_task (q cs r) = rg_expiry_task r" "rg_retirement_tasks (q cs r) = rg_retirement_tasks r"
    "set (rg_pending_releases (q cs r)) = set (rg_pending_releases r) \<union> (\<Union>(_, _, auth) \<in> set cs. set_option (lease_claim auth))"
    "distinct (rg_pending_releases r) \<Longrightarrow> distinct (rg_pending_releases (q cs r))"
  unfolding q_def by (induction cs arbitrary: r) (auto simp: case_prod_beta)

lemma schedule_fields [simp]:
  "rg_admission (schedule_retirements cs code reason r) = rg_admission r" "rg_connections (schedule_retirements cs code reason r) = rg_connections r"
  "rg_lease_deadlines (schedule_retirements cs code reason r) = rg_lease_deadlines r"
  "rg_pending_releases (schedule_retirements cs code reason r) = rg_pending_releases r"
  "rg_closing (schedule_retirements cs code reason r) = rg_closing r" "rg_closed (schedule_retirements cs code reason r) = rg_closed r"
  "rg_close_task (schedule_retirements cs code reason r) = rg_close_task r"
  "rg_expiry_task (schedule_retirements cs code reason r) = rg_expiry_task r"
  by (induction cs arbitrary: r) (simp_all split: option.splits)

lemma schedule_tasks:
  "dict_get (rg_retirement_tasks (schedule_retirements cs code reason r)) n =
    (case dict_get (rg_retirement_tasks r) n of Some t \<Rightarrow> Some t | None \<Rightarrow> if n \<in> set cs then Some (code, reason) else None)"
  by (induction cs arbitrary: r) (auto split: option.splits)

lemma queue_connections:
  "queue_lease_release auth (r\<lparr>rg_connections := c\<rparr>) = (queue_lease_release auth r)\<lparr>rg_connections := c\<rparr>"
  by (simp add: queue_lease_release_def split: option.splits)

lemma queue_all_connections:
  "fold (\<lambda>(_, _, auth). queue_lease_release auth) cs (r\<lparr>rg_connections := c\<rparr>) =
    (fold (\<lambda>(_, _, auth). queue_lease_release auth) cs r)\<lparr>rg_connections := c\<rparr>"
  for cs :: "(principal \<times> nat \<times> auth_context) list"
  by (induction cs arbitrary: r) (simp_all add: queue_connections case_prod_beta)

lemma dict_set_subset: "set (dict_set k v d) \<subseteq> insert (k, v) (set d)"
  by (induction d) auto

lemma dict_pop_one: "dict_wf d \<Longrightarrow> dict_get d k = Some v \<Longrightarrow> dict_pop k d = filter (\<lambda>y. y \<noteq> (k, v)) d"
  unfolding AList.delete_eq by (rule filter_cong) (auto dest: eq_key_imp_eq_value)

lemma remove_connections_spec:
  fixes ks :: "claim_key set"
  assumes "\<forall>(p, x) \<in> set cs. dict_get (rg_connections r) p = Some x" "distinct (map fst cs)" "dict_wf (rg_connections r)"
  defines "gone \<equiv> filter (\<lambda>(_, _, auth). claimed ks auth)"
  shows "remove_connections ks cs r = (map (\<lambda>(_, n, _). n) (gone cs),
     (fold (\<lambda>(_, _, auth). queue_lease_release auth) (gone cs) r)\<lparr>rg_connections := filter (\<lambda>x. x \<notin> set (gone cs)) (rg_connections r)\<rparr>)"
  using assms(1-3)
proof (induction cs arbitrary: r)
  case (Cons x cs)
  obtain p n auth where x: "x = (p, n, auth)" by (cases x) auto
  show ?case
  proof (cases "claimed ks auth")
    case False
    then have "remove_connections ks (x # cs) r = remove_connections ks cs r"
      by (auto simp: x claimed_def split: option.splits)
    then show ?thesis using Cons False by (simp add: x gone_def)
  next
    case True
    define r1 where "r1 = r\<lparr>rg_connections := filter (\<lambda>y. y \<noteq> x) (rg_connections r)\<rparr>"
    have get: "dict_get (rg_connections r) p = Some (n, auth)" using Cons.prems x by simp
    then have pop: "r\<lparr>rg_connections := dict_pop p (rg_connections r)\<rparr> = r1" using Cons.prems(3) by (simp add: dict_pop_one x r1_def)
    then have step: "remove_connections ks (x # cs) r =
        (let (rest, r2) = remove_connections ks cs (queue_lease_release auth r1) in (n # rest, r2))"
      using True get by (auto simp: x claimed_def Let_def split: option.splits)
    have "dict_get (rg_connections r1) p' = dict_get (rg_connections r) p'" if "p' \<noteq> p" for p'
      using that by (simp flip: pop)
    then have "\<forall>(p, x) \<in> set cs. dict_get (rg_connections (queue_lease_release auth r1)) p = Some x"
      using Cons.prems x by fastforce
    then have "remove_connections ks cs (queue_lease_release auth r1) = (map (\<lambda>(_, n, _). n) (gone cs),
       (fold (\<lambda>(_, _, auth). queue_lease_release auth) (gone cs) (queue_lease_release auth r1))
         \<lparr>rg_connections := filter (\<lambda>x. x \<notin> set (gone cs)) (rg_connections (queue_lease_release auth r1))\<rparr>)"
      using Cons.prems by (intro Cons.IH) (simp_all add: r1_def)
    then show ?thesis
      unfolding step using True by (simp add: gone_def x r1_def queue_connections queue_all_connections conj_commute)
  qed
qed (simp add: gone_def)

lemma revoke_claims_spec:
  fixes ks :: "claim_key list"
  assumes "dict_wf (rg_connections r)"
  defines "r' \<equiv> revoke_claims ks r"
  shows "rg_connections r' = filter (\<lambda>(_, _, auth). \<not> claimed (set ks) auth) (rg_connections r)"
    "rg_lease_deadlines r' = filter (\<lambda>(k, _). k \<notin> set ks) (rg_lease_deadlines r)"
    "set (rg_pending_releases r') = set (rg_pending_releases r) \<union>
       {c. \<exists>p n auth. (p, n, auth) \<in> set (rg_connections r) \<and> lease_claim auth = Some c \<and> lease_claim_key c \<in> set ks}"
    "distinct (rg_pending_releases r) \<Longrightarrow> distinct (rg_pending_releases r')"
    "rg_admission r' = rg_admission r" "rg_closing r' = rg_closing r" "rg_closed r' = rg_closed r" "rg_close_task r' = rg_close_task r"
    "rg_expiry_task r' = rg_expiry_task r"
    "(p, n, auth) \<in> set (rg_connections r) \<Longrightarrow> claimed (set ks) auth \<Longrightarrow> dict_get (rg_retirement_tasks r') n =
       Some (case dict_get (rg_retirement_tasks r) n of None \<Rightarrow> (1008, ''stale_route_lease'') | Some t \<Rightarrow> t)"
    "dict_get (rg_retirement_tasks r') m \<in> {dict_get (rg_retirement_tasks r) m, Some (1008, ''stale_route_lease'')}"
proof -
  define r1 where "r1 = r\<lparr>rg_lease_deadlines := filter (\<lambda>(k, _). k \<notin> set ks) (rg_lease_deadlines r)\<rparr>"
  have "\<forall>(p, x) \<in> set (rg_connections r1). dict_get (rg_connections r1) p = Some x" using assms(1) by (auto simp: r1_def)
  note R = remove_connections_spec [OF this _, of "set ks"]
  have r': "r' = schedule_retirements (map (\<lambda>(_, n, _). n) (filter (\<lambda>(_, _, auth). claimed (set ks) auth) (rg_connections r1))) 1008 ''stale_route_lease''
     ((fold (\<lambda>(_, _, auth). queue_lease_release auth) (filter (\<lambda>(_, _, auth). claimed (set ks) auth) (rg_connections r1)) r1)
       \<lparr>rg_connections := filter (\<lambda>x. x \<notin> set (filter (\<lambda>(_, _, auth). claimed (set ks) auth) (rg_connections r1))) (rg_connections r1)\<rparr>)"
    using R assms(1) by (simp add: r'_def revoke_claims_def remove_claims_def r1_def [symmetric]) (simp add: r1_def)
  show "rg_connections r' = filter (\<lambda>(_, _, auth). \<not> claimed (set ks) auth) (rg_connections r)"
    unfolding r' by (simp add: r1_def) (rule filter_cong, auto)
  show "set (rg_pending_releases r') = set (rg_pending_releases r) \<union>
       {c. \<exists>p n auth. (p, n, auth) \<in> set (rg_connections r) \<and> lease_claim auth = Some c \<and> lease_claim_key c \<in> set ks}"
    unfolding r' by (fastforce simp: r1_def claimed_def split: option.splits)
  show "rg_lease_deadlines r' = filter (\<lambda>(k, _). k \<notin> set ks) (rg_lease_deadlines r)"
    "distinct (rg_pending_releases r) \<Longrightarrow> distinct (rg_pending_releases r')"
    "rg_admission r' = rg_admission r" "rg_closing r' = rg_closing r" "rg_closed r' = rg_closed r" "rg_close_task r' = rg_close_task r"
    "rg_expiry_task r' = rg_expiry_task r"
    unfolding r' by (simp_all add: r1_def)
  show "(p, n, auth) \<in> set (rg_connections r) \<Longrightarrow> claimed (set ks) auth \<Longrightarrow> dict_get (rg_retirement_tasks r') n =
       Some (case dict_get (rg_retirement_tasks r) n of None \<Rightarrow> (1008, ''stale_route_lease'') | Some t \<Rightarrow> t)"
    unfolding r' schedule_tasks by (force simp: r1_def split: option.splits)
  show "dict_get (rg_retirement_tasks r') m \<in> {dict_get (rg_retirement_tasks r) m, Some (1008, ''stale_route_lease'')}"
    unfolding r' schedule_tasks by (simp add: r1_def split: option.splits)
qed

text \<open>Whatever the parts of a heartbeat's completion keep, it keeps.\<close>

lemma heartbeat_answered_keeps:
  assumes "Q r" "\<And>r. Q r \<Longrightarrow> Q (revoke_expired_leases now r)" "\<And>r cs. Q r \<Longrightarrow> Q (revoke_lease_claims cs r)"
    "\<And>r resp. answer = Some resp \<Longrightarrow> Q r \<Longrightarrow> Q (extend_lease_deadlines now (hr_lease_expires_at resp) (accepted_claims resp h) r)"
    "\<And>r. Q r \<Longrightarrow> Q (acknowledge_lease_releases (wh_released_leases h) r)" "\<And>r. Q r \<Longrightarrow> Q (registry_admission (admission_set_draining True) r)"
  shows "Q (snd (heartbeat_answered now answer h r))"
  using assms by (cases answer) (simp_all add: heartbeat_answered_def Let_def)

end
