(* ===== verification/Worker_Process.thy ===== *)
theory Worker_Process
  imports Worker_Registry
begin

text \<open>
  The registry and the WebSocket handlers of a worker process together, as \<open>create_app\<close> of \<open>realtime_worker/app.py\<close> composes them:
  whatever order their suspended sections resume in, reservations, connections and lease deadlines stay in agreement.
\<close>

section \<open>The process\<close>

text \<open>
  The registry with the handlers that were ever started; a handler's number names its connection. Between two suspensions of its tasks the process does one
  of the following.
\<close>

record worker_proc =
  wp_registry :: session_registry
  wp_handlers :: "voice_handler list"

datatype proc_event =
    PBegin bool auth_result string
  | PConsumed nat "bool option"
  | PAccepted nat bool
  | PEnded nat
  | PReleased nat
  | PExpire real
  | PAnswered real "heartbeat_response option" worker_heartbeat
  | PRevokeEpochs "string list"
  | PRetired nat
  | PDrain
  | PShutdown
  | PClose
  | PCloseBegin
  | PCloseEnd

definition on_handler ::
    "nat \<Rightarrow> (voice_handler \<Rightarrow> session_registry \<Rightarrow> voice_handler \<times> session_registry) \<Rightarrow> worker_proc \<Rightarrow> worker_proc" where
  "on_handler i f p = (if i < length (wp_handlers p) then
     let (h, r) = f (wp_handlers p ! i) (wp_registry p) in \<lparr>wp_registry = r, wp_handlers = (wp_handlers p)[i := h]\<rparr> else p)"

definition on_registry :: "(session_registry \<Rightarrow> session_registry) \<Rightarrow> worker_proc \<Rightarrow> worker_proc" where
  "on_registry f p = p\<lparr>wp_registry := f (wp_registry p)\<rparr>"

fun proc_step :: "proc_event \<Rightarrow> worker_proc \<Rightarrow> worker_proc" where
  "proc_step (PBegin udp verified fresh) p =
    (let (h, r) = voice_begin udp verified fresh (wp_registry p) in \<lparr>wp_registry = r, wp_handlers = wp_handlers p @ [h]\<rparr>)"
| "proc_step (PConsumed i answer) p = on_handler i (voice_consumed answer) p"
| "proc_step (PAccepted i ok) p = on_handler i (voice_accepted ok i) p"
| "proc_step (PEnded i) p = on_handler i voice_ended p"
| "proc_step (PReleased i) p = on_handler i voice_released p"
| "proc_step (PExpire now) p = on_registry (revoke_expired_leases now) p"
| "proc_step (PAnswered now answer h) p = on_registry (\<lambda>r. snd (heartbeat_answered now answer h r)) p"
| "proc_step (PRevokeEpochs epochs) p = on_registry (revoke_session_epochs epochs) p"
| "proc_step (PRetired n) p = on_registry (retirement_done n) p"
| "proc_step PDrain p = on_registry (registry_admission (admission_set_draining True)) p"
| "proc_step PShutdown p = on_registry shutdown_begin p"
| "proc_step PClose p = on_registry registry_close p"
| "proc_step PCloseBegin p = on_registry close_owner_begin p"
| "proc_step PCloseEnd p = on_registry close_owner_end p"

definition proc_init :: "int \<Rightarrow> worker_proc" where
  "proc_init max_sessions = \<lparr>wp_registry = registry_init (admission_init max_sessions), wp_handlers = []\<rparr>"

text \<open>The reservation a handler holds.\<close>

definition held_token :: "voice_handler \<Rightarrow> string option" where
  "held_token h = (case vh_stage h of
      VConsuming t _ \<Rightarrow> Some t | VAccepting t \<Rightarrow> Some t | VRunning t _ \<Rightarrow> Some t | VReaping t \<Rightarrow> Some t | _ \<Rightarrow> None)"

text \<open>
  The reservations are exactly those of the handlers that are not through; every connection of the registry belongs to
  a running handler with its credentials, and the deadlines are exactly those of the connections.
\<close>

definition holds_exactly :: "session_admission \<Rightarrow> voice_handler list \<Rightarrow> bool" where
  "holds_exactly a hs \<longleftrightarrow>
     (\<forall>i t. i < length hs \<longrightarrow> held_token (hs ! i) = Some t \<longrightarrow> dict_get (ad_reservations a) t = Some (auth_principal (vh_auth (hs ! i)))) \<and>
     (\<forall>t who. dict_get (ad_reservations a) t = Some who \<longrightarrow> (\<exists>i < length hs. held_token (hs ! i) = Some t)) \<and>
     (\<forall>i j t. i < length hs \<longrightarrow> j < length hs \<longrightarrow> held_token (hs ! i) = Some t \<longrightarrow> held_token (hs ! j) = Some t \<longrightarrow> i = j)"

definition owns_connections :: "session_registry \<Rightarrow> voice_handler list \<Rightarrow> bool" where
  "owns_connections r hs \<longleftrightarrow> dict_wf (rg_connections r) \<and>
     (\<forall>p n auth. (p, n, auth) \<in> set (rg_connections r) \<longrightarrow>
        p = auth_principal auth \<and> n < length hs \<and> vh_auth (hs ! n) = auth \<and> (\<exists>t. vh_stage (hs ! n) = VRunning t n)) \<and>
     (\<forall>i < length hs. \<forall>t n. vh_stage (hs ! i) = VRunning t n \<longrightarrow> n = i)"

text \<open>The claims of the connections, as far as they expire.\<close>

definition auth_leases :: "auth_context \<Rightarrow> claim_key set" where
  "auth_leases auth = (if ac_expires_at auth = None then {} else lease_claim_key ` set_option (lease_claim auth))"

definition leased :: "session_registry \<Rightarrow> claim_key set" where
  "leased r = (\<Union>x \<in> set (rg_connections r). auth_leases (snd (snd x)))"

definition deadlines_ok :: "session_registry \<Rightarrow> bool" where
  "deadlines_ok r \<longleftrightarrow> dict_wf (rg_lease_deadlines r) \<and> fst ` set (rg_lease_deadlines r) = leased r"

definition sessions_ok :: "session_registry \<Rightarrow> voice_handler list \<Rightarrow> bool" where
  "sessions_ok r hs \<longleftrightarrow> owns_connections r hs \<and> deadlines_ok r \<and> distinct (rg_pending_releases r)"

definition proc_inv :: "worker_proc \<Rightarrow> bool" where
  "proc_inv p \<longleftrightarrow> admission_inv (rg_admission (wp_registry p)) \<and> holds_exactly (rg_admission (wp_registry p)) (wp_handlers p) \<and>
     sessions_ok (wp_registry p) (wp_handlers p)"

lemma proc_eta [simp]: "\<lparr>wp_registry = wp_registry p, wp_handlers = wp_handlers p\<rparr> = p"
  by (cases p) simp

lemma held_stage [simp]:
  "held_token \<lparr>vh_auth = auth, vh_stage = VConsuming t g\<rparr> = Some t" "held_token \<lparr>vh_auth = auth, vh_stage = VAccepting t\<rparr> = Some t"
  "held_token \<lparr>vh_auth = auth, vh_stage = VClosed code reason\<rparr> = None"
  "held_token (h\<lparr>vh_stage := VAccepting t\<rparr>) = Some t" "held_token (h\<lparr>vh_stage := VRunning t n\<rparr>) = Some t" "held_token (h\<lparr>vh_stage := VReaping t\<rparr>) = Some t"
  "held_token (h\<lparr>vh_stage := VClosed code reason\<rparr>) = None" "held_token (h\<lparr>vh_stage := VRaised\<rparr>) = None" "held_token (h\<lparr>vh_stage := VFinished\<rparr>) = None"
  by (simp_all add: held_token_def)

lemma holds_exactlyD:
  assumes "holds_exactly a hs"
  shows "i < length hs \<Longrightarrow> held_token (hs ! i) = Some t \<Longrightarrow> dict_get (ad_reservations a) t = Some (auth_principal (vh_auth (hs ! i)))"
    "dict_get (ad_reservations a) t = Some who \<Longrightarrow> \<exists>i < length hs. held_token (hs ! i) = Some t"
    "i < length hs \<Longrightarrow> j < length hs \<Longrightarrow> held_token (hs ! i) = Some t \<Longrightarrow> held_token (hs ! j) = Some t \<Longrightarrow> i = j"
  using assms unfolding holds_exactly_def by blast+

lemma live_unique:
  assumes "admission_inv a" "holds_exactly a hs" "i < length hs" "j < length hs" "held_token (hs ! i) = Some t" "held_token (hs ! j) = Some t'"
    "auth_principal (vh_auth (hs ! i)) = auth_principal (vh_auth (hs ! j))"
  shows "i = j"
proof -
  note H = holds_exactlyD [OF assms(2)]
  have "(t, auth_principal (vh_auth (hs ! i))) \<in> set (ad_reservations a)" "(t', auth_principal (vh_auth (hs ! i))) \<in> set (ad_reservations a)"
    using H(1) [OF assms(3,5)] H(1) [OF assms(4,6)] assms(7) by (simp_all add: map_of_SomeD)
  moreover have "distinct (map snd (ad_reservations a))" using assms(1) by (simp add: admission_inv_def)
  ultimately have "t = t'" by (metis distinct_map inj_on_def prod.inject snd_conv)
  then show ?thesis using H(3) assms by blast
qed

lemma holds_same:
  assumes "holds_exactly a hs" "held_token h = held_token (hs ! i)" "vh_auth h = vh_auth (hs ! i)"
  shows "holds_exactly a (hs[i := h])"
proof -
  note H = holds_exactlyD [OF assms(1)]
  have eq: "held_token (hs[i := h] ! j) = held_token (hs ! j)" "vh_auth (hs[i := h] ! j) = vh_auth (hs ! j)" if "j < length hs" for j
    using assms that by (cases "j = i"; simp)+
  show ?thesis unfolding holds_exactly_def length_list_update
  proof (intro conjI allI impI)
    fix j t assume "j < length hs" "held_token (hs[i := h] ! j) = Some t"
    then show "dict_get (ad_reservations a) t = Some (auth_principal (vh_auth (hs[i := h] ! j)))" using H(1) eq by simp
  next
    fix t who assume "dict_get (ad_reservations a) t = Some who"
    then obtain j where "j < length hs" "held_token (hs ! j) = Some t" using H(2) by blast
    then show "\<exists>j<length hs. held_token (hs[i := h] ! j) = Some t" using eq(1) by auto
  next
    fix j k t assume "j < length hs" "k < length hs" "held_token (hs[i := h] ! j) = Some t" "held_token (hs[i := h] ! k) = Some t"
    then show "j = k" using H(3) eq(1) by simp
  qed
qed

lemma holds_release:
  assumes "holds_exactly a hs" "i < length hs" "held_token (hs ! i) = Some t" "held_token h = None"
  shows "holds_exactly (admission_release t a) (hs[i := h])"
proof -
  note H = holds_exactlyD [OF assms(1)]
  have h: "held_token (hs[i := h] ! j) = Some t' \<longleftrightarrow> j \<noteq> i \<and> held_token (hs ! j) = Some t'" for j t'
    using assms by (cases "j = i") simp_all
  have get: "dict_get (ad_reservations (admission_release t a)) t' = (if t' = t then None else dict_get (ad_reservations a) t')" for t'
    by (auto simp: admission_release_def split: option.splits)
  have other: "t' \<noteq> t" if "j < length hs" "j \<noteq> i" "held_token (hs ! j) = Some t'" for j t'
    using that assms(2,3) H(3) by blast
  show ?thesis unfolding holds_exactly_def h get length_list_update
  proof (intro conjI allI impI)
    fix j t' assume "j < length hs" "j \<noteq> i \<and> held_token (hs ! j) = Some t'"
    then show "(if t' = t then None else dict_get (ad_reservations a) t') = Some (auth_principal (vh_auth (hs[i := h] ! j)))"
      using other H(1) by simp
  next
    fix t' who assume "(if t' = t then None else dict_get (ad_reservations a) t') = Some who"
    then have "t' \<noteq> t" "dict_get (ad_reservations a) t' = Some who" by (simp_all split: if_splits)
    then show "\<exists>j<length hs. j \<noteq> i \<and> held_token (hs ! j) = Some t'" using H(2) assms(3) by fastforce
  qed (use H(3) in blast)
qed

lemma holds_append_none:
  assumes "holds_exactly a hs" "held_token h = None"
  shows "holds_exactly a (hs @ [h])"
proof -
  note H = holds_exactlyD [OF assms(1)]
  have h: "j < length (hs @ [h]) \<and> held_token ((hs @ [h]) ! j) = Some t \<longleftrightarrow> j < length hs \<and> held_token (hs ! j) = Some t" for j t
    using assms(2) by (auto simp: nth_append less_Suc_eq)
  show ?thesis unfolding holds_exactly_def
  proof (intro conjI allI impI)
    fix j t assume "j < length (hs @ [h])" "held_token ((hs @ [h]) ! j) = Some t"
    then have "j < length hs" "held_token (hs ! j) = Some t" using h by blast+
    then show "dict_get (ad_reservations a) t = Some (auth_principal (vh_auth ((hs @ [h]) ! j)))" using H(1) by (simp add: nth_append)
  next
    fix t who assume "dict_get (ad_reservations a) t = Some who"
    then show "\<exists>i<length (hs @ [h]). held_token ((hs @ [h]) ! i) = Some t" using H(2) h by blast
  next
    fix i j t assume "i < length (hs @ [h])" "j < length (hs @ [h])" "held_token ((hs @ [h]) ! i) = Some t" "held_token ((hs @ [h]) ! j) = Some t"
    then show "i = j" using H(3) h by blast
  qed
qed

lemma holds_append_some:
  assumes "holds_exactly a hs" "held_token h = Some t" "dict_get (ad_reservations a) t = None"
    "ad_reservations a' = dict_set t (auth_principal (vh_auth h)) (ad_reservations a)"
  shows "holds_exactly a' (hs @ [h])"
proof -
  note H = holds_exactlyD [OF assms(1)]
  have h: "j < length (hs @ [h]) \<Longrightarrow> held_token ((hs @ [h]) ! j) = Some t' \<longleftrightarrow>
      (if j = length hs then t' = t else j < length hs \<and> held_token (hs ! j) = Some t')" for j t'
    using assms(2) by (auto simp: nth_append less_Suc_eq)
  have other: "t' \<noteq> t" if "j < length hs" "held_token (hs ! j) = Some t'" for j t'
    using that H(1) [OF that] assms(3) by auto
  show ?thesis unfolding holds_exactly_def assms(4)
  proof (intro conjI allI impI)
    fix j t' assume j: "j < length (hs @ [h])" and "held_token ((hs @ [h]) ! j) = Some t'"
    then have "if j = length hs then t' = t else j < length hs \<and> held_token (hs ! j) = Some t'" using h [OF j] by simp
    then show "dict_get (dict_set t (auth_principal (vh_auth h)) (ad_reservations a)) t' = Some (auth_principal (vh_auth ((hs @ [h]) ! j)))"
      using other H(1) by (cases "j = length hs") (auto simp: nth_append)
  next
    fix t' who assume "dict_get (dict_set t (auth_principal (vh_auth h)) (ad_reservations a)) t' = Some who"
    then consider "t' = t" | i where "i < length hs" "held_token (hs ! i) = Some t'" using H(2) [of t'] by (auto split: if_splits)
    then show "\<exists>i<length (hs @ [h]). held_token ((hs @ [h]) ! i) = Some t'"
    proof cases
      case 1
      then show ?thesis using assms(2) by (intro exI [of _ "length hs"]) simp
    next
      case 2
      then show ?thesis by (intro exI [of _ i]) (simp add: nth_append)
    qed
  next
    fix i j t' assume ij: "i < length (hs @ [h])" "j < length (hs @ [h])" and "held_token ((hs @ [h]) ! i) = Some t'" "held_token ((hs @ [h]) ! j) = Some t'"
    then show "i = j" using h [OF ij(1)] h [OF ij(2)] other H(3) by (metis (full_types))
  qed
qed

subsection \<open>Connections and deadlines\<close>

lemma owns_connectionsD:
  assumes "owns_connections r hs"
  shows "dict_wf (rg_connections r)"
    "(p, n, auth) \<in> set (rg_connections r) \<Longrightarrow> p = auth_principal auth \<and> n < length hs \<and> vh_auth (hs ! n) = auth \<and> (\<exists>t. vh_stage (hs ! n) = VRunning t n)"
    "i < length hs \<Longrightarrow> vh_stage (hs ! i) = VRunning t n \<Longrightarrow> n = i"
  using assms unfolding owns_connections_def by blast+

lemma owns_connectionsI:
  assumes "dict_wf (rg_connections r)"
    "\<And>p n auth. (p, n, auth) \<in> set (rg_connections r) \<Longrightarrow>
      p = auth_principal auth \<and> n < length hs \<and> vh_auth (hs ! n) = auth \<and> (\<exists>t. vh_stage (hs ! n) = VRunning t n)"
    "\<And>i t n. i < length hs \<Longrightarrow> vh_stage (hs ! i) = VRunning t n \<Longrightarrow> n = i"
  shows "owns_connections r hs"
  using assms unfolding owns_connections_def by blast

lemma sessions_ok_cong:
  assumes "sessions_ok r hs" "rg_connections r' = rg_connections r" "dict_keys (rg_lease_deadlines r') = dict_keys (rg_lease_deadlines r)"
    "distinct (rg_pending_releases r')"
  shows "sessions_ok r' hs"
proof -
  have "fst ` set (rg_lease_deadlines r') = fst ` set (rg_lease_deadlines r)" using assms(3) by (metis list.set_map)
  then show ?thesis using assms unfolding sessions_ok_def owns_connections_def deadlines_ok_def leased_def by simp
qed

lemma revoke_sessions_ok:
  assumes "sessions_ok r hs"
  shows "sessions_ok (revoke_claims ks r) hs"
proof -
  have own: "owns_connections r hs" and dl: "deadlines_ok r" and pd: "distinct (rg_pending_releases r)" using assms by (simp_all add: sessions_ok_def)
  note R = revoke_claims_spec [OF owns_connectionsD(1) [OF own], where ks = ks]
  have "owns_connections (revoke_claims ks r) hs"
    using owns_connectionsD [OF own] by (intro owns_connectionsI) (auto simp: R(1))
  moreover have "leased (revoke_claims ks r) = leased r - set ks"
    by (fastforce simp: leased_def R(1) claimed_def auth_leases_def split: if_splits option.splits)
  moreover have "fst ` set (rg_lease_deadlines (revoke_claims ks r)) = fst ` set (rg_lease_deadlines r) - set ks" by (force simp: R(2))
  ultimately show ?thesis using R(2,4) dl pd by (simp add: sessions_ok_def deadlines_ok_def)
qed

lemma extend_keys: "dict_keys (rg_lease_deadlines (extend_lease_deadlines now e cs r)) = dict_keys (rg_lease_deadlines r)"
  by (simp add: extend_lease_deadlines_def case_prod_beta comp_def cong: if_cong)

lemma extend_fields:
  "rg_admission (extend_lease_deadlines now e cs r) = rg_admission r" "rg_connections (extend_lease_deadlines now e cs r) = rg_connections r"
  "rg_pending_releases (extend_lease_deadlines now e cs r) = rg_pending_releases r"
  by (simp_all add: extend_lease_deadlines_def)

lemma sessions_ok_handler:
  assumes "sessions_ok r hs" "\<And>t. vh_stage (hs ! i) \<noteq> VRunning t i" "\<And>t n. vh_stage h = VRunning t n \<Longrightarrow> n = i"
  shows "sessions_ok r (hs[i := h])"
proof -
  note O = owns_connectionsD [OF assms(1) [unfolded sessions_ok_def, THEN conjunct1]]
  have "owns_connections r (hs[i := h])"
  proof (rule owns_connectionsI [OF O(1)])
    fix p n auth assume "(p, n, auth) \<in> set (rg_connections r)"
    moreover from calculation have "n \<noteq> i" using O(2) assms(2) by blast
    ultimately show "p = auth_principal auth \<and> n < length (hs[i := h]) \<and> vh_auth (hs[i := h] ! n) = auth \<and> (\<exists>t. vh_stage (hs[i := h] ! n) = VRunning t n)"
      using O(2) by (metis length_list_update nth_list_update_neq)
  next
    fix j t n assume "j < length (hs[i := h])" "vh_stage (hs[i := h] ! j) = VRunning t n"
    then show "n = j" using O(3) assms(3) by (cases "j = i") auto
  qed
  then show ?thesis using assms(1) by (simp add: sessions_ok_def)
qed

lemma sessions_ok_append:
  assumes "sessions_ok r hs" "\<And>t n. vh_stage h \<noteq> VRunning t n"
  shows "sessions_ok r (hs @ [h])"
proof -
  note O = owns_connectionsD [OF assms(1) [unfolded sessions_ok_def, THEN conjunct1]]
  have "owns_connections r (hs @ [h])"
  proof (rule owns_connectionsI [OF O(1)])
    fix p n auth assume m: "(p, n, auth) \<in> set (rg_connections r)"
    show "p = auth_principal auth \<and> n < length (hs @ [h]) \<and> vh_auth ((hs @ [h]) ! n) = auth \<and> (\<exists>t. vh_stage ((hs @ [h]) ! n) = VRunning t n)"
      using O(2) [OF m] by (auto simp: nth_append)
  next
    fix j t n assume "j < length (hs @ [h])" "vh_stage ((hs @ [h]) ! j) = VRunning t n"
    then show "n = j" using O(3) assms(2) by (cases "j = length hs") (auto simp: nth_append)
  qed
  then show ?thesis using assms(1) by (simp add: sessions_ok_def)
qed

lemma same_claim_principal: "lease_claim auth = Some c \<Longrightarrow> lease_claim auth' = Some c \<Longrightarrow> auth_principal auth = auth_principal auth'"
  using lease_claim_principal by metis

lemma run_start_sessions_ok:
  assumes "sessions_ok r hs" "i < length hs" "vh_stage (hs ! i) = VAccepting t" "run_start i (vh_auth (hs ! i)) t r = (Some n, r')"
    and free: "auth_principal (vh_auth (hs ! i)) \<notin> set (dict_keys (rg_connections r))"
  shows "sessions_ok r' (hs[i := (hs ! i)\<lparr>vh_stage := VRunning t n\<rparr>])"
proof -
  let ?auth = "vh_auth (hs ! i)"
  have own: "owns_connections r hs" and dl: "deadlines_ok r" and pd: "distinct (rg_pending_releases r)" using assms(1) by (simp_all add: sessions_ok_def)
  note O = owns_connectionsD [OF own]
  have n: "n = i" and c: "rg_connections r' = rg_connections r @ [(auth_principal ?auth, i, ?auth)]" and p: "rg_pending_releases r' = rg_pending_releases r"
    and d: "rg_lease_deadlines r' = (case (lease_claim ?auth, ac_expires_at ?auth) of
      (Some c, Some e) \<Rightarrow> dict_set (lease_claim_key c) e (rg_lease_deadlines r) | _ \<Rightarrow> rg_lease_deadlines r)"
    using assms(4) free by (auto simp: run_start_def dict_set_new start_expiry_enforcement_def Let_def split: if_splits option.splits)
  have "owns_connections r' (hs[i := (hs ! i)\<lparr>vh_stage := VRunning t n\<rparr>])"
  proof (rule owns_connectionsI)
    show "dict_wf (rg_connections r')" using O(1) free by (simp add: c)
    fix p m auth assume "(p, m, auth) \<in> set (rg_connections r')"
    then consider "p = auth_principal auth" "m = i" "auth = ?auth" | "(p, m, auth) \<in> set (rg_connections r)" by (auto simp: c)
    then show "p = auth_principal auth \<and> m < length (hs[i := (hs ! i)\<lparr>vh_stage := VRunning t n\<rparr>]) \<and>
      vh_auth (hs[i := (hs ! i)\<lparr>vh_stage := VRunning t n\<rparr>] ! m) = auth \<and> (\<exists>t'. vh_stage (hs[i := (hs ! i)\<lparr>vh_stage := VRunning t n\<rparr>] ! m) = VRunning t' m)"
    proof cases
      case 2
      then have "m \<noteq> i" using O(2) assms(3) by fastforce
      then show ?thesis using O(2) [OF 2] by simp
    qed (use assms(2) n in simp)
  next
    fix j t' m assume "j < length (hs[i := (hs ! i)\<lparr>vh_stage := VRunning t n\<rparr>])" "vh_stage (hs[i := (hs ! i)\<lparr>vh_stage := VRunning t n\<rparr>] ! j) = VRunning t' m"
    then show "m = j" using O(3) n assms(2) by (cases "j = i") auto
  qed
  moreover have "deadlines_ok r'"
  proof -
    have "leased r' = leased r \<union> auth_leases ?auth" by (auto simp: leased_def c)
    moreover have "fst ` set (rg_lease_deadlines r') = fst ` set (rg_lease_deadlines r) \<union> auth_leases ?auth" "dict_wf (rg_lease_deadlines r')"
      using dl dict_set_keys [of _ _ "rg_lease_deadlines r"]
      by (auto simp: d auth_leases_def deadlines_ok_def split: option.splits simp del: dict_set_keys)
    ultimately show ?thesis using dl by (simp add: deadlines_ok_def)
  qed
  ultimately show ?thesis using pd p by (simp add: sessions_ok_def)
qed

lemma run_cleanup_fields:
  "rg_admission (snd (run_cleanup n auth r)) = rg_admission r"
  "rg_connections (snd (run_cleanup n auth r)) = (case dict_get (rg_connections r) (auth_principal auth) of
     Some (m, _) \<Rightarrow> if m = n then dict_pop (auth_principal auth) (rg_connections r) else rg_connections r | None \<Rightarrow> rg_connections r)"
  "rg_lease_deadlines (snd (run_cleanup n auth r)) = (case lease_claim auth of
     Some c \<Rightarrow> dict_pop (lease_claim_key c) (rg_lease_deadlines r) | None \<Rightarrow> rg_lease_deadlines r)"
  "set (rg_pending_releases (snd (run_cleanup n auth r))) = set (rg_pending_releases r) \<union> set_option (lease_claim auth)"
  "distinct (rg_pending_releases r) \<Longrightarrow> distinct (rg_pending_releases (snd (run_cleanup n auth r)))"
  by (auto simp: run_cleanup_def detach_expiry_task_if_idle_def Let_def queue_lease_release_def split: option.splits)

lemma run_cleanup_sessions_ok:
  assumes ok: "sessions_ok r hs" and i: "i < length hs" "vh_stage (hs ! i) = VRunning t i"
    and unique: "\<And>j t'. j < length hs \<Longrightarrow> vh_stage (hs ! j) = VRunning t' j \<Longrightarrow> auth_principal (vh_auth (hs ! j)) = auth_principal (vh_auth (hs ! i)) \<Longrightarrow> j = i"
  shows "sessions_ok (snd (run_cleanup i (vh_auth (hs ! i)) r)) (hs[i := (hs ! i)\<lparr>vh_stage := VReaping t\<rparr>])"
proof -
  let ?auth = "vh_auth (hs ! i)" and ?r = "snd (run_cleanup i (vh_auth (hs ! i)) r)"
  have own: "owns_connections r hs" and dl: "deadlines_ok r" and pd: "distinct (rg_pending_releases r)" using ok by (simp_all add: sessions_ok_def)
  note O = owns_connectionsD [OF own] and F = run_cleanup_fields [where n = i and auth = ?auth and r = r]
  have at: "m = i \<and> auth = ?auth" if "(auth_principal ?auth, m, auth) \<in> set (rg_connections r)" for m auth
    using O(2) [OF that] unique by metis
  have c: "rg_connections ?r = dict_pop (auth_principal ?auth) (rg_connections r)"
  proof (cases "dict_get (rg_connections r) (auth_principal ?auth)")
    case None
    then have "dict_pop (auth_principal ?auth) (rg_connections r) = rg_connections r" by (intro dict_pop_notin) (simp add: map_of_eq_None_iff)
    then show ?thesis using None unfolding F(2) by simp
  next
    case (Some x)
    then have "fst x = i" using at [of "fst x" "snd x"] by (simp add: map_of_SomeD)
    then show ?thesis using Some unfolding F(2) by (cases x) simp
  qed
  have rest: "x \<in> set (rg_connections ?r) \<longleftrightarrow> x \<in> set (rg_connections r) \<and> fst x \<noteq> auth_principal ?auth" for x by (simp add: c dict_pop_mem)
  have "owns_connections ?r (hs[i := (hs ! i)\<lparr>vh_stage := VReaping t\<rparr>])"
  proof (rule owns_connectionsI)
    show "dict_wf (rg_connections ?r)" using O(1) by (simp add: c)
    fix p m auth assume "(p, m, auth) \<in> set (rg_connections ?r)"
    then have m: "(p, m, auth) \<in> set (rg_connections r)" "p \<noteq> auth_principal ?auth" by (simp_all add: rest)
    then have "m \<noteq> i" using O(2) by blast
    then show "p = auth_principal auth \<and> m < length (hs[i := (hs ! i)\<lparr>vh_stage := VReaping t\<rparr>]) \<and>
      vh_auth (hs[i := (hs ! i)\<lparr>vh_stage := VReaping t\<rparr>] ! m) = auth \<and> (\<exists>t'. vh_stage (hs[i := (hs ! i)\<lparr>vh_stage := VReaping t\<rparr>] ! m) = VRunning t' m)"
      using O(2) [OF m(1)] by auto
  next
    fix j t' m assume "j < length (hs[i := (hs ! i)\<lparr>vh_stage := VReaping t\<rparr>])" "vh_stage (hs[i := (hs ! i)\<lparr>vh_stage := VReaping t\<rparr>] ! j) = VRunning t' m"
    then show "m = j" using O(3) i by (cases "j = i") auto
  qed
  moreover have "deadlines_ok ?r"
  proof -
    have keys: "fst ` set (rg_lease_deadlines ?r) = fst ` set (rg_lease_deadlines r) - lease_claim_key ` set_option (lease_claim ?auth)"
      unfolding F(3) by (cases "lease_claim ?auth") (auto simp: dict_pop_mem image_iff)
    have "k \<in> leased ?r \<longleftrightarrow> k \<in> leased r \<and> k \<notin> lease_claim_key ` set_option (lease_claim ?auth)" for k
    proof -
      have "k \<in> lease_claim_key ` set_option (lease_claim ?auth) \<longleftrightarrow> fst x = auth_principal ?auth"
        if "x \<in> set (rg_connections r)" "k \<in> auth_leases (snd (snd x))" for x
      proof -
        obtain p m auth where x: "x = (p, m, auth)" by (cases x) auto
        have "p = auth_principal auth" using O(2) that(1) x by blast
        moreover have "k \<in> lease_claim_key ` set_option (lease_claim ?auth) \<Longrightarrow> auth_principal auth = auth_principal ?auth"
          using that(2) by (auto simp: x auth_leases_def split: if_splits intro: same_claim_principal)
        moreover have "auth = ?auth" if "auth_principal auth = auth_principal ?auth"
          using at [of m auth] \<open>x \<in> _\<close> x that calculation(1) by metis
        ultimately show ?thesis using that(2) x by (auto simp: auth_leases_def split: if_splits)
      qed
      then show ?thesis by (simp only: leased_def UN_iff Bex_def rest) blast
    qed
    then show ?thesis using dl keys unfolding deadlines_ok_def F(3) by (auto split: option.splits)
  qed
  ultimately show ?thesis using F(5) pd by (simp add: sessions_ok_def)
qed

subsection \<open>Every step keeps the invariant\<close>

lemma revocations_sessions_ok:
  "sessions_ok r hs \<Longrightarrow> sessions_ok (revoke_expired_leases now r) hs"
  "sessions_ok r hs \<Longrightarrow> sessions_ok (revoke_lease_claims cs r) hs"
  "sessions_ok r hs \<Longrightarrow> sessions_ok (revoke_session_epochs es r) hs"
  by (simp_all add: revoke_expired_leases_def revoke_lease_claims_def revoke_session_epochs_def revoke_sessions_ok)

lemma revoke_admission: "dict_wf (rg_connections r) \<Longrightarrow> rg_admission (revoke_claims ks r) = rg_admission r"
  by (rule revoke_claims_spec(5))

lemma sessions_ok_wf: "sessions_ok r hs \<Longrightarrow> dict_wf (rg_connections r)"
  by (simp add: sessions_ok_def owns_connections_def)

lemma sessions_ok_pending: "sessions_ok r hs \<Longrightarrow> distinct (rg_pending_releases r)"
  by (simp add: sessions_ok_def)

lemma revocations_admission:
  assumes "sessions_ok r hs"
  shows "rg_admission (revoke_expired_leases now r) = rg_admission r" "rg_admission (revoke_lease_claims cs r) = rg_admission r"
    "rg_admission (revoke_session_epochs es r) = rg_admission r"
  using revoke_admission [OF sessions_ok_wf [OF assms]]
  by (simp_all add: revoke_expired_leases_def revoke_lease_claims_def revoke_session_epochs_def)

lemma admission_draining_inv: "admission_inv a \<Longrightarrow> admission_inv (admission_set_draining v a)"
  by (simp add: admission_set_draining_def admission_inv_def)

lemma holds_draining: "holds_exactly a hs \<Longrightarrow> holds_exactly (admission_set_draining v a) hs"
  by (simp add: admission_set_draining_def holds_exactly_def)

lemma registry_parts_ok:
  assumes "sessions_ok r hs"
  shows "sessions_ok (extend_lease_deadlines now e cs r) hs" "sessions_ok (acknowledge_lease_releases cs r) hs" "sessions_ok (registry_admission f r) hs"
    "rg_admission (extend_lease_deadlines now e cs r) = rg_admission r" "rg_admission (acknowledge_lease_releases cs r) = rg_admission r"
    "rg_admission (registry_admission f r) = f (rg_admission r)"
proof -
  note C = sessions_ok_cong [OF assms] and P = sessions_ok_pending [OF assms]
  show "sessions_ok (extend_lease_deadlines now e cs r) hs" by (rule C) (simp_all add: extend_keys extend_fields P)
  show "sessions_ok (acknowledge_lease_releases cs r) hs" by (rule C) (simp_all add: acknowledge_lease_releases_def P)
  show "sessions_ok (registry_admission f r) hs" by (rule C) (simp_all add: registry_admission_def P)
qed (simp_all add: extend_fields acknowledge_lease_releases_def registry_admission_def)

lemma heartbeat_answered_inv:
  assumes "sessions_ok r hs" "admission_inv (rg_admission r)" "holds_exactly (rg_admission r) hs"
  shows "sessions_ok (snd (heartbeat_answered now answer h r)) hs \<and> admission_inv (rg_admission (snd (heartbeat_answered now answer h r))) \<and>
    holds_exactly (rg_admission (snd (heartbeat_answered now answer h r))) hs"
  by (rule heartbeat_answered_keeps) (use assms revocations_sessions_ok revocations_admission registry_parts_ok in
      \<open>auto simp: admission_draining_inv holds_draining\<close>)

text \<open>The \<open>uuid4\<close> of a new reservation is not one in use.\<close>

fun fresh_event :: "worker_proc \<Rightarrow> proc_event \<Rightarrow> bool" where
  "fresh_event p (PBegin udp verified fresh) \<longleftrightarrow> dict_get (ad_reservations (rg_admission (wp_registry p))) fresh = None"
| "fresh_event p _ \<longleftrightarrow> True"

lemma voice_begin_inv:
  assumes "proc_inv p" "fresh_event p (PBegin udp verified fresh)"
  shows "proc_inv (proc_step (PBegin udp verified fresh) p)"
proof -
  have a: "admission_inv (rg_admission (wp_registry p))" and h: "holds_exactly (rg_admission (wp_registry p)) (wp_handlers p)"
    and s: "sessions_ok (wp_registry p) (wp_handlers p)"
    using assms(1) by (simp_all add: proc_inv_def)
  let ?p = "proc_step (PBegin udp verified fresh) p"
  obtain x r where x: "voice_begin udp verified fresh (wp_registry p) = (x, r)" by fastforce
  consider "held_token x = None" "r = wp_registry p" "\<And>t n. vh_stage x \<noteq> VRunning t n"
    | "held_token x = Some fresh" "\<And>t n. vh_stage x \<noteq> VRunning t n"
      "r = (wp_registry p)\<lparr>rg_admission := snd (admission_reserve fresh (auth_principal (vh_auth x)) (rg_admission (wp_registry p)))\<rparr>"
      "ad_reservations (rg_admission r) = dict_set fresh (auth_principal (vh_auth x)) (ad_reservations (rg_admission (wp_registry p)))"
    using x by (auto simp: voice_begin_def registry_reserve_def admission_reserve_def rejected_handler_def held_token_def Let_def
        split: auth_result.splits if_splits option.splits)
  then show ?thesis
  proof cases
    case 1
    then show ?thesis using x a holds_append_none [OF h] sessions_ok_append [OF s] by (simp add: proc_inv_def)
  next
    case 2
    have fr: "dict_get (ad_reservations (rg_admission (wp_registry p))) fresh = None" using assms(2) by simp
    then have "fresh \<notin> set (dict_keys (ad_reservations (rg_admission (wp_registry p))))" by (simp add: map_of_eq_None_iff)
    then have "admission_inv (rg_admission r)" using admission_reserve_inv [OF a] 2(3) by simp
    moreover have "sessions_ok r (wp_handlers p @ [x])"
      by (rule sessions_ok_append [OF sessions_ok_cong [OF s]]) (use 2 s in \<open>simp_all add: sessions_ok_def\<close>)
    ultimately show ?thesis using x holds_append_some [OF h 2(1) fr 2(4)] by (simp add: proc_inv_def)
  qed
qed

lemma admission_release_holds:
  assumes "proc_inv p" "i < length (wp_handlers p)" "held_token (wp_handlers p ! i) = Some t" "held_token h = None" "\<And>t n. vh_stage h \<noteq> VRunning t n"
    "\<And>t. vh_stage (wp_handlers p ! i) \<noteq> VRunning t i"
    and r: "rg_admission r = admission_release t (rg_admission (wp_registry p))" "rg_connections r = rg_connections (wp_registry p)"
      "rg_lease_deadlines r = rg_lease_deadlines (wp_registry p)" "distinct (rg_pending_releases r)"
  shows "proc_inv \<lparr>wp_registry = r, wp_handlers = (wp_handlers p)[i := h]\<rparr>"
proof -
  have a: "admission_inv (rg_admission (wp_registry p))" and h: "holds_exactly (rg_admission (wp_registry p)) (wp_handlers p)"
    and s: "sessions_ok (wp_registry p) (wp_handlers p)"
    using assms(1) by (simp_all add: proc_inv_def)
  have "sessions_ok r ((wp_handlers p)[i := h])"
    by (rule sessions_ok_handler [OF sessions_ok_cong [OF s]]) (use assms in simp_all)
  then show ?thesis using admission_release_inv [OF a] holds_release [OF h assms(2,3,4)] by (simp add: proc_inv_def r(1))
qed

lemma holds_token_kept:
  assumes "proc_inv p" "i < length (wp_handlers p)" "held_token (wp_handlers p ! i) = Some t" "held_token h = Some t" "vh_auth h = vh_auth (wp_handlers p ! i)"
    and r: "rg_admission r = rg_admission (wp_registry p)" "sessions_ok r ((wp_handlers p)[i := h])"
  shows "proc_inv \<lparr>wp_registry = r, wp_handlers = (wp_handlers p)[i := h]\<rparr>"
  using assms holds_same [of "rg_admission (wp_registry p)" "wp_handlers p" h i] by (simp add: proc_inv_def)

lemma release_inv:
  assumes "proc_inv p" "i < length (wp_handlers p)" "held_token (wp_handlers p ! i) = Some t" "\<And>t. vh_stage (wp_handlers p ! i) \<noteq> VRunning t i"
    and h: "held_token h = None" "\<And>t n. vh_stage h \<noteq> VRunning t n"
  shows "proc_inv \<lparr>wp_registry = release_reservation t (wp_registry p), wp_handlers = (wp_handlers p)[i := h]\<rparr>"
    "proc_inv \<lparr>wp_registry = abort_startup auth t (wp_registry p), wp_handlers = (wp_handlers p)[i := h]\<rparr>"
proof -
  have pd: "distinct (rg_pending_releases (wp_registry p))" using assms(1) by (simp add: proc_inv_def sessions_ok_def)
  note R = admission_release_holds [OF assms(1,2,3) h assms(4)]
  show "proc_inv \<lparr>wp_registry = release_reservation t (wp_registry p), wp_handlers = (wp_handlers p)[i := h]\<rparr>"
    by (rule R) (simp_all add: release_reservation_def registry_admission_def pd)
  show "proc_inv \<lparr>wp_registry = abort_startup auth t (wp_registry p), wp_handlers = (wp_handlers p)[i := h]\<rparr>"
    by (rule R) (simp_all add: abort_startup_def release_reservation_def registry_admission_def pd)
qed

lemma voice_consumed_inv:
  assumes "proc_inv p"
  shows "proc_inv (proc_step (PConsumed i answer) p)"
proof (cases "i < length (wp_handlers p)")
  case i: True
  show ?thesis
  proof (cases "vh_stage (wp_handlers p ! i)")
    case (VConsuming t g)
    have held: "held_token (wp_handlers p ! i) = Some t" by (simp add: held_token_def VConsuming)
    have s: "sessions_ok (wp_registry p) (wp_handlers p)" using assms by (simp add: proc_inv_def)
    note R = release_inv [OF assms i held]
    consider "answer = None" | "answer = Some False" | "answer = Some True" by (cases answer) auto
    then show ?thesis
    proof cases
      case 3
      have "sessions_ok (wp_registry p) ((wp_handlers p)[i := (wp_handlers p ! i)\<lparr>vh_stage := VAccepting t\<rparr>])"
        by (rule sessions_ok_handler [OF s]) (simp_all add: VConsuming)
      then have "proc_inv \<lparr>wp_registry = wp_registry p, wp_handlers = (wp_handlers p)[i := (wp_handlers p ! i)\<lparr>vh_stage := VAccepting t\<rparr>]\<rparr>"
        by (intro holds_token_kept [OF assms i held]) simp_all
      then show ?thesis using i 3 VConsuming by (simp add: on_handler_def voice_consumed_def)
    qed (use i VConsuming R in \<open>simp_all add: on_handler_def voice_consumed_def\<close>)
  qed (use assms i in \<open>simp_all add: on_handler_def voice_consumed_def\<close>)
qed (use assms in \<open>simp add: on_handler_def\<close>)

lemma voice_accepted_inv:
  assumes "proc_inv p"
  shows "proc_inv (proc_step (PAccepted i ok) p)"
proof (cases "i < length (wp_handlers p)")
  case i: True
  show ?thesis
  proof (cases "vh_stage (wp_handlers p ! i)")
    case (VAccepting t)
    have held: "held_token (wp_handlers p ! i) = Some t" by (simp add: held_token_def VAccepting)
    have a: "admission_inv (rg_admission (wp_registry p))" and h: "holds_exactly (rg_admission (wp_registry p)) (wp_handlers p)"
      and s: "sessions_ok (wp_registry p) (wp_handlers p)" using assms by (simp_all add: proc_inv_def)
    note R = release_inv [OF assms i held] and O = owns_connectionsD [OF s [unfolded sessions_ok_def, THEN conjunct1]]
    obtain n r where st: "run_start i (vh_auth (wp_handlers p ! i)) t (wp_registry p) = (n, r)" by fastforce
    consider "\<not> ok" | "ok" "n = None" | "ok" "n = Some i" using st by (cases n) (auto simp: run_start_def Let_def split: if_splits)
    then show ?thesis
    proof cases
      case 1
      then show ?thesis using i VAccepting R by (simp add: on_handler_def voice_accepted_def)
    next
      case 2
      then have "r = abort_startup (vh_auth (wp_handlers p ! i)) t (wp_registry p)" using st by (auto simp: run_start_def abort_startup_def Let_def split: if_splits)
      then show ?thesis using i VAccepting R st 2 by (simp add: on_handler_def voice_accepted_def)
    next
      case 3
      have "auth_principal (vh_auth (wp_handlers p ! i)) \<notin> set (dict_keys (rg_connections (wp_registry p)))"
      proof
        assume "auth_principal (vh_auth (wp_handlers p ! i)) \<in> set (dict_keys (rg_connections (wp_registry p)))"
        then obtain m auth where "(auth_principal (vh_auth (wp_handlers p ! i)), m, auth) \<in> set (rg_connections (wp_registry p))" by auto
        from O(2) [OF this] obtain t' where m: "m < length (wp_handlers p)" "vh_stage (wp_handlers p ! m) = VRunning t' m"
          "auth_principal (vh_auth (wp_handlers p ! i)) = auth_principal (vh_auth (wp_handlers p ! m))" by auto
        then have "i = m" by (intro live_unique [OF a h i m(1) held]) (simp_all add: held_token_def)
        then show False using m VAccepting by simp
      qed
      then have "sessions_ok r ((wp_handlers p)[i := (wp_handlers p ! i)\<lparr>vh_stage := VRunning t i\<rparr>])"
        using st 3 by (intro run_start_sessions_ok [OF s i VAccepting]) simp_all
      moreover have "rg_admission r = rg_admission (wp_registry p)"
        using st 3 by (auto simp: run_start_def start_expiry_enforcement_def Let_def split: if_splits option.splits)
      ultimately have "proc_inv \<lparr>wp_registry = r, wp_handlers = (wp_handlers p)[i := (wp_handlers p ! i)\<lparr>vh_stage := VRunning t i\<rparr>]\<rparr>"
        by (intro holds_token_kept [OF assms i held]) simp_all
      then show ?thesis using i VAccepting st 3 by (simp add: on_handler_def voice_accepted_def)
    qed
  qed (use assms i in \<open>simp_all add: on_handler_def voice_accepted_def\<close>)
qed (use assms in \<open>simp add: on_handler_def\<close>)

lemma voice_ended_inv:
  assumes "proc_inv p"
  shows "proc_inv (proc_step (PEnded i) p)"
proof (cases "i < length (wp_handlers p)")
  case i: True
  show ?thesis
  proof (cases "vh_stage (wp_handlers p ! i)")
    case (VRunning t n)
    have held: "held_token (wp_handlers p ! i) = Some t" by (simp add: held_token_def VRunning)
    have a: "admission_inv (rg_admission (wp_registry p))" and h: "holds_exactly (rg_admission (wp_registry p)) (wp_handlers p)"
      and s: "sessions_ok (wp_registry p) (wp_handlers p)" using assms by (simp_all add: proc_inv_def)
    have n: "n = i" using owns_connectionsD(3) [OF s [unfolded sessions_ok_def, THEN conjunct1] i VRunning] .
    have "sessions_ok (snd (run_cleanup i (vh_auth (wp_handlers p ! i)) (wp_registry p))) ((wp_handlers p)[i := (wp_handlers p ! i)\<lparr>vh_stage := VReaping t\<rparr>])"
    proof (rule run_cleanup_sessions_ok [OF s i VRunning [unfolded n]])
      fix j t' assume "j < length (wp_handlers p)" "vh_stage (wp_handlers p ! j) = VRunning t' j"
        "auth_principal (vh_auth (wp_handlers p ! j)) = auth_principal (vh_auth (wp_handlers p ! i))"
      then show "j = i" using live_unique [OF a h _ i _ held] by (simp add: held_token_def)
    qed
    then have "proc_inv \<lparr>wp_registry = snd (run_cleanup i (vh_auth (wp_handlers p ! i)) (wp_registry p)),
        wp_handlers = (wp_handlers p)[i := (wp_handlers p ! i)\<lparr>vh_stage := VReaping t\<rparr>]\<rparr>"
      by (intro holds_token_kept [OF assms i held]) (simp_all add: run_cleanup_fields)
    then show ?thesis using i VRunning n by (simp add: on_handler_def voice_ended_def)
  qed (use assms i in \<open>simp_all add: on_handler_def voice_ended_def\<close>)
qed (use assms in \<open>simp add: on_handler_def\<close>)

lemma voice_released_inv:
  assumes "proc_inv p"
  shows "proc_inv (proc_step (PReleased i) p)"
proof (cases "i < length (wp_handlers p)")
  case i: True
  show ?thesis
  proof (cases "vh_stage (wp_handlers p ! i)")
    case (VReaping t)
    then have held: "held_token (wp_handlers p ! i) = Some t" by (simp add: held_token_def)
    show ?thesis using release_inv(1) [OF assms i held] i VReaping by (simp add: on_handler_def voice_released_def)
  qed (use assms i in \<open>simp_all add: on_handler_def voice_released_def\<close>)
qed (use assms in \<open>simp add: on_handler_def\<close>)

lemma registry_step_inv:
  assumes "proc_inv p" "sessions_ok (f (wp_registry p)) (wp_handlers p)"
    "admission_inv (rg_admission (f (wp_registry p)))" "holds_exactly (rg_admission (f (wp_registry p))) (wp_handlers p)"
  shows "proc_inv (on_registry f p)"
  using assms by (simp add: proc_inv_def on_registry_def)

lemma close_owner_begin_ok: "sessions_ok r hs \<Longrightarrow> sessions_ok (close_owner_begin r) hs \<and> rg_admission (close_owner_begin r) = rg_admission r"
  by (auto simp: close_owner_begin_def Let_def sessions_ok_def owns_connections_def deadlines_ok_def leased_def)

lemma shutdown_ok: "sessions_ok r hs \<Longrightarrow> sessions_ok (shutdown_begin r) hs"
  by (rule sessions_ok_cong) (simp_all add: shutdown_begin_def snapshot_active_lease_releases_def registry_admission_def sessions_ok_def)

lemma proc_step_inv:
  assumes "proc_inv p" "fresh_event p e"
  shows "proc_inv (proc_step e p)"
proof -
  have a: "admission_inv (rg_admission (wp_registry p))" and h: "holds_exactly (rg_admission (wp_registry p)) (wp_handlers p)"
    and s: "sessions_ok (wp_registry p) (wp_handlers p)" and pd: "distinct (rg_pending_releases (wp_registry p))"
    using assms by (simp_all add: proc_inv_def sessions_ok_def)
  note I = registry_step_inv [OF assms(1)]
  show ?thesis
  proof (cases e)
    case (PBegin udp verified fresh)
    then show ?thesis using voice_begin_inv assms by simp
  next
    case (PAnswered now answer b)
    then show ?thesis using heartbeat_answered_inv [OF s a h] by (auto intro!: I)
  next
    case (PExpire now)
    then show ?thesis using revocations_sessions_ok(1) [OF s] revocations_admission(1) [OF s] a h by (auto intro!: I)
  next
    case (PRevokeEpochs es)
    then show ?thesis using revocations_sessions_ok(3) [OF s] revocations_admission(3) [OF s] a h by (auto intro!: I)
  next
    case (PRetired n)
    then show ?thesis using a h pd by (auto intro!: I sessions_ok_cong [OF s] simp: retirement_done_def)
  next
    case PDrain
    then show ?thesis using a h pd
      by (auto intro!: I sessions_ok_cong [OF s] simp: registry_admission_def admission_draining_inv holds_draining)
  next
    case PShutdown
    then show ?thesis using shutdown_ok [OF s] a h
      by (auto intro!: I simp: shutdown_begin_def snapshot_active_lease_releases_def registry_admission_def admission_draining_inv holds_draining)
  next
    case PClose
    then show ?thesis using a h pd by (auto intro!: I sessions_ok_cong [OF s] simp: registry_close_def)
  next
    case PCloseBegin
    then show ?thesis using close_owner_begin_ok [OF s] a h by (auto intro!: I)
  next
    case PCloseEnd
    then show ?thesis using a h pd by (auto intro!: I sessions_ok_cong [OF s] simp: close_owner_end_def)
  qed (use voice_consumed_inv voice_accepted_inv voice_ended_inv voice_released_inv assms in auto)
qed

lemma proc_init_inv: "proc_inv (proc_init n)"
  by (simp add: proc_inv_def proc_init_def registry_init_def admission_init_inv holds_exactly_def sessions_ok_def owns_connections_def deadlines_ok_def
      leased_def) (simp add: admission_init_def)

fun fresh_events :: "proc_event list \<Rightarrow> worker_proc \<Rightarrow> bool" where
  "fresh_events [] p = True"
| "fresh_events (e # es) p \<longleftrightarrow> fresh_event p e \<and> fresh_events es (proc_step e p)"

lemma proc_run_inv: "proc_inv p \<Longrightarrow> fresh_events es p \<Longrightarrow> proc_inv (fold proc_step es p)"
  by (induction es arbitrary: p) (simp_all add: proc_step_inv)

subsection \<open>The limit\<close>

lemma release_max: "ad_max_sessions (rg_admission (release_reservation t r)) = ad_max_sessions (rg_admission r)"
  "ad_max_sessions (rg_admission (abort_startup auth t r)) = ad_max_sessions (rg_admission r)"
  by (simp_all add: release_reservation_def abort_startup_def registry_admission_def admission_release_def split: option.splits)

lemma heartbeat_answered_max:
  assumes "sessions_ok r hs"
  shows "ad_max_sessions (rg_admission (snd (heartbeat_answered now answer h r))) = ad_max_sessions (rg_admission r)"
proof -
  let ?Q = "\<lambda>r'. sessions_ok r' hs \<and> ad_max_sessions (rg_admission r') = ad_max_sessions (rg_admission r)"
  have "?Q (snd (heartbeat_answered now answer h r))"
    by (rule heartbeat_answered_keeps) (use assms revocations_sessions_ok revocations_admission registry_parts_ok in
        \<open>auto simp: admission_set_draining_def\<close>)
  then show ?thesis by simp
qed

lemma on_handler_max:
  assumes "\<And>h r. ad_max_sessions (rg_admission (snd (f h r))) = ad_max_sessions (rg_admission r)"
  shows "ad_max_sessions (rg_admission (wp_registry (on_handler i f p))) = ad_max_sessions (rg_admission (wp_registry p))"
  using assms [of "wp_handlers p ! i" "wp_registry p"] by (simp add: on_handler_def case_prod_beta Let_def)

lemma proc_step_max:
  assumes "proc_inv p"
  shows "ad_max_sessions (rg_admission (wp_registry (proc_step e p))) = ad_max_sessions (rg_admission (wp_registry p))"
proof -
  have s: "sessions_ok (wp_registry p) (wp_handlers p)" using assms by (simp add: proc_inv_def)
  note A = revocations_admission [OF s]
  show ?thesis
  proof (cases e)
    case (PBegin udp verified fresh)
    then show ?thesis
      by (auto simp: voice_begin_def registry_reserve_def admission_reserve_def Let_def split: auth_result.splits if_splits)
  next
    case (PConsumed i answer)
    then show ?thesis
      by (simp, intro on_handler_max) (simp add: voice_consumed_def release_max split: voice_stage.splits option.splits bool.splits)
  next
    case (PAccepted i ok)
    then show ?thesis
      by (simp, intro on_handler_max) (auto simp: voice_accepted_def run_start_def start_expiry_enforcement_def release_max Let_def
          split: voice_stage.splits option.splits)
  next
    case (PEnded i)
    then show ?thesis by (simp, intro on_handler_max) (simp add: voice_ended_def run_cleanup_fields split: voice_stage.splits)
  next
    case (PReleased i)
    then show ?thesis by (simp, intro on_handler_max) (simp add: voice_released_def release_max split: voice_stage.splits)
  next
    case (PAnswered now answer h)
    then show ?thesis using heartbeat_answered_max [OF s] by (simp add: on_registry_def)
  next
    case PCloseBegin
    then show ?thesis using close_owner_begin_ok [OF s] by (simp add: on_registry_def)
  qed (use A in \<open>simp_all add: on_registry_def retirement_done_def registry_admission_def admission_set_draining_def shutdown_begin_def
      snapshot_active_lease_releases_def registry_close_def close_owner_end_def\<close>)
qed

lemma proc_run_max:
  "proc_inv p \<Longrightarrow> fresh_events es p \<Longrightarrow>
    ad_max_sessions (rg_admission (wp_registry (fold proc_step es p))) = ad_max_sessions (rg_admission (wp_registry p))"
  by (induction es arbitrary: p) (simp_all add: proc_step_inv proc_step_max)

section \<open>What the process guarantees\<close>

text \<open>
  C4. Nothing of a worker's capacity leaks. In whatever order connections authenticate, are refused, accepted, fail, end or are
  revoked, and whatever heartbeats, drains and closes happen in between: the reservations of the process are exactly those of the handlers that are
  not through, so all of them are free again once the handlers are; no more handlers than the limit hold one, and no two of them serve the same
  device; and every connection of the registry belongs to a running handler that holds a reservation.
\<close>

theorem reservations_conserved:
  assumes "fresh_events es (proc_init n)"
  shows "let p = fold proc_step es (proc_init n); hs = wp_handlers p; a = rg_admission (wp_registry p) in
    set (dict_keys (ad_reservations a)) = {t. \<exists>i < length hs. held_token (hs ! i) = Some t} \<and>
    int (card {i. i < length hs \<and> held_token (hs ! i) \<noteq> None}) \<le> max 0 n \<and>
    (\<forall>i j t t'. i < length hs \<longrightarrow> j < length hs \<longrightarrow> held_token (hs ! i) = Some t \<longrightarrow> held_token (hs ! j) = Some t' \<longrightarrow>
       auth_principal (vh_auth (hs ! i)) = auth_principal (vh_auth (hs ! j)) \<longrightarrow> i = j) \<and>
    (\<forall>q m auth. (q, m, auth) \<in> set (rg_connections (wp_registry p)) \<longrightarrow>
       m < length hs \<and> vh_auth (hs ! m) = auth \<and> q = auth_principal auth \<and> held_token (hs ! m) \<noteq> None)"
proof -
  define p where "p = fold proc_step es (proc_init n)"
  define hs where "hs = wp_handlers p"
  define a where "a = rg_admission (wp_registry p)"
  have inv: "proc_inv p" using proc_run_inv [OF proc_init_inv assms] by (simp add: p_def)
  then have ai: "admission_inv a" and h: "holds_exactly a hs" and s: "sessions_ok (wp_registry p) hs" by (simp_all add: proc_inv_def a_def hs_def)
  have max: "ad_max_sessions a = n"
    using proc_run_max [OF proc_init_inv assms] by (simp add: p_def a_def proc_init_def registry_init_def admission_init_def)
  note H = holds_exactlyD [OF h]
  have keys: "set (dict_keys (ad_reservations a)) = {t. \<exists>i < length hs. held_token (hs ! i) = Some t}"
  proof -
    have mem: "t \<in> set (dict_keys (ad_reservations a)) \<longleftrightarrow> (\<exists>who. dict_get (ad_reservations a) t = Some who)" for t
      by (metis image_set map_of_eq_None_iff option.exhaust option.simps(3))
    show ?thesis
    proof (intro set_eqI iffI CollectI)
      fix t assume "t \<in> set (dict_keys (ad_reservations a))"
      then show "\<exists>i < length hs. held_token (hs ! i) = Some t" using mem H(2) by blast
    next
      fix t assume "t \<in> {t. \<exists>i < length hs. held_token (hs ! i) = Some t}"
      then show "t \<in> set (dict_keys (ad_reservations a))" using mem H(1) by blast
    qed
  qed
  define I where "I = {i. i < length hs \<and> held_token (hs ! i) \<noteq> None}"
  have "inj_on (\<lambda>i. the (held_token (hs ! i))) I" using H(3) by (auto simp: I_def inj_on_def)
  moreover have "(\<lambda>i. the (held_token (hs ! i))) ` I \<subseteq> set (dict_keys (ad_reservations a))" unfolding keys by (auto simp: I_def)
  ultimately have "card I \<le> card (set (dict_keys (ad_reservations a)))" by (meson List.finite_set card_inj_on_le)
  also have "\<dots> \<le> length (ad_reservations a)" using card_length [of "dict_keys (ad_reservations a)"] by simp
  finally have "int (card I) \<le> max 0 n" using ai max by (simp add: admission_inv_def)
  moreover have "\<forall>i j t t'. i < length hs \<longrightarrow> j < length hs \<longrightarrow> held_token (hs ! i) = Some t \<longrightarrow> held_token (hs ! j) = Some t' \<longrightarrow>
       auth_principal (vh_auth (hs ! i)) = auth_principal (vh_auth (hs ! j)) \<longrightarrow> i = j"
    using live_unique [OF ai h] by blast
  moreover have "\<forall>q m auth. (q, m, auth) \<in> set (rg_connections (wp_registry p)) \<longrightarrow>
       m < length hs \<and> vh_auth (hs ! m) = auth \<and> q = auth_principal auth \<and> held_token (hs ! m) \<noteq> None"
    using owns_connectionsD(2) [OF s [unfolded sessions_ok_def, THEN conjunct1]] by (fastforce simp: held_token_def)
  ultimately show ?thesis using keys by (simp add: Let_def p_def [symmetric] hs_def [symmetric] a_def [symmetric] I_def)
qed


text \<open>A device whose grant is consumed and accepted, a second one refused for lack of capacity, and the end of the first.\<close>

definition lab_auth :: "string \<Rightarrow> auth_context" where
  "lab_auth device = \<lparr>ac_tenant_id = ''t'', ac_device_id = device, ac_allowed_profiles = [''wss-opus/1''], ac_session_epoch = Some (''epoch-'' @ device),
     ac_fencing_token = Some 1, ac_expires_at = None, ac_control_protocol = ''rva/1''\<rparr>"

definition lab_events :: "proc_event list" where
  "lab_events = [PBegin False (VerifiedAuth (lab_auth ''d'') (Some ''g'')) ''r1'', PConsumed 0 (Some True), PAccepted 0 True,
     PBegin False (VerifiedAuth (lab_auth ''e'') None) ''r2'', PEnded 0, PReleased 0, PBegin False (VerifiedAuth (lab_auth ''e'') None) ''r3'']"

theorem reservations_conserved_witness:
  "fresh_events lab_events (proc_init 1) \<and>
   (let p = fold proc_step lab_events (proc_init 1); hs = wp_handlers p; a = rg_admission (wp_registry p) in
     dict_keys (ad_reservations a) = [''r3''] \<and> map vh_stage hs = [VFinished, VClosed 1013 ''session_overloaded'', VAccepting ''r3''] \<and>
     set (dict_keys (ad_reservations a)) = {t. \<exists>i < length hs. held_token (hs ! i) = Some t})"
proof -
  have fresh: "fresh_events lab_events (proc_init 1)" by code_simp
  moreover have "let p = fold proc_step lab_events (proc_init 1); hs = wp_handlers p; a = rg_admission (wp_registry p) in
     dict_keys (ad_reservations a) = [''r3''] \<and> map vh_stage hs = [VFinished, VClosed 1013 ''session_overloaded'', VAccepting ''r3'']"
    by code_simp
  ultimately show ?thesis using reservations_conserved [OF fresh] by (simp add: Let_def)
qed

end
