(* ===== verification/Lease_Promises.thy ===== *)
theory Lease_Promises
  imports Worker_Process
begin

text \<open>
  Leases on both sides. The Director (\<open>session_director/service.py\<close>), over any store that meets its contract, keeps a lease until it
  expires or its holder releases it; a worker process (\<open>realtime_worker/app.py\<close>) relies on a lease only as far as a grant or an answer to a heartbeat said.
\<close>

section \<open>What the Director keeps\<close>

context coordination_store
begin

text \<open>The store holds the lease of a claim for a worker, until \<open>d\<close> at least; all leases end by \<open>e\<close>.\<close>

definition holds :: "'s \<Rightarrow> string \<Rightarrow> lease_renewal \<Rightarrow> real \<Rightarrow> bool" where
  "holds s w c d \<longleftrightarrow> (\<exists>l. leases s (renewal_principal c) = Some l \<and> lease_matches w (lr_session_epoch c) (lr_fencing_token c) l \<and> d \<le> rl_expires_at l)"

definition ends_by :: "real \<Rightarrow> 's \<Rightarrow> bool" where
  "ends_by e s \<longleftrightarrow> (\<forall>p l. leases s p = Some l \<longrightarrow> rl_expires_at l \<le> e)"

lemma holds_unique:
  assumes "holds s w c d" "holds s w' c' d'" "renewal_principal c = renewal_principal c'"
  shows "w = w' \<and> c = c'"
  using assms by (cases c, cases c') (auto simp: holds_def lease_matches_def renewal_principal_def)

lemma holds_cong: "leases s' = leases s \<Longrightarrow> holds s' w c d = holds s w c d"
  by (simp add: holds_def)

lemma ends_by_cong: "leases s' = leases s \<Longrightarrow> ends_by e s' = ends_by e s"
  by (simp add: ends_by_def)

lemma ends_by_mono: "ends_by e s \<Longrightarrow> e \<le> e' \<Longrightarrow> ends_by e' s"
  unfolding ends_by_def by fastforce

lemma acquire_first_keeps:
  fixes req now e fresh i cs s
  assumes "inv s"
  defines "s' \<equiv> snd (acquire_first ops req now e fresh i cs s)"
  shows "inv s' \<and> (ends_by e s \<longrightarrow> ends_by e s') \<and> (now < d \<longrightarrow> holds s w c d \<longrightarrow> holds s' w c d)"
  using assms(1) unfolding s'_def
proof (induction cs arbitrary: s i)
  case (Cons x cs)
  let ?a = "route_args req x (fresh i) now e"
  obtain r s1 where r: "so_acquire_route ops ?a s = (r, s1)" by fastforce
  have a: "aq_now ?a = now" "aq_expires_at ?a = e" by (simp_all add: route_args_def)
  have inv1: "inv s1" using inv_acquire [OF Cons.prems, of ?a] r by simp
  have ends: "ends_by e s \<longrightarrow> ends_by e s1"
    using leases_acquire [OF Cons.prems, of ?a] acquire_granted [OF Cons.prems, of ?a] r a unfolding ends_by_def by fastforce
  have "now < d \<longrightarrow> holds s w c d \<longrightarrow> holds s1 w c d"
    using acquire_keeps [OF Cons.prems, of _ _ ?a] r a unfolding holds_def by fastforce
  then show ?case
    using Cons.IH [OF inv1, of "Suc i"] inv1 ends r by (auto split: sum.splits store_error.splits)
qed simp

lemma bootstrap_keeps:
  fixes E codec cfg now fresh jti req s
  assumes "inv s"
  defines "s' \<equiv> snd (director_bootstrap ops E codec cfg now fresh jti req s)"
  shows "inv s' \<and> (ends_by (now + dc_lease_ttl_seconds cfg) s \<longrightarrow> ends_by (now + dc_lease_ttl_seconds cfg) s') \<and>
    (now < d \<longrightarrow> holds s w c d \<longrightarrow> holds s' w c d)"
proof -
  obtain ws s1 where ws: "so_list_workers ops now s = (ws, s1)" by fastforce
  have s1: "inv s1" "leases s1 = leases s" using inv_list [OF assms(1), of now] others_list [of now s] ws by simp_all
  have "s' = s1 \<or> (\<exists>cs. s' = snd (acquire_first ops req now (now + dc_lease_ttl_seconds cfg) fresh 0 cs s1))"
  proof (cases "candidate_workers ws (br_supported_profiles req) (br_control_protocol req)")
    case (Inr cs)
    obtain r s2 where "acquire_first ops req now (now + dc_lease_ttl_seconds cfg) fresh 0 cs s1 = (r, s2)" by fastforce
    moreover from this have "s' = s2" 
      by (cases r) (auto simp: s'_def director_bootstrap_def ws Inr Let_def split: option.splits)
    ultimately show ?thesis by (metis snd_conv)
  qed (simp add: s'_def director_bootstrap_def ws)
  then show ?thesis
    using acquire_first_keeps [OF s1(1)] s1 holds_cong [OF s1(2)] ends_by_cong [OF s1(2)] by auto
qed

lemma release_claims_keeps:
  fixes w' rs s
  assumes "inv s"
  defines "s' \<equiv> snd (release_claims ops w' rs s)"
  shows "inv s' \<and> (ends_by e s \<longrightarrow> ends_by e s') \<and> (w' = w \<and> c \<in> set rs \<or> (holds s w c d \<longrightarrow> holds s' w c d))"
  using assms(1) unfolding s'_def
proof (induction rs arbitrary: s)
  case (Cons r rs)
  let ?s = "snd (so_release_route_claim ops w' r s)"
  have inv1: "inv ?s" by (rule inv_release_claim [OF Cons.prems])
  note eff = release_claim_effect [OF Cons.prems, of w' r] and iff = release_claim_iff [OF Cons.prems, of w' r]
  have "ends_by e s \<longrightarrow> ends_by e ?s" unfolding ends_by_def eff by simp
  moreover have "w' = w \<and> c = r \<or> (holds s w c d \<longrightarrow> holds ?s w c d)"
  proof (cases "fst (so_release_route_claim ops w' r s) \<and> renewal_principal c = renewal_principal r")
    case True
    then have "holds s w' r (rl_expires_at (the (leases s (renewal_principal r))))" using iff by (auto simp: holds_def)
    then show ?thesis using holds_unique True by blast
  qed (auto simp: holds_def eff)
  ultimately show ?case using Cons.IH [OF inv1] by (auto simp: Let_def case_prod_beta)
qed simp

lemma renew_leases_keeps:
  fixes w' now e rs s
  assumes "inv s" "ends_by e s"
  defines "s' \<equiv> snd (renew_leases ops w' now e rs s)"
  shows "inv s' \<and> ends_by e s' \<and> (holds s w c d \<longrightarrow> holds s' w c d)"
  using assms(1,2) unfolding s'_def
proof (induction rs arbitrary: s)
  case (Cons r rs)
  let ?s = "snd (so_renew_route ops w' r now e s)"
  have inv1: "inv ?s" by (rule inv_renew [OF Cons.prems(1)])
  note eff = renew_effect [OF Cons.prems(1), of w' r now e]
  have "ends_by e ?s" using Cons.prems(2) unfolding ends_by_def eff by (auto split: if_splits)
  moreover have "holds ?s w c d" if h: "holds s w c d"
  proof -
    obtain l where l: "leases s (renewal_principal c) = Some l" "lease_matches w (lr_session_epoch c) (lr_fencing_token c) l" "d \<le> rl_expires_at l"
      using h by (auto simp: holds_def)
    moreover from this have "d \<le> e" using Cons.prems(2) unfolding ends_by_def by fastforce
    ultimately show ?thesis by (auto simp: holds_def eff lease_matches_def)
  qed
  ultimately show ?case using Cons.IH [OF inv1] by (simp add: Let_def case_prod_beta)
qed simp

lemma renew_leases_holds:
  assumes "inv s" "ends_by e s" "c \<in> set rs" "lr_session_epoch c \<notin> set (fst (renew_leases ops w now e rs s))"
  shows "holds (snd (renew_leases ops w now e rs s)) w c e"
  using assms
proof (induction rs arbitrary: s)
  case (Cons r rs)
  let ?s = "snd (so_renew_route ops w r now e s)"
  have K: "inv ?s" "ends_by e ?s"
    using renew_leases_keeps [OF Cons.prems(1,2), of w now "[r]"] by (simp_all add: Let_def case_prod_beta)
  have ok: "fst (so_renew_route ops w r now e s) \<or> lr_session_epoch c \<noteq> lr_session_epoch r"
    and rest: "lr_session_epoch c \<notin> set (fst (renew_leases ops w now e rs ?s))"
    using Cons.prems(4) by (auto simp: Let_def case_prod_beta split: if_splits)
  have eq: "snd (renew_leases ops w now e (r # rs) s) = snd (renew_leases ops w now e rs ?s)" by (simp add: Let_def case_prod_beta)
  show ?case
  proof (cases "c = r")
    case True
    then have "fst (so_renew_route ops w c now e s)" using ok by simp
    then have "holds ?s w c e"
      using renew_iff [OF Cons.prems(1), of w c now e] renew_effect [OF Cons.prems(1), of w c now e] True
      by (auto simp: holds_def lease_matches_def)
    then show ?thesis unfolding eq using renew_leases_keeps [OF K] by blast
  next
    case False
    then show ?thesis unfolding eq using Cons.IH [of ?s] K Cons.prems(3) rest by auto
  qed
qed simp

lemma heartbeat_keeps:
  assumes "inv s" "ends_by (now + dc_lease_ttl_seconds cfg) s" "director_heartbeat ops cfg now h s = (resp, s')"
  shows "inv s' \<and> ends_by (now + dc_lease_ttl_seconds cfg) s'"
    and "holds s w c d \<Longrightarrow> \<not> (w = wh_worker_id h \<and> c \<in> set (wh_released_leases h)) \<Longrightarrow> holds s' w c d"
    and "c \<in> set (wh_active_leases h) \<Longrightarrow> lr_session_epoch c \<notin> set (hr_rejected_session_epochs resp) \<Longrightarrow>
      holds s' (wh_worker_id h) c (hr_lease_expires_at resp)"
proof -
  define e where "e = now + dc_lease_ttl_seconds cfg"
  define s1 where "s1 = snd (so_heartbeat ops h (now + dc_heartbeat_ttl_seconds cfg) s)"
  define s2 where "s2 = snd (release_claims ops (wh_worker_id h) (wh_released_leases h) s1)"
  have s1: "inv s1" "leases s1 = leases s" using inv_heartbeat [OF assms(1)] others_heartbeat by (simp_all add: s1_def)
  note R = release_claims_keeps [OF s1(1), of "wh_worker_id h" "wh_released_leases h", folded s2_def]
  have s2: "inv s2" "ends_by e s2" using R assms(2) ends_by_cong [OF s1(2)] by (auto simp: e_def)
  have s': "s' = snd (renew_leases ops (wh_worker_id h) now e (wh_active_leases h) s2)" and
    resp: "hr_rejected_session_epochs resp = fst (renew_leases ops (wh_worker_id h) now e (wh_active_leases h) s2)" "hr_lease_expires_at resp = e"
    using assms(3) by (auto simp: director_heartbeat_def Let_def case_prod_beta s1_def s2_def e_def)
  show "inv s' \<and> ends_by (now + dc_lease_ttl_seconds cfg) s'" using renew_leases_keeps [OF s2] by (simp add: s' e_def)
  show "holds s w c d \<Longrightarrow> \<not> (w = wh_worker_id h \<and> c \<in> set (wh_released_leases h)) \<Longrightarrow> holds s' w c d"
    using R holds_cong [OF s1(2)] renew_leases_keeps [OF s2] unfolding s' by metis
  show "c \<in> set (wh_active_leases h) \<Longrightarrow> lr_session_epoch c \<notin> set (hr_rejected_session_epochs resp) \<Longrightarrow>
      holds s' (wh_worker_id h) c (hr_lease_expires_at resp)"
    using renew_leases_holds [OF s2] unfolding s' resp by blast
qed

end

section \<open>What a worker promises\<close>

text \<open>The leases a worker relies on, with the time until which it does: those of the credentials of its handlers and its deadlines.\<close>

definition auth_promises :: "auth_context \<Rightarrow> (claim_key \<times> real) set" where
  "auth_promises auth = (case (lease_claim auth, ac_expires_at auth) of (Some c, Some e) \<Rightarrow> {(lease_claim_key c, e)} | _ \<Rightarrow> {})"

definition relied_on :: "worker_proc \<Rightarrow> (claim_key \<times> real) set" where
  "relied_on p = set (rg_lease_deadlines (wp_registry p)) \<union> (\<Union>h \<in> set (wp_handlers p). auth_promises (vh_auth h))"

definition answer_promises :: "heartbeat_response option \<Rightarrow> worker_heartbeat \<Rightarrow> (claim_key \<times> real) set" where
  "answer_promises answer h = (case answer of None \<Rightarrow> {} | Some resp \<Rightarrow> (\<lambda>c. (lease_claim_key c, hr_lease_expires_at resp)) ` set (accepted_claims resp h))"

fun event_promises :: "proc_event \<Rightarrow> (claim_key \<times> real) set" where
  "event_promises (PBegin udp (VerifiedAuth auth g) fresh) = auth_promises auth"
| "event_promises (PAnswered now answer h) = answer_promises answer h"
| "event_promises _ = {}"

lemma revoke_deadlines: "set (rg_lease_deadlines (revoke_claims ks r)) \<subseteq> set (rg_lease_deadlines r)" if "dict_wf (rg_connections r)"
  using revoke_claims_spec(2) [OF that] by auto

lemma revocations_deadlines:
  assumes "dict_wf (rg_connections r)"
  shows "set (rg_lease_deadlines (revoke_expired_leases now r)) \<subseteq> set (rg_lease_deadlines r)"
    "set (rg_lease_deadlines (revoke_lease_claims cs r)) \<subseteq> set (rg_lease_deadlines r)"
    "set (rg_lease_deadlines (revoke_session_epochs es r)) \<subseteq> set (rg_lease_deadlines r)"
  using revoke_deadlines [OF assms] by (simp_all add: revoke_expired_leases_def revoke_lease_claims_def revoke_session_epochs_def)

lemma extend_deadlines:
  "set (rg_lease_deadlines (extend_lease_deadlines now e cs r)) \<subseteq> set (rg_lease_deadlines r) \<union> (\<lambda>c. (lease_claim_key c, e)) ` set cs"
  by (auto simp: extend_lease_deadlines_def split: if_splits)

lemma answered_deadlines:
  assumes "sessions_ok r hs"
  shows "set (rg_lease_deadlines (snd (heartbeat_answered now answer h r))) \<subseteq> set (rg_lease_deadlines r) \<union> answer_promises answer h"
proof -
  let ?Q = "\<lambda>r'. sessions_ok r' hs \<and> set (rg_lease_deadlines r') \<subseteq> set (rg_lease_deadlines r) \<union> answer_promises answer h"
  have "?Q (snd (heartbeat_answered now answer h r))"
  proof (rule heartbeat_answered_keeps)
    fix r' and cs :: "lease_renewal list" assume Q: "?Q r'"
    note D = revocations_deadlines [OF sessions_ok_wf [OF conjunct1 [OF Q]]]
    show "?Q (revoke_expired_leases now r')" "?Q (revoke_lease_claims cs r')"
      using Q D revocations_sessions_ok by blast+
    show "?Q (acknowledge_lease_releases (wh_released_leases h) r')" "?Q (registry_admission (admission_set_draining True) r')"
      using Q registry_parts_ok(2,3) by (auto simp: acknowledge_lease_releases_def registry_admission_def)
    fix resp assume a: "answer = Some resp"
    show "?Q (extend_lease_deadlines now (hr_lease_expires_at resp) (accepted_claims resp h) r')"
      using Q registry_parts_ok(1) extend_deadlines [of now "hr_lease_expires_at resp" "accepted_claims resp h" r'] by (fastforce simp: answer_promises_def a)
  qed (use assms in simp)
  then show ?thesis by simp
qed

lemma on_handler_relied:
  assumes "\<And>h r. vh_auth (fst (f h r)) = vh_auth h \<and> set (rg_lease_deadlines (snd (f h r))) \<subseteq> set (rg_lease_deadlines r) \<union> auth_promises (vh_auth h)"
  shows "relied_on (on_handler i f p) \<subseteq> relied_on p"
proof (cases "i < length (wp_handlers p)")
  case True
  let ?h = "wp_handlers p ! i" and ?r = "wp_registry p"
  note A = assms [of ?h ?r]
  have "set ((wp_handlers p)[i := fst (f ?h ?r)]) \<subseteq> insert (fst (f ?h ?r)) (set (wp_handlers p))" by (rule set_update_subset_insert)
  moreover have "?h \<in> set (wp_handlers p)" using True by simp
  ultimately show ?thesis using True A by (fastforce simp: relied_on_def on_handler_def Let_def case_prod_beta)
qed (simp add: on_handler_def)

lemma handler_relied:
  "vh_auth (fst (voice_consumed answer h r)) = vh_auth h \<and> set (rg_lease_deadlines (snd (voice_consumed answer h r))) \<subseteq> set (rg_lease_deadlines r) \<union> auth_promises (vh_auth h)"
  "vh_auth (fst (voice_accepted ok n h r)) = vh_auth h \<and>
     set (rg_lease_deadlines (snd (voice_accepted ok n h r))) \<subseteq> set (rg_lease_deadlines r) \<union> auth_promises (vh_auth h)"
  "vh_auth (fst (voice_ended h r)) = vh_auth h \<and> set (rg_lease_deadlines (snd (voice_ended h r))) \<subseteq> set (rg_lease_deadlines r) \<union> auth_promises (vh_auth h)"
  "vh_auth (fst (voice_released h r)) = vh_auth h \<and> set (rg_lease_deadlines (snd (voice_released h r))) \<subseteq> set (rg_lease_deadlines r) \<union> auth_promises (vh_auth h)"
proof -
  have rel: "rg_lease_deadlines (release_reservation t r) = rg_lease_deadlines r" "rg_lease_deadlines (abort_startup auth t r) = rg_lease_deadlines r" for t auth r
    by (simp_all add: abort_startup_def release_reservation_def registry_admission_def)
  have upd: "set (dict_set k v d) \<subseteq> insert (k, v) (set d)" for k :: claim_key and v :: real and d by (rule dict_set_subset)
  show "vh_auth (fst (voice_consumed answer h r)) = vh_auth h \<and> set (rg_lease_deadlines (snd (voice_consumed answer h r))) \<subseteq> set (rg_lease_deadlines r) \<union> auth_promises (vh_auth h)"
    by (simp add: voice_consumed_def rel split: voice_stage.splits option.splits bool.splits)
  show "vh_auth (fst (voice_ended h r)) = vh_auth h \<and> set (rg_lease_deadlines (snd (voice_ended h r))) \<subseteq> set (rg_lease_deadlines r) \<union> auth_promises (vh_auth h)"
    by (auto simp: voice_ended_def run_cleanup_fields dict_pop_mem split: voice_stage.splits option.splits)
  show "vh_auth (fst (voice_released h r)) = vh_auth h \<and> set (rg_lease_deadlines (snd (voice_released h r))) \<subseteq> set (rg_lease_deadlines r) \<union> auth_promises (vh_auth h)"
    by (simp add: voice_released_def rel split: voice_stage.splits)
  have st: "set (rg_lease_deadlines (snd (run_start n auth t r))) \<subseteq> set (rg_lease_deadlines r) \<union> auth_promises auth" for auth t
  proof (cases "rg_closing r \<or> rg_closed r")
    case False
    then show ?thesis
      using upd [of _ _ "rg_lease_deadlines r"] by (auto simp: run_start_def start_expiry_enforcement_def auth_promises_def Let_def split: option.splits)
  qed (simp add: run_start_def rel)
  show "vh_auth (fst (voice_accepted ok n h r)) = vh_auth h \<and>
     set (rg_lease_deadlines (snd (voice_accepted ok n h r))) \<subseteq> set (rg_lease_deadlines r) \<union> auth_promises (vh_auth h)"
  proof (cases "vh_stage h")
    case (VAccepting t)
    obtain x r' where "run_start n (vh_auth h) t r = (x, r')" by fastforce
    then show ?thesis using st [of "vh_auth h" t] by (simp add: voice_accepted_def VAccepting rel split: option.splits)
  qed (simp_all add: voice_accepted_def)
qed

lemma voice_begin_promises:
  "rg_lease_deadlines (snd (voice_begin udp verified fresh r)) = rg_lease_deadlines r \<and>
   auth_promises (vh_auth (fst (voice_begin udp verified fresh r))) = (case verified of VerifiedAuth auth _ \<Rightarrow> auth_promises auth | _ \<Rightarrow> {})"
proof (cases verified)
  case (VerifiedAuth auth g)
  obtain x r1 where x: "registry_reserve fresh auth r = (x, r1)" by fastforce
  then have "rg_lease_deadlines r1 = rg_lease_deadlines r"
    by (auto simp: registry_reserve_def admission_reserve_def Let_def split: if_splits)
  then show ?thesis by (simp add: voice_begin_def VerifiedAuth x Let_def del: Int_insert_left split: option.splits)
qed (simp_all add: voice_begin_def rejected_handler_def auth_promises_def lease_claim_def)

lemma proc_step_relied:
  assumes "proc_inv p"
  shows "relied_on (proc_step e p) \<subseteq> relied_on p \<union> event_promises e"
proof -
  have s: "sessions_ok (wp_registry p) (wp_handlers p)" using assms by (simp add: proc_inv_def)
  note D = revocations_deadlines [OF sessions_ok_wf [OF s]]
  have on_reg: "relied_on (on_registry f p) \<subseteq> relied_on p \<union> X"
    if "set (rg_lease_deadlines (f (wp_registry p))) \<subseteq> set (rg_lease_deadlines (wp_registry p)) \<union> X" for f X
    using that by (auto simp: relied_on_def on_registry_def)
  show ?thesis
  proof (cases e)
    case (PBegin udp verified fresh)
    have "auth_promises (vh_auth (fst (voice_begin udp verified fresh r))) \<subseteq> event_promises e" for r
      by (cases verified) (auto simp: voice_begin_promises PBegin)
    moreover note voice_begin_promises [of udp verified fresh]
    ultimately show ?thesis by (auto simp: PBegin relied_on_def case_prod_beta)
  next
    case (PAnswered now answer h)
    then show ?thesis using on_reg [of "\<lambda>r. snd (heartbeat_answered now answer h r)", OF answered_deadlines [OF s]] by simp
  next
    case (PConsumed i answer)
    then show ?thesis by (simp add: on_handler_relied [OF handler_relied(1)])
  next
    case (PAccepted i ok)
    then show ?thesis by (simp add: on_handler_relied [OF handler_relied(2)])
  next
    case (PEnded i)
    then show ?thesis by (simp add: on_handler_relied [OF handler_relied(3)])
  next
    case (PReleased i)
    then show ?thesis by (simp add: on_handler_relied [OF handler_relied(4)])
  next
    case (PExpire now)
    then show ?thesis using on_reg [of "revoke_expired_leases now" "{}"] D(1) by simp
  next
    case (PRevokeEpochs es)
    then show ?thesis using on_reg [of "revoke_session_epochs es" "{}"] D(3) by simp
  next
    case PCloseBegin
    then show ?thesis by (auto simp: relied_on_def on_registry_def close_owner_begin_def Let_def)
  qed (simp_all add: relied_on_def on_registry_def retirement_done_def registry_admission_def shutdown_begin_def snapshot_active_lease_releases_def
      registry_close_def close_owner_end_def)
qed

end
