(* ===== verification/Route_Exclusion.thy ===== *)
theory Route_Exclusion
  imports Lease_Promises
begin

text \<open>
  Director and workers together: the Director's service over its store (\<open>session_director/service.py\<close>), worker processes
  (\<open>realtime_worker/app.py\<close>) with the connections that present its grants, and heartbeats whose requests and answers may be lost,
  repeated, delayed and reordered. A route that is leased to one worker is not served by another.
\<close>

section \<open>The fleet\<close>

text \<open>
  What all parts are configured with: the Director's times, the codec and its key, and the settings of the workers. A worker is named by its id.
\<close>

record fleet_config =
  fc_director :: director_config
  fc_env :: codec_env
  fc_codec :: grant_codec
  fc_settings :: worker_settings
  fc_lab_token :: "string option"

text \<open>
  One clock, the Director's store, the workers, and the heartbeats and answers on their way. Two histories: the claims the Director signed, and
  the leases it was asked to release.
\<close>

record fleet =
  fl_now :: real
  fl_store :: memory_store
  fl_workers :: "string \<Rightarrow> worker_proc"
  fl_requests :: "(string \<times> worker_heartbeat) list"
  fl_answers :: "(string \<times> worker_heartbeat \<times> heartbeat_response) list"
  fl_issued :: "connect_grant_claims list"
  fl_released :: "(string \<times> lease_renewal) list"

datatype fleet_event =
    FTick real
  | FBootstrap bootstrap_request "nat \<Rightarrow> string" string
  | FConsume string string string
  | FRelease route_release_request
  | FSetDraining string bool
  | FConnect string "string option" "string option" string
  | FWorker string proc_event
  | FSend string bool bool
  | FDeliver nat
  | FAnswer nat

definition worker_authenticator_of :: "fleet_config \<Rightarrow> string \<Rightarrow> worker_authenticator" where
  "worker_authenticator_of P w = \<lparr>wa_worker_id = w, wa_rva_udp_enabled = wt_rva_udp_enabled (fc_settings P), wa_lab_token = fc_lab_token P,
     wa_codec = fc_codec P\<rparr>"

definition on_worker :: "string \<Rightarrow> proc_event \<Rightarrow> fleet \<Rightarrow> fleet" where
  "on_worker w e F = F\<lparr>fl_workers := (fl_workers F)(w := proc_step e (fl_workers F w))\<rparr>"

definition connect_event :: "fleet_config \<Rightarrow> string \<Rightarrow> string option \<Rightarrow> string option \<Rightarrow> string \<Rightarrow> fleet \<Rightarrow> proc_event" where
  "connect_event P w authorization device fresh F = PBegin (wt_rva_udp_enabled (fc_settings P))
     (auth_verify (fc_env P) (worker_authenticator_of P w) (fl_now F) authorization device ''rva/1'') fresh"

fun fleet_step :: "fleet_config \<Rightarrow> fleet_event \<Rightarrow> fleet \<Rightarrow> fleet" where
  "fleet_step P (FTick t) F = F\<lparr>fl_now := fl_now F + max 0 t\<rparr>"
| "fleet_step P (FBootstrap req fresh jti) F =
    (let (r, s) = director_bootstrap memory_ops (fc_env P) (fc_codec P) (fc_director P) (fl_now F) fresh jti req (fl_store F)
     in F\<lparr>fl_store := s, fl_issued := (case r of Inr resp \<Rightarrow> [signed_claims (fl_now F) jti req resp] | Inl _ \<Rightarrow> []) @ fl_issued F\<rparr>)"
| "fleet_step P (FConsume token w device) F =
    F\<lparr>fl_store := snd (director_consume_grant memory_ops (fc_env P) (fc_codec P) (fl_now F) token w device (fl_store F))\<rparr>"
| "fleet_step P (FRelease req) F = F\<lparr>fl_store := snd (director_release memory_ops req (fl_store F)),
     fl_released := (rq_worker_id req, \<lparr>lr_tenant_id = rq_tenant_id req, lr_device_id = rq_device_id req, lr_session_epoch = rq_session_epoch req,
       lr_fencing_token = rq_fencing_token req\<rparr>) # fl_released F\<rparr>"
| "fleet_step P (FSetDraining w b) F = F\<lparr>fl_store := snd (director_set_draining memory_ops (fl_now F) w b (fl_store F))\<rparr>"
| "fleet_step P (FConnect w authorization device fresh) F = on_worker w (connect_event P w authorization device fresh F) F"
| "fleet_step P (FWorker w e) F = on_worker w e F"
| "fleet_step P (FSend w udp_ready provider_healthy) F = F\<lparr>fl_requests := (w, heartbeat_payload ((fc_settings P)\<lparr>wt_worker_id := w\<rparr>) udp_ready provider_healthy
     (wp_registry (fl_workers F w))) # fl_requests F\<rparr>"
| "fleet_step P (FDeliver i) F = (if i < length (fl_requests F) then
     let (w, h) = fl_requests F ! i; (resp, s) = director_heartbeat memory_ops (fc_director P) (fl_now F) h (fl_store F)
     in F\<lparr>fl_store := s, fl_answers := (w, h, resp) # fl_answers F, fl_released := map (Pair w) (wh_released_leases h) @ fl_released F\<rparr> else F)"
| "fleet_step P (FAnswer i) F = (if i < length (fl_answers F) then
     let (w, h, resp) = fl_answers F ! i in on_worker w (PAnswered (fl_now F) (Some resp) h) F else F)"

text \<open>
  What the runs assume. Reservation ids are fresh; a grant that verifies under the Director's key was signed by the Director; and a worker sees no answer
  but those on their way. Grants are consumed or not as one likes: the conclusion does not rest on it.
\<close>

fun fleet_guard :: "fleet_config \<Rightarrow> fleet_event \<Rightarrow> fleet \<Rightarrow> bool" where
  "fleet_guard P (FConnect w authorization device fresh) F \<longleftrightarrow> fresh_event (fl_workers F w) (connect_event P w authorization device fresh F) \<and>
     (case (authorization, device) of (Some a, Some d) \<Rightarrow>
        (case grant_verify (fc_env P) (fc_codec P) (fl_now F) (bearer_value a) (Some w) (Some d) of Inr claims \<Rightarrow> claims \<in> set (fl_issued F) | Inl _ \<Rightarrow> True)
      | _ \<Rightarrow> True)"
| "fleet_guard P (FWorker w e) F \<longleftrightarrow> (case e of PBegin _ _ _ \<Rightarrow> False | PAnswered _ answer _ \<Rightarrow> answer = None | _ \<Rightarrow> True)"
| "fleet_guard P _ F \<longleftrightarrow> True"

fun fleet_guards :: "fleet_config \<Rightarrow> fleet_event list \<Rightarrow> fleet \<Rightarrow> bool" where
  "fleet_guards P [] F = True"
| "fleet_guards P (e # es) F \<longleftrightarrow> fleet_guard P e F \<and> fleet_guards P es (fleet_step P e F)"

definition fleet_init :: "real \<Rightarrow> int \<Rightarrow> fleet" where
  "fleet_init now max_sessions = \<lparr>fl_now = now, fl_store = memory_init, fl_workers = (\<lambda>w. proc_init max_sessions), fl_requests = [], fl_answers = [],
     fl_issued = [], fl_released = []\<rparr>"

section \<open>Every promise is kept\<close>

definition grant_lease :: "connect_grant_claims \<Rightarrow> lease_renewal" where
  "grant_lease cl = \<lparr>lr_tenant_id = cg_tenant_id cl, lr_device_id = cg_device_id cl, lr_session_epoch = cg_session_epoch cl, lr_fencing_token = cg_fencing_token cl\<rparr>"

text \<open>A worker is told, or has taken note, that a lease is its own until \<open>d\<close>.\<close>

inductive promised :: "fleet \<Rightarrow> string \<Rightarrow> lease_renewal \<Rightarrow> real \<Rightarrow> bool" for F where
  by_grant: "cl \<in> set (fl_issued F) \<Longrightarrow> promised F (cg_worker_id cl) (grant_lease cl) (cg_exp cl)"
| by_answer: "(w, h, resp) \<in> set (fl_answers F) \<Longrightarrow> c \<in> set (accepted_claims resp h) \<Longrightarrow> promised F w c (hr_lease_expires_at resp)"
| by_worker: "(lease_claim_key c, d) \<in> relied_on (fl_workers F w) \<Longrightarrow> promised F w c d"

definition kept :: "fleet \<Rightarrow> string \<Rightarrow> lease_renewal \<Rightarrow> real \<Rightarrow> bool" where
  "kept F w c d \<longleftrightarrow> d \<le> fl_now F \<or> (w, c) \<in> set (fl_released F) \<or> memory.holds (fl_store F) w c d"

definition store_ok :: "fleet_config \<Rightarrow> fleet \<Rightarrow> bool" where
  "store_ok P F \<longleftrightarrow> memory_inv (fl_store F) \<and> memory.ends_by (fl_now F + dc_lease_ttl_seconds (fc_director P)) (fl_store F) \<and>
     (\<forall>w h. (w, h) \<in> set (fl_requests F) \<longrightarrow> wh_worker_id h = w)"

definition fleet_inv :: "fleet_config \<Rightarrow> fleet \<Rightarrow> bool" where
  "fleet_inv P F \<longleftrightarrow> store_ok P F \<and> (\<forall>w. proc_inv (fl_workers F w)) \<and> (\<forall>w c d. promised F w c d \<longrightarrow> kept F w c d)"

lemma on_worker_fields [simp]:
  "fl_now (on_worker w e F) = fl_now F" "fl_store (on_worker w e F) = fl_store F" "fl_requests (on_worker w e F) = fl_requests F"
  "fl_answers (on_worker w e F) = fl_answers F" "fl_issued (on_worker w e F) = fl_issued F" "fl_released (on_worker w e F) = fl_released F"
  "fl_workers (on_worker w e F) = (fl_workers F)(w := proc_step e (fl_workers F w))"
  by (simp_all add: on_worker_def)

text \<open>What the store holds after a bootstrap is what the grant says.\<close>

lemma bootstrap_held:
  assumes "memory_inv s" "director_bootstrap memory_ops E codec cfg now fresh jti req s = (Inr resp, s')"
  shows "memory.holds s' (bs_worker_id resp) (grant_lease (signed_claims now jti req resp)) (bs_expires_at resp)"
    "bs_connect_grant resp = grant_issue E codec (signed_claims now jti req resp)"
proof -
  from memory.bootstrap_lease [OF assms] obtain c l where
    "memory_lease s' (request_principal req) = Some l" "rl_worker_id l = bs_worker_id resp" "rl_expires_at l = bs_expires_at resp"
    "rl_session_epoch l = bs_session_epoch resp" "rl_fencing_token l = bs_fencing_token resp" and
    g: "bs_connect_grant resp = grant_issue E codec (bootstrap_claims req c l now (now + dc_lease_ttl_seconds cfg) jti)"
    "bs_worker_id resp = wh_worker_id (fst c)" "bs_allowed_profiles resp = snd (snd c)" "bs_expires_at resp = now + dc_lease_ttl_seconds cfg"
    by auto
  then show "memory.holds s' (bs_worker_id resp) (grant_lease (signed_claims now jti req resp)) (bs_expires_at resp)"
    "bs_connect_grant resp = grant_issue E codec (signed_claims now jti req resp)"
    by (simp_all add: memory.holds_def lease_matches_def grant_lease_def signed_claims_def renewal_principal_def request_principal_def bootstrap_claims_def)
qed

text \<open>The Director's other operations keep the leases.\<close>

lemma director_frames:
  assumes "memory_inv s"
  shows "memory_inv (snd (director_consume_grant memory_ops E codec now token w device s))"
    "memory_lease (snd (director_consume_grant memory_ops E codec now token w device s)) = memory_lease s"
    "memory_inv (snd (director_set_draining memory_ops now w b s))" "memory_lease (snd (director_set_draining memory_ops now w b s)) = memory_lease s"
    "memory_inv (snd (director_release memory_ops req s))"
proof -
  show "memory_inv (snd (director_consume_grant memory_ops E codec now token w device s))"
    "memory_lease (snd (director_consume_grant memory_ops E codec now token w device s)) = memory_lease s"
    using assms memory.inv_consume [OF assms] memory.others_consume
    by (simp_all add: director_consume_grant_def case_prod_beta Let_def split: sum.splits grant_error.splits)
  show "memory_inv (snd (director_set_draining memory_ops now w b s))" "memory_lease (snd (director_set_draining memory_ops now w b s)) = memory_lease s"
    using memory.inv_draining [OF assms] memory.others_draining by (simp_all add: director_set_draining_def)
  show "memory_inv (snd (director_release memory_ops req s))"
    using memory.inv_release_claim [OF assms] by (simp add: director_release_def)
qed

lemma store_step:
  assumes "store_ok P F"
  shows "store_ok P (fleet_step P e F) \<and> (kept F w c d \<longrightarrow> kept (fleet_step P e F) w c d)"
proof -
  let ?s = "fl_store F" and ?ttl = "dc_lease_ttl_seconds (fc_director P)"
  have inv: "memory_inv ?s" and ends: "memory.ends_by (fl_now F + ?ttl) ?s" and req: "\<And>w h. (w, h) \<in> set (fl_requests F) \<Longrightarrow> wh_worker_id h = w"
    using assms by (auto simp: store_ok_def)
  show ?thesis
  proof (cases e)
    case (FTick t)
    then show ?thesis
      using inv req memory.ends_by_mono [OF ends, of "fl_now F + max 0 t + ?ttl"] by (auto simp: store_ok_def kept_def)
  next
    case (FBootstrap b fresh jti)
    obtain r s' where s': "director_bootstrap memory_ops (fc_env P) (fc_codec P) (fc_director P) (fl_now F) fresh jti b ?s = (r, s')" by fastforce
    show ?thesis
      using memory.bootstrap_keeps [OF inv, of "fc_env P" "fc_codec P" "fc_director P" "fl_now F" fresh jti b d w c] ends req s'
      by (auto simp: FBootstrap store_ok_def kept_def)
  next
    case (FConsume token w' device)
    note D = director_frames(1,2) [OF inv, of "fc_env P" "fc_codec P" "fl_now F" token w' device]
    show ?thesis using D(1) ends req memory.holds_cong [OF D(2)] memory.ends_by_cong [OF D(2)] by (auto simp: FConsume store_ok_def kept_def)
  next
    case (FSetDraining w' b)
    note D = director_frames(3,4) [OF inv, of "fl_now F" w' b]
    show ?thesis using D(1) ends req memory.holds_cong [OF D(2)] memory.ends_by_cong [OF D(2)] by (auto simp: FSetDraining store_ok_def kept_def)
  next
    case (FRelease rq)
    note K = memory.release_claims_keeps [OF inv, of "rq_worker_id rq" "[\<lparr>lr_tenant_id = rq_tenant_id rq, lr_device_id = rq_device_id rq,
      lr_session_epoch = rq_session_epoch rq, lr_fencing_token = rq_fencing_token rq\<rparr>]" "fl_now F + ?ttl" w c d]
    then show ?thesis using ends req by (auto simp: FRelease store_ok_def kept_def director_release_def case_prod_beta)
  next
    case (FDeliver i)
    show ?thesis
    proof (cases "i < length (fl_requests F)")
      case True
      obtain w' h where wh: "fl_requests F ! i = (w', h)" by fastforce
      obtain resp s' where s': "director_heartbeat memory_ops (fc_director P) (fl_now F) h ?s = (resp, s')" by fastforce
      have w': "wh_worker_id h = w'" using req nth_mem [OF True] wh by simp
      show ?thesis using memory.heartbeat_keeps(1,2) [OF inv ends s'] req True wh s' w' by (auto simp: FDeliver store_ok_def kept_def)
    qed (use assms in \<open>simp add: FDeliver\<close>)
  next
    case (FSend w' udp prov)
    then show ?thesis using assms by (auto simp: store_ok_def kept_def heartbeat_payload_def Let_def)
  next
    case (FAnswer i)
    then show ?thesis using assms by (auto simp: store_ok_def kept_def case_prod_beta Let_def)
  qed (use assms in \<open>simp_all add: store_ok_def kept_def\<close>)
qed

text \<open>A grant that verifies at a worker carries a lease the Director signed for that worker.\<close>

lemma connect_promises:
  assumes g: "fleet_guard P (FConnect w authorization device fresh) F"
    and c: "(lease_claim_key c, d) \<in> event_promises (connect_event P w authorization device fresh F)"
  shows "promised F w c d"
proof -
  define v where "v = auth_verify (fc_env P) (worker_authenticator_of P w) (fl_now F) authorization device ''rva/1''"
  obtain auth gr where auth: "v = VerifiedAuth auth gr" "(lease_claim_key c, d) \<in> auth_promises auth"
    using c by (cases v) (auto simp: connect_event_def v_def)
  obtain a dev where ad: "authorization = Some a" "device = Some dev" using auth(1) by (auto simp: v_def auth_verify_def split: option.splits)
  obtain claims where cl: "grant_verify (fc_env P) (fc_codec P) (fl_now F) (bearer_value a) (Some w) (Some dev) = Inr claims"
    "ac_tenant_id auth = cg_tenant_id claims" "ac_device_id auth = cg_device_id claims" "ac_session_epoch auth = Some (cg_session_epoch claims)"
    "ac_fencing_token auth = Some (cg_fencing_token claims)" "ac_expires_at auth = Some (cg_exp claims)"
    using auth ad by (auto simp: v_def auth_verify_def worker_authenticator_of_def auth_promises_def lease_claim_def Let_def
        split: if_splits sum.splits grant_error.splits)
  have "claims \<in> set (fl_issued F)" using g cl(1) by (simp add: ad)
  moreover have "cg_worker_id claims = w" using grant_verify_sound [OF cl(1)] by blast
  moreover have "c = grant_lease claims" "d = cg_exp claims"
    using auth(2) cl(2-) by (auto simp: auth_promises_def lease_claim_def grant_lease_def)
  ultimately show ?thesis using promised.by_grant by blast
qed

lemma promised_on_worker:
  assumes "promised (on_worker w' e F) w c d" "proc_inv (fl_workers F w')"
  shows "promised F w c d \<or> w = w' \<and> (lease_claim_key c, d) \<in> event_promises e"
  using assms(1)
proof cases
  case by_worker
  then show ?thesis using proc_step_relied [OF assms(2), of e] by (cases "w = w'") (auto intro: promised.by_worker)
qed (auto intro: promised.intros)

lemma promised_cong:
  assumes "promised F' w c d" "set (fl_issued F') \<subseteq> set (fl_issued F)" "set (fl_answers F') \<subseteq> set (fl_answers F)" "fl_workers F' = fl_workers F"
  shows "promised F w c d"
  using assms(1) by cases (use assms(2-) in \<open>auto intro: promised.intros\<close>)

lemma promised_step:
  assumes inv: "fleet_inv P F" and g: "fleet_guard P e F" and p: "promised (fleet_step P e F) w c d"
  shows "promised F w c d \<or> memory.holds (fl_store (fleet_step P e F)) w c d"
proof -
  let ?s = "fl_store F"
  have mem: "memory_inv ?s" and ends: "memory.ends_by (fl_now F + dc_lease_ttl_seconds (fc_director P)) ?s"
    and req: "\<And>w h. (w, h) \<in> set (fl_requests F) \<Longrightarrow> wh_worker_id h = w" and proc: "\<And>w. proc_inv (fl_workers F w)"
    using inv by (auto simp: fleet_inv_def store_ok_def)
  show ?thesis
  proof (cases e)
    case (FBootstrap b fresh jti)
    obtain r s' where s': "director_bootstrap memory_ops (fc_env P) (fc_codec P) (fc_director P) (fl_now F) fresh jti b ?s = (r, s')" by fastforce
    from p show ?thesis
    proof cases
      case (by_grant cl)
      then consider "cl \<in> set (fl_issued F)" | resp where "r = Inr resp" "cl = signed_claims (fl_now F) jti b resp"
        by (auto simp: FBootstrap s' split: sum.splits)
      then show ?thesis
      proof cases
        case 2
        then show ?thesis using bootstrap_held(1) [OF mem] s' by_grant by (simp add: FBootstrap signed_claims_def)
      qed (use by_grant promised.by_grant in auto)
    qed (auto simp: FBootstrap s' intro: promised.intros)
  next
    case (FDeliver i)
    show ?thesis
    proof (cases "i < length (fl_requests F)")
      case True
      obtain w' h where wh: "fl_requests F ! i = (w', h)" by fastforce
      obtain resp s' where s': "director_heartbeat memory_ops (fc_director P) (fl_now F) h ?s = (resp, s')" by fastforce
      have w': "wh_worker_id h = w'" using req nth_mem [OF True] wh by simp
      from p show ?thesis
      proof cases
        case (by_answer h' resp')
        then consider "(w, h', resp') \<in> set (fl_answers F)" | "w = w'" "h' = h" "resp' = resp" by (auto simp: FDeliver True wh s')
        then show ?thesis
        proof cases
          case 2
          then show ?thesis using memory.heartbeat_keeps(3) [OF mem ends s', of c] by_answer w'
            by (simp add: FDeliver True wh s' accepted_claims_def)
        qed (use by_answer promised.by_answer in auto)
      qed (auto simp: FDeliver True wh s' intro: promised.intros)
    qed (use p in \<open>simp add: FDeliver\<close>)
  next
    case (FConnect w' authorization device fresh)
    then show ?thesis using promised_on_worker [of w' _ F w c d] connect_promises g p proc by fastforce
  next
    case (FWorker w' x)
    moreover from g FWorker have "event_promises x = {}" by (cases x) (auto simp: answer_promises_def)
    ultimately show ?thesis using promised_on_worker [of w' x F w c d] p proc by auto
  next
    case (FAnswer i)
    show ?thesis
    proof (cases "i < length (fl_answers F)")
      case True
      obtain w' h resp where a: "fl_answers F ! i = (w', h, resp)" by (cases "fl_answers F ! i") auto
      have "(w', h, resp) \<in> set (fl_answers F)" using nth_mem [OF True] a by simp
      moreover have "promised (on_worker w' (PAnswered (fl_now F) (Some resp) h) F) w c d" using p by (simp add: FAnswer True a)
      from promised_on_worker [OF this proc]
      have "promised F w c d \<or> w = w' \<and> d = hr_lease_expires_at resp \<and> c \<in> set (accepted_claims resp h)" by (auto simp: answer_promises_def)
      ultimately show ?thesis using promised.by_answer by blast
    qed (use p in \<open>simp add: FAnswer\<close>)
  qed (use p in \<open>auto intro: promised_cong\<close>)
qed

lemma fleet_step_inv:
  assumes inv: "fleet_inv P F" and g: "fleet_guard P e F"
  shows "fleet_inv P (fleet_step P e F)"
proof -
  have ok: "store_ok P F" and proc: "\<And>w. proc_inv (fl_workers F w)" and keep: "\<And>w c d. promised F w c d \<Longrightarrow> kept F w c d"
    using inv by (auto simp: fleet_inv_def)
  note S = store_step [OF ok, of e]
  have "kept (fleet_step P e F) w c d" if "promised (fleet_step P e F) w c d" for w c d
    using promised_step [OF inv g that] keep S unfolding kept_def by blast
  moreover have "proc_inv (fl_workers (fleet_step P e F) w)" for w
  proof (cases e)
    case (FWorker w' x)
    then have "fresh_event (fl_workers F w') x" using g by (cases x) auto
    then show ?thesis using proc proc_step_inv FWorker by simp
  next
    case (FAnswer i)
    then show ?thesis using proc proc_step_inv by (simp add: case_prod_beta Let_def del: proc_step.simps)
  qed (use proc proc_step_inv g in \<open>auto simp: case_prod_beta Let_def\<close>)
  ultimately show ?thesis using S by (simp add: fleet_inv_def)
qed

lemma fleet_init_inv: "fleet_inv P (fleet_init now n)"
proof -
  have "\<not> promised (fleet_init now n) w c d" for w c d
    by (rule notI, erule promised.cases) (auto simp: fleet_init_def relied_on_def proc_init_def registry_init_def)
  then show ?thesis
    using memory_init_inv by (simp add: fleet_inv_def store_ok_def fleet_init_def proc_init_inv memory.ends_by_def memory_lease_def) (simp add: memory_init_def)
qed

lemma fleet_run_inv: "fleet_inv P F \<Longrightarrow> fleet_guards P es F \<Longrightarrow> fleet_inv P (fold (fleet_step P) es F)"
  by (induction es arbitrary: F) (simp_all add: fleet_step_inv)

section \<open>One worker serves a device\<close>

text \<open>A connection of a worker that relies on its lease now: not yet expired, and not given back.\<close>

definition serves :: "fleet \<Rightarrow> string \<Rightarrow> principal \<Rightarrow> nat \<Rightarrow> lease_renewal \<Rightarrow> bool" where
  "serves F w p n c \<longleftrightarrow> (\<exists>auth d. (p, n, auth) \<in> set (rg_connections (wp_registry (fl_workers F w))) \<and> lease_claim auth = Some c \<and>
     (lease_claim_key c, d) \<in> set (rg_lease_deadlines (wp_registry (fl_workers F w))) \<and> fl_now F < d \<and> (w, c) \<notin> set (fl_released F))"

text \<open>
  C3. A device is served by one worker. Whatever bootstraps, connections, heartbeats, releases and drains happen, and however requests and answers are
  delayed, repeated, reordered or lost: at no time do two connections, of the same or of different workers, rely on an unexpired lease for the same
  device, unless one of them has been given back to the Director; and the lease they rely on is the one the Director holds for that worker.
\<close>

theorem exclusive_route:
  assumes "fleet_guards P es (fleet_init now n)"
  defines "F \<equiv> fold (fleet_step P) es (fleet_init now n)"
  shows "\<forall>w1 w2 p n1 n2 c1 c2. serves F w1 p n1 c1 \<longrightarrow> serves F w2 p n2 c2 \<longrightarrow>
    w1 = w2 \<and> n1 = n2 \<and> c1 = c2 \<and> (\<exists>l. memory_lease (fl_store F) p = Some l \<and> fl_now F < rl_expires_at l \<and>
      lease_matches w1 (lr_session_epoch c1) (lr_fencing_token c1) l)"
proof (intro allI impI)
  fix w1 w2 p n1 n2 c1 c2 assume s: "serves F w1 p n1 c1" "serves F w2 p n2 c2"
  have inv: "fleet_inv P F" using fleet_run_inv [OF fleet_init_inv assms(1)] by (simp add: F_def)
  have own: "owns_connections (wp_registry (fl_workers F w)) (wp_handlers (fl_workers F w))" for w
    using inv by (simp add: fleet_inv_def proc_inv_def sessions_ok_def)
  have h: "renewal_principal c = p \<and> (\<exists>d. fl_now F < d \<and> memory.holds (fl_store F) w c d)" if "serves F w p m c" for w m c
  proof -
    obtain auth d where a: "(p, m, auth) \<in> set (rg_connections (wp_registry (fl_workers F w)))" "lease_claim auth = Some c"
      "(lease_claim_key c, d) \<in> set (rg_lease_deadlines (wp_registry (fl_workers F w)))" "fl_now F < d" "(w, c) \<notin> set (fl_released F)"
      using \<open>serves F w p m c\<close> by (auto simp: serves_def)
    have "promised F w c d" using a(3) by (intro promised.by_worker) (simp add: relied_on_def)
    then have "kept F w c d" using inv by (simp add: fleet_inv_def)
    moreover have "p = auth_principal auth" using owns_connectionsD(2) [OF own a(1)] by blast
    ultimately show ?thesis using a lease_claim_principal [OF a(2)] by (auto simp: kept_def)
  qed
  obtain d1 d2 where d: "fl_now F < d1" "memory.holds (fl_store F) w1 c1 d1" "memory.holds (fl_store F) w2 c2 d2" and
    p: "renewal_principal c1 = p" "renewal_principal c2 = p" using h [OF s(1)] h [OF s(2)] by blast
  have eq: "w1 = w2" "c1 = c2" using memory.holds_unique [OF d(2,3)] p by simp_all
  moreover have "n1 = n2"
    using s owns_connectionsD(1) [OF own, of w2] unfolding serves_def eq by (blast dest: eq_key_imp_eq_value)
  ultimately show "w1 = w2 \<and> n1 = n2 \<and> c1 = c2 \<and> (\<exists>l. memory_lease (fl_store F) p = Some l \<and> fl_now F < rl_expires_at l \<and>
      lease_matches w1 (lr_session_epoch c1) (lr_fencing_token c1) l)"
    using d(1,2) p(1) by (auto simp: memory.holds_def)
qed

subsection \<open>A run\<close>

text \<open>A worker registers, a device bootstraps, connects with its grant and is served ten seconds later.\<close>

definition demo_fleet_config :: fleet_config where
  "demo_fleet_config = \<lparr>fc_director = demo_config, fc_env = demo_grant_env, fc_codec = demo_codec,
     fc_settings = \<lparr>wt_worker_id = [], wt_rva_public_ws_url = ''wss://w1/rva/v1/voice'', wt_max_sessions = 5, wt_rva_enabled = True,
       wt_rva_udp_enabled = False, wt_provider_readiness_required = False, wt_director_url = ''http://d''\<rparr>, fc_lab_token = None\<rparr>"

definition demo_beat :: worker_heartbeat where
  "demo_beat = demo_heartbeat\<lparr>wh_bindings := [\<lparr>ba_control_protocol = ''rva/1'', ba_public_wss_url = ''wss://w1/rva/v1/voice'', ba_profiles = [''wss-opus/1'']\<rparr>]\<rparr>"

definition demo_registered :: fleet where
  "demo_registered = (fleet_init 100 5)\<lparr>fl_store := memory_init\<lparr>ms_workers := [(''w1'', worker_heartbeat.extend demo_beat \<lparr>ws_heartbeat_expires_at = 115\<rparr>)]\<rparr>,
     fl_requests := [(''w1'', demo_beat)],
     fl_answers := [(''w1'', demo_beat, \<lparr>hr_draining = False, hr_heartbeat_expires_at = 115, hr_lease_expires_at = 130, hr_rejected_session_epochs = []\<rparr>)]\<rparr>"

lemma demo_registers:
  "fleet_step demo_fleet_config (FDeliver 0) (fleet_step demo_fleet_config (FSend ''w1'' False True) (fleet_init 100 5)) = demo_registered"
  by (simp add: demo_registered_def fleet_init_def demo_fleet_config_def demo_config_def heartbeat_payload_def demo_beat_def demo_heartbeat_def
      proc_init_def registry_init_def admission_init_def admission_active_count_def active_lease_renewals_def pending_lease_releases_def map_filter_def
      director_heartbeat_def memory_ops_def memory_heartbeat_def memory_init_def worker_heartbeat.defs Let_def)

definition demo_granted :: fleet where
  "demo_granted = demo_registered\<lparr>fl_store := (fl_store demo_registered)\<lparr>ms_fencing := [(encode_route_key ''lab'' ''dev'', 1)],
     ms_leases := [(encode_route_key ''lab'' ''dev'', demo_route)]\<rparr>, fl_issued := [demo_signed]\<rparr>"

lemma demo_grants: "fleet_step demo_fleet_config (FBootstrap (demo_request [''wss-opus/1'']) (\<lambda>i. ''a'') ''j'') demo_registered = demo_granted"
proof -
  let ?w = "worker_heartbeat.extend demo_beat \<lparr>ws_heartbeat_expires_at = 115\<rparr>" and ?s = "fl_store demo_registered"
  have l: "so_list_workers memory_ops 100 ?s = ([?w], ?s)"
    by (simp add: memory_ops_def memory_list_workers_def demo_registered_def memory_init_def worker_heartbeat.defs)
  have c: "candidate_workers [?w] [''wss-opus/1''] ''rva/1'' = Inr [(?w, ''wss://w1/rva/v1/voice'', [''wss-opus/1''])]"
    by (simp add: candidate_workers_def map_filter_def candidate_of_def resolved_bindings_def demo_beat_def demo_heartbeat_def worker_heartbeat.defs available_slots_def Let_def)
  have a: "acquire_first memory_ops (demo_request [''wss-opus/1'']) 100 130 (\<lambda>i. ''a'') 0 [(?w, ''wss://w1/rva/v1/voice'', [''wss-opus/1''])] ?s =
    (Inr (Some ((?w, ''wss://w1/rva/v1/voice'', [''wss-opus/1'']), demo_route)), fl_store demo_granted)"
    by (simp add: memory_ops_def memory_acquire_route_def route_args_def demo_request_def demo_beat_def demo_heartbeat_def worker_heartbeat.defs
        demo_registered_def demo_granted_def memory_init_def drop_expired_def demo_route_def Let_def)
  have v: "bootstrap_claims (demo_request [''wss-opus/1'']) (?w, ''wss://w1/rva/v1/voice'', [''wss-opus/1'']) demo_route 100 130 ''j'' = demo_signed"
    by (simp add: bootstrap_claims_def demo_signed_def demo_request_def demo_route_def demo_beat_def demo_heartbeat_def worker_heartbeat.defs)
  have "fl_now demo_registered = 100" by (simp add: demo_registered_def fleet_init_def)
  then show ?thesis
    using l c a v demo_signed_valid
    by (simp add: director_bootstrap_def demo_fleet_config_def demo_config_def demo_request_def Let_def del: acquire_first.simps)
      (simp add: demo_granted_def demo_registered_def fleet_init_def memory_init_def demo_route_def signed_claims_def demo_signed_def demo_beat_def demo_heartbeat_def worker_heartbeat.defs)
qed

definition demo_bearer :: string where
  "demo_bearer = ''bearer '' @ grant_issue demo_grant_env demo_codec demo_signed"

definition demo_auth_context :: auth_context where
  "demo_auth_context = \<lparr>ac_tenant_id = ''lab'', ac_device_id = ''dev'', ac_allowed_profiles = [''wss-opus/1''], ac_session_epoch = Some ''epoch-a'',
     ac_fencing_token = Some 1, ac_expires_at = Some 130, ac_control_protocol = ''rva/1''\<rparr>"

lemma demo_signed_verifies: "grant_verify demo_grant_env demo_codec 100 (bearer_value demo_bearer) (Some ''w1'') (Some ''dev'') = Inr demo_signed"
  using grant_verify_issue [OF demo_grant_ok, of 100 demo_codec]
  by (simp add: demo_bearer_def bearer_value_def demo_codec_def) (simp add: demo_signed_def)

lemma demo_authenticates:
  "auth_verify demo_grant_env (worker_authenticator_of demo_fleet_config ''w1'') 100 (Some demo_bearer) (Some ''dev'') ''rva/1'' =
    VerifiedAuth demo_auth_context (Some (bearer_value demo_bearer))"
proof -
  have "bearer_scheme demo_bearer = ''bearer''" by (simp add: demo_bearer_def bearer_scheme_def Let_def)
  then show ?thesis
    using demo_signed_verifies by (simp add: auth_verify_def worker_authenticator_of_def demo_fleet_config_def Let_def)
      (simp add: demo_signed_def demo_auth_context_def)
qed

definition demo_fleet_events :: "fleet_event list" where
  "demo_fleet_events = [FSend ''w1'' False True, FDeliver 0, FBootstrap (demo_request [''wss-opus/1'']) (\<lambda>i. ''a'') ''j'',
     FConnect ''w1'' (Some demo_bearer) (Some ''dev'') ''r1'', FWorker ''w1'' (PConsumed 0 (Some True)), FWorker ''w1'' (PAccepted 0 True), FTick 10]"

lemma demo_served:
  "wp_registry (proc_step (PAccepted 0 True) (proc_step (PConsumed 0 (Some True)) (proc_step (PBegin False (VerifiedAuth demo_auth_context (Some g)) ''r1'') (proc_init 5)))) =
    (wp_registry (proc_step (PBegin False (VerifiedAuth demo_auth_context (Some g)) ''r1'') (proc_init 5)))
      \<lparr>rg_connections := [((''lab'', ''dev''), 0, demo_auth_context)], rg_lease_deadlines := [((''lab'', ''dev'', ''epoch-a'', 1), 130)], rg_expiry_task := True\<rparr>"
  by (simp add: proc_init_def registry_init_def admission_init_def voice_begin_def demo_auth_context_def registry_reserve_def admission_reserve_def auth_principal_def
      on_handler_def voice_consumed_def voice_accepted_def run_start_def lease_claim_def lease_claim_key_def start_expiry_enforcement_def Let_def)

theorem exclusive_route_witness:
  "fleet_guards demo_fleet_config demo_fleet_events (fleet_init 100 5) \<and>
   (let F = fold (fleet_step demo_fleet_config) demo_fleet_events (fleet_init 100 5) in
     serves F ''w1'' (''lab'', ''dev'') 0 (grant_lease demo_signed) \<and>
     (\<forall>w n c. serves F w (''lab'', ''dev'') n c \<longrightarrow> w = ''w1'' \<and> n = 0))"
proof -
  define F where "F = fold (fleet_step demo_fleet_config) demo_fleet_events (fleet_init 100 5)"
  have P: "fc_env demo_fleet_config = demo_grant_env" "fc_codec demo_fleet_config = demo_codec" "wt_rva_udp_enabled (fc_settings demo_fleet_config) = False"
    by (simp_all add: demo_fleet_config_def)
  have G: "fl_now demo_granted = 100" "fl_workers demo_granted = (\<lambda>w. proc_init 5)" "fl_issued demo_granted = [demo_signed]" "fl_released demo_granted = []"
    by (simp_all add: demo_granted_def demo_registered_def fleet_init_def)
  have E: "connect_event demo_fleet_config ''w1'' (Some demo_bearer) (Some ''dev'') ''r1'' demo_granted =
      PBegin False (VerifiedAuth demo_auth_context (Some (bearer_value demo_bearer))) ''r1''"
    by (simp add: connect_event_def P G demo_authenticates)
  have F: "F = fleet_step demo_fleet_config (FTick 10) (fleet_step demo_fleet_config (FWorker ''w1'' (PAccepted 0 True)) (fleet_step demo_fleet_config
      (FWorker ''w1'' (PConsumed 0 (Some True))) (fleet_step demo_fleet_config (FConnect ''w1'' (Some demo_bearer) (Some ''dev'') ''r1'') demo_granted)))"
    using demo_registers demo_grants by (simp add: F_def demo_fleet_events_def del: fleet_step.simps)
  have guards: "fleet_guards demo_fleet_config demo_fleet_events (fleet_init 100 5)"
    using demo_registers demo_grants demo_signed_verifies
    by (simp add: demo_fleet_events_def P G E proc_init_def registry_init_def admission_init_def del: fleet_step.simps)
  have "rg_connections (wp_registry (fl_workers F ''w1'')) = [((''lab'', ''dev''), 0, demo_auth_context)]"
    "rg_lease_deadlines (wp_registry (fl_workers F ''w1'')) = [((''lab'', ''dev'', ''epoch-a'', 1), 130)]" "fl_now F = 110" "fl_released F = []"
    using demo_served by (simp_all add: F E G del: proc_step.simps)
  then have s: "serves F ''w1'' (''lab'', ''dev'') 0 (grant_lease demo_signed)"
    by (simp add: serves_def lease_claim_def demo_auth_context_def grant_lease_def demo_signed_def lease_claim_key_def)
  then have "\<forall>w n c. serves F w (''lab'', ''dev'') n c \<longrightarrow> w = ''w1'' \<and> n = 0" using exclusive_route [OF guards, folded F_def] by blast
  then show ?thesis using guards s by (simp add: Let_def F_def)
qed

end
