(* ===== verification/Worker_Leases.thy ===== *)
theory Worker_Leases
  imports Lease_Promises
begin

text \<open>
  What becomes of the leases of a worker (\<open>realtime_worker/app.py\<close>): expired ones end their connections, the heartbeats that report them
  meet the contract of the Director, and the shutdown gives all of them back.
\<close>

section \<open>Where releases come from\<close>

definition connection_claims :: "session_registry \<Rightarrow> lease_renewal set" where
  "connection_claims r = (\<Union>x \<in> set (rg_connections r). set_option (lease_claim (snd (snd x))))"

definition handler_claims :: "voice_handler list \<Rightarrow> lease_renewal set" where
  "handler_claims hs = (\<Union>h \<in> set hs. set_option (lease_claim (vh_auth h)))"

lemma connection_claims_handlers:
  assumes "owns_connections r hs"
  shows "connection_claims r \<subseteq> handler_claims hs"
proof
  fix c assume "c \<in> connection_claims r"
  then obtain p n auth where "(p, n, auth) \<in> set (rg_connections r)" "lease_claim auth = Some c" by (auto simp: connection_claims_def)
  then have "n < length hs" "lease_claim (vh_auth (hs ! n)) = Some c" using owns_connectionsD(2) [OF assms] by blast+
  then show "c \<in> handler_claims hs" by (force simp: handler_claims_def)
qed

lemma revoke_pending:
  assumes "dict_wf (rg_connections r)"
  shows "set (rg_pending_releases (revoke_claims ks r)) \<subseteq> set (rg_pending_releases r) \<union> connection_claims r"
    "connection_claims (revoke_claims ks r) \<subseteq> connection_claims r"
proof -
  show "set (rg_pending_releases (revoke_claims ks r)) \<subseteq> set (rg_pending_releases r) \<union> connection_claims r"
    by (fastforce simp: revoke_claims_spec(3) [OF assms] connection_claims_def)
  show "connection_claims (revoke_claims ks r) \<subseteq> connection_claims r"
    unfolding connection_claims_def revoke_claims_spec(1) [OF assms] by (rule UN_mono) auto
qed

lemma revocations_pending:
  assumes "dict_wf (rg_connections r)"
  shows "set (rg_pending_releases (revoke_expired_leases now r)) \<subseteq> set (rg_pending_releases r) \<union> connection_claims r"
    "set (rg_pending_releases (revoke_lease_claims cs r)) \<subseteq> set (rg_pending_releases r) \<union> connection_claims r"
    "set (rg_pending_releases (revoke_session_epochs es r)) \<subseteq> set (rg_pending_releases r) \<union> connection_claims r"
    "connection_claims (revoke_expired_leases now r) \<subseteq> connection_claims r" "connection_claims (revoke_lease_claims cs r) \<subseteq> connection_claims r"
  using revoke_pending [OF assms] by (simp_all add: revoke_expired_leases_def revoke_lease_claims_def revoke_session_epochs_def)

lemma answered_pending:
  assumes "sessions_ok r hs"
  shows "set (rg_pending_releases (snd (heartbeat_answered now answer h r))) \<subseteq> set (rg_pending_releases r) \<union> connection_claims r"
proof -
  let ?Q = "\<lambda>r'. sessions_ok r' hs \<and> connection_claims r' \<subseteq> connection_claims r \<and>
    set (rg_pending_releases r') \<subseteq> set (rg_pending_releases r) \<union> connection_claims r"
  have "?Q (snd (heartbeat_answered now answer h r))"
  proof (rule heartbeat_answered_keeps)
    fix r' and cs :: "lease_renewal list" assume Q: "?Q r'"
    note D = revocations_pending [OF sessions_ok_wf [OF conjunct1 [OF Q]]]
    show "?Q (revoke_expired_leases now r')" "?Q (revoke_lease_claims cs r')"
      using Q D revocations_sessions_ok by blast+
    show "?Q (acknowledge_lease_releases (wh_released_leases h) r')" "?Q (registry_admission (admission_set_draining True) r')"
      using Q registry_parts_ok(2,3) by (auto simp: acknowledge_lease_releases_def registry_admission_def connection_claims_def)
    show "?Q (extend_lease_deadlines now (hr_lease_expires_at resp) (accepted_claims resp h) r')" for resp
      using Q registry_parts_ok(1) by (auto simp: extend_fields connection_claims_def)
  qed (use assms in auto)
  then show ?thesis by simp
qed

lemma handler_pending:
  "set (rg_pending_releases (snd (voice_consumed answer h r))) \<subseteq> set (rg_pending_releases r) \<union> set_option (lease_claim (vh_auth h))"
  "set (rg_pending_releases (snd (voice_accepted ok n h r))) \<subseteq> set (rg_pending_releases r) \<union> set_option (lease_claim (vh_auth h))"
  "set (rg_pending_releases (snd (voice_ended h r))) \<subseteq> set (rg_pending_releases r) \<union> set_option (lease_claim (vh_auth h))"
  "set (rg_pending_releases (snd (voice_released h r))) \<subseteq> set (rg_pending_releases r) \<union> set_option (lease_claim (vh_auth h))"
proof -
  have rel: "rg_pending_releases (release_reservation t r) = rg_pending_releases r"
    "set (rg_pending_releases (abort_startup auth t r)) = set (rg_pending_releases r) \<union> set_option (lease_claim auth)" for t auth r
    by (simp_all add: abort_startup_def release_reservation_def registry_admission_def)
  show "set (rg_pending_releases (snd (voice_consumed answer h r))) \<subseteq> set (rg_pending_releases r) \<union> set_option (lease_claim (vh_auth h))"
    by (simp add: voice_consumed_def rel split: voice_stage.splits option.splits bool.splits)
  show "set (rg_pending_releases (snd (voice_ended h r))) \<subseteq> set (rg_pending_releases r) \<union> set_option (lease_claim (vh_auth h))"
    by (simp add: voice_ended_def run_cleanup_fields split: voice_stage.splits)
  show "set (rg_pending_releases (snd (voice_released h r))) \<subseteq> set (rg_pending_releases r) \<union> set_option (lease_claim (vh_auth h))"
    by (simp add: voice_released_def rel split: voice_stage.splits)
  have st: "set (rg_pending_releases (snd (run_start n auth t r))) \<subseteq> set (rg_pending_releases r) \<union> set_option (lease_claim auth)" for auth t
    by (auto simp: run_start_def rel start_expiry_enforcement_def Let_def split: option.splits)
  show "set (rg_pending_releases (snd (voice_accepted ok n h r))) \<subseteq> set (rg_pending_releases r) \<union> set_option (lease_claim (vh_auth h))"
  proof (cases "vh_stage h")
    case (VAccepting t)
    obtain x r' where "run_start n (vh_auth h) t r = (x, r')" by fastforce
    then show ?thesis using st [of "vh_auth h" t] by (simp add: voice_accepted_def VAccepting rel split: option.splits)
  qed (simp_all add: voice_accepted_def)
qed

definition releases_ok :: "worker_proc \<Rightarrow> bool" where
  "releases_ok p \<longleftrightarrow> set (rg_pending_releases (wp_registry p)) \<subseteq> handler_claims (wp_handlers p)"

lemma on_handler_releases:
  assumes "\<And>h r. set (rg_pending_releases (snd (f h r))) \<subseteq> set (rg_pending_releases r) \<union> set_option (lease_claim (vh_auth h))"
    "\<And>h r. vh_auth (fst (f h r)) = vh_auth h" "releases_ok p"
  shows "releases_ok (on_handler i f p)"
proof (cases "i < length (wp_handlers p)")
  case True
  let ?h = "wp_handlers p ! i" and ?r = "wp_registry p"
  have "map vh_auth ((wp_handlers p)[i := fst (f ?h ?r)]) = map vh_auth (wp_handlers p)"
    using True assms(2) by (simp add: map_update list_update_same_conv)
  then have "handler_claims ((wp_handlers p)[i := fst (f ?h ?r)]) = handler_claims (wp_handlers p)"
    unfolding handler_claims_def by (metis (no_types, lifting) SUP_cong image_image list.set_map)
  moreover have "set_option (lease_claim (vh_auth ?h)) \<subseteq> handler_claims (wp_handlers p)" using True by (force simp: handler_claims_def)
  ultimately show ?thesis using assms(1) [of ?h ?r] assms(3) True by (auto simp: releases_ok_def on_handler_def Let_def case_prod_beta)
qed (use assms(3) in \<open>simp add: on_handler_def\<close>)

lemma proc_step_releases:
  assumes "proc_inv p" "releases_ok p"
  shows "releases_ok (proc_step e p)"
proof -
  have s: "sessions_ok (wp_registry p) (wp_handlers p)" using assms by (simp add: proc_inv_def)
  have cl: "connection_claims (wp_registry p) \<subseteq> handler_claims (wp_handlers p)"
    using connection_claims_handlers s by (simp add: sessions_ok_def)
  note D = revocations_pending [OF sessions_ok_wf [OF s]]
  have reg: "releases_ok (on_registry f p)"
    if "set (rg_pending_releases (f (wp_registry p))) \<subseteq> set (rg_pending_releases (wp_registry p)) \<union> connection_claims (wp_registry p)" for f
    using that cl assms(2) by (auto simp: releases_ok_def on_registry_def)
  note H = handler_relied [THEN conjunct1]
  show ?thesis
  proof (cases e)
    case (PBegin udp verified fresh)
    have "rg_pending_releases (snd (voice_begin udp verified fresh r)) = rg_pending_releases r" for r
      by (auto simp: voice_begin_def registry_reserve_def admission_reserve_def Let_def split: auth_result.splits)
    then show ?thesis using assms(2) by (auto simp: PBegin releases_ok_def handler_claims_def case_prod_beta)
  next
    case (PAnswered now answer h)
    then show ?thesis using reg [of "\<lambda>r. snd (heartbeat_answered now answer h r)"] answered_pending [OF s] by simp
  next
    case (PRevokeEpochs es)
    then show ?thesis using reg [of "revoke_session_epochs es"] D(3) by simp
  next
    case (PExpire now)
    then show ?thesis using reg [of "revoke_expired_leases now"] D(1) by simp
  next
    case PShutdown
    then show ?thesis using reg [of shutdown_begin]
      by (fastforce simp: shutdown_begin_def snapshot_active_lease_releases_def registry_admission_def connection_claims_def)
  next
    case PCloseBegin
    then show ?thesis using reg [of close_owner_begin] by (fastforce simp: close_owner_begin_def Let_def connection_claims_def)
  next
    case (PConsumed i answer)
    then show ?thesis using on_handler_releases [OF handler_pending(1) H(1) assms(2)] by simp
  next
    case (PAccepted i ok)
    then show ?thesis using on_handler_releases [OF handler_pending(2) H(2) assms(2)] by simp
  next
    case (PEnded i)
    then show ?thesis using on_handler_releases [OF handler_pending(3) H(3) assms(2)] by simp
  next
    case (PReleased i)
    then show ?thesis using on_handler_releases [OF handler_pending(4) H(4) assms(2)] by simp
  qed (use assms(2) in \<open>simp_all add: releases_ok_def on_registry_def retirement_done_def registry_admission_def registry_close_def close_owner_end_def\<close>)
qed

lemma proc_run_releases: "proc_inv p \<Longrightarrow> releases_ok p \<Longrightarrow> fresh_events es p \<Longrightarrow> releases_ok (fold proc_step es p)"
  by (induction es arbitrary: p) (simp_all add: proc_step_inv proc_step_releases)

section \<open>Heartbeats meet the contract\<close>

lemma connections_within:
  assumes "proc_inv p"
  shows "length (rg_connections (wp_registry p)) \<le> length (ad_reservations (rg_admission (wp_registry p)))"
proof -
  let ?r = "wp_registry p" and ?hs = "wp_handlers p"
  have h: "holds_exactly (rg_admission ?r) ?hs" and own: "owns_connections ?r ?hs" using assms by (simp_all add: proc_inv_def sessions_ok_def)
  have "set (dict_keys (rg_connections ?r)) \<subseteq> set (dict_values (ad_reservations (rg_admission ?r)))"
  proof
    fix q assume "q \<in> set (dict_keys (rg_connections ?r))"
    then obtain n auth where "(q, n, auth) \<in> set (rg_connections ?r)" by auto
    from owns_connectionsD(2) [OF own this] obtain t where
      n: "q = auth_principal (vh_auth (?hs ! n))" "n < length ?hs" "held_token (?hs ! n) = Some t" by (auto simp: held_token_def)
    have "(t, q) \<in> set (ad_reservations (rg_admission ?r))" using holds_exactlyD(1) [OF h n(2,3)] n(1) by (simp add: map_of_SomeD)
    then show "q \<in> set (dict_values (ad_reservations (rg_admission ?r)))" by force
  qed
  then have "card (set (dict_keys (rg_connections ?r))) \<le> card (set (dict_values (ad_reservations (rg_admission ?r))))" by (intro card_mono) simp_all
  also have "\<dots> \<le> length (ad_reservations (rg_admission ?r))" using card_length [of "dict_values (ad_reservations (rg_admission ?r))"] by simp
  finally show ?thesis using owns_connectionsD(1) [OF own] distinct_card by fastforce
qed

lemma active_principals:
  assumes "owns_connections r hs"
  shows "distinct (map renewal_principal (active_lease_renewals r))" "set (active_lease_renewals r) = connection_claims r"
    "length (active_lease_renewals r) \<le> length (rg_connections r)"
proof -
  have own: "\<forall>x \<in> set cs. fst x = auth_principal (snd (snd x)) \<Longrightarrow>
      map renewal_principal (List.map_filter (\<lambda>(_, _, auth). lease_claim auth) cs) = map fst (filter (\<lambda>x. lease_claim (snd (snd x)) \<noteq> None) cs)"
    for cs :: "(principal \<times> nat \<times> auth_context) list"
    by (induction cs) (auto simp: map_filter_simps lease_claim_principal split: option.splits)
  have "\<forall>x \<in> set (rg_connections r). fst x = auth_principal (snd (snd x))" using owns_connectionsD(2) [OF assms] by auto
  note E = own [OF this, folded active_lease_renewals_def]
  show "distinct (map renewal_principal (active_lease_renewals r))"
    unfolding E by (rule distinct_map_filter) (use owns_connectionsD(1) [OF assms] in simp)
  show "set (active_lease_renewals r) = connection_claims r"
    by (force simp: active_lease_renewals_def connection_claims_def map_filter_def)
  show "length (active_lease_renewals r) \<le> length (rg_connections r)" by (simp add: active_lease_renewals_def map_filter_def)
qed

text \<open>Settings of a worker that serves rva/1, and credentials as the Director issues them: valid claims, and an epoch belongs to one lease.\<close>

definition settings_ok :: "(string \<Rightarrow> url_parts) \<Rightarrow> worker_settings \<Rightarrow> bool" where
  "settings_ok urlsplit w \<longleftrightarrow> contract_identifier (wt_worker_id w) \<and> 1 \<le> wt_max_sessions w \<and> wt_max_sessions w \<le> 1024 \<and> wt_rva_enabled w \<and>
     canonical_endpoint urlsplit \<lparr>ba_control_protocol = ''rva/1'', ba_public_wss_url = wt_rva_public_ws_url w, ba_profiles = [''wss-opus/1'']\<rparr>"

definition credentials_ok :: "voice_handler list \<Rightarrow> bool" where
  "credentials_ok hs \<longleftrightarrow> (\<forall>c \<in> handler_claims hs. renewal_valid c) \<and>
     (\<forall>c \<in> handler_claims hs. \<forall>c' \<in> handler_claims hs. lr_session_epoch c = lr_session_epoch c' \<longrightarrow> c = c')"

text \<open>
  C6. Every heartbeat a worker composes is one the Director's model accepts. In every state the process can reach, with settings that are valid and
  credentials that came from the Director: the payload validates as \<open>WorkerHeartbeat\<close>, with at most as many leases as sessions, one lease per device,
  at most 64 releases and none of them twice, whatever was revoked, released or queued before.
\<close>

theorem heartbeat_payload_valid:
  assumes "fresh_events es (proc_init (wt_max_sessions w))" "settings_ok urlsplit w"
    and "credentials_ok (wp_handlers (fold proc_step es (proc_init (wt_max_sessions w))))"
  shows "heartbeat_valid urlsplit
    (heartbeat_payload w udp_ready provider_healthy (wp_registry (fold proc_step es (proc_init (wt_max_sessions w)))))"
proof -
  define p where "p = fold proc_step es (proc_init (wt_max_sessions w))"
  let ?r = "wp_registry p" and ?hs = "wp_handlers p"
  have inv: "proc_inv p" using proc_run_inv [OF proc_init_inv assms(1)] by (simp add: p_def)
  have rel: "releases_ok p"
    using proc_run_releases [OF proc_init_inv _ assms(1)] by (simp add: p_def releases_ok_def proc_init_def registry_init_def)
  have own: "owns_connections ?r ?hs" and pend: "distinct (rg_pending_releases ?r)" and adm: "admission_inv (rg_admission ?r)"
    using inv by (simp_all add: proc_inv_def sessions_ok_def)
  note A = active_principals [OF own]
  have "ad_max_sessions (rg_admission ?r) = wt_max_sessions w"
    using proc_run_max [OF proc_init_inv assms(1)] by (simp add: p_def proc_init_def registry_init_def admission_init_def)
  then have max: "int (length (ad_reservations (rg_admission ?r))) \<le> wt_max_sessions w"
    using adm assms(2) by (simp add: admission_inv_def settings_ok_def)
  have cr: "credentials_ok ?hs" using assms(3) by (simp add: p_def)
  have valid: "list_all renewal_valid (active_lease_renewals ?r)" "list_all renewal_valid (take 64 (rg_pending_releases ?r))"
    using cr A(2) connection_claims_handlers [OF own] rel
    by (auto simp: list_all_iff credentials_ok_def releases_ok_def dest!: in_set_takeD)
  have "inj_on (\<lambda>l. (lr_tenant_id l, lr_device_id l, lr_session_epoch l)) (set (rg_pending_releases ?r))"
    using cr rel unfolding inj_on_def credentials_ok_def releases_ok_def by (metis Pair_inject subsetD)
  then have "distinct (map (\<lambda>l. (lr_tenant_id l, lr_device_id l, lr_session_epoch l)) (rg_pending_releases ?r))"
    using pend by (simp add: distinct_map)
  then have dist: "distinct (map (\<lambda>l. (lr_tenant_id l, lr_device_id l, lr_session_epoch l)) (take 64 (rg_pending_releases ?r)))"
    using distinct_take [of _ 64] by (simp only: take_map [symmetric])
  show ?thesis
    unfolding p_def [symmetric]
    using A(1,3) connections_within [OF inv] max valid dist assms(2)
    by (simp add: heartbeat_valid_def bounded_active_leases_def heartbeat_payload_def pending_lease_releases_def settings_ok_def
        renewal_principal_def [abs_def] advertisement_valid_def canonical_endpoint_def validate_control_profiles_def CONTROL_TRANSPORT_PROFILES_def
        is_transport_profile_def unique_profiles_def admission_active_count_def Let_def)
qed

definition demo_worker_settings :: worker_settings where
  "demo_worker_settings = \<lparr>wt_worker_id = ''w1'', wt_rva_public_ws_url = ''wss://w1/rva/v1/voice'', wt_max_sessions = 1, wt_rva_enabled = True,
     wt_rva_udp_enabled = False, wt_provider_readiness_required = False, wt_director_url = ''http://d''\<rparr>"

definition demo_urlsplit :: "string \<Rightarrow> url_parts" where
  "demo_urlsplit url = \<lparr>up_scheme = ''wss'', up_hostname = Some ''w1'', up_path = drop 8 url, up_query = [], up_fragment = [], up_username = None, up_password = None\<rparr>"

theorem heartbeat_payload_valid_witness:
  "fresh_events lab_events (proc_init 1) \<and>
   (let h = heartbeat_payload demo_worker_settings False True (wp_registry (fold proc_step lab_events (proc_init 1))) in
     wh_active_sessions h = 1 \<and> map lr_device_id (wh_released_leases h) = [''d''] \<and> heartbeat_valid demo_urlsplit h)"
proof -
  have m: "wt_max_sessions demo_worker_settings = 1" by (simp add: demo_worker_settings_def)
  have fresh: "fresh_events lab_events (proc_init 1)" by code_simp
  have h: "map vh_auth (wp_handlers (fold proc_step lab_events (proc_init 1))) = [lab_auth ''d'', lab_auth ''e'', lab_auth ''e'']" by code_simp
  have ok: "settings_ok demo_urlsplit demo_worker_settings" by code_simp
  have "handler_claims (wp_handlers (fold proc_step lab_events (proc_init 1))) = (\<Union>a \<in> set [lab_auth ''d'', lab_auth ''e'', lab_auth ''e'']. set_option (lease_claim a))"
    unfolding handler_claims_def h [symmetric] by simp
  then have cr: "credentials_ok (wp_handlers (fold proc_step lab_events (proc_init 1)))"
    by (simp add: credentials_ok_def lab_auth_def lease_claim_def renewal_valid_def contract_identifier_def contract_char_def alnum_char_def)
  have "let h = heartbeat_payload demo_worker_settings False True (wp_registry (fold proc_step lab_events (proc_init 1))) in
     wh_active_sessions h = 1 \<and> map lr_device_id (wh_released_leases h) = [''d'']" by code_simp
  then show ?thesis
    using heartbeat_payload_valid [of lab_events demo_worker_settings demo_urlsplit False True, unfolded m, OF fresh ok cr] fresh by (simp add: Let_def)
qed

section \<open>Expired leases\<close>

lemma fold_min_le: "x \<in> set (d # ds) \<Longrightarrow> fold min ds d \<le> (x :: real)"
  by (metis Min.set_eq_fold Min_le List.finite_set)

lemma expired_gone: "dict_wf (rg_connections r) \<Longrightarrow> (k, d) \<in> set (rg_lease_deadlines (revoke_expired_leases now r)) \<Longrightarrow> now < d"
  by (force simp: revoke_expired_leases_def revoke_claims_spec(2))

text \<open>A round of the expiry task sleeps no longer than the leases that remain allow.\<close>

lemma enforce_round_sleeps:
  assumes wf: "dict_wf (rg_connections r)"
    and d: "(k, d) \<in> set (rg_lease_deadlines (snd (enforce_round now r)))" and t: "fst (enforce_round now r) = Some t"
  shows "now + t \<le> d"
proof (cases "dict_values (rg_lease_deadlines r)")
  case (Cons x xs)
  show ?thesis
  proof (cases "fold min xs x - now \<le> 0")
    case True
    then show ?thesis using d t expired_gone [OF wf, of k d now] by (auto simp: enforce_round_def Cons Let_def)
  next
    case False
    then have e: "enforce_round now r = (Some (fold min xs x - now), r)" by (simp add: enforce_round_def Cons Let_def)
    have "d \<in> set (dict_values (rg_lease_deadlines r))" using d by (force simp: e)
    then show ?thesis using fold_min_le [of d x xs] t by (simp add: Cons e)
  qed
qed (use t in \<open>simp add: enforce_round_def\<close>)


definition expiring_events :: "proc_event list" where
  "expiring_events = [PBegin False (VerifiedAuth (lab_auth ''d''\<lparr>ac_expires_at := Some 130\<rparr>) None) ''r1'', PAccepted 0 True]"

lemma expiring_registry:
  "fresh_events expiring_events (proc_init 1)"
  "rg_connections (wp_registry (fold proc_step expiring_events (proc_init 1))) = [((''t'', ''d''), 0, lab_auth ''d''\<lparr>ac_expires_at := Some 130\<rparr>)]"
  "rg_lease_deadlines (wp_registry (fold proc_step expiring_events (proc_init 1))) = [((''t'', ''d'', ''epoch-d'', 1), 130)]"
  "rg_retirement_tasks (wp_registry (fold proc_step expiring_events (proc_init 1))) = []"
  "rg_pending_releases (wp_registry (fold proc_step expiring_events (proc_init 1))) = []"
  by (simp_all add: expiring_events_def proc_init_def registry_init_def admission_init_def voice_begin_def lab_auth_def registry_reserve_def admission_reserve_def
      auth_principal_def on_handler_def voice_accepted_def run_start_def lease_claim_def lease_claim_key_def start_expiry_enforcement_def Let_def)


end
