(* ===== verification/Worker_Shutdown.thy ===== *)
theory Worker_Shutdown
  imports Worker_Leases
begin

text \<open>
  The shutdown of a worker, the end of \<open>lifespan\<close> in \<open>create_app\<close> of \<open>realtime_worker/app.py\<close>: a draining heartbeat, the close of the registry, and a
  bounded number of heartbeats that give back the remaining leases, here against the Director of \<open>session_director/service.py\<close>.
\<close>

section \<open>The sequence\<close>

definition SHUTDOWN_RELEASE_MAX_ATTEMPTS :: nat where
  "SHUTDOWN_RELEASE_MAX_ATTEMPTS = 32"

text \<open>
  How a heartbeat ends for \<open>run_with_hard_deadline\<close>: not in time, with an exception, or with an answer; the times are those of the worker's clock afterwards.
\<close>

datatype exchange_result = ExchangeLost | ExchangeFailed real | ExchangeAnswered real heartbeat_response

text \<open>\<open>send_draining_heartbeat\<close> under its deadline: \<open>None\<close> when it did not complete, otherwise whether it succeeded.\<close>

definition send_draining_heartbeat ::
    "worker_settings \<Rightarrow> bool \<Rightarrow> bool \<Rightarrow> real \<Rightarrow> (worker_heartbeat \<Rightarrow> 's \<Rightarrow> exchange_result \<times> 's) \<Rightarrow> session_registry \<Rightarrow> 's \<Rightarrow>
      bool option \<times> session_registry \<times> 's" where
  "send_draining_heartbeat w udp_ready provider_healthy now exchange r s =
    (let drain = registry_admission (admission_set_draining True); r1 = drain r; h = heartbeat_payload w udp_ready provider_healthy r1
     in case heartbeat_budget now h r1 of
          None \<Rightarrow> (Some False, drain (snd (heartbeat_answered now None h r1)), s)
        | Some _ \<Rightarrow> (case exchange h s of
              (ExchangeLost, s1) \<Rightarrow> (None, drain r1, s1)
            | (ExchangeFailed t, s1) \<Rightarrow> (Some False, drain (snd (heartbeat_answered t None h r1)), s1)
            | (ExchangeAnswered t resp, s1) \<Rightarrow> (Some True, drain (snd (heartbeat_answered t (Some resp) h r1)), s1)))"

text \<open>
  The loop over the attempts that are left; \<open>i\<close> counts those made, \<open>clock\<close> and \<open>remaining\<close> tell the time and what is left of the budget before each.
  The first component is the number of heartbeats sent.
\<close>

fun release_loop ::
    "worker_settings \<Rightarrow> bool \<Rightarrow> bool \<Rightarrow> (nat \<Rightarrow> real) \<Rightarrow> (nat \<Rightarrow> real) \<Rightarrow> (nat \<Rightarrow> worker_heartbeat \<Rightarrow> 's \<Rightarrow> exchange_result \<times> 's) \<Rightarrow> nat \<Rightarrow> nat \<Rightarrow>
      session_registry \<Rightarrow> 's \<Rightarrow> nat \<times> session_registry \<times> 's" where
  "release_loop w udp prov clock remaining exchange 0 i r s = (i, r, s)"
| "release_loop w udp prov clock remaining exchange (Suc left) i r s =
    (if pending_lease_releases r = [] then (i, r, s)
     else if remaining i \<le> 0 then (i, r, s)
     else (case send_draining_heartbeat w udp prov (clock i) (exchange i) r s of
         (None, r1, s1) \<Rightarrow> (Suc i, r1, s1)
       | (Some _, r1, s1) \<Rightarrow> release_loop w udp prov clock remaining exchange left (Suc i) r1 s1))"

text \<open>The budgets of the first heartbeat and of the close, from the total budget, the time it started and the time that is asked.\<close>

definition SHUTDOWN_CLOSE_BUDGET_RATIO :: real where
  "SHUTDOWN_CLOSE_BUDGET_RATIO = 0.6"

definition SHUTDOWN_INITIAL_HEARTBEAT_MAX_SECONDS :: real where
  "SHUTDOWN_INITIAL_HEARTBEAT_MAX_SECONDS = 1"

definition initial_heartbeat_budget :: "real \<Rightarrow> real \<Rightarrow> real \<Rightarrow> real" where
  "initial_heartbeat_budget total_budget started_at now =
    min SHUTDOWN_INITIAL_HEARTBEAT_MAX_SECONDS (min (max 0 (total_budget - total_budget * SHUTDOWN_CLOSE_BUDGET_RATIO)) (max 0 (started_at + total_budget - now)))"

definition close_budget :: "real \<Rightarrow> real \<Rightarrow> real \<Rightarrow> real" where
  "close_budget total_budget started_at now = max 0 (min (total_budget * SHUTDOWN_CLOSE_BUDGET_RATIO) (started_at + total_budget - now))"

text \<open>
  \<open>drain_sessions_and_release_leases\<close>, after the leases of all connections were queued: the first heartbeat if there is a budget for it, the close of the
  registry if there is, and the loop. \<open>t1\<close>, \<open>t2\<close> and \<open>loop_time\<close> are readings of the event loop's clock before each stage, \<open>now\<close> and \<open>clock\<close> of the worker's.
\<close>

definition drain_sessions_and_release_leases ::
    "worker_settings \<Rightarrow> bool \<Rightarrow> bool \<Rightarrow> real \<Rightarrow> real \<Rightarrow> real \<Rightarrow> real \<Rightarrow> real \<Rightarrow> (nat \<Rightarrow> real) \<Rightarrow> (nat \<Rightarrow> real) \<Rightarrow>
      (worker_heartbeat \<Rightarrow> 's \<Rightarrow> exchange_result \<times> 's) \<Rightarrow> (nat \<Rightarrow> worker_heartbeat \<Rightarrow> 's \<Rightarrow> exchange_result \<times> 's) \<Rightarrow>
      session_registry \<Rightarrow> 's \<Rightarrow> nat \<times> session_registry \<times> 's" where
  "drain_sessions_and_release_leases w udp prov total_budget started_at t1 t2 now loop_time clock exchange0 exchange r s =
    (let (r1, s1) = (if initial_heartbeat_budget total_budget started_at t1 > 0 then snd (send_draining_heartbeat w udp prov now exchange0 r s) else (r, s));
         r2 = (if close_budget total_budget started_at t2 > 0 then close_owner_end (close_owner_begin (registry_close r1)) else r1)
     in release_loop w udp prov clock (\<lambda>i. started_at + total_budget - loop_time i) exchange SHUTDOWN_RELEASE_MAX_ATTEMPTS 0 r2 s1)"

text \<open>An exchange with the Director, whose clock is the worker's.\<close>

definition director_exchange :: "'s store_ops \<Rightarrow> director_config \<Rightarrow> real \<Rightarrow> worker_heartbeat \<Rightarrow> 's \<Rightarrow> exchange_result \<times> 's" where
  "director_exchange ops cfg now h s = (let (resp, s1) = director_heartbeat ops cfg now h s in (ExchangeAnswered now resp, s1))"

section \<open>What the Director forgets\<close>

context coordination_store
begin

definition holder :: "'s \<Rightarrow> string \<Rightarrow> lease_renewal \<Rightarrow> bool" where
  "holder s w c \<longleftrightarrow> (\<exists>l. leases s (renewal_principal c) = Some l \<and> lease_matches w (lr_session_epoch c) (lr_fencing_token c) l)"

lemma release_claims_holder:
  assumes "inv s"
  shows "inv (snd (release_claims ops w' rs s)) \<and> (holder (snd (release_claims ops w' rs s)) w c \<longrightarrow> holder s w c \<and> \<not> (w' = w \<and> c \<in> set rs))"
  using assms
proof (induction rs arbitrary: s)
  case (Cons r rs)
  let ?s = "snd (so_release_route_claim ops w' r s)"
  have inv1: "inv ?s" by (rule inv_release_claim [OF Cons.prems])
  have "holder ?s w c \<longrightarrow> holder s w c \<and> \<not> (w' = w \<and> c = r)"
    using release_claim_effect [OF Cons.prems, of w' r] release_claim_iff [OF Cons.prems, of w' r] by (auto simp: holder_def split: if_splits)
  then show ?case using Cons.IH [OF inv1] by (auto simp: Let_def case_prod_beta)
qed simp

lemma renew_leases_holder:
  assumes "inv s"
  shows "inv (snd (renew_leases ops w' now e rs s)) \<and> (holder (snd (renew_leases ops w' now e rs s)) w c \<longrightarrow> holder s w c)"
  using assms
proof (induction rs arbitrary: s)
  case (Cons r rs)
  let ?s = "snd (so_renew_route ops w' r now e s)"
  have inv1: "inv ?s" by (rule inv_renew [OF Cons.prems])
  have "holder ?s w c \<longrightarrow> holder s w c"
    using renew_effect [OF Cons.prems, of w' r now e] by (auto simp: holder_def lease_matches_def split: if_splits)
  then show ?case using Cons.IH [OF inv1] by (auto simp: Let_def case_prod_beta)
qed simp

lemma heartbeat_holder:
  assumes "inv s" "director_heartbeat ops cfg now h s = (resp, s')"
  shows "inv s'" "holder s' w c \<Longrightarrow> holder s w c \<and> \<not> (wh_worker_id h = w \<and> c \<in> set (wh_released_leases h))"
    "distinct (map renewal_principal (wh_active_leases h)) \<Longrightarrow> c \<in> set (wh_active_leases h) \<Longrightarrow> c \<in> set (wh_released_leases h) \<Longrightarrow>
      lr_session_epoch c \<in> set (hr_rejected_session_epochs resp)"
proof -
  define s1 where "s1 = snd (so_heartbeat ops h (now + dc_heartbeat_ttl_seconds cfg) s)"
  define s2 where "s2 = snd (release_claims ops (wh_worker_id h) (wh_released_leases h) s1)"
  have s1: "inv s1" "leases s1 = leases s" using inv_heartbeat [OF assms(1)] others_heartbeat by (simp_all add: s1_def)
  note R = release_claims_holder [OF s1(1), of "wh_worker_id h" "wh_released_leases h", folded s2_def]
  have s': "s' = snd (renew_leases ops (wh_worker_id h) now (now + dc_lease_ttl_seconds cfg) (wh_active_leases h) s2)" and
    resp: "hr_rejected_session_epochs resp = fst (renew_leases ops (wh_worker_id h) now (now + dc_lease_ttl_seconds cfg) (wh_active_leases h) s2)"
    using assms(2) by (auto simp: director_heartbeat_def Let_def case_prod_beta s1_def s2_def)
  have N: "inv s'" "\<And>w c. holder s' w c \<Longrightarrow> holder s2 w c" using renew_leases_holder [of s2] R unfolding s' by blast+
  then show "inv s'" by simp
  have same: "holder s1 = holder s" by (simp add: holder_def fun_eq_iff s1(2))
  show "holder s w c \<and> \<not> (wh_worker_id h = w \<and> c \<in> set (wh_released_leases h))" if "holder s' w c"
    using N(2) [OF that] R [of w c] by (simp add: same)
  show "lr_session_epoch c \<in> set (hr_rejected_session_epochs resp)"
    if "distinct (map renewal_principal (wh_active_leases h))" "c \<in> set (wh_active_leases h)" "c \<in> set (wh_released_leases h)"
  proof -
    have "\<not> holder s2 (wh_worker_id h) c" using R that(3) by blast
    moreover have "inv s2" using R by blast
    ultimately show ?thesis
      using renew_leases_result [OF _ that(1,2), of s2 now "wh_worker_id h" "now + dc_lease_ttl_seconds cfg"]
      unfolding resp holder_def by (metis (no_types, lifting))
  qed
qed

end

section \<open>All leases are given back\<close>

text \<open>Of the claims \<open>C\<close> every one is still to be released, or the Director no longer holds it for the worker.\<close>

definition accounted :: "memory_store \<Rightarrow> string \<Rightarrow> session_registry \<Rightarrow> lease_renewal set \<Rightarrow> bool" where
  "accounted s w r C \<longleftrightarrow> (\<forall>c \<in> C. c \<in> set (rg_pending_releases r) \<or> \<not> memory.holder s w c)"

lemma revocations_keep_pending:
  assumes "dict_wf (rg_connections r)"
  shows "set (rg_pending_releases r) \<subseteq> set (rg_pending_releases (revoke_expired_leases now r))"
    "set (rg_pending_releases r) \<subseteq> set (rg_pending_releases (revoke_lease_claims cs r))"
  by (auto simp: revoke_expired_leases_def revoke_lease_claims_def revoke_claims_spec(3) [OF assms])

lemma answered_registry:
  assumes "sessions_ok r hs"
  shows "sessions_ok (snd (heartbeat_answered now answer h r)) hs \<and>
    connection_claims (snd (heartbeat_answered now answer h r)) \<subseteq> connection_claims r \<and>
    set (rg_pending_releases r) - set (wh_released_leases h) \<subseteq> set (rg_pending_releases (snd (heartbeat_answered now answer h r)))"
proof -
  define Q where "Q r' \<longleftrightarrow> sessions_ok r' hs \<and> connection_claims r' \<subseteq> connection_claims r \<and>
      set (rg_pending_releases r) - set (wh_released_leases h) \<subseteq> set (rg_pending_releases r')" for r'
  have "Q (snd (heartbeat_answered now answer h r))"
  proof (rule heartbeat_answered_keeps)
    fix r' and cs :: "lease_renewal list" assume "Q r'"
    then have q: "sessions_ok r' hs" "connection_claims r' \<subseteq> connection_claims r"
      "set (rg_pending_releases r) - set (wh_released_leases h) \<subseteq> set (rg_pending_releases r')" by (simp_all add: Q_def)
    note D = revocations_pending(4,5) [OF sessions_ok_wf [OF q(1)]] and K = revocations_keep_pending [OF sessions_ok_wf [OF q(1)]]
    show "Q (revoke_expired_leases now r')"
      unfolding Q_def using revocations_sessions_ok(1) [OF q(1)] D(1) [of now] K(1) [of now] q(2,3) by blast
    show "Q (revoke_lease_claims cs r')"
      unfolding Q_def using revocations_sessions_ok(2) [OF q(1)] D(2) [of cs] K(2) [of cs] q(2,3) by blast
  qed (use assms registry_parts_ok in \<open>auto simp: Q_def extend_fields acknowledge_lease_releases_def registry_admission_def connection_claims_def\<close>)
  then show ?thesis by (simp add: Q_def)
qed

lemma draining_fields [simp]:
  "rg_connections (registry_admission f r) = rg_connections r" "rg_lease_deadlines (registry_admission f r) = rg_lease_deadlines r"
  "rg_pending_releases (registry_admission f r) = rg_pending_releases r" "rg_retirement_tasks (registry_admission f r) = rg_retirement_tasks r"
  "connection_claims (registry_admission f r) = connection_claims r" "active_lease_renewals (registry_admission f r) = active_lease_renewals r"
  "pending_lease_releases (registry_admission f r) = pending_lease_releases r"
  by (simp_all add: registry_admission_def connection_claims_def active_lease_renewals_def pending_lease_releases_def)

lemma payload_fields [simp]:
  "wh_worker_id (heartbeat_payload w udp prov r) = wt_worker_id w" "wh_active_leases (heartbeat_payload w udp prov r) = active_lease_renewals r"
  "wh_released_leases (heartbeat_payload w udp prov r) = pending_lease_releases r"
  by (simp_all add: heartbeat_payload_def Let_def)

lemma send_accounted:
  assumes ok: "sessions_ok r hs" and s: "memory_inv s" and acc: "accounted s (wt_worker_id w) r C"
    and send: "send_draining_heartbeat w udp prov now (director_exchange memory_ops cfg t) r s = (x, r', s')"
  shows "sessions_ok r' hs \<and> memory_inv s' \<and> accounted s' (wt_worker_id w) r' C \<and>
    set (rg_pending_releases r') \<subseteq> set (rg_pending_releases r) \<union> connection_claims r \<and> connection_claims r' \<subseteq> connection_claims r"
proof -
  define r1 where "r1 = registry_admission (admission_set_draining True) r"
  define h where "h = heartbeat_payload w udp prov r1"
  have r1: "sessions_ok r1 hs" "rg_pending_releases r1 = rg_pending_releases r" "connection_claims r1 = connection_claims r"
    using registry_parts_ok(3) [OF ok] by (simp_all add: r1_def)
  obtain resp s1 where hb: "director_heartbeat memory_ops cfg t h s = (resp, s1)" by fastforce
  consider "s' = s" "r' = registry_admission (admission_set_draining True) (snd (heartbeat_answered now None h r1))"
    | "s' = s1" "r' = registry_admission (admission_set_draining True) (snd (heartbeat_answered t (Some resp) h r1))"
    using send by (auto simp: send_draining_heartbeat_def Let_def director_exchange_def r1_def [symmetric] h_def [symmetric] hb split: option.splits)
  then show ?thesis
  proof cases
    case 1
    have "set (rg_pending_releases r1) \<subseteq> set (rg_pending_releases (snd (heartbeat_answered now None h r1)))"
      using revocations_keep_pending(1) [OF sessions_ok_wf [OF r1(1)]] by (simp add: heartbeat_answered_def)
    then show ?thesis using 1 s acc answered_registry [OF r1(1), of now None h] answered_pending [OF r1(1), of now None h] r1 registry_parts_ok(3)
      by (auto simp: accounted_def)
  next
    case 2
    note H = memory.heartbeat_holder(1,2) [OF s hb]
    note A = answered_registry [OF r1(1), of t "Some resp" h] and B = answered_pending [OF r1(1), of t "Some resp" h]
    have "c \<in> set (rg_pending_releases r')" if "c \<in> C" "memory.holder s1 (wt_worker_id w) c" for c
    proof -
      have "memory.holder s (wt_worker_id w) c" "c \<notin> set (wh_released_leases h)" using H(2) [OF that(2)] by (simp_all add: h_def)
      moreover from this have "c \<in> set (rg_pending_releases r1)" using acc that(1) r1 by (auto simp: accounted_def)
      ultimately show ?thesis using A 2 by auto
    qed
    then show ?thesis using 2 H(1) A B r1 registry_parts_ok(3) by (auto simp: accounted_def)
  qed
qed

lemma filter_drop:
  assumes "distinct xs"
  shows "filter (\<lambda>x. x \<notin> set (take n xs)) xs = drop n xs"
proof -
  have "filter (\<lambda>x. x \<notin> set (take n xs)) (drop n xs) = drop n xs"
    using set_take_disj_set_drop_if_distinct [OF assms, of n n] by (auto simp: filter_id_conv)
  then have "filter (\<lambda>x. x \<notin> set (take n xs)) (take n xs @ drop n xs) = drop n xs"
    unfolding filter_append by (simp add: filter_empty_conv)
  then show ?thesis by simp
qed

text \<open>With no connections left, an answered heartbeat releases the next 64.\<close>

lemma closed_send:
  assumes r: "rg_connections r = []" "rg_lease_deadlines r = []" "distinct (rg_pending_releases r)"
    and send: "send_draining_heartbeat w udp prov now (director_exchange memory_ops cfg t) r s = (x, r', s')"
  shows "x = Some True \<and> rg_connections r' = [] \<and> rg_lease_deadlines r' = [] \<and> rg_pending_releases r' = drop 64 (rg_pending_releases r)"
proof -
  define r1 where "r1 = registry_admission (admission_set_draining True) r"
  define h where "h = heartbeat_payload w udp prov r1"
  obtain resp s1 where hb: "director_heartbeat memory_ops cfg t h s = (resp, s1)" by fastforce
  have act: "active_lease_renewals r = []" using r(1) by (simp add: active_lease_renewals_def map_filter_def)
  then have "heartbeat_budget now h r1 = Some None" by (simp add: heartbeat_budget_def lease_renewal_deadline_def h_def r1_def r(2))
  then have e: "x = Some True" "r' = registry_admission (admission_set_draining True) (snd (heartbeat_answered t (Some resp) h r1))"
    using send by (auto simp: send_draining_heartbeat_def Let_def director_exchange_def r1_def [symmetric] h_def [symmetric] hb)
  have nil: "revoke_expired_leases t r2 = r2" if "rg_connections r2 = []" "rg_lease_deadlines r2 = []" for r2
    using that by (simp add: revoke_expired_leases_def revoke_claims_def remove_claims_def)
  have ext: "extend_lease_deadlines t e [] r1 = r1" for e using r(2) by (simp add: extend_lease_deadlines_def r1_def registry_admission_def)
  have "(\<lambda>c. lease_claim_key c \<notin> lease_claim_key ` set xs) = (\<lambda>c. c \<notin> set xs)" for xs by (auto simp: image_iff)
  then have "rg_pending_releases r' = filter (\<lambda>c. c \<notin> set (take 64 (rg_pending_releases r))) (rg_pending_releases r)"
    "rg_connections r' = []" "rg_lease_deadlines r' = []"
    using r nil [of r1] act
    by (simp_all add: e heartbeat_answered_def h_def accepted_claims_def rejected_claims_def r1_def revoke_lease_claims_def
        acknowledge_lease_releases_def pending_lease_releases_def ext [unfolded r1_def] Let_def)
  then show ?thesis using e(1) filter_drop [OF r(3)] by simp
qed

lemma release_loop_done:
  assumes "sessions_ok r hs" "memory_inv s" "accounted s (wt_worker_id w) r C" "rg_connections r = []" "rg_lease_deadlines r = []"
    "length (rg_pending_releases r) \<le> 64 * left" "\<And>i. 0 < remaining i"
    "release_loop w udp prov clock remaining (\<lambda>i. director_exchange memory_ops cfg (clock i)) left i r s = (k, r', s')"
  shows "rg_pending_releases r' = [] \<and> k = i + (length (rg_pending_releases r) + 63) div 64 \<and> accounted s' (wt_worker_id w) r' C"
  using assms
proof (induction left arbitrary: i r s)
  case (Suc left)
  show ?case
  proof (cases "rg_pending_releases r = []")
    case True
    then show ?thesis using Suc.prems by (simp add: pending_lease_releases_def)
  next
    case False
    obtain x r1 s1 where send: "send_draining_heartbeat w udp prov (clock i) (director_exchange memory_ops cfg (clock i)) r s = (x, r1, s1)"
      by (metis prod_cases3)
    note A = send_accounted [OF Suc.prems(1-3) send]
    note B = closed_send [OF Suc.prems(4,5) sessions_ok_pending [OF Suc.prems(1)] send]
    have "0 < remaining i" by (rule Suc.prems(7))
    then have "release_loop w udp prov clock remaining (\<lambda>i. director_exchange memory_ops cfg (clock i)) left (Suc i) r1 s1 = (k, r', s')"
      using Suc.prems(8) False B by (simp add: pending_lease_releases_def send)
    note IH = Suc.IH [OF _ _ _ _ _ _ Suc.prems(7) this]
    have "(length (rg_pending_releases r) + 63) div 64 = Suc ((length (rg_pending_releases r) - 64 + 63) div 64)"
      using False by (cases "rg_pending_releases r") (auto simp: div_if)
    then show ?thesis using IH A B Suc.prems(6) by simp
  qed
qed (simp add: accounted_def)

lemma close_registry:
  assumes "sessions_ok r hs"
  defines "r' \<equiv> close_owner_end (close_owner_begin (registry_close r))"
  shows "sessions_ok r' hs" "rg_connections r' = []" "rg_lease_deadlines r' = []"
    "set (rg_pending_releases r') = set (rg_pending_releases r) \<union> connection_claims r"
proof -
  have "sessions_ok (registry_close r) hs"
    by (rule sessions_ok_cong [OF assms(1)]) (simp_all add: registry_close_def sessions_ok_pending [OF assms(1)])
  then have "sessions_ok (close_owner_begin (registry_close r)) hs" using close_owner_begin_ok by blast
  then show "sessions_ok r' hs" unfolding r'_def by (rule sessions_ok_cong) (simp_all add: close_owner_end_def sessions_ok_pending [OF \<open>sessions_ok (close_owner_begin _) hs\<close>])
  show "rg_connections r' = []" "rg_lease_deadlines r' = []" by (simp_all add: r'_def close_owner_end_def close_owner_begin_def Let_def)
  show "set (rg_pending_releases r') = set (rg_pending_releases r) \<union> connection_claims r"
    by (simp add: r'_def close_owner_end_def close_owner_begin_def registry_close_def Let_def connection_claims_def case_prod_beta)
qed

text \<open>The claims a worker may still have to give back.\<close>

definition owed_claims :: "session_registry \<Rightarrow> lease_renewal set" where
  "owed_claims r = set (rg_pending_releases r) \<union> connection_claims r"

lemma shutdown_fields:
  "set (rg_pending_releases (shutdown_begin r)) = owed_claims r" "connection_claims (shutdown_begin r) = connection_claims r"
  "rg_lease_deadlines (shutdown_begin r) = rg_lease_deadlines r" "rg_connections (shutdown_begin r) = rg_connections r"
  "rg_retirement_tasks (shutdown_begin r) = rg_retirement_tasks r"
  by (simp_all add: shutdown_begin_def snapshot_active_lease_releases_def registry_admission_def connection_claims_def owed_claims_def case_prod_beta)


text \<open>The worker of \<open>expiring_events\<close>, whose one connection holds the only lease of the store.\<close>

definition demo_owed :: lease_renewal where
  "demo_owed = \<lparr>lr_tenant_id = ''t'', lr_device_id = ''d'', lr_session_epoch = ''epoch-d'', lr_fencing_token = 1\<rparr>"

definition demo_leased :: memory_store where
  "demo_leased = snd (memory_acquire_route \<lparr>aq_tenant_id = ''t'', aq_device_id = ''d'', aq_worker_id = ''w1'', aq_worker_active_sessions = 0,
     aq_worker_max_sessions = 5, aq_session_epoch = ''epoch-d'', aq_now = 100, aq_expires_at = 130\<rparr> memory_init)"

lemma demo_leased_holder: "memory_inv demo_leased" "memory.holder demo_leased ''w1'' demo_owed"
proof -
  show "memory_inv demo_leased" unfolding demo_leased_def by (rule memory_acquire_inv [OF memory_init_inv])
  show "memory.holder demo_leased ''w1'' demo_owed"
    by (simp add: memory.holder_def memory_lease_def demo_leased_def demo_owed_def memory_acquire_route_def memory_init_def drop_expired_def
        renewal_principal_def lease_matches_def Let_def)
qed

lemma demo_owed_claims: "owed_claims (wp_registry (fold proc_step expiring_events (proc_init 1))) = {demo_owed}"
  by (simp add: owed_claims_def connection_claims_def expiring_registry demo_owed_def lease_claim_def lab_auth_def)


section \<open>How the connections are closed\<close>

lemma budget_left:
  assumes "\<forall>(k, d) \<in> set (rg_lease_deadlines r). now < d"
  shows "heartbeat_budget now h r \<noteq> None"
proof (cases "map snd (filter (\<lambda>(k, _). k \<in> lease_claim_key ` set (wh_active_leases h)) (rg_lease_deadlines r))")
  case (Cons d ds)
  have "now < x" if "x \<in> set (d # ds)" for x using that assms unfolding Cons [symmetric] by auto
  then have "now < fold min ds d" by (metis Min.set_eq_fold Min_in List.finite_set list.set_intros(1) empty_iff)
  then show ?thesis by (simp add: heartbeat_budget_def lease_renewal_deadline_def Cons)
qed (simp add: heartbeat_budget_def lease_renewal_deadline_def)

lemma answered_revokes:
  assumes ok: "sessions_ok r hs" and m: "(q, m, auth) \<in> set (rg_connections r)" "lease_claim auth = Some c" "dict_get (rg_retirement_tasks r) m = None"
    and c: "c \<in> set (rejected_claims resp h)"
  shows "dict_get (rg_retirement_tasks (snd (heartbeat_answered now (Some resp) h r))) m = Some (1008, ''stale_route_lease'') \<and>
    (q, m, auth) \<notin> set (rg_connections (snd (heartbeat_answered now (Some resp) h r)))"
proof -
  define r1 where "r1 = extend_lease_deadlines now (hr_lease_expires_at resp) (accepted_claims resp h) r"
  define r2 where "r2 = revoke_expired_leases now r1"
  define r3 where "r3 = (let r = acknowledge_lease_releases (wh_released_leases h) r2 in if hr_draining resp then registry_admission (admission_set_draining True) r else r)"
  have r': "snd (heartbeat_answered now (Some resp) h r) = revoke_claims (map lease_claim_key (rejected_claims resp h)) r3"
    using c by (auto simp: heartbeat_answered_def r1_def r2_def r3_def Let_def revoke_lease_claims_def)
  have s1: "sessions_ok r1 hs" unfolding r1_def by (rule registry_parts_ok(1) [OF ok])
  have f: "rg_connections r1 = rg_connections r" "rg_retirement_tasks r1 = rg_retirement_tasks r" "rg_connections r3 = rg_connections r2"
    "rg_retirement_tasks r3 = rg_retirement_tasks r2"
    by (simp_all add: r1_def r3_def extend_lease_deadlines_def acknowledge_lease_releases_def registry_admission_def Let_def)
  note R2 = revoke_claims_spec [OF sessions_ok_wf [OF s1], where ks = "map fst (filter (\<lambda>(_, deadline). deadline \<le> now) (rg_lease_deadlines r1))",
      folded revoke_expired_leases_def r2_def]
  have "dict_wf (rg_connections r3)" using sessions_ok_wf [OF revocations_sessions_ok(1) [OF s1]] f by (simp add: r2_def)
  note R3 = revoke_claims_spec [OF this, where ks = "map lease_claim_key (rejected_claims resp h)", folded r']
  have "claimed (set (map lease_claim_key (rejected_claims resp h))) auth" using c m(2) by (simp add: claimed_def)
  then have gone: "(q, m, auth) \<notin> set (rg_connections (snd (heartbeat_answered now (Some resp) h r)))"
    "(q, m, auth) \<in> set (rg_connections r3) \<Longrightarrow> dict_get (rg_retirement_tasks (snd (heartbeat_answered now (Some resp) h r))) m =
      Some (case dict_get (rg_retirement_tasks r3) m of None \<Rightarrow> (1008, ''stale_route_lease'') | Some t \<Rightarrow> t)"
    using R3(1,10) by auto
  have "dict_get (rg_retirement_tasks r2) m \<in> {None, Some (1008, ''stale_route_lease'')}" using R2(11) [of m] m(3) f by simp
  moreover have "(q, m, auth) \<in> set (rg_connections r2) \<or> dict_get (rg_retirement_tasks r2) m = Some (1008, ''stale_route_lease'')"
    using R2(1) R2(10) [of q m auth] m f by auto
  ultimately have "dict_get (rg_retirement_tasks (snd (heartbeat_answered now (Some resp) h r))) m = Some (1008, ''stale_route_lease'')"
    using gone(2) R3(11) [of m] f by auto
  then show ?thesis using gone(1) by simp
qed

text \<open>
  C8. A shutdown closes its sessions as stale. The leases of all connections are queued for release before the first heartbeat, which then reports them both as active and as
  released; the Director releases them, rejects their renewal, and the worker closes the connections with 1008 \<open>stale_route_lease\<close>. The close of the
  registry that follows, with the 1001 \<open>server_shutdown\<close> of the protocol, finds them gone.
\<close>

theorem shutdown_closes_as_stale:
  assumes "fresh_events es (proc_init n)" and s: "memory_inv s"
  defines "r \<equiv> wp_registry (fold proc_step es (proc_init n))"
  assumes m: "(q, m, auth) \<in> set (rg_connections r)" "lease_claim auth = Some c" "dict_get (rg_retirement_tasks r) m = None"
    and few: "length (rg_pending_releases (shutdown_begin r)) \<le> 64" and live: "\<forall>(k, d) \<in> set (rg_lease_deadlines r). now < d"
  shows "case send_draining_heartbeat w udp prov now (director_exchange memory_ops cfg now) (shutdown_begin r) s of (sent, r', s') \<Rightarrow>
    sent = Some True \<and> (q, m, auth) \<notin> set (rg_connections r') \<and>
    dict_get (rg_retirement_tasks (close_owner_begin (registry_close r'))) m = Some (1008, ''stale_route_lease'')"
proof -
  define hs where "hs = wp_handlers (fold proc_step es (proc_init n))"
  define r1 where "r1 = registry_admission (admission_set_draining True) (shutdown_begin r)"
  define h where "h = heartbeat_payload w udp prov r1"
  have "sessions_ok r hs" using proc_run_inv [OF proc_init_inv assms(1)] by (simp add: proc_inv_def r_def hs_def)
  then have ok: "sessions_ok r1 hs" unfolding r1_def by (intro registry_parts_ok(3) shutdown_ok)
  obtain resp s1 where hb: "director_heartbeat memory_ops cfg now h s = (resp, s1)" by fastforce
  have budget: "heartbeat_budget now h r1 \<noteq> None" using live by (intro budget_left) (simp add: r1_def shutdown_fields)
  note A = active_principals [OF ok [unfolded sessions_ok_def, THEN conjunct1]]
  have "c \<in> connection_claims r" using m by (force simp: connection_claims_def)
  then have c: "c \<in> set (wh_active_leases h)" "c \<in> set (wh_released_leases h)"
    using A(2) few shutdown_fields(1,2) [of r] by (simp_all add: h_def r1_def pending_lease_releases_def owed_claims_def)
  have "lr_session_epoch c \<in> set (hr_rejected_session_epochs resp)"
    using memory.heartbeat_holder(3) [OF s hb _ c] A(1) by (simp add: h_def)
  then have "c \<in> set (rejected_claims resp h)" using c(1) by (simp add: rejected_claims_def)
  note V = answered_revokes [OF ok _ m(2) _ this, of q m now]
  define r' where "r' = registry_admission (admission_set_draining True) (snd (heartbeat_answered now (Some resp) h r1))"
  have V: "dict_get (rg_retirement_tasks r') m = Some (1008, ''stale_route_lease'')" "(q, m, auth) \<notin> set (rg_connections r')"
    using V m by (simp_all add: r1_def shutdown_fields r'_def)
  have "send_draining_heartbeat w udp prov now (director_exchange memory_ops cfg now) (shutdown_begin r) s = (Some True, r', s1)"
    using budget by (auto simp: send_draining_heartbeat_def Let_def director_exchange_def r1_def [symmetric] h_def [symmetric] hb r'_def)
  moreover have "dict_get (rg_retirement_tasks (close_owner_begin (registry_close r'))) m = Some (1008, ''stale_route_lease'')"
    using V(1) by (simp add: close_owner_begin_def Let_def schedule_tasks registry_close_def)
  ultimately show ?thesis using V(2) by simp
qed

theorem shutdown_closes_as_stale_witness:
  "map fst (rg_connections (wp_registry (fold proc_step expiring_events (proc_init 1)))) = [(''t'', ''d'')] \<and>
   (case send_draining_heartbeat demo_worker_settings False True 110 (director_exchange memory_ops demo_config 110)
      (shutdown_begin (wp_registry (fold proc_step expiring_events (proc_init 1)))) demo_leased of (sent, r', s') \<Rightarrow>
    sent = Some True \<and> dict_get (rg_retirement_tasks (close_owner_begin (registry_close r'))) 0 = Some (1008, ''stale_route_lease''))"
proof -
  let ?r = "wp_registry (fold proc_step expiring_events (proc_init 1))"
  note E = expiring_registry
  have m: "((''t'', ''d''), 0, lab_auth ''d''\<lparr>ac_expires_at := Some 130\<rparr>) \<in> set (rg_connections ?r)" by (simp add: E)
  have c: "lease_claim (lab_auth ''d''\<lparr>ac_expires_at := Some 130\<rparr>) = Some demo_owed" by (simp add: lease_claim_def lab_auth_def demo_owed_def)
  have l: "length (rg_pending_releases (shutdown_begin ?r)) \<le> 64"
    by (simp add: shutdown_begin_def snapshot_active_lease_releases_def registry_admission_def queue_lease_release_def E c)
  show ?thesis
    using shutdown_closes_as_stale [OF E(1) demo_leased_holder(1) m c _ l, of 110 demo_worker_settings False True demo_config] by (auto simp: E)
qed

end
