(* ===== verification/Client_Media.thy ===== *)
theory Client_Media
  imports Udp_Gateway Rva_Protocol
begin

text \<open>
  The media side of the desktop client, \<open>rva_desktop/protocol/media.py\<close> and \<open>protocol/udp.py\<close>: the frame codec, the
  replay window and the datagram cipher, and how they meet their counterparts in the worker.
\<close>

datatype client_error = ProtocolError string | SessionClosed | ClientValueError | ClientTypeError | ClientUnicodeError | ClientKeyError

definition MAX_WSS_FRAME_BYTES :: nat where "MAX_WSS_FRAME_BYTES = 32 + 1200"
definition MAX_UDP_DATAGRAM_BYTES :: nat where "MAX_UDP_DATAGRAM_BYTES = 1280"
definition GCM_TAG_BYTES :: nat where "GCM_TAG_BYTES = 16"
definition MAX_PAYLOAD_BYTES :: nat where "MAX_PAYLOAD_BYTES = 1200"
definition HEADER_BYTES :: nat where "HEADER_BYTES = 32"
definition FLAG_AUDIO :: int where "FLAG_AUDIO = 1"
definition FLAG_PROBE :: int where "FLAG_PROBE = 2"
definition FLAG_PROBE_ACK :: int where "FLAG_PROBE_ACK = 4"
definition FLAG_KEEPALIVE :: int where "FLAG_KEEPALIVE = 8"
definition VALID_FLAGS :: "int list" where "VALID_FLAGS = [FLAG_AUDIO, FLAG_PROBE, FLAG_PROBE_ACK, FLAG_KEEPALIVE]"

lemmas client_consts = MAX_WSS_FRAME_BYTES_def MAX_UDP_DATAGRAM_BYTES_def GCM_TAG_BYTES_def MAX_PAYLOAD_BYTES_def
  HEADER_BYTES_def FLAG_AUDIO_def FLAG_PROBE_def FLAG_PROBE_ACK_def FLAG_KEEPALIVE_def VALID_FLAGS_def

section \<open>Frames\<close>

record media_frame =
  mf_flags :: int
  mf_media_id :: bytes
  mf_media_epoch :: int
  mf_sequence :: int
  mf_timestamp :: int
  mf_generation :: int
  mf_payload :: bytes

definition client_uint32 :: "string \<Rightarrow> int \<Rightarrow> int \<Rightarrow> client_error + unit" where
  "client_uint32 field value minimum =
    check_that (minimum \<le> value \<and> value \<le> uint32_max) (ProtocolError (''invalid_'' @ field))"

definition client_struct :: "media_frame \<Rightarrow> media_header" where
  "client_struct f = \<lparr>h_magic = [0x56, 0x41], h_version = 1, h_flags = mf_flags f, h_media_id = mf_media_id f,
     h_epoch = mf_media_epoch f, h_sequence = mf_sequence f, h_timestamp = mf_timestamp f, h_generation = mf_generation f,
     h_length = int (length (mf_payload f))\<rparr>"

definition client_header :: "media_frame \<Rightarrow> client_error + bytes" where
  "client_header f =
    (if mf_flags f \<notin> set VALID_FLAGS then Inl (ProtocolError ''invalid_media_flags'')
     else if length (mf_media_id f) \<noteq> 8 then Inl (ProtocolError ''invalid_media_id'')
     else
       bind_result (client_uint32 ''media_epoch'' (mf_media_epoch f) 1) (\<lambda>_.
       bind_result (client_uint32 ''sequence'' (mf_sequence f) 0) (\<lambda>_.
       bind_result (client_uint32 ''timestamp'' (mf_timestamp f) 0) (\<lambda>_.
       bind_result (client_uint32 ''generation'' (mf_generation f) 0) (\<lambda>_.
       if length (mf_payload f) > MAX_PAYLOAD_BYTES then Inl (ProtocolError ''invalid_media_payload'')
       else if mf_flags f = FLAG_AUDIO \<and> mf_payload f = [] then Inl (ProtocolError ''invalid_media_payload'')
       else if mf_flags f \<noteq> FLAG_AUDIO \<and> mf_payload f \<noteq> [] then Inl (ProtocolError ''non_audio_payload'')
       else if mf_flags f \<noteq> FLAG_AUDIO \<and> mf_generation f \<noteq> 0 then Inl (ProtocolError ''invalid_media_generation'')
       else Inr (header_wire (client_struct f)))))))"

definition encode_plain :: "media_frame \<Rightarrow> client_error + bytes" where
  "encode_plain f = bind_result (client_header f) (\<lambda>h. Inr (h @ mf_payload f))"

text \<open>\<open>decode_header\<close> returns a frame without payload and the tail; the unpacked integers are in the range of their fields.\<close>

definition decode_header :: "bool \<Rightarrow> bytes \<Rightarrow> client_error + media_frame \<times> bytes" where
  "decode_header encrypted wire =
    (let tag = (if encrypted then GCM_TAG_BYTES else 0);
         maximum = (if encrypted then MAX_UDP_DATAGRAM_BYTES else MAX_WSS_FRAME_BYTES)
     in if length wire < HEADER_BYTES + tag then Inl (ProtocolError ''truncated_media_header'')
        else if length wire > maximum then Inl (ProtocolError ''media_frame_too_large'')
        else
          let h = header_unpack wire; rest = drop HEADER_BYTES wire
          in if h_magic h \<noteq> [0x56, 0x41] \<or> h_version h \<noteq> 1 then Inl (ProtocolError ''unsupported_media_header'')
             else if int (length rest) \<noteq> h_length h + int tag then Inl (ProtocolError ''media_length_mismatch'')
             else if h_flags h \<notin> set VALID_FLAGS then Inl (ProtocolError ''invalid_media_flags'')
             else if length (h_media_id h) \<noteq> 8 then Inl (ProtocolError ''invalid_media_id'')
             else
               bind_result (client_uint32 ''media_epoch'' (h_epoch h) 1) (\<lambda>_.
               bind_result (client_uint32 ''sequence'' (h_sequence h) 0) (\<lambda>_.
               bind_result (client_uint32 ''timestamp'' (h_timestamp h) 0) (\<lambda>_.
               bind_result (client_uint32 ''generation'' (h_generation h) 0) (\<lambda>_.
               if h_flags h \<noteq> FLAG_AUDIO \<and> h_generation h \<noteq> 0 then Inl (ProtocolError ''invalid_media_generation'')
               else if h_flags h = FLAG_AUDIO \<and> h_length h = 0 then Inl (ProtocolError ''invalid_media_payload'')
               else if h_length h > int MAX_PAYLOAD_BYTES then Inl (ProtocolError ''invalid_media_payload'')
               else Inr (\<lparr>mf_flags = h_flags h, mf_media_id = h_media_id h, mf_media_epoch = h_epoch h,
                          mf_sequence = h_sequence h, mf_timestamp = h_timestamp h, mf_generation = h_generation h,
                          mf_payload = []\<rparr>, rest))))))"

definition decode_plain :: "bytes \<Rightarrow> client_error + media_frame" where
  "decode_plain wire = bind_result (decode_header False wire) (\<lambda>(f, rest). Inr (f\<lparr>mf_payload := rest\<rparr>))"

section \<open>Replay window\<close>

record client_window =
  cw_highest :: "int option"
  cw_bitmap :: int

definition client_window_init :: client_window where
  "client_window_init = \<lparr>cw_highest = None, cw_bitmap = 0\<rparr>"

definition acceptable :: "client_window \<Rightarrow> int \<Rightarrow> bool" where
  "acceptable w n \<longleftrightarrow> is_uint32 n \<and> (case cw_highest w of
      None \<Rightarrow> True
    | Some h \<Rightarrow> if n > h then n - h \<le> 1024
        else h - n < 64 \<and> cw_bitmap w AND push_bit (nat (h - n)) 1 = 0)"

definition client_commit :: "client_window \<Rightarrow> int \<Rightarrow> client_window option" where
  "client_commit w n =
    (if \<not> acceptable w n then None
     else case cw_highest w of
         None \<Rightarrow> Some \<lparr>cw_highest = Some n, cw_bitmap = 1\<rparr>
       | Some h \<Rightarrow>
           if n > h
           then Some \<lparr>cw_highest = Some n, cw_bitmap = (push_bit (nat (n - h)) (cw_bitmap w) OR 1) AND window_mask\<rparr>
           else Some (w\<lparr>cw_bitmap := cw_bitmap w OR push_bit (nat (h - n)) 1\<rparr>))"

section \<open>Cipher\<close>

record udp_cipher =
  uc_key :: bytes
  uc_salt :: bytes

definition udp_cipher_init :: "bytes \<Rightarrow> bytes \<Rightarrow> client_error + udp_cipher" where
  "udp_cipher_init key salt =
    (if length key \<noteq> 16 then Inl ClientValueError else if length salt \<noteq> 8 then Inl ClientValueError
     else Inr \<lparr>uc_key = key, uc_salt = salt\<rparr>)"

definition cipher_encrypt :: "aead \<Rightarrow> udp_cipher \<Rightarrow> media_frame \<Rightarrow> client_error + bytes" where
  "cipher_encrypt A c f = bind_result (client_header f) (\<lambda>aad.
     Inr (aad @ aead_encrypt A (uc_key c) (uc_salt c @ be32 (mf_sequence f)) (mf_payload f) aad))"

definition cipher_decrypt :: "aead \<Rightarrow> udp_cipher \<Rightarrow> bytes \<Rightarrow> client_error + media_frame" where
  "cipher_decrypt A c datagram = bind_result (decode_header True datagram) (\<lambda>(f, encrypted).
     case aead_decrypt A (uc_key c) (uc_salt c @ be32 (mf_sequence f)) encrypted (take HEADER_BYTES datagram) of
       None \<Rightarrow> Inl (ProtocolError ''udp_authentication_failed'')
     | Some payload \<Rightarrow> Inr (f\<lparr>mf_payload := payload\<rparr>))"

text \<open>What AES-GCM promises: decryption inverts encryption, and the tag has 16 bytes.\<close>

definition aead_laws :: "aead \<Rightarrow> bool" where
  "aead_laws A \<longleftrightarrow> (\<forall>k n p a. aead_decrypt A k n (aead_encrypt A k n p a) a = Some p) \<and>
     (\<forall>k n p a. length (aead_encrypt A k n p a) = length p + 16)"

section \<open>Codec lemmas\<close>

definition client_frame_valid :: "media_frame \<Rightarrow> bool" where
  "client_frame_valid f \<longleftrightarrow> mf_flags f \<in> set VALID_FLAGS \<and> length (mf_media_id f) = 8 \<and> 1 \<le> mf_media_epoch f \<and>
     mf_media_epoch f \<le> uint32_max \<and> is_uint32 (mf_sequence f) \<and> is_uint32 (mf_timestamp f) \<and> is_uint32 (mf_generation f) \<and>
     length (mf_payload f) \<le> 1200 \<and> (mf_flags f = 1 \<longrightarrow> mf_payload f \<noteq> []) \<and> (mf_flags f \<noteq> 1 \<longrightarrow> mf_generation f = 0)"

definition no_stray_payload :: "media_frame \<Rightarrow> bool" where
  "no_stray_payload f \<longleftrightarrow> (mf_flags f \<noteq> 1 \<longrightarrow> mf_payload f = [])"

lemma client_header_eq:
  "client_header f = Inr h \<longleftrightarrow> client_frame_valid f \<and> no_stray_payload f \<and> h = header_wire (client_struct f)"
  by (auto simp: client_header_def client_frame_valid_def no_stray_payload_def bind_result_Inr_iff client_uint32_def check_that_def
      is_uint32_def client_consts split: if_splits)

lemma client_struct_wf: "client_frame_valid f \<Longrightarrow> header_wf (client_struct f)"
  by (auto simp: client_frame_valid_def header_wf_def header_in_range_def client_struct_def client_consts is_byte_def is_uint32_def
      uint32_max_def)

lemma if_error_Inr: "(if c then Inl e else m) = Inr a \<longleftrightarrow> \<not> c \<and> m = Inr a"
  by simp

lemma client_uint32_Inr: "client_uint32 field v m = Inr u \<longleftrightarrow> m \<le> v \<and> v \<le> uint32_max"
  by (simp add: client_uint32_def check_that_def)

text \<open>The conditions of \<open>decode_header\<close>, read off its definition.\<close>

definition header_accepted :: "nat \<Rightarrow> nat \<Rightarrow> bytes \<Rightarrow> media_header \<Rightarrow> bool" where
  "header_accepted tag maximum wire h \<longleftrightarrow> 32 + tag \<le> length wire \<and> length wire \<le> maximum \<and> h_magic h = [0x56, 0x41] \<and>
     h_version h = 1 \<and> int (length (drop 32 wire)) = h_length h + int tag \<and> h_flags h \<in> set VALID_FLAGS \<and>
     length (h_media_id h) = 8 \<and> 1 \<le> h_epoch h \<and> h_epoch h \<le> uint32_max \<and> is_uint32 (h_sequence h) \<and>
     is_uint32 (h_timestamp h) \<and> is_uint32 (h_generation h) \<and> (h_flags h \<noteq> 1 \<longrightarrow> h_generation h = 0) \<and>
     (h_flags h = 1 \<longrightarrow> h_length h \<noteq> 0) \<and> h_length h \<le> 1200"

definition bare_frame :: "media_header \<Rightarrow> media_frame" where
  "bare_frame h = \<lparr>mf_flags = h_flags h, mf_media_id = h_media_id h, mf_media_epoch = h_epoch h, mf_sequence = h_sequence h,
     mf_timestamp = h_timestamp h, mf_generation = h_generation h, mf_payload = []\<rparr>"

lemma decode_header_conds:
  "decode_header enc wire = Inr (f, rest) \<longleftrightarrow>
     header_accepted (if enc then 16 else 0) (if enc then 1280 else 1232) wire (header_unpack wire) \<and>
     f = bare_frame (header_unpack wire) \<and> rest = drop 32 wire"
  unfolding decode_header_def Let_def if_error_Inr bind_result_Inr_iff client_uint32_Inr header_accepted_def bare_frame_def
    client_consts is_uint32_def
  by (cases enc; simp add: not_less; blast)

lemma decode_header_iff:
  "decode_header enc wire = Inr (f, rest) \<longleftrightarrow> mf_payload f = [] \<and> (\<exists>p. length rest = length p + (if enc then 16 else 0) \<and>
     client_frame_valid (f\<lparr>mf_payload := p\<rparr>) \<and> wire = header_wire (client_struct (f\<lparr>mf_payload := p\<rparr>)) @ rest)"
proof
  assume "mf_payload f = [] \<and> (\<exists>p. length rest = length p + (if enc then 16 else 0) \<and>
     client_frame_valid (f\<lparr>mf_payload := p\<rparr>) \<and> wire = header_wire (client_struct (f\<lparr>mf_payload := p\<rparr>)) @ rest)"
  then obtain p where f: "mf_payload f = []" and p: "length rest = length p + (if enc then 16 else 0)"
    "client_frame_valid (f\<lparr>mf_payload := p\<rparr>)" "wire = header_wire (client_struct (f\<lparr>mf_payload := p\<rparr>)) @ rest" by blast
  have u: "header_unpack wire = client_struct (f\<lparr>mf_payload := p\<rparr>)"
    unfolding p(3) using header_unpack_wire [OF client_struct_wf [OF p(2)]] .
  have w: "length wire = 32 + length rest" "drop 32 wire = rest" by (simp_all add: p(3))
  have "f = bare_frame (client_struct (f\<lparr>mf_payload := p\<rparr>))"
    using f by (simp add: bare_frame_def client_struct_def)
  moreover have "header_accepted (if enc then 16 else 0) (if enc then 1280 else 1232) wire (client_struct (f\<lparr>mf_payload := p\<rparr>))"
    unfolding header_accepted_def using p(1,2) w by (simp add: client_struct_def client_frame_valid_def)
  ultimately show "decode_header enc wire = Inr (f, rest)" unfolding decode_header_conds u using w by simp
next
  assume "decode_header enc wire = Inr (f, rest)"
  then have a: "header_accepted (if enc then 16 else 0) (if enc then 1280 else 1232) wire (header_unpack wire)"
    and f: "f = bare_frame (header_unpack wire)" and rest: "rest = drop 32 wire"
    unfolding decode_header_conds by blast+
  let ?h = "header_unpack wire"
  have l: "32 \<le> length wire" using a by (simp add: header_accepted_def)
  define p :: bytes where "p = replicate (nat (h_length ?h)) 0"
  have n: "int (length p) = h_length ?h"
    using header_unpack_wf [OF l] by (simp add: p_def header_wf_def header_in_range_def is_uint32_def)
  have s: "client_struct (f\<lparr>mf_payload := p\<rparr>) = ?h"
    using a n by (intro media_header.equality) (simp_all add: client_struct_def f bare_frame_def header_accepted_def)
  moreover have "client_frame_valid (f\<lparr>mf_payload := p\<rparr>)"
    using a n by (auto simp: client_frame_valid_def f bare_frame_def header_accepted_def)
  moreover have "length rest = length p + (if enc then 16 else 0)" using a n rest by (simp add: header_accepted_def)
  ultimately show "mf_payload f = [] \<and> (\<exists>p. length rest = length p + (if enc then 16 else 0) \<and>
     client_frame_valid (f\<lparr>mf_payload := p\<rparr>) \<and> wire = header_wire (client_struct (f\<lparr>mf_payload := p\<rparr>)) @ rest)"
    using header_unpack_eq_wire [OF l refl] rest by (auto simp: f bare_frame_def)
qed

lemma client_struct_length: "length p = length q \<Longrightarrow> client_struct (f\<lparr>mf_payload := p\<rparr>) = client_struct (f\<lparr>mf_payload := q\<rparr>)"
  by (simp add: client_struct_def)

lemma client_valid_length: "length p = length q \<Longrightarrow> client_frame_valid (f\<lparr>mf_payload := p\<rparr>) \<longleftrightarrow> client_frame_valid (f\<lparr>mf_payload := q\<rparr>)"
  by (cases p; cases q) (auto simp: client_frame_valid_def)

lemma decode_plain_iff: "decode_plain w = Inr f \<longleftrightarrow> client_frame_valid f \<and> w = header_wire (client_struct f) @ mf_payload f"
proof
  assume "decode_plain w = Inr f"
  then obtain g rest where g: "decode_header False w = Inr (g, rest)" "f = g\<lparr>mf_payload := rest\<rparr>"
    by (auto simp: decode_plain_def bind_result_Inr_iff)
  then obtain p where p: "length rest = length p" "client_frame_valid (g\<lparr>mf_payload := p\<rparr>)"
    "w = header_wire (client_struct (g\<lparr>mf_payload := p\<rparr>)) @ rest" by (auto simp: decode_header_iff)
  then show "client_frame_valid f \<and> w = header_wire (client_struct f) @ mf_payload f"
    using client_struct_length [OF p(1), of g] client_valid_length [OF p(1), of g] g(2) by simp
next
  assume f: "client_frame_valid f \<and> w = header_wire (client_struct f) @ mf_payload f"
  have "decode_header False w = Inr (f\<lparr>mf_payload := []\<rparr>, mf_payload f)"
    unfolding decode_header_iff using f by (auto intro!: exI [of _ "mf_payload f"])
  then show "decode_plain w = Inr f" by (simp add: decode_plain_def)
qed

text \<open>The plain codec of the client, restricted to the frames that its own encoder would send.\<close>

definition decode_sendable :: "bytes \<Rightarrow> client_error + media_frame" where
  "decode_sendable w = bind_result (decode_plain w) (\<lambda>f.
     if no_stray_payload f then Inr f else Inl (ProtocolError ''non_audio_payload''))"

interpretation client_plain: media_codec "\<lambda>f. client_frame_valid f \<and> no_stray_payload f" encode_plain decode_sendable
  by unfold_locales
    (auto simp: isOk_iff encode_plain_def bind_result_Inr_iff client_header_eq decode_sendable_def decode_plain_iff split: if_splits)

section \<open>The client's replay window meets the contract\<close>

definition client_tracks :: "client_window \<Rightarrow> int set \<Rightarrow> bool" where
  "client_tracks w H \<longleftrightarrow> (case cw_highest w of None \<Rightarrow> H = {} | Some h \<Rightarrow> window_tracks h (cw_bitmap w) H)"

lemma acceptable_tracks:
  assumes t: "client_tracks w H" and H: "H \<noteq> {}" and n: "is_uint32 n"
  shows "acceptable w n \<longleftrightarrow> n \<notin> H \<and> Max H - 64 < n \<and> n \<le> Max H + 1024"
proof -
  obtain h where h: "cw_highest w = Some h" using t H by (auto simp: client_tracks_def split: option.splits)
  then have w: "window_tracks h (cw_bitmap w) H" using t by (simp add: client_tracks_def)
  note m = window_tracks_Max [OF w]
  show ?thesis
  proof (cases "n > h")
    case True
    then have "n \<notin> H" using w by (auto simp: window_tracks_def)
    then show ?thesis using True m h n by (auto simp: acceptable_def)
  next
    case False
    then show ?thesis
      using m h n window_tracks_bit [OF w, of n] by (auto simp: acceptable_def and_exp_eq_0)
  qed
qed

lemma client_commit_tracks:
  assumes t: "client_tracks w H" and c: "client_commit w n = Some w'"
  shows "client_tracks w' (insert n H)"
proof (cases "cw_highest w")
  case None
  then have "w' = \<lparr>cw_highest = Some n, cw_bitmap = 1\<rparr>" "H = {}" "0 \<le> n"
    using t c by (auto simp: client_commit_def client_tracks_def acceptable_def is_uint32_def split: if_splits)
  then show ?thesis using window_tracks_single [of n 1] by (simp add: client_tracks_def bit_1_iff)
next
  case (Some h)
  then have w: "window_tracks h (cw_bitmap w) H" using t by (simp add: client_tracks_def)
  show ?thesis
  proof (cases "n > h")
    case True
    then have "w' = \<lparr>cw_highest = Some n, cw_bitmap = (push_bit (nat (n - h)) (cw_bitmap w) OR 1) AND window_mask\<rparr>"
      using c Some by (auto simp: client_commit_def split: if_splits)
    then show ?thesis
      using window_tracks_forward [OF w True] by (simp add: client_tracks_def bit_shifted_window)
  next
    case False
    then have "w' = w\<lparr>cw_bitmap := cw_bitmap w OR push_bit (nat (h - n)) 1\<rparr>" "0 \<le> n"
      using c Some by (auto simp: client_commit_def acceptable_def is_uint32_def split: if_splits)
    then show ?thesis using window_tracks_backward [OF w, of n] False Some by (simp add: client_tracks_def)
  qed
qed

interpretation client_replay: replay_guard client_window_init acceptable client_commit client_tracks
proof unfold_locales
  show "client_tracks client_window_init {}" by (simp add: client_tracks_def client_window_init_def)
  show "client_commit w n \<noteq> None \<longleftrightarrow> acceptable w n" for w n by (simp add: client_commit_def split: option.split)
  show "client_tracks w H \<Longrightarrow> is_uint32 n \<Longrightarrow> client_commit w n = Some w' \<Longrightarrow> client_tracks w' (insert n H)" for w H n w'
    by (rule client_commit_tracks)
  show "client_tracks w {} \<Longrightarrow> is_uint32 n \<Longrightarrow> acceptable w n" for w n
    by (auto simp: client_tracks_def acceptable_def window_tracks_def split: option.splits)
  show "client_tracks w H \<Longrightarrow> H \<noteq> {} \<Longrightarrow> is_uint32 n \<Longrightarrow>
      acceptable w n \<longleftrightarrow> n \<notin> H \<and> Max H - 64 < n \<and> n \<le> Max H + 1024" for w H n
    by (rule acceptable_tracks)
qed

section \<open>Both windows admit the same packets\<close>

text \<open>Two implementations of the contract that track the same history admit the same stream.\<close>

lemma windows_agree:
  assumes "replay_tracks v H" "client_tracks w H" "list_all is_uint32 ns"
  shows "admitted replay_commit v ns = admitted client_commit w ns"
  using assms
proof (induction ns arbitrary: v w H)
  case Nil
  then show ?case by simp
next
  case (Cons n ns)
  have n: "is_uint32 n" using Cons.prems by simp
  have eq: "can_accept v n \<longleftrightarrow> acceptable w n"
    using worker_replay.acceptable_iff [OF Cons.prems(1) _ n] client_replay.acceptable_iff [OF Cons.prems(2) _ n]
      worker_replay.acceptable_first [of v n] client_replay.acceptable_first [of w n] Cons.prems n
    by (cases "H = {}") auto
  show ?case
  proof (cases "can_accept v n")
    case True
    then obtain v' w' where c: "replay_commit v n = Some v'" "client_commit w n = Some w'"
      using worker_replay.commit_iff [of v n] client_replay.commit_iff [of w n] eq by auto
    then show ?thesis
      using Cons.IH [of v' "insert n H" w'] Cons.prems worker_replay.commit_tracks [OF Cons.prems(1) n c(1)]
        client_replay.commit_tracks [OF Cons.prems(2) n c(2)] by simp
  next
    case False
    then have "replay_commit v n = None" "client_commit w n = None"
      using worker_replay.commit_iff [of v n] client_replay.commit_iff [of w n] eq by auto
    then show ?thesis using Cons by simp
  qed
qed

text \<open>
  C40. The worker and the client guard against replay alike: from a fresh window, both admit exactly the same packets
  of any stream of sequence numbers, and neither admits one twice.
\<close>

theorem replay_windows_equivalent:
  assumes "list_all is_uint32 ns"
  shows "admitted replay_commit replay_init ns = admitted client_commit client_window_init ns \<and>
    distinct (admitted client_commit client_window_init ns)"
  using windows_agree [OF worker_replay.tracks_init client_replay.tracks_init assms] client_replay.admitted_distinct [OF assms]
  by simp

theorem replay_windows_equivalent_witness:
  "admitted replay_commit replay_init [0, 3, 3, 1, 2000] = admitted client_commit client_window_init [0, 3, 3, 1, 2000]"
  using replay_windows_equivalent [of "[0, 3, 3, 1, 2000]"] by (simp add: is_uint32_def uint32_max_def)

section \<open>Worker and client understand each other's media\<close>

definition client_of :: "wss_media_frame \<Rightarrow> media_frame" where
  "client_of fr = \<lparr>mf_flags = FLAG_AUDIO, mf_media_id = fr_media_id fr, mf_media_epoch = fr_media_epoch fr,
     mf_sequence = fr_sequence fr, mf_timestamp = fr_timestamp fr, mf_generation = fr_generation fr, mf_payload = fr_payload fr\<rparr>"

lemma client_of_valid: "client_frame_valid (client_of fr) \<longleftrightarrow> frame_valid fr"
  by (auto simp: client_frame_valid_def client_of_def frame_valid_def client_consts media_consts)

lemma client_of_struct: "client_struct (client_of fr) = frame_header 1 fr"
  by (simp add: client_struct_def client_of_def frame_header_def client_consts media_consts)

text \<open>
  The WSS frames of the worker and of the client are the same format: whatever bytes arrive, the worker reads an
  audio frame from them exactly when the client does, and it is the same frame; and both write the same bytes for it.
\<close>

theorem wss_media_interop:
  "(parse w = Inr fr \<longleftrightarrow> decode_plain w = Inr (client_of fr)) \<and> (serialize fr = Inr w \<longleftrightarrow> encode_plain (client_of fr) = Inr w)"
  by (auto simp: parse_eq decode_plain_iff serialize_eq client_of_valid client_of_struct encode_plain_def bind_result_Inr_iff
      client_header_eq no_stray_payload_def)
    (auto simp: client_of_def client_consts)

text \<open>Headers of datagrams.\<close>

definition client_of_udp :: "udp_packet_header \<Rightarrow> bytes \<Rightarrow> media_frame" where
  "client_of_udp h payload = \<lparr>mf_flags = uh_flags h, mf_media_id = uh_media_id h, mf_media_epoch = uh_media_epoch h,
     mf_sequence = uh_sequence h, mf_timestamp = uh_timestamp h, mf_generation = uh_generation h, mf_payload = payload\<rparr>"

lemma client_udp_struct:
  "uh_payload_length h = int (length payload) \<Longrightarrow> client_struct (client_of_udp h payload) = udp_struct h"
  by (simp add: client_struct_def client_of_udp_def udp_struct_def udp_consts)

lemma cipher_decrypt_sealed:
  assumes A: "aead_laws A" and v: "client_frame_valid f"
  shows "cipher_decrypt A c (header_wire (client_struct f) @
      aead_encrypt A (uc_key c) (uc_salt c @ be32 (mf_sequence f)) (mf_payload f) (header_wire (client_struct f))) = Inr f"
proof -
  let ?h = "header_wire (client_struct f)"
  let ?e = "aead_encrypt A (uc_key c) (uc_salt c @ be32 (mf_sequence f)) (mf_payload f) ?h"
  have "decode_header True (?h @ ?e) = Inr (f\<lparr>mf_payload := []\<rparr>, ?e)"
    unfolding decode_header_iff using v A by (auto simp: aead_laws_def intro!: exI [of _ "mf_payload f"])
  then show ?thesis using A by (simp add: cipher_decrypt_def aead_laws_def client_consts)
qed

lemma udp_send_audio_datagram:
  assumes "udp_send_audio A cx payload ts g u = (Inr n, u')"
  shows "\<exists>a h. us_sent u' = us_sent u @ [(header_wire (udp_struct h) @
      aead_encrypt A (ug_downlink_key (us_grant u)) (ug_downlink_salt (us_grant u) @ be32 n) payload (header_wire (udp_struct h)), a)] \<and>
    h = \<lparr>uh_flags = UDP_FLAG_AUDIO, uh_media_id = ug_media_id (us_grant u), uh_media_epoch = ug_media_epoch (us_grant u),
      uh_sequence = n, uh_timestamp = mask32 ts, uh_generation = g, uh_payload_length = int (length payload)\<rparr> \<and>
    header_in_range (udp_struct h) \<and> length payload \<le> 1200"
  using assms
  by (auto simp: udp_send_audio_def udp_send_def Let_def udp_header_encode_def header_pack_def UDP_MAX_PAYLOAD_BYTES_def
      split: if_splits option.splits)

text \<open>
  The client opens what the worker seals: every audio datagram the worker sends on a session decrypts, under the
  downlink key of its grant, to an audio frame with the sequence number the worker reports, the timestamp, the generation
  and the payload it was given.
\<close>

theorem udp_downlink_opens:
  assumes A: "aead_laws A" and sent: "udp_send_audio A cx payload ts g u = (Inr n, u')"
    and grant: "length (ug_media_id (us_grant u)) = 8" "1 \<le> ug_media_epoch (us_grant u)" and p: "payload \<noteq> []"
  shows "cipher_decrypt A \<lparr>uc_key = ug_downlink_key (us_grant u), uc_salt = ug_downlink_salt (us_grant u)\<rparr> (fst (last (us_sent u'))) =
    Inr \<lparr>mf_flags = FLAG_AUDIO, mf_media_id = ug_media_id (us_grant u), mf_media_epoch = ug_media_epoch (us_grant u),
         mf_sequence = n, mf_timestamp = mask32 ts, mf_generation = g, mf_payload = payload\<rparr>"
proof -
  obtain a h where s: "us_sent u' = us_sent u @ [(header_wire (udp_struct h) @
      aead_encrypt A (ug_downlink_key (us_grant u)) (ug_downlink_salt (us_grant u) @ be32 n) payload (header_wire (udp_struct h)), a)]"
    and h: "h = \<lparr>uh_flags = UDP_FLAG_AUDIO, uh_media_id = ug_media_id (us_grant u), uh_media_epoch = ug_media_epoch (us_grant u),
      uh_sequence = n, uh_timestamp = mask32 ts, uh_generation = g, uh_payload_length = int (length payload)\<rparr>"
    and r: "header_in_range (udp_struct h)" "length payload \<le> 1200"
    using udp_send_audio_datagram [OF sent] by blast
  let ?f = "client_of_udp h payload"
  have st: "client_struct ?f = udp_struct h" by (rule client_udp_struct) (simp add: h)
  have v: "client_frame_valid ?f"
    using r grant p by (simp add: client_frame_valid_def client_of_udp_def h udp_struct_def header_in_range_def client_consts udp_consts
        is_uint32_def)
  have fields: "mf_sequence ?f = n" "mf_payload ?f = payload" by (simp_all add: client_of_udp_def h)
  have f: "?f = \<lparr>mf_flags = FLAG_AUDIO, mf_media_id = ug_media_id (us_grant u), mf_media_epoch = ug_media_epoch (us_grant u),
         mf_sequence = n, mf_timestamp = mask32 ts, mf_generation = g, mf_payload = payload\<rparr>"
    by (simp add: client_of_udp_def h client_consts udp_consts)
  from cipher_decrypt_sealed [OF A v, of "\<lparr>uc_key = ug_downlink_key (us_grant u), uc_salt = ug_downlink_salt (us_grant u)\<rparr>"]
  show ?thesis unfolding f [symmetric] by (simp add: s st fields)
qed

text \<open>
  The probe handshake works between the two programs. The datagram in which the client seals its first probe, handled
  by a fresh session of the worker before the grant expires and with the socket up, pins the client's address, opens the
  path, and is answered with exactly one datagram to that address, which the client decrypts to a probe acknowledgement
  of the same media identity.
\<close>

theorem udp_handshake_interop:
  assumes A: "aead_laws A" and grant: "length (ug_media_id g) = 8" "1 \<le> ug_media_epoch g" "ug_media_epoch g \<le> uint32_max"
    and probe: "probe = \<lparr>mf_flags = FLAG_PROBE, mf_media_id = ug_media_id g, mf_media_epoch = ug_media_epoch g, mf_sequence = 0,
      mf_timestamp = ts, mf_generation = 0, mf_payload = []\<rparr>" "is_uint32 ts"
    and live: "cx_time cx < of_int (ug_expires_at g)" "cx_send_time cx < of_int (ug_expires_at g)" "cx_transport cx"
  shows "\<exists>d s' reply. cipher_encrypt A \<lparr>uc_key = ug_uplink_key g, uc_salt = ug_uplink_salt g\<rparr> probe = Inr d \<and>
    udp_handle A rx cx d addr (udp_session_init g n) = (Inr (), s') \<and> us_source s' = Some addr \<and> us_ready s' \<and>
    us_sent s' = [(reply, addr)] \<and>
    cipher_decrypt A \<lparr>uc_key = ug_downlink_key g, uc_salt = ug_downlink_salt g\<rparr> reply =
      Inr (probe\<lparr>mf_flags := FLAG_PROBE_ACK, mf_timestamp := 0\<rparr>)"
proof -
  define h where "h = \<lparr>uh_flags = UDP_FLAG_PROBE, uh_media_id = ug_media_id g, uh_media_epoch = ug_media_epoch g,
    uh_sequence = 0, uh_timestamp = ts, uh_generation = 0, uh_payload_length = 0\<rparr>"
  have f: "probe = client_of_udp h []" by (simp add: probe client_of_udp_def h_def client_consts udp_consts)
  have st: "client_struct probe = udp_struct h" unfolding f by (rule client_udp_struct) (simp add: h_def)
  define aad where "aad = header_wire (udp_struct h)"
  define enc where "enc = aead_encrypt A (ug_uplink_key g) (ug_uplink_salt g @ be32 0) [] aad"
  have v: "client_frame_valid probe \<and> no_stray_payload probe"
    using grant probe(2) by (simp add: client_frame_valid_def no_stray_payload_def probe(1) client_consts is_uint32_def uint32_max_def)
  have sealed: "cipher_encrypt A \<lparr>uc_key = ug_uplink_key g, uc_salt = ug_uplink_salt g\<rparr> probe = Inr (aad @ enc)"
    using v st by (simp add: cipher_encrypt_def bind_result_Inr_iff client_header_eq aad_def enc_def) (simp add: probe)
  have hv: "udp_header_valid h"
    using grant probe(2) by (simp add: udp_header_valid_def h_def is_byte_def udp_consts is_uint32_def uint32_max_def)
  have dec: "udp_header_decode (aad @ enc) = Inr (h, enc)"
    unfolding udp_header_decode_iff using hv A by (simp add: aad_def enc_def aead_laws_def h_def)
  have opens: "aead_decrypt A (ug_uplink_key g) (ug_uplink_salt g @ be32 0) enc (take 32 (aad @ enc)) = Some []"
    using A by (simp add: enc_def aead_laws_def aad_def)
  obtain s' reply ack where s': "udp_handle A rx cx (aad @ enc) addr (udp_session_init g n) = (Inr (), s')" "us_source s' = Some addr"
    "us_ready s'" "us_sent s' = [(reply, addr)]"
    and ack: "ack = \<lparr>uh_flags = UDP_FLAG_PROBE_ACK, uh_media_id = ug_media_id g, uh_media_epoch = ug_media_epoch g,
      uh_sequence = 0, uh_timestamp = 0, uh_generation = 0, uh_payload_length = 0\<rparr>"
    "reply = header_wire (udp_struct ack) @ aead_encrypt A (ug_downlink_key g) (ug_downlink_salt g @ be32 0) [] (header_wire (udp_struct ack))"
    using probe_opens_path [OF dec _ _ _ _ opens _ live, of rx addr n] A by (auto simp: h_def aead_laws_def)
  let ?a = "client_of_udp ack []"
  have ast: "client_struct ?a = udp_struct ack" by (rule client_udp_struct) (simp add: ack)
  have av: "client_frame_valid ?a"
    using grant by (simp add: client_frame_valid_def client_of_udp_def ack client_consts udp_consts is_uint32_def uint32_max_def)
  have "cipher_decrypt A \<lparr>uc_key = ug_downlink_key g, uc_salt = ug_downlink_salt g\<rparr> reply = Inr ?a"
    using cipher_decrypt_sealed [OF A av, of "\<lparr>uc_key = ug_downlink_key g, uc_salt = ug_downlink_salt g\<rparr>"]
    unfolding ast ack(2) by (simp add: client_of_udp_def ack(1))
  then show ?thesis
    using sealed s' by (auto simp: client_of_udp_def ack probe client_consts udp_consts)
qed

lemma udp_demo_laws: "aead_laws udp_demo_aead"
  by (simp add: aead_laws_def udp_demo_aead_def)

definition client_demo_session :: udp_session where
  "client_demo_session = (udp_session_init udp_demo_grant 4)\<lparr>us_ready := True, us_source := Some (''p'', 1)\<rparr>"

lemma client_demo_send: "\<exists>u'. udp_send_audio udp_demo_aead udp_demo_ctx [1] 0 1 client_demo_session = (Inr 0, u')"
  by (simp add: client_demo_session_def udp_send_audio_def udp_send_def udp_session_init_def udp_demo_grant_def udp_demo_ctx_def
      udp_demo_aead_def udp_header_encode_def udp_struct_def header_pack_def header_in_range_def header_wire_def udp_consts
      is_byte_def is_uint32_def uint32_max_def mask32_mod Let_def)

theorem udp_downlink_opens_witness:
  "\<exists>u'. udp_send_audio udp_demo_aead udp_demo_ctx [1] 0 1 client_demo_session = (Inr 0, u') \<and>
     cipher_decrypt udp_demo_aead \<lparr>uc_key = [], uc_salt = []\<rparr> (fst (last (us_sent u'))) =
       Inr \<lparr>mf_flags = FLAG_AUDIO, mf_media_id = replicate 8 7, mf_media_epoch = 1, mf_sequence = 0, mf_timestamp = 0,
            mf_generation = 1, mf_payload = [1]\<rparr>"
proof -
  obtain u' where u: "udp_send_audio udp_demo_aead udp_demo_ctx [1] 0 1 client_demo_session = (Inr 0, u')"
    using client_demo_send by blast
  show ?thesis
    using udp_downlink_opens [OF udp_demo_laws u] u
    by (simp add: client_demo_session_def udp_session_init_def udp_demo_grant_def mask32_mod)
qed

theorem udp_handshake_interop_witness:
  "\<exists>d s'. cipher_encrypt udp_demo_aead \<lparr>uc_key = [], uc_salt = []\<rparr> \<lparr>mf_flags = FLAG_PROBE, mf_media_id = replicate 8 7,
       mf_media_epoch = 1, mf_sequence = 0, mf_timestamp = 5, mf_generation = 0, mf_payload = []\<rparr> = Inr d \<and>
     udp_handle udp_demo_aead (\<lambda>_. None) udp_demo_ctx d (''p'', 1) (udp_session_init udp_demo_grant 4) = (Inr (), s') \<and> us_ready s'"
  using udp_handshake_interop [OF udp_demo_laws, of udp_demo_grant _ 5 udp_demo_ctx "\<lambda>_. None" "(''p'', 1)" 4, OF _ _ _ refl]
  by (auto simp: udp_demo_grant_def udp_demo_ctx_def is_uint32_def uint32_max_def)

end
