(* ===== verification/Client_Session.thy ===== *)
theory Client_Session
  imports Client_Media
begin

text \<open>
  The control side of the desktop client: the messages of \<open>rva_desktop/protocol/control.py\<close> and the endpoint state
  machine of \<open>session/state.py\<close>, which follows the responses and playbacks the worker announces.
\<close>

section \<open>Field checks\<close>

definition client_identifier :: "json \<Rightarrow> string \<Rightarrow> client_error + string" where
  "client_identifier v field = (case v of
      JStr s \<Rightarrow> if is_identifier s then Inr s else Inl (ProtocolError (''invalid_'' @ field))
    | _ \<Rightarrow> Inl (ProtocolError (''invalid_'' @ field)))"

definition client_bounded_int :: "json \<Rightarrow> int \<Rightarrow> int \<Rightarrow> string \<Rightarrow> client_error + int" where
  "client_bounded_int v minimum maximum field = (case v of
      JInt n \<Rightarrow> if minimum \<le> n \<and> n \<le> maximum then Inr n else Inl (ProtocolError (''invalid_'' @ field))
    | _ \<Rightarrow> Inl (ProtocolError (''invalid_'' @ field)))"

definition client_uint32_field :: "json \<Rightarrow> string \<Rightarrow> int \<Rightarrow> client_error + int" where
  "client_uint32_field v field minimum = client_bounded_int v minimum uint32_max field"

definition client_exact :: "json_dict \<Rightarrow> string list \<Rightarrow> string list \<Rightarrow> client_error + unit" where
  "client_exact message expected optional =
    (if set expected - set (dict_keys message) \<noteq> {} then Inl (ProtocolError ''missing_field'')
     else if set (dict_keys message) - (set expected \<union> set optional) \<noteq> {} then Inl (ProtocolError ''unknown_field'')
     else Inr ())"

definition client_target :: "json \<Rightarrow> client_error + unit" where
  "client_target v = (case v of
      JObj d \<Rightarrow>
        bind_result (client_exact d [''response_id'', ''generation''] []) (\<lambda>_.
        bind_result (client_identifier (jget d ''response_id'') ''response_id'') (\<lambda>_.
        bind_result (client_uint32_field (jget d ''generation'') ''generation'' 1) (\<lambda>_. Inr ())))
    | _ \<Rightarrow> Inl (ProtocolError ''invalid_playback_target''))"

definition error_code_char :: "char \<Rightarrow> bool" where
  "error_code_char c \<longleftrightarrow> (let n = of_char c :: nat in (97 \<le> n \<and> n \<le> 122) \<or> (48 \<le> n \<and> n \<le> 57) \<or> c = CHR ''_'')"

definition client_error_code :: "json \<Rightarrow> client_error + unit" where
  "client_error_code v = (case v of
      JStr s \<Rightarrow> if 1 \<le> length s \<and> length s \<le> 64 \<and> list_all error_code_char s then Inr ()
                else Inl (ProtocolError ''invalid_error_code'')
    | _ \<Rightarrow> Inl (ProtocolError ''invalid_error_code''))"

text \<open>A \<open>str\<close> with a lone surrogate has no UTF-8 form: \<open>encode\<close> raises.\<close>

definition client_text :: "json \<Rightarrow> nat \<Rightarrow> bool \<Rightarrow> client_error + unit" where
  "client_text v maximum_bytes allow_empty = (case v of
      JStr s \<Rightarrow>
        if (\<not> allow_empty \<and> s = []) \<or> CHR 0x00 \<in> set s then Inl (ProtocolError ''invalid_text'')
        else if maximum_bytes < length s then Inl (ProtocolError ''text_too_large'') else Inr ()
    | JSurrogate \<Rightarrow> Inl ClientUnicodeError
    | _ \<Rightarrow> Inl (ProtocolError ''invalid_text''))"

text \<open>\<open>bytes.fromhex\<close>: ASCII white space is skipped before every byte.\<close>

definition hex_value :: "char \<Rightarrow> nat option" where
  "hex_value c = (let n = of_char c :: nat in
     if 48 \<le> n \<and> n \<le> 57 then Some (n - 48) else if 97 \<le> n \<and> n \<le> 102 then Some (n - 87)
     else if 65 \<le> n \<and> n \<le> 70 then Some (n - 55) else None)"

definition hex_space :: "char \<Rightarrow> bool" where
  "hex_space c \<longleftrightarrow> c \<in> {CHR '' '', CHR 0x09, CHR 0x0A, CHR 0x0B, CHR 0x0C, CHR 0x0D}"

fun fromhex :: "string \<Rightarrow> bytes option" where
  "fromhex [] = Some []"
| "fromhex [c] = (if hex_space c then Some [] else None)"
| "fromhex (c # d # cs) =
    (if hex_space c then fromhex (d # cs)
     else case (hex_value c, hex_value d) of
         (Some a, Some b) \<Rightarrow> map_option ((#) (of_nat (16 * a + b))) (fromhex cs)
       | _ \<Rightarrow> None)"

definition client_media_id :: "json \<Rightarrow> client_error + bytes" where
  "client_media_id v = (case v of
      JStr s \<Rightarrow> (case fromhex s of
          None \<Rightarrow> Inl (ProtocolError ''invalid_media_id'')
        | Some bs \<Rightarrow> if length bs \<noteq> 8 \<or> list_ex (\<lambda>c. 65 \<le> (of_char c :: nat) \<and> (of_char c :: nat) \<le> 90) s
            then Inl (ProtocolError ''invalid_media_id'') else Inr bs)
    | _ \<Rightarrow> Inl (ProtocolError ''invalid_media_id''))"

text \<open>\<open>v not in {...}\<close> with the error of its failure.\<close>

definition client_member :: "json \<Rightarrow> string list \<Rightarrow> string \<Rightarrow> client_error + unit" where
  "client_member v S code = (case in_str_set v S of
      None \<Rightarrow> Inl ClientTypeError
    | Some False \<Rightarrow> Inl (ProtocolError code)
    | Some True \<Rightarrow> Inr ())"

section \<open>Messages\<close>

definition SERVER_TYPES :: "string list" where
  "SERVER_TYPES = [''session.opened'', ''transcript.delta'', ''transcript.final'', ''response.begin'', ''response.text'',
     ''response.end'', ''playback.stop'', ''session.error'', ''session.close'']"

definition SESSION_CLOSE_REASONS :: "string list" where
  "SESSION_CLOSE_REASONS = [''normal'', ''idle_timeout'', ''network_change'', ''protocol_error'', ''server_shutdown'']"

record client_config =
  cf_device_id :: string
  cf_supported_profiles :: "string list"
  cf_preferred_profile :: string
  cf_capabilities :: "(string \<times> bool) list"

text \<open>\<open>_BOOTSTRAP_IDENTIFIER\<close> and the checks of \<open>ClientConfig\<close> on the fields that reach the wire.\<close>

definition bootstrap_identifier :: "string \<Rightarrow> bool" where
  "bootstrap_identifier s \<longleftrightarrow> 1 \<le> length s \<and> length s \<le> 96 \<and> list_all ident_char s \<and>
     (let n = of_char (hd s) :: nat in (65 \<le> n \<and> n \<le> 90) \<or> (97 \<le> n \<and> n \<le> 122) \<or> (48 \<le> n \<and> n \<le> 57))"

definition config_valid :: "client_config \<Rightarrow> bool" where
  "config_valid c \<longleftrightarrow> bootstrap_identifier (cf_device_id c) \<and> cf_supported_profiles c \<noteq> [] \<and> distinct (cf_supported_profiles c) \<and>
     set (cf_supported_profiles c) \<subseteq> {''wss-opus/1'', ''udp-opus-gcm/1''} \<and>
     cf_preferred_profile c \<in> set (cf_supported_profiles c) \<and>
     map fst (cf_capabilities c) = [''aec'', ''vad'', ''wake_word'', ''display'', ''touch'']"

definition build_session_open :: "client_config \<Rightarrow> string \<Rightarrow> client_error + json_dict" where
  "build_session_open c request_id = bind_result (client_identifier (JStr request_id) ''request_id'') (\<lambda>_.
     Inr [(''type'', JStr ''session.open''), (''protocol_version'', JInt 1), (''request_id'', JStr request_id),
       (''device_id'', JStr (cf_device_id c)), (''supported_media_profiles'', JList (map JStr (cf_supported_profiles c))),
       (''preferred_media_profile'', JStr (cf_preferred_profile c)), (''audio'', JObj AUDIO_PROFILE),
       (''capabilities'', JObj (map (\<lambda>(k, v). (k, JBool v)) (cf_capabilities c)))])"

definition client_decode_control :: "wire_text \<Rightarrow> client_error + json_dict" where
  "client_decode_control raw = (case wt_utf8 raw of
      None \<Rightarrow> Inl ClientUnicodeError
    | Some n \<Rightarrow>
        if CONTROL_MAX_BYTES < n then Inl (ProtocolError ''message_too_large'')
        else (case wt_json raw of
            NotJson dup \<Rightarrow> Inl (ProtocolError (if dup then ''duplicate_json_key'' else ''invalid_json''))
          | ReaderRaises \<Rightarrow> Inl ClientValueError
          | Json v \<Rightarrow>
              if \<not> json_unique v then Inl (ProtocolError ''duplicate_json_key'')
              else (case v of JObj d \<Rightarrow> Inr d | _ \<Rightarrow> Inl (ProtocolError ''control_message_must_be_object''))))"

definition client_encode_control :: "json_dict \<Rightarrow> client_error + wire_text" where
  "client_encode_control message =
    (let t = text_of (JObj message) in case wt_utf8 t of
      None \<Rightarrow> Inl ClientUnicodeError
    | Some n \<Rightarrow> if CONTROL_MAX_BYTES < n then Inl (ProtocolError ''message_too_large'') else Inr t)"

text \<open>The fields a message must have, by its type.\<close>

definition required_fields :: "json_dict \<Rightarrow> string \<Rightarrow> string list" where
  "required_fields message t = [''type'', ''session_id'', ''session_epoch''] @
    (if t = ''transcript.delta'' \<or> t = ''transcript.final'' then [''utterance_id'', ''sequence'', ''text'']
     else if t = ''response.begin'' then [''response_id'', ''generation'']
     else if t = ''response.text'' then [''response_id'', ''generation'', ''sequence'', ''text'']
     else if t = ''response.end'' then [''response_id'', ''generation'', ''outcome''] @
       (if jget message ''outcome'' = JStr ''completed'' then [''final_media_sequence'']
        else if jget message ''outcome'' = JStr ''failed'' then [''error_code''] else [])
     else if t = ''playback.stop'' then [''target'', ''fence_generation'', ''cause'']
     else if t = ''session.error'' then [''code'', ''retryable'', ''message'']
     else if t = ''session.close'' then [''reason'', ''initiated_by''] else [])"

definition has_field :: "json_dict \<Rightarrow> string \<Rightarrow> bool" where
  "has_field m k \<longleftrightarrow> k \<in> set (dict_keys m)"

definition validate_fields :: "json_dict \<Rightarrow> string \<Rightarrow> client_error + unit" where
  "validate_fields m t =
    (if t = ''transcript.delta'' \<or> t = ''transcript.final'' then
       bind_result (client_identifier (jget m ''utterance_id'') ''utterance_id'') (\<lambda>_.
       bind_result (client_uint32_field (jget m ''sequence'') ''sequence'' 0) (\<lambda>_.
       client_text (jget m ''text'') (if t = ''transcript.delta'' then 4096 else 16384) (t = ''transcript.final'')))
     else if t = ''response.begin'' then
       bind_result (client_identifier (jget m ''response_id'') ''response_id'') (\<lambda>_.
       bind_result (client_uint32_field (jget m ''generation'') ''generation'' 1) (\<lambda>_. Inr ()))
     else if t = ''response.text'' then
       bind_result (client_identifier (jget m ''response_id'') ''response_id'') (\<lambda>_.
       bind_result (client_uint32_field (jget m ''generation'') ''generation'' 1) (\<lambda>_.
       bind_result (client_uint32_field (jget m ''sequence'') ''sequence'' 0) (\<lambda>_.
       client_text (jget m ''text'') 4096 False)))
     else if t = ''response.end'' then
       bind_result (client_identifier (jget m ''response_id'') ''response_id'') (\<lambda>_.
       bind_result (client_uint32_field (jget m ''generation'') ''generation'' 1) (\<lambda>_.
       bind_result (client_member (jget m ''outcome'') [''completed'', ''cancelled'', ''failed''] ''invalid_response_outcome'') (\<lambda>_.
       bind_result (if has_field m ''final_media_sequence''
                    then bind_result (client_uint32_field (jget m ''final_media_sequence'') ''final_media_sequence'' 0) (\<lambda>_. Inr ())
                    else Inr ()) (\<lambda>_.
       if has_field m ''error_code'' then client_error_code (jget m ''error_code'') else Inr ()))))
     else if t = ''playback.stop'' then
       bind_result (client_target (jget m ''target'')) (\<lambda>_.
       bind_result (client_uint32_field (jget m ''fence_generation'') ''fence_generation'' 1) (\<lambda>_.
       client_member (jget m ''cause'') [''explicit_user_request'', ''recognized_interrupt'', ''session_close'', ''response_failed'']
         ''invalid_stop_cause''))
     else if t = ''session.error'' then
       bind_result (client_error_code (jget m ''code'')) (\<lambda>_.
       bind_result (case jget m ''retryable'' of JBool _ \<Rightarrow> Inr () | _ \<Rightarrow> Inl (ProtocolError ''invalid_retryable'')) (\<lambda>_.
       client_text (jget m ''message'') 512 True))
     else if t = ''session.close'' then
       bind_result (client_member (jget m ''reason'') SESSION_CLOSE_REASONS ''invalid_close_reason'') (\<lambda>_.
       bind_result (client_member (jget m ''initiated_by'') [''server'', ''device''] ''invalid_close_initiator'') (\<lambda>_.
       if has_field m ''detail'' then client_text (jget m ''detail'') 256 True else Inr ()))
     else Inr ())"

definition validate_opened :: "json_dict \<Rightarrow> client_error + unit" where
  "validate_opened m =
    bind_result (client_exact m ([''type'', ''request_id'', ''session_id'', ''session_epoch'', ''media_id'', ''media_epoch'',
        ''selected_media_profile'', ''audio'', ''heartbeat_interval_ms'', ''idle_timeout_ms'', ''max_control_message_bytes''] @
        (if jget m ''selected_media_profile'' = JStr UDP_PROFILE then [''udp_grant''] else [])) []) (\<lambda>_.
    if \<not> eq_const_dict (jget m ''audio'') AUDIO_PROFILE \<or> \<not> eq_int (jget m ''max_control_message_bytes'') (int CONTROL_MAX_BYTES)
      then Inl (ProtocolError ''unsupported_session_parameters'')
    else bind_result (client_identifier (jget m ''request_id'') ''request_id'') (\<lambda>_. Inr ()))"

definition validate_server_message :: "json_dict \<Rightarrow> client_error + unit" where
  "validate_server_message m =
    bind_result (client_member (jget m ''type'') SERVER_TYPES ''unknown_server_message'') (\<lambda>_.
    case jget m ''type'' of
      JStr t \<Rightarrow>
        if t = ''session.opened'' then validate_opened m
        else
          bind_result (client_identifier (jget m ''session_id'') ''session_id'') (\<lambda>_.
          bind_result (client_identifier (jget m ''session_epoch'') ''session_epoch'') (\<lambda>_.
          bind_result (client_exact m (required_fields m t) (if t = ''session.close'' then [''detail''] else [])) (\<lambda>_.
          validate_fields m t)))
    | _ \<Rightarrow> Inr ())"


section \<open>Base64\<close>

text \<open>\<open>base64.b64encode\<close> and \<open>base64.b64decode(..., validate=True)\<close>: no character outside the alphabet, padding only in the last group.\<close>

definition b64_alphabet :: string where
  "b64_alphabet = ''ABCDEFGHIJKLMNOPQRSTUVWXYZabcdefghijklmnopqrstuvwxyz0123456789+/''"

definition b64_char :: "nat \<Rightarrow> char" where
  "b64_char n = b64_alphabet ! n"

definition b64_value :: "char \<Rightarrow> nat option" where
  "b64_value c = map_of (zip b64_alphabet [0..<64]) c"

fun b64encode :: "bytes \<Rightarrow> string" where
  "b64encode [] = []"
| "b64encode [a] = [b64_char (unat a div 4), b64_char (unat a mod 4 * 16), CHR ''='', CHR ''='']"
| "b64encode [a, b] = [b64_char (unat a div 4), b64_char (unat a mod 4 * 16 + unat b div 16),
     b64_char (unat b mod 16 * 4), CHR ''='']"
| "b64encode (a # b # c # bs) = b64_char (unat a div 4) # b64_char (unat a mod 4 * 16 + unat b div 16) #
     b64_char (unat b mod 16 * 4 + unat c div 64) # b64_char (unat c mod 64) # b64encode bs"

fun b64decode :: "string \<Rightarrow> bytes option" where
  "b64decode [] = Some []"
| "b64decode (w # x # y # z # cs) = (case (b64_value w, b64_value x) of
      (Some p, Some q) \<Rightarrow>
        (case b64_value y of
           None \<Rightarrow> if y = CHR ''='' \<and> z = CHR ''='' \<and> cs = [] then Some [of_nat (p * 4 + q div 16)] else None
         | Some r \<Rightarrow>
             (case b64_value z of
                None \<Rightarrow> if z = CHR ''='' \<and> cs = []
                        then Some [of_nat (p * 4 + q div 16), of_nat (q mod 16 * 16 + r div 4)] else None
              | Some s \<Rightarrow> map_option (\<lambda>bs. of_nat (p * 4 + q div 16) # of_nat (q mod 16 * 16 + r div 4) #
                            of_nat (r mod 4 * 64 + s) # bs) (b64decode cs)))
    | _ \<Rightarrow> None)"
| "b64decode _ = None"

definition b64_field :: "json \<Rightarrow> bytes option" where
  "b64_field v = (case v of JStr s \<Rightarrow> b64decode s | _ \<Rightarrow> None)"

section \<open>session.opened\<close>

record client_udp_grant =
  cg_host :: string
  cg_port :: int
  cg_expires_at_ms :: int
  cg_refresh_after_ms :: int
  cg_uplink_key :: bytes
  cg_uplink_salt :: bytes
  cg_downlink_key :: bytes
  cg_downlink_salt :: bytes
  cg_probe_timeout_ms :: int

record session_opened =
  sd_request_id :: string
  sd_session_id :: string
  sd_session_epoch :: string
  sd_media_id :: bytes
  sd_media_epoch :: int
  sd_selected_profile :: string
  sd_heartbeat_interval_ms :: int
  sd_idle_timeout_ms :: int
  sd_udp_grant :: "client_udp_grant option"

definition UDP_GRANT_FIELDS :: "string list" where
  "UDP_GRANT_FIELDS = [''host'', ''port'', ''expires_at_ms'', ''refresh_after_ms'', ''uplink_key_b64'', ''uplink_salt_b64'',
     ''downlink_key_b64'', ''downlink_salt_b64'', ''probe_timeout_ms'']"

text \<open>\<open>len(host)\<close> counts code points: the bytes of the UTF-8 form that do not continue a character.\<close>

definition code_points :: "string \<Rightarrow> nat" where
  "code_points s = length (filter (\<lambda>c. \<not> (128 \<le> (of_char c :: nat) \<and> (of_char c :: nat) < 192)) s)"

definition grant_keys :: "json_dict \<Rightarrow> (bytes \<times> bytes \<times> bytes \<times> bytes) option" where
  "grant_keys d = (case (b64_field (jget d ''uplink_key_b64''), b64_field (jget d ''uplink_salt_b64''),
        b64_field (jget d ''downlink_key_b64''), b64_field (jget d ''downlink_salt_b64'')) of
      (Some uk, Some us, Some dk, Some ds) \<Rightarrow>
        if length uk \<noteq> 16 \<or> length dk \<noteq> 16 \<or> length us \<noteq> 8 \<or> length ds \<noteq> 8 then None else Some (uk, us, dk, ds)
    | _ \<Rightarrow> None)"

definition parse_udp_grant :: "json \<Rightarrow> client_error + client_udp_grant option" where
  "parse_udp_grant v = (case v of
      JNull \<Rightarrow> Inr None
    | JObj d \<Rightarrow>
        bind_result (client_exact d UDP_GRANT_FIELDS []) (\<lambda>_.
        case grant_keys d of
          None \<Rightarrow> Inl (ProtocolError ''invalid_udp_grant'')
        | Some (uk, us, dk, ds) \<Rightarrow>
            (case jget d ''host'' of
               JStr host \<Rightarrow>
                 if host = [] \<or> code_points host > 253 then Inl (ProtocolError ''invalid_udp_grant'')
                 else
                 bind_result (client_bounded_int (jget d ''port'') 1 65535 ''udp_port'') (\<lambda>port.
                 bind_result (client_bounded_int (jget d ''expires_at_ms'') 1 (2 ^ 63 - 1) ''udp_expiry'') (\<lambda>expires.
                 bind_result (client_bounded_int (jget d ''refresh_after_ms'') 1000 3600000 ''udp_refresh'') (\<lambda>refresh.
                 bind_result (client_bounded_int (jget d ''probe_timeout_ms'') 100 10000 ''udp_probe_timeout'') (\<lambda>probe.
                 Inr (Some \<lparr>cg_host = host, cg_port = port, cg_expires_at_ms = expires, cg_refresh_after_ms = refresh,
                   cg_uplink_key = uk, cg_uplink_salt = us, cg_downlink_key = dk, cg_downlink_salt = ds,
                   cg_probe_timeout_ms = probe\<rparr>)))))
             | _ \<Rightarrow> Inl (ProtocolError ''invalid_udp_grant'')))
    | _ \<Rightarrow> Inl (ProtocolError ''invalid_udp_grant''))"

text \<open>\<open>MediaProfile(value)\<close> raises \<open>ValueError\<close> on anything that is not one of the two values.\<close>

definition media_profile :: "json \<Rightarrow> client_error + string" where
  "media_profile v = (case v of
      JStr s \<Rightarrow> if s = WSS_PROFILE \<or> s = UDP_PROFILE then Inr s else Inl ClientValueError
    | _ \<Rightarrow> Inl ClientValueError)"

definition parse_session_opened :: "json_dict \<Rightarrow> string \<Rightarrow> client_error + session_opened" where
  "parse_session_opened m request_id =
    bind_result (validate_server_message m) (\<lambda>_.
    if jget m ''type'' \<noteq> JStr ''session.opened'' then Inl (ProtocolError ''expected_session_opened'')
    else if jget m ''request_id'' \<noteq> JStr request_id then Inl (ProtocolError ''request_id_mismatch'')
    else
    bind_result (media_profile (jget m ''selected_media_profile'')) (\<lambda>selected.
    bind_result (parse_udp_grant (jget m ''udp_grant'')) (\<lambda>grant.
    if (selected = UDP_PROFILE) \<noteq> (grant \<noteq> None) then Inl (ProtocolError ''invalid_udp_grant'')
    else
    bind_result (client_identifier (jget m ''session_id'') ''session_id'') (\<lambda>session_id.
    bind_result (client_identifier (jget m ''session_epoch'') ''session_epoch'') (\<lambda>session_epoch.
    bind_result (client_media_id (jget m ''media_id'')) (\<lambda>media_id.
    bind_result (client_uint32_field (jget m ''media_epoch'') ''media_epoch'' 1) (\<lambda>media_epoch.
    bind_result (client_bounded_int (jget m ''heartbeat_interval_ms'') 5000 60000 ''heartbeat'') (\<lambda>heartbeat.
    bind_result (client_bounded_int (jget m ''idle_timeout_ms'') 15000 180000 ''idle_timeout'') (\<lambda>idle.
    Inr \<lparr>sd_request_id = request_id, sd_session_id = session_id, sd_session_epoch = session_epoch, sd_media_id = media_id,
         sd_media_epoch = media_epoch, sd_selected_profile = selected, sd_heartbeat_interval_ms = heartbeat,
         sd_idle_timeout_ms = idle, sd_udp_grant = grant\<rparr>)))))))))"

section \<open>Round trips\<close>

lemma b64_value_char:
  assumes "n < 64"
  shows "b64_value (b64_char n) = Some n"
proof -
  have "length b64_alphabet = 64" "distinct b64_alphabet" by (simp_all add: b64_alphabet_def)
  then have "map_of (zip b64_alphabet [0..<64]) (b64_alphabet ! n) = Some ([0..<64] ! n)"
    using assms by (intro map_of_zip_nth) auto
  then show ?thesis using assms by (simp add: b64_value_def b64_char_def)
qed

lemma b64_value_pad: "b64_value CHR ''='' = None"
proof -
  have "length b64_alphabet = 64" "CHR ''='' \<notin> set b64_alphabet" by (simp_all add: b64_alphabet_def)
  then show ?thesis by (simp add: b64_value_def map_of_zip_is_None)
qed

lemma unat_byte: "unat (a :: byte) < 256"
  using uint_byte_bound [of a] by (simp flip: nat_uint_eq add: nat_less_iff)

lemma of_nat_byte: "n = unat (a :: byte) \<Longrightarrow> of_nat n = a"
  by simp

lemma b64_decode_encode: "b64decode (b64encode bs) = Some bs"
proof (induction bs rule: b64encode.induct)
  case (2 a)
  then show ?case using unat_byte [of a] by (simp add: b64_value_char b64_value_pad of_nat_byte)
next
  case (3 a b)
  then show ?case using unat_byte [of a] unat_byte [of b]
    by (simp add: b64_value_char b64_value_pad of_nat_byte)
next
  case (4 a b c bs)
  then show ?case using unat_byte [of a] unat_byte [of b] unat_byte [of c]
    by (simp add: b64_value_char of_nat_byte)
qed simp

end
