(* ===== verification/Client_State.thy ===== *)
theory Client_State
  imports Client_Session
begin

text \<open>
  The endpoint's view of the session, \<open>rva_desktop/session/state.py\<close>: which responses the worker has announced, which
  one is playing, what was stopped, and the facts about playback that the endpoint may send back.
\<close>

type_synonym playback_target = "string \<times> int"

record client_playback =
  cp_target :: playback_target
  cp_started :: bool
  cp_ended :: bool
  cp_stopped :: bool
  cp_final_media_sequence :: "int option"
  cp_response_terminal :: bool
  cp_stop_fence :: "int option"
  cp_stop_cause :: "string option"
  cp_first_media_sequence :: "int option"
  cp_last_media_sequence :: "int option"

definition new_playback :: "playback_target \<Rightarrow> client_playback" where
  "new_playback t = \<lparr>cp_target = t, cp_started = False, cp_ended = False, cp_stopped = False, cp_final_media_sequence = None,
     cp_response_terminal = False, cp_stop_fence = None, cp_stop_cause = None, cp_first_media_sequence = None,
     cp_last_media_sequence = None\<rparr>"

record session_event =
  se_kind :: string
  se_message :: json_dict
  se_target :: "playback_target option"
  se_media :: "media_frame option"

record session_state =
  ss_opened :: session_opened
  ss_closed :: bool
  ss_fence_generation :: int
  ss_highest_generation :: int
  ss_current_playback :: "playback_target option"
  ss_playbacks :: "(int, client_playback) dict"
  ss_playback_tombstones :: "client_playback list"
  ss_transcript_sequences :: "(string, int) dict"
  ss_final_transcripts :: "string list"
  ss_final_transcript_order :: "string list"
  ss_response_text_sequence :: "(int, int) dict"
  ss_last_media_timestamp :: "(int, int) dict"
  ss_next_downlink_sequence :: int

type_synonym 'a client_op = "(client_error, 'a, session_state) op_result"

definition TOMBSTONE_LIMIT :: nat where
  "TOMBSTONE_LIMIT = 64"

definition session_state_init :: "session_opened \<Rightarrow> session_state" where
  "session_state_init opened =
    \<lparr>ss_opened = opened, ss_closed = False, ss_fence_generation = 1, ss_highest_generation = 0, ss_current_playback = None,
     ss_playbacks = [], ss_playback_tombstones = [], ss_transcript_sequences = [], ss_final_transcripts = [],
     ss_final_transcript_order = [], ss_response_text_sequence = [], ss_last_media_timestamp = [],
     ss_next_downlink_sequence = (if sd_selected_profile opened = WSS_PROFILE then 0 else 1)\<rparr>"

section \<open>Playbacks\<close>

text \<open>
  A \<open>_Playback\<close> is owned by \<open>_playbacks\<close> until it ends and by the tombstones afterwards. \<open>put_playback\<close> writes a changed
  object back to where \<open>_find_playback\<close> found it; \<open>append_bounded\<close> is a \<open>deque\<close> with \<open>maxlen\<close>.
\<close>

definition append_bounded :: "nat \<Rightarrow> 'a list \<Rightarrow> 'a \<Rightarrow> 'a list" where
  "append_bounded n xs x = (let ys = xs @ [x] in drop (length ys - n) ys)"

definition playback_generation :: "client_playback \<Rightarrow> int" where
  "playback_generation p = snd (cp_target p)"

definition find_playback :: "session_state \<Rightarrow> int \<Rightarrow> client_playback option" where
  "find_playback s g = (case dict_get (ss_playbacks s) g of
      Some p \<Rightarrow> Some p
    | None \<Rightarrow> List.find (\<lambda>p. playback_generation p = g) (rev (ss_playback_tombstones s)))"

fun replace_first :: "('a \<Rightarrow> bool) \<Rightarrow> 'a \<Rightarrow> 'a list \<Rightarrow> 'a list" where
  "replace_first P y [] = []"
| "replace_first P y (x # xs) = (if P x then y # xs else x # replace_first P y xs)"

definition put_playback :: "client_playback \<Rightarrow> session_state \<Rightarrow> session_state" where
  "put_playback p s = (case dict_get (ss_playbacks s) (playback_generation p) of
      Some _ \<Rightarrow> s\<lparr>ss_playbacks := dict_set (playback_generation p) p (ss_playbacks s)\<rparr>
    | None \<Rightarrow> s\<lparr>ss_playback_tombstones :=
        rev (replace_first (\<lambda>q. playback_generation q = playback_generation p) p (rev (ss_playback_tombstones s)))\<rparr>)"

definition require_known :: "playback_target \<Rightarrow> session_state \<Rightarrow> client_error + client_playback" where
  "require_known t s = (case find_playback s (snd t) of
      None \<Rightarrow> Inl (ProtocolError ''playback_target_mismatch'')
    | Some p \<Rightarrow> if cp_target p \<noteq> t then Inl (ProtocolError ''playback_target_mismatch'') else Inr p)"

definition require_current :: "playback_target \<Rightarrow> session_state \<Rightarrow> client_error + client_playback" where
  "require_current t s =
    (if Some t \<noteq> ss_current_playback s then Inl (ProtocolError ''response_target_mismatch'') else require_known t s)"

definition client_advance :: "('k, int) dict \<Rightarrow> 'k \<Rightarrow> int \<Rightarrow> client_error + ('k, int) dict" where
  "client_advance ledger scope n =
    (let expected = (case dict_get ledger scope of None \<Rightarrow> 0 | Some m \<Rightarrow> m)
     in if n \<noteq> expected then Inl (ProtocolError ''invalid_sequence'') else Inr (dict_set scope (expected + 1) ledger))"

definition remember_final_transcript :: "string \<Rightarrow> session_state \<Rightarrow> unit client_op" where
  "remember_final_transcript u s =
    (let add = (\<lambda>s. s\<lparr>ss_final_transcript_order := ss_final_transcript_order s @ [u],
                       ss_final_transcripts := List.insert u (ss_final_transcripts s)\<rparr>)
     in if TOMBSTONE_LIMIT \<le> length (ss_final_transcript_order s)
        then (let expired = hd (ss_final_transcript_order s);
                  s1 = s\<lparr>ss_final_transcript_order := tl (ss_final_transcript_order s)\<rparr>
              in if expired \<notin> set (ss_final_transcripts s1) then (Inl ClientKeyError, s1)
                 else (Inr (), add (s1\<lparr>ss_final_transcripts := filter (\<lambda>x. x \<noteq> expired) (ss_final_transcripts s1)\<rparr>)))
        else (Inr (), add s))"

section \<open>Server messages\<close>

text \<open>\<open>str(...)\<close> and \<open>int(...)\<close> of fields that \<open>validate_server_message\<close> has checked.\<close>

definition str_field :: "json_dict \<Rightarrow> string \<Rightarrow> string" where
  "str_field m k = (case jget m k of JStr s \<Rightarrow> s | _ \<Rightarrow> [])"

definition int_field :: "json_dict \<Rightarrow> string \<Rightarrow> int" where
  "int_field m k = (case jget m k of JInt n \<Rightarrow> n | _ \<Rightarrow> 0)"

definition message_target :: "json_dict \<Rightarrow> playback_target" where
  "message_target m = (str_field m ''response_id'', int_field m ''generation'')"

definition identity_ok :: "json_dict \<Rightarrow> session_state \<Rightarrow> client_error + unit" where
  "identity_ok m s =
    (if jget m ''session_id'' \<noteq> JStr (sd_session_id (ss_opened s)) \<or> jget m ''session_epoch'' \<noteq> JStr (sd_session_epoch (ss_opened s))
     then Inl (ProtocolError ''stale_session'') else Inr ())"

definition accept_transcript :: "json_dict \<Rightarrow> session_state \<Rightarrow> unit client_op" where
  "accept_transcript m s =
    (let u = str_field m ''utterance_id''
     in if u \<in> set (ss_final_transcripts s) then (Inl (ProtocolError ''transcript_already_final''), s)
        else (case client_advance (ss_transcript_sequences s) u (int_field m ''sequence'') of
            Inl e \<Rightarrow> (Inl e, s)
          | Inr ledger \<Rightarrow>
              let s1 = s\<lparr>ss_transcript_sequences := ledger\<rparr>
              in if jget m ''type'' = JStr ''transcript.final''
                 then bind_op (remember_final_transcript u s1) (\<lambda>_ s2.
                        (Inr (), s2\<lparr>ss_transcript_sequences := dict_pop u (ss_transcript_sequences s2)\<rparr>))
                 else (Inr (), s1)))"

definition accept_begin :: "playback_target \<Rightarrow> session_state \<Rightarrow> unit client_op" where
  "accept_begin t s =
    (if snd t \<le> ss_highest_generation s \<or> snd t < ss_fence_generation s then (Inl (ProtocolError ''stale_generation''), s)
     else if ss_current_playback s \<noteq> None then (Inl (ProtocolError ''playback_already_active''), s)
     else (Inr (), s\<lparr>ss_highest_generation := snd t, ss_current_playback := Some t,
       ss_playbacks := dict_set (snd t) (new_playback t) (ss_playbacks s),
       ss_response_text_sequence := dict_set (snd t) 0 (ss_response_text_sequence s)\<rparr>))"

definition accept_text :: "playback_target \<Rightarrow> int \<Rightarrow> session_state \<Rightarrow> unit client_op" where
  "accept_text t n s =
    bind_op (require_current t s, s) (\<lambda>_ s.
    bind_op (client_advance (ss_response_text_sequence s) (snd t) n, s) (\<lambda>ledger s.
    (Inr (), s\<lparr>ss_response_text_sequence := ledger\<rparr>)))"

definition accept_end :: "playback_target \<Rightarrow> json_dict \<Rightarrow> session_state \<Rightarrow> unit client_op" where
  "accept_end t m s =
    bind_op (require_known t s, s) (\<lambda>p s.
    if cp_response_terminal p then (Inl (ProtocolError ''response_already_terminal''), s)
    else bind_op (client_member (jget m ''outcome'') [''completed'', ''cancelled'', ''failed''] ''invalid_response_outcome'', s) (\<lambda>_ s.
      let p1 = (if jget m ''outcome'' = JStr ''completed''
                then p\<lparr>cp_final_media_sequence := Some (int_field m ''final_media_sequence'')\<rparr> else p)
      in (Inr (), put_playback (p1\<lparr>cp_response_terminal := True\<rparr>) s)))"

text \<open>The result tells whether the stop is new (\<open>False\<close>: an exact repetition, which yields no event).\<close>

definition accept_stop :: "playback_target \<Rightarrow> int \<Rightarrow> string \<Rightarrow> session_state \<Rightarrow> bool client_op" where
  "accept_stop t fence cause s =
    bind_op (require_known t s, s) (\<lambda>p s.
    if cp_ended p then (Inl (ProtocolError ''playback_already_ended''), s)
    else if cp_stop_fence p \<noteq> None then
      (if cp_stop_fence p = Some fence \<and> cp_stop_cause p = Some cause then (Inr False, s)
       else (Inl (ProtocolError ''playback_stop_conflict''), s))
    else if fence \<le> snd t \<or> fence \<le> ss_fence_generation s then (Inl (ProtocolError ''stale_generation''), s)
    else (Inr True, put_playback (p\<lparr>cp_stopped := True, cp_stop_fence := Some fence, cp_stop_cause := Some cause\<rparr>)
                      (s\<lparr>ss_fence_generation := fence\<rparr>)))"

definition target_field :: "json_dict \<Rightarrow> playback_target" where
  "target_field m = (case jget m ''target'' of JObj d \<Rightarrow> message_target d | _ \<Rightarrow> ([], 0))"

definition accept_control :: "json_dict \<Rightarrow> session_state \<Rightarrow> session_event option client_op" where
  "accept_control m s =
    (if ss_closed s then (Inl SessionClosed, s)
     else bind_op (validate_server_message m, s) (\<lambda>_ s.
     if jget m ''type'' = JStr ''session.opened'' then (Inl (ProtocolError ''duplicate_session_opened''), s)
     else bind_op (identity_ok m s, s) (\<lambda>_ s.
     let kind = str_field m ''type'';
         ev = (\<lambda>t. Some \<lparr>se_kind = kind, se_message = m, se_target = t, se_media = None\<rparr>);
         t = message_target m
     in if kind = ''transcript.delta'' \<or> kind = ''transcript.final''
          then bind_op (accept_transcript m s) (\<lambda>_ s. (Inr (ev None), s))
        else if kind = ''response.begin'' then bind_op (accept_begin t s) (\<lambda>_ s. (Inr (ev (Some t)), s))
        else if kind = ''response.text''
          then bind_op (accept_text t (int_field m ''sequence'') s) (\<lambda>_ s. (Inr (ev (Some t)), s))
        else if kind = ''response.end'' then bind_op (accept_end t m s) (\<lambda>_ s. (Inr (ev (Some t)), s))
        else if kind = ''playback.stop''
          then bind_op (accept_stop (target_field m) (int_field m ''fence_generation'') (str_field m ''cause'') s) (\<lambda>new s.
                 (Inr (if new then ev (Some (target_field m)) else None), s))
        else if kind = ''session.close'' then (Inr (ev None), s\<lparr>ss_closed := True\<rparr>)
        else (Inr (ev None), s))))"

section \<open>Media\<close>

definition validate_media_admission :: "media_frame \<Rightarrow> session_state \<Rightarrow> client_error + bool" where
  "validate_media_admission f s =
    (if mf_media_id f \<noteq> sd_media_id (ss_opened s) \<or> mf_media_epoch f \<noteq> sd_media_epoch (ss_opened s)
       then Inl (ProtocolError ''stale_media_identity'')
     else if mf_flags f \<noteq> FLAG_AUDIO then Inl (ProtocolError ''invalid_media_flags'')
     else (case find_playback s (mf_generation f) of
         None \<Rightarrow> Inl (ProtocolError ''unknown_media_generation'')
       | Some p \<Rightarrow>
           if mf_generation f < ss_fence_generation s \<or> cp_stopped p \<or> cp_ended p then Inr False
           else if ss_current_playback s \<noteq> Some (cp_target p) then Inl (ProtocolError ''playback_target_mismatch'')
           else (case dict_get (ss_last_media_timestamp s) (mf_generation f) of
               None \<Rightarrow> Inr True
             | Some previous \<Rightarrow>
                 let delta = mask32 (mf_timestamp f - previous)
                 in if sd_selected_profile (ss_opened s) = WSS_PROFILE
                    then (if delta \<noteq> 960 then Inl (ProtocolError ''invalid_media_timestamp'') else Inr True)
                    else if delta = 0 \<or> delta mod 960 \<noteq> 0 then Inl (ProtocolError ''invalid_media_timestamp'') else Inr True)))"

definition accept_media :: "media_frame \<Rightarrow> session_state \<Rightarrow> session_event option client_op" where
  "accept_media f s =
    (if ss_closed s then (Inl SessionClosed, s)
     else bind_op (validate_media_admission f s, s) (\<lambda>admitted s.
     if (if sd_selected_profile (ss_opened s) = WSS_PROFILE then mf_sequence f \<noteq> ss_next_downlink_sequence s
         else mf_sequence f < ss_next_downlink_sequence s)
       then (Inl (ProtocolError ''invalid_media_sequence''), s)
     else
       let s1 = s\<lparr>ss_next_downlink_sequence := mf_sequence f + 1\<rparr>
       in if \<not> admitted then (Inr None, s1)
          else
            let s2 = s1\<lparr>ss_last_media_timestamp := dict_set (mf_generation f) (mf_timestamp f) (ss_last_media_timestamp s1)\<rparr>
            in case dict_get (ss_playbacks s2) (mf_generation f) of
                 None \<Rightarrow> (Inl ClientKeyError, s2)
               | Some p \<Rightarrow>
                   let p1 = (if cp_first_media_sequence p = None then p\<lparr>cp_first_media_sequence := Some (mf_sequence f)\<rparr> else p);
                       p2 = p1\<lparr>cp_last_media_sequence := Some (mf_sequence f)\<rparr>
                   in (Inr (Some \<lparr>se_kind = ''media.audio'', se_message = [], se_target = Some (cp_target p), se_media = Some f\<rparr>),
                       s2\<lparr>ss_playbacks := dict_set (mf_generation f) p2 (ss_playbacks s2)\<rparr>)))"

section \<open>Facts and requests of the endpoint\<close>

definition client_fact :: "string \<Rightarrow> playback_target \<Rightarrow> json_dict \<Rightarrow> session_state \<Rightarrow> json_dict" where
  "client_fact kind t fs s =
    [(''type'', JStr kind), (''session_id'', JStr (sd_session_id (ss_opened s))),
     (''session_epoch'', JStr (sd_session_epoch (ss_opened s)))] @ fs @
    [(''target'', JObj [(''response_id'', JStr (fst t)), (''generation'', JInt (snd t))])]"

definition state_uint32 :: "int \<Rightarrow> string \<Rightarrow> client_error + int" where
  "state_uint32 n field = (if 0 \<le> n \<and> n \<le> uint32_max then Inr n else Inl (ProtocolError (''invalid_'' @ field)))"

definition playback_started :: "playback_target \<Rightarrow> int \<Rightarrow> session_state \<Rightarrow> json_dict client_op" where
  "playback_started t first s =
    bind_op (require_known t s, s) (\<lambda>p s.
    if cp_started p then (Inl (ProtocolError ''playback_already_started''), s)
    else if cp_ended p then (Inl (ProtocolError ''playback_already_ended''), s)
    else bind_op (state_uint32 first ''first_media_sequence'', s) (\<lambda>n s.
      if cp_stopped p \<or> Some n \<noteq> cp_first_media_sequence p then (Inl (ProtocolError ''playback_evidence_mismatch''), s)
      else (Inr (client_fact ''playback.started'' t [(''first_media_sequence'', JInt n)] s),
            put_playback (p\<lparr>cp_started := True\<rparr>) s)))"

text \<open>The evidence checks of \<open>playback_ended\<close>, in their order.\<close>

definition ended_evidence :: "client_playback \<Rightarrow> string \<Rightarrow> int \<Rightarrow> int option \<Rightarrow> client_error + unit" where
  "ended_evidence p outcome played last_sequence =
    (if outcome \<notin> set [''completed'', ''stopped'', ''failed''] then Inl (ProtocolError ''invalid_playback_outcome'')
     else if \<not> (0 \<le> played \<and> played \<le> 0xFFFFFFFFFFFFFFFF) then Inl (ProtocolError ''invalid_played_samples'')
     else if played = 0 \<and> last_sequence \<noteq> None then Inl (ProtocolError ''playback_evidence_mismatch'')
     else bind_result (case last_sequence of
         Some n \<Rightarrow> bind_result (state_uint32 n ''last_media_sequence'') (\<lambda>n.
           if \<not> cp_started p \<or> Some n \<noteq> cp_last_media_sequence p then Inl (ProtocolError ''playback_evidence_mismatch'') else Inr ())
       | None \<Rightarrow> if played \<noteq> 0 then Inl (ProtocolError ''playback_evidence_mismatch'') else Inr ()) (\<lambda>_.
     if cp_started p \<and> played = 0 then Inl (ProtocolError ''playback_evidence_mismatch'')
     else if outcome = ''completed'' \<and>
         (\<not> cp_started p \<or> \<not> cp_response_terminal p \<or> cp_final_media_sequence p = None \<or> played = 0 \<or>
          last_sequence \<noteq> cp_final_media_sequence p)
       then Inl (ProtocolError ''playback_evidence_mismatch'')
     else Inr ()))"

text \<open>The playback leaves the ledgers and becomes a tombstone.\<close>

definition bury :: "client_playback \<Rightarrow> playback_target \<Rightarrow> session_state \<Rightarrow> session_state" where
  "bury p t s = s\<lparr>ss_current_playback := (if ss_current_playback s = Some t then None else ss_current_playback s),
     ss_playbacks := dict_pop (snd t) (ss_playbacks s), ss_response_text_sequence := dict_pop (snd t) (ss_response_text_sequence s),
     ss_last_media_timestamp := dict_pop (snd t) (ss_last_media_timestamp s),
     ss_playback_tombstones := append_bounded TOMBSTONE_LIMIT (ss_playback_tombstones s) (p\<lparr>cp_ended := True\<rparr>)\<rparr>"

definition playback_ended ::
    "playback_target \<Rightarrow> string \<Rightarrow> int \<Rightarrow> int option \<Rightarrow> session_state \<Rightarrow> json_dict client_op" where
  "playback_ended t outcome played last_sequence s =
    bind_op (require_known t s, s) (\<lambda>p s.
    if cp_ended p then (Inl (ProtocolError ''playback_already_ended''), s)
    else bind_op (ended_evidence p outcome played last_sequence, s) (\<lambda>_ s.
      (Inr (client_fact ''playback.ended'' t ([(''outcome'', JStr outcome), (''played_samples'', JInt played)] @
         (case last_sequence of None \<Rightarrow> [] | Some n \<Rightarrow> [(''last_media_sequence'', JInt n)])) s),
       bury p t s)))"

definition cancel_request :: "playback_target \<Rightarrow> string \<Rightarrow> session_state \<Rightarrow> json_dict client_op" where
  "cancel_request t request_id s =
    bind_op (require_current t s, s) (\<lambda>_ s.
    (Inr (client_fact ''response.cancel.request'' t [(''request_id'', JStr request_id), (''cause'', JStr ''user_request'')] s), s))"

definition close_message :: "string \<Rightarrow> string option \<Rightarrow> session_state \<Rightarrow> json_dict client_op" where
  "close_message reason detail s =
    (if ss_closed s then (Inl SessionClosed, s)
     else if reason \<notin> set SESSION_CLOSE_REASONS then (Inl (ProtocolError ''invalid_close_reason''), s)
     else if (case detail of None \<Rightarrow> False | Some d \<Rightarrow> CHR 0x00 \<in> set d \<or> length d > 256)
       then (Inl (ProtocolError ''invalid_close_detail''), s)
     else (Inr ([(''type'', JStr ''session.close''), (''session_id'', JStr (sd_session_id (ss_opened s))),
         (''session_epoch'', JStr (sd_session_epoch (ss_opened s))), (''reason'', JStr reason), (''initiated_by'', JStr ''device'')] @
         (case detail of None \<Rightarrow> [] | Some d \<Rightarrow> [(''detail'', JStr d)])),
       s\<lparr>ss_closed := True\<rparr>))"

end
