(* ===== verification/Client_App.thy ===== *)
theory Client_App
  imports Client_State
begin

text \<open>
  The endpoint above its session state: reception in \<open>rva_desktop/session/client.py\<close> and the playback tracker of
  \<open>rva_desktop/app.py\<close>, which renders audio and reports what was played. The audio sink is a port: \<open>sink n ts\<close> is the
  number of samples it acknowledges for the frame with that sequence number and timestamp, \<open>None\<close> when it fails. Facts
  are appended to the control messages the endpoint has sent. An event is handled to its end before the next one.
\<close>

record app_playback =
  ap_target :: playback_target
  ap_started :: bool
  ap_ended :: bool
  ap_played_samples :: int
  ap_last_media_sequence :: "int option"
  ap_last_media_timestamp :: "int option"
  ap_final_media_sequence :: "int option"
  ap_completion_deadline_at :: "real option"

record app_config =
  ac_media_max_age_seconds :: real
  ac_control_timeout_seconds :: real

record desktop_app =
  da_config :: app_config
  da_state :: session_state
  da_wss_fresh_generation :: "int option"
  da_wss_fresh_timestamp :: int
  da_wss_fresh_arrival :: real
  da_playbacks :: "(int, app_playback) dict"
  da_sink_owner :: "playback_target option"
  da_fence_generation :: int
  da_playback_frames :: int
  da_completed_playbacks :: int
  da_session_generation :: int
  da_sent :: "wire_text list"

datatype app_exn = FromClient client_error | SinkFailure | ReopenFailure

type_synonym 'a app_op = "(app_exn, 'a, desktop_app) op_result"
type_synonym audio_sink = "int \<Rightarrow> int \<Rightarrow> int option"

definition desktop_app_init :: "app_config \<Rightarrow> session_opened \<Rightarrow> desktop_app" where
  "desktop_app_init config opened =
    \<lparr>da_config = config, da_state = session_state_init opened, da_wss_fresh_generation = None, da_wss_fresh_timestamp = 0,
     da_wss_fresh_arrival = 0, da_playbacks = [], da_sink_owner = None, da_fence_generation = 1, da_playback_frames = 0,
     da_completed_playbacks = 0, da_session_generation = 1, da_sent = []\<rparr>"

definition on_state :: "'a client_op \<Rightarrow> desktop_app \<Rightarrow> 'a app_op" where
  "on_state m a = (let (r, s) = m in (map_sum FromClient id r, a\<lparr>da_state := s\<rparr>))"

section \<open>Reception\<close>

definition wss_media_is_fresh :: "real \<Rightarrow> media_frame \<Rightarrow> desktop_app \<Rightarrow> bool \<times> desktop_app" where
  "wss_media_is_fresh now f a =
    (if da_wss_fresh_generation a \<noteq> Some (mf_generation f)
     then (True, a\<lparr>da_wss_fresh_generation := Some (mf_generation f), da_wss_fresh_timestamp := mf_timestamp f,
                   da_wss_fresh_arrival := now\<rparr>)
     else
       let media_elapsed = of_int (mask32 (mf_timestamp f - da_wss_fresh_timestamp a)) / 16000;
           age = now - da_wss_fresh_arrival a - media_elapsed
       in (age \<le> ac_media_max_age_seconds (da_config a), a))"

definition reopen_event :: "string \<Rightarrow> session_event" where
  "reopen_event reason = \<lparr>se_kind = ''transport.reopen_required'', se_message = [(''reason'', JStr reason)], se_target = None, se_media = None\<rparr>"

definition from_wss_media :: "real \<Rightarrow> bytes \<Rightarrow> desktop_app \<Rightarrow> session_event option app_op" where
  "from_wss_media now wire a =
    (if sd_selected_profile (ss_opened (da_state a)) \<noteq> WSS_PROFILE then (Inl (FromClient (ProtocolError ''transport_mismatch'')), a)
     else case decode_plain wire of
       Inl e \<Rightarrow> (Inl (FromClient e), a)
     | Inr f \<Rightarrow>
         (case validate_media_admission f (da_state a) of
            Inl e \<Rightarrow> (Inl (FromClient e), a)
          | Inr adm \<Rightarrow>
              let (fresh, a1) = (if adm then wss_media_is_fresh now f a else (True, a))
              in if adm \<and> \<not> fresh then (Inr (Some (reopen_event ''stale_media'')), a1)
                 else on_state (accept_media f (da_state a1)) a1))"

definition from_wss_control :: "wire_text \<Rightarrow> desktop_app \<Rightarrow> session_event option app_op" where
  "from_wss_control wire a = (case client_decode_control wire of
      Inl e \<Rightarrow> (Inl (FromClient e), a)
    | Inr m \<Rightarrow> on_state (accept_control m (da_state a)) a)"

definition send_client_control :: "json_dict \<Rightarrow> desktop_app \<Rightarrow> unit app_op" where
  "send_client_control m a = (case client_encode_control m of
      Inl e \<Rightarrow> (Inl (FromClient e), a)
    | Inr t \<Rightarrow> (Inr (), a\<lparr>da_sent := da_sent a @ [t]\<rparr>))"

section \<open>Playback\<close>

definition media_completion_timeout :: "app_config \<Rightarrow> real" where
  "media_completion_timeout c = max (5 / 100) (ac_media_max_age_seconds c)"

definition response_terminal_timeout :: "app_config \<Rightarrow> real" where
  "response_terminal_timeout c = max 1 (max (ac_media_max_age_seconds c * 8) (ac_control_timeout_seconds c))"

text \<open>A playback object is shared with the dictionary: a change is seen through its entry.\<close>

definition app_get :: "desktop_app \<Rightarrow> int \<Rightarrow> app_playback option" where
  "app_get a g = dict_get (da_playbacks a) g"

definition app_put :: "int \<Rightarrow> (app_playback \<Rightarrow> app_playback) \<Rightarrow> desktop_app \<Rightarrow> desktop_app" where
  "app_put g f a = (case dict_get (da_playbacks a) g of
      None \<Rightarrow> a
    | Some p \<Rightarrow> a\<lparr>da_playbacks := dict_set g (f p) (da_playbacks a)\<rparr>)"

definition end_playback :: "app_playback \<Rightarrow> string \<Rightarrow> desktop_app \<Rightarrow> unit app_op" where
  "end_playback p outcome a =
    (if ap_ended p then (Inr (), a)
     else
       let g = snd (ap_target p);
           a1 = app_put g (ap_ended_update (\<lambda>_. True)) a;
           a2 = a1\<lparr>da_sink_owner := (if da_sink_owner a1 = Some (ap_target p) then None else da_sink_owner a1)\<rparr>
       in bind_op (on_state (playback_ended (ap_target p) outcome (ap_played_samples p) (ap_last_media_sequence p) (da_state a2)) a2) (\<lambda>m a3.
          bind_op (send_client_control m a3) (\<lambda>_ a4.
          (Inr (), app_put g (ap_completion_deadline_at_update (\<lambda>_. None))
             (a4\<lparr>da_completed_playbacks := da_completed_playbacks a4 + 1\<rparr>)))))"

fun end_all :: "app_playback list \<Rightarrow> desktop_app \<Rightarrow> unit app_op" where
  "end_all [] a = (Inr (), a)"
| "end_all (p # ps) a =
    (if ap_ended p then end_all ps a else bind_op (end_playback p ''stopped'' a) (\<lambda>_ a. end_all ps a))"

definition stop_active_playback :: "desktop_app \<Rightarrow> unit app_op" where
  "stop_active_playback a = end_all (dict_values (da_playbacks a)) a"

text \<open>
  \<open>reopened\<close> is what the new bootstrap and handshake of \<open>DesktopSession.reopen\<close> give, \<open>None\<close> when they fail. The control
  messages of the old connection end with its \<open>session.close\<close>.
\<close>

definition session_reopen :: "session_opened option \<Rightarrow> desktop_app \<Rightarrow> unit app_op" where
  "session_reopen reopened a =
    (let a1 = (case close_message ''network_change'' (Some ''fresh_reopen'') (da_state a) of
           (Inl _, _) \<Rightarrow> a
         | (Inr m, s) \<Rightarrow> snd (send_client_control m (a\<lparr>da_state := s\<rparr>)))
     in case reopened of
          None \<Rightarrow> (Inl ReopenFailure, a1)
        | Some opened \<Rightarrow> (Inr (), a1\<lparr>da_state := session_state_init opened, da_wss_fresh_generation := None\<rparr>))"

definition fresh_reopen :: "session_opened option \<Rightarrow> int \<Rightarrow> desktop_app \<Rightarrow> unit app_op" where
  "fresh_reopen reopened observed a =
    (if observed \<noteq> da_session_generation a then (Inr (), a)
     else bind_op (end_all (dict_values (da_playbacks a)) a) (\<lambda>_ a.
       bind_op (session_reopen reopened (a\<lparr>da_playbacks := [], da_sink_owner := None, da_fence_generation := 1\<rparr>)) (\<lambda>_ a.
       (Inr (), a\<lparr>da_session_generation := da_session_generation a + 1\<rparr>))))"

definition recover_from_media_gap :: "session_opened option \<Rightarrow> app_playback \<Rightarrow> desktop_app \<Rightarrow> unit app_op" where
  "recover_from_media_gap reopened p a =
    bind_op (end_playback p ''stopped'' a) (\<lambda>_ a. fresh_reopen reopened (da_session_generation a) a)"

text \<open>\<open>_render_pcm\<close> of one frame of the playback with generation \<open>g\<close>.\<close>

definition render_pcm :: "audio_sink \<Rightarrow> int \<Rightarrow> int \<Rightarrow> int \<Rightarrow> int option \<Rightarrow> desktop_app \<Rightarrow> unit app_op" where
  "render_pcm sink g n ts report a = (case (sink n ts, app_get a g) of
      (Some rendered, Some p) \<Rightarrow>
        bind_op (case report of
            Some first \<Rightarrow>
              if \<not> ap_started p
              then bind_op (on_state (playback_started (ap_target p) first (da_state a)) a) (\<lambda>m a.
                   bind_op (send_client_control m a) (\<lambda>_ a. (Inr (), app_put g (ap_started_update (\<lambda>_. True)) a)))
              else (Inr (), a)
          | None \<Rightarrow> (Inr (), a)) (\<lambda>_ a.
        (Inr (), (app_put g (ap_played_samples_update ((+) rendered)) a)\<lparr>da_playback_frames := da_playback_frames a + 1\<rparr>))
    | _ \<Rightarrow> (Inl SinkFailure, a))"

fun conceal_frames :: "audio_sink \<Rightarrow> int \<Rightarrow> int \<Rightarrow> int \<Rightarrow> int \<Rightarrow> int list \<Rightarrow> desktop_app \<Rightarrow> unit app_op" where
  "conceal_frames sink g n missing previous [] a = (Inr (), a)"
| "conceal_frames sink g n missing previous (i # is) a =
    bind_op (render_pcm sink g (n - missing + i - 1) (mask32 (previous + i * 960)) None a) (\<lambda>_ a.
    conceal_frames sink g n missing previous is a)"

definition MAX_PLC_GAP_FRAMES :: int where
  "MAX_PLC_GAP_FRAMES = 4"

definition conceal_bounded_gap :: "audio_sink \<Rightarrow> session_opened option \<Rightarrow> app_playback \<Rightarrow> int \<Rightarrow> int \<Rightarrow> desktop_app \<Rightarrow> bool app_op" where
  "conceal_bounded_gap sink reopened p n ts a =
    (if sd_selected_profile (ss_opened (da_state a)) \<noteq> UDP_PROFILE then (Inr True, a)
     else case (ap_last_media_sequence p, ap_last_media_timestamp p) of
       (Some previous_sequence, Some previous) \<Rightarrow>
         let timestamp_delta = mask32 (ts - previous); sequence_delta = n - previous_sequence
         in if timestamp_delta = 0 \<or> timestamp_delta mod 960 \<noteq> 0 \<or> sequence_delta \<le> 0
              then bind_op (recover_from_media_gap reopened p a) (\<lambda>_ a. (Inr False, a))
            else
              let missing = timestamp_delta div 960 - 1
              in if missing > sequence_delta - 1 \<or> missing > MAX_PLC_GAP_FRAMES
                   then bind_op (recover_from_media_gap reopened p a) (\<lambda>_ a. (Inr False, a))
                 else bind_op (conceal_frames sink (snd (ap_target p)) n missing previous [1..missing] a) (\<lambda>_ a. (Inr True, a))
     | _ \<Rightarrow> (Inr True, a))"

definition complete_if_ready :: "app_playback \<Rightarrow> desktop_app \<Rightarrow> unit app_op" where
  "complete_if_ready p a =
    (if ap_ended p \<or> ap_final_media_sequence p = None then (Inr (), a)
     else if ap_last_media_sequence p \<noteq> ap_final_media_sequence p then (Inr (), a)
     else end_playback p ''completed'' a)"

definition play_audio ::
    "audio_sink \<Rightarrow> session_opened option \<Rightarrow> real \<Rightarrow> playback_target \<Rightarrow> media_frame \<Rightarrow> desktop_app \<Rightarrow> unit app_op" where
  "play_audio sink reopened now t f a = (case app_get a (snd t) of
      None \<Rightarrow> (Inr (), a)
    | Some p \<Rightarrow>
        if ap_target p \<noteq> t \<or> ap_ended p \<or> snd t < da_fence_generation a then (Inr (), a)
        else if da_sink_owner a \<noteq> None \<and> da_sink_owner a \<noteq> Some t then (Inr (), a)
        else
          bind_op (conceal_bounded_gap sink reopened p (mf_sequence f) (mf_timestamp f) (a\<lparr>da_sink_owner := Some t\<rparr>)) (\<lambda>go a.
          if \<not> go then (Inr (), a)
          else
            bind_op (render_pcm sink (snd t) (mf_sequence f) (mf_timestamp f) (Some (mf_sequence f)) a) (\<lambda>_ a.
            let a1 = app_put (snd t) (\<lambda>p. p\<lparr>ap_last_media_sequence := Some (mf_sequence f), ap_last_media_timestamp := Some (mf_timestamp f),
                       ap_completion_deadline_at := Some (now + response_terminal_timeout (da_config a))\<rparr>) a
            in case app_get a1 (snd t) of None \<Rightarrow> (Inr (), a1) | Some p1 \<Rightarrow> complete_if_ready p1 a1)))"

definition app_finish_response :: "real \<Rightarrow> playback_target \<Rightarrow> json_dict \<Rightarrow> desktop_app \<Rightarrow> unit app_op" where
  "app_finish_response now t m a = (case app_get a (snd t) of
      None \<Rightarrow> (Inr (), a)
    | Some p \<Rightarrow>
        if ap_target p \<noteq> t \<or> ap_ended p then (Inr (), a)
        else if jget m ''outcome'' = JStr ''completed'' then
          let p1 = p\<lparr>ap_final_media_sequence := Some (int_field m ''final_media_sequence'')\<rparr>;
              a1 = app_put (snd t) (\<lambda>_. p1) a
          in bind_op (complete_if_ready p1 a1) (\<lambda>_ a2.
             (Inr (), app_put (snd t) (\<lambda>p. if ap_ended p then p
                else p\<lparr>ap_completion_deadline_at := Some (now + media_completion_timeout (da_config a2))\<rparr>) a2))
        else end_playback p (if jget m ''outcome'' = JStr ''cancelled'' then ''stopped'' else ''failed'') a)"

definition stop_playback :: "playback_target \<Rightarrow> int \<Rightarrow> desktop_app \<Rightarrow> unit app_op" where
  "stop_playback t fence a =
    (let a1 = a\<lparr>da_fence_generation := max (da_fence_generation a) fence\<rparr>
     in case app_get a1 (snd t) of
          None \<Rightarrow> (Inr (), a1)
        | Some p \<Rightarrow>
            if ap_target p \<noteq> t \<or> ap_ended p then (Inr (), a1)
            else end_playback p ''stopped''
                   (a1\<lparr>da_sink_owner := (if da_sink_owner a1 = Some t then None else da_sink_owner a1)\<rparr>))"

definition handle_event :: "audio_sink \<Rightarrow> session_opened option \<Rightarrow> real \<Rightarrow> session_event \<Rightarrow> desktop_app \<Rightarrow> unit app_op" where
  "handle_event sink reopened now e a = (case se_target e of
      None \<Rightarrow> (Inr (), a)
    | Some t \<Rightarrow>
        if se_kind e = ''response.begin'' then
          (Inr (), a\<lparr>da_playbacks := dict_set (snd t)
             \<lparr>ap_target = t, ap_started = False, ap_ended = False, ap_played_samples = 0, ap_last_media_sequence = None,
              ap_last_media_timestamp = None, ap_final_media_sequence = None,
              ap_completion_deadline_at = Some (now + response_terminal_timeout (da_config a))\<rparr> (da_playbacks a)\<rparr>)
        else if se_kind e = ''media.audio'' then
          (case se_media e of None \<Rightarrow> (Inr (), a) | Some f \<Rightarrow> play_audio sink reopened now t f a)
        else if se_kind e = ''response.end'' then app_finish_response now t (se_message e) a
        else if se_kind e = ''playback.stop'' then stop_playback t (int_field (se_message e) ''fence_generation'') a
        else (Inr (), a))"

text \<open>One round of \<open>_run_receiver\<close> for a received item. The result tells whether the loop goes on.\<close>

definition receiver_round ::
    "audio_sink \<Rightarrow> session_opened option \<Rightarrow> real \<Rightarrow> session_event option app_op \<Rightarrow> bool app_op" where
  "receiver_round sink reopened now received =
    bind_op received (\<lambda>ev a. case ev of
        None \<Rightarrow> (Inr True, a)
      | Some e \<Rightarrow>
          if se_kind e = ''transport.reopen_required''
            then bind_op (fresh_reopen reopened (da_session_generation a) a) (\<lambda>_ a. (Inr True, a))
          else bind_op (handle_event sink reopened now e a) (\<lambda>_ a. (Inr (se_kind e \<noteq> ''session.close''), a)))"

section \<open>Deadlines\<close>

definition next_completion_timeout :: "real \<Rightarrow> desktop_app \<Rightarrow> real option" where
  "next_completion_timeout now a =
    (let deadlines = List.map_filter (\<lambda>p. if ap_ended p then None else ap_completion_deadline_at p) (dict_values (da_playbacks a))
     in if deadlines = [] then None else Some (max 0 (Min (set deadlines) - now)))"

definition expired_playback :: "real \<Rightarrow> app_playback \<Rightarrow> bool" where
  "expired_playback now p \<longleftrightarrow> \<not> ap_ended p \<and> (case ap_completion_deadline_at p of None \<Rightarrow> False | Some d \<Rightarrow> d \<le> now)"

definition expire_incomplete_playback :: "session_opened option \<Rightarrow> real \<Rightarrow> desktop_app \<Rightarrow> unit app_op" where
  "expire_incomplete_playback reopened now a = (case List.find (expired_playback now) (dict_values (da_playbacks a)) of
      None \<Rightarrow> (Inr (), a)
    | Some p \<Rightarrow> recover_from_media_gap reopened p a)"

end
