(* ===== verification/Interop.thy ===== *)
theory Interop
  imports Rva_Binding Client_App
begin

text \<open>
  The two ends of a session together: the worker's binding (\<open>bindings/rva/binding.py\<close>) and the desktop endpoint
  (\<open>session/state.py\<close>, \<open>app.py\<close>) exchanging the messages they really produce.
\<close>

section \<open>Messages cross\<close>

lemma client_reads:
  "encode_control m = Inr t \<Longrightarrow> json_unique (JObj m) \<Longrightarrow> client_decode_control t = Inr m"
  by (auto simp: encode_control_def client_decode_control_def text_of_def Let_def split: option.splits if_splits)

lemma worker_reads:
  "client_encode_control m = Inr t \<Longrightarrow> json_unique (JObj m) \<Longrightarrow> decode_control t = Inr m"
  by (auto simp: client_encode_control_def decode_control_def text_of_def Let_def split: option.splits if_splits)

definition session_message :: "string \<Rightarrow> string \<Rightarrow> string \<Rightarrow> json_dict \<Rightarrow> json_dict" where
  "session_message kind sid epoch fs =
    [(''type'', JStr kind), (''session_id'', JStr sid), (''session_epoch'', JStr epoch)] @ fs"

lemma event_message: "event b kind fs = encode_control (session_message kind (rb_session_id b) (rb_session_epoch b) fs)"
  by (simp add: event_def session_message_def)

text \<open>The endpoint knows the session under the names the worker gave it.\<close>

definition same_session :: "binding \<Rightarrow> session_state \<Rightarrow> bool" where
  "same_session b s \<longleftrightarrow> sd_session_id (ss_opened s) = rb_session_id b \<and> sd_session_epoch (ss_opened s) = rb_session_epoch b \<and>
     sd_media_id (ss_opened s) = rb_media_id b \<and> sd_media_epoch (ss_opened s) = rb_media_epoch b \<and>
     rb_selected_media_profile b = Some (sd_selected_profile (ss_opened s))"

lemmas client_checks = validate_server_message_def validate_fields_def required_fields_def client_member_def client_exact_def
  client_identifier_def client_uint32_field_def client_bounded_int_def client_target_def client_text_def has_field_def

abbreviation known_session :: "session_state \<Rightarrow> string \<Rightarrow> string \<Rightarrow> bool" where
  "known_session s sid epoch \<equiv> sd_session_id (ss_opened s) = sid \<and> sd_session_epoch (ss_opened s) = epoch \<and>
     is_identifier sid \<and> is_identifier epoch"

abbreviation client_event :: "json_dict \<Rightarrow> string \<Rightarrow> playback_target option \<Rightarrow> session_event" where
  "client_event m kind t \<equiv> \<lparr>se_kind = kind, se_message = m, se_target = t, se_media = None\<rparr>"

lemmas client_fields = session_message_def jget_def str_field_def int_field_def message_target_def target_field_def identity_ok_def

lemma begin_read:
  assumes "\<not> ss_closed s" "known_session s sid epoch" "is_identifier i" "1 \<le> g" "g \<le> uint32_max"
    and m: "m = session_message ''response.begin'' sid epoch [(''response_id'', JStr i), (''generation'', JInt g)]"
  shows "accept_control m s = bind_op (accept_begin (i, g) s) (\<lambda>_ s. (Inr (Some (client_event m ''response.begin'' (Some (i, g)))), s))"
proof -
  have "validate_server_message m = Inr ()"
    using assms by (simp add: m client_checks client_fields SERVER_TYPES_def)
  then show ?thesis using assms by (simp add: accept_control_def client_fields Let_def)
qed

lemma text_read:
  assumes "\<not> ss_closed s" "known_session s sid epoch" "is_identifier i" "1 \<le> g" "g \<le> uint32_max" "0 \<le> n" "n \<le> uint32_max"
    "x \<noteq> []" "CHR 0x00 \<notin> set x" "length x \<le> 4096"
    and m: "m = session_message ''response.text'' sid epoch
      [(''response_id'', JStr i), (''generation'', JInt g), (''sequence'', JInt n), (''text'', JStr x)]"
  shows "accept_control m s = bind_op (accept_text (i, g) n s) (\<lambda>_ s. (Inr (Some (client_event m ''response.text'' (Some (i, g)))), s))"
proof -
  have "validate_server_message m = Inr ()"
    using assms by (simp add: m client_checks client_fields SERVER_TYPES_def)
  then show ?thesis using assms by (simp add: accept_control_def client_fields Let_def)
qed

lemma completed_read:
  assumes "\<not> ss_closed s" "known_session s sid epoch" "is_identifier i" "1 \<le> g" "g \<le> uint32_max" "0 \<le> n" "n \<le> uint32_max"
    and m: "m = session_message ''response.end'' sid epoch
      [(''response_id'', JStr i), (''generation'', JInt g), (''outcome'', JStr ''completed''), (''final_media_sequence'', JInt n)]"
  shows "accept_control m s = bind_op (accept_end (i, g) m s) (\<lambda>_ s. (Inr (Some (client_event m ''response.end'' (Some (i, g)))), s))"
proof -
  have "validate_server_message m = Inr ()"
    using assms by (simp add: m client_checks client_fields SERVER_TYPES_def)
  then show ?thesis using assms by (simp add: accept_control_def client_fields Let_def)
qed

lemma fenced_read:
  assumes "\<not> ss_closed s" "known_session s sid epoch" "is_identifier i" "1 \<le> g" "g \<le> uint32_max"
    and m: "m = session_message ''response.end'' sid epoch
      ([(''response_id'', JStr i), (''generation'', JInt g), (''outcome'', JStr (if failed then ''failed'' else ''cancelled''))] @
       (if failed then [(''error_code'', JStr ''response_failed'')] else []))"
  shows "accept_control m s = bind_op (accept_end (i, g) m s) (\<lambda>_ s. (Inr (Some (client_event m ''response.end'' (Some (i, g)))), s))"
proof -
  have "client_error_code (JStr ''response_failed'') = Inr ()" by (simp add: client_error_code_def error_code_char_def)
  then have "validate_server_message m = Inr ()"
    using assms by (cases failed) (simp_all add: m client_checks client_fields SERVER_TYPES_def)
  then show ?thesis using assms by (cases failed) (simp_all add: accept_control_def client_fields Let_def)
qed

lemma stop_read:
  assumes "\<not> ss_closed s" "known_session s sid epoch" "is_identifier i" "1 \<le> g" "g \<le> uint32_max" "1 \<le> fence" "fence \<le> uint32_max"
    "cause \<in> set STOP_CAUSES"
    and m: "m = session_message ''playback.stop'' sid epoch
      [(''target'', JObj [(''response_id'', JStr i), (''generation'', JInt g)]), (''fence_generation'', JInt fence), (''cause'', JStr cause)]"
  shows "accept_control m s = bind_op (accept_stop (i, g) fence cause s)
    (\<lambda>new s. (Inr (if new then Some (client_event m ''playback.stop'' (Some (i, g))) else None), s))"
proof -
  have "validate_server_message m = Inr ()"
    using assms by (auto simp add: m client_checks client_fields SERVER_TYPES_def STOP_CAUSES_def)
  moreover have "target_field m = (i, g)" by (simp add: m client_fields)
  moreover have "str_field m ''type'' = ''playback.stop''" "str_field m ''cause'' = cause" "int_field m ''fence_generation'' = fence"
    "jget m ''type'' = JStr ''playback.stop''" "identity_ok m s = Inr ()"
    using assms by (simp_all add: client_fields)
  ultimately show ?thesis using assms(1) by (simp add: accept_control_def Let_def cong: if_cong)
qed


text \<open>Facts of the endpoint fit a control frame, and the worker reads them as they were meant.\<close>

lemma fact_fits:
  assumes "known_session s sid epoch" "is_identifier i" "1 \<le> g" "g \<le> uint32_max" "\<not> has_surrogate (JObj fs)" "length fs \<le> 10"
    "str_len kind \<le> 100" "fields_len fs \<le> 30000"
  shows "client_encode_control (client_fact kind (i, g) fs s) = Inr (text_of (JObj (client_fact kind (i, g) fs s)))"
proof -
  have "str_len sid \<le> 130" "str_len epoch \<le> 130" "str_len i \<le> 130" "int_len g \<le> 10"
    using assms by (simp_all add: str_len_identifier int_len_uint32)
  moreover have "str_len ''type'' + str_len ''session_id'' + str_len ''session_epoch'' + str_len ''target'' +
      str_len ''response_id'' + str_len ''generation'' \<le> 200"
    by (simp add: str_len_def escaped_len_def)
  ultimately have "\<not> has_surrogate (JObj (client_fact kind (i, g) fs s)) \<and> json_len (JObj (client_fact kind (i, g) fs s)) \<le> CONTROL_MAX_BYTES"
    using assms by (auto simp: client_fact_def fields_len_def bracket_len_def CONTROL_MAX_BYTES_def)
  then show ?thesis by (simp add: client_encode_control_def text_of_def Let_def)
qed

lemma started_read:
  assumes "ensure_open b = Inr ()" "known_session s (rb_session_id b) (rb_session_epoch b)" "is_identifier i" "1 \<le> g" "g \<le> uint32_max"
    "0 \<le> n" "n \<le> uint32_max"
    and m: "m = client_fact ''playback.started'' (i, g) [(''first_media_sequence'', JInt n)] s"
  shows "\<exists>t. client_encode_control m = Inr t \<and> receive_control t b =
    bind_op (with_responses (response_playback_started i g n) b) (\<lambda>r b. (Inr (no_effect\<lparr>ce_playback_started := Some r\<rparr>), b))"
proof -
  have "client_encode_control m = Inr (text_of (JObj m))"
    unfolding m using assms int_len_uint32 [of n]
    by (intro fact_fits) (auto simp: fields_len_def str_len_def escaped_len_def)
  moreover have "json_unique (JObj m)" by (simp add: m client_fact_def)
  ultimately have "decode_control (text_of (JObj m)) = Inr m" by (rule worker_reads)
  moreover have "jget m ''type'' = JStr ''playback.started''" by (simp add: m client_fact_def jget_def)
  moreover have "receive_playback_started m b =
      bind_op (with_responses (response_playback_started i g n) b) (\<lambda>r b. (Inr (no_effect\<lparr>ce_playback_started := Some r\<rparr>), b))"
    using assms by (auto simp: receive_playback_started_def m client_fact_def jget_def require_exact_fields_def require_context_def
        parse_target_def require_identifier_def require_uint32_def validate_uint32_def check_that_def)
  ultimately show ?thesis
    using \<open>client_encode_control m = _\<close> assms(1) by (simp add: receive_control_def Let_def)
qed

definition outcome_name :: "playback_outcome \<Rightarrow> string" where
  "outcome_name oc = (case oc of PCompleted \<Rightarrow> ''completed'' | PStopped \<Rightarrow> ''stopped'' | PFailed \<Rightarrow> ''failed'')"

lemma ended_read:
  assumes "ensure_open b = Inr ()" "known_session s (rb_session_id b) (rb_session_epoch b)" "is_identifier i" "1 \<le> g" "g \<le> uint32_max"
    "0 \<le> played" "played \<le> 9007199254740991" "\<forall>n. last_sequence = Some n \<longrightarrow> 0 \<le> n \<and> n \<le> uint32_max"
    "oc = PCompleted \<longrightarrow> last_sequence \<noteq> None"
    and m: "m = client_fact ''playback.ended'' (i, g) ([(''outcome'', JStr (outcome_name oc)), (''played_samples'', JInt played)] @
      (case last_sequence of None \<Rightarrow> [] | Some n \<Rightarrow> [(''last_media_sequence'', JInt n)])) s"
  shows "\<exists>t. client_encode_control m = Inr t \<and> receive_control t b =
    bind_op (with_responses (response_playback_ended i g oc played last_sequence) b)
      (\<lambda>fact b. (Inr (no_effect\<lparr>ce_playback_ended := Some fact\<rparr>), b))"
proof -
  have ol: "str_len (outcome_name oc) \<le> 20" by (cases oc) (simp_all add: outcome_name_def str_len_def escaped_len_def)
  have pl: "int_len played \<le> 16" using assms(6,7) dec_len_le [of "nat played" 15] by (simp add: int_len_def)
  have ll: "last_sequence = Some n \<Longrightarrow> int_len n \<le> 10" for n using assms(8) int_len_uint32 [of n] by simp
  have "client_encode_control m = Inr (text_of (JObj m))"
    unfolding m using assms ol pl ll
    by (intro fact_fits) (auto simp: fields_len_def str_len_def escaped_len_def split: option.splits)
  moreover have "json_unique (JObj m)" by (cases last_sequence) (simp_all add: m client_fact_def)
  ultimately have "decode_control (text_of (JObj m)) = Inr m" by (rule worker_reads)
  moreover have ty: "jget m ''type'' = JStr ''playback.ended''" by (simp add: m client_fact_def jget_def)
  moreover have "receive_playback_ended m b = bind_op (with_responses (response_playback_ended i g oc played last_sequence) b)
      (\<lambda>fact b. (Inr (no_effect\<lparr>ce_playback_ended := Some fact\<rparr>), b))"
  proof -
    have "require_fields_opt m [''type'', ''session_id'', ''session_epoch'', ''target'', ''outcome'', ''played_samples'']
        ''last_media_sequence'' = Inr ()"
      by (cases last_sequence) (simp_all add: m client_fact_def require_fields_opt_def Let_def insert_commute)
    moreover have "require_context b m = Inr ()" "parse_target (jget m ''target'') = Inr (i, g)"
      using assms(2-5) by (cases last_sequence; auto simp: m client_fact_def jget_def require_context_def parse_target_def require_exact_fields_def
          require_identifier_def require_uint32_def validate_uint32_def check_that_def)+
    moreover have "playback_outcome_of (jget m ''outcome'') = Inr oc" "require_uint53 (jget m ''played_samples'') ''played_samples'' = Inr played"
      using assms(6,7) by (cases oc; simp add: m client_fact_def jget_def playback_outcome_of_def outcome_name_def require_uint53_def)+
    moreover have "(if jget m ''last_media_sequence'' = JNull then Inr None
        else bind_result (require_uint32 (jget m ''last_media_sequence'') ''last_media_sequence'' 0) (\<lambda>n. Inr (Some n))) = Inr last_sequence"
      using assms(8) by (cases last_sequence) (simp_all add: m client_fact_def jget_def require_uint32_def validate_uint32_def check_that_def)
    ultimately show ?thesis using assms(9) by (auto simp: receive_playback_ended_def)
  qed
  ultimately show ?thesis
    using \<open>client_encode_control m = _\<close> assms(1) by (simp add: receive_control_def Let_def)
qed


section \<open>A session in lock step\<close>

text \<open>
  The worker performs an operation, its messages are delivered to the endpoint in order, and what the endpoint sends is
  delivered back, before the next operation.
\<close>

datatype downlink = DControl wire_text | DMedia bytes

datatype worker_op = WBegin string int | WText nat int json | WMedia nat bytes int | WEnd nat | WCancel string

definition worker_step :: "worker_op \<Rightarrow> binding \<Rightarrow> downlink list binding_op" where
  "worker_step op b = (case op of
      WBegin i e \<Rightarrow> bind_op (binding_response_begin i e b) (\<lambda>(r, t) b. (Inr (case t of None \<Rightarrow> [] | Some t \<Rightarrow> [DControl t]), b))
    | WText r n x \<Rightarrow> bind_op (response_text r n x b) (\<lambda>t b. (Inr [DControl t], b))
    | WMedia r payload ts \<Rightarrow> bind_op (serialize_audio payload ts r b) (\<lambda>w b. (Inr [DMedia w], b))
    | WEnd r \<Rightarrow> bind_op (response_end r b) (\<lambda>t b. (Inr [DControl t], b))
    | WCancel cause \<Rightarrow> bind_op (cancel_active_response cause b) (\<lambda>eff b. (Inr (map DControl (ce_outbound eff)), b)))"

definition endpoint_step :: "audio_sink \<Rightarrow> session_opened option \<Rightarrow> real \<Rightarrow> downlink \<Rightarrow> desktop_app \<Rightarrow> bool app_op" where
  "endpoint_step sink ro now d a = receiver_round sink ro now
    (case d of DControl t \<Rightarrow> from_wss_control t a | DMedia w \<Rightarrow> from_wss_media now w a)"

fun deliver_down :: "audio_sink \<Rightarrow> session_opened option \<Rightarrow> real \<Rightarrow> downlink list \<Rightarrow> desktop_app \<Rightarrow> unit app_op" where
  "deliver_down sink ro now [] a = (Inr (), a)"
| "deliver_down sink ro now (d # ds) a = bind_op (endpoint_step sink ro now d a) (\<lambda>_ a. deliver_down sink ro now ds a)"

fun deliver_up :: "wire_text list \<Rightarrow> binding \<Rightarrow> unit binding_op" where
  "deliver_up [] b = (Inr (), b)"
| "deliver_up (t # ts) b = bind_op (receive_control t b) (\<lambda>_ b. deliver_up ts b)"

datatype joint_error = WorkerRefused binding_error | EndpointFailed app_exn | FactRefused binding_error

definition joint_step ::
    "audio_sink \<Rightarrow> session_opened option \<Rightarrow> real \<Rightarrow> worker_op \<Rightarrow> binding \<times> desktop_app \<Rightarrow> joint_error + binding \<times> desktop_app" where
  "joint_step sink ro now op ba = (let (b, a) = ba in case worker_step op b of
      (Inl e, _) \<Rightarrow> Inl (WorkerRefused e)
    | (Inr ds, b1) \<Rightarrow> (case deliver_down sink ro now ds a of
          (Inl e, _) \<Rightarrow> Inl (EndpointFailed e)
        | (Inr _, a1) \<Rightarrow> (case deliver_up (drop (length (da_sent a)) (da_sent a1)) b1 of
              (Inl e, _) \<Rightarrow> Inl (FactRefused e)
            | (Inr _, b2) \<Rightarrow> Inr (b2, a1))))"

subsection \<open>The relation\<close>

definition worker_generation :: "binding \<Rightarrow> int" where
  "worker_generation b = vs_generation (rc_state (rb_responses b))"

text \<open>The playback of record \<open>r\<close> is followed by both sides.\<close>

definition endpoint_follows :: "binding \<Rightarrow> session_state \<Rightarrow> response_record \<Rightarrow> bool" where
  "endpoint_follows b s x \<longleftrightarrow> (let t = record_key x; heard = (rr_last_media_sequence x \<noteq> None) in
     ss_current_playback s = Some t \<and>
     dict_get (ss_playbacks s) (snd t) = Some ((new_playback t)\<lparr>cp_started := heard,
       cp_first_media_sequence := rr_first_media_sequence x, cp_last_media_sequence := rr_last_media_sequence x\<rparr>) \<and>
     dict_get (ss_response_text_sequence s) (snd t) = Some (rb_next_response_text_sequence b) \<and>
     (dict_get (ss_last_media_timestamp s) (snd t) = None \<longleftrightarrow> \<not> heard))"

definition app_follows :: "binding \<Rightarrow> desktop_app \<Rightarrow> response_record \<Rightarrow> bool" where
  "app_follows b a x \<longleftrightarrow> (let t = record_key x; heard = (rr_last_media_sequence x \<noteq> None) in
     (da_sink_owner a = None \<or> da_sink_owner a = Some t) \<and>
     (\<exists>q. app_get a (snd t) = Some q \<and> ap_target q = t \<and> \<not> ap_ended q \<and> ap_started q = heard \<and>
        ap_last_media_sequence q = rr_last_media_sequence x \<and> ap_final_media_sequence q = None \<and>
        (ap_played_samples q = 0 \<longleftrightarrow> \<not> heard) \<and> 0 \<le> ap_played_samples q \<and>
        ap_played_samples q \<le> 960 * rb_next_downlink_sequence b))"

definition worker_plays :: "binding \<Rightarrow> nat \<Rightarrow> bool" where
  "worker_plays b r \<longleftrightarrow> (let c = rb_responses b; x = rec_at c r in
     rc_active c = Some r \<and> dict_get (rc_records c) (record_key x) = Some r \<and>
     rr_playback_started x = (rr_last_media_sequence x \<noteq> None) \<and>
     (\<forall>n. rr_last_media_sequence x = Some n \<longrightarrow> 0 \<le> n \<and> n < rb_next_downlink_sequence b) \<and>
     (\<forall>n m. rr_first_media_sequence x = Some n \<longrightarrow> rr_last_media_sequence x = Some m \<longrightarrow> n \<le> m))"

definition in_step :: "binding \<Rightarrow> desktop_app \<Rightarrow> bool" where
  "in_step b a \<longleftrightarrow> (let s = da_state a in
     binding_inv b \<and> ensure_open b = Inr () \<and> rb_selected_media_profile b = Some WSS_PROFILE \<and> same_session b s \<and> \<not> ss_closed s \<and>
     ss_next_downlink_sequence s = rb_next_downlink_sequence b \<and>
     ss_fence_generation s \<le> max 1 (worker_generation b) \<and> da_fence_generation a \<le> max 1 (worker_generation b) \<and>
     ss_highest_generation s \<le> worker_generation b \<and> worker_generation b \<le> uint32_max \<and> (\<forall>g. dict_get (ss_last_media_timestamp s) g \<noteq> None \<longrightarrow> g \<le> worker_generation b) \<and>
     (case current_playback b of
        None \<Rightarrow> ss_current_playback s = None \<and> da_sink_owner a = None
      | Some r \<Rightarrow> worker_plays b r \<and> endpoint_follows b s (rec_at (rb_responses b) r) \<and> app_follows b a (rec_at (rb_responses b) r)))"

text \<open>
  What the environment provides: the numbers stay in the range of the wire, texts hold no NUL, consecutive packets of a
  response are 60 ms apart and arrive in time, and a response is not stopped as failed.
\<close>

definition op_ok :: "real \<Rightarrow> worker_op \<Rightarrow> binding \<Rightarrow> desktop_app \<Rightarrow> bool" where
  "op_ok now op b a = (case op of
      WBegin i e \<Rightarrow> worker_generation b < uint32_max
    | WText r n x \<Rightarrow> (\<forall>y. x = JStr y \<longrightarrow> CHR 0x00 \<notin> set y)
    | WMedia r payload ts \<Rightarrow>
        (let g = snd (record_key (rec_at (rb_responses b) r))
         in (\<forall>previous. dict_get (ss_last_media_timestamp (da_state a)) g = Some previous \<longrightarrow> mask32 (ts - previous) = 960) \<and>
            (da_wss_fresh_generation a = Some g \<longrightarrow>
               now - da_wss_fresh_arrival a - of_int (mask32 (ts - da_wss_fresh_timestamp a)) / 16000 \<le> ac_media_max_age_seconds (da_config a)))
    | WEnd r \<Rightarrow> True
    | WCancel cause \<Rightarrow> cause \<noteq> ''response_failed'' \<and> worker_generation b < uint32_max)"

definition sink_ok :: "audio_sink \<Rightarrow> bool" where
  "sink_ok sink \<longleftrightarrow> (\<forall>n ts. \<exists>k. sink n ts = Some k \<and> 1 \<le> k \<and> k \<le> 960)"

end
