(* ===== verification/Lockstep.thy ===== *)
theory Lockstep
  imports Interop
begin

text \<open>
  The endpoint follows the worker: whatever the worker does, as long as each message arrives before the next operation,
  the endpoint accepts everything it is sent and the worker accepts every fact the endpoint reports.
\<close>

section \<open>The worker's side\<close>

lemma in_step_worker:
  assumes "in_step b a"
  shows "binding_inv b" "ensure_open b = Inr ()" "rb_selected_media_profile b = Some WSS_PROFILE" "coordinator_inv (rb_responses b)"
    "known_session (da_state a) (rb_session_id b) (rb_session_epoch b)" "\<not> ss_closed (da_state a)" "0 \<le> worker_generation b"
    "sd_selected_profile (ss_opened (da_state a)) = WSS_PROFILE" "\<not> vs_closed (rc_state (rb_responses b))"
    "same_session b (da_state a)" "rb_opened b"
proof -
  show b: "binding_inv b" "ensure_open b = Inr ()" "rb_selected_media_profile b = Some WSS_PROFILE" "\<not> ss_closed (da_state a)"
    "same_session b (da_state a)"
    using assms by (simp_all add: in_step_def Let_def)
  then show c: "coordinator_inv (rb_responses b)" "known_session (da_state a) (rb_session_id b) (rb_session_epoch b)"
    by (simp_all add: binding_inv_def responses_ok_def same_session_def)
  show "0 \<le> worker_generation b" using coordinator_invD(1) [OF c(1)] by (simp add: voice_inv_def worker_generation_def)
  show "sd_selected_profile (ss_opened (da_state a)) = WSS_PROFILE" using b by (simp add: same_session_def)
  show "\<not> vs_closed (rc_state (rb_responses b))" "rb_opened b"
    using b by (simp_all add: ensure_open_iff binding_closed_def coordinator_closed_def)
qed

lemma in_step_ids:
  "binding_inv b \<Longrightarrow> r < length (rc_heap (rb_responses b)) \<Longrightarrow> is_identifier (rr_response_id (rec_at (rb_responses b) r))"
  by (simp add: binding_inv_def responses_ok_def list_all_length rec_at_def)

lemma response_begin_created:
  assumes "response_begin i e c = (Inr (r, True), c')"
  shows "rc_active c = None \<and> rc_playback c = None \<and> r = length (rc_heap c) \<and>
    c' = c\<lparr>rc_state := (rc_state c)\<lparr>vs_generation := vs_generation (rc_state c) + 1,
             vs_active_playback := Some \<lparr>pr_connection_epoch = vs_connection_epoch (rc_state c), pr_generation = vs_generation (rc_state c) + 1\<rparr>\<rparr>,
           rc_heap := rc_heap c @ [\<lparr>rr_response_id = i,
             rr_target = \<lparr>pr_connection_epoch = vs_connection_epoch (rc_state c), pr_generation = vs_generation (rc_state c) + 1\<rparr>,
             rr_producer_epoch = e, rr_first_media_sequence = None, rr_last_media_sequence = None, rr_outcome = None, rr_error_code = None,
             rr_stop_sent = False, rr_playback_started = False, rr_playback_ended = False\<rparr>],
           rc_active := Some r, rc_playback := Some r, rc_records := dict_set (i, vs_generation (rc_state c) + 1) r (rc_records c)\<rparr>"
  using assms by (auto simp: response_begin_def begin_playback_def Let_def split: option.splits if_splits)

lemma response_begin_joined: "response_begin i e c = (Inr (r, False), c') \<Longrightarrow> c' = c"
  by (auto simp: response_begin_def begin_playback_def Let_def split: option.splits if_splits)

section \<open>Beginning a response\<close>

lemma endpoint_control:
  assumes "client_decode_control t = Inr m" "accept_control m (da_state a) = (Inr (Some e), s')" "se_kind e \<noteq> ''transport.reopen_required''"
  shows "endpoint_step sink ro now (DControl t) a =
    bind_op (handle_event sink ro now e (a\<lparr>da_state := s'\<rparr>)) (\<lambda>_ a. (Inr (se_kind e \<noteq> ''session.close''), a))"
  using assms by (simp add: endpoint_step_def receiver_round_def from_wss_control_def on_state_def)

lemma joint_begin:
  assumes R: "in_step b a" and g: "worker_generation b < uint32_max" and w: "worker_step (WBegin i e) b = (Inr ds, b1)"
  shows "\<exists>a1. deliver_down sink ro now ds a = (Inr (), a1) \<and> da_sent a1 = da_sent a \<and> in_step b1 a1"
proof -
  note W = in_step_worker [OF R]
  let ?c = "rb_responses b"
  obtain r created c' where bg: "response_begin i e ?c = (Inr (r, created), c')" and i: "is_identifier i"
    using w W(2) by (auto simp: worker_step_def bind_op_Inr_iff binding_response_begin_def with_responses_def require_identifier_Inr
        split: prod.splits)
  show ?thesis
  proof (cases created)
    case False
    then have "ds = []" "b1 = b"
      using w W(2) bg i response_begin_joined [of i e ?c r c']
      by (auto simp: worker_step_def binding_response_begin_def with_responses_def require_identifier_def)
    then show ?thesis using R by simp
  next
    case True
    define G where "G = worker_generation b + 1"
    have "response_begin i e ?c = (Inr (r, True), c')" using bg True by simp
    note B = response_begin_created [OF this]
    have b1: "b1 = b\<lparr>rb_responses := c', rb_next_response_text_sequence := 0\<rparr>"
      and ev: "\<exists>t. begin_event b1 (rec_at c' r) = Inr t \<and> ds = [DControl t]"
      using w W(2) bg True i
      by (auto simp: worker_step_def binding_response_begin_def with_responses_def require_identifier_def Let_def bind_op_Inr_iff begin_event_def event_def)
    have x: "rec_at c' r = \<lparr>rr_response_id = i,
             rr_target = \<lparr>pr_connection_epoch = vs_connection_epoch (rc_state ?c), pr_generation = G\<rparr>,
             rr_producer_epoch = e, rr_first_media_sequence = None, rr_last_media_sequence = None, rr_outcome = None, rr_error_code = None,
             rr_stop_sent = False, rr_playback_started = False, rr_playback_ended = False\<rparr>"
      using B by (simp add: rec_at_def G_def worker_generation_def)
    then have key: "record_key (rec_at c' r) = (i, G)" by (simp add: record_key_def)
    obtain t where t: "begin_event b1 (rec_at c' r) = Inr t" and ds: "ds = [DControl t]" using ev by blast
    define m where "m = session_message ''response.begin'' (rb_session_id b) (rb_session_epoch b) [(''response_id'', JStr i), (''generation'', JInt G)]"
    have t': "encode_control m = Inr t" using t by (simp add: begin_event_def event_message b1 x m_def)
    then have dec: "client_decode_control t = Inr m" by (rule client_reads) (simp add: m_def session_message_def)
    have "current_playback b = None" using B by (simp add: current_playback_def)
    then have cur: "ss_current_playback (da_state a) = None" "da_sink_owner a = None"
      using R by (simp_all add: in_step_def Let_def)
    have gen: "ss_highest_generation (da_state a) \<le> worker_generation b" "ss_fence_generation (da_state a) \<le> max 1 (worker_generation b)"
      "da_fence_generation a \<le> max 1 (worker_generation b)"
      "\<forall>g. dict_get (ss_last_media_timestamp (da_state a)) g \<noteq> None \<longrightarrow> g \<le> worker_generation b"
      "ss_next_downlink_sequence (da_state a) = rb_next_downlink_sequence b"
      using R by (simp_all add: in_step_def Let_def)
    define s' where "s' = (da_state a)\<lparr>ss_highest_generation := G, ss_current_playback := Some (i, G),
       ss_playbacks := dict_set G (new_playback (i, G)) (ss_playbacks (da_state a)),
       ss_response_text_sequence := dict_set G 0 (ss_response_text_sequence (da_state a))\<rparr>"
    have "accept_begin (i, G) (da_state a) = (Inr (), s')"
      using gen cur W(7) by (simp add: accept_begin_def s'_def G_def)
    then have acc: "accept_control m (da_state a) = (Inr (Some (client_event m ''response.begin'' (Some (i, G)))), s')"
      using begin_read [OF W(6) W(5) i _ _ m_def] g W(7) by (simp add: G_def)
    define a1 where "a1 = a\<lparr>da_state := s', da_playbacks := dict_set G
             \<lparr>ap_target = (i, G), ap_started = False, ap_ended = False, ap_played_samples = 0, ap_last_media_sequence = None,
              ap_last_media_timestamp = None, ap_final_media_sequence = None,
              ap_completion_deadline_at = Some (now + response_terminal_timeout (da_config a))\<rparr> (da_playbacks a)\<rparr>"
    have "deliver_down sink ro now ds a = (Inr (), a1)"
      using endpoint_control [OF dec acc, of sink ro now] by (simp add: ds handle_event_def a1_def)
    moreover have "in_step b1 a1"
    proof -
      have "binding_inv b1" using binding_response_begin_inv [OF W(1), of i e] w
        by (auto simp: keeps_def worker_step_def bind_op_Inr_iff split: prod.splits)
      moreover have "worker_generation b1 = G" "rb_next_downlink_sequence b1 = rb_next_downlink_sequence b"
        using B by (simp_all add: b1 worker_generation_def G_def)
      moreover have "ensure_open b1 = Inr ()" using W(2) B
        by (simp add: ensure_open_def binding_closed_def coordinator_closed_def b1 split: if_splits)
      moreover have "dict_get (ss_last_media_timestamp (da_state a)) G = None"
        using gen(4) by (metis G_def less_add_one not_less)
      moreover have "0 \<le> rb_next_downlink_sequence b" using W(1) by (simp add: binding_inv_def)
      moreover have "worker_plays b1 r" using B key x by (simp add: worker_plays_def b1 G_def worker_generation_def)
      moreover have "current_playback b1 = Some r" using B by (simp add: current_playback_def b1)
      moreover have "endpoint_follows b1 s' (rec_at c' r)" "app_follows b1 a1 (rec_at c' r)"
        using calculation(5,6) cur
        by (simp_all add: endpoint_follows_def app_follows_def x record_key_def s'_def a1_def b1 new_playback_def app_get_def)
      ultimately show ?thesis
        using gen g W(3,6,10) unfolding in_step_def Let_def
        by (auto simp: a1_def s'_def same_session_def b1 G_def)
    qed
    ultimately show ?thesis by (auto simp: a1_def)
  qed
qed


section \<open>Text\<close>

lemma playing_facts:
  assumes R: "in_step b a" and act: "rc_active (rb_responses b) = Some r"
  defines "x \<equiv> rec_at (rb_responses b) r"
  shows "current_playback b = Some r" "r < length (rc_heap (rb_responses b))" "worker_plays b r" "endpoint_follows b (da_state a) x"
    "app_follows b a x" "is_identifier (rr_response_id x)" "pr_generation (rr_target x) = worker_generation b" "1 \<le> worker_generation b"
    "worker_generation b \<le> uint32_max" "rr_outcome x = None" "\<not> rr_stop_sent x" "\<not> rr_playback_ended x"
    "vs_active_playback (rc_state (rb_responses b)) = Some (rr_target x)"
    "record_key x = (rr_response_id x, worker_generation b)"
    "rr_first_media_sequence x = None \<longleftrightarrow> rr_last_media_sequence x = None"
proof -
  note W = in_step_worker [OF R]
  show p: "current_playback b = Some r" and r: "r < length (rc_heap (rb_responses b))"
    using coordinator_invD(6) [OF W(4) act] by (simp_all add: current_playback_def)
  show "worker_plays b r" "endpoint_follows b (da_state a) x" "app_follows b a x" "worker_generation b \<le> uint32_max"
    using R p by (simp_all add: in_step_def Let_def x_def)
  show "is_identifier (rr_response_id x)" using in_step_ids [OF W(1) r] by (simp add: x_def)
  have ok: "record_ok (rb_responses b) r" using coordinator_invD(4) [OF W(4) r] .
  then show "rr_outcome x = None" "\<not> rr_stop_sent x" "\<not> rr_playback_ended x"
    "rr_first_media_sequence x = None \<longleftrightarrow> rr_last_media_sequence x = None"
    using act by (simp_all add: record_ok_def Let_def x_def)
  then show ap: "vs_active_playback (rc_state (rb_responses b)) = Some (rr_target x)"
    using coordinator_invD(2) [OF W(4)] p W(9) by (simp add: playback_ok_def current_playback_def x_def)
  then show g: "pr_generation (rr_target x) = worker_generation b" "1 \<le> worker_generation b"
    using coordinator_invD(1) [OF W(4)] by (simp_all add: voice_inv_def worker_generation_def)
  then show "record_key x = (rr_response_id x, worker_generation b)" by (simp add: record_key_def)
qed

lemma find_playback_current:
  assumes "endpoint_follows b s x"
  shows "require_known (record_key x) s = Inr ((new_playback (record_key x))\<lparr>cp_started := rr_last_media_sequence x \<noteq> None,
       cp_first_media_sequence := rr_first_media_sequence x, cp_last_media_sequence := rr_last_media_sequence x\<rparr>)"
    "require_current (record_key x) s = require_known (record_key x) s"
  using assms by (simp_all add: endpoint_follows_def require_known_def require_current_def find_playback_def new_playback_def Let_def)

lemma joint_text:
  assumes R: "in_step b a" and ok: "op_ok now (WText r n v) b a" and w: "worker_step (WText r n v) b = (Inr ds, b1)"
  shows "\<exists>a1. deliver_down sink ro now ds a = (Inr (), a1) \<and> da_sent a1 = da_sent a \<and> in_step b1 a1"
proof -
  note W = in_step_worker [OF R]
  define x where "x = rec_at (rb_responses b) r"
  obtain t y where t: "response_text r n v b = (Inr t, b1)" and ds: "ds = [DControl t]" and acc: "response_accepts (rb_responses b) r"
    and n: "0 \<le> n" "n \<le> uint32_max" "n = rb_next_response_text_sequence b" and v: "v = JStr y" "y \<noteq> []" "length y \<le> 4096"
    using w W(2) by (auto simp: worker_step_def bind_op_Inr_iff response_text_def require_uint32_Inr require_text_def Let_def
        split: if_splits json.splits)
  then have act: "rc_active (rb_responses b) = Some r" by (simp add: response_accepts_def)
  note P = playing_facts [OF R act, folded x_def]
  let ?i = "rr_response_id x" and ?g = "worker_generation b"
  define m where "m = session_message ''response.text'' (rb_session_id b) (rb_session_epoch b)
      [(''response_id'', JStr ?i), (''generation'', JInt ?g), (''sequence'', JInt n), (''text'', JStr y)]"
  have b1: "b1 = b\<lparr>rb_next_response_text_sequence := n + 1\<rparr>" and enc: "encode_control m = Inr t"
    using t W(2) acc n v P(7) by (auto simp: response_text_def require_uint32_def validate_uint32_def check_that_def require_text_def Let_def
        event_message m_def x_def)
  then have dec: "client_decode_control t = Inr m" using client_reads [OF enc] by (simp add: m_def session_message_def)
  define s' where "s' = (da_state a)\<lparr>ss_response_text_sequence := dict_set ?g (n + 1) (ss_response_text_sequence (da_state a))\<rparr>"
  have "accept_text (?i, ?g) n (da_state a) = (Inr (), s')"
    using find_playback_current [OF P(4)] P(4) n by (simp add: accept_text_def client_advance_def endpoint_follows_def P(14) s'_def Let_def)
  moreover have "CHR 0x00 \<notin> set y" using ok v by (simp add: op_ok_def)
  ultimately have acc': "accept_control m (da_state a) = (Inr (Some (client_event m ''response.text'' (Some (?i, ?g)))), s')"
    using text_read [OF W(6) W(5) P(6) P(8) P(9) n(1) n(2) v(2) _ v(3) m_def] by simp
  have "deliver_down sink ro now ds a = (Inr (), a\<lparr>da_state := s'\<rparr>)"
    using endpoint_control [OF dec acc', of sink ro now] by (simp add: ds handle_event_def)
  moreover have "in_step b1 (a\<lparr>da_state := s'\<rparr>)"
  proof -
    have "binding_inv b1" using response_text_inv [OF W(1), of r n v] t by (simp add: keeps_def)
    moreover have "ensure_open b1 = Inr ()" using W(2) by (simp add: b1 ensure_open_iff binding_closed_def)
    moreover have "endpoint_follows b1 s' x" "app_follows b1 (a\<lparr>da_state := s'\<rparr>) x" "worker_plays b1 r"
      using P(3,4,5) by (simp_all add: endpoint_follows_def app_follows_def worker_plays_def b1 s'_def app_get_def P(14) Let_def)
    ultimately show ?thesis
      using R W(3,6,10) P(1) by (simp add: in_step_def Let_def b1 s'_def same_session_def worker_generation_def current_playback_def x_def)
  qed
  ultimately show ?thesis by auto
qed


section \<open>Media\<close>

definition heard_to :: "int \<Rightarrow> response_record \<Rightarrow> response_record" where
  "heard_to n x = (if rr_first_media_sequence x = None then x\<lparr>rr_first_media_sequence := Some n\<rparr> else x)\<lparr>rr_last_media_sequence := Some n\<rparr>"

lemma heard_to_fields [simp]:
  "rr_response_id (heard_to n x) = rr_response_id x" "rr_target (heard_to n x) = rr_target x" "record_key (heard_to n x) = record_key x"
  "rr_last_media_sequence (heard_to n x) = Some n" "rr_playback_started (heard_to n x) = rr_playback_started x"
  "rr_first_media_sequence (heard_to n x) = (if rr_first_media_sequence x = None then Some n else rr_first_media_sequence x)"
  by (simp_all add: heard_to_def record_key_def)

lemma serialize_decodes: "serialize fr = Inr w \<Longrightarrow> decode_plain w = Inr (client_of fr)"
  by (simp add: serialize_eq decode_plain_iff client_of_valid client_of_struct) (simp add: client_of_def)

lemma serialize_audio_Inr:
  assumes "serialize_audio payload ts r b = (Inr w, b1)"
  defines "n \<equiv> rb_next_downlink_sequence b" and "x \<equiv> rec_at (rb_responses b) r"
  shows "rc_active (rb_responses b) = Some r" "n \<le> uint32_max" "0 \<le> ts" "ts \<le> uint32_max"
    "b1 = b\<lparr>rb_responses := set_rec r (heard_to n x) (rb_responses b), rb_next_downlink_sequence := n + 1\<rparr>"
    "r < length (rc_heap (rb_responses b)) \<Longrightarrow> decode_plain w = Inr \<lparr>mf_flags = FLAG_AUDIO, mf_media_id = rb_media_id b, mf_media_epoch = rb_media_epoch b, mf_sequence = n,
       mf_timestamp = ts, mf_generation = pr_generation (rr_target x), mf_payload = payload\<rparr>"
proof -
  have acc: "response_accepts (rb_responses b) r" and n: "n \<le> uint32_max"
    and ts: "0 \<le> ts \<and> ts \<le> uint32_max"
    using assms(1) by (auto simp: serialize_audio_def bind_op_Inr_iff reserve_downlink_media_def with_responses_def note_media_def
        require_uint32_Inr n_def Let_def split: if_splits prod.splits)
  then show "rc_active (rb_responses b) = Some r" "n \<le> uint32_max" "0 \<le> ts" "ts \<le> uint32_max"
    by (simp_all add: response_accepts_def)
  have nm: "note_media r n (rb_responses b) = (Inr (), set_rec r (heard_to n x) (rb_responses b))"
    using acc by (cases "rr_first_media_sequence x") (simp_all add: note_media_def heard_to_def x_def Let_def)
  define b' where "b' = b\<lparr>rb_responses := set_rec r (heard_to n x) (rb_responses b), rb_next_downlink_sequence := n + 1\<rparr>"
  have res: "reserve_downlink_media r b = (Inr n, b')"
    using n nm by (simp add: reserve_downlink_media_def with_responses_def n_def Let_def b'_def)
  then have ser: "serialize \<lparr>fr_media_id = rb_media_id b', fr_media_epoch = rb_media_epoch b', fr_sequence = n,
       fr_timestamp = ts, fr_generation = pr_generation (rr_target (rec_at (rb_responses b') r)), fr_payload = payload\<rparr> = Inr w" and b1: "b1 = b'"
    using assms(1) by (auto simp: serialize_audio_def bind_op_Inr_iff require_uint32_Inr split: if_splits)
  then show "b1 = b\<lparr>rb_responses := set_rec r (heard_to n x) (rb_responses b), rb_next_downlink_sequence := n + 1\<rparr>" by (simp add: b'_def)
  assume "r < length (rc_heap (rb_responses b))"
  then show "decode_plain w = Inr \<lparr>mf_flags = FLAG_AUDIO, mf_media_id = rb_media_id b, mf_media_epoch = rb_media_epoch b, mf_sequence = n,
       mf_timestamp = ts, mf_generation = pr_generation (rr_target x), mf_payload = payload\<rparr>"
    using serialize_decodes [OF ser] by (simp add: b'_def client_of_def x_def client_consts heard_to_def)
qed

text \<open>The endpoint takes the packet in.\<close>

definition with_media :: "playback_target \<Rightarrow> int \<Rightarrow> int \<Rightarrow> client_playback \<Rightarrow> session_state \<Rightarrow> session_state" where
  "with_media t n ts p s = s\<lparr>ss_next_downlink_sequence := n + 1,
     ss_last_media_timestamp := dict_set (snd t) ts (ss_last_media_timestamp s), ss_playbacks := dict_set (snd t) p (ss_playbacks s)\<rparr>"

definition followed :: "response_record \<Rightarrow> bool \<Rightarrow> client_playback" where
  "followed x st = (new_playback (record_key x))\<lparr>cp_started := st, cp_first_media_sequence := rr_first_media_sequence x,
     cp_last_media_sequence := rr_last_media_sequence x\<rparr>"

lemma media_taken_in:
  assumes R: "in_step b a" and act: "rc_active (rb_responses b) = Some r" and ok: "op_ok now (WMedia r payload ts) b a"
    and dec: "decode_plain w = Inr f"
    and f: "f = \<lparr>mf_flags = FLAG_AUDIO, mf_media_id = rb_media_id b, mf_media_epoch = rb_media_epoch b,
      mf_sequence = rb_next_downlink_sequence b, mf_timestamp = ts, mf_generation = worker_generation b, mf_payload = payload\<rparr>"
  defines "x \<equiv> rec_at (rb_responses b) r"
  shows "\<exists>a'. from_wss_media now w a = (Inr (Some \<lparr>se_kind = ''media.audio'', se_message = [], se_target = Some (record_key x), se_media = Some f\<rparr>), a') \<and>
    da_state a' = with_media (record_key x) (rb_next_downlink_sequence b) ts
      (followed (heard_to (rb_next_downlink_sequence b) x) (rr_last_media_sequence x \<noteq> None)) (da_state a) \<and>
    da_playbacks a' = da_playbacks a \<and> da_sink_owner a' = da_sink_owner a \<and> da_fence_generation a' = da_fence_generation a \<and>
    da_sent a' = da_sent a \<and> da_config a' = da_config a"
proof -
  note W = in_step_worker [OF R] and P = playing_facts [OF R act, folded x_def]
  let ?s = "da_state a" and ?g = "worker_generation b"
  have get: "dict_get (ss_playbacks ?s) ?g = Some (followed x (rr_last_media_sequence x \<noteq> None))"
    using P(4) by (simp add: endpoint_follows_def P(14) followed_def Let_def)
  have "ss_fence_generation ?s \<le> ?g" using R P(8) by (simp add: in_step_def Let_def)
  moreover have "ss_current_playback ?s = Some (record_key x)" using P(4) by (simp add: endpoint_follows_def Let_def)
  ultimately have adm: "validate_media_admission f ?s = Inr True"
    using get ok W(8,10) by (auto simp: validate_media_admission_def f same_session_def find_playback_def followed_def new_playback_def
        op_ok_def P(14) x_def [symmetric] Let_def split: option.splits)
  define a1 where "a1 = snd (wss_media_is_fresh now f a)"
  have fresh: "wss_media_is_fresh now f a = (True, a1)"
    using ok by (auto simp: wss_media_is_fresh_def a1_def f op_ok_def P(14) x_def [symmetric] Let_def)
  have a1: "da_state a1 = ?s" "da_playbacks a1 = da_playbacks a" "da_sink_owner a1 = da_sink_owner a"
    "da_fence_generation a1 = da_fence_generation a" "da_sent a1 = da_sent a" "da_config a1 = da_config a"
    by (simp_all add: a1_def wss_media_is_fresh_def Let_def)
  have seq: "ss_next_downlink_sequence ?s = rb_next_downlink_sequence b" using R by (simp add: in_step_def Let_def)
  have "accept_media f ?s = (Inr (Some \<lparr>se_kind = ''media.audio'', se_message = [], se_target = Some (record_key x), se_media = Some f\<rparr>),
      with_media (record_key x) (rb_next_downlink_sequence b) ts (followed (heard_to (rb_next_downlink_sequence b) x) (rr_last_media_sequence x \<noteq> None)) ?s)"
    using adm get W(6,8) seq P(14)
    by (cases "rr_first_media_sequence x")
      (simp_all add: accept_media_def f with_media_def followed_def new_playback_def heard_to_def record_key_def Let_def)
  then show ?thesis
    using W(8) dec adm fresh a1 by (simp add: from_wss_media_def on_state_def)
qed


text \<open>The endpoint renders it, and reports the first packet it renders.\<close>

lemma app_put_get: "app_get a g = Some q \<Longrightarrow> app_put g h a = a\<lparr>da_playbacks := dict_set g (h q) (da_playbacks a)\<rparr>"
  by (simp add: app_put_def app_get_def)

lemma app_get_update [simp]:
  "app_get (a\<lparr>da_playbacks := d\<rparr>) g = dict_get d g" "app_get (a\<lparr>da_state := s\<rparr>) g = app_get a g"
  "app_get (a\<lparr>da_sent := l\<rparr>) g = app_get a g" "app_get (a\<lparr>da_sink_owner := ow\<rparr>) g = app_get a g"
  "app_get (a\<lparr>da_playback_frames := k\<rparr>) g = app_get a g" "app_get (a\<lparr>da_fence_generation := k\<rparr>) g = app_get a g"
  "app_get (a\<lparr>da_completed_playbacks := k\<rparr>) g = app_get a g"
  by (simp_all add: app_get_def)

definition started_fact :: "playback_target \<Rightarrow> int \<Rightarrow> session_state \<Rightarrow> wire_text" where
  "started_fact t n s = text_of (JObj (client_fact ''playback.started'' t [(''first_media_sequence'', JInt n)] s))"

lemma fact_of_state: "ss_opened s' = ss_opened s \<Longrightarrow> client_fact kind t fs s' = client_fact kind t fs s"
  by (simp add: client_fact_def)

lemma media_rendered:
  assumes q: "app_get a g = Some q" "ap_target q = (i, g)" "\<not> ap_ended q" "ap_final_media_sequence q = None"
    and go: "da_fence_generation a \<le> g" "da_sink_owner a = None \<or> da_sink_owner a = Some (i, g)"
      "sd_selected_profile (ss_opened (da_state a)) = WSS_PROFILE" "sink n ts = Some k"
    and p: "dict_get (ss_playbacks (da_state a)) g = Some p" "cp_target p = (i, g)" "\<not> cp_ended p" "\<not> cp_stopped p"
      "cp_started p = ap_started q" "\<not> ap_started q \<longrightarrow> cp_first_media_sequence p = Some n"
    and wire: "known_session (da_state a) sid epoch" "is_identifier i" "1 \<le> g" "g \<le> uint32_max" "0 \<le> n" "n \<le> uint32_max"
    and f: "mf_sequence f = n" "mf_timestamp f = ts"
  shows "\<exists>a'. play_audio sink ro now (i, g) f a = (Inr (), a') \<and>
    da_state a' = (if ap_started q then da_state a else (da_state a)\<lparr>ss_playbacks := dict_set g (p\<lparr>cp_started := True\<rparr>) (ss_playbacks (da_state a))\<rparr>) \<and>
    da_sent a' = da_sent a @ (if ap_started q then [] else [started_fact (i, g) n (da_state a)]) \<and>
    app_get a' g = Some (q\<lparr>ap_started := True, ap_played_samples := k + ap_played_samples q, ap_last_media_sequence := Some n,
      ap_last_media_timestamp := Some ts, ap_completion_deadline_at := Some (now + response_terminal_timeout (da_config a))\<rparr>) \<and>
    da_sink_owner a' = Some (i, g) \<and> da_fence_generation a' = da_fence_generation a"
proof -
  have known: "require_known (i, g) (da_state a) = Inr p" using p by (simp add: require_known_def find_playback_def)
  have start: "playback_started (i, g) n (da_state a) =
      (Inr (client_fact ''playback.started'' (i, g) [(''first_media_sequence'', JInt n)] (da_state a)),
       (da_state a)\<lparr>ss_playbacks := dict_set g (p\<lparr>cp_started := True\<rparr>) (ss_playbacks (da_state a))\<rparr>)" if "\<not> ap_started q"
    using known p that wire by (simp add: playback_started_def state_uint32_def put_playback_def playback_generation_def)
  have enc: "client_encode_control (client_fact ''playback.started'' (i, g) [(''first_media_sequence'', JInt n)] (da_state a)) =
      Inr (started_fact (i, g) n (da_state a))"
    unfolding started_fact_def using wire int_len_uint32 [of n]
    by (intro fact_fits) (auto simp: fields_len_def str_len_def escaped_len_def)
  have skip: "conceal_bounded_gap sink ro q n ts (a\<lparr>da_sink_owner := Some (i, g)\<rparr>) = (Inr True, a\<lparr>da_sink_owner := Some (i, g)\<rparr>)"
    using go by (simp add: conceal_bounded_gap_def WSS_PROFILE_def UDP_PROFILE_def)
  have own: "\<not> (da_sink_owner a \<noteq> None \<and> da_sink_owner a \<noteq> Some (i, g))" using go by auto
  show ?thesis
  proof (cases "ap_started q")
    case True
    then show ?thesis
      using q go skip own f unfolding play_audio_def
      by (simp add: render_pcm_def app_put_get complete_if_ready_def Let_def)
  next
    case False
    then show ?thesis
      using q go skip own f start [OF False] enc unfolding play_audio_def
      by (simp add: render_pcm_def app_put_get complete_if_ready_def on_state_def send_client_control_def Let_def)
  qed
qed


lemma endpoint_media:
  assumes "from_wss_media now w a = (Inr (Some \<lparr>se_kind = ''media.audio'', se_message = [], se_target = Some t, se_media = Some f\<rparr>), a')"
    and "play_audio sink ro now t f a' = (Inr (), a'')"
  shows "endpoint_step sink ro now (DMedia w) a = (Inr True, a'')"
  using assms by (simp add: endpoint_step_def receiver_round_def handle_event_def)

lemma deliver_up_inv: "binding_inv b \<Longrightarrow> keeps binding_inv (deliver_up ts b)"
  by (induction ts arbitrary: b) (auto simp: keeps_pair intro!: keeps_bind receive_control_inv)

lemma started_accepted:
  assumes b: "ensure_open b = Inr ()" "known_session s (rb_session_id b) (rb_session_epoch b)" "1 \<le> g" "g \<le> uint32_max" "0 \<le> n" "n \<le> uint32_max"
    and r: "r < length (rc_heap (rb_responses b))" "dict_get (rc_records (rb_responses b)) (i, g) = Some r" "is_identifier i"
    and x: "x = rec_at (rb_responses b) r" "\<not> rr_playback_started x" "\<not> rr_playback_ended x"
      "rr_first_media_sequence x = Some n" "rr_last_media_sequence x = Some n"
  shows "deliver_up [started_fact (i, g) n s] b =
    (Inr (), b\<lparr>rb_responses := set_rec r (x\<lparr>rr_playback_started := True\<rparr>) (rb_responses b)\<rparr>)"
proof -
  have "response_playback_started i g n (rb_responses b) = (Inr r, set_rec r (x\<lparr>rr_playback_started := True\<rparr>) (rb_responses b))"
    using r x by (simp add: response_playback_started_def find_record_def Let_def)
  moreover obtain t where "client_encode_control (client_fact ''playback.started'' (i, g) [(''first_media_sequence'', JInt n)] s) = Inr t"
    "receive_control t b = bind_op (with_responses (response_playback_started i g n) b) (\<lambda>r b. (Inr (no_effect\<lparr>ce_playback_started := Some r\<rparr>), b))"
    using started_read [OF b(1) b(2) r(3) b(3-6) refl] by blast
  moreover have "t = started_fact (i, g) n s" using calculation(2)
    by (auto simp: client_encode_control_def started_fact_def Let_def split: option.splits if_splits)
  ultimately show ?thesis by (simp add: with_responses_def)
qed

lemma joint_media:
  assumes R: "in_step b a" and sink: "sink_ok sink" and ok: "op_ok now (WMedia r payload ts) b a"
    and w: "worker_step (WMedia r payload ts) b = (Inr ds, b1)"
  shows "\<exists>a1 b2. deliver_down sink ro now ds a = (Inr (), a1) \<and> deliver_up (drop (length (da_sent a)) (da_sent a1)) b1 = (Inr (), b2) \<and>
    in_step b2 a1"
proof -
  note W = in_step_worker [OF R]
  define n where "n = rb_next_downlink_sequence b"
  define x where "x = rec_at (rb_responses b) r"
  define heard where "heard = (rr_last_media_sequence x \<noteq> None)"
  let ?c = "rb_responses b" and ?i = "rr_response_id x" and ?g = "worker_generation b"
  obtain wire where ser: "serialize_audio payload ts r b = (Inr wire, b1)" and ds: "ds = [DMedia wire]"
    using w by (auto simp: worker_step_def bind_op_Inr_iff)
  note S = serialize_audio_Inr [OF ser, folded n_def x_def]
  note P = playing_facts [OF R S(1), folded x_def]
  define f where "f = \<lparr>mf_flags = FLAG_AUDIO, mf_media_id = rb_media_id b, mf_media_epoch = rb_media_epoch b, mf_sequence = n,
      mf_timestamp = ts, mf_generation = ?g, mf_payload = payload\<rparr>"
  have dec: "decode_plain wire = Inr f" using S(6) P(2,7) by (simp add: f_def)
  obtain a' where in1: "from_wss_media now wire a = (Inr (Some \<lparr>se_kind = ''media.audio'', se_message = [], se_target = Some (?i, ?g), se_media = Some f\<rparr>), a')"
    and a': "da_state a' = with_media (?i, ?g) n ts (followed (heard_to n x) heard) (da_state a)" "da_playbacks a' = da_playbacks a"
      "da_sink_owner a' = da_sink_owner a" "da_fence_generation a' = da_fence_generation a" "da_sent a' = da_sent a"
    using media_taken_in [OF R S(1) ok dec f_def [unfolded n_def]] unfolding x_def [symmetric] P(14) n_def [symmetric] heard_def by metis
  obtain q where q: "app_get a ?g = Some q" "ap_target q = (?i, ?g)" "\<not> ap_ended q" "ap_started q = heard" "ap_last_media_sequence q = rr_last_media_sequence x"
    "ap_final_media_sequence q = None" "ap_played_samples q = 0 \<longleftrightarrow> \<not> heard" "0 \<le> ap_played_samples q" "ap_played_samples q \<le> 960 * n"
    using P(5) by (auto simp: app_follows_def P(14) Let_def heard_def n_def)
  obtain k where k: "sink n ts = Some k" "1 \<le> k" "k \<le> 960" using sink unfolding sink_ok_def by blast
  have n: "0 \<le> n" using W(1) by (simp add: binding_inv_def n_def)
  have pl: "followed (heard_to n x) heard = (new_playback (?i, ?g))\<lparr>cp_started := heard,
      cp_first_media_sequence := (if heard then rr_first_media_sequence x else Some n), cp_last_media_sequence := Some n\<rparr>"
    using P(15) by (simp add: followed_def heard_def P(14))
  define s1 where "s1 = da_state a'"
  have s1: "dict_get (ss_playbacks s1) ?g = Some (followed (heard_to n x) heard)" "ss_opened s1 = ss_opened (da_state a)"
    by (simp_all add: s1_def a' with_media_def)
  obtain a1 where in2: "play_audio sink ro now (?i, ?g) f a' = (Inr (), a1)"
    and a1: "da_state a1 = (if heard then s1 else s1\<lparr>ss_playbacks := dict_set ?g ((followed (heard_to n x) heard)\<lparr>cp_started := True\<rparr>) (ss_playbacks s1)\<rparr>)"
      "da_sent a1 = da_sent a @ (if heard then [] else [started_fact (?i, ?g) n s1])"
      "app_get a1 ?g = Some (q\<lparr>ap_started := True, ap_played_samples := k + ap_played_samples q, ap_last_media_sequence := Some n,
         ap_last_media_timestamp := Some ts, ap_completion_deadline_at := Some (now + response_terminal_timeout (da_config a'))\<rparr>)"
      "da_sink_owner a1 = Some (?i, ?g)" "da_fence_generation a1 = da_fence_generation a"
  proof -
    define p where "p = followed (heard_to n x) heard"
    have p: "cp_target p = (?i, ?g)" "\<not> cp_ended p" "\<not> cp_stopped p" "cp_started p = ap_started q"
      "\<not> ap_started q \<longrightarrow> cp_first_media_sequence p = Some n"
      using q(4) unfolding p_def pl by (simp_all add: new_playback_def)
    have get: "app_get a' ?g = Some q" using q(1) a'(2) by (simp add: app_get_def)
    have go: "da_fence_generation a' \<le> ?g" "da_sink_owner a' = None \<or> da_sink_owner a' = Some (?i, ?g)"
      using R P(5,8) a' by (auto simp: in_step_def app_follows_def P(14) Let_def)
    have known: "known_session (da_state a') (rb_session_id b) (rb_session_epoch b)"
      "sd_selected_profile (ss_opened (da_state a')) = WSS_PROFILE"
      using W(5,8) s1(2) by (simp_all add: s1_def)
    have fs: "mf_sequence f = n" "mf_timestamp f = ts" by (simp_all add: f_def)
    note media_rendered [where sink = sink and n = n and ts = ts and ro = ro and now = now, OF get q(2,3,6) go known(2) k(1) s1(1) [unfolded s1_def, folded p_def] p known(1) P(6,8,9) n S(2) fs]
    then show thesis using that unfolding q(4) a'(4,5) s1_def p_def by blast
  qed
  have down: "deliver_down sink ro now ds a = (Inr (), a1)"
    using endpoint_media [OF in1 in2] by (simp add: ds)
  have b1: "binding_inv b1" using serialize_audio_inv [OF W(1), of payload ts r] ser by (simp add: keeps_def)
  have b1o: "ensure_open b1 = Inr ()" using W(2) by (simp add: S(5) ensure_open_iff binding_closed_def coordinator_closed_def)
  have wp: "rc_active ?c = Some r" "dict_get (rc_records ?c) (?i, ?g) = Some r" "rr_playback_started x = heard"
    "\<And>k m. rr_first_media_sequence x = Some k \<Longrightarrow> rr_last_media_sequence x = Some m \<Longrightarrow> k \<le> m"
    using P(3) by (auto simp: worker_plays_def Let_def x_def [symmetric] P(14) heard_def)
  have first: "k \<le> n" if "rr_first_media_sequence (heard_to n x) = Some k" for k
    using that wp(4) P(3,15) by (cases "rr_last_media_sequence x") (fastforce simp: worker_plays_def Let_def x_def n_def split: if_splits)+
  define x2 where "x2 = (if heard then heard_to n x else (heard_to n x)\<lparr>rr_playback_started := True\<rparr>)"
  define b2 where "b2 = b1\<lparr>rb_responses := set_rec r x2 (rb_responses b1)\<rparr>"
  have up: "deliver_up (drop (length (da_sent a)) (da_sent a1)) b1 = (Inr (), b2)"
  proof (cases heard)
    case True
    then show ?thesis using P(2) by (simp add: a1 b2_def x2_def S(5) set_rec_def)
  next
    case False
    have "rr_first_media_sequence (heard_to n x) = Some n" using False P(15) by (simp add: heard_def)
    then show ?thesis
      using started_accepted [OF b1o _ P(8,9) n S(2), of s1 r ?i "heard_to n x"] False P(2,6,12) W(5) wp s1(2)
      by (simp add: a1 b2_def x2_def S(5) heard_to_def)
  qed
  have x2: "record_key x2 = (?i, ?g)" "rr_playback_started x2" "rr_last_media_sequence x2 = Some n"
      "rr_first_media_sequence x2 = rr_first_media_sequence (heard_to n x)"
    using wp(3) P(14) by (auto simp: x2_def record_key_def heard_to_def)
  have rec2: "rec_at (rb_responses b2) r = x2" "rc_active (rb_responses b2) = Some r" "current_playback b2 = Some r"
    "rc_records (rb_responses b2) = rc_records ?c" "worker_generation b2 = ?g" "rb_next_downlink_sequence b2 = n + 1"
    "rb_next_response_text_sequence b2 = rb_next_response_text_sequence b"
    using P(1,2) wp(1) by (simp_all add: b2_def S(5) current_playback_def worker_generation_def)
  have "in_step b2 a1"
  proof -
    have "binding_inv b2" using deliver_up_inv [OF b1] up unfolding keeps_def by (metis snd_conv)
    moreover have "ensure_open b2 = Inr ()" using b1o by (simp add: b2_def ensure_open_iff binding_closed_def coordinator_closed_def)
    moreover have "worker_plays b2 r"
      using wp(2) first n x2(2) unfolding worker_plays_def Let_def rec2 x2 by auto
    moreover have "endpoint_follows b2 (da_state a1) x2"
      using P(4) unfolding endpoint_follows_def Let_def rec2 x2 P(14)
      by (auto simp: a1(1) s1_def a' with_media_def followed_def P(14))
    moreover have "app_follows b2 a1 x2"
      using q k unfolding app_follows_def Let_def rec2 x2 by (auto simp: a1)
    moreover have "rb_selected_media_profile b2 = rb_selected_media_profile b" "same_session b2 (da_state a1)"
      using W(10) by (auto simp: b2_def S(5) same_session_def a1 s1_def a' with_media_def)
    moreover have "\<not> ss_closed (da_state a1)" "ss_next_downlink_sequence (da_state a1) = n + 1"
      "ss_fence_generation (da_state a1) = ss_fence_generation (da_state a)" "ss_highest_generation (da_state a1) = ss_highest_generation (da_state a)"
      "\<forall>g. dict_get (ss_last_media_timestamp (da_state a1)) g = (if g = ?g then Some ts else dict_get (ss_last_media_timestamp (da_state a)) g)"
      using W(6) by (auto simp: a1 s1_def a' with_media_def)
    ultimately show ?thesis
      using R a1(5) unfolding in_step_def Let_def rec2 by (simp add: rec2)
  qed
  then show ?thesis using down up by blast
qed


section \<open>Ending a playback\<close>

definition ended_fact :: "playback_target \<Rightarrow> playback_outcome \<Rightarrow> int \<Rightarrow> int option \<Rightarrow> session_state \<Rightarrow> wire_text" where
  "ended_fact t oc played last_sequence s = text_of (JObj (client_fact ''playback.ended'' t
     ([(''outcome'', JStr (outcome_name oc)), (''played_samples'', JInt played)] @
      (case last_sequence of None \<Rightarrow> [] | Some n \<Rightarrow> [(''last_media_sequence'', JInt n)])) s))"

abbreviation countable :: "int \<Rightarrow> int option \<Rightarrow> bool" where
  "countable played last_sequence \<equiv> 0 \<le> played \<and> played \<le> 9007199254740991 \<and>
     (\<forall>n. last_sequence = Some n \<longrightarrow> 0 \<le> n \<and> n \<le> uint32_max)"

lemma app_ends_playback:
  assumes q: "app_get a g = Some q" "ap_target q = (i, g)" "\<not> ap_ended q"
    and p: "dict_get (ss_playbacks (da_state a)) g = Some p" "cp_target p = (i, g)" "\<not> cp_ended p"
      "ended_evidence p (outcome_name oc) (ap_played_samples q) (ap_last_media_sequence q) = Inr ()"
    and wire: "known_session (da_state a) sid epoch" "is_identifier i" "1 \<le> g" "g \<le> uint32_max"
      "countable (ap_played_samples q) (ap_last_media_sequence q)"
  shows "\<exists>a'. end_playback q (outcome_name oc) a = (Inr (), a') \<and> da_state a' = bury p (i, g) (da_state a) \<and>
    da_sent a' = da_sent a @ [ended_fact (i, g) oc (ap_played_samples q) (ap_last_media_sequence q) (da_state a)] \<and>
    da_sink_owner a' = (if da_sink_owner a = Some (i, g) then None else da_sink_owner a) \<and>
    da_fence_generation a' = da_fence_generation a \<and>
    (\<exists>q'. app_get a' g = Some q' \<and> ap_ended q' \<and> ap_target q' = (i, g))"
proof -
  have known: "require_known (i, g) (da_state a) = Inr p" using p by (simp add: require_known_def find_playback_def)
  let ?m = "client_fact ''playback.ended'' (i, g) ([(''outcome'', JStr (outcome_name oc)), (''played_samples'', JInt (ap_played_samples q))] @
      (case ap_last_media_sequence q of None \<Rightarrow> [] | Some n \<Rightarrow> [(''last_media_sequence'', JInt n)])) (da_state a)"
  have pe: "playback_ended (i, g) (outcome_name oc) (ap_played_samples q) (ap_last_media_sequence q) (da_state a) = (Inr ?m, bury p (i, g) (da_state a))"
    using known p by (simp add: playback_ended_def)
  have ol: "str_len (outcome_name oc) \<le> 20" by (cases oc) (simp_all add: outcome_name_def str_len_def escaped_len_def)
  have pl: "int_len (ap_played_samples q) \<le> 16" using wire(5) dec_len_le [of "nat (ap_played_samples q)" 15] by (simp add: int_len_def nat_less_iff)
  have ll: "ap_last_media_sequence q = Some n \<Longrightarrow> int_len n \<le> 10" for n using wire(5) int_len_uint32 [of n] by simp
  have enc: "client_encode_control ?m = Inr (ended_fact (i, g) oc (ap_played_samples q) (ap_last_media_sequence q) (da_state a))"
    unfolding ended_fact_def using wire ol pl ll
    by (intro fact_fits) (auto simp: fields_len_def str_len_def escaped_len_def split: option.splits)
  show ?thesis
    using q pe enc by (simp add: end_playback_def app_put_get on_state_def send_client_control_def Let_def)
qed

lemma ended_accepted:
  assumes b: "ensure_open b = Inr ()" "known_session s (rb_session_id b) (rb_session_epoch b)" "1 \<le> g" "g \<le> uint32_max"
    and r: "dict_get (rc_records (rb_responses b)) (i, g) = Some r" "is_identifier i" "rc_playback (rb_responses b) = Some r"
    and x: "x = rec_at (rb_responses b) r" "\<not> rr_playback_ended x" "expected_outcomes x = Some ocs" "oc \<in> set ocs"
      "playback_evidence x oc played last_sequence = Inr ()"
      "rr_outcome x = Some RCompleted \<and> \<not> rr_stop_sent x \<longrightarrow> fst (finish_playback (rr_target x) (rc_state (rb_responses b)))"
    and fact: "countable played last_sequence" "oc = PCompleted \<longrightarrow> last_sequence \<noteq> None"
  shows "\<exists>b'. deliver_up [ended_fact (i, g) oc played last_sequence s] b = (Inr (), b') \<and> current_playback b' = None \<and>
    (\<exists>c'. b' = b\<lparr>rb_responses := c'\<rparr> \<and> vs_generation (rc_state c') = vs_generation (rc_state (rb_responses b)) \<and>
       vs_closed (rc_state c') = vs_closed (rc_state (rb_responses b)))"
proof -
  obtain t where t: "client_encode_control (client_fact ''playback.ended'' (i, g) ([(''outcome'', JStr (outcome_name oc)), (''played_samples'', JInt played)] @
      (case last_sequence of None \<Rightarrow> [] | Some n \<Rightarrow> [(''last_media_sequence'', JInt n)])) s) = Inr t"
    "receive_control t b = bind_op (with_responses (response_playback_ended i g oc played last_sequence) b)
      (\<lambda>fact b. (Inr (no_effect\<lparr>ce_playback_ended := Some fact\<rparr>), b))"
    using ended_read [OF b(1) b(2) r(2) b(3,4) _ _ _ fact(2) refl] fact(1) by blast
  then have "t = ended_fact (i, g) oc played last_sequence s"
    by (auto simp: client_encode_control_def ended_fact_def Let_def split: option.splits if_splits)
  moreover obtain fact c' where "response_playback_ended i g oc played last_sequence (rb_responses b) = (Inr fact, c')" "rc_playback c' = None"
    "vs_generation (rc_state c') = vs_generation (rc_state (rb_responses b))" "vs_closed (rc_state c') = vs_closed (rc_state (rb_responses b))"
  proof (cases "rr_outcome x = Some RCompleted \<and> \<not> rr_stop_sent x")
    case True
    then have "finish_playback (rr_target x) (rc_state (rb_responses b)) = (True, (rc_state (rb_responses b))\<lparr>vs_active_playback := None\<rparr>)"
      using x(6) by (simp add: finish_playback_def split: if_splits)
    then show thesis using that r x True by (simp add: response_playback_ended_def find_record_def Let_def)
  next
    case False
    then have "response_playback_ended i g oc played last_sequence (rb_responses b) =
        (Inr \<lparr>pe_record = r, pe_outcome = oc, pe_played_samples = played, pe_last_media_sequence = last_sequence\<rparr>,
         (set_rec r (x\<lparr>rr_playback_ended := True\<rparr>) (rb_responses b))\<lparr>rc_playback := None\<rparr>)"
      using r x by (auto simp: response_playback_ended_def find_record_def Let_def set_rec_def)
    then show thesis using that by simp
  qed
  ultimately show ?thesis
    using t(2) by (simp add: with_responses_def current_playback_def) blast
qed

lemma trim_keeps: "dict_get records k = Some r \<Longrightarrow> \<not> rr_playback_ended (heap ! r) \<Longrightarrow>
    dict_get (snd (trim_terminal heap order records)) k = Some r"
proof (induction heap order records rule: trim_terminal.induct)
  case (2 heap old order records)
  have "dict_get (case dict_get records old of Some q \<Rightarrow> if rr_playback_ended (heap ! q) then dict_pop old records else records
      | None \<Rightarrow> records) k = Some r"
    using "2.prems" by (cases "k = old") (auto split: option.splits)
  then show ?case using 2 by simp
qed simp

lemma remember_terminal_keeps:
  "dict_get (rc_records c) k = Some r \<Longrightarrow> \<not> rr_playback_ended (rec_at c r) \<Longrightarrow>
    dict_get (rc_records (remember_terminal r' c)) k = Some r"
  using trim_keeps [of "rc_records c" k r "rc_heap c"] by (simp add: remember_terminal_def rec_at_def case_prod_beta Let_def)

lemma in_step_idleI:
  assumes R: "in_step b a" and b2: "binding_inv b2" "ensure_open b2 = Inr ()" "current_playback b2 = None"
    "rb_selected_media_profile b2 = Some WSS_PROFILE" "rb_next_downlink_sequence b2 = rb_next_downlink_sequence b"
    "same_session b2 (da_state a2)" "worker_generation b \<le> worker_generation b2" "worker_generation b2 \<le> uint32_max"
    and a2: "\<not> ss_closed (da_state a2)" "ss_next_downlink_sequence (da_state a2) = ss_next_downlink_sequence (da_state a)"
    "ss_fence_generation (da_state a2) \<le> max 1 (worker_generation b2)" "da_fence_generation a2 \<le> max 1 (worker_generation b2)"
    "ss_highest_generation (da_state a2) = ss_highest_generation (da_state a)" "ss_current_playback (da_state a2) = None" "da_sink_owner a2 = None"
    "\<And>g. dict_get (ss_last_media_timestamp (da_state a2)) g \<noteq> None \<Longrightarrow> dict_get (ss_last_media_timestamp (da_state a)) g \<noteq> None"
  shows "in_step b2 a2"
proof -
  have "\<forall>g. dict_get (ss_last_media_timestamp (da_state a)) g \<noteq> None \<longrightarrow> g \<le> worker_generation b"
    "ss_next_downlink_sequence (da_state a) = rb_next_downlink_sequence b" "ss_highest_generation (da_state a) \<le> worker_generation b"
    using R by (simp_all add: in_step_def Let_def)
  moreover from calculation have "ss_highest_generation (da_state a2) \<le> worker_generation b2"
    "\<forall>g. dict_get (ss_last_media_timestamp (da_state a2)) g \<noteq> None \<longrightarrow> g \<le> worker_generation b2"
    using a2(5,8) b2(7) by (simp, meson order.trans)
  ultimately show ?thesis using b2(1-6,8) a2(1-7) unfolding in_step_def Let_def by simp
qed


lemma playing_app:
  assumes R: "in_step b a" and act: "rc_active (rb_responses b) = Some r"
  defines "x \<equiv> rec_at (rb_responses b) r"
  obtains q where "app_get a (worker_generation b) = Some q" "ap_target q = record_key x" "\<not> ap_ended q"
    "ap_last_media_sequence q = rr_last_media_sequence x" "ap_final_media_sequence q = None"
    "ap_played_samples q = 0 \<longleftrightarrow> rr_last_media_sequence x = None" "countable (ap_played_samples q) (rr_last_media_sequence x)"
    "da_sink_owner a = None \<or> da_sink_owner a = Some (record_key x)"
proof -
  note P = playing_facts [OF R act, folded x_def] and W = in_step_worker [OF R]
  have next_seq: "rb_next_downlink_sequence b \<le> uint32_max + 1" using W(1) by (simp add: binding_inv_def)
  then have "\<forall>n. rr_last_media_sequence x = Some n \<longrightarrow> 0 \<le> n \<and> n \<le> uint32_max"
    using P(3) by (fastforce simp: worker_plays_def Let_def x_def)
  moreover have "960 * rb_next_downlink_sequence b \<le> 9007199254740991" using next_seq by (simp add: uint32_max_def)
  ultimately show thesis
    using P(5) that by (auto simp: app_follows_def Let_def P(14))
qed

lemma bury_fields:
  assumes "ss_current_playback s = Some (i, g)" "cp_target p = (i, g)"
  shows "ss_current_playback (bury p (i, g) s) = None" "ss_opened (bury p (i, g) s) = ss_opened s" "ss_closed (bury p (i, g) s) = ss_closed s"
    "ss_next_downlink_sequence (bury p (i, g) s) = ss_next_downlink_sequence s" "ss_fence_generation (bury p (i, g) s) = ss_fence_generation s"
    "ss_highest_generation (bury p (i, g) s) = ss_highest_generation s"
    "dict_get (ss_last_media_timestamp (bury p (i, g) s)) k \<noteq> None \<Longrightarrow> dict_get (ss_last_media_timestamp s) k \<noteq> None"
    "require_known (i, g) (bury p (i, g) s) = Inr (p\<lparr>cp_ended := True\<rparr>)"
    "dict_get (ss_playbacks (bury p (i, g) s)) g = None"
  using assms by (simp_all add: bury_def require_known_def find_playback_def append_bounded_def TOMBSTONE_LIMIT_def playback_generation_def Let_def
      split: if_splits)

definition completed_playback :: "response_record \<Rightarrow> int \<Rightarrow> client_playback" where
  "completed_playback x n = (followed x True)\<lparr>cp_final_media_sequence := Some n, cp_response_terminal := True\<rparr>"

definition completed_state :: "binding \<Rightarrow> response_record \<Rightarrow> int \<Rightarrow> session_state \<Rightarrow> session_state" where
  "completed_state b x n s = s\<lparr>ss_playbacks := dict_set (worker_generation b) (completed_playback x n) (ss_playbacks s)\<rparr>"

definition completed :: "nat \<Rightarrow> response_record \<Rightarrow> binding \<Rightarrow> binding" where
  "completed r x b = b\<lparr>rb_responses := remember_terminal r (set_rec r (x\<lparr>rr_outcome := Some RCompleted\<rparr>) ((rb_responses b)\<lparr>rc_active := None\<rparr>))\<rparr>"

text \<open>The endpoint, having rendered the last packet, reports completion as soon as it learns that it was the last.\<close>

lemma endpoint_completes:
  assumes R: "in_step b a" and act: "rc_active (rb_responses b) = Some r" and x: "x = rec_at (rb_responses b) r" and n: "rr_last_media_sequence x = Some n"
    and dec: "client_decode_control t = Inr m"
    and m: "m = session_message ''response.end'' (rb_session_id b) (rb_session_epoch b) [(''response_id'', JStr (rr_response_id x)),
      (''generation'', JInt (worker_generation b)), (''outcome'', JStr ''completed''), (''final_media_sequence'', JInt n)]"
  obtains a' and q :: app_playback where "endpoint_step sink ro now (DControl t) a = (Inr True, a')"
    "countable (ap_played_samples q) (Some n)" "ap_played_samples q \<noteq> 0"
    "da_state a' = bury (completed_playback x n) (record_key x) (completed_state b x n (da_state a))" "da_sink_owner a' = None"
    "da_fence_generation a' = da_fence_generation a"
    "da_sent a' = da_sent a @ [ended_fact (record_key x) PCompleted (ap_played_samples q) (Some n) (completed_state b x n (da_state a))]"
proof -
  note W = in_step_worker [OF R] and P = playing_facts [OF R act, folded x]
  let ?i = "rr_response_id x" and ?g = "worker_generation b" and ?s = "da_state a"
  obtain q where q: "app_get a ?g = Some q" "ap_target q = (?i, ?g)" "\<not> ap_ended q" "ap_last_media_sequence q = Some n"
    "ap_final_media_sequence q = None" "(ap_played_samples q = 0) = (Some n = None)" "countable (ap_played_samples q) (Some n)"
    "da_sink_owner a = None \<or> da_sink_owner a = Some (?i, ?g)"
    by (rule playing_app [OF R act, folded x, unfolded P(14) n])
  define p where "p = completed_playback x n"
  define s1 where "s1 = completed_state b x n ?s"
  have get: "dict_get (ss_playbacks ?s) ?g = Some (followed x True)"
    using P(4) by (simp add: endpoint_follows_def P(14) followed_def Let_def n)
  have pf: "cp_target p = (?i, ?g)" "\<not> cp_ended p" "cp_started p" "cp_last_media_sequence p = Some n" "cp_final_media_sequence p = Some n" "cp_response_terminal p"
    by (simp_all add: p_def completed_playback_def followed_def new_playback_def P(14) n)
  have fin: "int_field m ''final_media_sequence'' = n" "jget m ''outcome'' = JStr ''completed''" by (simp_all add: m client_fields)
  have "accept_end (?i, ?g) m ?s = (Inr (), s1)"
    using get by (simp add: accept_end_def require_known_def find_playback_def fin client_member_def put_playback_def playback_generation_def
        s1_def completed_state_def completed_playback_def) (simp add: followed_def new_playback_def P(14))
  moreover have nn: "0 \<le> n" "n \<le> uint32_max" using q(7) by simp_all
  ultimately have acc: "accept_control m ?s = (Inr (Some (client_event m ''response.end'' (Some (?i, ?g)))), s1)"
    using completed_read [OF W(6) W(5) P(6) P(8) P(9) nn m] by simp
  define q1 where "q1 = q\<lparr>ap_final_media_sequence := Some n\<rparr>"
  define a' where "a' = a\<lparr>da_state := s1, da_playbacks := dict_set ?g q1 (da_playbacks a)\<rparr>"
  have "\<exists>a''. end_playback q1 (outcome_name PCompleted) a' = (Inr (), a'') \<and> da_state a'' = bury p (?i, ?g) (da_state a') \<and>
    da_sent a'' = da_sent a' @ [ended_fact (?i, ?g) PCompleted (ap_played_samples q1) (ap_last_media_sequence q1) (da_state a')] \<and>
    da_sink_owner a'' = (if da_sink_owner a' = Some (?i, ?g) then None else da_sink_owner a') \<and>
    da_fence_generation a'' = da_fence_generation a' \<and> (\<exists>q'. app_get a'' ?g = Some q' \<and> ap_ended q' \<and> ap_target q' = (?i, ?g))"
  proof (rule app_ends_playback [where sid = "rb_session_id b" and epoch = "rb_session_epoch b"])
    show "ended_evidence p (outcome_name PCompleted) (ap_played_samples q1) (ap_last_media_sequence q1) = Inr ()"
      using q pf by (simp add: ended_evidence_def q1_def outcome_name_def state_uint32_def)
  qed (use q W(5) P(6,8,9) pf in \<open>simp_all add: a'_def q1_def s1_def completed_state_def p_def\<close>)
  then obtain a2 q' where e: "end_playback q1 ''completed'' a' = (Inr (), a2)" and a2: "da_state a2 = bury p (?i, ?g) s1"
    "da_sent a2 = da_sent a @ [ended_fact (?i, ?g) PCompleted (ap_played_samples q) (Some n) s1]" "da_sink_owner a2 = None"
    "da_fence_generation a2 = da_fence_generation a" "app_get a2 ?g = Some q'" "ap_ended q'"
    using q(4,8) by (auto simp: outcome_name_def a'_def q1_def)
  define a3 where "a3 = a2\<lparr>da_playbacks := dict_set ?g q' (da_playbacks a2)\<rparr>"
  have "app_finish_response now (?i, ?g) m (a\<lparr>da_state := s1\<rparr>) = (Inr (), a3)"
    using q e a2(5,6) by (simp add: app_finish_response_def fin app_put_get complete_if_ready_def a3_def a'_def [symmetric] q1_def [symmetric])
      (simp add: a'_def q1_def complete_if_ready_def app_put_get)
  then have "endpoint_step sink ro now (DControl t) a = (Inr True, a3)"
    using endpoint_control [OF dec acc, of sink ro now] by (simp add: handle_event_def)
  then show thesis using that [of a3 q] q(6,7) a2(1-4) by (simp add: a3_def P(14) p_def s1_def)
qed

lemma end_delivered:
  assumes R: "in_step b a" and x: "x = rec_at (rb_responses b) r" and w: "worker_step (WEnd r) b = (Inr ds, b1)"
  obtains a' n and q :: app_playback where "deliver_down sink ro now ds a = (Inr (), a')" "rc_active (rb_responses b) = Some r" "rr_last_media_sequence x = Some n"
    "b1 = completed r x b" "binding_inv b1" "ensure_open b1 = Inr ()" "countable (ap_played_samples q) (Some n)" "ap_played_samples q \<noteq> 0"
    "da_state a' = bury (completed_playback x n) (record_key x) (completed_state b x n (da_state a))" "da_sink_owner a' = None"
    "da_fence_generation a' = da_fence_generation a"
    "da_sent a' = da_sent a @ [ended_fact (record_key x) PCompleted (ap_played_samples q) (Some n) (completed_state b x n (da_state a))]"
proof -
  note W = in_step_worker [OF R]
  obtain t where t: "response_end r b = (Inr t, b1)" and ds: "ds = [DControl t]" using w by (auto simp: worker_step_def bind_op_Inr_iff)
  then have act: "rc_active (rb_responses b) = Some r" and last: "rr_last_media_sequence x \<noteq> None" and b1: "b1 = completed r x b"
    and ev: "end_event b1 (rec_at (rb_responses b1) r) = Inr t"
    using W(2) by (auto simp: response_end_def bind_op_Inr_iff with_responses_def response_complete_def x completed_def Let_def split: if_splits)
  note P = playing_facts [OF R act, folded x]
  obtain n where n: "rr_last_media_sequence x = Some n" using last by blast
  have x1: "rec_at (rb_responses b1) r = x\<lparr>rr_outcome := Some RCompleted\<rparr>" using P(2) by (simp add: b1 completed_def)
  define m where "m = session_message ''response.end'' (rb_session_id b) (rb_session_epoch b) [(''response_id'', JStr (rr_response_id x)),
      (''generation'', JInt (worker_generation b)), (''outcome'', JStr ''completed''), (''final_media_sequence'', JInt n)]"
  have enc: "encode_control m = Inr t" using ev P(7) n by (simp add: end_event_def event_message m_def x1) (simp add: b1 completed_def)
  then have dec: "client_decode_control t = Inr m" using client_reads [OF enc] by (simp add: m_def session_message_def)
  have bo: "binding_inv b1" "ensure_open b1 = Inr ()"
    using response_end_inv [OF W(1), of r] t W(9,11) by (simp_all add: keeps_def b1 completed_def ensure_open_iff binding_closed_def coordinator_closed_def)
  show thesis
    by (rule endpoint_completes [OF R act x n dec m_def, of sink ro now], rule that [OF _ act n b1 bo]) (simp_all add: ds)
qed

lemma completed_worker:
  assumes R: "in_step b a" and act: "rc_active (rb_responses b) = Some r" and x: "x = rec_at (rb_responses b) r"
  defines "c \<equiv> rb_responses (completed r x b)"
  shows "dict_get (rc_records c) (record_key x) = Some r" "rec_at c r = x\<lparr>rr_outcome := Some RCompleted\<rparr>" "rc_playback c = Some r"
    "rc_state c = rc_state (rb_responses b)" "rc_active c = None"
proof -
  note P = playing_facts [OF R act, folded x]
  show "dict_get (rc_records c) (record_key x) = Some r"
    using P(2,3,12) by (simp add: c_def completed_def worker_plays_def Let_def x [symmetric] remember_terminal_keeps)
  show "rec_at c r = x\<lparr>rr_outcome := Some RCompleted\<rparr>" "rc_playback c = Some r" "rc_state c = rc_state (rb_responses b)" "rc_active c = None"
    using P(1,2) by (simp_all add: c_def completed_def current_playback_def)
qed

lemma joint_end:
  assumes R: "in_step b a" and w: "worker_step (WEnd r) b = (Inr ds, b1)"
  shows "\<exists>a1 b2. deliver_down sink ro now ds a = (Inr (), a1) \<and> deliver_up (drop (length (da_sent a)) (da_sent a1)) b1 = (Inr (), b2) \<and>
    in_step b2 a1"
proof -
  note W = in_step_worker [OF R]
  define x where "x = rec_at (rb_responses b) r"
  let ?g = "worker_generation b"
  obtain a1 n and q :: app_playback where down: "deliver_down sink ro now ds a = (Inr (), a1)" and act: "rc_active (rb_responses b) = Some r"
    and n: "rr_last_media_sequence x = Some n" and b1: "b1 = completed r x b" and bo: "binding_inv b1" "ensure_open b1 = Inr ()"
    and q: "countable (ap_played_samples q) (Some n)" "ap_played_samples q \<noteq> 0"
    and a1: "da_state a1 = bury (completed_playback x n) (record_key x) (completed_state b x n (da_state a))" "da_sink_owner a1 = None"
      "da_fence_generation a1 = da_fence_generation a"
      "da_sent a1 = da_sent a @ [ended_fact (record_key x) PCompleted (ap_played_samples q) (Some n) (completed_state b x n (da_state a))]"
    by (rule end_delivered [OF R x_def w])
  note P = playing_facts [OF R act, folded x_def]
  note F = completed_worker [OF R act x_def, folded b1, unfolded P(14)]
  define p where "p = completed_playback x n"
  define s where "s = completed_state b x n (da_state a)"
  have cur: "ss_current_playback s = Some (rr_response_id x, ?g)" and pt: "cp_target p = (rr_response_id x, ?g)"
    using P(4) by (simp_all add: s_def p_def completed_state_def completed_playback_def endpoint_follows_def P(14) followed_def new_playback_def Let_def)
  note B = bury_fields [OF cur pt, folded P(14)]
  have so: "ss_opened s = ss_opened (da_state a)" "\<not> ss_closed s" using W(6) by (simp_all add: s_def completed_state_def)
  have "\<exists>b'. deliver_up [ended_fact (rr_response_id x, ?g) PCompleted (ap_played_samples q) (Some n) s] b1 = (Inr (), b') \<and> current_playback b' = None \<and>
    (\<exists>c'. b' = b1\<lparr>rb_responses := c'\<rparr> \<and> vs_generation (rc_state c') = vs_generation (rc_state (rb_responses b1)) \<and>
       vs_closed (rc_state c') = vs_closed (rc_state (rb_responses b1)))"
    by (rule ended_accepted [OF bo(2) _ P(8,9) F(1) P(6) F(3) F(2) [symmetric], where ocs = "[PCompleted, PFailed]"])
      (use W(5,9) P(11,12,13) q n so in \<open>simp_all add: F(4) expected_outcomes_def playback_evidence_def finish_playback_def\<close>, simp_all add: b1 completed_def)
  then obtain b2 c2 where up: "deliver_up (drop (length (da_sent a)) (da_sent a1)) b1 = (Inr (), b2)" and b2: "current_playback b2 = None"
    "b2 = b1\<lparr>rb_responses := c2\<rparr>" "vs_generation (rc_state c2) = ?g" "vs_closed (rc_state c2) = False"
    using W(9) by (auto simp: a1 P(14) F(4) s_def worker_generation_def)
  have wg: "worker_generation b2 = ?g" using b2 by (simp add: worker_generation_def)
  note s2 = a1(1) [folded p_def s_def]
  have "in_step b2 a1"
  proof (rule in_step_idleI [OF R])
    show "binding_inv b2" using deliver_up_inv [OF bo(1)] up unfolding keeps_def by (metis snd_conv)
    show "dict_get (ss_last_media_timestamp (da_state a)) k \<noteq> None" if "dict_get (ss_last_media_timestamp (da_state a1)) k \<noteq> None" for k
      using that by (simp add: s2 bury_def s_def completed_state_def split: if_splits)
    show "da_fence_generation a1 \<le> max 1 (worker_generation b2)" using R by (simp add: a1 wg in_step_def Let_def)
    show "ensure_open b2 = Inr ()" using b2 W(11) by (simp add: b1 completed_def ensure_open_iff binding_closed_def coordinator_closed_def)
    show "same_session b2 (da_state a1)" using W(10) so by (simp add: same_session_def b2 b1 completed_def s2 B)
    show "ss_fence_generation (da_state a1) \<le> max 1 (worker_generation b2)" using R by (simp add: s2 B wg) (simp add: s_def completed_state_def in_step_def Let_def)
    show "rb_selected_media_profile b2 = Some WSS_PROFILE" "rb_next_downlink_sequence b2 = rb_next_downlink_sequence b"
      using W(3) by (simp_all add: b2 b1 completed_def)
    show "worker_generation b \<le> worker_generation b2" "worker_generation b2 \<le> uint32_max" using P(9) by (simp_all add: wg)
  qed (use b2(1) so B a1(2) in \<open>simp_all add: s2\<close>, simp_all add: s_def completed_state_def)
  then show ?thesis using down up by blast
qed

section \<open>Stopping a response\<close>

definition stopped_record :: "bool \<Rightarrow> response_record \<Rightarrow> response_record" where
  "stopped_record failed x = x\<lparr>rr_outcome := Some (if failed then RFailed else RCancelled),
     rr_error_code := (if failed then Some ''response_failed'' else None), rr_stop_sent := True\<rparr>"

definition stop_message :: "binding \<Rightarrow> response_record \<Rightarrow> string \<Rightarrow> json_dict" where
  "stop_message b x cause = session_message ''playback.stop'' (rb_session_id b) (rb_session_epoch b)
     [(''target'', JObj [(''response_id'', JStr (rr_response_id x)), (''generation'', JInt (worker_generation b))]),
      (''fence_generation'', JInt (worker_generation b + 1)), (''cause'', JStr cause)]"

definition fenced_message :: "binding \<Rightarrow> response_record \<Rightarrow> bool \<Rightarrow> json_dict" where
  "fenced_message b x failed = session_message ''response.end'' (rb_session_id b) (rb_session_epoch b)
     ([(''response_id'', JStr (rr_response_id x)), (''generation'', JInt (worker_generation b)),
       (''outcome'', JStr (if failed then ''failed'' else ''cancelled''))] @
      (if failed then [(''error_code'', JStr ''response_failed'')] else []))"

definition fenced :: "nat \<Rightarrow> response_record \<Rightarrow> binding \<Rightarrow> binding" where
  "fenced r x b = b\<lparr>rb_responses := remember_terminal r (set_rec r x ((rb_responses b)\<lparr>rc_state :=
     (rc_state (rb_responses b))\<lparr>vs_generation := worker_generation b + 1, vs_active_playback := None\<rparr>, rc_active := None\<rparr>))\<rparr>"

lemma cancel_worker:
  assumes R: "in_step b a" and act: "rc_active (rb_responses b) = Some r" and w: "cancel_active_response cause b = (Inr eff, b1)"
  defines "x \<equiv> rec_at (rb_responses b) r" and "failed \<equiv> cause = ''response_failed''"
  shows "cause \<in> set STOP_CAUSES" "\<exists>t1 t2. ce_outbound eff = [t1, t2] \<and> encode_control (stop_message b x cause) = Inr t1 \<and>
      encode_control (fenced_message b x failed) = Inr t2"
    "b1 = fenced r (stopped_record failed x) b"
proof -
  note W = in_step_worker [OF R] and P = playing_facts [OF R act, folded x_def]
  let ?c = "rb_responses b"
  define b' where "b' = fenced r (stopped_record failed x) b"
  have rc: "rec_at (rb_responses b') r = stopped_record failed x" using P(2) by (simp add: b'_def fenced_def)
  have "response_fence r (if failed then RFailed else RCancelled) (if failed then Some ''response_failed'' else None) ?c =
      (Inr (worker_generation b + 1), rb_responses b')"
    using P(1,11,13) W(9) act by (simp add: response_fence_def cancel_playback_def current_playback_def x_def [symmetric] Let_def b'_def fenced_def
        stopped_record_def worker_generation_def)
  then have f: "with_responses (response_fence r (if failed then RFailed else RCancelled) (if failed then Some ''response_failed'' else None)) b =
      (Inr (worker_generation b + 1), b')"
    by (simp add: with_responses_def b'_def fenced_def)
  have "stop_event b' (stopped_record failed x) (worker_generation b + 1) cause = encode_control (stop_message b x cause)"
    "fenced_end_event b' (stopped_record failed x) failed = encode_control (fenced_message b x failed)"
    using P(7) by (simp_all add: stop_event_def fenced_end_event_def event_message b'_def fenced_def stop_message_def fenced_message_def target_of_def
        stopped_record_def)
  moreover have "rr_outcome (stopped_record failed x) \<noteq> Some RCompleted" by (simp add: stopped_record_def)
  ultimately show "cause \<in> set STOP_CAUSES" "\<exists>t1 t2. ce_outbound eff = [t1, t2] \<and> encode_control (stop_message b x cause) = Inr t1 \<and>
      encode_control (fenced_message b x failed) = Inr t2" "b1 = b'"
    using w W(2) P(1) f rc
    by (auto simp: cancel_active_response_def bind_op_Inr_iff no_effect_def Let_def failed_def [symmetric] split: if_splits)
qed

text \<open>The endpoint ends the playback on the stop and takes the end of the response in afterwards.\<close>

definition stopped_playback :: "binding \<Rightarrow> response_record \<Rightarrow> string \<Rightarrow> client_playback" where
  "stopped_playback b x cause = (followed x (rr_last_media_sequence x \<noteq> None))\<lparr>cp_stopped := True,
     cp_stop_fence := Some (worker_generation b + 1), cp_stop_cause := Some cause\<rparr>"

definition stopped_state :: "binding \<Rightarrow> response_record \<Rightarrow> string \<Rightarrow> session_state \<Rightarrow> session_state" where
  "stopped_state b x cause s = s\<lparr>ss_fence_generation := worker_generation b + 1,
     ss_playbacks := dict_set (worker_generation b) (stopped_playback b x cause) (ss_playbacks s)\<rparr>"

lemma endpoint_stop:
  assumes R: "in_step b a" and act: "rc_active (rb_responses b) = Some r" and cause: "cause \<in> set STOP_CAUSES" and g: "worker_generation b < uint32_max"
    and x: "x = rec_at (rb_responses b) r" and dec: "client_decode_control t = Inr (stop_message b x cause)"
  obtains a' and q :: app_playback and q' where "endpoint_step sink ro now (DControl t) a = (Inr True, a')"
    "countable (ap_played_samples q) (rr_last_media_sequence x)" "ap_played_samples q = 0 \<longleftrightarrow> rr_last_media_sequence x = None"
    "da_state a' = bury (stopped_playback b x cause) (record_key x) (stopped_state b x cause (da_state a))" "da_sink_owner a' = None"
    "da_fence_generation a' = max (da_fence_generation a) (worker_generation b + 1)"
    "da_sent a' = da_sent a @ [ended_fact (record_key x) PStopped (ap_played_samples q) (rr_last_media_sequence x) (stopped_state b x cause (da_state a))]"
    "app_get a' (worker_generation b) = Some q'" "ap_ended q'"
proof -
  note W = in_step_worker [OF R] and P = playing_facts [OF R act, folded x]
  let ?i = "rr_response_id x" and ?g = "worker_generation b" and ?s = "da_state a" and ?h = "rr_last_media_sequence x \<noteq> None"
  obtain q where q: "app_get a ?g = Some q" "ap_target q = (?i, ?g)" "\<not> ap_ended q" "ap_last_media_sequence q = rr_last_media_sequence x"
    "ap_final_media_sequence q = None" "(ap_played_samples q = 0) = (rr_last_media_sequence x = None)"
    "countable (ap_played_samples q) (rr_last_media_sequence x)" "da_sink_owner a = None \<or> da_sink_owner a = Some (?i, ?g)"
    by (rule playing_app [OF R act, folded x, unfolded P(14)])
  define p where "p = stopped_playback b x cause"
  define s where "s = stopped_state b x cause ?s"
  have get: "dict_get (ss_playbacks ?s) ?g = Some (followed x ?h)"
    using P(4) by (simp add: endpoint_follows_def P(14) followed_def Let_def)
  have pf: "cp_target p = (?i, ?g)" "\<not> cp_ended p" "cp_started p = ?h" "cp_last_media_sequence p = rr_last_media_sequence x"
    by (simp_all add: p_def stopped_playback_def followed_def new_playback_def P(14))
  have "ss_fence_generation ?s \<le> ?g" using R P(8) by (simp add: in_step_def Let_def)
  then have "accept_stop (?i, ?g) (?g + 1) cause ?s = (Inr True, s)"
    using get by (simp add: accept_stop_def require_known_def find_playback_def put_playback_def playback_generation_def s_def
        stopped_state_def stopped_playback_def) (simp add: followed_def new_playback_def P(14))
  moreover have "1 \<le> ?g + 1" "?g + 1 \<le> uint32_max" using g P(8) by simp_all
  ultimately have acc: "accept_control (stop_message b x cause) ?s = (Inr (Some (client_event (stop_message b x cause) ''playback.stop'' (Some (?i, ?g)))), s)"
    using stop_read [OF W(6) W(5) P(6) P(8) P(9) _ _ cause stop_message_def] by simp
  define a1 where "a1 = a\<lparr>da_state := s, da_fence_generation := max (da_fence_generation a) (?g + 1),
    da_sink_owner := (if da_sink_owner a = Some (?i, ?g) then None else da_sink_owner a)\<rparr>"
  have "\<exists>a'. end_playback q (outcome_name PStopped) a1 = (Inr (), a') \<and> da_state a' = bury p (?i, ?g) (da_state a1) \<and>
    da_sent a' = da_sent a1 @ [ended_fact (?i, ?g) PStopped (ap_played_samples q) (ap_last_media_sequence q) (da_state a1)] \<and>
    da_sink_owner a' = (if da_sink_owner a1 = Some (?i, ?g) then None else da_sink_owner a1) \<and>
    da_fence_generation a' = da_fence_generation a1 \<and> (\<exists>q'. app_get a' ?g = Some q' \<and> ap_ended q' \<and> ap_target q' = (?i, ?g))"
  proof (rule app_ends_playback [where sid = "rb_session_id b" and epoch = "rb_session_epoch b"])
    show "ended_evidence p (outcome_name PStopped) (ap_played_samples q) (ap_last_media_sequence q) = Inr ()"
      using q pf by (cases "rr_last_media_sequence x") (auto simp: ended_evidence_def outcome_name_def state_uint32_def)
  qed (use q W(5) P(6,8,9) pf in \<open>simp_all add: a1_def s_def stopped_state_def p_def\<close>)
  then obtain a' q' where e: "end_playback q ''stopped'' a1 = (Inr (), a')" and a': "da_state a' = bury p (?i, ?g) s"
    "da_sent a' = da_sent a @ [ended_fact (?i, ?g) PStopped (ap_played_samples q) (rr_last_media_sequence x) s]" "da_sink_owner a' = None"
    "da_fence_generation a' = max (da_fence_generation a) (?g + 1)" "app_get a' ?g = Some q'" "ap_ended q'"
    using q(4,8) by (auto simp: outcome_name_def a1_def)
  have "int_field (stop_message b x cause) ''fence_generation'' = ?g + 1" by (simp add: stop_message_def client_fields)
  then have "stop_playback (?i, ?g) (int_field (stop_message b x cause) ''fence_generation'') (a\<lparr>da_state := s\<rparr>) = (Inr (), a')"
    using q(1-3) e by (cases "da_sink_owner a = Some (?i, ?g)") (simp_all add: stop_playback_def a1_def Let_def)
  then have "endpoint_step sink ro now (DControl t) a = (Inr True, a')"
    using endpoint_control [OF dec acc, of sink ro now] by (simp add: handle_event_def)
  then show thesis using that [of a' q q'] q(6,7) a' unfolding P(14) p_def s_def by simp
qed


lemma endpoint_late_end:
  assumes s: "\<not> ss_closed (da_state a)" "known_session (da_state a) (rb_session_id b) (rb_session_epoch b)"
    "require_known (record_key x) (da_state a) = Inr p" "\<not> cp_response_terminal p" "dict_get (ss_playbacks (da_state a)) (worker_generation b) = None"
    and x: "record_key x = (rr_response_id x, worker_generation b)" "is_identifier (rr_response_id x)" "1 \<le> worker_generation b" "worker_generation b \<le> uint32_max"
    and q: "app_get a (worker_generation b) = Some q" "ap_ended q" "cp_target p = record_key x"
    and dec: "client_decode_control t = Inr (fenced_message b x failed)"
  shows "\<exists>tombs. endpoint_step sink ro now (DControl t) a = (Inr True, a\<lparr>da_state := (da_state a)\<lparr>ss_playback_tombstones := tombs\<rparr>\<rparr>)"
proof -
  let ?m = "fenced_message b x failed"
  have oc: "jget ?m ''outcome'' = JStr (if failed then ''failed'' else ''cancelled'')"
    by (cases failed) (simp_all add: fenced_message_def client_fields)
  obtain tombs where "accept_end (rr_response_id x, worker_generation b) ?m (da_state a) = (Inr (), (da_state a)\<lparr>ss_playback_tombstones := tombs\<rparr>)"
    using s q(3) x(1) by (simp add: accept_end_def oc client_member_def put_playback_def playback_generation_def)
  then have "accept_control ?m (da_state a) = (Inr (Some (client_event ?m ''response.end'' (Some (record_key x)))), (da_state a)\<lparr>ss_playback_tombstones := tombs\<rparr>)"
    using fenced_read [OF s(1) s(2) x(2) x(3) x(4) fenced_message_def] x(1) by simp
  then show ?thesis
    using endpoint_control [OF dec, of a, of _ _ sink ro now] q x(1) by (simp add: handle_event_def app_finish_response_def) blast
qed

text \<open>What a stop does to the endpoint, and what the endpoint answers.\<close>

lemma stop_delivered:
  assumes R: "in_step b a" and act: "rc_active (rb_responses b) = Some r" and g: "worker_generation b < uint32_max"
    and x: "x = rec_at (rb_responses b) r" and w: "worker_step (WCancel cause) b = (Inr ds, b1)"
  obtains a' and q :: app_playback where "deliver_down sink ro now ds a = (Inr (), a')"
    "b1 = fenced r (stopped_record (cause = ''response_failed'') x) b" "binding_inv b1" "ensure_open b1 = Inr ()"
    "countable (ap_played_samples q) (rr_last_media_sequence x)" "ap_played_samples q = 0 \<longleftrightarrow> rr_last_media_sequence x = None"
    "da_sink_owner a' = None" "da_fence_generation a' = max (da_fence_generation a) (worker_generation b + 1)"
    "da_sent a' = da_sent a @ [ended_fact (record_key x) PStopped (ap_played_samples q) (rr_last_media_sequence x) (stopped_state b x cause (da_state a))]"
    "\<exists>tombs. da_state a' = (bury (stopped_playback b x cause) (record_key x) (stopped_state b x cause (da_state a)))\<lparr>ss_playback_tombstones := tombs\<rparr>"
proof -
  note W = in_step_worker [OF R] and P = playing_facts [OF R act, folded x]
  obtain eff where eff: "cancel_active_response cause b = (Inr eff, b1)" and ds: "ds = map DControl (ce_outbound eff)"
    using w by (auto simp: worker_step_def bind_op_Inr_iff)
  note C = cancel_worker [OF R act eff, folded x]
  let ?g = "worker_generation b" and ?failed = "cause = ''response_failed''"
  obtain t1 t2 where out: "ce_outbound eff = [t1, t2]" and enc: "encode_control (stop_message b x cause) = Inr t1" "encode_control (fenced_message b x ?failed) = Inr t2"
    using C(2) by blast
  have dec: "client_decode_control t1 = Inr (stop_message b x cause)" "client_decode_control t2 = Inr (fenced_message b x ?failed)"
    by (rule client_reads [OF enc(1)], simp add: stop_message_def session_message_def,
        rule client_reads [OF enc(2)], simp add: fenced_message_def session_message_def)
  define p where "p = stopped_playback b x cause"
  define s where "s = stopped_state b x cause (da_state a)"
  obtain a' and q :: app_playback and q' where st: "endpoint_step sink ro now (DControl t1) a = (Inr True, a')"
    and q: "countable (ap_played_samples q) (rr_last_media_sequence x)" "ap_played_samples q = 0 \<longleftrightarrow> rr_last_media_sequence x = None"
    and a': "da_state a' = bury p (record_key x) s" "da_sink_owner a' = None" "da_fence_generation a' = max (da_fence_generation a) (?g + 1)"
      "da_sent a' = da_sent a @ [ended_fact (record_key x) PStopped (ap_played_samples q) (rr_last_media_sequence x) s]"
    and q': "app_get a' ?g = Some q'" "ap_ended q'"
    by (rule endpoint_stop [OF R act C(1) g x dec(1), of sink ro now, folded p_def s_def])
  have cur: "ss_current_playback s = Some (rr_response_id x, ?g)" and pt: "cp_target p = (rr_response_id x, ?g)" "\<not> cp_response_terminal p"
    using P(4) by (simp_all add: s_def p_def stopped_state_def stopped_playback_def endpoint_follows_def P(14) followed_def new_playback_def Let_def)
  note B = bury_fields [OF cur pt(1), folded P(14)]
  have so: "ss_opened s = ss_opened (da_state a)" "\<not> ss_closed s" using W(6) by (simp_all add: s_def stopped_state_def)
  have "\<exists>tombs. endpoint_step sink ro now (DControl t2) a' = (Inr True, a'\<lparr>da_state := (da_state a')\<lparr>ss_playback_tombstones := tombs\<rparr>\<rparr>)"
  proof (rule endpoint_late_end [OF _ _ _ _ _ P(14) P(6) P(8) P(9) q' _ dec(2)])
    show "require_known (record_key x) (da_state a') = Inr (p\<lparr>cp_ended := True\<rparr>)" by (simp add: a' B)
  qed (use so W(5) B pt P(14) in \<open>simp_all add: a'\<close>)
  then obtain tombs where en: "endpoint_step sink ro now (DControl t2) a' = (Inr True, a'\<lparr>da_state := (da_state a')\<lparr>ss_playback_tombstones := tombs\<rparr>\<rparr>)" by blast
  have bo: "binding_inv b1" "ensure_open b1 = Inr ()"
    using cancel_active_response_inv [OF W(1), of cause] eff W(9,11)
    by (simp_all add: keeps_def C(3) fenced_def ensure_open_iff binding_closed_def coordinator_closed_def)
  define a2 where "a2 = a'\<lparr>da_state := (da_state a')\<lparr>ss_playback_tombstones := tombs\<rparr>\<rparr>"
  have "da_state a2 = (bury p (record_key x) s)\<lparr>ss_playback_tombstones := tombs\<rparr>" by (simp add: a2_def a')
  then have tb: "\<exists>tombs. da_state a2 = (bury p (record_key x) s)\<lparr>ss_playback_tombstones := tombs\<rparr>" by blast
  have "deliver_down sink ro now ds a = (Inr (), a2)" using st en by (simp add: ds out a2_def)
  moreover have "da_sink_owner a2 = None" "da_fence_generation a2 = max (da_fence_generation a) (?g + 1)"
    "da_sent a2 = da_sent a @ [ended_fact (record_key x) PStopped (ap_played_samples q) (rr_last_media_sequence x) s]"
    by (simp_all add: a2_def a')
  ultimately show thesis by (intro that [of a2 q, folded p_def s_def] C(3) bo q tb)
qed

lemma fenced_worker:
  fixes failed :: bool
  assumes R: "in_step b a" and act: "rc_active (rb_responses b) = Some r" and x: "x = rec_at (rb_responses b) r"
  defines "c \<equiv> rb_responses (fenced r (stopped_record failed x) b)"
  shows "dict_get (rc_records c) (record_key x) = Some r" "rec_at c r = stopped_record failed x" "rc_playback c = Some r"
    "vs_generation (rc_state c) = worker_generation b + 1" "\<not> vs_closed (rc_state c)"
proof -
  note W = in_step_worker [OF R] and P = playing_facts [OF R act, folded x]
  show "dict_get (rc_records c) (record_key x) = Some r"
    using P(2,3,12) by (simp add: c_def fenced_def worker_plays_def Let_def x [symmetric] remember_terminal_keeps stopped_record_def)
  show "rec_at c r = stopped_record failed x" "rc_playback c = Some r" "vs_generation (rc_state c) = worker_generation b + 1" "\<not> vs_closed (rc_state c)"
    using P(1,2) W(9) by (simp_all add: c_def fenced_def current_playback_def)
qed

lemma joint_cancel:
  assumes R: "in_step b a" and ok: "op_ok now (WCancel cause) b a" and w: "worker_step (WCancel cause) b = (Inr ds, b1)"
  shows "\<exists>a1 b2. deliver_down sink ro now ds a = (Inr (), a1) \<and> deliver_up (drop (length (da_sent a)) (da_sent a1)) b1 = (Inr (), b2) \<and>
    in_step b2 a1"
proof (cases "current_playback b")
  case None
  then have "b1 = b" "ds = []" using w in_step_worker(2) [OF R] by (auto simp: worker_step_def cancel_active_response_def no_effect_def bind_op_Inr_iff)
  then show ?thesis using R by auto
next
  case (Some r)
  note W = in_step_worker [OF R]
  have act: "rc_active (rb_responses b) = Some r" using R Some by (simp add: in_step_def worker_plays_def Let_def)
  define x where "x = rec_at (rb_responses b) r"
  note P = playing_facts [OF R act, folded x_def]
  have cause: "(cause = ''response_failed'') = False" and g: "worker_generation b < uint32_max" using ok by (simp_all add: op_ok_def)
  let ?g = "worker_generation b"
  define p where "p = stopped_playback b x cause"
  define s where "s = stopped_state b x cause (da_state a)"
  obtain a2 and q :: app_playback where down: "deliver_down sink ro now ds a = (Inr (), a2)" and b1: "b1 = fenced r (stopped_record False x) b"
    and bo: "binding_inv b1" "ensure_open b1 = Inr ()"
    and q: "countable (ap_played_samples q) (rr_last_media_sequence x)" "ap_played_samples q = 0 \<longleftrightarrow> rr_last_media_sequence x = None"
    and a2: "da_sink_owner a2 = None" "da_fence_generation a2 = max (da_fence_generation a) (?g + 1)"
      "da_sent a2 = da_sent a @ [ended_fact (record_key x) PStopped (ap_played_samples q) (rr_last_media_sequence x) s]"
      "\<exists>tombs. da_state a2 = (bury p (record_key x) s)\<lparr>ss_playback_tombstones := tombs\<rparr>"
    by (rule stop_delivered [OF R act g x_def w, of sink ro now, folded p_def s_def, unfolded cause])
  have cur: "ss_current_playback s = Some (rr_response_id x, ?g)" and pt: "cp_target p = (rr_response_id x, ?g)"
    using P(4) by (simp_all add: s_def p_def stopped_state_def stopped_playback_def endpoint_follows_def P(14) followed_def new_playback_def Let_def)
  note B = bury_fields [OF cur pt, folded P(14)]
  have so: "ss_opened s = ss_opened (da_state a)" "\<not> ss_closed s" using W(6) by (simp_all add: s_def stopped_state_def)
  note F = fenced_worker [OF R act x_def, of False, folded b1, unfolded P(14)]
  have "\<exists>b'. deliver_up [ended_fact (rr_response_id x, ?g) PStopped (ap_played_samples q) (rr_last_media_sequence x) s] b1 = (Inr (), b') \<and> current_playback b' = None \<and>
    (\<exists>c'. b' = b1\<lparr>rb_responses := c'\<rparr> \<and> vs_generation (rc_state c') = vs_generation (rc_state (rb_responses b1)) \<and>
       vs_closed (rc_state c') = vs_closed (rc_state (rb_responses b1)))"
  proof (rule ended_accepted [OF bo(2) _ P(8,9) F(1) P(6) F(3) F(2) [symmetric], where ocs = "[PStopped]"])
    show "playback_evidence (stopped_record False x) PStopped (ap_played_samples q) (rr_last_media_sequence x) = Inr ()"
      using q by (cases "rr_last_media_sequence x") (simp_all add: playback_evidence_def stopped_record_def)
  qed (use W(5) P(12) q so in \<open>simp_all add: b1 fenced_def stopped_record_def expected_outcomes_def\<close>)
  then obtain b2 c2 where up: "deliver_up (drop (length (da_sent a)) (da_sent a2)) b1 = (Inr (), b2)" and b2: "current_playback b2 = None"
    "b2 = b1\<lparr>rb_responses := c2\<rparr>" "vs_generation (rc_state c2) = ?g + 1" "vs_closed (rc_state c2) = False"
    using F(4,5) by (auto simp: a2 P(14))
  have wg: "worker_generation b2 = ?g + 1" using b2 by (simp add: worker_generation_def)
  obtain tombs where s2: "da_state a2 = (bury p (record_key x) s)\<lparr>ss_playback_tombstones := tombs\<rparr>" using a2(4) by blast
  have "in_step b2 a2"
  proof (rule in_step_idleI [OF R])
    show "binding_inv b2" using deliver_up_inv [OF bo(1)] up unfolding keeps_def by (metis snd_conv)
    show "dict_get (ss_last_media_timestamp (da_state a)) k \<noteq> None" if "dict_get (ss_last_media_timestamp (da_state a2)) k \<noteq> None" for k
      using that by (simp add: s2 bury_def s_def stopped_state_def split: if_splits)
    show "da_fence_generation a2 \<le> max 1 (worker_generation b2)" using R P(8) by (auto simp: a2 wg in_step_def Let_def)
    show "ensure_open b2 = Inr ()" using b2 W(11) by (simp add: b1 fenced_def ensure_open_iff binding_closed_def coordinator_closed_def)
    show "same_session b2 (da_state a2)" using W(10) so by (simp add: same_session_def b2 b1 fenced_def s2 B)
    show "ss_fence_generation (da_state a2) \<le> max 1 (worker_generation b2)" by (simp add: s2 B wg) (simp add: s_def stopped_state_def)
    show "rb_selected_media_profile b2 = Some WSS_PROFILE" "rb_next_downlink_sequence b2 = rb_next_downlink_sequence b"
      using W(3) by (simp_all add: b2 b1 fenced_def)
    show "worker_generation b \<le> worker_generation b2" "worker_generation b2 \<le> uint32_max" using g by (simp_all add: wg)
  qed (use b2(1) so B a2(1) in \<open>simp_all add: s2\<close>, simp_all add: s_def stopped_state_def)
  then show ?thesis using down up by blast
qed


section \<open>Runs\<close>

fun joint_run :: "audio_sink \<Rightarrow> session_opened option \<Rightarrow> (real \<times> worker_op) list \<Rightarrow> binding \<times> desktop_app \<Rightarrow> joint_error + binding \<times> desktop_app" where
  "joint_run sink ro [] ba = Inr ba"
| "joint_run sink ro ((now, op) # ops) ba = bind_result (joint_step sink ro now op ba) (joint_run sink ro ops)"

text \<open>The environment behaves at every step of the run.\<close>

fun run_ok :: "audio_sink \<Rightarrow> session_opened option \<Rightarrow> (real \<times> worker_op) list \<Rightarrow> binding \<times> desktop_app \<Rightarrow> bool" where
  "run_ok sink ro [] ba = True"
| "run_ok sink ro ((now, op) # ops) ba \<longleftrightarrow> op_ok now op (fst ba) (snd ba) \<and>
    (case joint_step sink ro now op ba of Inl _ \<Rightarrow> True | Inr ba' \<Rightarrow> run_ok sink ro ops ba')"

lemma joint_step_keeps:
  assumes R: "in_step b a" and sink: "sink_ok sink" and ok: "op_ok now op b a"
  shows "(\<exists>e. joint_step sink ro now op (b, a) = Inl (WorkerRefused e)) \<or>
    (\<exists>b' a'. joint_step sink ro now op (b, a) = Inr (b', a') \<and> in_step b' a')"
proof -
  obtain r b1 where w: "worker_step op b = (r, b1)" by fastforce
  show ?thesis
  proof (cases r)
    case (Inl e)
    then show ?thesis using w by (simp add: joint_step_def)
  next
    case (Inr ds)
    have "\<exists>a1 b2. deliver_down sink ro now ds a = (Inr (), a1) \<and> deliver_up (drop (length (da_sent a)) (da_sent a1)) b1 = (Inr (), b2) \<and> in_step b2 a1"
    proof (cases op)
      case (WBegin i e)
      then show ?thesis using joint_begin [OF R, of i e ds b1 sink ro now] ok w Inr by (auto simp: op_ok_def)
    next
      case (WText r n x)
      then show ?thesis using joint_text [OF R, of now r n x ds b1 sink ro] ok w Inr by auto
    next
      case (WMedia r p ts)
      then show ?thesis using joint_media [OF R sink] ok w Inr by blast
    next
      case (WEnd r)
      then show ?thesis using joint_end [OF R] w Inr by blast
    next
      case (WCancel cause)
      then show ?thesis using joint_cancel [OF R] ok w Inr by blast
    qed
    then show ?thesis using w Inr by (auto simp: joint_step_def)
  qed
qed

lemma joint_run_keeps:
  assumes "in_step b a" "sink_ok sink" "run_ok sink ro ops (b, a)"
  shows "(\<exists>e. joint_run sink ro ops (b, a) = Inl (WorkerRefused e)) \<or>
    (\<exists>b' a'. joint_run sink ro ops (b, a) = Inr (b', a') \<and> in_step b' a')"
  using assms
proof (induction ops arbitrary: b a)
  case (Cons x ops)
  obtain now op where x: "x = (now, op)" by force
  from joint_step_keeps [OF Cons.prems(1,2), of now op ro] show ?case
    using Cons x by (auto simp: bind_result_def split: sum.splits)
qed simp

end
