(* ===== verification/Handshake.thy ===== *)
theory Handshake
  imports Lockstep Rva_Runtime
begin

text \<open>
  How a session opens: the endpoint's \<open>session.open\<close>, the worker's answer and the state both sides start from.
\<close>

section \<open>Encodings\<close>

lemma hex_digit_code: "n < 16 \<Longrightarrow> (of_char (hex_digit n) :: nat) = (if n < 10 then 48 + n else 87 + n)"
  by (simp add: hex_digit_def)

lemma hex_digit_facts:
  assumes "n < 16"
  shows "hex_value (hex_digit n) = Some n" "\<not> hex_space (hex_digit n)" "\<not> (65 \<le> (of_char (hex_digit n) :: nat) \<and> (of_char (hex_digit n) :: nat) \<le> 90)"
    "escaped_len (hex_digit n) = 1"
proof -
  have c: "48 \<le> (of_char (hex_digit n) :: nat)" "(of_char (hex_digit n) :: nat) \<noteq> 92" using assms by (simp_all add: hex_digit_code)
  show "hex_value (hex_digit n) = Some n" "\<not> (65 \<le> (of_char (hex_digit n) :: nat) \<and> (of_char (hex_digit n) :: nat) \<le> 90)"
    using assms by (simp_all add: hex_value_def hex_digit_code)
  have "hex_space d \<Longrightarrow> (of_char d :: nat) < 48" for d unfolding hex_space_def by (elim insertE emptyE) simp_all
  then show "\<not> hex_space (hex_digit n)" using c by (metis not_le)
  have "d \<in> {CHR 0x22, CHR 0x5C, CHR 0x0A, CHR 0x0D, CHR 0x09, CHR 0x08, CHR 0x0C} \<Longrightarrow> (of_char d :: nat) < 48 \<or> (of_char d :: nat) = 92" for d
    by (elim insertE emptyE) simp_all
  then have "hex_digit n \<notin> {CHR 0x22, CHR 0x5C, CHR 0x0A, CHR 0x0D, CHR 0x09, CHR 0x08, CHR 0x0C}" using c by (metis not_le)
  then show "escaped_len (hex_digit n) = 1" using c(1) unfolding escaped_len_def by (simp del: insert_iff)
qed

lemma nibbles: "unat (w :: byte) div 16 < 16" "unat (w :: byte) mod 16 < 16"
  using unat_byte [of w] by simp_all

lemma fromhex_hex_of: "fromhex (hex_of bs) = Some bs"
proof (induction bs)
  case (Cons w bs)
  then show ?case using nibbles [of w] by (simp add: hex_of_def hex_digit_facts of_nat_byte)
qed (simp add: hex_of_def)

lemma hex_of_lower: "\<not> list_ex (\<lambda>c. 65 \<le> (of_char c :: nat) \<and> (of_char c :: nat) \<le> 90) (hex_of bs)"
proof (induction bs)
  case (Cons w bs)
  then show ?case using hex_digit_facts(3) [OF nibbles(1) [of w]] hex_digit_facts(3) [OF nibbles(2) [of w]]
    by (simp add: hex_of_def)
qed (simp add: hex_of_def)

lemma str_len_hex: "str_len (hex_of bs) = 2 + 2 * length bs"
proof (induction bs)
  case (Cons w bs)
  then show ?case using nibbles [of w] by (simp add: hex_of_def str_len_def hex_digit_facts)
qed (simp add: hex_of_def str_len_def)

lemma client_media_id_hex: "length bs = 8 \<Longrightarrow> client_media_id (JStr (hex_of bs)) = Inr bs"
  using hex_of_lower [of bs] by (simp add: client_media_id_def fromhex_hex_of)

lemma escaped_len_le: "escaped_len c \<le> 6"
  by (simp add: escaped_len_def)

lemma str_len_le: "str_len s \<le> 2 + 6 * length s"
proof (induction s)
  case (Cons c s)
  then show ?case using escaped_len_le [of c] by (simp add: str_len_def)
qed (simp add: str_len_def)

text \<open>A bound for the length of an object from bounds for its fields.\<close>

lemma json_len_obj:
  assumes "list_all (\<lambda>(k, v). length k \<le> 40 \<and> json_len v \<le> B) d"
  shows "json_len (JObj d) \<le> 2 + length d * (B + 244)"
proof -
  have "sum_list (map (\<lambda>(k, v). str_len k + 1 + json_len v) d) \<le> length d * (B + 243)"
    using assms
  proof (induction d)
    case (Cons kv d)
    obtain k v where kv: "kv = (k, v)" by force
    have "str_len k + 1 + json_len v \<le> B + 243" using Cons.prems str_len_le [of k] by (simp add: kv)
    then show ?case using Cons kv by simp
  qed simp
  then show ?thesis by (simp add: bracket_len_def add_mult_distrib2 algebra_simps)
qed

lemma length_b64encode: "length (b64encode bs) \<le> 4 * length bs + 4"
  by (induction bs rule: b64encode.induct) auto

lemma str_len_b64: "str_len (b64encode bs) \<le> 26 + 24 * length bs"
  using str_len_le [of "b64encode bs"] length_b64encode [of bs] by simp

section \<open>session.open\<close>

lemma bootstrap_identifier_ok: "bootstrap_identifier s \<Longrightarrow> is_identifier s"
  by (simp add: bootstrap_identifier_def is_identifier_def)

lemma profile_lists:
  assumes "ps \<noteq> []" "distinct ps" "set ps \<subseteq> {''wss-opus/1'', ''udp-opus-gcm/1''}"
  shows "ps \<in> {[''wss-opus/1''], [''udp-opus-gcm/1''], [''wss-opus/1'', ''udp-opus-gcm/1''], [''udp-opus-gcm/1'', ''wss-opus/1'']}"
proof -
  have "length ps = card (set ps)" using assms(2) by (simp add: distinct_card)
  also have "\<dots> \<le> 2" using card_mono [OF _ assms(3)] by simp
  finally obtain x y where "ps = [x] \<or> ps = [x, y]" using assms(1)
    by (cases ps; cases "tl ps"; cases "tl (tl ps)") auto
  then show ?thesis using assms by auto
qed

definition opened_request :: "client_config \<Rightarrow> string \<Rightarrow> session_open" where
  "opened_request c request_id = \<lparr>so_request_id = request_id, so_device_id = cf_device_id c,
     so_supported_media_profiles = cf_supported_profiles c, so_preferred_media_profile = cf_preferred_profile c,
     so_capabilities = cf_capabilities c\<rparr>"

lemma json_bools_map: "json_bools (map (\<lambda>(k, v). (k, JBool v)) d) = Some d"
  by (induction d) auto

lemma open_read:
  assumes c: "config_valid c" and r: "is_identifier request_id"
  obtains m t where "build_session_open c request_id = Inr m" "client_encode_control m = Inr t" "decode_control t = Inr m"
    "jget m ''type'' = JStr ''session.open''" "parse_session_open_object m = Inr (opened_request c request_id)"
proof -
  let ?ps = "cf_supported_profiles c" and ?caps = "map (\<lambda>(k, v). (k, JBool v)) (cf_capabilities c)"
  define plist where "plist = JList (map JStr ?ps)"
  define audio where "audio = JObj AUDIO_PROFILE"
  define caps where "caps = JObj ?caps"
  note vals = plist_def audio_def caps_def
  define m where "m = [(''type'', JStr ''session.open''), (''protocol_version'', JInt 1), (''request_id'', JStr request_id),
       (''device_id'', JStr (cf_device_id c)), (''supported_media_profiles'', plist),
       (''preferred_media_profile'', JStr (cf_preferred_profile c)), (''audio'', audio), (''capabilities'', caps)]"
  have ps: "?ps \<in> {[''wss-opus/1''], [''udp-opus-gcm/1''], [''wss-opus/1'', ''udp-opus-gcm/1''], [''udp-opus-gcm/1'', ''wss-opus/1'']}"
    using profile_lists c by (simp add: config_valid_def)
  have pref: "cf_preferred_profile c \<in> set ?ps" and keys: "map fst (cf_capabilities c) = [''aec'', ''vad'', ''wake_word'', ''display'', ''touch'']"
    and dev: "is_identifier (cf_device_id c)"
    using c by (simp_all add: config_valid_def bootstrap_identifier_ok)
  obtain b1 b2 b3 b4 b5 where flags: "cf_capabilities c = [(''aec'', b1), (''vad'', b2), (''wake_word'', b3), (''display'', b4), (''touch'', b5)]"
    using keys by (auto simp: map_eq_Cons_conv)
  have "str_len (cf_preferred_profile c) \<le> 2000" using ps pref by (auto simp: str_len_def escaped_len_def)
  moreover have "json_len plist \<le> 2000" using ps by (auto simp: vals str_len_def escaped_len_def bracket_len_def)
  moreover have "json_len caps \<le> 2000" unfolding vals by (rule order.trans [OF json_len_obj [of 5]]) (simp_all add: flags)
  moreover have "json_len audio \<le> 2000" unfolding vals
    by (rule order.trans [OF json_len_obj [of 50]]) (simp_all add: AUDIO_PROFILE_def str_len_def escaped_len_def int_len_def dec_len.simps)
  moreover have "str_len request_id \<le> 2000" "str_len (cf_device_id c) \<le> 2000" using str_len_identifier [OF r] str_len_identifier [OF dev] by simp_all
  ultimately have "list_all (\<lambda>(k, v). length k \<le> 40 \<and> json_len v \<le> 2000) m"
    by (simp add: m_def int_len_def dec_len.simps) (simp add: str_len_def escaped_len_def)
  then have len: "json_len (JObj m) \<le> CONTROL_MAX_BYTES" by (rule order.trans [OF json_len_obj]) (simp add: m_def CONTROL_MAX_BYTES_def)
  have "\<not> has_surrogate (JObj m)" by (simp add: m_def list_ex_iff AUDIO_PROFILE_def flags vals)
  then have enc: "client_encode_control m = Inr (text_of (JObj m))" using len by (simp add: client_encode_control_def text_of_def Let_def)
  have "json_unique (JObj m)" by (simp add: m_def list_all_iff AUDIO_PROFILE_def flags vals)
  then have "decode_control (text_of (JObj m)) = Inr m" using worker_reads [OF enc] by simp
  moreover have "build_session_open c request_id = Inr m" using r by (simp add: build_session_open_def client_identifier_def m_def vals)
  moreover have "parse_session_open_object m = Inr (opened_request c request_id)"
  proof -
    have "parse_profiles plist = Inr ?ps" using ps by (auto simp: vals parse_profiles_def SUPPORTED_PROFILES_def WSS_PROFILE_def UDP_PROFILE_def)
    moreover have "validate_audio audio = Inr ()" by (simp add: vals validate_audio_def eq_const_dict_def AUDIO_PROFILE_def)
    moreover have "validate_capabilities caps = Inr (cf_capabilities c)"
      using json_bools_map [of "cf_capabilities c"] by (simp add: vals validate_capabilities_def flags CAPABILITIES_def)
    moreover have "require_exact_fields m SESSION_OPEN_FIELDS = Inr ()" by (simp add: require_exact_fields_Inr m_def SESSION_OPEN_FIELDS_def)
    ultimately show ?thesis
      using pref r dev by (simp add: parse_session_open_object_def opened_request_def)
        (simp add: m_def jget_def CONTROL_VERSION_def require_identifier_def)
  qed
  ultimately show thesis using that enc by (simp add: m_def jget_def)
qed


section \<open>session.opened\<close>

text \<open>A grant as the gateway issues it.\<close>

definition grant_wf :: "udp_grant \<Rightarrow> bool" where
  "grant_wf g \<longleftrightarrow> ug_host g \<noteq> [] \<and> length (ug_host g) \<le> 253 \<and> 1 \<le> ug_port g \<and> ug_port g \<le> 65535 \<and>
     0 < ug_expires_at g \<and> ug_expires_at g * 1000 \<le> 2 ^ 63 - 1 \<and> 100 \<le> ug_probe_timeout_ms g \<and> ug_probe_timeout_ms g \<le> 10000 \<and>
     length (ug_uplink_key g) = 16 \<and> length (ug_downlink_key g) = 16 \<and> length (ug_uplink_salt g) = 8 \<and> length (ug_downlink_salt g) = 8"

lemma int_len_bounded: "0 \<le> n \<Longrightarrow> n < 10 ^ 20 \<Longrightarrow> int_len n \<le> 20"
  using dec_len_le [of "nat n" 19] by (simp add: int_len_def nat_less_iff)

lemma code_points_le: "code_points s \<le> length s"
  by (simp add: code_points_def)

lemma grant_read:
  assumes g: "grant_wf (us_grant u)" and d: "rva_udp_grant b64encode wall (Some u) = Some d"
  obtains cg where "parse_udp_grant (JObj d) = Inr (Some cg)" "json_len (JObj d) \<le> 16000" "\<not> has_surrogate (JObj d)" "json_unique (JObj d)"
    "cg_uplink_key cg = ug_uplink_key (us_grant u)" "cg_uplink_salt cg = ug_uplink_salt (us_grant u)"
    "cg_downlink_key cg = ug_downlink_key (us_grant u)" "cg_downlink_salt cg = ug_downlink_salt (us_grant u)"
    "cg_host cg = ug_host (us_grant u)" "cg_port cg = ug_port (us_grant u)"
proof -
  let ?g = "us_grant u"
  define refresh where "refresh = max 1000 (min 3600000 (ug_expires_at ?g * 1000 - \<lfloor>wall * 1000\<rfloor> - 5000))"
  have d': "d = [(''host'', JStr (ug_host ?g)), (''port'', JInt (ug_port ?g)), (''expires_at_ms'', JInt (ug_expires_at ?g * 1000)),
             (''refresh_after_ms'', JInt refresh), (''uplink_key_b64'', JStr (b64encode (ug_uplink_key ?g))),
             (''uplink_salt_b64'', JStr (b64encode (ug_uplink_salt ?g))), (''downlink_key_b64'', JStr (b64encode (ug_downlink_key ?g))),
             (''downlink_salt_b64'', JStr (b64encode (ug_downlink_salt ?g))), (''probe_timeout_ms'', JInt (ug_probe_timeout_ms ?g))]"
    using d by (simp add: rva_udp_grant_def Let_def refresh_def)
  have rf: "1000 \<le> refresh" "refresh \<le> 3600000" by (simp_all add: refresh_def)
  have il: "int_len (ug_port ?g) \<le> 20" "int_len (ug_expires_at ?g * 1000) \<le> 20" "int_len refresh \<le> 20" "int_len (ug_probe_timeout_ms ?g) \<le> 20"
    using g rf by (auto intro!: int_len_bounded simp: grant_wf_def)
  have "list_all (\<lambda>(k, v). length k \<le> 40 \<and> json_len v \<le> 1520) d"
    using il str_len_le [of "ug_host ?g"] str_len_b64 [of "ug_uplink_key ?g"] str_len_b64 [of "ug_uplink_salt ?g"] str_len_b64 [of "ug_downlink_key ?g"]
      str_len_b64 [of "ug_downlink_salt ?g"] g by (simp add: d' grant_wf_def)
  then have len: "json_len (JObj d) \<le> 16000" by (rule order.trans [OF json_len_obj]) (simp add: d')
  have keys: "grant_keys d = Some (ug_uplink_key ?g, ug_uplink_salt ?g, ug_downlink_key ?g, ug_downlink_salt ?g)"
    using g by (simp add: grant_keys_def d' jget_def b64_field_def b64_decode_encode grant_wf_def)
  have ex: "client_exact d UDP_GRANT_FIELDS [] = Inr ()" by (simp add: client_exact_def d' UDP_GRANT_FIELDS_def)
  have host: "\<not> (ug_host ?g = [] \<or> code_points (ug_host ?g) > 253)" using g code_points_le [of "ug_host ?g"] by (simp add: grant_wf_def)
  have "client_bounded_int (jget d ''port'') 1 65535 ''udp_port'' = Inr (ug_port ?g)"
    "client_bounded_int (jget d ''expires_at_ms'') 1 (2 ^ 63 - 1) ''udp_expiry'' = Inr (ug_expires_at ?g * 1000)"
    "client_bounded_int (jget d ''refresh_after_ms'') 1000 3600000 ''udp_refresh'' = Inr refresh"
    "client_bounded_int (jget d ''probe_timeout_ms'') 100 10000 ''udp_probe_timeout'' = Inr (ug_probe_timeout_ms ?g)"
    "jget d ''host'' = JStr (ug_host ?g)"
    using g rf by (simp_all add: client_bounded_int_def d' jget_def grant_wf_def)
  then have "parse_udp_grant (JObj d) = Inr (Some \<lparr>cg_host = ug_host ?g, cg_port = ug_port ?g, cg_expires_at_ms = ug_expires_at ?g * 1000,
      cg_refresh_after_ms = refresh, cg_uplink_key = ug_uplink_key ?g, cg_uplink_salt = ug_uplink_salt ?g, cg_downlink_key = ug_downlink_key ?g,
      cg_downlink_salt = ug_downlink_salt ?g, cg_probe_timeout_ms = ug_probe_timeout_ms ?g\<rparr>)"
    using ex keys host by (simp add: parse_udp_grant_def)
  moreover have "\<not> has_surrogate (JObj d)" "json_unique (JObj d)" by (simp_all add: d')
  ultimately show thesis using that len by simp
qed


text \<open>The worker's constructor leaves a session that can be opened.\<close>

lemma binding_init_Inr:
  assumes "binding_init device sid epoch mid mepoch allowed grant timeout = Inr (Some b)"
  shows "rb_expected_device_id b = device" "rb_session_id b = sid" "rb_session_epoch b = epoch" "rb_media_id b = mid" "rb_media_epoch b = mepoch"
    "rb_allowed_profiles b = allowed" "rb_udp_grant b = grant" "\<not> rb_opened b" "is_identifier sid" "is_identifier epoch" "length mid = 8"
    "1 \<le> mepoch" "mepoch \<le> uint32_max" "rb_next_downlink_sequence b = 0" "current_playback b = None" "worker_generation b = 0"
    "\<not> binding_closed b"
  using assms by (auto simp: binding_init_def bind_result_Inr_iff require_identifier_Inr require_uint32_Inr coordinator_init_def voice_session_init_def
      current_playback_def worker_generation_def binding_closed_def coordinator_closed_def Let_def split: if_splits option.splits)

definition opened_of :: "binding \<Rightarrow> string \<Rightarrow> string \<Rightarrow> client_udp_grant option \<Rightarrow> session_opened" where
  "opened_of b request_id selected grant = \<lparr>sd_request_id = request_id, sd_session_id = rb_session_id b, sd_session_epoch = rb_session_epoch b,
     sd_media_id = rb_media_id b, sd_media_epoch = rb_media_epoch b, sd_selected_profile = selected, sd_heartbeat_interval_ms = 15000,
     sd_idle_timeout_ms = 45000, sd_udp_grant = grant\<rparr>"

lemma opened_read:
  assumes b: "is_identifier (rb_session_id b)" "is_identifier (rb_session_epoch b)" "length (rb_media_id b) = 8"
      "1 \<le> rb_media_epoch b" "rb_media_epoch b \<le> uint32_max"
    and r: "is_identifier request_id" "so_request_id open_request = request_id"
    and sel: "selected = WSS_PROFILE \<and> grant = None \<or> selected = UDP_PROFILE \<and> rb_udp_grant b = Some d \<and> grant = Some cg \<and>
      parse_udp_grant (JObj d) = Inr (Some cg) \<and> json_len (JObj d) \<le> 16000 \<and> \<not> has_surrogate (JObj d) \<and> json_unique (JObj d)"
  shows "\<exists>t. encode_control (opened_message b open_request selected) = Inr t \<and> client_decode_control t = Inr (opened_message b open_request selected)"
    "parse_session_opened (opened_message b open_request selected) request_id = Inr (opened_of b request_id selected grant)"
proof -
  define m where "m = opened_message b open_request selected"
  define audio where "audio = JObj AUDIO_PROFILE"
  define base where "base = [(''type'', JStr ''session.opened''), (''request_id'', JStr request_id),
     (''session_id'', JStr (rb_session_id b)), (''session_epoch'', JStr (rb_session_epoch b)),
     (''media_id'', JStr (hex_of (rb_media_id b))), (''media_epoch'', JInt (rb_media_epoch b)),
     (''selected_media_profile'', JStr selected), (''audio'', audio),
     (''heartbeat_interval_ms'', JInt 15000), (''idle_timeout_ms'', JInt 45000),
     (''max_control_message_bytes'', JInt (int CONTROL_MAX_BYTES))]"
  have m: "m = base @ (if selected = UDP_PROFILE then [(''udp_grant'', JObj d)] else [])"
    using sel r by (auto simp: m_def opened_message_def base_def audio_def WSS_PROFILE_def UDP_PROFILE_def)
  have ne: "WSS_PROFILE \<noteq> UDP_PROFILE" "UDP_PROFILE \<noteq> WSS_PROFILE" by (simp_all add: WSS_PROFILE_def UDP_PROFILE_def)
  have selw: "selected = ''wss-opus/1'' \<or> selected = ''udp-opus-gcm/1''" using sel by (auto simp: WSS_PROFILE_def UDP_PROFILE_def)
  have audio: "json_len audio \<le> 1200" unfolding audio_def
    by (rule order.trans [OF json_len_obj [of 50]]) (simp_all add: AUDIO_PROFILE_def str_len_def escaped_len_def int_len_def dec_len.simps)
  have "str_len selected \<le> 1200" "str_len ''session.opened'' \<le> 1200"
    using selw str_len_le [of selected] str_len_le [of "''session.opened''"] by auto
  moreover have "int_len 15000 \<le> 1200" "int_len 45000 \<le> 1200" "int_len (int CONTROL_MAX_BYTES) \<le> 1200" "int_len (rb_media_epoch b) \<le> 1200"
    using int_len_uint32 [of 15000] int_len_uint32 [of 45000] int_len_uint32 [of "int CONTROL_MAX_BYTES"] int_len_uint32 [of "rb_media_epoch b"] b(4,5)
    by (simp_all add: uint32_max_def CONTROL_MAX_BYTES_def)
  moreover have "str_len request_id \<le> 1200" "str_len (rb_session_id b) \<le> 1200" "str_len (rb_session_epoch b) \<le> 1200" "str_len (hex_of (rb_media_id b)) \<le> 1200"
    using str_len_identifier [OF b(1)] str_len_identifier [OF b(2)] str_len_identifier [OF r(1)] str_len_hex [of "rb_media_id b"] b(3) by simp_all
  ultimately have "list_all (\<lambda>(k, v). length k \<le> 40 \<and> json_len v \<le> 1200) base" using audio by (simp add: base_def)
  then have "json_len (JObj base) \<le> 15900" by (rule order.trans [OF json_len_obj]) (simp add: base_def)
  then have len: "json_len (JObj m) \<le> CONTROL_MAX_BYTES"
    using sel ne str_len_le [of "''udp_grant''"] by (auto simp: m bracket_len_def CONTROL_MAX_BYTES_def base_def)
  have "\<not> has_surrogate (JObj m)" and unique: "json_unique (JObj m)"
    using sel ne by (auto simp: m base_def audio_def AUDIO_PROFILE_def)
  then have enc: "encode_control m = Inr (text_of (JObj m))" using len by (simp add: encode_control_def text_of_def Let_def)
  then show "\<exists>t. encode_control (opened_message b open_request selected) = Inr t \<and> client_decode_control t = Inr (opened_message b open_request selected)"
    using client_reads [OF enc unique] by (simp add: m_def)
  have fields: "jget m ''type'' = JStr ''session.opened''" "jget m ''request_id'' = JStr request_id" "jget m ''session_id'' = JStr (rb_session_id b)"
    "jget m ''session_epoch'' = JStr (rb_session_epoch b)" "jget m ''media_id'' = JStr (hex_of (rb_media_id b))" "jget m ''media_epoch'' = JInt (rb_media_epoch b)"
    "jget m ''selected_media_profile'' = JStr selected" "jget m ''audio'' = audio" "jget m ''heartbeat_interval_ms'' = JInt 15000"
    "jget m ''idle_timeout_ms'' = JInt 45000" "jget m ''max_control_message_bytes'' = JInt (int CONTROL_MAX_BYTES)"
    "jget m ''udp_grant'' = (if selected = UDP_PROFILE then JObj d else JNull)"
    by (simp_all add: m base_def jget_def)
  have "validate_opened m = Inr ()"
  proof -
    have "client_exact m ([''type'', ''request_id'', ''session_id'', ''session_epoch'', ''media_id'', ''media_epoch'',
        ''selected_media_profile'', ''audio'', ''heartbeat_interval_ms'', ''idle_timeout_ms'', ''max_control_message_bytes''] @
        (if jget m ''selected_media_profile'' = JStr UDP_PROFILE then [''udp_grant''] else [])) [] = Inr ()"
      by (cases "selected = UDP_PROFILE") (simp_all add: fields(7), simp_all add: client_exact_def m base_def)
    moreover have "eq_const_dict audio AUDIO_PROFILE" by (simp add: audio_def eq_const_dict_def AUDIO_PROFILE_def)
    ultimately show ?thesis using r(1) by (simp add: validate_opened_def fields(2,8,11) client_identifier_def)
  qed
  then have "validate_server_message m = Inr ()" by (simp add: validate_server_message_def fields(1) client_member_def SERVER_TYPES_def)
  moreover have "media_profile (JStr selected) = Inr selected" using sel by (auto simp: media_profile_def)
  moreover have "parse_udp_grant (if selected = UDP_PROFILE then JObj d else JNull) = Inr grant" "(selected = UDP_PROFILE) = (grant \<noteq> None)"
    using sel ne by (auto simp: parse_udp_grant_def)
  ultimately show "parse_session_opened (opened_message b open_request selected) request_id = Inr (opened_of b request_id selected grant)"
    using b unfolding m_def [symmetric] parse_session_opened_def fields
    by (simp add: client_identifier_def client_media_id_hex client_uint32_field_def client_bounded_int_def opened_of_def)
qed


section \<open>The handshake\<close>

lemma select_profile_offered:
  "set (cf_supported_profiles c) \<inter> set allowed \<noteq> {} \<Longrightarrow>
    select_profile (filter (\<lambda>p. p \<in> set allowed) (cf_supported_profiles c)) preferred \<in> set (cf_supported_profiles c) \<inter> set allowed"
  using select_profile_mem [of "filter (\<lambda>p. p \<in> set allowed) (cf_supported_profiles c)" preferred] by (auto simp: filter_empty_conv)

lemma opened_in_step:
  assumes b: "binding_init device sid epoch mid mepoch allowed grant timeout = Inr (Some b)" and inv: "binding_inv b1"
    and b1: "b1 = b\<lparr>rb_opened := True, rb_selected_media_profile := Some WSS_PROFILE\<rparr>"
  shows "in_step b1 (desktop_app_init cfg (opened_of b request_id WSS_PROFILE None))"
  using binding_init_Inr [OF b] inv
  by (simp add: in_step_def b1 desktop_app_init_def session_state_init_def opened_of_def same_session_def ensure_open_iff binding_closed_def
      worker_generation_def current_playback_def uint32_max_def)

text \<open>The grant that an answer carries: none under WSS, under UDP one that the endpoint reads back.\<close>

lemma selected_grant:
  assumes two: "selected = WSS_PROFILE \<or> selected = UDP_PROFILE"
    and udp: "selected = UDP_PROFILE \<Longrightarrow> rb_udp_grant b = rva_udp_grant b64encode wall (Some u) \<and> grant_wf (us_grant u)"
  obtains gr d cg where "selected = WSS_PROFILE \<and> gr = None \<or> selected = UDP_PROFILE \<and> rb_udp_grant b = Some d \<and> gr = Some cg \<and>
      parse_udp_grant (JObj d) = Inr (Some cg) \<and> json_len (JObj d) \<le> 16000 \<and> \<not> has_surrogate (JObj d) \<and> json_unique (JObj d)"
    "selected = UDP_PROFILE \<longrightarrow> gr = Some cg \<and> cg_uplink_key cg = ug_uplink_key (us_grant u) \<and>
       cg_uplink_salt cg = ug_uplink_salt (us_grant u) \<and> cg_downlink_key cg = ug_downlink_key (us_grant u) \<and>
       cg_downlink_salt cg = ug_downlink_salt (us_grant u)"
proof (cases "selected = UDP_PROFILE")
  case True
  then have u: "rb_udp_grant b = rva_udp_grant b64encode wall (Some u)" "grant_wf (us_grant u)" using udp by auto
  then obtain d where d: "rva_udp_grant b64encode wall (Some u) = Some d" by (simp add: rva_udp_grant_def Let_def)
  show thesis by (rule grant_read [OF u(2) d], rule that [of "Some _" d]) (use True u d in auto)
next
  case False
  then show thesis using that [of None] two by blast
qed

text \<open>
  C11. A session opens. The \<open>session.open\<close> that a valid client configuration builds is read by the worker's session as that
  request; if the two sides have a profile in common (and the worker can grant UDP where it allows it), the worker
  answers with one message, which the endpoint decodes and parses. Both sides then agree on the names of the
  session, on the media identity and on the selected profile, which both of them offered; under UDP the endpoint holds
  the keys of the worker's grant; under WSS the two sides are in step.
\<close>

theorem session_handshake:
  assumes c: "config_valid c" and r: "is_identifier request_id"
    and b: "binding_init (cf_device_id c) sid epoch mid mepoch allowed grant timeout = Inr (Some b)"
    and common: "set (cf_supported_profiles c) \<inter> set allowed \<noteq> {}"
    and udp: "UDP_PROFILE \<in> set allowed \<Longrightarrow> grant = rva_udp_grant b64encode wall (Some u) \<and> grant_wf (us_grant u)"
  shows "\<exists>m t eff b1 t' m' opened. build_session_open c request_id = Inr m \<and> client_encode_control m = Inr t \<and>
    receive_control t b = (Inr eff, b1) \<and> ce_outbound eff = [t'] \<and> client_decode_control t' = Inr m' \<and>
    parse_session_opened m' request_id = Inr opened \<and> same_session b1 (session_state_init opened) \<and>
    sd_selected_profile opened \<in> set (cf_supported_profiles c) \<inter> set allowed \<and>
    (sd_selected_profile opened = UDP_PROFILE \<longrightarrow> (\<exists>cg. sd_udp_grant opened = Some cg \<and> cg_uplink_key cg = ug_uplink_key (us_grant u) \<and>
       cg_uplink_salt cg = ug_uplink_salt (us_grant u) \<and> cg_downlink_key cg = ug_downlink_key (us_grant u) \<and>
       cg_downlink_salt cg = ug_downlink_salt (us_grant u))) \<and>
    (sd_selected_profile opened = WSS_PROFILE \<longrightarrow> in_step b1 (desktop_app_init cfg opened))"
proof -
  note B = binding_init_Inr [OF b]
  obtain m t where m: "build_session_open c request_id = Inr m" "client_encode_control m = Inr t" "decode_control t = Inr m"
    "jget m ''type'' = JStr ''session.open''" "parse_session_open_object m = Inr (opened_request c request_id)"
    by (rule open_read [OF c r])
  define offered where "offered = filter (\<lambda>p. p \<in> set allowed) (cf_supported_profiles c)"
  define selected where "selected = select_profile offered (cf_preferred_profile c)"
  define b1 where "b1 = b\<lparr>rb_opened := True, rb_selected_media_profile := Some selected\<rparr>"
  have sel: "selected \<in> set (cf_supported_profiles c) \<inter> set allowed"
    using select_profile_offered [OF common] by (simp add: selected_def offered_def)
  have off: "offered \<noteq> []" using common by (auto simp: offered_def filter_empty_conv)
  have two: "selected = WSS_PROFILE \<or> selected = UDP_PROFILE"
    using sel c by (auto simp: config_valid_def WSS_PROFILE_def UDP_PROFILE_def)
  have u: "selected = UDP_PROFILE \<Longrightarrow> rb_udp_grant b = rva_udp_grant b64encode wall (Some u) \<and> grant_wf (us_grant u)" using udp sel B(7) by auto
  obtain gr d cg where gr: "selected = WSS_PROFILE \<and> gr = None \<or> selected = UDP_PROFILE \<and> rb_udp_grant b = Some d \<and> gr = Some cg \<and>
      parse_udp_grant (JObj d) = Inr (Some cg) \<and> json_len (JObj d) \<le> 16000 \<and> \<not> has_surrogate (JObj d) \<and> json_unique (JObj d)"
    and keys: "selected = UDP_PROFILE \<longrightarrow> gr = Some cg \<and> cg_uplink_key cg = ug_uplink_key (us_grant u) \<and>
       cg_uplink_salt cg = ug_uplink_salt (us_grant u) \<and> cg_downlink_key cg = ug_downlink_key (us_grant u) \<and>
       cg_downlink_salt cg = ug_downlink_salt (us_grant u)"
    by (rule selected_grant [OF two u])
  note O = opened_read [OF B(9,10) [folded B(2,3)] _ _ _ r _ gr, of "opened_request c request_id", unfolded B(4,5), OF B(11-13)]
  obtain t' where t': "encode_control (opened_message b (opened_request c request_id) selected) = Inr t'"
    "client_decode_control t' = Inr (opened_message b (opened_request c request_id) selected)"
    using O(1) by (auto simp: opened_request_def)
  have "open_session m b = (Inr t', b1)"
    using B(1,6,8,17) m(5) off gr t'(1)
    by (auto simp: open_session_def opened_request_def offered_def [symmetric] selected_def [symmetric] b1_def WSS_PROFILE_def UDP_PROFILE_def)
  then have rc: "receive_control t b = (Inr (no_effect\<lparr>ce_outbound := [t']\<rparr>), b1)" using m by (simp add: receive_control_def)
  have "binding_inv b1" using receive_control_inv [OF binding_init_inv [OF b], of t] rc by (simp add: keeps_def)
  then have "selected = WSS_PROFILE \<longrightarrow> in_step b1 (desktop_app_init cfg (opened_of b request_id selected gr))"
    using opened_in_step [OF b _ _, of b1 cfg request_id] gr by (auto simp: b1_def WSS_PROFILE_def UDP_PROFILE_def)
  moreover have "same_session b1 (session_state_init (opened_of b request_id selected gr))"
    by (simp add: same_session_def b1_def session_state_init_def opened_of_def)
  ultimately show ?thesis
    using m(1,2) rc t'(2) O(2) sel keys by (intro exI conjI) (auto simp: opened_request_def opened_of_def)
qed

section \<open>A handshake\<close>

definition handshake_config :: client_config where
  "handshake_config = \<lparr>cf_device_id = ''dev'', cf_supported_profiles = [UDP_PROFILE, WSS_PROFILE], cf_preferred_profile = UDP_PROFILE,
     cf_capabilities = [(''aec'', True), (''vad'', True), (''wake_word'', False), (''display'', True), (''touch'', False)]\<rparr>"

definition handshake_udp :: udp_session where
  "handshake_udp = udp_session_init (udp_demo_grant\<lparr>ug_uplink_key := replicate 16 1, ug_uplink_salt := replicate 8 2,
     ug_downlink_key := replicate 16 3, ug_downlink_salt := replicate 8 4\<rparr>) 0"

theorem session_handshake_witness:
  "\<exists>b m t eff b1 t' m' opened.
    binding_init ''dev'' ''s'' ''e'' (replicate 8 7) 1 SUPPORTED_PROFILES (rva_udp_grant b64encode 50 (Some handshake_udp)) 1 = Inr (Some b) \<and>
    build_session_open handshake_config ''q'' = Inr m \<and> client_encode_control m = Inr t \<and> receive_control t b = (Inr eff, b1) \<and>
    ce_outbound eff = [t'] \<and> client_decode_control t' = Inr m' \<and> parse_session_opened m' ''q'' = Inr opened \<and> same_session b1 (session_state_init opened)"
proof -
  have c: "config_valid handshake_config" by code_simp
  have r: "is_identifier ''q''" by code_simp
  have common: "set (cf_supported_profiles handshake_config) \<inter> set SUPPORTED_PROFILES \<noteq> {}" by (simp add: handshake_config_def SUPPORTED_PROFILES_def)
  have wf: "grant_wf (us_grant handshake_udp)" by (simp add: handshake_udp_def udp_session_init_def udp_demo_grant_def grant_wf_def)
  obtain b where b: "binding_init (cf_device_id handshake_config) ''s'' ''e'' (replicate 8 7) 1 SUPPORTED_PROFILES
      (rva_udp_grant b64encode 50 (Some handshake_udp)) 1 = Inr (Some b)"
  proof -
    have "is_identifier ''dev''" "is_identifier ''s''" "is_identifier ''e''" by code_simp+
    then show thesis
      using that by (auto simp: binding_init_def handshake_config_def require_identifier_def require_uint32_def validate_uint32_def check_that_def
          voice_session_init_def uint32_max_def)
  qed
  have b': "binding_init ''dev'' ''s'' ''e'' (replicate 8 7) 1 SUPPORTED_PROFILES (rva_udp_grant b64encode 50 (Some handshake_udp)) 1 = Inr (Some b)"
    using b by (simp add: handshake_config_def)
  have "rva_udp_grant b64encode 50 (Some handshake_udp) = rva_udp_grant b64encode 50 (Some handshake_udp) \<and> grant_wf (us_grant handshake_udp)"
    using wf by simp
  from session_handshake [OF c r b common this] b' show ?thesis by blast
qed

end
