(* ===== verification/Crossings.thy ===== *)
theory Crossings
  imports Handshake
begin

text \<open>
  The endpoint and the worker together: the run in which every message arrives before the next operation, and the two
  exchanges in which the two programs disagree about a playback.
\<close>

section \<open>Facts the worker refuses\<close>

lemma ended_refused:
  assumes b: "ensure_open b = Inr ()" "known_session s (rb_session_id b) (rb_session_epoch b)" "1 \<le> g" "g \<le> uint32_max"
    and r: "dict_get (rc_records (rb_responses b)) (i, g) = Some r" "is_identifier i" "rc_playback (rb_responses b) = Some r"
    and x: "rec_at (rb_responses b) r = x" "\<not> rr_playback_ended x" "expected_outcomes x = Some ocs" "oc \<notin> set ocs"
    and fact: "countable played last_sequence" "oc = PCompleted \<longrightarrow> last_sequence \<noteq> None"
  shows "receive_control (ended_fact (i, g) oc played last_sequence s) b = (Inl (RvaBindingError ''invalid_playback_outcome''), b)"
proof -
  obtain t where t: "client_encode_control (client_fact ''playback.ended'' (i, g) ([(''outcome'', JStr (outcome_name oc)), (''played_samples'', JInt played)] @
      (case last_sequence of None \<Rightarrow> [] | Some n \<Rightarrow> [(''last_media_sequence'', JInt n)])) s) = Inr t"
    "receive_control t b = bind_op (with_responses (response_playback_ended i g oc played last_sequence) b)
      (\<lambda>fact b. (Inr (no_effect\<lparr>ce_playback_ended := Some fact\<rparr>), b))"
    using ended_read [OF b(1) b(2) r(2) b(3,4) _ _ _ fact(2) refl] fact(1) by blast
  then have "t = ended_fact (i, g) oc played last_sequence s"
    by (auto simp: client_encode_control_def ended_fact_def Let_def split: option.splits if_splits)
  moreover have "response_playback_ended i g oc played last_sequence (rb_responses b) = (Inl (RvaBindingError ''invalid_playback_outcome''), rb_responses b)"
    using r x by (simp add: response_playback_ended_def find_record_def Let_def)
  ultimately show ?thesis using t(2) by (simp add: with_responses_def)
qed

text \<open>A stop that the worker issues after it ended the response.\<close>

lemma late_stop_worker:
  assumes R: "in_step b a" and act: "rc_active (rb_responses b) = Some r" and x: "x = rec_at (rb_responses b) r"
    and w: "worker_step (WCancel cause) (completed r x b) = (Inr ds, b2)"
  obtains t where "cause \<in> set STOP_CAUSES" "ds = [DControl t]" "encode_control (stop_message b x cause) = Inr t" "ensure_open b2 = Inr ()"
    "dict_get (rc_records (rb_responses b2)) (record_key x) = Some r" "rc_playback (rb_responses b2) = Some r"
    "rec_at (rb_responses b2) r = x\<lparr>rr_outcome := Some RCompleted, rr_stop_sent := True\<rparr>"
    "rb_session_id b2 = rb_session_id b" "rb_session_epoch b2 = rb_session_epoch b"
proof -
  note W = in_step_worker [OF R] and P = playing_facts [OF R act, folded x] and F = completed_worker [OF R act x]
  let ?b1 = "completed r x b" and ?c = "rb_responses (completed r x b)"
  have b1: "ensure_open ?b1 = Inr ()" "current_playback ?b1 = Some r" "rb_session_id ?b1 = rb_session_id b" "rb_session_epoch ?b1 = rb_session_epoch b"
    "r < length (rc_heap ?c)"
    using F(3) P(2) W(9,11) by (simp_all add: completed_def ensure_open_iff binding_closed_def coordinator_closed_def current_playback_def)
  define x2 where "x2 = x\<lparr>rr_outcome := Some RCompleted, rr_stop_sent := True\<rparr>"
  define c1 where "c1 = set_rec r x2 (?c\<lparr>rc_state := (rc_state ?c)\<lparr>vs_generation := worker_generation b + 1, vs_active_playback := None\<rparr>\<rparr>)"
  define b' where "b' = ?b1\<lparr>rb_responses := remember_terminal r c1\<rparr>"
  have x2: "rec_at c1 r = x2" "record_key x2 = record_key x" "rr_response_id x2 = rr_response_id x" "rr_target x2 = rr_target x"
    "rr_outcome x2 = Some RCompleted" "\<not> rr_playback_ended x2"
    using b1(5) P(12) by (simp_all add: c1_def x2_def record_key_def)
  have "response_fence r oc err ?c = (Inr (worker_generation b + 1), remember_terminal r c1)" for oc err
    using P(11,13) W(9) by (simp add: response_fence_def F cancel_playback_def Let_def worker_generation_def c1_def x2_def)
  then have f: "with_responses (response_fence r oc err) ?b1 = (Inr (worker_generation b + 1), b')" for oc err
    by (simp add: with_responses_def b'_def)
  have rc: "rec_at (rb_responses b') r = x2" using x2(1) by (simp add: b'_def)
  have "stop_event b' x2 (worker_generation b + 1) cause = encode_control (stop_message b x cause)"
    using P(7) x2(3,4) b1 by (simp add: stop_event_def event_message b'_def stop_message_def target_of_def)
  then obtain t where t: "cause \<in> set STOP_CAUSES" "ds = [DControl t]" "encode_control (stop_message b x cause) = Inr t" "b2 = b'"
    using w b1(1,2) f rc x2(5) by (auto simp: worker_step_def cancel_active_response_def bind_op_Inr_iff Let_def no_effect_def split: if_splits)
  have "dict_get (rc_records c1) (record_key x) = Some r" using F(1) by (simp add: c1_def)
  then have "dict_get (rc_records (rb_responses b')) (record_key x) = Some r"
    using remember_terminal_keeps x2(1,6) by (simp add: b'_def)
  moreover have "rc_playback (rb_responses b') = Some r" using F(3) by (simp add: b'_def c1_def)
  moreover have "ensure_open b' = Inr ()" "rb_session_id b' = rb_session_id b" "rb_session_epoch b' = rb_session_epoch b"
    using W(9,11) F(4) b1 by (simp_all add: b'_def completed_def c1_def ensure_open_iff binding_closed_def coordinator_closed_def)
  ultimately show thesis using that t rc x2_def by blast
qed

lemma ended_playback_stopped_late:
  assumes s: "\<not> ss_closed (da_state a)" "known_session (da_state a) (rb_session_id b) (rb_session_epoch b)"
    "require_known (record_key x) (da_state a) = Inr p" "cp_ended p"
    and x: "record_key x = (rr_response_id x, worker_generation b)" "is_identifier (rr_response_id x)" "1 \<le> worker_generation b"
      "worker_generation b < uint32_max" "cause \<in> set STOP_CAUSES"
    and dec: "client_decode_control t = Inr (stop_message b x cause)"
  shows "endpoint_step sink ro now (DControl t) a = (Inl (FromClient (ProtocolError ''playback_already_ended'')), a)"
proof -
  have "1 \<le> worker_generation b + 1" "worker_generation b + 1 \<le> uint32_max" "worker_generation b \<le> uint32_max" using x by simp_all
  then have "accept_control (stop_message b x cause) (da_state a) = (Inl (ProtocolError ''playback_already_ended''), da_state a)"
    using stop_read [OF s(1) s(2) x(2) x(3) _ _ _ x(5) stop_message_def] s(3,4) x(1) by (simp add: accept_stop_def)
  then show ?thesis using dec by (simp add: endpoint_step_def from_wss_control_def on_state_def receiver_round_def)
qed

section \<open>The two programs together\<close>


text \<open>
  C13. A stop that crosses the natural end of a playback is an error on both sides. The worker ends a response; the
  endpoint has rendered it all and reports the playback as completed; before that fact arrives the worker
  stops the playback. The endpoint then refuses the stop as one for a playback that has ended, and the worker refuses
  the fact, since after a stop it accepts no outcome but \<open>stopped\<close>.
\<close>

theorem completion_stop_race:
  assumes R: "in_step b a" and g: "worker_generation b < uint32_max"
    and we: "worker_step (WEnd r) b = (Inr ds, b1)" and cause: "cause \<in> set STOP_CAUSES"
  shows "\<exists>a1 fact stop b2. deliver_down sink ro now ds a = (Inr (), a1) \<and> da_sent a1 = da_sent a @ [fact] \<and>
    worker_step (WCancel cause) b1 = (Inr [DControl stop], b2) \<and>
    fst (endpoint_step sink ro later (DControl stop) a1) = Inl (FromClient (ProtocolError ''playback_already_ended'')) \<and>
    fst (receive_control fact b2) = Inl (RvaBindingError ''invalid_playback_outcome'')"
proof -
  note W = in_step_worker [OF R]
  define x where "x = rec_at (rb_responses b) r"
  let ?g = "worker_generation b"
  obtain a1 n and q :: app_playback where down: "deliver_down sink ro now ds a = (Inr (), a1)" and act: "rc_active (rb_responses b) = Some r"
    and n: "rr_last_media_sequence x = Some n" and b1: "b1 = completed r x b" "binding_inv b1" "ensure_open b1 = Inr ()"
    and q: "countable (ap_played_samples q) (Some n)"
    and a1: "da_state a1 = bury (completed_playback x n) (record_key x) (completed_state b x n (da_state a))"
      "da_sent a1 = da_sent a @ [ended_fact (record_key x) PCompleted (ap_played_samples q) (Some n) (completed_state b x n (da_state a))]"
    by (rule end_delivered [OF R x_def we, of sink ro now])
  note P = playing_facts [OF R act, folded x_def] and F = completed_worker [OF R act x_def, folded b1(1)]
  have "current_playback b1 = Some r" "\<not> rr_stop_sent (rec_at (rb_responses b1) r)" "vs_generation (rc_state (rb_responses b1)) \<le> uint32_max"
    using F P(9,11) by (simp_all add: current_playback_def worker_generation_def)
  then obtain ds' b2 where wc: "worker_step (WCancel cause) b1 = (Inr ds', b2)"
    using cancel_active_response_ok [OF b1(2,3) _ _ cause] by (fastforce simp: worker_step_def)
  obtain t where t: "cause \<in> set STOP_CAUSES" "ds' = [DControl t]" "encode_control (stop_message b x cause) = Inr t" and b2: "ensure_open b2 = Inr ()"
    "dict_get (rc_records (rb_responses b2)) (record_key x) = Some r" "rc_playback (rb_responses b2) = Some r"
    "rec_at (rb_responses b2) r = x\<lparr>rr_outcome := Some RCompleted, rr_stop_sent := True\<rparr>"
    "rb_session_id b2 = rb_session_id b" "rb_session_epoch b2 = rb_session_epoch b"
    by (rule late_stop_worker [OF R act x_def wc [unfolded b1(1)]])
  have dec: "client_decode_control t = Inr (stop_message b x cause)"
    by (rule client_reads [OF t(3)]) (simp add: stop_message_def session_message_def)
  define s where "s = completed_state b x n (da_state a)"
  have so: "ss_opened s = ss_opened (da_state a)" "\<not> ss_closed s" using W(6) by (simp_all add: s_def completed_state_def)
  have cur: "ss_current_playback s = Some (rr_response_id x, ?g)" "cp_target (completed_playback x n) = (rr_response_id x, ?g)"
    using P(4) by (simp_all add: s_def completed_state_def completed_playback_def endpoint_follows_def P(14) followed_def new_playback_def Let_def)
  note B = bury_fields [OF cur, folded P(14)]
  have "endpoint_step sink ro later (DControl t) a1 = (Inl (FromClient (ProtocolError ''playback_already_ended'')), a1)"
    by (rule ended_playback_stopped_late [OF _ _ _ _ P(14) P(6) P(8) g t(1) dec, where p = "(completed_playback x n)\<lparr>cp_ended := True\<rparr>"])
      (use so B W(5) in \<open>simp_all add: a1(1) s_def [symmetric]\<close>)
  moreover have "receive_control (ended_fact (record_key x) PCompleted (ap_played_samples q) (Some n) s) b2 =
      (Inl (RvaBindingError ''invalid_playback_outcome''), b2)"
    unfolding P(14)
    by (rule ended_refused [OF b2(1) _ P(8,9) b2(2) [unfolded P(14)] P(6) b2(3) b2(4), where ocs = "[PStopped]"])
      (use so W(5) P(12) q b2(5,6) in \<open>simp_all add: expected_outcomes_def\<close>)
  ultimately show ?thesis using down a1(2) wc t(2) by (simp add: s_def)
qed

text \<open>
  C14. A response stopped as failed ends in an error. Told to stop with the cause \<open>response_failed\<close>, the endpoint
  reports the outcome \<open>stopped\<close> as after any other stop; the worker, which recorded the response as failed,
  accepts only the outcome \<open>failed\<close>, and refuses the fact.
\<close>

theorem failed_stop_refused:
  assumes R: "in_step b a" and cur: "current_playback b = Some r" and g: "worker_generation b < uint32_max"
  shows "joint_step sink ro now (WCancel ''response_failed'') (b, a) = Inl (FactRefused (RvaBindingError ''invalid_playback_outcome''))"
proof -
  note W = in_step_worker [OF R]
  have act: "rc_active (rb_responses b) = Some r" using R cur by (simp add: in_step_def worker_plays_def Let_def)
  define x where "x = rec_at (rb_responses b) r"
  note P = playing_facts [OF R act, folded x_def] and F = fenced_worker [OF R act x_def, of True]
  define s where "s = stopped_state b x ''response_failed'' (da_state a)"
  obtain ds b1 where w: "worker_step (WCancel ''response_failed'') b = (Inr ds, b1)"
    using cancel_active_response_ok [OF W(1,2) cur, of "''response_failed''"] P(9,11)
    by (fastforce simp: worker_step_def x_def worker_generation_def STOP_CAUSES_def)
  obtain a1 and q :: app_playback where down: "deliver_down sink ro now ds a = (Inr (), a1)"
    and b1: "b1 = fenced r (stopped_record True x) b" "ensure_open b1 = Inr ()"
    and q: "countable (ap_played_samples q) (rr_last_media_sequence x)"
    and a1: "da_sent a1 = da_sent a @ [ended_fact (record_key x) PStopped (ap_played_samples q) (rr_last_media_sequence x) s]"
    by (rule stop_delivered [OF R act g x_def w, of sink ro now]) (auto simp: s_def)
  have "receive_control (ended_fact (record_key x) PStopped (ap_played_samples q) (rr_last_media_sequence x) s) b1 =
      (Inl (RvaBindingError ''invalid_playback_outcome''), b1)"
    unfolding P(14)
    by (rule ended_refused [OF b1(2) _ P(8,9) F(1) [folded b1(1), unfolded P(14)] P(6) F(3) [folded b1(1)] F(2) [folded b1(1)], where ocs = "[PFailed]"])
      (use W(5) P(12) q in \<open>simp_all add: b1(1) fenced_def stopped_record_def expected_outcomes_def s_def stopped_state_def\<close>)
  then show ?thesis using w down by (simp add: joint_step_def a1)
qed

section \<open>A session in use\<close>

text \<open>A worker and an endpoint that have opened a session, and the same two when the first packet of a response has been played.\<close>

definition cross_binding :: binding where
  "cross_binding = \<lparr>rb_expected_device_id = ''dev'', rb_session_id = ''s'', rb_session_epoch = ''e'', rb_media_id = replicate 8 7, rb_media_epoch = 1,
     rb_allowed_profiles = [WSS_PROFILE], rb_udp_grant = None, rb_responses = coordinator_init
       \<lparr>vs_connection_epoch = ''e'', vs_close_ports = [''audio_port'', ''agent_port''], vs_close_stage_timeout = 1, vs_generation = 0,
        vs_active_playback = None, vs_closed = False, vs_close_task = None\<rparr>,
     rb_opened = False, rb_selected_media_profile = None, rb_next_uplink_sequence = 0, rb_next_downlink_sequence = 0,
     rb_next_response_text_sequence = 0, rb_active_utterance_id = None, rb_next_transcript_sequence = 0, rb_last_finalized_utterance = None,
     rb_cancel_requests = [], rb_cancel_request_order = []\<rparr>"

definition cross_opened :: binding where
  "cross_opened = cross_binding\<lparr>rb_opened := True, rb_selected_media_profile := Some WSS_PROFILE\<rparr>"

definition cross_config :: app_config where
  "cross_config = \<lparr>ac_media_max_age_seconds = 1, ac_control_timeout_seconds = 1\<rparr>"

definition cross_app :: desktop_app where
  "cross_app = desktop_app_init cross_config (opened_of cross_binding ''q'' WSS_PROFILE None)"

definition cross_playing :: binding where
  "cross_playing = snd (with_responses (response_playback_started ''r'' 1 0)
     (snd (reserve_downlink_media 0 (snd (binding_response_begin ''r'' 0 cross_opened)))))"

definition cross_playing_app :: desktop_app where
  "cross_playing_app = cross_app\<lparr>da_sink_owner := Some (''r'', 1),
     da_playbacks := [(1, \<lparr>ap_target = (''r'', 1), ap_started = True, ap_ended = False, ap_played_samples = 960, ap_last_media_sequence = Some 0,
       ap_last_media_timestamp = Some 0, ap_final_media_sequence = None, ap_completion_deadline_at = None\<rparr>)],
     da_state := (da_state cross_app)\<lparr>ss_highest_generation := 1, ss_current_playback := Some (''r'', 1),
       ss_playbacks := [(1, (new_playback (''r'', 1))\<lparr>cp_started := True, cp_first_media_sequence := Some 0, cp_last_media_sequence := Some 0\<rparr>)],
       ss_response_text_sequence := [(1, 0)], ss_last_media_timestamp := [(1, 0)], ss_next_downlink_sequence := 1\<rparr>\<rparr>"

lemma cross_init: "binding_init ''dev'' ''s'' ''e'' (replicate 8 7) 1 [WSS_PROFILE] None 1 = Inr (Some cross_binding)"
  by code_simp

lemma cross_in_step: "in_step cross_opened cross_app"
proof -
  have "binding_inv cross_opened"
    using binding_init_inv [OF cross_init] by (simp add: binding_inv_def cross_opened_def cross_binding_def WSS_PROFILE_def UDP_PROFILE_def SUPPORTED_PROFILES_def)
  then show ?thesis using opened_in_step [OF cross_init _ cross_opened_def, of cross_config "''q''"] by (simp add: cross_app_def)
qed

lemma cross_playing_eq:
  "cross_playing = cross_opened\<lparr>rb_next_downlink_sequence := 1, rb_responses :=
     \<lparr>rc_state = (rc_state (rb_responses cross_opened))\<lparr>vs_generation := 1, vs_active_playback := Some \<lparr>pr_connection_epoch = ''e'', pr_generation = 1\<rparr>\<rparr>,
      rc_heap = [\<lparr>rr_response_id = ''r'', rr_target = \<lparr>pr_connection_epoch = ''e'', pr_generation = 1\<rparr>, rr_producer_epoch = 0,
        rr_first_media_sequence = Some 0, rr_last_media_sequence = Some 0, rr_outcome = None, rr_error_code = None, rr_stop_sent = False,
        rr_playback_started = True, rr_playback_ended = False\<rparr>],
      rc_active = Some 0, rc_playback = Some 0, rc_records = [((''r'', 1), 0)], rc_terminal_order = []\<rparr>\<rparr>"
  by code_simp

lemma cross_playing_in_step: "in_step cross_playing cross_playing_app"
proof -
  have "binding_inv cross_opened" using in_step_worker(1) [OF cross_in_step] .
  then have "binding_inv (snd (binding_response_begin ''r'' 0 cross_opened))" using binding_response_begin_inv by (auto simp: keeps_def)
  then have "binding_inv (snd (reserve_downlink_media 0 (snd (binding_response_begin ''r'' 0 cross_opened))))" using reserve_downlink_media_inv by (auto simp: keeps_def)
  then have "binding_inv cross_playing" unfolding cross_playing_def using with_responses_inv [OF _ response_playback_started_ok] by (auto simp: keeps_def)
  moreover have "ensure_open cross_playing = Inr ()"
    by (simp add: cross_playing_eq cross_opened_def cross_binding_def ensure_open_iff binding_closed_def coordinator_closed_def coordinator_init_def)
  ultimately show ?thesis
    by (simp add: in_step_def cross_playing_eq cross_playing_app_def current_playback_def worker_plays_def endpoint_follows_def app_follows_def
        rec_at_def record_key_def worker_generation_def same_session_def app_get_def uint32_max_def Let_def)
      (simp add: cross_opened_def cross_binding_def cross_app_def desktop_app_init_def session_state_init_def opened_of_def WSS_PROFILE_def)
qed

lemma joint_step_refused: "joint_step sink ro now op (b, a) = Inl (WorkerRefused e) \<Longrightarrow> fst (worker_step op b) = Inl e"
  by (auto simp: joint_step_def split: prod.splits sum.splits)

lemma cross_end_accepted: "case fst (worker_step (WEnd 0) cross_playing) of Inl _ \<Rightarrow> False | Inr _ \<Rightarrow> True"
  unfolding cross_playing_eq by code_simp


lemma cross_playing_fields: "worker_generation cross_playing < uint32_max" "current_playback cross_playing = Some 0"
  by (simp_all add: cross_playing_eq worker_generation_def current_playback_def uint32_max_def)

theorem completion_stop_race_witness:
  "\<exists>ds b1 a1 fact stop b2. worker_step (WEnd 0) cross_playing = (Inr ds, b1) \<and>
    deliver_down (\<lambda>_ _. Some 960) None 0 ds cross_playing_app = (Inr (), a1) \<and> da_sent a1 = [fact] \<and>
    worker_step (WCancel ''recognized_interrupt'') b1 = (Inr [DControl stop], b2) \<and>
    fst (endpoint_step (\<lambda>_ _. Some 960) None 1 (DControl stop) a1) = Inl (FromClient (ProtocolError ''playback_already_ended'')) \<and>
    fst (receive_control fact b2) = Inl (RvaBindingError ''invalid_playback_outcome'')"
proof -
  obtain ds b1 where e: "worker_step (WEnd 0) cross_playing = (Inr ds, b1)"
    using cross_end_accepted by (auto split: sum.splits dest: sym) (metis prod.collapse)
  have "da_sent cross_playing_app = []" by (simp add: cross_playing_app_def cross_app_def desktop_app_init_def)
  then show ?thesis
    using completion_stop_race [OF cross_playing_in_step cross_playing_fields(1) e, of "''recognized_interrupt''" "\<lambda>_ _. Some 960" None 0 1] e
    by (fastforce simp: STOP_CAUSES_def)
qed

theorem failed_stop_refused_witness:
  "joint_step (\<lambda>_ _. Some 960) None 0 (WCancel ''response_failed'') (cross_playing, cross_playing_app) =
    Inl (FactRefused (RvaBindingError ''invalid_playback_outcome''))"
  by (rule failed_stop_refused [OF cross_playing_in_step cross_playing_fields(2,1)])

end
