(* ===== verification/Client_Udp.thy ===== *)
theory Client_Udp
  imports Client_State
begin

text \<open>
  The desktop client's UDP media transport (\<open>rva_desktop/transport/udp.py\<close>): opening a path by a probe, sealing the uplink,
  admitting, reordering and releasing the downlink. An operation that awaits is split at its awaits: \<open>receive_start\<close>,
  \<open>receive_timeout\<close> and \<open>receive_datagram\<close> are the sections of \<open>receive_audio\<close>, from its entry or from the end of an await to
  the next await, a return or an exception. A section reads each clock once. The media validator is the bound
  method of the session state; a section gets its answers as an argument. The port is the list of the datagrams it was given.
\<close>

section \<open>State\<close>

datatype udp_client_error =
    ClientRaised client_error
  | TransportError string
  | FreshReopenRequired

type_synonym media_validator = "(media_frame \<Rightarrow> client_error + bool) option"

record client_udp =
  cu_max_media_age :: real
  cu_port :: "bytes list option"
  cu_grant :: "client_udp_grant option"
  cu_media_id :: bytes
  cu_media_epoch :: int
  cu_uplink :: "udp_cipher option"
  cu_downlink :: "udp_cipher option"
  cu_replay :: client_window
  cu_next_uplink :: int
  cu_expected_downlink :: int
  cu_reorder :: "(int, media_frame) dict"
  cu_reorder_deadline_at :: "real option"
  cu_non_audio_sequences :: "int list"
  cu_ready :: "media_frame list"
  cu_pending_control :: "(int, media_frame \<times> real) dict"
  cu_refresh_at :: real
  cu_fresh_generation :: "int option"
  cu_fresh_timestamp :: int
  cu_fresh_arrival :: real

type_synonym 'a udp_op = "(udp_client_error, 'a, client_udp) op_result"

definition client_udp_init :: "real \<Rightarrow> client_udp" where
  "client_udp_init max_media_age_seconds = \<lparr>cu_max_media_age = max_media_age_seconds, cu_port = None, cu_grant = None, cu_media_id = [], cu_media_epoch = 0, cu_uplink = None, cu_downlink = None,
     cu_replay = client_window_init, cu_next_uplink = 0, cu_expected_downlink = 1, cu_reorder = [], cu_reorder_deadline_at = None,
     cu_non_audio_sequences = [], cu_ready = [], cu_pending_control = [], cu_refresh_at = 0, cu_fresh_generation = None,
     cu_fresh_timestamp = 0, cu_fresh_arrival = 0\<rparr>"

section \<open>Releasing the downlink in order\<close>

definition pending_sequences :: "client_udp \<Rightarrow> int list" where
  "pending_sequences u = dict_keys (cu_reorder u) @ cu_non_audio_sequences u"

lemma length_removeAll_mem: "x \<in> set xs \<Longrightarrow> length (removeAll x xs) < length xs"
  by (rule length_removeAll_less)

function release_contiguous :: "client_udp \<Rightarrow> client_udp" where
  "release_contiguous u =
    (let e = cu_expected_downlink u
     in if e \<in> set (cu_non_audio_sequences u)
        then release_contiguous (u\<lparr>cu_non_audio_sequences := removeAll e (cu_non_audio_sequences u), cu_expected_downlink := e + 1\<rparr>)
        else (case dict_get (cu_reorder u) e of
            Some f \<Rightarrow> release_contiguous (u\<lparr>cu_reorder := dict_pop e (cu_reorder u), cu_ready := cu_ready u @ [f], cu_expected_downlink := e + 1\<rparr>)
          | None \<Rightarrow> if cu_reorder u = [] \<and> cu_non_audio_sequences u = [] then u\<lparr>cu_reorder_deadline_at := None\<rparr> else u))"
  by pat_completeness auto
termination
  by (relation "measure (\<lambda>u. length (cu_reorder u) + length (cu_non_audio_sequences u))")
    (auto simp: length_removeAll_mem intro: length_dict_pop_less)

declare release_contiguous.simps [simp del]

definition release_gap :: "client_udp \<Rightarrow> client_udp" where
  "release_gap u =
    (if pending_sequences u = [] then u
     else release_contiguous (u\<lparr>cu_expected_downlink := Min (set (pending_sequences u))\<rparr>))"

definition arm_reorder_deadline :: "real \<Rightarrow> client_udp \<Rightarrow> client_udp" where
  "arm_reorder_deadline now u =
    (if pending_sequences u \<noteq> [] \<and> Min (set (pending_sequences u)) > cu_expected_downlink u \<and> cu_reorder_deadline_at u = None
     then u\<lparr>cu_reorder_deadline_at := Some (now + cu_max_media_age u)\<rparr> else u)"

definition release_full :: "client_udp \<Rightarrow> client_udp" where
  "release_full u = (if length (cu_reorder u) + length (cu_non_audio_sequences u) \<ge> 4 then release_gap u else u)"

definition check_freshness :: "real \<Rightarrow> media_frame \<Rightarrow> client_udp \<Rightarrow> unit udp_op" where
  "check_freshness now f u =
    (if cu_fresh_generation u \<noteq> Some (mf_generation f)
     then (Inr (), u\<lparr>cu_fresh_generation := Some (mf_generation f), cu_fresh_timestamp := mf_timestamp f, cu_fresh_arrival := now\<rparr>)
     else
       let media_elapsed = of_int (mask32 (mf_timestamp f - cu_fresh_timestamp u)) / 16000;
           age = now - cu_fresh_arrival u - media_elapsed
       in if age > cu_max_media_age u then (Inl FreshReopenRequired, u) else (Inr (), u))"

definition cu_buffer :: "real \<Rightarrow> media_frame \<Rightarrow> client_udp \<Rightarrow> unit udp_op" where
  "cu_buffer now f u = bind_op (check_freshness now f u) (\<lambda>_ u.
     if mf_sequence f < cu_expected_downlink u then (Inr (), u)
     else (Inr (), release_full (arm_reorder_deadline now
       (release_contiguous (u\<lparr>cu_reorder := dict_set (mf_sequence f) f (cu_reorder u)\<rparr>)))))"

definition buffer_non_audio :: "real \<Rightarrow> media_frame \<Rightarrow> client_udp \<Rightarrow> client_udp" where
  "buffer_non_audio now f u =
    (if mf_sequence f < cu_expected_downlink u then u
     else release_full (arm_reorder_deadline now
       (release_contiguous (u\<lparr>cu_non_audio_sequences := List.insert (mf_sequence f) (cu_non_audio_sequences u)\<rparr>))))"

section \<open>Deadlines\<close>

definition earliest_pending :: "client_udp \<Rightarrow> real" where
  "earliest_pending u = Min (snd ` set (dict_values (cu_pending_control u)))"

definition expire_receive_deadlines :: "real \<Rightarrow> client_udp \<Rightarrow> unit udp_op" where
  "expire_receive_deadlines now u =
    (if cu_pending_control u \<noteq> [] \<and> now \<ge> earliest_pending u + cu_max_media_age u then (Inl FreshReopenRequired, u)
     else case cu_reorder_deadline_at u of
         None \<Rightarrow> (Inr (), u)
       | Some d \<Rightarrow> (Inr (), if now \<ge> d then release_gap u else u))"

definition refresh_remaining :: "real \<Rightarrow> real \<Rightarrow> client_udp \<Rightarrow> real" where
  "refresh_remaining now wall u = (case cu_grant u of
      None \<Rightarrow> 0
    | Some g \<Rightarrow> min (cu_refresh_at u - now) (of_int (cg_expires_at_ms g) / 1000 - wall))"

definition refresh_due :: "real \<Rightarrow> real \<Rightarrow> client_udp \<Rightarrow> bool" where
  "refresh_due now wall u \<longleftrightarrow> cu_grant u \<noteq> None \<and> refresh_remaining now wall u \<le> 0"

definition ensure_fresh :: "real \<Rightarrow> real \<Rightarrow> client_udp \<Rightarrow> udp_client_error + unit" where
  "ensure_fresh now wall u =
    (if cu_port u = None then Inl (TransportError ''transport_not_open'')
     else if refresh_due now wall u then Inl FreshReopenRequired else Inr ())"

section \<open>Admitting datagrams\<close>

definition commit_downlink :: "int \<Rightarrow> client_udp \<Rightarrow> unit udp_op" where
  "commit_downlink n u = (case client_commit (cu_replay u) n of
      None \<Rightarrow> (Inl (ClientRaised (ProtocolError ''replayed_or_invalid_sequence'')), u)
    | Some w \<Rightarrow> (Inr (), u\<lparr>cu_replay := w\<rparr>))"

text \<open>The part of \<open>_accept\<close> that consults the validator about an authenticated audio frame.\<close>

definition accept_audio :: "(media_frame \<Rightarrow> client_error + bool) \<Rightarrow> real \<Rightarrow> media_frame \<Rightarrow> client_udp \<Rightarrow> media_frame option udp_op" where
  "accept_audio validate now f u = (case validate f of
      Inl e \<Rightarrow>
        if e \<noteq> ProtocolError ''unknown_media_generation'' then (Inl (ClientRaised e), u)
        else if length (cu_pending_control u) \<ge> 4 \<and> dict_get (cu_pending_control u) (mf_sequence f) = None
          then (Inl FreshReopenRequired, u)
        else (Inr None, if dict_get (cu_pending_control u) (mf_sequence f) = None
          then u\<lparr>cu_pending_control := dict_set (mf_sequence f) (f, now) (cu_pending_control u)\<rparr> else u)
    | Inr allowed \<Rightarrow>
        bind_op (commit_downlink (mf_sequence f) (u\<lparr>cu_pending_control := dict_pop (mf_sequence f) (cu_pending_control u)\<rparr>)) (\<lambda>_ u.
        if \<not> allowed then (Inr None, buffer_non_audio now f u) else (Inr (Some f), u)))"

definition accept_opened :: "media_validator \<Rightarrow> real \<Rightarrow> media_frame \<Rightarrow> client_udp \<Rightarrow> media_frame option udp_op" where
  "accept_opened validator now f u =
    (if mf_flags f = FLAG_AUDIO \<and> validator \<noteq> None then accept_audio (the validator) now f u
     else bind_op (commit_downlink (mf_sequence f) u) (\<lambda>_ u. (Inr (Some f), u)))"

definition is_probe_ack :: "media_frame \<Rightarrow> bool" where
  "is_probe_ack f \<longleftrightarrow> mf_flags f = FLAG_PROBE_ACK \<and> mf_sequence f = 0 \<and> mf_timestamp f = 0 \<and> mf_generation f = 0 \<and> mf_payload f = []"

definition accept :: "aead \<Rightarrow> media_validator \<Rightarrow> real \<Rightarrow> bool \<Rightarrow> bytes \<Rightarrow> client_udp \<Rightarrow> media_frame option udp_op" where
  "accept A validator now expected_probe_ack datagram u = (case cu_downlink u of
      None \<Rightarrow> (Inl (TransportError ''transport_not_open''), u)
    | Some cipher \<Rightarrow> (case decode_header True datagram of
        Inl e \<Rightarrow> (Inl (ClientRaised e), u)
      | Inr (header, _) \<Rightarrow>
          if mf_media_id header \<noteq> cu_media_id u \<or> mf_media_epoch header \<noteq> cu_media_epoch u
            then (Inl (ClientRaised (ProtocolError ''stale_media_identity'')), u)
          else if \<not> acceptable (cu_replay u) (mf_sequence header)
            then (Inl (ClientRaised (ProtocolError ''replayed_or_invalid_sequence'')), u)
          else (case cipher_decrypt A cipher datagram of
              Inl e \<Rightarrow> (Inl (ClientRaised e), u)
            | Inr f \<Rightarrow>
                if expected_probe_ack \<and> \<not> is_probe_ack f then (Inl (ClientRaised (ProtocolError ''invalid_probe_ack'')), u)
                else accept_opened validator now f u)))"

definition accept_or_none :: "aead \<Rightarrow> media_validator \<Rightarrow> real \<Rightarrow> bool \<Rightarrow> bytes \<Rightarrow> client_udp \<Rightarrow> media_frame option udp_op" where
  "accept_or_none A validator now expected_probe_ack datagram u = (case accept A validator now expected_probe_ack datagram u of
      (Inl (ClientRaised (ProtocolError code)), u') \<Rightarrow> (Inr None, u')
    | (r, u') \<Rightarrow> (r, u'))"

text \<open>One turn of the loop of \<open>_admit_pending_control\<close>.\<close>

definition admit_pending_frame :: "(media_frame \<Rightarrow> client_error + bool) \<Rightarrow> real \<Rightarrow> int \<Rightarrow> client_udp \<Rightarrow> unit udp_op" where
  "admit_pending_frame validate now sequence u = (case dict_get (cu_pending_control u) sequence of
      None \<Rightarrow> (Inl (ClientRaised ClientKeyError), u)
    | Some (f, arrived_at) \<Rightarrow>
        if now - arrived_at > cu_max_media_age u then (Inl FreshReopenRequired, u)
        else (case validate f of
            Inl e \<Rightarrow>
              if e = ProtocolError ''unknown_media_generation'' then (Inr (), u)
              else (Inl (ClientRaised e), case e of
                  ProtocolError _ \<Rightarrow> u\<lparr>cu_pending_control := dict_pop sequence (cu_pending_control u)\<rparr>
                | _ \<Rightarrow> u)
          | Inr allowed \<Rightarrow>
              bind_op (commit_downlink (mf_sequence f) (u\<lparr>cu_pending_control := dict_pop sequence (cu_pending_control u)\<rparr>)) (\<lambda>_ u.
              if allowed then cu_buffer now f u else (Inr (), buffer_non_audio now f u))))"

fun admit_loop :: "(media_frame \<Rightarrow> client_error + bool) \<Rightarrow> real \<Rightarrow> int list \<Rightarrow> client_udp \<Rightarrow> unit udp_op" where
  "admit_loop validate now [] u = (Inr (), u)"
| "admit_loop validate now (n # ns) u = bind_op (admit_pending_frame validate now n u) (\<lambda>_ u. admit_loop validate now ns u)"

definition admit_pending_control :: "media_validator \<Rightarrow> real \<Rightarrow> client_udp \<Rightarrow> unit udp_op" where
  "admit_pending_control validator now u = (case validator of
      None \<Rightarrow> (Inr (), u)
    | Some validate \<Rightarrow> admit_loop validate now (sort (dict_keys (cu_pending_control u))) u)"

section \<open>Receiving\<close>

text \<open>A section of \<open>receive_audio\<close> returns a frame or waits, at most so long, for a datagram.\<close>

datatype receive_outcome = Received media_frame | Waiting real

definition receive_wait :: "real \<Rightarrow> real \<Rightarrow> client_udp \<Rightarrow> receive_outcome udp_op" where
  "receive_wait now wall u =
    (if refresh_remaining now wall u \<le> 0 then (Inl FreshReopenRequired, u)
     else bind_op (expire_receive_deadlines now u) (\<lambda>_ u.
       case cu_ready u of
         f # fs \<Rightarrow> (Inr (Received f), u\<lparr>cu_ready := fs\<rparr>)
       | [] \<Rightarrow>
           if cu_port u = None then (Inl (TransportError ''transport_not_open''), u)
           else (Inr (Waiting (max 0 (Min (set ([now + refresh_remaining now wall u] @
               (case cu_reorder_deadline_at u of None \<Rightarrow> [] | Some d \<Rightarrow> [d]) @
               (if cu_pending_control u = [] then [] else [earliest_pending u + cu_max_media_age u]))) - now))), u)))"

definition ready_or :: "(client_udp \<Rightarrow> receive_outcome udp_op) \<Rightarrow> client_udp \<Rightarrow> receive_outcome udp_op" where
  "ready_or otherwise u = (case cu_ready u of f # fs \<Rightarrow> (Inr (Received f), u\<lparr>cu_ready := fs\<rparr>) | [] \<Rightarrow> otherwise u)"

definition receive_start :: "media_validator \<Rightarrow> real \<Rightarrow> real \<Rightarrow> client_udp \<Rightarrow> receive_outcome udp_op" where
  "receive_start validator now wall u =
    bind_op (ensure_fresh now wall u, u) (\<lambda>_ u.
    bind_op (admit_pending_control validator now u) (\<lambda>_ u.
    ready_or (receive_wait now wall) u))"

definition receive_timeout :: "media_validator \<Rightarrow> real \<Rightarrow> real \<Rightarrow> client_udp \<Rightarrow> receive_outcome udp_op" where
  "receive_timeout validator now wall u =
    (if refresh_due now wall u then (Inl FreshReopenRequired, u)
     else bind_op (admit_pending_control validator now u) (\<lambda>_ u.
       ready_or (receive_wait now wall) (release_gap u)))"

definition receive_datagram :: "aead \<Rightarrow> media_validator \<Rightarrow> real \<Rightarrow> real \<Rightarrow> bytes \<Rightarrow> client_udp \<Rightarrow> receive_outcome udp_op" where
  "receive_datagram A validator now wall datagram u =
    bind_op (accept_or_none A validator now False datagram u) (\<lambda>frame u.
    bind_op (expire_receive_deadlines now u) (\<lambda>_ u.
    ready_or (\<lambda>u. case frame of
        None \<Rightarrow> receive_wait now wall u
      | Some f \<Rightarrow>
          if mf_flags f \<noteq> FLAG_AUDIO then ready_or (receive_wait now wall) (buffer_non_audio now f u)
          else bind_op (cu_buffer now f u) (\<lambda>_ u. ready_or (receive_wait now wall) u)) u))"

section \<open>Sending\<close>

definition cu_encode :: "aead \<Rightarrow> int \<Rightarrow> bytes \<Rightarrow> int \<Rightarrow> int \<Rightarrow> int \<Rightarrow> client_udp \<Rightarrow> udp_client_error + bytes" where
  "cu_encode A flags payload timestamp generation sequence u = (case cu_uplink u of
      None \<Rightarrow> Inl (TransportError ''transport_not_open'')
    | Some cipher \<Rightarrow> (case cipher_encrypt A cipher \<lparr>mf_flags = flags, mf_media_id = cu_media_id u, mf_media_epoch = cu_media_epoch u,
          mf_sequence = sequence, mf_timestamp = timestamp, mf_generation = generation, mf_payload = payload\<rparr> of
        Inl e \<Rightarrow> Inl (ClientRaised e)
      | Inr d \<Rightarrow> Inr d))"

definition port_send :: "bytes \<Rightarrow> client_udp \<Rightarrow> unit udp_op" where
  "port_send d u = (case cu_port u of
      None \<Rightarrow> (Inl (TransportError ''transport_not_open''), u)
    | Some sent \<Rightarrow> (Inr (), u\<lparr>cu_port := Some (sent @ [d])\<rparr>))"

text \<open>\<open>_send\<close>: the port is looked up before the packet is sealed, and the number is spent only when the packet is sent.\<close>

definition cu_send :: "aead \<Rightarrow> int \<Rightarrow> bytes \<Rightarrow> int \<Rightarrow> int \<Rightarrow> client_udp \<Rightarrow> unit udp_op" where
  "cu_send A flags payload timestamp generation u =
    (if cu_next_uplink u > uint32_max then (Inl FreshReopenRequired, u)
     else if cu_port u = None then (Inl (TransportError ''transport_not_open''), u)
     else bind_op (cu_encode A flags payload timestamp generation (cu_next_uplink u) u, u) (\<lambda>d u.
       bind_op (port_send d u) (\<lambda>_ u. (Inr (), u\<lparr>cu_next_uplink := cu_next_uplink u + 1\<rparr>))))"

definition send_audio :: "aead \<Rightarrow> bytes \<Rightarrow> int \<Rightarrow> real \<Rightarrow> real \<Rightarrow> client_udp \<Rightarrow> unit udp_op" where
  "send_audio A payload timestamp now wall u =
    bind_op (ensure_fresh now wall u, u) (\<lambda>_ u. cu_send A FLAG_AUDIO payload timestamp 0 u)"

definition send_keepalive :: "aead \<Rightarrow> int \<Rightarrow> real \<Rightarrow> real \<Rightarrow> client_udp \<Rightarrow> unit udp_op" where
  "send_keepalive A timestamp now wall u =
    bind_op (ensure_fresh now wall u, u) (\<lambda>_ u. cu_send A FLAG_KEEPALIVE [] timestamp 0 u)"

section \<open>Opening and closing\<close>

definition udp_close :: "client_udp \<Rightarrow> client_udp" where
  "udp_close u = u\<lparr>cu_port := None, cu_grant := None, cu_media_id := [], cu_media_epoch := 0, cu_uplink := None, cu_downlink := None,
     cu_reorder := [], cu_reorder_deadline_at := None, cu_non_audio_sequences := [], cu_ready := [], cu_pending_control := []\<rparr>"

text \<open>
  \<open>_probe\<close>: an answer is what one \<open>wait_for\<close> yields, a datagram or a timeout, and the clock after it. The list of answers may
  end while the loop waits: then the result is \<open>None\<close>. The loop reads the clock at its head and sends when the deadline is ahead.
\<close>

datatype probe_answer = ProbeDatagram bytes | ProbeTimeout

fun probe_loop :: "aead \<Rightarrow> media_validator \<Rightarrow> bytes \<Rightarrow> real \<Rightarrow> real \<Rightarrow> (probe_answer \<times> real) list \<Rightarrow> client_udp \<Rightarrow> unit option udp_op" where
  "probe_loop A v probe deadline now answers u =
    (if now \<ge> deadline then (Inl (TransportError ''udp_probe_timeout''), u)
     else bind_op (port_send probe u) (\<lambda>_ u. case answers of
         [] \<Rightarrow> (Inr None, u)
       | (ProbeTimeout, now') # rest \<Rightarrow> probe_loop A v probe deadline now' rest u
       | (ProbeDatagram d, now') # rest \<Rightarrow>
           bind_op (accept_or_none A v now' True d u) (\<lambda>frame u. case frame of
               None \<Rightarrow> probe_loop A v probe deadline now' rest u
             | Some f \<Rightarrow> if mf_flags f = FLAG_PROBE_ACK then (Inr (Some ()), u\<lparr>cu_next_uplink := 1\<rparr>)
                 else probe_loop A v probe deadline now' rest u)))"

declare probe_loop.simps [simp del]

definition cu_probe :: "aead \<Rightarrow> media_validator \<Rightarrow> real \<Rightarrow> (probe_answer \<times> real) list \<Rightarrow> client_udp \<Rightarrow> unit option udp_op" where
  "cu_probe A v now answers u = (case cu_grant u of
      None \<Rightarrow> (Inl (TransportError ''transport_not_open''), u)
    | Some g \<Rightarrow>
        bind_op (cu_encode A FLAG_PROBE [] 0 0 0 u, u) (\<lambda>probe u.
        probe_loop A v probe (now + of_int (cg_probe_timeout_ms g) / 1000) now answers u))"

text \<open>
  \<open>open\<close>: the resets, the port that the factory returns, the fields of the session, and the probe, which closes the
  transport when it raises.
\<close>

definition udp_reset :: "client_udp \<Rightarrow> client_udp" where
  "udp_reset u = u\<lparr>cu_replay := client_window_init, cu_next_uplink := 0, cu_expected_downlink := 1, cu_reorder := [],
     cu_reorder_deadline_at := None, cu_non_audio_sequences := [], cu_ready := [], cu_pending_control := [], cu_fresh_generation := None\<rparr>"

definition udp_open_ciphers :: "client_udp_grant \<Rightarrow> bytes \<Rightarrow> int \<Rightarrow> real \<Rightarrow> client_udp \<Rightarrow> unit udp_op" where
  "udp_open_ciphers g mid epoch now u =
    (let u1 = u\<lparr>cu_port := Some [], cu_grant := Some g, cu_media_id := mid, cu_media_epoch := epoch\<rparr>
     in case udp_cipher_init (cg_uplink_key g) (cg_uplink_salt g) of
          Inl e \<Rightarrow> (Inl (ClientRaised e), u1)
        | Inr up \<Rightarrow> (case udp_cipher_init (cg_downlink_key g) (cg_downlink_salt g) of
            Inl e \<Rightarrow> (Inl (ClientRaised e), u1\<lparr>cu_uplink := Some up\<rparr>)
          | Inr down \<Rightarrow> (Inr (), u1\<lparr>cu_uplink := Some up, cu_downlink := Some down,
              cu_refresh_at := now + of_int (cg_refresh_after_ms g) / 1000\<rparr>)))"

definition udp_open ::
    "aead \<Rightarrow> media_validator \<Rightarrow> client_udp_grant \<Rightarrow> bytes \<Rightarrow> int \<Rightarrow> real \<Rightarrow> (probe_answer \<times> real) list \<Rightarrow> client_udp \<Rightarrow> unit option udp_op" where
  "udp_open A v g mid epoch now answers u =
    (if cu_port u \<noteq> None then (Inl (TransportError ''transport_already_open''), u)
     else bind_op (udp_open_ciphers g mid epoch now (udp_reset u)) (\<lambda>_ u.
       case cu_probe A v now answers u of
         (Inl e, u') \<Rightarrow> (Inl e, udp_close u')
       | (Inr r, u') \<Rightarrow> (Inr r, u')))"

section \<open>Runs\<close>

text \<open>
  After \<open>open\<close> the session calls the transport in any order: sections of \<open>receive_audio\<close> (the task may be cancelled at its
  await, which changes nothing), sends, and \<open>close\<close>. A run collects the frames that \<open>receive_audio\<close> returned.
\<close>

datatype udp_call =
    CStart media_validator real real
  | CTimeout media_validator real real
  | CDatagram media_validator real real bytes
  | CSendAudio bytes int real real
  | CKeepalive int real real
  | CClose

definition returned :: "(udp_client_error + receive_outcome) \<Rightarrow> media_frame list" where
  "returned r = (case r of Inr (Received f) \<Rightarrow> [f] | _ \<Rightarrow> [])"

fun udp_call_step :: "aead \<Rightarrow> udp_call \<Rightarrow> client_udp \<Rightarrow> media_frame list \<times> client_udp" where
  "udp_call_step A (CStart v now wall) u = apfst returned (receive_start v now wall u)"
| "udp_call_step A (CTimeout v now wall) u = apfst returned (receive_timeout v now wall u)"
| "udp_call_step A (CDatagram v now wall d) u = apfst returned (receive_datagram A v now wall d u)"
| "udp_call_step A (CSendAudio payload ts now wall) u = ([], snd (send_audio A payload ts now wall u))"
| "udp_call_step A (CKeepalive ts now wall) u = ([], snd (send_keepalive A ts now wall u))"
| "udp_call_step A CClose u = ([], udp_close u)"

fun udp_calls :: "aead \<Rightarrow> udp_call list \<Rightarrow> client_udp \<Rightarrow> media_frame list \<times> client_udp" where
  "udp_calls A [] u = ([], u)"
| "udp_calls A (c # cs) u = (let (fs, u') = udp_call_step A c u; (gs, u'') = udp_calls A cs u' in (fs @ gs, u''))"

end
