(* ===== verification/Client_Udp_Flow.thy ===== *)
theory Client_Udp_Flow
  imports Client_Udp
begin

text \<open>
  What the desktop client's UDP transport guarantees. \<open>flow\<close> and \<open>downlink_inv\<close> are the invariant of its downlink, \<open>cu_serves\<close> and \<open>hands\<close>
  say that a section of \<open>receive_audio\<close> keeps it and hands over what it returns, \<open>run_inv\<close> and \<open>cu_uplink_inv\<close> hold along every run. The
  properties: delivery in order, no nonce used twice, the path opens, gaps do not block, and what is lost at a deadline.
\<close>

section \<open>The downlink in order\<close>

text \<open>
  \<open>flow P ds u\<close>: with \<open>ds\<close> delivered so far, what was delivered, what is ready and what waits is in order; \<open>P\<close> holds of
  each of these frames.
\<close>

definition flow :: "(media_frame \<Rightarrow> bool) \<Rightarrow> media_frame list \<Rightarrow> client_udp \<Rightarrow> bool" where
  "flow P ds u \<longleftrightarrow> sorted_wrt (<) (map mf_sequence (ds @ cu_ready u)) \<and>
     (\<forall>f \<in> set (ds @ cu_ready u). mf_sequence f < cu_expected_downlink u \<and> P f) \<and>
     (\<forall>x \<in> set (cu_reorder u). mf_sequence (snd x) = fst x \<and> P (snd x)) \<and>
     distinct (pending_sequences u) \<and> (\<forall>k \<in> set (pending_sequences u). cu_expected_downlink u \<le> k)"

text \<open>The fields that receiving leaves alone, and those that releasing does.\<close>

definition cu_fixed where
  "cu_fixed u = (cu_port u, cu_grant u, cu_media_id u, cu_media_epoch u, cu_uplink u, cu_downlink u, cu_next_uplink u, cu_refresh_at u)"

definition cu_admission where
  "cu_admission u = (cu_fixed u, cu_replay u, cu_pending_control u)"

lemma flowD:
  assumes "flow P ds u"
  shows "sorted_wrt (<) (map mf_sequence (ds @ cu_ready u))"
    "f \<in> set (ds @ cu_ready u) \<Longrightarrow> mf_sequence f < cu_expected_downlink u" "f \<in> set (ds @ cu_ready u) \<Longrightarrow> P f"
    "(k, f) \<in> set (cu_reorder u) \<Longrightarrow> mf_sequence f = k" "(k, f) \<in> set (cu_reorder u) \<Longrightarrow> P f"
    "distinct (pending_sequences u)" "k \<in> set (pending_sequences u) \<Longrightarrow> cu_expected_downlink u \<le> k"
  using assms unfolding flow_def by (blast, blast, blast, fastforce, fastforce, blast, blast)

lemma pending_skip:
  assumes "distinct (pending_sequences u)"
  shows "distinct (pending_sequences (u\<lparr>cu_non_audio_sequences := removeAll e (cu_non_audio_sequences u), cu_expected_downlink := n\<rparr>))"
    "e \<in> set (cu_non_audio_sequences u) \<Longrightarrow>
     set (pending_sequences (u\<lparr>cu_non_audio_sequences := removeAll e (cu_non_audio_sequences u), cu_expected_downlink := n\<rparr>)) = set (pending_sequences u) - {e}"
  using assms by (auto simp: pending_sequences_def distinct_removeAll)

lemma pending_ready:
  assumes "distinct (pending_sequences u)"
  shows "distinct (pending_sequences (u\<lparr>cu_reorder := dict_pop e (cu_reorder u), cu_ready := r, cu_expected_downlink := n\<rparr>))"
    "e \<notin> set (cu_non_audio_sequences u) \<Longrightarrow>
     set (pending_sequences (u\<lparr>cu_reorder := dict_pop e (cu_reorder u), cu_ready := r, cu_expected_downlink := n\<rparr>)) = set (pending_sequences u) - {e}"
proof -
  have keys: "set (dict_keys (dict_pop e (cu_reorder u))) = set (dict_keys (cu_reorder u)) - {e}" by (force simp: dict_pop_mem)
  show "distinct (pending_sequences (u\<lparr>cu_reorder := dict_pop e (cu_reorder u), cu_ready := r, cu_expected_downlink := n\<rparr>))"
    using assms keys by (auto simp: pending_sequences_def)
  show "e \<notin> set (cu_non_audio_sequences u) \<Longrightarrow>
     set (pending_sequences (u\<lparr>cu_reorder := dict_pop e (cu_reorder u), cu_ready := r, cu_expected_downlink := n\<rparr>)) = set (pending_sequences u) - {e}"
    using keys by (simp add: pending_sequences_def Un_Diff)
qed

lemma flow_skip:
  assumes F: "flow P ds u" and e: "cu_expected_downlink u \<in> set (cu_non_audio_sequences u)"
  shows "flow P ds (u\<lparr>cu_non_audio_sequences := removeAll (cu_expected_downlink u) (cu_non_audio_sequences u),
    cu_expected_downlink := cu_expected_downlink u + 1\<rparr>)" (is "flow P ds ?u")
proof -
  have "cu_expected_downlink u + 1 \<le> k" if "k \<in> set (pending_sequences ?u)" for k
    using flowD(7) [OF F, of k] that pending_skip(2) [OF flowD(6) [OF F] e] by simp
  moreover have "mf_sequence f < cu_expected_downlink u + 1 \<and> P f" if "f \<in> set (ds @ cu_ready u)" for f
    using flowD(2,3) [OF F that] by simp
  ultimately show ?thesis using flowD(1,4,5) [OF F] pending_skip(1) [OF flowD(6) [OF F]] unfolding flow_def by auto
qed

lemma flow_ready:
  assumes F: "flow P ds u" and f: "dict_get (cu_reorder u) (cu_expected_downlink u) = Some f"
    and n: "cu_expected_downlink u \<notin> set (cu_non_audio_sequences u)"
  shows "flow P ds (u\<lparr>cu_reorder := dict_pop (cu_expected_downlink u) (cu_reorder u), cu_ready := cu_ready u @ [f],
    cu_expected_downlink := cu_expected_downlink u + 1\<rparr>)" (is "flow P ds ?u")
proof -
  let ?e = "cu_expected_downlink u"
  have f': "mf_sequence f = ?e" "P f" using flowD(4,5) [OF F map_of_SomeD [OF f]] .
  have "?e + 1 \<le> k" if "k \<in> set (pending_sequences ?u)" for k
    using flowD(7) [OF F, of k] that pending_ready(2) [OF flowD(6) [OF F] n] by simp
  moreover have g: "mf_sequence g < ?e + 1 \<and> P g" if "g \<in> set (ds @ cu_ready u @ [f])" for g
    using flowD(2,3) [OF F, of g] that f' by auto
  moreover have "sorted_wrt (<) (map mf_sequence (ds @ cu_ready u @ [f]))"
    using flowD(1) [OF F] flowD(2) [OF F] f'(1) by (auto simp: sorted_wrt_append)
  moreover have "mf_sequence (snd x) = fst x \<and> P (snd x)" if "x \<in> set (dict_pop ?e (cu_reorder u))" for x
    using flowD(4,5) [OF F, of "fst x" "snd x"] that by (simp add: dict_pop_mem)
  ultimately show ?thesis using pending_ready(1) [OF flowD(6) [OF F]] unfolding flow_def by simp
qed

text \<open>What every turn of the loop keeps, the loop keeps.\<close>

lemma release_contiguous_keeps:
  assumes skip: "\<And>u. Q u \<Longrightarrow> cu_expected_downlink u \<in> set (cu_non_audio_sequences u) \<Longrightarrow>
      Q (u\<lparr>cu_non_audio_sequences := removeAll (cu_expected_downlink u) (cu_non_audio_sequences u), cu_expected_downlink := cu_expected_downlink u + 1\<rparr>)"
    and ready: "\<And>u f. Q u \<Longrightarrow> cu_expected_downlink u \<notin> set (cu_non_audio_sequences u) \<Longrightarrow> dict_get (cu_reorder u) (cu_expected_downlink u) = Some f \<Longrightarrow>
      Q (u\<lparr>cu_reorder := dict_pop (cu_expected_downlink u) (cu_reorder u), cu_ready := cu_ready u @ [f], cu_expected_downlink := cu_expected_downlink u + 1\<rparr>)"
    and clear: "\<And>u. Q u \<Longrightarrow> cu_reorder u = [] \<Longrightarrow> cu_non_audio_sequences u = [] \<Longrightarrow> Q (u\<lparr>cu_reorder_deadline_at := None\<rparr>)"
  shows "Q u \<Longrightarrow> Q (release_contiguous u)"
proof (induction u rule: release_contiguous.induct)
  case (1 u)
  show ?case
  proof (cases "cu_expected_downlink u \<in> set (cu_non_audio_sequences u)")
    case True
    then show ?thesis using 1(1) [OF refl True skip [OF 1(3) True]] by (simp add: release_contiguous.simps [of u] Let_def)
  next
    case False
    show ?thesis
    proof (cases "dict_get (cu_reorder u) (cu_expected_downlink u)")
      case None
      then show ?thesis using 1(3) clear False by (simp add: release_contiguous.simps [of u] Let_def)
    next
      case (Some f)
      then show ?thesis using 1(2) [OF refl False Some ready [OF 1(3) False Some]] False
        by (simp add: release_contiguous.simps [of u] Let_def)
    qed
  qed
qed

lemma release_contiguous_stops:
  "cu_expected_downlink (release_contiguous u) \<notin> set (pending_sequences (release_contiguous u)) \<and>
   (pending_sequences (release_contiguous u) = [] \<longrightarrow> cu_reorder_deadline_at (release_contiguous u) = None)"
proof (induction u rule: release_contiguous.induct)
  case (1 u)
  consider (skip) "cu_expected_downlink u \<in> set (cu_non_audio_sequences u)"
    | (ready) f where "cu_expected_downlink u \<notin> set (cu_non_audio_sequences u)" "dict_get (cu_reorder u) (cu_expected_downlink u) = Some f"
    | (stop) "cu_expected_downlink u \<notin> set (cu_non_audio_sequences u)" "dict_get (cu_reorder u) (cu_expected_downlink u) = None"
    by (cases "dict_get (cu_reorder u) (cu_expected_downlink u)") auto
  then show ?case
  proof cases
    case skip
    then show ?thesis using 1(1) [OF refl skip] by (simp add: release_contiguous.simps [of u] Let_def)
  next
    case ready
    then show ?thesis using 1(2) [OF refl ready] by (simp add: release_contiguous.simps [of u] Let_def)
  next
    case stop
    then have "release_contiguous u = (if cu_reorder u = [] \<and> cu_non_audio_sequences u = [] then u\<lparr>cu_reorder_deadline_at := None\<rparr> else u)"
      by (simp add: release_contiguous.simps [of u] Let_def)
    then show ?thesis using stop by (auto simp: pending_sequences_def map_of_eq_None_iff)
  qed
qed

lemma release_contiguous_flow: "flow P ds u \<Longrightarrow> flow P ds (release_contiguous u)"
  by (rule release_contiguous_keeps [where Q = "flow P ds"], rule flow_skip, assumption+, rule flow_ready, assumption+)
    (simp_all add: flow_def pending_sequences_def)

lemma release_contiguous_admission [simp]: "cu_admission (release_contiguous u) = cu_admission u"
  by (rule release_contiguous_keeps [where Q = "\<lambda>v. cu_admission v = cu_admission u"]) (auto simp: cu_admission_def cu_fixed_def)

text \<open>Releasing moves frames out of the waiting ones, and loses none.\<close>

definition releases :: "client_udp \<Rightarrow> client_udp \<Rightarrow> bool" where
  "releases u u' \<longleftrightarrow> distinct (pending_sequences u') \<and> set (pending_sequences u') \<subseteq> set (pending_sequences u) \<and>
     cu_reorder_deadline_at u' \<in> {None, cu_reorder_deadline_at u} \<and>
     (pending_sequences u' \<noteq> [] \<longrightarrow> cu_reorder_deadline_at u' = cu_reorder_deadline_at u) \<and>
     set (dict_values (cu_reorder u)) \<union> set (cu_ready u) = set (dict_values (cu_reorder u')) \<union> set (cu_ready u')"

lemma dict_values_pop:
  "dict_wf d \<Longrightarrow> dict_get d k = Some v \<Longrightarrow> set (dict_values d) = insert v (set (dict_values (dict_pop k d)))"
proof -
  assume d: "dict_wf d" and v: "dict_get d k = Some v"
  have eq: "x = (k, v)" if "x \<in> set d" "fst x = k" for x
  proof -
    have "dict_get d k = Some (snd x)" using dict_mem_get [OF d, of k "snd x"] that by (cases x) auto
    then show ?thesis using v that by (cases x) simp
  qed
  have "x \<in> set d \<longleftrightarrow> x = (k, v) \<or> (x \<in> set d \<and> fst x \<noteq> k)" for x using eq [of x] map_of_SomeD [OF v] by blast
  then have "set d = insert (k, v) (set (dict_pop k d))" unfolding set_eq_iff insert_iff dict_pop_mem by blast
  from arg_cong [OF this, of "image snd"] show ?thesis by (simp only: set_map image_insert snd_conv)
qed

lemma release_contiguous_releases:
  assumes "distinct (pending_sequences u)"
  shows "releases u (release_contiguous u)"
proof (rule release_contiguous_keeps [where Q = "releases u"])
  show "releases u u" using assms by (simp add: releases_def)
next
  fix v assume v: "releases u v" and e: "cu_expected_downlink v \<in> set (cu_non_audio_sequences v)"
  let ?v = "v\<lparr>cu_non_audio_sequences := removeAll (cu_expected_downlink v) (cu_non_audio_sequences v), cu_expected_downlink := cu_expected_downlink v + 1\<rparr>"
  have d: "distinct (pending_sequences v)" using v by (simp add: releases_def)
  have "pending_sequences v \<noteq> []" using e by (auto simp: pending_sequences_def)
  then show "releases u ?v" using v pending_skip(1) [OF d] pending_skip(2) [OF d e] by (auto simp: releases_def)
next
  fix v f assume v: "releases u v" and e: "cu_expected_downlink v \<notin> set (cu_non_audio_sequences v)"
    and f: "dict_get (cu_reorder v) (cu_expected_downlink v) = Some f"
  let ?v = "v\<lparr>cu_reorder := dict_pop (cu_expected_downlink v) (cu_reorder v), cu_ready := cu_ready v @ [f], cu_expected_downlink := cu_expected_downlink v + 1\<rparr>"
  have d: "distinct (pending_sequences v)" using v by (simp add: releases_def)
  then have "dict_wf (cu_reorder v)" by (simp add: pending_sequences_def)
  note vals = dict_values_pop [OF this f]
  have "pending_sequences v \<noteq> []" using f by (auto simp: pending_sequences_def)
  then show "releases u ?v" using v pending_ready(1) [OF d] pending_ready(2) [OF d e] vals by (auto simp: releases_def)
next
  fix v assume "releases u v" "cu_reorder v = []" "cu_non_audio_sequences v = []"
  then show "releases u (v\<lparr>cu_reorder_deadline_at := None\<rparr>)" by (auto simp: releases_def pending_sequences_def)
qed


section \<open>The invariant of the downlink\<close>

text \<open>
  Between sections (with \<open>n = 3\<close>): the flow is in order, the expected packet does not wait, at most \<open>n\<close> wait, a deadline is armed
  exactly when some wait; the window knows every waiting number; at most four frames wait for control.
\<close>

definition cu_admission_inv :: "(media_frame \<Rightarrow> bool) \<Rightarrow> client_udp \<Rightarrow> bool" where
  "cu_admission_inv Q u \<longleftrightarrow> (\<exists>H. client_tracks (cu_replay u) H \<and> set (pending_sequences u) \<subseteq> H) \<and>
     dict_wf (cu_pending_control u) \<and> length (cu_pending_control u) \<le> 4 \<and>
     (\<forall>x \<in> set (cu_pending_control u). mf_sequence (fst (snd x)) = fst x \<and> Q (fst (snd x)))"

definition downlink_inv :: "nat \<Rightarrow> (media_frame \<Rightarrow> bool) \<Rightarrow> (media_frame \<Rightarrow> bool) \<Rightarrow> media_frame list \<Rightarrow> client_udp \<Rightarrow> bool" where
  "downlink_inv n P Q ds u \<longleftrightarrow> flow P ds u \<and> cu_expected_downlink u \<notin> set (pending_sequences u) \<and>
     length (pending_sequences u) \<le> n \<and> (cu_reorder_deadline_at u = None \<longleftrightarrow> pending_sequences u = []) \<and> cu_admission_inv Q u"

lemma downlink_invD:
  assumes "downlink_inv n P Q ds u"
  shows "flow P ds u" "cu_expected_downlink u \<notin> set (pending_sequences u)" "length (pending_sequences u) \<le> n"
    "cu_reorder_deadline_at u = None \<longleftrightarrow> pending_sequences u = []" "cu_admission_inv Q u"
  using assms unfolding downlink_inv_def by blast+

text \<open>The invariant reads no other field.\<close>

lemma downlink_inv_cong:
  assumes "cu_replay u' = cu_replay u" "cu_expected_downlink u' = cu_expected_downlink u" "cu_reorder u' = cu_reorder u"
    "cu_reorder_deadline_at u' = cu_reorder_deadline_at u" "cu_non_audio_sequences u' = cu_non_audio_sequences u" "cu_ready u' = cu_ready u"
    "cu_pending_control u' = cu_pending_control u"
  shows "downlink_inv n P Q ds u' \<longleftrightarrow> downlink_inv n P Q ds u"
  unfolding downlink_inv_def cu_admission_inv_def flow_def pending_sequences_def assms ..

lemma admission_fields:
  assumes "cu_admission u' = cu_admission u"
  shows "cu_replay u' = cu_replay u" "cu_pending_control u' = cu_pending_control u" "cu_fixed u' = cu_fixed u"
  using assms by (simp_all add: cu_admission_def)

lemma admission_inv_shrinks:
  "cu_admission_inv Q u \<Longrightarrow> cu_admission u' = cu_admission u \<Longrightarrow> set (pending_sequences u') \<subseteq> set (pending_sequences u) \<Longrightarrow> cu_admission_inv Q u'"
  unfolding cu_admission_inv_def using admission_fields(1,2) [of u' u] by auto

lemma distinct_subset_length: "distinct xs \<Longrightarrow> set xs \<subseteq> A \<Longrightarrow> finite A \<Longrightarrow> length xs \<le> card A"
  using card_mono [of A "set xs"] by (simp add: distinct_card)

lemma release_contiguous_expected: "cu_expected_downlink u \<le> cu_expected_downlink (release_contiguous u)"
  by (rule release_contiguous_keeps [where Q = "\<lambda>v. cu_expected_downlink u \<le> cu_expected_downlink v"]) auto

lemma Min_pending:
  assumes "pending_sequences u \<noteq> []"
  shows "Min (set (pending_sequences u)) \<in> set (pending_sequences u)" "k \<in> set (pending_sequences u) \<Longrightarrow> Min (set (pending_sequences u)) \<le> k"
  using assms by auto

lemma release_gap_admission [simp]: "cu_admission (release_gap u) = cu_admission u"
  by (simp add: release_gap_def) (simp add: cu_admission_def cu_fixed_def)

lemma pending_expected [simp]: "pending_sequences (u\<lparr>cu_expected_downlink := m\<rparr>) = pending_sequences u"
  by (simp add: pending_sequences_def)

lemma release_gap_releases: "distinct (pending_sequences u) \<Longrightarrow> releases u (release_gap u)"
  using release_contiguous_releases [of "u\<lparr>cu_expected_downlink := Min (set (pending_sequences u))\<rparr>"]
  by (cases "pending_sequences u = []") (simp_all add: release_gap_def releases_def)

lemma flow_expected:
  assumes F: "flow P ds u" and m: "cu_expected_downlink u \<le> m" "\<forall>k \<in> set (pending_sequences u). m \<le> k"
  shows "flow P ds (u\<lparr>cu_expected_downlink := m\<rparr>)"
proof -
  have "mf_sequence f < m \<and> P f" if "f \<in> set (ds @ cu_ready u)" for f using flowD(2,3) [OF F that] m(1) by simp
  then show ?thesis using F m(2) unfolding flow_def by simp
qed

lemma release_gap_inv:
  assumes I: "downlink_inv (Suc n) P Q ds u"
  shows "downlink_inv n P Q ds (release_gap u)"
proof (cases "pending_sequences u = []")
  case True
  then show ?thesis using I by (simp add: downlink_inv_def release_gap_def)
next
  case False
  let ?m = "Min (set (pending_sequences u))"
  let ?v = "u\<lparr>cu_expected_downlink := ?m\<rparr>"
  note F = downlink_invD(1) [OF I]
  have fv: "flow P ds ?v"
    by (rule flow_expected [OF F flowD(7) [OF F Min_pending(1) [OF False]]]) (use Min_pending(2) [OF False] in blast)
  have g: "release_gap u = release_contiguous ?v" using False by (simp add: release_gap_def)
  have F': "flow P ds (release_gap u)" unfolding g by (rule release_contiguous_flow [OF fv])
  have r: "releases u (release_gap u)" by (rule release_gap_releases [OF flowD(6) [OF F]])
  note st = release_contiguous_stops [of ?v, folded g]
  have "?m \<notin> set (pending_sequences (release_gap u))"
    using flowD(7) [OF F', of ?m] release_contiguous_expected [of ?v, folded g] st by fastforce
  then have "set (pending_sequences (release_gap u)) \<subseteq> set (pending_sequences u) - {?m}" using r by (auto simp: releases_def)
  from distinct_subset_length [OF flowD(6) [OF F'] this]
  have "length (pending_sequences (release_gap u)) \<le> n"
    using downlink_invD(3) [OF I] Min_pending(1) [OF False] distinct_card [OF flowD(6) [OF F]] by simp
  moreover have "cu_reorder_deadline_at (release_gap u) = None \<longleftrightarrow> pending_sequences (release_gap u) = []"
    using r st downlink_invD(4) [OF I] False by (auto simp: releases_def)
  moreover have "cu_admission_inv Q (release_gap u)"
    using admission_inv_shrinks [OF downlink_invD(5) [OF I]] r by (simp add: releases_def)
  ultimately show ?thesis using F' st unfolding downlink_inv_def by blast
qed

lemma downlink_inv_mono: "downlink_inv m P Q ds u \<Longrightarrow> m \<le> n \<Longrightarrow> downlink_inv n P Q ds u"
  by (simp add: downlink_inv_def)

lemma pending_length: "length (pending_sequences u) = length (cu_reorder u) + length (cu_non_audio_sequences u)"
  by (simp add: pending_sequences_def)

lemma release_full_inv: "downlink_inv 4 P Q ds u \<Longrightarrow> downlink_inv 3 P Q ds (release_full u)"
  using release_gap_inv [of 3 P Q ds u] by (auto simp: release_full_def downlink_inv_def pending_length)

text \<open>A new number, audio or not, enters: release, arm, and make room.\<close>

lemma arrived_inv:
  assumes F: "flow P ds u" and n: "length (pending_sequences u) \<le> 4" and A: "cu_admission_inv Q u"
  shows "downlink_inv 3 P Q ds (release_full (arm_reorder_deadline now (release_contiguous u)))"
proof (rule release_full_inv)
  let ?v = "release_contiguous u"
  let ?w = "arm_reorder_deadline now ?v"
  have r: "releases u ?v" by (rule release_contiguous_releases [OF flowD(6) [OF F]])
  note st = release_contiguous_stops [of u] and Fv = release_contiguous_flow [OF F]
  have w: "pending_sequences ?w = pending_sequences ?v" "cu_expected_downlink ?w = cu_expected_downlink ?v" "cu_admission ?w = cu_admission ?v"
    "flow P ds ?w = flow P ds ?v"
    by (auto simp: arm_reorder_deadline_def pending_sequences_def cu_admission_def cu_fixed_def flow_def)
  have late: "Min (set (pending_sequences ?v)) > cu_expected_downlink ?v" if "pending_sequences ?v \<noteq> []"
    using flowD(7) [OF Fv Min_pending(1) [OF that]] Min_pending(1) [OF that] st by (metis order_le_less)
  have "cu_reorder_deadline_at ?w = None \<longleftrightarrow> pending_sequences ?v = []"
  proof (cases "pending_sequences ?v = []")
    case True
    then show ?thesis using st by (simp add: arm_reorder_deadline_def)
  next
    case False
    then show ?thesis using late [OF False] by (simp add: arm_reorder_deadline_def del: Min_gr_iff)
  qed
  moreover have "length (pending_sequences ?v) \<le> 4"
    using distinct_subset_length [OF flowD(6) [OF Fv], of "set (pending_sequences u)"] r n card_length [of "pending_sequences u"]
    by (simp add: releases_def)
  moreover have "cu_admission_inv Q ?w"
    using admission_inv_shrinks [OF A, of ?w] r w(1,3) by (simp add: releases_def)
  ultimately show "downlink_inv 4 P Q ds ?w" using Fv st unfolding downlink_inv_def w by blast
qed


text \<open>A packet whose number was just committed enters the buffer.\<close>

lemma buffer_non_audio_inv:
  assumes I: "downlink_inv 3 P Q ds u" and H: "client_tracks (cu_replay u) H" "set (pending_sequences u) \<subseteq> H" "mf_sequence f \<in> H"
    and n: "mf_sequence f \<notin> set (pending_sequences u)"
  shows "downlink_inv 3 P Q ds (buffer_non_audio now f u)"
proof (cases "mf_sequence f < cu_expected_downlink u")
  case True
  then show ?thesis using I by (simp add: buffer_non_audio_def)
next
  case False
  let ?v = "u\<lparr>cu_non_audio_sequences := List.insert (mf_sequence f) (cu_non_audio_sequences u)\<rparr>"
  note F = downlink_invD(1) [OF I]
  have p: "set (pending_sequences ?v) = insert (mf_sequence f) (set (pending_sequences u))" "distinct (pending_sequences ?v)"
    "length (pending_sequences ?v) = Suc (length (pending_sequences u))"
    using n flowD(6) [OF F] by (auto simp: pending_sequences_def List.insert_def)
  have "flow P ds ?v" using F p(1,2) False unfolding flow_def by auto
  moreover have "cu_admission_inv Q ?v" using downlink_invD(5) [OF I] H p(1) unfolding cu_admission_inv_def by auto
  ultimately show ?thesis using arrived_inv [of P ds ?v Q now] p(3) downlink_invD(3) [OF I] False by (simp add: buffer_non_audio_def)
qed

lemma check_freshness_fields:
  assumes "check_freshness now f u = (r, u')"
  shows "cu_admission u' = cu_admission u" "pending_sequences u' = pending_sequences u" "cu_expected_downlink u' = cu_expected_downlink u"
    "cu_reorder u' = cu_reorder u" "downlink_inv n P Q ds u' \<longleftrightarrow> downlink_inv n P Q ds u"
proof -
  have u': "u' = u \<or> u' = u\<lparr>cu_fresh_generation := Some (mf_generation f), cu_fresh_timestamp := mf_timestamp f, cu_fresh_arrival := now\<rparr>"
    using assms by (auto simp: check_freshness_def Let_def split: if_splits)
  then show "downlink_inv n P Q ds u' \<longleftrightarrow> downlink_inv n P Q ds u" by (intro downlink_inv_cong) auto
  show "cu_admission u' = cu_admission u" "pending_sequences u' = pending_sequences u" "cu_expected_downlink u' = cu_expected_downlink u"
    "cu_reorder u' = cu_reorder u" using u' by (auto simp: cu_admission_def cu_fixed_def pending_sequences_def)
qed

lemma cu_buffer_inv:
  assumes I: "downlink_inv 3 P Q ds u" and H: "client_tracks (cu_replay u) H" "set (pending_sequences u) \<subseteq> H" "mf_sequence f \<in> H"
    and n: "mf_sequence f \<notin> set (pending_sequences u)" and f: "P f"
  shows "keeps (downlink_inv 3 P Q ds) (cu_buffer now f u)"
  unfolding cu_buffer_def
proof (rule keeps_bind)
  show "keeps (downlink_inv 3 P Q ds) (check_freshness now f u)"
    using I check_freshness_fields(5) by (cases "check_freshness now f u") (simp add: keeps_def)
  fix a v
  assume v: "check_freshness now f u = (Inr a, v)" and Iv: "downlink_inv 3 P Q ds v"
  note C = check_freshness_fields [OF v]
  let ?w = "v\<lparr>cu_reorder := dict_set (mf_sequence f) f (cu_reorder v)\<rparr>"
  note F = downlink_invD(1) [OF Iv]
  have "mf_sequence f \<notin> set (pending_sequences v)" using n C(2) by simp
  then have nv: "mf_sequence f \<notin> set (dict_keys (cu_reorder v))" "mf_sequence f \<notin> set (cu_non_audio_sequences v)"
    by (simp_all add: pending_sequences_def)
  have s: "dict_set (mf_sequence f) f (cu_reorder v) = cu_reorder v @ [(mf_sequence f, f)]" by (rule dict_set_new [OF nv(1)])
  have p: "set (pending_sequences ?w) = insert (mf_sequence f) (set (pending_sequences v))" "distinct (pending_sequences ?w)"
    "length (pending_sequences ?w) = Suc (length (pending_sequences v))"
    using nv flowD(6) [OF F] by (auto simp: pending_sequences_def s)
  have "flow P ds ?w" if "\<not> mf_sequence f < cu_expected_downlink v"
    using F p(1,2) that f s unfolding flow_def by auto
  moreover have "cu_admission_inv Q ?w"
    using downlink_invD(5) [OF Iv] H p(1) admission_fields [OF C(1)] C(2) unfolding cu_admission_inv_def by auto
  ultimately have "downlink_inv 3 P Q ds (release_full (arm_reorder_deadline now (release_contiguous ?w)))" if "\<not> mf_sequence f < cu_expected_downlink v"
    using arrived_inv [of P ds ?w Q now] p(3) downlink_invD(3) [OF Iv] that by simp
  then show "keeps (downlink_inv 3 P Q ds) (if mf_sequence f < cu_expected_downlink v then (Inr (), v)
      else (Inr (), release_full (arm_reorder_deadline now (release_contiguous ?w))))"
    using Iv by (simp add: keeps_def)
qed


lemma flow_admission [simp]:
  "flow P ds (u\<lparr>cu_replay := w\<rparr>) = flow P ds u" "flow P ds (u\<lparr>cu_pending_control := c\<rparr>) = flow P ds u"
  "pending_sequences (u\<lparr>cu_replay := w\<rparr>) = pending_sequences u" "pending_sequences (u\<lparr>cu_pending_control := c\<rparr>) = pending_sequences u"
  by (simp_all add: flow_def pending_sequences_def)

lemma admission_waiting [simp]:
  "cu_admission (u\<lparr>cu_reorder := x\<rparr>) = cu_admission u" "cu_admission (u\<lparr>cu_non_audio_sequences := y\<rparr>) = cu_admission u"
  "cu_admission (u\<lparr>cu_ready := z\<rparr>) = cu_admission u"
  by (simp_all add: cu_admission_def cu_fixed_def)

text \<open>A number is committed once: it does not wait yet.\<close>

definition fresh_in :: "int \<Rightarrow> client_udp \<Rightarrow> bool" where
  "fresh_in n u \<longleftrightarrow> n \<notin> set (pending_sequences u) \<and> (\<exists>H. client_tracks (cu_replay u) H \<and> set (pending_sequences u) \<subseteq> H \<and> n \<in> H)"

lemma commit_downlink_inv:
  assumes I: "downlink_inv 3 P Q ds u" and c: "commit_downlink n u = (r, v)"
  shows "downlink_inv 3 P Q ds v" "cu_fixed v = cu_fixed u" "r = Inr a \<Longrightarrow> fresh_in n v"
proof -
  obtain H where H: "client_tracks (cu_replay u) H" "set (pending_sequences u) \<subseteq> H"
    using downlink_invD(5) [OF I] by (auto simp: cu_admission_inv_def)
  have fresh: "client_tracks w (insert n H) \<and> n \<notin> H" if "client_commit (cu_replay u) n = Some w" for w
  proof -
    have "acceptable (cu_replay u) n" using that client_replay.commit_iff [of "cu_replay u" n] by simp
    then have "is_uint32 n" "n \<notin> H" using client_replay.acceptable_fresh [OF H(1)] by (auto simp: acceptable_def)
    then show ?thesis using client_commit_tracks [OF H(1) that] by simp
  qed
  have v: "v = u \<and> (\<exists>e. r = Inl e) \<or> (\<exists>w. v = u\<lparr>cu_replay := w\<rparr> \<and> r = Inr () \<and> client_tracks w (insert n H) \<and> n \<notin> H)"
    using c fresh by (auto simp: commit_downlink_def split: option.splits)
  have "cu_admission_inv Q (u\<lparr>cu_replay := w\<rparr>)" if "client_tracks w (insert n H)" for w
    using downlink_invD(5) [OF I] H(2) that unfolding cu_admission_inv_def by auto
  then show "downlink_inv 3 P Q ds v"
    using v I unfolding downlink_inv_def by auto
  show "cu_fixed v = cu_fixed u" using v by (auto simp: cu_fixed_def)
  show "fresh_in n v" if "r = Inr a"
    using v that H(2) unfolding fresh_in_def by (auto intro!: exI [of _ "insert n H"])
qed

lemma fixed_admission: "cu_admission u' = cu_admission u \<Longrightarrow> cu_fixed u' = cu_fixed u"
  by (simp add: cu_admission_def)

lemma arm_admission [simp]: "cu_admission (arm_reorder_deadline now u) = cu_admission u"
  by (simp add: arm_reorder_deadline_def cu_admission_def cu_fixed_def)

lemma release_full_admission [simp]: "cu_admission (release_full u) = cu_admission u"
  by (simp add: release_full_def)

lemma buffer_non_audio_admission [simp]: "cu_admission (buffer_non_audio now f u) = cu_admission u"
  by (simp add: buffer_non_audio_def)

lemma cu_buffer_admission: "cu_buffer now f u = (r, v) \<Longrightarrow> cu_admission v = cu_admission u"
proof -
  assume b: "cu_buffer now f u = (r, v)"
  obtain c w where c: "check_freshness now f u = (c, w)" by fastforce
  have "cu_admission v = cu_admission w"
    using b c by (cases c) (auto simp: cu_buffer_def split: if_splits)
  then show ?thesis using check_freshness_fields(1) [OF c] by simp
qed


section \<open>Sections keep the invariant\<close>

text \<open>
  \<open>genuine\<close>: an audio frame of the session's media identity to which one of the datagrams \<open>D\<close> decrypts; \<open>admitted_by\<close>: one
  that, moreover, some validator of \<open>V\<close> admitted.
\<close>

definition genuine :: "aead \<Rightarrow> udp_cipher \<Rightarrow> bytes \<Rightarrow> int \<Rightarrow> bytes set \<Rightarrow> media_frame \<Rightarrow> bool" where
  "genuine A c mid epoch D f \<longleftrightarrow> mf_flags f = FLAG_AUDIO \<and> mf_media_id f = mid \<and> mf_media_epoch f = epoch \<and>
     (\<exists>d \<in> D. cipher_decrypt A c d = Inr f)"

definition admits :: "media_validator \<Rightarrow> media_frame \<Rightarrow> bool" where
  "admits v f = (case v of None \<Rightarrow> True | Some validate \<Rightarrow> validate f = Inr True)"

definition admitted_by :: "media_validator set \<Rightarrow> (media_frame \<Rightarrow> bool) \<Rightarrow> media_frame \<Rightarrow> bool" where
  "admitted_by V Q f \<longleftrightarrow> Q f \<and> (\<exists>v \<in> V. admits v f)"

definition cu_serves :: "media_validator set \<Rightarrow> (media_frame \<Rightarrow> bool) \<Rightarrow> media_frame list \<Rightarrow> client_udp \<Rightarrow> client_udp \<Rightarrow> bool" where
  "cu_serves V Q ds u0 u \<longleftrightarrow> downlink_inv 3 (admitted_by V Q) Q ds u \<and> cu_fixed u = cu_fixed u0"

lemma fresh_buffer_non_audio:
  "cu_serves V Q ds u0 u \<Longrightarrow> fresh_in (mf_sequence f) u \<Longrightarrow> cu_serves V Q ds u0 (buffer_non_audio now f u)"
  using buffer_non_audio_inv [of "admitted_by V Q" Q ds u _ f now] fixed_admission [OF buffer_non_audio_admission]
  unfolding cu_serves_def fresh_in_def by metis

lemma fresh_cu_buffer:
  assumes I: "cu_serves V Q ds u0 u" and n: "fresh_in (mf_sequence f) u" and f: "admitted_by V Q f"
  shows "keeps (cu_serves V Q ds u0) (cu_buffer now f u)"
proof -
  obtain r v where b: "cu_buffer now f u = (r, v)" by fastforce
  obtain H where "client_tracks (cu_replay u) H" "set (pending_sequences u) \<subseteq> H" "mf_sequence f \<in> H" using n by (auto simp: fresh_in_def)
  then have "keeps (downlink_inv 3 (admitted_by V Q) Q ds) (cu_buffer now f u)"
    using I n f by (intro cu_buffer_inv) (auto simp: cu_serves_def fresh_in_def)
  then show ?thesis using I b fixed_admission [OF cu_buffer_admission [OF b]] by (simp add: keeps_def cu_serves_def)
qed

lemma serves_release_gap: "cu_serves V Q ds u0 u \<Longrightarrow> cu_serves V Q ds u0 (release_gap u)"
  using release_gap_inv [of 3 "admitted_by V Q" Q ds u] downlink_inv_mono [of 3 _ _ _ u 4] fixed_admission [OF release_gap_admission [of u]]
  by (simp add: cu_serves_def)

lemma serves_expire: "cu_serves V Q ds u0 u \<Longrightarrow> keeps (cu_serves V Q ds u0) (expire_receive_deadlines now u)"
  unfolding expire_receive_deadlines_def by (auto simp: keeps_def serves_release_gap split: option.splits)

lemma fresh_release_gap: "fresh_in n u \<Longrightarrow> distinct (pending_sequences u) \<Longrightarrow> fresh_in n (release_gap u)"
  using release_gap_releases [of u] admission_fields(1) [OF release_gap_admission [of u]]
  unfolding fresh_in_def releases_def by (metis subset_iff subset_trans)

lemma expire_fresh: "fresh_in n u \<Longrightarrow> distinct (pending_sequences u) \<Longrightarrow> expire_receive_deadlines now u = (r, v) \<Longrightarrow> fresh_in n v"
  using fresh_release_gap by (auto simp: expire_receive_deadlines_def split: if_splits option.splits)

lemma serves_pop:
  assumes "cu_serves V Q ds u0 u" shows "cu_serves V Q ds u0 (u\<lparr>cu_pending_control := dict_pop n (cu_pending_control u)\<rparr>)"
proof -
  have "cu_admission_inv Q (u\<lparr>cu_pending_control := dict_pop n (cu_pending_control u)\<rparr>)"
    using assms length_dict_pop_le [of n "cu_pending_control u"] unfolding cu_serves_def downlink_inv_def cu_admission_inv_def
    by (auto simp: dict_pop_mem)
  then show ?thesis using assms unfolding cu_serves_def downlink_inv_def by (simp add: cu_fixed_def)
qed

lemma serves_commit:
  assumes "cu_serves V Q ds u0 u" "commit_downlink n u = (r, v)"
  shows "cu_serves V Q ds u0 v" "r = Inr a \<Longrightarrow> fresh_in n v"
  using commit_downlink_inv [OF _ assms(2)] assms(1) by (auto simp: cu_serves_def)

lemma accept_audio_serves:
  assumes I: "cu_serves V Q ds u0 u" and v: "Some validate \<in> V" and f: "Q f" and a: "accept_audio validate now f u = (r, u')"
  shows "cu_serves V Q ds u0 u' \<and> (\<forall>g. r = Inr (Some g) \<longrightarrow> g = f \<and> fresh_in (mf_sequence g) u' \<and> admitted_by V Q g)"
proof (cases "validate f")
  case (Inl e)
  have "cu_serves V Q ds u0 (u\<lparr>cu_pending_control := dict_set (mf_sequence f) (f, now) (cu_pending_control u)\<rparr>)"
    if "dict_get (cu_pending_control u) (mf_sequence f) = None" "length (cu_pending_control u) < 4"
  proof -
    have "dict_set (mf_sequence f) (f, now) (cu_pending_control u) = cu_pending_control u @ [(mf_sequence f, f, now)]"
      using that(1) by (intro dict_set_new) (simp add: map_of_eq_None_iff)
    moreover have "mf_sequence f \<notin> set (dict_keys (cu_pending_control u))" using that(1) by (simp add: map_of_eq_None_iff)
    ultimately have "cu_admission_inv Q (u\<lparr>cu_pending_control := dict_set (mf_sequence f) (f, now) (cu_pending_control u)\<rparr>)"
      using I f that(2) unfolding cu_serves_def downlink_inv_def cu_admission_inv_def by auto
    then show ?thesis using I unfolding cu_serves_def downlink_inv_def by (simp add: cu_fixed_def)
  qed
  then show ?thesis using a I Inl by (auto simp: accept_audio_def split: if_splits)
next
  case (Inr b)
  obtain c w where c: "commit_downlink (mf_sequence f) (u\<lparr>cu_pending_control := dict_pop (mf_sequence f) (cu_pending_control u)\<rparr>) = (c, w)"
    by fastforce
  note C = serves_commit [OF serves_pop [OF I] c]
  have "admits (Some validate) f" if b using Inr that by (simp add: admits_def)
  then have "admitted_by V Q f" if b using v f that by (auto simp: admitted_by_def)
  then show ?thesis
    using a Inr c C fresh_buffer_non_audio [OF C(1), of f now] by (cases c) (auto simp: accept_audio_def split: if_splits)
qed

lemma decrypt_header:
  assumes "decode_header True d = Inr (h, rest)" "cipher_decrypt A c d = Inr f"
  shows "mf_media_id f = mf_media_id h" "mf_media_epoch f = mf_media_epoch h" "mf_sequence f = mf_sequence h"
  using assms by (auto simp: cipher_decrypt_def split: option.splits)

lemma accept_cases:
  assumes a: "accept A v now ack d u = (r, u')"
  obtains (refused) e where "r = Inl e" "u' = u"
    | (opened) c f where "cu_downlink u = Some c" "cipher_decrypt A c d = Inr f" "mf_media_id f = cu_media_id u" "mf_media_epoch f = cu_media_epoch u"
        "ack \<longrightarrow> is_probe_ack f" "accept_opened v now f u = (r, u')"
proof (cases "cu_downlink u")
  case None
  then show thesis using a refused by (auto simp: accept_def)
next
  case (Some c)
  note c = this
  show thesis
  proof (cases "decode_header True d")
    case (Inl e)
    then show thesis using a refused by (auto simp: accept_def c)
  next
    case (Inr x)
    obtain h rest where h: "decode_header True d = Inr (h, rest)" using Inr by (cases x) auto
    show thesis
    proof (cases "cipher_decrypt A c d")
      case (Inl e)
      then show thesis using a refused by (auto simp: accept_def c h split: if_splits)
    next
      case (Inr f)
      then show thesis using a refused opened [OF c Inr] decrypt_header [OF h Inr] by (auto simp: accept_def c h split: if_splits)
    qed
  qed
qed

definition covers :: "aead \<Rightarrow> udp_cipher \<Rightarrow> client_udp \<Rightarrow> (media_frame \<Rightarrow> bool) \<Rightarrow> bytes \<Rightarrow> bool" where
  "covers A c u0 Q d \<longleftrightarrow> (\<forall>f. cu_downlink u0 = Some c \<longrightarrow> mf_flags f = FLAG_AUDIO \<longrightarrow> mf_media_id f = cu_media_id u0 \<longrightarrow> mf_media_epoch f = cu_media_epoch u0 \<longrightarrow>
     cipher_decrypt A c d = Inr f \<longrightarrow> Q f)"

lemma accept_serves:
  assumes I: "cu_serves V Q ds u0 u" and v: "v \<in> V" and dn: "cu_downlink u0 \<in> {None, Some c}"
    and Q: "covers A c u0 Q d"
    and a: "accept A v now ack d u = (r, u')"
  shows "cu_serves V Q ds u0 u' \<and> (\<forall>f. r = Inr (Some f) \<longrightarrow> fresh_in (mf_sequence f) u' \<and> (mf_flags f = FLAG_AUDIO \<longrightarrow> admitted_by V Q f))"
  using a
proof (cases rule: accept_cases)
  case refused
  then show ?thesis using I by simp
next
  case (opened c' f)
  have fx: "cu_downlink u = cu_downlink u0" "cu_media_id u = cu_media_id u0" "cu_media_epoch u = cu_media_epoch u0"
    using I by (simp_all add: cu_serves_def cu_fixed_def)
  have q: "Q f" if "mf_flags f = FLAG_AUDIO" using Q that opened(1-4) dn fx by (auto simp: covers_def)
  show ?thesis
  proof (cases "mf_flags f = FLAG_AUDIO \<and> v \<noteq> None")
    case True
    then have "accept_audio (the v) now f u = (r, u')" "Some (the v) \<in> V" using opened(6) v by (simp_all add: accept_opened_def)
    then show ?thesis using accept_audio_serves [OF I _ q] True by blast
  next
    case False
    then have "(r, u') = bind_op (commit_downlink (mf_sequence f) u) (\<lambda>_ u. (Inr (Some f), u))" using opened(6) by (auto simp: accept_opened_def)
    moreover obtain c' w where "commit_downlink (mf_sequence f) u = (c', w)" by fastforce
    moreover have "mf_flags f = FLAG_AUDIO \<longrightarrow> admits v f" using False by (auto simp: admits_def)
    then have "mf_flags f = FLAG_AUDIO \<longrightarrow> admitted_by V Q f" using q v by (auto simp: admitted_by_def)
    ultimately show ?thesis using serves_commit [OF I] by (cases c') auto
  qed
qed


lemma accept_or_none_serves:
  assumes I: "cu_serves V Q ds u0 u" and v: "v \<in> V" and dn: "cu_downlink u0 \<in> {None, Some c}"
    and Q: "covers A c u0 Q d"
    and a: "accept_or_none A v now ack d u = (r, u')"
  shows "cu_serves V Q ds u0 u' \<and> (\<forall>f. r = Inr (Some f) \<longrightarrow> fresh_in (mf_sequence f) u' \<and> (mf_flags f = FLAG_AUDIO \<longrightarrow> admitted_by V Q f))"
proof -
  obtain r' w where r: "accept A v now ack d u = (r', w)" by fastforce
  have "w = u' \<and> (r = r' \<or> r = Inr None)"
  proof (cases r')
    case (Inl e)
    show ?thesis
    proof (cases e)
      case (ClientRaised x)
      then show ?thesis using a r Inl by (cases x) (auto simp: accept_or_none_def)
    qed (use a r Inl in \<open>auto simp: accept_or_none_def\<close>)
  qed (use a r in \<open>auto simp: accept_or_none_def\<close>)
  then show ?thesis using accept_serves [OF I v dn Q r] by auto
qed

lemma admit_pending_frame_serves:
  assumes I: "cu_serves V Q ds u0 u" and v: "Some validate \<in> V"
  shows "keeps (cu_serves V Q ds u0) (admit_pending_frame validate now n u)"
proof (cases "dict_get (cu_pending_control u) n")
  case None
  then show ?thesis using I by (simp add: admit_pending_frame_def keeps_def)
next
  case (Some x)
  obtain f t where x: "x = (f, t)" by fastforce
  have "(n, f, t) \<in> set (cu_pending_control u)" using map_of_SomeD [OF Some] x by simp
  then have f: "mf_sequence f = n" "Q f" using I unfolding cu_serves_def downlink_inv_def cu_admission_inv_def by fastforce+
  note pop = serves_pop [OF I, of n]
  obtain c w where c: "commit_downlink (mf_sequence f) (u\<lparr>cu_pending_control := dict_pop n (cu_pending_control u)\<rparr>) = (c, w)" by fastforce
  note C = serves_commit [OF pop c]
  show ?thesis
  proof (cases "validate f")
    case (Inl e)
    then show ?thesis using I pop Some x by (auto simp: admit_pending_frame_def keeps_def split: client_error.split)
  next
    case (Inr b)
    have "admits (Some validate) f" if b using Inr that by (simp add: admits_def)
    then have "admitted_by V Q f" if b using v f that by (auto simp: admitted_by_def)
    then have "keeps (cu_serves V Q ds u0) (if b then cu_buffer now f w else (Inr (), buffer_non_audio now f w))" if "c = Inr a" for a
      using fresh_cu_buffer [OF C(1), of f now] fresh_buffer_non_audio [OF C(1), of f now] C(2) [OF that] by (simp add: keeps_def)
    then show ?thesis
      using I C(1) Some x Inr c by (cases c) (auto simp: admit_pending_frame_def keeps_def)
  qed
qed

lemma admit_loop_serves:
  "cu_serves V Q ds u0 u \<Longrightarrow> Some validate \<in> V \<Longrightarrow> keeps (cu_serves V Q ds u0) (admit_loop validate now ns u)"
proof (induction ns arbitrary: u)
  case Nil
  then show ?case by (simp add: keeps_def)
next
  case (Cons n ns)
  then show ?case using admit_pending_frame_serves [of V Q ds u0 u validate now n] by (auto intro!: keeps_bind)
qed

lemma admit_pending_control_serves:
  "cu_serves V Q ds u0 u \<Longrightarrow> v \<in> V \<Longrightarrow> keeps (cu_serves V Q ds u0) (admit_pending_control v now u)"
  using admit_loop_serves by (auto simp: admit_pending_control_def keeps_pair split: option.splits)

text \<open>A section hands over what it returns.\<close>

definition hands :: "media_validator set \<Rightarrow> (media_frame \<Rightarrow> bool) \<Rightarrow> media_frame list \<Rightarrow> client_udp \<Rightarrow> receive_outcome udp_op \<Rightarrow> bool" where
  "hands V Q ds u0 m \<longleftrightarrow> cu_serves V Q (ds @ returned (fst m)) u0 (snd m)"

lemma hands_Inl [intro]: "cu_serves V Q ds u0 u \<Longrightarrow> hands V Q ds u0 (Inl e, u)"
  by (simp add: hands_def returned_def)

lemma hands_bind:
  "keeps (cu_serves V Q ds u0) m \<Longrightarrow> (\<And>a u. m = (Inr a, u) \<Longrightarrow> cu_serves V Q ds u0 u \<Longrightarrow> hands V Q ds u0 (k a u)) \<Longrightarrow> hands V Q ds u0 (bind_op m k)"
  by (cases m; cases "fst m") (auto simp: keeps_def)

lemma serves_deliver:
  assumes I: "cu_serves V Q ds u0 u" and r: "cu_ready u = f # fs"
  shows "hands V Q ds u0 (Inr (Received f), u\<lparr>cu_ready := fs\<rparr>)"
proof -
  have "flow P (ds @ [f]) (u\<lparr>cu_ready := fs\<rparr>) = flow P ds u" for P using r by (simp add: flow_def pending_sequences_def)
  moreover have "pending_sequences (u\<lparr>cu_ready := fs\<rparr>) = pending_sequences u" by (simp add: pending_sequences_def)
  ultimately show ?thesis using I
    by (simp add: hands_def returned_def cu_serves_def downlink_inv_def cu_admission_inv_def cu_fixed_def)
qed

lemma hands_ready_or:
  "cu_serves V Q ds u0 u \<Longrightarrow> (cu_serves V Q ds u0 u \<Longrightarrow> hands V Q ds u0 (k u)) \<Longrightarrow> hands V Q ds u0 (ready_or k u)"
  using serves_deliver by (auto simp: ready_or_def split: list.splits)

lemma receive_wait_hands: "cu_serves V Q ds u0 u \<Longrightarrow> hands V Q ds u0 (receive_wait now wall u)"
  unfolding receive_wait_def
  by (auto intro!: hands_bind serves_expire serves_deliver split: list.splits) (auto simp: hands_def returned_def)

lemma receive_start_hands: "cu_serves V Q ds u0 u \<Longrightarrow> v \<in> V \<Longrightarrow> hands V Q ds u0 (receive_start v now wall u)"
  unfolding receive_start_def
  by (auto intro!: hands_bind hands_ready_or receive_wait_hands admit_pending_control_serves simp: keeps_def)

lemma receive_timeout_hands: "cu_serves V Q ds u0 u \<Longrightarrow> v \<in> V \<Longrightarrow> hands V Q ds u0 (receive_timeout v now wall u)"
  unfolding receive_timeout_def
  by (auto intro!: hands_bind hands_ready_or receive_wait_hands admit_pending_control_serves serves_release_gap)

lemma receive_datagram_hands:
  assumes I: "cu_serves V Q ds u0 u" and v: "v \<in> V" and dn: "cu_downlink u0 \<in> {None, Some c}"
    and Q: "covers A c u0 Q d"
  shows "hands V Q ds u0 (receive_datagram A v now wall d u)"
  unfolding receive_datagram_def
proof (rule hands_bind)
  note acc = accept_or_none_serves [OF I v dn Q]
  show "keeps (cu_serves V Q ds u0) (accept_or_none A v now False d u)"
    using acc by (cases "accept_or_none A v now False d u") (simp add: keeps_def)
  fix a w assume a: "accept_or_none A v now False d u = (Inr a, w)" and w: "cu_serves V Q ds u0 w"
  have fr: "fresh_in (mf_sequence f) w \<and> (mf_flags f = FLAG_AUDIO \<longrightarrow> admitted_by V Q f)" if "a = Some f" for f using acc [OF a] that by blast
  show "hands V Q ds u0 (bind_op (expire_receive_deadlines now w) (\<lambda>_. ready_or (\<lambda>u. case a of
        None \<Rightarrow> receive_wait now wall u
      | Some f \<Rightarrow> if mf_flags f \<noteq> FLAG_AUDIO then ready_or (receive_wait now wall) (buffer_non_audio now f u)
          else bind_op (cu_buffer now f u) (\<lambda>_. ready_or (receive_wait now wall)))))"
  proof (rule hands_bind [OF serves_expire [OF w]], rule hands_ready_or)
    fix b y assume y: "expire_receive_deadlines now w = (Inr b, y)" and Iy: "cu_serves V Q ds u0 y"
    have d: "distinct (pending_sequences w)" using w unfolding cu_serves_def downlink_inv_def flow_def by blast
    show "cu_serves V Q ds u0 y" by fact
    show "hands V Q ds u0 (case a of None \<Rightarrow> receive_wait now wall y
      | Some f \<Rightarrow> if mf_flags f \<noteq> FLAG_AUDIO then ready_or (receive_wait now wall) (buffer_non_audio now f y)
          else bind_op (cu_buffer now f y) (\<lambda>_. ready_or (receive_wait now wall)))"
    proof (cases a)
      case None
      then show ?thesis using receive_wait_hands [OF Iy] by simp
    next
      case (Some f)
      have n: "fresh_in (mf_sequence f) y" using expire_fresh [OF _ d y] fr [OF Some] by blast
      show ?thesis
        using Some fr [OF Some] fresh_buffer_non_audio [OF Iy n] fresh_cu_buffer [OF Iy n]
        by (auto intro!: hands_bind hands_ready_or receive_wait_hands)
    qed
  qed
qed


section \<open>Runs keep the invariants\<close>

fun call_validators :: "udp_call \<Rightarrow> media_validator set" where
  "call_validators (CStart v _ _) = {v}"
| "call_validators (CTimeout v _ _) = {v}"
| "call_validators (CDatagram v _ _ _) = {v}"
| "call_validators _ = {}"

fun call_datagrams :: "udp_call \<Rightarrow> bytes set" where
  "call_datagrams (CDatagram _ _ _ d) = {d}"
| "call_datagrams _ = {}"

definition run_inv :: "aead \<Rightarrow> udp_cipher \<Rightarrow> bytes \<Rightarrow> int \<Rightarrow> media_validator set \<Rightarrow> bytes set \<Rightarrow> media_frame list \<Rightarrow> client_udp \<Rightarrow> bool" where
  "run_inv A c mid epoch V D ds u \<longleftrightarrow> downlink_inv 3 (admitted_by V (genuine A c mid epoch D)) (genuine A c mid epoch D) ds u \<and>
     (cu_downlink u = None \<or> cu_downlink u = Some c \<and> cu_media_id u = mid \<and> cu_media_epoch u = epoch)"

lemma run_inv_hands:
  assumes "run_inv A c mid epoch V D ds u" "hands V (genuine A c mid epoch D) ds u m"
  shows "run_inv A c mid epoch V D (ds @ fst (apfst returned m)) (snd (apfst returned m))"
  using assms by (cases m) (auto simp: run_inv_def hands_def cu_serves_def cu_fixed_def)

lemma downlink_inv_uplink [simp]:
  "downlink_inv n P Q ds (u\<lparr>cu_port := p\<rparr>) \<longleftrightarrow> downlink_inv n P Q ds u"
  "downlink_inv n P Q ds (u\<lparr>cu_next_uplink := k\<rparr>) \<longleftrightarrow> downlink_inv n P Q ds u"
  by (rule downlink_inv_cong; simp)+

lemma cu_send_state:
  assumes "cu_send A flags payload ts g u = (r, u')"
  obtains (same) "u' = u" | (sent) d sent where "cu_port u = Some sent" "cu_next_uplink u \<le> uint32_max"
    "cu_encode A flags payload ts g (cu_next_uplink u) u = Inr d" "u' = u\<lparr>cu_port := Some (sent @ [d]), cu_next_uplink := cu_next_uplink u + 1\<rparr>"
  using assms by (cases "cu_encode A flags payload ts g (cu_next_uplink u) u") (auto simp: cu_send_def port_send_def split: if_splits option.splits)

lemma cu_send_run_inv: "run_inv A c mid epoch V D ds u \<Longrightarrow> run_inv A c mid epoch V D ds (snd (cu_send A flags payload ts g u))"
proof -
  assume I: "run_inv A c mid epoch V D ds u"
  obtain r u' where u': "cu_send A flags payload ts g u = (r, u')" by fastforce
  then show ?thesis by (cases rule: cu_send_state) (use I u' in \<open>auto simp: run_inv_def\<close>)
qed

lemma close_run_inv: "run_inv A c mid epoch V D ds u \<Longrightarrow> run_inv A c mid epoch V D ds (udp_close u)"
  unfolding run_inv_def downlink_inv_def flow_def cu_admission_inv_def by (auto simp: udp_close_def pending_sequences_def sorted_wrt_append)

lemma snd_guarded: "snd (bind_op (r, s) (\<lambda>_. f)) = (case r of Inl e \<Rightarrow> s | Inr a \<Rightarrow> snd (f s))"
  by (cases r) simp_all

lemma udp_call_step_run_inv:
  assumes I: "run_inv A c mid epoch V D ds u" and V: "call_validators x \<subseteq> V" and D: "call_datagrams x \<subseteq> D"
  shows "run_inv A c mid epoch V D (ds @ fst (udp_call_step A x u)) (snd (udp_call_step A x u))"
proof -
  have s: "cu_serves V (genuine A c mid epoch D) ds u u" using I by (simp add: run_inv_def cu_serves_def)
  show ?thesis
  proof (cases x)
    case (CDatagram v now wall d)
    have "covers A c u (genuine A c mid epoch D) d" using D CDatagram I by (auto simp: covers_def run_inv_def genuine_def)
    moreover have "v \<in> V" "cu_downlink u \<in> {None, Some c}" using V CDatagram I by (auto simp: run_inv_def)
    ultimately show ?thesis using run_inv_hands [OF I receive_datagram_hands [OF s]] CDatagram by simp
  qed (use V run_inv_hands [OF I receive_start_hands [OF s]] run_inv_hands [OF I receive_timeout_hands [OF s]] cu_send_run_inv [OF I] close_run_inv [OF I] I in
      \<open>auto simp: send_audio_def send_keepalive_def snd_guarded split: sum.split\<close>)
qed

lemma udp_calls_run_inv:
  "run_inv A c mid epoch V D ds u \<Longrightarrow> \<Union> (call_validators ` set cs) \<subseteq> V \<Longrightarrow> \<Union> (call_datagrams ` set cs) \<subseteq> D \<Longrightarrow>
    run_inv A c mid epoch V D (ds @ fst (udp_calls A cs u)) (snd (udp_calls A cs u))"
proof (induction cs arbitrary: ds u)
  case (Cons x cs)
  obtain fs u' where x: "udp_call_step A x u = (fs, u')" by fastforce
  then have "run_inv A c mid epoch V D (ds @ fs) u'" using udp_call_step_run_inv [OF Cons.prems(1), of x] Cons.prems(2,3) by simp
  from Cons.IH [OF this] Cons.prems(2,3) show ?case using x by (simp add: split_beta)
qed simp


section \<open>Opening\<close>

lemma accept_or_none_ack:
  assumes "accept_or_none A v now True d u = (r, u')"
  obtains (ignored) "r = Inr None" "u' = u" | (failed) e where "r = Inl e" "u' = u"
    | (ack) f w where "r = Inr (Some f)" "is_probe_ack f" "client_commit (cu_replay u) 0 = Some w" "u' = u\<lparr>cu_replay := w\<rparr>"
proof -
  obtain r' w' where a: "accept A v now True d u = (r', w')" by fastforce
  have opened: "(\<exists>e. r' = Inl e \<and> w' = u) \<or> (\<exists>f w. r' = Inr (Some f) \<and> is_probe_ack f \<and> client_commit (cu_replay u) 0 = Some w \<and> w' = u\<lparr>cu_replay := w\<rparr>)"
    using a
  proof (cases rule: accept_cases)
    case (opened c f)
    then have "is_probe_ack f" by simp
    then have "mf_flags f \<noteq> FLAG_AUDIO" "mf_sequence f = 0" by (auto simp: is_probe_ack_def client_consts)
    then show ?thesis using opened(6) \<open>is_probe_ack f\<close> by (auto simp: accept_opened_def commit_downlink_def split: option.splits)
  qed blast
  then consider (err) e where "r' = Inl e" "w' = u"
    | (ok) f w where "r' = Inr (Some f)" "is_probe_ack f" "client_commit (cu_replay u) 0 = Some w" "w' = u\<lparr>cu_replay := w\<rparr>" by blast
  then show thesis
  proof cases
    case err
    have "u' = u \<and> (r = Inr None \<or> (\<exists>e. r = Inl e))"
    proof (cases e)
      case (ClientRaised x)
      then show ?thesis using assms a err by (cases x) (auto simp: accept_or_none_def)
    qed (use assms a err in \<open>auto simp: accept_or_none_def\<close>)
    then show thesis using ignored failed by blast
  next
    case ok
    then show thesis using assms a ack by (auto simp: accept_or_none_def)
  qed
qed

lemma probe_loop_opened:
  "probe_loop A v probe deadline now answers u = (Inr (Some ()), u') \<Longrightarrow> cu_port u = Some sent \<Longrightarrow>
    \<exists>k w. client_commit (cu_replay u) 0 = Some w \<and> u' = u\<lparr>cu_port := Some (sent @ replicate k probe), cu_replay := w, cu_next_uplink := 1\<rparr>"
proof (induction answers arbitrary: now u sent)
  case Nil
  then show ?case by (simp add: probe_loop.simps port_send_def split: if_splits)
next
  case (Cons x rest)
  obtain a now' where x: "x = (a, now')" by fastforce
  let ?u = "u\<lparr>cu_port := Some (sent @ [probe])\<rparr>"
  have again: ?case if l: "probe_loop A v probe deadline now' rest ?u = (Inr (Some ()), u')"
  proof -
    obtain k w where "client_commit (cu_replay u) 0 = Some w"
      "u' = ?u\<lparr>cu_port := Some ((sent @ [probe]) @ replicate k probe), cu_replay := w, cu_next_uplink := 1\<rparr>"
      using Cons.IH [OF l] by auto
    then show ?thesis by (intro exI [of _ "Suc k"] exI [of _ w]) simp
  qed
  show ?case
  proof (cases a)
    case ProbeTimeout
    then show ?thesis using again Cons.prems x by (subst (asm) probe_loop.simps) (simp add: port_send_def split: if_splits)
  next
    case (ProbeDatagram d)
    obtain r w where r: "accept_or_none A v now' True d ?u = (r, w)" by fastforce
    from Cons.prems have p: "bind_op (r, w) (\<lambda>frame u. case frame of None \<Rightarrow> probe_loop A v probe deadline now' rest u
        | Some f \<Rightarrow> if mf_flags f = FLAG_PROBE_ACK then (Inr (Some ()), u\<lparr>cu_next_uplink := 1\<rparr>) else probe_loop A v probe deadline now' rest u) = (Inr (Some ()), u')"
      using x ProbeDatagram r by (subst (asm) probe_loop.simps) (simp add: port_send_def split: if_splits)
    from r show ?thesis
    proof (cases rule: accept_or_none_ack)
      case (ack f w')
      then show ?thesis using p by (intro exI [of _ 1] exI [of _ w']) (simp add: is_probe_ack_def)
    qed (use p again in auto)
  qed
qed

lemma udp_open_opened:
  assumes "udp_open A v g mid epoch now answers u = (Inr (Some ()), u0)"
  obtains k w probe up down where "udp_cipher_init (cg_uplink_key g) (cg_uplink_salt g) = Inr up" "udp_cipher_init (cg_downlink_key g) (cg_downlink_salt g) = Inr down"
    "cipher_encrypt A up \<lparr>mf_flags = FLAG_PROBE, mf_media_id = mid, mf_media_epoch = epoch, mf_sequence = 0, mf_timestamp = 0, mf_generation = 0, mf_payload = []\<rparr> = Inr probe"
    "client_commit client_window_init 0 = Some w"
    "u0 = (udp_reset u)\<lparr>cu_port := Some (replicate k probe), cu_grant := Some g, cu_media_id := mid, cu_media_epoch := epoch, cu_uplink := Some up,
      cu_downlink := Some down, cu_refresh_at := now + of_int (cg_refresh_after_ms g) / 1000, cu_replay := w, cu_next_uplink := 1\<rparr>"
proof -
  obtain up where up: "udp_cipher_init (cg_uplink_key g) (cg_uplink_salt g) = Inr up"
    using assms by (cases "udp_cipher_init (cg_uplink_key g) (cg_uplink_salt g)") (auto simp: udp_open_def udp_open_ciphers_def Let_def split: if_splits)
  obtain down where down: "udp_cipher_init (cg_downlink_key g) (cg_downlink_salt g) = Inr down"
    using assms up by (cases "udp_cipher_init (cg_downlink_key g) (cg_downlink_salt g)") (auto simp: udp_open_def udp_open_ciphers_def Let_def split: if_splits)
  define u1 where "u1 = (udp_reset u)\<lparr>cu_port := Some [], cu_grant := Some g, cu_media_id := mid, cu_media_epoch := epoch, cu_uplink := Some up,
      cu_downlink := Some down, cu_refresh_at := now + of_int (cg_refresh_after_ms g) / 1000\<rparr>"
  let ?f = "\<lparr>mf_flags = FLAG_PROBE, mf_media_id = mid, mf_media_epoch = epoch, mf_sequence = 0, mf_timestamp = 0, mf_generation = 0, mf_payload = []\<rparr>"
  have p: "cu_probe A v now answers u1 = (Inr (Some ()), u0)"
    using assms up down by (auto simp: udp_open_def udp_open_ciphers_def Let_def u1_def split: if_splits prod.splits sum.splits)
  obtain probe where probe: "cipher_encrypt A up ?f = Inr probe"
    using p by (cases "cipher_encrypt A up ?f") (auto simp: cu_probe_def cu_encode_def u1_def)
  then have "probe_loop A v probe (now + of_int (cg_probe_timeout_ms g) / 1000) now answers u1 = (Inr (Some ()), u0)"
    using p by (auto simp: cu_probe_def cu_encode_def u1_def)
  from probe_loop_opened [OF this, of "[]"] obtain k w where "client_commit (cu_replay u1) 0 = Some w"
    "u0 = u1\<lparr>cu_port := Some (replicate k probe), cu_replay := w, cu_next_uplink := 1\<rparr>" by (auto simp: u1_def)
  then show thesis using that [OF up down probe, of w k] by (simp add: u1_def udp_reset_def)
qed

lemma udp_open_run_inv:
  assumes "udp_open A v g mid epoch now answers u = (Inr (Some ()), u0)"
  shows "run_inv A \<lparr>uc_key = cg_downlink_key g, uc_salt = cg_downlink_salt g\<rparr> mid epoch V D [] u0"
  using assms
proof (cases rule: udp_open_opened)
  case (1 k w probe up down)
  have "client_tracks w {0}" using client_commit_tracks [OF client_replay.tracks_init 1(4)] by simp
  then show ?thesis using 1(2,5)
    by (auto simp: run_inv_def downlink_inv_def flow_def cu_admission_inv_def pending_sequences_def udp_reset_def udp_cipher_init_def split: if_splits)
qed


section \<open>The uplink\<close>

lemma encrypt_sequence: "cipher_encrypt A c f = Inr d \<Longrightarrow> packet_sequence d = mf_sequence f"
  by (auto simp: cipher_encrypt_def bind_result_Inr_iff client_header_eq packet_sequence_def client_struct_wf header_unpack_wire split: if_splits)
    (simp add: client_struct_def)

lemma encode_packet_sequence: "cu_encode A flags payload ts g n u = Inr d \<Longrightarrow> packet_sequence d = n"
  by (auto simp: cu_encode_def dest!: encrypt_sequence split: option.splits sum.splits)

definition cu_uplink_inv :: "client_udp \<Rightarrow> bool" where
  "cu_uplink_inv u \<longleftrightarrow> (\<forall>sent. cu_port u = Some sent \<longrightarrow> (\<forall>d \<in> set sent. packet_sequence d < cu_next_uplink u) \<and> inj_on packet_sequence (set sent))"

lemma cu_send_uplink: "cu_uplink_inv u \<Longrightarrow> cu_uplink_inv (snd (cu_send A flags payload ts g u))"
proof -
  assume I: "cu_uplink_inv u"
  obtain r u' where u': "cu_send A flags payload ts g u = (r, u')" by fastforce
  then show ?thesis
  proof (cases rule: cu_send_state)
    case (sent d ls)
    then have d: "packet_sequence d = cu_next_uplink u" using encode_packet_sequence by blast
    have ls: "packet_sequence e < cu_next_uplink u" if "e \<in> set ls" for e using I sent(1) that by (simp add: cu_uplink_inv_def)
    have "inj_on packet_sequence (set ls)" using I sent(1) by (simp add: cu_uplink_inv_def)
    then have "inj_on packet_sequence (insert d (set ls))" using ls d by (force simp: inj_on_insert)
    moreover have "packet_sequence e < cu_next_uplink u + 1" if "e \<in> insert d (set ls)" for e using ls [of e] d that by auto
    ultimately show ?thesis using u' sent(4) by (simp add: cu_uplink_inv_def)
  qed (use I u' in simp)
qed

lemma udp_call_step_uplink:
  assumes I: "run_inv A c mid epoch V D ds u" and V: "call_validators x \<subseteq> V" and D: "call_datagrams x \<subseteq> D" and U: "cu_uplink_inv u"
  shows "cu_uplink_inv (snd (udp_call_step A x u))"
proof -
  have s: "cu_serves V (genuine A c mid epoch D) ds u u" using I by (simp add: run_inv_def cu_serves_def)
  have fx: "cu_uplink_inv (snd m)" if "hands V (genuine A c mid epoch D) ds u m" for m
    using that U by (simp add: hands_def cu_serves_def cu_fixed_def cu_uplink_inv_def)
  show ?thesis
  proof (cases x)
    case (CDatagram v now wall d)
    have "covers A c u (genuine A c mid epoch D) d" using D CDatagram I by (auto simp: covers_def run_inv_def genuine_def)
    moreover have "v \<in> V" "cu_downlink u \<in> {None, Some c}" using V CDatagram I by (auto simp: run_inv_def)
    ultimately show ?thesis using fx [OF receive_datagram_hands [OF s]] CDatagram by simp
  qed (use V fx [OF receive_start_hands [OF s]] fx [OF receive_timeout_hands [OF s]] cu_send_uplink [OF U] U in
      \<open>auto simp: send_audio_def send_keepalive_def snd_guarded cu_uplink_inv_def udp_close_def split: sum.split\<close>)
qed

lemma udp_calls_uplink:
  "run_inv A c mid epoch UNIV UNIV ds u \<Longrightarrow> cu_uplink_inv u \<Longrightarrow> cu_uplink_inv (snd (udp_calls A cs u))"
proof (induction cs arbitrary: ds u)
  case (Cons x cs)
  obtain fs u' where x: "udp_call_step A x u = (fs, u')" by fastforce
  then show ?case using Cons.IH [of "ds @ fs" u'] udp_call_step_run_inv [OF Cons.prems(1), of x] udp_call_step_uplink [OF Cons.prems(1) _ _ Cons.prems(2), of x]
    by (simp add: split_beta)
qed simp

lemma udp_open_uplink:
  assumes "udp_open A v g mid epoch now answers u = (Inr (Some ()), u0)"
  shows "cu_uplink_inv u0"
  using assms
proof (cases rule: udp_open_opened)
  case (1 k w probe up down)
  then show ?thesis using encrypt_sequence [OF 1(3)] by (auto simp: cu_uplink_inv_def inj_on_def set_replicate_conv_if)
qed

section \<open>A genuine datagram is accepted\<close>

lemma accept_decrypted:
  assumes c: "cu_downlink u = Some c" and f: "cipher_decrypt A c d = Inr f" and i: "mf_media_id f = cu_media_id u" "mf_media_epoch f = cu_media_epoch u"
    and w: "acceptable (cu_replay u) (mf_sequence f)"
  shows "accept A v now ack d u = (if ack \<and> \<not> is_probe_ack f then (Inl (ClientRaised (ProtocolError ''invalid_probe_ack'')), u) else accept_opened v now f u)"
proof -
  obtain h rest where h: "decode_header True d = Inr (h, rest)" using f by (auto simp: cipher_decrypt_def bind_result_Inr_iff)
  show ?thesis using c f i w decrypt_header [OF h f] h by (simp add: accept_def)
qed

lemma probe_loop_answered:
  assumes l: "\<forall>t \<in> set ts. t < deadline" "now < deadline" and p: "cu_port u \<noteq> None" and c: "cu_downlink u = Some c"
    and f: "cipher_decrypt A c d = Inr f" "is_probe_ack f" and i: "mf_media_id f = cu_media_id u" "mf_media_epoch f = cu_media_epoch u"
    and w: "cu_replay u = client_window_init"
  shows "\<exists>u'. probe_loop A v probe deadline now (map (Pair ProbeTimeout) ts @ [(ProbeDatagram d, t)]) u = (Inr (Some ()), u')"
  using l p c i w
proof (induction ts arbitrary: now u)
  case Nil
  obtain sent where "cu_port u = Some sent" using Nil.prems by blast
  moreover have "mf_sequence f = 0" "mf_flags f = FLAG_PROBE_ACK" "mf_flags f \<noteq> FLAG_AUDIO" using f(2) by (auto simp: is_probe_ack_def client_consts)
  moreover have "acceptable client_window_init 0" by (simp add: acceptable_def client_window_init_def is_uint32_def uint32_max_def)
  moreover obtain w' where "client_commit client_window_init 0 = Some w'" using client_replay.commit_iff [of client_window_init 0] calculation(5) by blast
  ultimately show ?case
    using Nil.prems accept_decrypted [of "u\<lparr>cu_port := Some (sent @ [probe])\<rparr>" c A d f v t True] f
    by (auto simp: probe_loop.simps port_send_def accept_or_none_def accept_opened_def commit_downlink_def)
next
  case (Cons t' ts)
  obtain sent where s: "cu_port u = Some sent" using Cons.prems by blast
  have "\<exists>u'. probe_loop A v probe deadline t' (map (Pair ProbeTimeout) ts @ [(ProbeDatagram d, t)]) (u\<lparr>cu_port := Some (sent @ [probe])\<rparr>) = (Inr (Some ()), u')"
    using Cons.prems by (intro Cons.IH) auto
  then show ?case using Cons.prems s by (subst probe_loop.simps) (simp add: port_send_def)
qed

text \<open>Opening, up to the probe: the transport that waits for its first answer.\<close>

lemma udp_open_probing:
  assumes "cu_port u = None" and up: "udp_cipher_init (cg_uplink_key g) (cg_uplink_salt g) = Inr up"
    and down: "udp_cipher_init (cg_downlink_key g) (cg_downlink_salt g) = Inr down"
    and probe: "cipher_encrypt A up \<lparr>mf_flags = FLAG_PROBE, mf_media_id = mid, mf_media_epoch = epoch, mf_sequence = 0, mf_timestamp = 0,
      mf_generation = 0, mf_payload = []\<rparr> = Inr probe"
  shows "udp_open A v g mid epoch now answers u = (case probe_loop A v probe (now + of_int (cg_probe_timeout_ms g) / 1000) now answers
      ((udp_reset u)\<lparr>cu_port := Some [], cu_grant := Some g, cu_media_id := mid, cu_media_epoch := epoch, cu_uplink := Some up,
        cu_downlink := Some down, cu_refresh_at := now + of_int (cg_refresh_after_ms g) / 1000\<rparr>) of
      (Inl e, u') \<Rightarrow> (Inl e, udp_close u') | (Inr r, u') \<Rightarrow> (Inr r, u'))"
  using assms by (simp add: udp_open_def udp_open_ciphers_def Let_def cu_probe_def cu_encode_def udp_reset_def)

lemma udp_open_answered:
  assumes closed: "cu_port u = None" and up: "udp_cipher_init (cg_uplink_key g) (cg_uplink_salt g) = Inr up"
    and down: "udp_cipher_init (cg_downlink_key g) (cg_downlink_salt g) = Inr down"
    and probe: "cipher_encrypt A up \<lparr>mf_flags = FLAG_PROBE, mf_media_id = mid, mf_media_epoch = epoch, mf_sequence = 0, mf_timestamp = 0,
      mf_generation = 0, mf_payload = []\<rparr> = Inr probe"
    and early: "0 < cg_probe_timeout_ms g" "\<forall>t \<in> set ts. t < now + of_int (cg_probe_timeout_ms g) / 1000"
    and ack: "cipher_decrypt A down reply = Inr f" "is_probe_ack f" "mf_media_id f = mid" "mf_media_epoch f = epoch"
  shows "\<exists>u'. udp_open A v g mid epoch now (map (Pair ProbeTimeout) ts @ [(ProbeDatagram reply, t)]) u = (Inr (Some ()), u')"
proof -
  define u1 where "u1 = (udp_reset u)\<lparr>cu_port := Some [], cu_grant := Some g, cu_media_id := mid, cu_media_epoch := epoch, cu_uplink := Some up,
      cu_downlink := Some down, cu_refresh_at := now + of_int (cg_refresh_after_ms g) / 1000\<rparr>"
  have "\<exists>u2. probe_loop A v probe (now + of_int (cg_probe_timeout_ms g) / 1000) now (map (Pair ProbeTimeout) ts @ [(ProbeDatagram reply, t)]) u1 = (Inr (Some ()), u2)"
    by (rule probe_loop_answered [OF early(2) _ _ _ ack(1,2)]) (use early(1) ack(3,4) in \<open>simp_all add: u1_def udp_reset_def\<close>)
  then show ?thesis unfolding udp_open_probing [OF closed up down probe] u1_def [symmetric] by auto
qed

section \<open>What a release yields\<close>

lemma release_contiguous_ready: "\<exists>fs. cu_ready (release_contiguous u) = cu_ready u @ fs"
  by (rule release_contiguous_keeps [where Q = "\<lambda>v. \<exists>fs. cu_ready v = cu_ready u @ fs"]) auto

lemma release_gap_ready:
  assumes d: "distinct (pending_sequences u)" and h: "dict_get (cu_reorder u) (Min (set (pending_sequences u))) = Some h"
  shows "\<exists>fs. cu_ready (release_gap u) = cu_ready u @ h # fs"
proof -
  let ?m = "Min (set (pending_sequences u))"
  have "?m \<in> set (dict_keys (cu_reorder u))" using map_of_SomeD [OF h] by force
  then have m: "?m \<notin> set (cu_non_audio_sequences u)" "pending_sequences u \<noteq> []" using d by (auto simp: pending_sequences_def)
  let ?v = "u\<lparr>cu_reorder := dict_pop ?m (cu_reorder u), cu_ready := cu_ready u @ [h], cu_expected_downlink := ?m + 1\<rparr>"
  have "release_gap u = release_contiguous ?v"
    using m h by (simp add: release_gap_def release_contiguous.simps [of "u\<lparr>cu_expected_downlink := ?m\<rparr>"] Let_def)
  then show ?thesis using release_contiguous_ready [of ?v] by auto
qed

lemma release_gap_shrinks:
  assumes I: "downlink_inv n P Q ds u" and p: "pending_sequences u \<noteq> []"
  shows "length (pending_sequences (release_gap u)) < length (pending_sequences u)"
proof -
  obtain m where m: "length (pending_sequences u) = Suc m" using p by (cases "pending_sequences u") auto
  then have "downlink_inv (Suc m) P Q ds u" using I by (simp add: downlink_inv_def)
  from downlink_invD(3) [OF release_gap_inv [OF this]] show ?thesis using m by simp
qed

lemma accept_or_none_Some:
  assumes "accept_or_none A v now ack d u = (Inr (Some f), w)"
  shows "\<exists>p x. w = u\<lparr>cu_pending_control := p, cu_replay := x\<rparr> \<and> length p \<le> length (cu_pending_control u)"
proof -
  obtain r w' where a: "accept A v now ack d u = (r, w')" by fastforce
  have r: "r = Inr (Some f) \<and> w' = w"
  proof (cases r)
    case (Inl e)
    show ?thesis
    proof (cases e)
      case (ClientRaised x)
      then show ?thesis using assms a Inl by (cases x) (auto simp: accept_or_none_def)
    qed (use assms a Inl in \<open>auto simp: accept_or_none_def\<close>)
  qed (use assms a in \<open>auto simp: accept_or_none_def\<close>)
  from a show ?thesis
  proof (cases rule: accept_cases)
    case (opened c g)
    then have o: "accept_opened v now g u = (Inr (Some f), w)" using r by simp
    have same: "u\<lparr>cu_replay := x\<rparr> = u\<lparr>cu_pending_control := cu_pending_control u, cu_replay := x\<rparr>" for x by simp
    show ?thesis
    proof (cases "mf_flags g = FLAG_AUDIO \<and> v \<noteq> None")
      case True
      then obtain b where "the v g = Inr b" using o by (cases "the v g") (auto simp: accept_opened_def accept_audio_def split: if_splits)
      then have "\<exists>x. w = u\<lparr>cu_pending_control := dict_pop (mf_sequence g) (cu_pending_control u), cu_replay := x\<rparr>"
        using o True by (auto simp: accept_opened_def accept_audio_def commit_downlink_def split: option.splits if_splits)
      then show ?thesis using length_dict_pop_le [of "mf_sequence g" "cu_pending_control u"] by metis
    next
      case False
      then have "\<exists>x. w = u\<lparr>cu_replay := x\<rparr>" using o by (auto simp: accept_opened_def commit_downlink_def split: option.splits)
      then show ?thesis using same by (metis le_refl)
    qed
  qed (use r in simp)
qed

section \<open>Properties\<close>

text \<open>
  C29. The downlink over UDP reaches the session in order, at most once, and only when authentic and admitted. Once a transport
  is open, whatever datagrams arrive in whatever order, however the sections of \<open>receive_audio\<close>, its timeouts and
  cancellations, the sends and the close interleave, and whatever the session's validator answers in between: the frames that
  \<open>receive_audio\<close> returns have strictly increasing sequence numbers; each is an audio frame of the session's media identity to
  which a received datagram decrypts under the downlink key of the grant, and the validator admitted it; and the transport
  never holds more than three packets out of order, nor more than four that wait for their response to be announced.
\<close>

theorem client_udp_downlink:
  assumes opened: "udp_open A v g mid epoch now answers u = (Inr (Some ()), u0)"
    and calls: "udp_calls A cs u0 = (ds, u1)"
  shows "sorted_wrt (<) (map mf_sequence ds) \<and>
    (\<forall>f \<in> set ds. admitted_by (\<Union> (call_validators ` set cs))
      (genuine A \<lparr>uc_key = cg_downlink_key g, uc_salt = cg_downlink_salt g\<rparr> mid epoch (\<Union> (call_datagrams ` set cs))) f) \<and>
    length (cu_reorder u1) + length (cu_non_audio_sequences u1) \<le> 3 \<and> length (cu_pending_control u1) \<le> 4"
proof -
  define V where "V = \<Union> (call_validators ` set cs)"
  define D where "D = \<Union> (call_datagrams ` set cs)"
  define Q where "Q = genuine A \<lparr>uc_key = cg_downlink_key g, uc_salt = cg_downlink_salt g\<rparr> mid epoch D"
  have "run_inv A \<lparr>uc_key = cg_downlink_key g, uc_salt = cg_downlink_salt g\<rparr> mid epoch V D ds u1"
    using udp_calls_run_inv [OF udp_open_run_inv [OF opened, of V D], of cs] calls by (simp add: V_def D_def)
  then have I: "downlink_inv 3 (admitted_by V Q) Q ds u1" by (simp add: run_inv_def Q_def)
  note F = downlink_invD(1) [OF I]
  have "sorted_wrt (<) (map mf_sequence ds)" using flowD(1) [OF F] by (simp add: sorted_wrt_append)
  moreover have "\<forall>f \<in> set ds. admitted_by V Q f" using flowD(3) [OF F] by simp
  moreover have "length (cu_reorder u1) + length (cu_non_audio_sequences u1) \<le> 3" using downlink_invD(3) [OF I] by (simp add: pending_length)
  moreover have "length (cu_pending_control u1) \<le> 4" using downlink_invD(5) [OF I] by (simp add: cu_admission_inv_def)
  ultimately show ?thesis unfolding V_def [symmetric] D_def [symmetric] Q_def [symmetric] by blast
qed

text \<open>
  C30. A UDP path opens between the two programs. Let the transport's grant be the one the worker issued (the same keys and
  salts, of the right sizes, for a valid media identity). Then opening it sends one probe and waits; the worker's fresh session,
  handling that probe before its grant expires and with the socket up, becomes ready and answers with one datagram; and however
  many waits time out before the deadline, once that answer arrives the transport is open.
\<close>

theorem udp_path_opens:
  assumes A: "aead_laws A" and ids: "length (ug_media_id g) = 8" "1 \<le> ug_media_epoch g" "ug_media_epoch g \<le> uint32_max"
    and keys: "length (ug_uplink_key g) = 16" "length (ug_uplink_salt g) = 8" "length (ug_downlink_key g) = 16" "length (ug_downlink_salt g) = 8"
    and same: "cg_uplink_key cg = ug_uplink_key g" "cg_uplink_salt cg = ug_uplink_salt g" "cg_downlink_key cg = ug_downlink_key g" "cg_downlink_salt cg = ug_downlink_salt g"
    and live: "cx_time cx < of_int (ug_expires_at g)" "cx_send_time cx < of_int (ug_expires_at g)" "cx_transport cx"
    and closed: "cu_port u = None"
    and early: "0 < cg_probe_timeout_ms cg" "\<forall>t \<in> set ts. t < now + of_int (cg_probe_timeout_ms cg) / 1000"
  shows "\<exists>probe reply u1 s' u2. udp_open A v cg (ug_media_id g) (ug_media_epoch g) now [] u = (Inr None, u1) \<and> cu_port u1 = Some [probe] \<and>
    udp_handle A rx cx probe addr (udp_session_init g n) = (Inr (), s') \<and> us_ready s' \<and> us_sent s' = [(reply, addr)] \<and>
    udp_open A v cg (ug_media_id g) (ug_media_epoch g) now (map (Pair ProbeTimeout) ts @ [(ProbeDatagram reply, t)]) u = (Inr (Some ()), u2)"
proof -
  let ?p = "\<lparr>mf_flags = FLAG_PROBE, mf_media_id = ug_media_id g, mf_media_epoch = ug_media_epoch g, mf_sequence = 0, mf_timestamp = 0, mf_generation = 0, mf_payload = []\<rparr>"
  have z: "is_uint32 0" by (simp add: is_uint32_def uint32_max_def)
  obtain probe s' reply where w: "cipher_encrypt A \<lparr>uc_key = ug_uplink_key g, uc_salt = ug_uplink_salt g\<rparr> ?p = Inr probe"
    "udp_handle A rx cx probe addr (udp_session_init g n) = (Inr (), s')" "us_ready s'" "us_sent s' = [(reply, addr)]"
    "cipher_decrypt A \<lparr>uc_key = ug_downlink_key g, uc_salt = ug_downlink_salt g\<rparr> reply = Inr (?p\<lparr>mf_flags := FLAG_PROBE_ACK, mf_timestamp := 0\<rparr>)"
    using udp_handshake_interop [OF A ids refl z live, of rx addr n] by blast
  have ini: "udp_cipher_init (cg_uplink_key cg) (cg_uplink_salt cg) = Inr \<lparr>uc_key = ug_uplink_key g, uc_salt = ug_uplink_salt g\<rparr>"
    "udp_cipher_init (cg_downlink_key cg) (cg_downlink_salt cg) = Inr \<lparr>uc_key = ug_downlink_key g, uc_salt = ug_downlink_salt g\<rparr>"
    using keys same by (simp_all add: udp_cipher_init_def)
  note O = udp_open_probing [OF closed ini w(1), of v now]
  have "\<exists>u1. udp_open A v cg (ug_media_id g) (ug_media_epoch g) now [] u = (Inr None, u1) \<and> cu_port u1 = Some [probe]"
    unfolding O using early(1) by (simp add: probe_loop.simps port_send_def)
  moreover have "\<exists>u2. udp_open A v cg (ug_media_id g) (ug_media_epoch g) now (map (Pair ProbeTimeout) ts @ [(ProbeDatagram reply, t)]) u = (Inr (Some ()), u2)"
    by (rule udp_open_answered [OF closed ini w(1) early w(5)]) (simp_all add: is_probe_ack_def)
  ultimately show ?thesis using w by blast
qed

text \<open>
  C31. The uplink never uses a nonce for two packets. Over the life of an opened transport, two datagrams given to its port that
  carry the same sequence number, and hence the same AES-GCM nonce, are the same datagram: only the probe is sent again.
\<close>

theorem client_udp_no_nonce_reuse:
  assumes opened: "udp_open A v g mid epoch now answers u = (Inr (Some ()), u0)"
    and calls: "udp_calls A cs u0 = (ds, u1)" and port: "cu_port u1 = Some sent"
  shows "inj_on packet_sequence (set sent)"
  using udp_calls_uplink [OF udp_open_run_inv [OF opened] udp_open_uplink [OF opened], of cs] calls port by (simp add: cu_uplink_inv_def)


text \<open>
  C32. A gap does not hold the downlink up. In every state that an open transport can reach, if packets wait for a missing one then
  a deadline is armed; and from that deadline on, while the grant is fresh and no frame waits for its announcement, each call of
  \<open>receive_audio\<close> returns a frame or leaves fewer packets waiting.
\<close>

theorem waiting_packets_released:
  assumes opened: "udp_open A v g mid epoch now answers u = (Inr (Some ()), u0)" and calls: "udp_calls A cs u0 = (ds, u1)"
    and waiting: "cu_reorder u1 \<noteq> [] \<or> cu_non_audio_sequences u1 \<noteq> []"
    and live: "cu_pending_control u1 = []" "cu_port u1 \<noteq> None" "0 < refresh_remaining now1 wall u1"
  shows "\<exists>t. cu_reorder_deadline_at u1 = Some t \<and> (t \<le> now1 \<longrightarrow> (\<exists>r u2. receive_start v1 now1 wall u1 = (Inr r, u2) \<and>
    ((\<exists>f. r = Received f) \<or>
     length (cu_reorder u2) + length (cu_non_audio_sequences u2) < length (cu_reorder u1) + length (cu_non_audio_sequences u1))))"
proof -
  have "run_inv A \<lparr>uc_key = cg_downlink_key g, uc_salt = cg_downlink_salt g\<rparr> mid epoch UNIV UNIV ds u1"
    using udp_calls_run_inv [OF udp_open_run_inv [OF opened, of UNIV UNIV], of cs] calls by simp
  then obtain P Q where I: "downlink_inv 3 P Q ds u1" by (auto simp: run_inv_def)
  have p: "pending_sequences u1 \<noteq> []" using waiting by (auto simp: pending_sequences_def)
  then obtain t where t: "cu_reorder_deadline_at u1 = Some t" using downlink_invD(4) [OF I] by auto
  note sh = release_gap_shrinks [OF I p, unfolded pending_length]
  have port: "cu_port (release_gap u1) \<noteq> None" using live(2) admission_fields(3) [OF release_gap_admission [of u1]] by (simp add: cu_fixed_def)
  have "admit_pending_control v1 now1 u1 = (Inr (), u1)" using live(1) by (simp add: admit_pending_control_def split: option.split)
  moreover have "ensure_fresh now1 wall u1 = Inr ()" using live(2,3) by (simp add: ensure_fresh_def refresh_due_def)
  ultimately have s: "receive_start v1 now1 wall u1 = ready_or (receive_wait now1 wall) u1" by (simp add: receive_start_def)
  have "\<exists>r u2. receive_start v1 now1 wall u1 = (Inr r, u2) \<and> ((\<exists>f. r = Received f) \<or>
     length (cu_reorder u2) + length (cu_non_audio_sequences u2) < length (cu_reorder u1) + length (cu_non_audio_sequences u1))" if "t \<le> now1"
  proof (cases "cu_ready u1")
    case Nil
    have e: "expire_receive_deadlines now1 u1 = (Inr (), release_gap u1)" using live(1) t that by (simp add: expire_receive_deadlines_def)
    then show ?thesis using s Nil live(3) sh port by (cases "cu_ready (release_gap u1)") (auto simp: ready_or_def receive_wait_def)
  qed (use s in \<open>auto simp: ready_or_def\<close>)
  then show ?thesis using t by blast
qed

text \<open>
  C33. A packet that arrives as a gap expires is lost. Suppose a transport is waiting for a missing packet, its deadline has passed, the
  first waiting packet is audio, and an authentic datagram arrives that the transport admits. Then \<open>receive_audio\<close> returns the
  waiting frame and forgets the one that arrived: it is neither ready nor waiting, its number is not remembered as
  filled, and the replay window refuses it from now on.
\<close>

theorem frame_lost_at_deadline:
  assumes opened: "udp_open A v g mid epoch now0 answers u = (Inr (Some ()), u0)" and calls: "udp_calls A cs u0 = (ds, u1)"
    and arrives: "accept_or_none A v1 now False d u1 = (Inr (Some f), w)"
    and idle: "cu_ready u1 = []" "cu_pending_control u1 = []"
    and due: "cu_reorder_deadline_at u1 = Some t" "t \<le> now" "dict_get (cu_reorder u1) (Min (set (pending_sequences u1))) = Some h"
  shows "\<exists>u2. receive_datagram A v1 now wall d u1 = (Inr (Received h), u2) \<and> mf_sequence h \<noteq> mf_sequence f \<and>
    f \<notin> set (cu_ready u2) \<and> f \<notin> set (dict_values (cu_reorder u2)) \<and> mf_sequence f \<notin> set (cu_non_audio_sequences u2) \<and>
    \<not> acceptable (cu_replay u2) (mf_sequence f)"
proof -
  define c where "c = \<lparr>uc_key = cg_downlink_key g, uc_salt = cg_downlink_salt g\<rparr>"
  define Q where "Q = genuine A c mid epoch UNIV"
  have I: "run_inv A c mid epoch UNIV UNIV ds u1"
    using udp_calls_run_inv [OF udp_open_run_inv [OF opened, of UNIV UNIV], of cs] calls by (simp add: c_def)
  then have s: "cu_serves UNIV Q ds u1 u1" "cu_downlink u1 \<in> {None, Some c}" "covers A c u1 Q d"
    by (auto simp: run_inv_def cu_serves_def Q_def covers_def genuine_def)
  have sw: "cu_serves UNIV Q ds u1 w" and fresh: "fresh_in (mf_sequence f) w" using accept_or_none_serves [OF s(1) _ s(2,3) arrives] by auto
  obtain p x where w: "w = u1\<lparr>cu_pending_control := p, cu_replay := x\<rparr>" "length p \<le> 0" using accept_or_none_Some [OF arrives] idle(2) by auto
  have F: "flow (admitted_by UNIV Q) ds w" using sw by (simp add: cu_serves_def downlink_inv_def)
  have e: "expire_receive_deadlines now w = (Inr (), release_gap w)" using w due(1,2) by (simp add: expire_receive_deadlines_def)
  obtain fs where fs: "cu_ready (release_gap w) = h # fs" using release_gap_ready [OF flowD(6) [OF F], of h] due(3) idle(1) w(1) by (auto simp: pending_sequences_def)
  have r: "receive_datagram A v1 now wall d u1 = (Inr (Received h), (release_gap w)\<lparr>cu_ready := fs\<rparr>)"
    using arrives e fs by (simp add: receive_datagram_def ready_or_def)
  have rel: "releases w (release_gap w)" by (rule release_gap_releases [OF flowD(6) [OF F]])
  have old: "mf_sequence k \<noteq> mf_sequence f" if "k \<in> set (dict_values (cu_reorder (release_gap w))) \<union> set (cu_ready (release_gap w))" for k
  proof -
    have "k \<in> set (dict_values (cu_reorder w))" using that rel idle(1) w(1) unfolding releases_def by auto
    then have "mf_sequence k \<in> set (pending_sequences w)" using flowD(4) [OF F] by (force simp: pending_sequences_def)
    then show ?thesis using fresh by (auto simp: fresh_in_def)
  qed
  obtain H where H: "client_tracks (cu_replay (release_gap w)) H" "mf_sequence f \<in> H"
    using fresh admission_fields(1) [OF release_gap_admission [of w]] by (auto simp: fresh_in_def)
  have "\<not> acceptable (cu_replay (release_gap w)) (mf_sequence f)"
    using client_replay.acceptable_fresh [OF H(1)] H(2) by (auto simp: acceptable_def)
  moreover have "mf_sequence f \<notin> set (cu_non_audio_sequences (release_gap w))" using fresh rel by (auto simp: fresh_in_def releases_def pending_sequences_def)
  moreover have "mf_sequence h \<noteq> mf_sequence f" using old [of h] fs by simp
  moreover have "f \<notin> set fs" "f \<notin> set (dict_values (cu_reorder (release_gap w)))" using old [of f] fs by auto
  ultimately show ?thesis unfolding r by simp
qed


section \<open>An example\<close>

text \<open>A grant with keys of the right sizes, sealed frames, and a validator that admits everything.\<close>

definition demo_cipher :: udp_cipher where "demo_cipher = \<lparr>uc_key = replicate 16 0, uc_salt = replicate 8 0\<rparr>"

definition demo_client_grant :: client_udp_grant where
  "demo_client_grant = \<lparr>cg_host = ''h'', cg_port = 9, cg_expires_at_ms = 100000, cg_refresh_after_ms = 60000, cg_uplink_key = replicate 16 0,
     cg_uplink_salt = replicate 8 0, cg_downlink_key = replicate 16 0, cg_downlink_salt = replicate 8 0, cg_probe_timeout_ms = 1000\<rparr>"

definition demo_sealed :: "media_frame \<Rightarrow> bytes" where
  "demo_sealed f = header_wire (client_struct f) @ aead_encrypt udp_demo_aead (uc_key demo_cipher) (uc_salt demo_cipher @ be32 (mf_sequence f)) (mf_payload f)
     (header_wire (client_struct f))"

definition demo_frame :: "int \<Rightarrow> media_frame" where
  "demo_frame n = \<lparr>mf_flags = FLAG_AUDIO, mf_media_id = replicate 8 7, mf_media_epoch = 1, mf_sequence = n, mf_timestamp = 960 * n, mf_generation = 1, mf_payload = [1]\<rparr>"

definition demo_ack :: media_frame where
  "demo_ack = \<lparr>mf_flags = FLAG_PROBE_ACK, mf_media_id = replicate 8 7, mf_media_epoch = 1, mf_sequence = 0, mf_timestamp = 0, mf_generation = 0, mf_payload = []\<rparr>"

abbreviation demo_validator :: media_validator where "demo_validator \<equiv> Some (\<lambda>_. Inr True)"

definition demo_open :: client_udp where
  "demo_open = snd (udp_open udp_demo_aead None demo_client_grant (replicate 8 7) 1 0 [(ProbeDatagram (demo_sealed demo_ack), 0)] (client_udp_init (12 / 100)))"

definition demo_probe :: bytes where
  "demo_probe = demo_sealed (demo_ack\<lparr>mf_flags := FLAG_PROBE\<rparr>)"

lemma demo_decrypt:
  "cipher_decrypt udp_demo_aead demo_cipher (demo_sealed demo_ack) = Inr demo_ack"
  "0 \<le> n \<Longrightarrow> n \<le> 9 \<Longrightarrow> cipher_decrypt udp_demo_aead demo_cipher (demo_sealed (demo_frame n)) = Inr (demo_frame n)"
  unfolding demo_sealed_def
  by (rule cipher_decrypt_sealed [OF udp_demo_laws], simp add: client_frame_valid_def demo_ack_def demo_frame_def client_consts is_uint32_def uint32_max_def)+

lemma demo_opened:
  "udp_open udp_demo_aead None demo_client_grant (replicate 8 7) 1 0 [(ProbeDatagram (demo_sealed demo_ack), 0)] (client_udp_init (12 / 100)) = (Inr (Some ()), demo_open)"
proof -
  have "\<exists>u. udp_open udp_demo_aead None demo_client_grant (replicate 8 7) 1 0 [(ProbeDatagram (demo_sealed demo_ack), 0)] (client_udp_init (12 / 100)) = (Inr (Some ()), u)"
  proof -
    have "cipher_encrypt udp_demo_aead demo_cipher \<lparr>mf_flags = FLAG_PROBE, mf_media_id = replicate 8 7, mf_media_epoch = 1, mf_sequence = 0, mf_timestamp = 0,
      mf_generation = 0, mf_payload = []\<rparr> = Inr demo_probe"
      by (auto simp: cipher_encrypt_def bind_result_Inr_iff client_header_eq client_frame_valid_def no_stray_payload_def client_consts is_uint32_def uint32_max_def
          demo_probe_def demo_sealed_def demo_ack_def)
    moreover have "udp_cipher_init (cg_uplink_key demo_client_grant) (cg_uplink_salt demo_client_grant) = Inr demo_cipher"
      "udp_cipher_init (cg_downlink_key demo_client_grant) (cg_downlink_salt demo_client_grant) = Inr demo_cipher"
      by (simp_all add: udp_cipher_init_def demo_client_grant_def demo_cipher_def)
    ultimately show ?thesis
      using udp_open_answered [of "client_udp_init (12 / 100)" demo_client_grant demo_cipher demo_cipher udp_demo_aead "replicate 8 7" 1 demo_probe "[]" 0
          "demo_sealed demo_ack" demo_ack None 0] demo_decrypt(1)
      by (auto simp: client_udp_init_def demo_client_grant_def is_probe_ack_def demo_ack_def)
  qed
  then show ?thesis by (auto simp: demo_open_def)
qed

lemma demo_open_eq:
  "\<exists>k probe up. demo_open = (client_udp_init (12 / 100))\<lparr>cu_port := Some (replicate k probe), cu_grant := Some demo_client_grant, cu_media_id := replicate 8 7,
      cu_media_epoch := 1, cu_uplink := Some up, cu_downlink := Some demo_cipher, cu_refresh_at := 60,
      cu_replay := \<lparr>cw_highest = Some 0, cw_bitmap = 1\<rparr>, cu_next_uplink := 1\<rparr>"
  using demo_opened
proof (cases rule: udp_open_opened)
  case (1 k w probe up down)
  have "down = demo_cipher" using 1(2) by (simp add: udp_cipher_init_def demo_client_grant_def demo_cipher_def)
  moreover have "w = \<lparr>cw_highest = Some 0, cw_bitmap = 1\<rparr>"
    using 1(4) by (simp add: client_commit_def acceptable_def client_window_init_def is_uint32_def uint32_max_def)
  ultimately show ?thesis using 1(5) by (intro exI [of _ k] exI [of _ probe] exI [of _ up]) (simp add: udp_reset_def client_udp_init_def demo_client_grant_def)
qed

lemma demo_open_fields:
  "cu_expected_downlink demo_open = 1" "cu_reorder demo_open = []" "cu_non_audio_sequences demo_open = []" "cu_ready demo_open = []"
  "cu_pending_control demo_open = []" "cu_reorder_deadline_at demo_open = None" "cu_downlink demo_open = Some demo_cipher" "cu_media_id demo_open = replicate 8 7"
  "cu_media_epoch demo_open = 1" "cu_replay demo_open = \<lparr>cw_highest = Some 0, cw_bitmap = 1\<rparr>" "cu_grant demo_open = Some demo_client_grant"
  "cu_refresh_at demo_open = 60" "cu_port demo_open \<noteq> None" "cu_fresh_generation demo_open = None" "cu_max_media_age demo_open = 12 / 100"
proof -
  obtain k probe up where e: "demo_open = (client_udp_init (12 / 100))\<lparr>cu_port := Some (replicate k probe), cu_grant := Some demo_client_grant, cu_media_id := replicate 8 7,
      cu_media_epoch := 1, cu_uplink := Some up, cu_downlink := Some demo_cipher, cu_refresh_at := 60,
      cu_replay := \<lparr>cw_highest = Some 0, cw_bitmap = 1\<rparr>, cu_next_uplink := 1\<rparr>" using demo_open_eq by blast
  show "cu_expected_downlink demo_open = 1" "cu_reorder demo_open = []" "cu_non_audio_sequences demo_open = []" "cu_ready demo_open = []"
    "cu_pending_control demo_open = []" "cu_reorder_deadline_at demo_open = None" "cu_downlink demo_open = Some demo_cipher" "cu_media_id demo_open = replicate 8 7"
    "cu_media_epoch demo_open = 1" "cu_replay demo_open = \<lparr>cw_highest = Some 0, cw_bitmap = 1\<rparr>" "cu_grant demo_open = Some demo_client_grant"
    "cu_refresh_at demo_open = 60" "cu_port demo_open \<noteq> None" "cu_fresh_generation demo_open = None" "cu_max_media_age demo_open = 12 / 100"
    unfolding e by (simp_all add: client_udp_init_def)
qed

text \<open>Packet 2 arrives while packet 1 is missing: it waits.\<close>

definition demo_waiting :: client_udp where
  "demo_waiting = demo_open\<lparr>cu_replay := \<lparr>cw_highest = Some 2, cw_bitmap = 5\<rparr>, cu_reorder := [(2, demo_frame 2)], cu_reorder_deadline_at := Some (12 / 100),
     cu_fresh_generation := Some 1, cu_fresh_timestamp := 1920, cu_fresh_arrival := 0\<rparr>"

definition demo_calls :: "udp_call list" where
  "demo_calls = [CDatagram demo_validator 0 0 (demo_sealed (demo_frame 2))]"

lemma demo_accept:
  assumes n: "n \<in> {2, 3}" and u: "cu_downlink u = Some demo_cipher" "cu_media_id u = replicate 8 7" "cu_media_epoch u = 1" "cu_pending_control u = []"
    and w: "client_commit (cu_replay u) n = Some w"
  shows "accept_or_none udp_demo_aead demo_validator now False (demo_sealed (demo_frame n)) u = (Inr (Some (demo_frame n)), u\<lparr>cu_replay := w\<rparr>)"
proof -
  have "acceptable (cu_replay u) n" using client_replay.commit_iff [of "cu_replay u" n] w by simp
  then have "accept udp_demo_aead demo_validator now False (demo_sealed (demo_frame n)) u = accept_opened demo_validator now (demo_frame n) u"
    using accept_decrypted [of u demo_cipher udp_demo_aead "demo_sealed (demo_frame n)" "demo_frame n"] demo_decrypt(2) [of n] n u by (auto simp: demo_frame_def)
  moreover have "u\<lparr>cu_pending_control := []\<rparr> = u" using u(4) by simp
  ultimately show ?thesis using w u(4) by (auto simp: accept_or_none_def accept_opened_def accept_audio_def commit_downlink_def demo_frame_def)
qed

lemma demo_commits:
  "client_commit \<lparr>cw_highest = Some 0, cw_bitmap = 1\<rparr> 2 = Some \<lparr>cw_highest = Some 2, cw_bitmap = 5\<rparr>"
  "client_commit \<lparr>cw_highest = Some 2, cw_bitmap = 5\<rparr> 3 = Some \<lparr>cw_highest = Some 3, cw_bitmap = 11\<rparr>"
  by code_simp+

lemma demo_run: "udp_calls udp_demo_aead demo_calls demo_open = ([], demo_waiting)"
proof -
  let ?u = "demo_open\<lparr>cu_replay := \<lparr>cw_highest = Some 2, cw_bitmap = 5\<rparr>\<rparr>"
  note F = demo_open_fields
  have a: "accept_or_none udp_demo_aead demo_validator 0 False (demo_sealed (demo_frame 2)) demo_open = (Inr (Some (demo_frame 2)), ?u)"
    by (rule demo_accept) (simp_all add: F demo_commits)
  have e: "expire_receive_deadlines now ?u = (Inr (), ?u)" for now by (simp add: expire_receive_deadlines_def F)
  have b: "cu_buffer 0 (demo_frame 2) ?u = (Inr (), demo_waiting)"
    by (simp add: cu_buffer_def check_freshness_def F demo_frame_def demo_waiting_def release_contiguous.simps arm_reorder_deadline_def release_full_def
        pending_sequences_def Let_def)
  have "receive_wait 0 0 demo_waiting = (Inr (Waiting (12 / 100)), demo_waiting)"
    using F(13) by (simp add: receive_wait_def refresh_remaining_def expire_receive_deadlines_def demo_waiting_def F demo_client_grant_def)
  then show ?thesis
    using a e b F(4) by (auto simp: demo_calls_def receive_datagram_def ready_or_def demo_waiting_def demo_frame_def client_consts returned_def apfst_def)
qed

theorem client_udp_downlink_witness:
  "udp_open udp_demo_aead None demo_client_grant (replicate 8 7) 1 0 [(ProbeDatagram (demo_sealed demo_ack), 0)] (client_udp_init (12 / 100)) = (Inr (Some ()), demo_open) \<and>
   udp_calls udp_demo_aead demo_calls demo_open = ([], demo_waiting) \<and> length (cu_reorder demo_waiting) = 1 \<and>
   length (cu_reorder demo_waiting) + length (cu_non_audio_sequences demo_waiting) \<le> 3"
  using client_udp_downlink [OF demo_opened demo_run] demo_opened demo_run by (simp add: demo_waiting_def)

theorem client_udp_no_nonce_reuse_witness:
  "\<exists>sent. udp_calls udp_demo_aead demo_calls demo_open = ([], demo_waiting) \<and> cu_port demo_waiting = Some sent \<and> inj_on packet_sequence (set sent)"
proof -
  obtain sent where "cu_port demo_waiting = Some sent" using demo_open_fields(13) by (auto simp: demo_waiting_def)
  then show ?thesis using client_udp_no_nonce_reuse [OF demo_opened demo_run] demo_run by blast
qed

theorem waiting_packets_released_witness:
  "\<exists>r u2. udp_calls udp_demo_aead demo_calls demo_open = ([], demo_waiting) \<and> receive_start demo_validator 1 1 demo_waiting = (Inr r, u2) \<and>
    ((\<exists>f. r = Received f) \<or> length (cu_reorder u2) + length (cu_non_audio_sequences u2) < length (cu_reorder demo_waiting) + length (cu_non_audio_sequences demo_waiting))"
  using waiting_packets_released [OF demo_opened demo_run, of 1 1 demo_validator] demo_run demo_open_fields
  by (auto simp: demo_waiting_def refresh_remaining_def demo_client_grant_def)

theorem frame_lost_at_deadline_witness:
  "\<exists>u2. udp_calls udp_demo_aead demo_calls demo_open = ([], demo_waiting) \<and>
    receive_datagram udp_demo_aead demo_validator 1 1 (demo_sealed (demo_frame 3)) demo_waiting = (Inr (Received (demo_frame 2)), u2) \<and>
    demo_frame 3 \<notin> set (cu_ready u2) \<and> demo_frame 3 \<notin> set (dict_values (cu_reorder u2)) \<and> \<not> acceptable (cu_replay u2) 3"
proof -
  have a: "accept_or_none udp_demo_aead demo_validator 1 False (demo_sealed (demo_frame 3)) demo_waiting =
      (Inr (Some (demo_frame 3)), demo_waiting\<lparr>cu_replay := \<lparr>cw_highest = Some 3, cw_bitmap = 11\<rparr>\<rparr>)"
    by (rule demo_accept) (simp_all add: demo_waiting_def demo_open_fields demo_commits)
  have "cu_ready demo_waiting = []" "cu_pending_control demo_waiting = []" "cu_reorder_deadline_at demo_waiting = Some (12 / 100)" "12 / 100 \<le> (1 :: real)"
    "dict_get (cu_reorder demo_waiting) (Min (set (pending_sequences demo_waiting))) = Some (demo_frame 2)"
    by (simp_all add: demo_waiting_def demo_open_fields pending_sequences_def)
  from frame_lost_at_deadline [OF demo_opened demo_run a this, of 1] show ?thesis using demo_run by (auto simp: demo_frame_def)
qed

definition demo_worker_grant :: udp_grant where
  "demo_worker_grant = udp_demo_grant\<lparr>ug_uplink_key := replicate 16 0, ug_uplink_salt := replicate 8 0, ug_downlink_key := replicate 16 0, ug_downlink_salt := replicate 8 0\<rparr>"

theorem udp_path_opens_witness:
  "\<exists>probe reply s' u2. udp_handle udp_demo_aead (\<lambda>_. None) udp_demo_ctx probe (''p'', 1) (udp_session_init demo_worker_grant 4) = (Inr (), s') \<and>
    us_sent s' = [(reply, (''p'', 1))] \<and>
    udp_open udp_demo_aead None demo_client_grant (replicate 8 7) 1 0 [(ProbeTimeout, 1 / 5), (ProbeDatagram reply, 1 / 4)] (client_udp_init (12 / 100)) = (Inr (Some ()), u2)"
  using udp_path_opens [OF udp_demo_laws, of demo_worker_grant demo_client_grant udp_demo_ctx "client_udp_init (12 / 100)" "[1 / 5]" 0 None "\<lambda>_. None" "(''p'', 1)" 4 "1 / 4"]
  by (simp add: demo_worker_grant_def udp_demo_grant_def demo_client_grant_def udp_demo_ctx_def client_udp_init_def uint32_max_def) blast

end
