(* ===== verification/Pcm_Chunks.thy ===== *)
theory Pcm_Chunks
  imports Rva_Prelude
begin

text \<open>
  Cutting a byte stream into packets of one size, as the voice agent and the speech recognisers do: \<open>chop\<close> cuts a buffer, and the locale \<open>chunker\<close> is a
  component that appends what it is given to a buffer and cuts off whole packets. Its packets depend only on the stream, not on
  how the stream was cut on arrival.
\<close>

function chop :: "nat \<Rightarrow> 'a list \<Rightarrow> 'a list list \<times> 'a list" where
  "chop n xs = (if n = 0 \<or> length xs < n then ([], xs) else let (cs, rest) = chop n (drop n xs) in (take n xs # cs, rest))"
  by pat_completeness auto
termination
  by (relation "measure (\<lambda>(n, xs). length xs)") auto

declare chop.simps [simp del]

lemma chop_short [simp]: "length xs < n \<Longrightarrow> chop n xs = ([], xs)"
  by (simp add: chop.simps)

lemma chop_long: "0 < n \<Longrightarrow> n \<le> length xs \<Longrightarrow> chop n xs = (take n xs # fst (chop n (drop n xs)), snd (chop n (drop n xs)))"
  by (subst chop.simps) (simp add: split_beta)

lemma chop_spec:
  assumes "0 < n"
  shows "concat (fst (chop n xs)) @ snd (chop n xs) = xs \<and> list_all (\<lambda>c. length c = n) (fst (chop n xs)) \<and> length (snd (chop n xs)) < n"
proof (induction "length xs" arbitrary: xs rule: less_induct)
  case less
  show ?case
  proof (cases "length xs < n")
    case False
    then have "length (drop n xs) < length xs" using assms by simp
    from less [OF this] show ?thesis using False assms chop_long [of n xs] by simp
  qed simp
qed

lemma chop_append:
  assumes "0 < n"
  shows "chop n (xs @ ys) = (fst (chop n xs) @ fst (chop n (snd (chop n xs) @ ys)), snd (chop n (snd (chop n xs) @ ys)))"
proof (induction "length xs" arbitrary: xs rule: less_induct)
  case less
  show ?case
  proof (cases "length xs < n")
    case False
    then have d: "length (drop n xs) < length xs" using assms by simp
    have "chop n (xs @ ys) = (take n xs # fst (chop n (drop n xs @ ys)), snd (chop n (drop n xs @ ys)))"
      using chop_long [of n "xs @ ys"] assms False by simp
    then show ?thesis using less [OF d] chop_long [of n xs] assms False by simp
  qed simp
qed

text \<open>\<open>pending\<close> is the buffer, \<open>packets\<close> all packets cut so far, \<open>push\<close> the arrival of bytes.\<close>

locale chunker =
  fixes size :: nat
    and pending :: "'s \<Rightarrow> 'a list"
    and packets :: "'s \<Rightarrow> 'a list list"
    and open_state :: "'s \<Rightarrow> bool"
    and push :: "'a list \<Rightarrow> 's \<Rightarrow> 's"
  assumes size_pos: "0 < size"
    and push_open: "open_state s \<Longrightarrow> open_state (push xs s)"
    and push_pending: "open_state s \<Longrightarrow> pending (push xs s) = snd (chop size (pending s @ xs))"
    and push_packets: "open_state s \<Longrightarrow> packets (push xs s) = packets s @ fst (chop size (pending s @ xs))"
begin

lemma pushes:
  assumes "open_state s" "length (pending s) < size"
  shows "open_state (fold push xss s) \<and> pending (fold push xss s) = snd (chop size (pending s @ concat xss)) \<and>
    packets (fold push xss s) = packets s @ fst (chop size (pending s @ concat xss))"
  using assms
proof (induction xss arbitrary: s)
  case (Cons xs xss)
  let ?s = "push xs s"
  have "length (pending ?s) < size" using push_pending [OF Cons.prems(1)] chop_spec [OF size_pos, of "pending s @ xs"] by simp
  note IH = Cons.IH [OF push_open [OF Cons.prems(1)] this]
  have "chop size ((pending s @ xs) @ concat xss) =
      (fst (chop size (pending s @ xs)) @ fst (chop size (pending ?s @ concat xss)), snd (chop size (pending ?s @ concat xss)))"
    using chop_append [OF size_pos, of "pending s @ xs" "concat xss"] push_pending [OF Cons.prems(1)] by simp
  then show ?case using IH push_packets [OF Cons.prems(1), of xs] by simp
qed simp

lemma stream_conserved:
  assumes "open_state s" "length (pending s) < size"
  shows "concat (packets (fold push xss s)) @ pending (fold push xss s) = concat (packets s) @ pending s @ concat xss"
  using pushes [OF assms, of xss] chop_spec [OF size_pos, of "pending s @ concat xss"] by simp

lemma cut_invariant:
  assumes "open_state s" "length (pending s) < size" "concat xss = concat yss"
  shows "packets (fold push xss s) = packets (fold push yss s)" "pending (fold push xss s) = pending (fold push yss s)"
  using pushes [OF assms(1,2), of xss] pushes [OF assms(1,2), of yss] assms(3) by simp_all

end

end
