(* ===== verification/Agent_Output.thy ===== *)
theory Agent_Output
  imports Pcm_Chunks Rva_Runtime
begin

text \<open>
  The roomless ends of the voice agent (\<open>agent.py\<close>, \<open>audio.py\<close>): the audio output, which cuts what the agent says into frames of 20 ms and
  segments of a producer epoch, the text output, the gate that suppresses replies to turns heard over the
  agent's own playback, and the terminal state. The LiveKit session above them and the base classes' playback counters are not
  part of the repository: their calls are the operations below, in any order. \<open>await self._emit_segment(...)\<close> suspends
  \<open>capture_frame\<close>; the loop goes on with \<open>capture_loop\<close> when it returns.
\<close>

section \<open>Audio output\<close>

text \<open>The field \<open>enqueued_at\<close> of a frame has its default here and is left out.\<close>

definition PCM_SAMPLES :: nat where "PCM_SAMPLES = 320"
definition PCM_BYTES :: nat where "PCM_BYTES = PCM_SAMPLES * 2"

record pcm_frame =
  pf_generation :: int
  pf_sequence :: nat
  pf_timestamp_samples :: nat
  pf_pcm :: bytes

record agent_segment =
  as_producer_epoch :: int
  as_frames :: "pcm_frame list"

record roomless_output =
  ro_max_segment_frames :: nat
  ro_frames :: "pcm_frame list"
  ro_pending_pcm :: bytes
  ro_frames_epoch :: "int option"
  ro_producer_epoch :: int
  ro_sequence :: nat
  ro_closed :: bool

datatype agent_error = AgentValueError | AgentAssertionError | AudioFrameError

type_synonym 'a output_op = "(agent_error, 'a, roomless_output) op_result"

definition roomless_output_init :: "nat \<Rightarrow> agent_error + roomless_output" where
  "roomless_output_init max_segment_frames = (if max_segment_frames = 0 then Inl AgentValueError else Inr
     \<lparr>ro_max_segment_frames = max_segment_frames, ro_frames = [], ro_pending_pcm = [], ro_frames_epoch = None, ro_producer_epoch = 1,
      ro_sequence = 0, ro_closed = False\<rparr>)"

text \<open>
  A frame joins the segment that is being collected; the first one fixes the epoch of the segment. \<open>PcmFrame\<close> refuses any other
  length than \<open>PCM_BYTES\<close>, which only \<open>flush\<close> could give it.
\<close>

definition append_frame :: "bytes \<Rightarrow> roomless_output \<Rightarrow> roomless_output" where
  "append_frame pcm r =
    r\<lparr>ro_frames_epoch := (case ro_frames_epoch r of None \<Rightarrow> Some (ro_producer_epoch r) | Some e \<Rightarrow> Some e),
      ro_frames := ro_frames r @ [\<lparr>pf_generation = 0, pf_sequence = ro_sequence r, pf_timestamp_samples = ro_sequence r * PCM_SAMPLES, pf_pcm = pcm\<rparr>],
      ro_sequence := ro_sequence r + 1\<rparr>"

definition emit_buffered_segment :: "roomless_output \<Rightarrow> agent_segment option output_op" where
  "emit_buffered_segment r =
    (let r1 = r\<lparr>ro_frames := [], ro_frames_epoch := None\<rparr>
     in if ro_frames r = [] then (Inr None, r1)
        else case ro_frames_epoch r of
            None \<Rightarrow> (Inl AgentAssertionError, r1)
          | Some e \<Rightarrow> (Inr (Some \<lparr>as_producer_epoch = e, as_frames = ro_frames r\<rparr>), r1))"

text \<open>The loop of \<open>capture_frame\<close> up to its end (\<open>None\<close>) or to the \<open>await\<close> of a full segment.\<close>

function capture_loop :: "roomless_output \<Rightarrow> agent_segment option output_op" where
  "capture_loop r =
    (if length (ro_pending_pcm r) < PCM_BYTES then (Inr None, r)
     else
       let r1 = append_frame (take PCM_BYTES (ro_pending_pcm r)) (r\<lparr>ro_pending_pcm := drop PCM_BYTES (ro_pending_pcm r)\<rparr>)
       in if length (ro_frames r1) = ro_max_segment_frames r1 then emit_buffered_segment r1 else capture_loop r1)"
  by pat_completeness auto
termination
  by (relation "measure (\<lambda>r. length (ro_pending_pcm r))") (auto simp: append_frame_def PCM_BYTES_def PCM_SAMPLES_def)

declare capture_loop.simps [simp del]

definition capture_frame :: "bytes \<Rightarrow> roomless_output \<Rightarrow> agent_segment option output_op" where
  "capture_frame pcm r =
    (if ro_closed r then (Inr None, r) else capture_loop (r\<lparr>ro_pending_pcm := ro_pending_pcm r @ pcm\<rparr>))"

definition ljust :: "nat \<Rightarrow> bytes \<Rightarrow> bytes" where
  "ljust n bs = bs @ replicate (n - length bs) 0"

definition output_flush :: "roomless_output \<Rightarrow> agent_segment option output_op" where
  "output_flush r =
    (if ro_closed r then (Inr None, r\<lparr>ro_frames := [], ro_pending_pcm := [], ro_frames_epoch := None\<rparr>)
     else
       if ro_pending_pcm r = [] then emit_buffered_segment r
       else
         let final_pcm = ljust (PCM_SAMPLES * 2) (ro_pending_pcm r); r1 = r\<lparr>ro_pending_pcm := []\<rparr>
         in if length final_pcm \<noteq> PCM_BYTES
            then (Inl AudioFrameError, r1\<lparr>ro_frames_epoch := (case ro_frames_epoch r1 of None \<Rightarrow> Some (ro_producer_epoch r1) | Some e \<Rightarrow> Some e)\<rparr>)
            else emit_buffered_segment (append_frame final_pcm r1))"

definition advance_producer_epoch :: "roomless_output \<Rightarrow> roomless_output" where
  "advance_producer_epoch r = r\<lparr>ro_producer_epoch := ro_producer_epoch r + 1, ro_frames := [], ro_pending_pcm := [], ro_frames_epoch := None\<rparr>"

text \<open>The end of \<open>wait_for_playout\<close>; \<open>epoch\<close> was read when it was called.\<close>

definition playout_finished :: "int \<Rightarrow> roomless_output \<Rightarrow> roomless_output" where
  "playout_finished epoch r = (if ro_producer_epoch r = epoch then advance_producer_epoch r else r)"

text \<open>\<open>close\<close> sets the flag and starts the task \<open>_close_once\<close>; other tasks can run in between.\<close>

definition output_closing :: "roomless_output \<Rightarrow> roomless_output" where
  "output_closing r = r\<lparr>ro_closed := True\<rparr>"

definition output_close :: "roomless_output \<Rightarrow> roomless_output" where
  "output_close r = r\<lparr>ro_closed := True, ro_frames := [], ro_pending_pcm := [], ro_frames_epoch := None\<rparr>"

section \<open>The other ends\<close>

text \<open>\<open>RoomlessTextOutput\<close>: each call hands the text so far to the sink.\<close>

definition capture_text :: "string \<Rightarrow> string \<Rightarrow> string option \<times> string" where
  "capture_text chunk text_so_far = (if chunk = [] then (None, text_so_far) else (Some (text_so_far @ chunk), text_so_far @ chunk))"

text \<open>\<open>_PlaybackResponseGate\<close>\<close>

record response_gate =
  pg_response_active :: bool
  pg_turn_sequence :: nat
  pg_active_turn :: "nat option"
  pg_active_turn_contaminated :: bool
  pg_pending :: "(nat \<times> string) list"

definition PENDING_LIMIT :: nat where "PENDING_LIMIT = 8"

definition response_gate_init :: response_gate where
  "response_gate_init = \<lparr>pg_response_active = False, pg_turn_sequence = 0, pg_active_turn = None, pg_active_turn_contaminated = False, pg_pending = []\<rparr>"

definition set_response_active :: "bool \<Rightarrow> response_gate \<Rightarrow> response_gate" where
  "set_response_active active g = g\<lparr>pg_response_active := active\<rparr>"

definition user_state_changed :: "string \<Rightarrow> response_gate \<Rightarrow> response_gate" where
  "user_state_changed new_state g =
    (if new_state \<noteq> ''speaking'' then g
     else
       let g1 = (if pg_response_active g then g else g\<lparr>pg_pending := []\<rparr>);
           g2 = g1\<lparr>pg_turn_sequence := pg_turn_sequence g1 + 1\<rparr>
       in g2\<lparr>pg_active_turn := Some (pg_turn_sequence g2), pg_active_turn_contaminated := pg_response_active g2\<rparr>)"

text \<open>A deque with a bound drops its first element when it is full.\<close>

definition deque_append :: "nat \<Rightarrow> 'a \<Rightarrow> 'a list \<Rightarrow> 'a list" where
  "deque_append limit x xs = (let ys = xs @ [x] in drop (length ys - limit) ys)"

definition observe_transcript :: "string \<Rightarrow> bool \<Rightarrow> response_gate \<Rightarrow> response_gate" where
  "observe_transcript heard is_final g =
    (if heard = [] then g
     else
       let g1 = (case pg_active_turn g of
             None \<Rightarrow> g\<lparr>pg_turn_sequence := pg_turn_sequence g + 1, pg_active_turn := Some (pg_turn_sequence g + 1)\<rparr>
           | Some _ \<Rightarrow> g);
           g2 = (if pg_response_active g1 then g1\<lparr>pg_active_turn_contaminated := True\<rparr> else g1)
       in if \<not> is_final then g2
          else
            let g3 = (if pg_active_turn_contaminated g2
                  then g2\<lparr>pg_pending := deque_append PENDING_LIMIT (the (pg_active_turn g2), heard) (pg_pending g2)\<rparr> else g2)
            in g3\<lparr>pg_active_turn := None, pg_active_turn_contaminated := False\<rparr>)"

definition should_suppress :: "string \<Rightarrow> response_gate \<Rightarrow> bool \<times> response_gate" where
  "should_suppress candidate g = (case pg_pending g of
      [] \<Rightarrow> (pg_response_active g, g)
    | (_, expected) # rest \<Rightarrow>
        if candidate = expected then (True, g\<lparr>pg_pending := rest\<rparr>)
        else (pg_response_active g, g\<lparr>pg_pending := []\<rparr>))"

definition gate_reset :: "response_gate \<Rightarrow> response_gate" where
  "gate_reset g = g\<lparr>pg_response_active := False, pg_active_turn := None, pg_active_turn_contaminated := False, pg_pending := []\<rparr>"

text \<open>\<open>_TerminalState.publish\<close>: the first result stays.\<close>

datatype agent_terminal = OwnerClosed | RuntimeFailed

definition publish_terminal :: "agent_terminal \<Rightarrow> agent_terminal option \<Rightarrow> bool \<times> agent_terminal option" where
  "publish_terminal result current = (case current of Some c \<Rightarrow> (False, Some c) | None \<Rightarrow> (True, Some result))"

section \<open>Runs of the audio output\<close>

text \<open>
  The LiveKit session's calls, in any order; \<open>OResume\<close> is the return of the \<open>await\<close> in \<open>capture_frame\<close>. A run yields the segments that were handed to the
  sink or to a task that hands them over.
\<close>

datatype output_call = OCapture bytes | OResume | OFlush | OAdvance | OPlayout int | OClosing | OClose

fun output_step :: "output_call \<Rightarrow> roomless_output \<Rightarrow> (agent_error + agent_segment option) \<times> roomless_output" where
  "output_step (OCapture pcm) r = capture_frame pcm r"
| "output_step OResume r = capture_loop r"
| "output_step OFlush r = output_flush r"
| "output_step OAdvance r = (Inr None, advance_producer_epoch r)"
| "output_step (OPlayout epoch) r = (Inr None, playout_finished epoch r)"
| "output_step OClosing r = (Inr None, output_closing r)"
| "output_step OClose r = (Inr None, output_close r)"

fun output_run :: "output_call list \<Rightarrow> roomless_output \<Rightarrow> (agent_error + agent_segment option) list \<times> roomless_output" where
  "output_run [] r = ([], r)"
| "output_run (c # cs) r = (let (x, r') = output_step c r; (xs, r'') = output_run cs r' in (x # xs, r''))"

text \<open>The producer awaits \<open>capture_frame\<close> before it captures or flushes again; the other calls come from other tasks.\<close>

fun orderly :: "output_call list \<Rightarrow> roomless_output \<Rightarrow> bool" where
  "orderly [] r \<longleftrightarrow> True"
| "orderly (c # cs) r \<longleftrightarrow> (case c of OCapture _ \<Rightarrow> length (ro_pending_pcm r) < PCM_BYTES | OFlush \<Rightarrow> length (ro_pending_pcm r) < PCM_BYTES | _ \<Rightarrow> True) \<and>
     orderly cs (snd (output_step c r))"

definition emitted :: "(agent_error + agent_segment option) list \<Rightarrow> agent_segment list" where
  "emitted xs = List.map_filter (\<lambda>x. case x of Inr (Some sg) \<Rightarrow> Some sg | _ \<Rightarrow> None) xs"

text \<open>\<open>LiveKitAgentRunner.interrupt\<close> of a started runner: before and after its \<open>await\<close> of the session's own interrupt. (A runner without a session raises
  before it touches the output.)\<close>

definition runner_interrupt :: "roomless_output \<Rightarrow> roomless_output" where
  "runner_interrupt r = advance_producer_epoch r"

definition runner_interrupted :: "roomless_output \<Rightarrow> int \<times> roomless_output" where
  "runner_interrupted r = (let r1 = advance_producer_epoch r in (ro_producer_epoch r1, r1))"

text \<open>The events a gate sees.\<close>

datatype gate_event = GActive bool | GState string | GTranscript string bool

fun gate_step :: "gate_event \<Rightarrow> response_gate \<Rightarrow> response_gate" where
  "gate_step (GActive active) g = set_response_active active g"
| "gate_step (GState new_state) g = user_state_changed new_state g"
| "gate_step (GTranscript heard is_final) g = observe_transcript heard is_final g"

section \<open>The invariant of the audio output\<close>

definition frames_ok :: "nat \<Rightarrow> nat \<Rightarrow> pcm_frame list \<Rightarrow> bool" where
  "frames_ok lo hi fs \<longleftrightarrow> map pf_sequence fs = [lo..<hi] \<and>
     list_all (\<lambda>f. length (pf_pcm f) = PCM_BYTES \<and> pf_timestamp_samples f = pf_sequence f * PCM_SAMPLES) fs"

definition collected_from :: "roomless_output \<Rightarrow> nat" where
  "collected_from r = ro_sequence r - length (ro_frames r)"

definition collecting :: "roomless_output \<Rightarrow> bool" where
  "collecting r \<longleftrightarrow> length (ro_frames r) \<le> ro_sequence r \<and> frames_ok (collected_from r) (ro_sequence r) (ro_frames r) \<and>
     ro_frames_epoch r = (if ro_frames r = [] then None else Some (ro_producer_epoch r))"

definition output_inv :: "roomless_output \<Rightarrow> bool" where
  "output_inv r \<longleftrightarrow> collecting r \<and> length (ro_frames r) < ro_max_segment_frames r"

lemma frames_ok_nil [simp]: "frames_ok n n []"
  by (simp add: frames_ok_def)

lemma collecting_empty: "ro_frames r = [] \<Longrightarrow> ro_frames_epoch r = None \<Longrightarrow> collecting r"
  by (simp add: collecting_def collected_from_def)

lemma append_frame_collecting:
  assumes c: "collecting r" and n: "length pcm = PCM_BYTES"
  shows "collecting (append_frame pcm r)" "collected_from (append_frame pcm r) = collected_from r"
proof -
  have l: "length (ro_frames r) \<le> ro_sequence r" using c by (simp add: collecting_def)
  then show from_eq: "collected_from (append_frame pcm r) = collected_from r" by (simp add: append_frame_def collected_from_def)
  have "frames_ok (collected_from r) (Suc (ro_sequence r)) (ro_frames (append_frame pcm r))"
    using c n l by (auto simp: append_frame_def collecting_def frames_ok_def collected_from_def)
  then show "collecting (append_frame pcm r)"
    using c l unfolding collecting_def from_eq by (auto simp: append_frame_def split: option.splits if_splits)
qed

text \<open>What an operation may yield: a segment of the current epoch whose frames follow all earlier ones.\<close>

definition yields :: "roomless_output \<Rightarrow> agent_error + agent_segment option \<Rightarrow> roomless_output \<Rightarrow> bool" where
  "yields r x r' \<longleftrightarrow> output_inv r' \<and> ro_max_segment_frames r' = ro_max_segment_frames r \<and> ro_producer_epoch r \<le> ro_producer_epoch r' \<and>
     collected_from r \<le> collected_from r' \<and> (case x of
         Inl _ \<Rightarrow> False
       | Inr None \<Rightarrow> True
       | Inr (Some sg) \<Rightarrow> as_producer_epoch sg = ro_producer_epoch r \<and> as_frames sg \<noteq> [] \<and> length (as_frames sg) \<le> ro_max_segment_frames r \<and>
           (\<exists>lo hi. frames_ok lo hi (as_frames sg) \<and> collected_from r \<le> lo \<and> hi \<le> collected_from r'))"

lemma emit_yields:
  assumes c: "collecting r" and m: "length (ro_frames r) \<le> ro_max_segment_frames r" "0 < ro_max_segment_frames r" and e: "emit_buffered_segment r = (x, r')"
  shows "yields r x r'"
proof -
  have r': "r' = r\<lparr>ro_frames := [], ro_frames_epoch := None\<rparr>" using e by (auto simp: emit_buffered_segment_def Let_def split: if_splits option.splits)
  have "output_inv r'" using m(2) collecting_empty [of r'] by (simp add: output_inv_def r')
  moreover have "x = (if ro_frames r = [] then Inr None else Inr (Some \<lparr>as_producer_epoch = ro_producer_epoch r, as_frames = ro_frames r\<rparr>))"
    using e c by (auto simp: emit_buffered_segment_def Let_def collecting_def split: if_splits)
  moreover have "collected_from r' = ro_sequence r" by (simp add: r' collected_from_def)
  moreover have "frames_ok (collected_from r) (ro_sequence r) (ro_frames r)" "collected_from r \<le> ro_sequence r"
    using c by (simp_all add: collecting_def collected_from_def)
  ultimately show ?thesis using m(1) by (auto simp: yields_def r' simp del: collected_from_def)
qed

lemma yields_trans:
  assumes "output_inv r1" "ro_max_segment_frames r1 = ro_max_segment_frames r" "ro_producer_epoch r1 = ro_producer_epoch r" "collected_from r \<le> collected_from r1"
    and y: "yields r1 x r'"
  shows "yields r x r'"
  using assms unfolding yields_def by (auto split: sum.splits option.splits) (meson order_trans)+

lemma capture_loop_yields: "output_inv r \<Longrightarrow> capture_loop r = (x, r') \<Longrightarrow> yields r x r'"
proof (induction r rule: capture_loop.induct)
  case (1 r)
  show ?case
  proof (cases "length (ro_pending_pcm r) < PCM_BYTES")
    case True
    then show ?thesis using 1(2,3) by (auto simp: yields_def capture_loop.simps [of r])
  next
    case False
    let ?r = "r\<lparr>ro_pending_pcm := drop PCM_BYTES (ro_pending_pcm r)\<rparr>"
    define r1 where "r1 = append_frame (take PCM_BYTES (ro_pending_pcm r)) ?r"
    have "collecting ?r" "collected_from ?r = collected_from r" using 1(2) by (simp_all add: output_inv_def collecting_def collected_from_def)
    then have c: "collecting r1" "collected_from r1 = collected_from r"
      using append_frame_collecting [of ?r "take PCM_BYTES (ro_pending_pcm r)"] False by (simp_all add: r1_def)
    have f: "ro_max_segment_frames r1 = ro_max_segment_frames r" "ro_producer_epoch r1 = ro_producer_epoch r" "length (ro_frames r1) = Suc (length (ro_frames r))"
      by (simp_all add: r1_def append_frame_def)
    have l: "capture_loop r = (if length (ro_frames r1) = ro_max_segment_frames r1 then emit_buffered_segment r1 else capture_loop r1)"
      using False by (subst capture_loop.simps) (simp add: r1_def Let_def)
    show ?thesis
    proof (cases "length (ro_frames r1) = ro_max_segment_frames r1")
      case True
      then have "yields r1 x r'" using emit_yields [OF c(1)] 1(3) l f by simp
      then show ?thesis unfolding yields_def by (simp only: f(1,2) c(2))
    next
      case more: False
      then have i: "output_inv r1" using c(1) f 1(2) by (simp add: output_inv_def)
      have "yields r1 x r'" using 1(1) [OF False r1_def] more i 1(3) l by simp
      then show ?thesis using yields_trans [OF i f(1,2)] c(2) by simp
    qed
  qed
qed

lemma cleared_yields:
  assumes "output_inv r" "ro_frames r' = []" "ro_frames_epoch r' = None" "ro_max_segment_frames r' = ro_max_segment_frames r"
    "ro_producer_epoch r \<le> ro_producer_epoch r'" "ro_sequence r' = ro_sequence r"
  shows "yields r (Inr None) r'"
  using assms collecting_empty [of r'] by (auto simp: yields_def output_inv_def collected_from_def)

lemma output_step_yields:
  assumes I: "output_inv r" and s: "output_step c r = (x, r')" and o: "orderly [c] r"
  shows "yields r x r'"
proof (cases c)
  case (OCapture pcm)
  let ?r = "r\<lparr>ro_pending_pcm := ro_pending_pcm r @ pcm\<rparr>"
  have i: "output_inv ?r" "collected_from ?r = collected_from r" using I by (simp_all add: output_inv_def collecting_def collected_from_def)
  show ?thesis
  proof (cases "ro_closed r")
    case True
    then show ?thesis using s I OCapture by (auto simp: capture_frame_def yields_def)
  next
    case False
    then have "yields ?r x r'" using s OCapture capture_loop_yields [OF i(1)] by (simp add: capture_frame_def)
    then show ?thesis using yields_trans [OF i(1), of r] i(2) by simp
  qed
next
  case OResume
  then show ?thesis using s capture_loop_yields [OF I] by simp
next
  case OFlush
  show ?thesis
  proof (cases "ro_closed r")
    case True
    then show ?thesis using s OFlush I by (auto simp: output_flush_def yields_def output_inv_def collecting_def collected_from_def)
  next
    case False
    show ?thesis
    proof (cases "ro_pending_pcm r = []")
      case True
      then show ?thesis using s OFlush False emit_yields [of r x r'] I by (simp add: output_flush_def output_inv_def)
    next
      case pend: False
      let ?r = "r\<lparr>ro_pending_pcm := []\<rparr>" and ?pcm = "ljust (PCM_SAMPLES * 2) (ro_pending_pcm r)"
      have n: "length ?pcm = PCM_BYTES" using o OFlush by (simp add: ljust_def PCM_BYTES_def)
      have "collecting ?r" "collected_from ?r = collected_from r" using I by (simp_all add: output_inv_def collecting_def collected_from_def)
      note c = append_frame_collecting [OF this(1) n, unfolded this(2)]
      have "yields (append_frame ?pcm ?r) x r'"
        using s OFlush False pend n emit_yields [OF c(1)] I by (simp add: output_flush_def output_inv_def append_frame_def Let_def)
      then show ?thesis using c(2) by (simp add: yields_def append_frame_def split: sum.splits option.splits)
    qed
  qed
next
  case (OPlayout epoch)
  then show ?thesis
    using s I cleared_yields [OF I, of r'] by (cases "ro_producer_epoch r = epoch") (auto simp: playout_finished_def advance_producer_epoch_def yields_def)
next
  case OClosing
  then show ?thesis using s I by (auto simp: yields_def output_inv_def collecting_def collected_from_def output_closing_def)
qed (use s cleared_yields [OF I, of r'] in \<open>auto simp: advance_producer_epoch_def output_close_def\<close>)

section \<open>Segments of a run\<close>

definition segment_ok :: "nat \<Rightarrow> agent_segment \<Rightarrow> bool" where
  "segment_ok m sg \<longleftrightarrow> as_frames sg \<noteq> [] \<and> length (as_frames sg) \<le> m \<and>
     list_all (\<lambda>f. length (pf_pcm f) = PCM_BYTES \<and> pf_timestamp_samples f = pf_sequence f * PCM_SAMPLES) (as_frames sg)"

definition spoken :: "(agent_error + agent_segment option) list \<Rightarrow> nat list" where
  "spoken xs = map pf_sequence (concat (map as_frames (emitted xs)))"

definition run_yields :: "roomless_output \<Rightarrow> (agent_error + agent_segment option) list \<Rightarrow> roomless_output \<Rightarrow> bool" where
  "run_yields r xs r' \<longleftrightarrow> output_inv r' \<and> ro_producer_epoch r \<le> ro_producer_epoch r' \<and> ro_max_segment_frames r' = ro_max_segment_frames r \<and>
     collected_from r \<le> collected_from r' \<and> list_all isOk xs \<and>
     (\<forall>sg \<in> set (emitted xs). segment_ok (ro_max_segment_frames r) sg \<and> ro_producer_epoch r \<le> as_producer_epoch sg \<and> as_producer_epoch sg \<le> ro_producer_epoch r') \<and>
     sorted_wrt (<) (spoken xs) \<and> (\<forall>n \<in> set (spoken xs). collected_from r \<le> n \<and> n < collected_from r')"

lemma emitted_simps [simp]:
  "emitted [] = []" "emitted (Inl e # xs) = emitted xs" "emitted (Inr None # xs) = emitted xs" "emitted (Inr (Some sg) # xs) = sg # emitted xs"
  by (simp_all add: emitted_def List.map_filter_simps)

lemma run_yields_step:
  assumes y: "yields r x r1" and t: "run_yields r1 ys r'"
  shows "run_yields r (x # ys) r'"
proof (cases x)
  case (Inl e)
  then show ?thesis using y by (simp add: yields_def)
next
  case (Inr s)
  have le: "ro_producer_epoch r \<le> ro_producer_epoch r1" "ro_producer_epoch r1 \<le> ro_producer_epoch r'" "collected_from r \<le> collected_from r1"
      "collected_from r1 \<le> collected_from r'" "ro_max_segment_frames r1 = ro_max_segment_frames r"
    using y t by (simp_all add: yields_def run_yields_def)
  have later: "collected_from r1 \<le> n \<and> n < collected_from r'" if "n \<in> set (spoken ys)" for n using t that by (simp add: run_yields_def)
  have segs: "segment_ok (ro_max_segment_frames r) sg \<and> ro_producer_epoch r \<le> as_producer_epoch sg \<and> as_producer_epoch sg \<le> ro_producer_epoch r'"
    if "sg \<in> set (emitted ys)" for sg using t that le(1,5) by (auto simp: run_yields_def)
  show ?thesis
  proof (cases s)
    case None
    then have "spoken (x # ys) = spoken ys" using Inr by (simp add: spoken_def)
    then show ?thesis using t le later segs Inr None unfolding run_yields_def by (auto intro: order_trans)
  next
    case (Some sg)
    then have sp: "spoken (x # ys) = map pf_sequence (as_frames sg) @ spoken ys" using Inr by (simp add: spoken_def)
    obtain lo hi where f: "frames_ok lo hi (as_frames sg)" "collected_from r \<le> lo" "hi \<le> collected_from r1" using y Inr Some by (auto simp: yields_def)
    have now: "collected_from r \<le> n \<and> n < collected_from r1" if "n \<in> set (map pf_sequence (as_frames sg))" for n
      using f that by (auto simp: frames_ok_def)
    have "sorted_wrt (<) (map pf_sequence (as_frames sg))" using f(1) by (simp add: frames_ok_def)
    then have "sorted_wrt (<) (spoken (x # ys))" using t now later unfolding sp sorted_wrt_append run_yields_def by fastforce
    moreover have "collected_from r \<le> n \<and> n < collected_from r'" if "n \<in> set (spoken (x # ys))" for n
      using that now [of n] later [of n] le(3,4) unfolding sp by auto
    moreover have "segment_ok (ro_max_segment_frames r) sg \<and> as_producer_epoch sg = ro_producer_epoch r"
      using y Inr Some f(1) by (auto simp: yields_def segment_ok_def frames_ok_def)
    ultimately show ?thesis using t le segs Inr Some unfolding run_yields_def by (auto intro: order_trans)
  qed
qed

lemma output_run_yields: "output_inv r \<Longrightarrow> orderly cs r \<Longrightarrow> output_run cs r = (xs, r') \<Longrightarrow> run_yields r xs r'"
proof (induction cs arbitrary: r xs)
  case Nil
  then show ?case by (simp add: run_yields_def spoken_def)
next
  case (Cons c cs)
  obtain x r1 where x1: "output_step c r = (x, r1)" by fastforce
  obtain ys r2 where x2: "output_run cs r1 = (ys, r2)" by fastforce
  have x: "output_run cs r1 = (ys, r')" "xs = x # ys" using Cons.prems(3) x1 x2 by simp_all
  have y: "yields r x r1" using output_step_yields [OF Cons.prems(1) x1] Cons.prems(2) by simp
  have "output_inv r1" "orderly cs r1" using y Cons.prems(2) x1 by (simp_all add: yields_def)
  from run_yields_step [OF y Cons.IH [OF this x(1)]] show ?case using x(2) by simp
qed


section \<open>Capturing an utterance\<close>

lemma emit_fields:
  assumes "emit_buffered_segment r = (x, r')"
  shows "ro_pending_pcm r' = ro_pending_pcm r" "ro_frames r' = []" "ro_closed r' = ro_closed r" "x = Inr (Some sg) \<Longrightarrow> as_frames sg = ro_frames r"
    "x = Inr None \<Longrightarrow> ro_frames r = []"
  using assms by (auto simp: emit_buffered_segment_def Let_def split: if_splits option.splits)

lemma capture_loop_chop:
  "capture_loop r = (x, r') \<Longrightarrow> 0 < ro_max_segment_frames r \<Longrightarrow>
    ro_closed r' = ro_closed r \<and> length (ro_pending_pcm r') \<le> length (ro_pending_pcm r) \<and>
    (x = Inr None \<longrightarrow> ro_pending_pcm r' = snd (chop PCM_BYTES (ro_pending_pcm r)) \<and>
       map pf_pcm (ro_frames r') = map pf_pcm (ro_frames r) @ fst (chop PCM_BYTES (ro_pending_pcm r))) \<and>
    (\<forall>sg. x = Inr (Some sg) \<longrightarrow> length (ro_pending_pcm r') < length (ro_pending_pcm r) \<and> ro_frames r' = [] \<and>
       (\<exists>cs. map pf_pcm (as_frames sg) = map pf_pcm (ro_frames r) @ cs \<and>
         chop PCM_BYTES (ro_pending_pcm r) = (cs @ fst (chop PCM_BYTES (ro_pending_pcm r')), snd (chop PCM_BYTES (ro_pending_pcm r')))))"
proof (induction r rule: capture_loop.induct)
  case (1 r)
  have pos: "0 < PCM_BYTES" by (simp add: PCM_BYTES_def PCM_SAMPLES_def)
  show ?case
  proof (cases "length (ro_pending_pcm r) < PCM_BYTES")
    case True
    then show ?thesis using 1(2) by (auto simp: capture_loop.simps [of r])
  next
    case False
    define r1 where "r1 = append_frame (take PCM_BYTES (ro_pending_pcm r)) (r\<lparr>ro_pending_pcm := drop PCM_BYTES (ro_pending_pcm r)\<rparr>)"
    have l: "capture_loop r = (if length (ro_frames r1) = ro_max_segment_frames r1 then emit_buffered_segment r1 else capture_loop r1)"
      using False by (subst capture_loop.simps) (simp add: r1_def Let_def)
    have f: "ro_pending_pcm r1 = drop PCM_BYTES (ro_pending_pcm r)" "map pf_pcm (ro_frames r1) = map pf_pcm (ro_frames r) @ [take PCM_BYTES (ro_pending_pcm r)]"
      "ro_closed r1 = ro_closed r" "ro_max_segment_frames r1 = ro_max_segment_frames r" "ro_frames r1 \<noteq> []"
      by (simp_all add: r1_def append_frame_def)
    have ch: "chop PCM_BYTES (ro_pending_pcm r) =
        (take PCM_BYTES (ro_pending_pcm r) # fst (chop PCM_BYTES (ro_pending_pcm r1)), snd (chop PCM_BYTES (ro_pending_pcm r1)))"
      using chop_long [OF pos, of "ro_pending_pcm r"] False f(1) by simp
    have sh: "length (ro_pending_pcm r1) < length (ro_pending_pcm r)" using False pos f(1) by simp
    show ?thesis
    proof (cases "length (ro_frames r1) = ro_max_segment_frames r1")
      case True
      then have e: "emit_buffered_segment r1 = (x, r')" using 1(2) l by simp
      show ?thesis using emit_fields [OF e] f ch sh by auto
    next
      case more: False
      then have "capture_loop r1 = (x, r')" using 1(2) l by simp
      note IH = 1(1) [OF False r1_def more this]
      show ?thesis
      proof (intro conjI allI impI)
        fix sg assume x: "x = Inr (Some sg)"
        then obtain cs where "map pf_pcm (as_frames sg) = map pf_pcm (ro_frames r1) @ cs"
          "chop PCM_BYTES (ro_pending_pcm r1) = (cs @ fst (chop PCM_BYTES (ro_pending_pcm r')), snd (chop PCM_BYTES (ro_pending_pcm r')))"
          using IH 1(3) f(4) by auto
        then show "\<exists>cs. map pf_pcm (as_frames sg) = map pf_pcm (ro_frames r) @ cs \<and>
            chop PCM_BYTES (ro_pending_pcm r) = (cs @ fst (chop PCM_BYTES (ro_pending_pcm r')), snd (chop PCM_BYTES (ro_pending_pcm r')))"
          using ch f(2) by (intro exI [of _ "take PCM_BYTES (ro_pending_pcm r) # cs"]) simp
      qed (use IH 1(3) f ch sh in auto)
    qed
  qed
qed


text \<open>A call of \<open>capture_frame\<close> to its end, whose segments the sink takes.\<close>

function capture_all :: "roomless_output \<Rightarrow> agent_segment list \<times> roomless_output" where
  "capture_all r = (if ro_max_segment_frames r = 0 then ([], r) else case capture_loop r of
      (Inr (Some sg), r') \<Rightarrow> (let (sgs, r'') = capture_all r' in (sg # sgs, r''))
    | (_, r') \<Rightarrow> ([], r'))"
  by pat_completeness auto
termination
proof (relation "measure (\<lambda>r. length (ro_pending_pcm r))")
  fix r x r' y sg
  assume "ro_max_segment_frames r \<noteq> 0" "(x, r') = capture_loop r" "x = Inr y" "y = Some sg"
  then show "(r', r) \<in> measure (\<lambda>r. length (ro_pending_pcm r))"
    using capture_loop_chop [of r x r'] by simp
qed simp

declare capture_all.simps [simp del]

lemma capture_all_loop:
  assumes "output_inv r"
  shows "(\<exists>r'. capture_loop r = (Inr None, r') \<and> capture_all r = ([], r')) \<or>
    (\<exists>sg r'. capture_loop r = (Inr (Some sg), r') \<and> capture_all r = (sg # fst (capture_all r'), snd (capture_all r')))"
proof -
  obtain x r' where x: "capture_loop r = (x, r')" by fastforce
  have "ro_max_segment_frames r \<noteq> 0" "isOk x" using assms capture_loop_yields [OF assms x]
    by (auto simp: output_inv_def yields_def isOk_def split: sum.splits)
  then show ?thesis using x by (cases x rule: sum.exhaust) (auto simp: capture_all.simps [of r] isOk_iff split_beta split: option.split)
qed

lemma capture_all_chop:
  assumes "output_inv r"
  shows "output_inv (snd (capture_all r)) \<and> ro_closed (snd (capture_all r)) = ro_closed r \<and> ro_pending_pcm (snd (capture_all r)) = snd (chop PCM_BYTES (ro_pending_pcm r)) \<and>
    map pf_pcm (concat (map as_frames (fst (capture_all r))) @ ro_frames (snd (capture_all r))) = map pf_pcm (ro_frames r) @ fst (chop PCM_BYTES (ro_pending_pcm r))"
  using assms
proof (induction "length (ro_pending_pcm r)" arbitrary: r rule: less_induct)
  case less
  have m: "0 < ro_max_segment_frames r" using less.prems by (auto simp: output_inv_def)
  from capture_all_loop [OF less.prems] show ?case
  proof (elim disjE exE conjE)
    fix r' assume l: "capture_loop r = (Inr None, r')" "capture_all r = ([], r')"
    then show ?thesis using capture_loop_chop [OF l(1) m] capture_loop_yields [OF less.prems l(1)] by (simp add: yields_def)
  next
    fix sg r' assume l: "capture_loop r = (Inr (Some sg), r')" "capture_all r = (sg # fst (capture_all r'), snd (capture_all r'))"
    note C = capture_loop_chop [OF l(1) m]
    then obtain cs where cs: "map pf_pcm (as_frames sg) = map pf_pcm (ro_frames r) @ cs"
      "chop PCM_BYTES (ro_pending_pcm r) = (cs @ fst (chop PCM_BYTES (ro_pending_pcm r')), snd (chop PCM_BYTES (ro_pending_pcm r')))"
      "length (ro_pending_pcm r') < length (ro_pending_pcm r)" "ro_frames r' = []" "ro_closed r' = ro_closed r" by auto
    have i: "output_inv r'" using capture_loop_yields [OF less.prems l(1)] by (simp add: yields_def)
    show ?thesis using less.hyps [OF cs(3) i] l(2) cs by simp
  qed
qed

definition speak :: "bytes \<Rightarrow> agent_segment list \<times> roomless_output \<Rightarrow> agent_segment list \<times> roomless_output" where
  "speak pcm = (\<lambda>(sgs, r). let (ss, r') = capture_all (r\<lparr>ro_pending_pcm := ro_pending_pcm r @ pcm\<rparr>) in (sgs @ ss, r'))"

interpretation speech: chunker PCM_BYTES "\<lambda>(sgs, r). ro_pending_pcm r" "\<lambda>(sgs, r). map pf_pcm (concat (map as_frames sgs) @ ro_frames r)"
  "\<lambda>(sgs, r). output_inv r \<and> \<not> ro_closed r" speak
proof unfold_locales
  show "0 < PCM_BYTES" by (simp add: PCM_BYTES_def PCM_SAMPLES_def)
  fix s :: "agent_segment list \<times> roomless_output" and xs
  obtain sgs r where s: "s = (sgs, r)" by fastforce
  let ?r = "r\<lparr>ro_pending_pcm := ro_pending_pcm r @ xs\<rparr>"
  assume "case s of (sgs, r) \<Rightarrow> output_inv r \<and> \<not> ro_closed r"
  then have i: "output_inv ?r" "\<not> ro_closed r" by (auto simp: s output_inv_def collecting_def collected_from_def)
  note C = capture_all_chop [OF i(1)]
  show "case speak xs s of (sgs, r) \<Rightarrow> output_inv r \<and> \<not> ro_closed r" using C i(2) by (simp add: speak_def s split_beta)
  show "(case speak xs s of (sgs, r) \<Rightarrow> ro_pending_pcm r) = snd (chop PCM_BYTES ((case s of (sgs, r) \<Rightarrow> ro_pending_pcm r) @ xs))"
    using C by (simp add: speak_def s split_beta)
  show "(case speak xs s of (sgs, r) \<Rightarrow> map pf_pcm (concat (map as_frames sgs) @ ro_frames r)) =
      (case s of (sgs, r) \<Rightarrow> map pf_pcm (concat (map as_frames sgs) @ ro_frames r)) @ fst (chop PCM_BYTES ((case s of (sgs, r) \<Rightarrow> ro_pending_pcm r) @ xs))"
    using C by (simp add: speak_def s split_beta)
qed


section \<open>Properties\<close>

lemma ljust_multiple:
  assumes "length bs < n" "bs \<noteq> []"
  shows "\<exists>k < n. ljust n bs = bs @ replicate k 0 \<and> length bs + k = n" "length (ljust n bs) = n"
  using assms by (auto simp: ljust_def intro!: exI [of _ "n - length bs"])

lemma output_flush_emits:
  assumes I: "output_inv r" and open_r: "\<not> ro_closed r" and n: "length (ro_pending_pcm r) < PCM_BYTES"
  shows "\<exists>sgs k. output_flush r = (Inr sgs, snd (output_flush r)) \<and> k < PCM_BYTES \<and> (ro_pending_pcm r \<noteq> [] \<longrightarrow> length (ro_pending_pcm r) + k = PCM_BYTES) \<and>
    map pf_pcm (case sgs of None \<Rightarrow> [] | Some sg \<Rightarrow> as_frames sg) =
      map pf_pcm (ro_frames r) @ (if ro_pending_pcm r = [] then [] else [ro_pending_pcm r @ replicate k 0])"
proof (cases "ro_pending_pcm r = []")
  case True
  then show ?thesis using I open_r n
    by (auto simp: output_flush_def emit_buffered_segment_def output_inv_def collecting_def Let_def split: if_splits)
next
  case False
  have c: "collecting (r\<lparr>ro_pending_pcm := []\<rparr>)" using I by (simp add: output_inv_def collecting_def collected_from_def)
  note J = ljust_multiple [OF n False]
  have "PCM_SAMPLES * 2 = PCM_BYTES" by (simp add: PCM_BYTES_def)
  then show ?thesis
    using False open_r J append_frame_collecting(1) [OF c J(2)]
    by (auto simp: output_flush_def emit_buffered_segment_def Let_def append_frame_def collecting_def split: option.splits if_splits)
qed

text \<open>
  C36. What the agent says is not altered by being cut. Let an open output that has collected nothing be given the audio of an utterance in pieces of
  any sizes, and then be flushed. The frames of the segments it hands over have 640 bytes each, and together they are the
  audio of the pieces, followed by fewer than 640 bytes of silence; two ways of cutting the same audio give the same frames.
\<close>

theorem speech_conserved:
  assumes start: "output_inv r" "\<not> ro_closed r" "ro_frames r = []" "ro_pending_pcm r = []"
    and said: "fold speak xss ([], r) = (sgs, r1)" and flushed: "output_flush r1 = (x, r2)"
  shows "\<exists>lst k. x = Inr lst \<and> k < PCM_BYTES \<and>
    (let fs = map pf_pcm (concat (map as_frames sgs) @ (case lst of None \<Rightarrow> [] | Some sg \<Rightarrow> as_frames sg)) in
      concat fs = concat xss @ replicate k 0 \<and> list_all (\<lambda>f. length f = PCM_BYTES) fs) \<and>
    (\<forall>yss. concat yss = concat xss \<longrightarrow> (case fold speak yss ([], r) of (sgs', r1') \<Rightarrow>
      map pf_pcm (concat (map as_frames sgs') @ ro_frames r1') = map pf_pcm (concat (map as_frames sgs) @ ro_frames r1) \<and> ro_pending_pcm r1' = ro_pending_pcm r1))"
proof -
  have o: "(\<lambda>(sgs, r). output_inv r \<and> \<not> ro_closed r) ([] :: agent_segment list, r)" using start by simp
  have pos: "0 < PCM_BYTES" by (simp add: PCM_BYTES_def PCM_SAMPLES_def)
  have e: "length ((\<lambda>(sgs, r). ro_pending_pcm r) ([] :: agent_segment list, r)) < PCM_BYTES" using start(4) pos by simp
  have P: "output_inv r1 \<and> \<not> ro_closed r1 \<and> ro_pending_pcm r1 = snd (chop PCM_BYTES (concat xss)) \<and>
      map pf_pcm (concat (map as_frames sgs) @ ro_frames r1) = fst (chop PCM_BYTES (concat xss))"
    using speech.pushes [OF o e, of xss] said start(3,4) by simp
  note C = chop_spec [OF pos, of "concat xss"]
  have i: "output_inv r1" "\<not> ro_closed r1" "length (ro_pending_pcm r1) < PCM_BYTES" using P C by auto
  obtain lst k where f: "x = Inr lst" "k < PCM_BYTES" "ro_pending_pcm r1 \<noteq> [] \<longrightarrow> length (ro_pending_pcm r1) + k = PCM_BYTES"
    "map pf_pcm (case lst of None \<Rightarrow> [] | Some sg \<Rightarrow> as_frames sg) = map pf_pcm (ro_frames r1) @ (if ro_pending_pcm r1 = [] then [] else [ro_pending_pcm r1 @ replicate k 0])"
    using output_flush_emits [OF i] flushed by auto
  define fs where "fs = map pf_pcm (concat (map as_frames sgs) @ (case lst of None \<Rightarrow> [] | Some sg \<Rightarrow> as_frames sg))"
  have fs: "fs = fst (chop PCM_BYTES (concat xss)) @ (if ro_pending_pcm r1 = [] then [] else [ro_pending_pcm r1 @ replicate k 0])"
    using P f(4) by (simp add: fs_def)
  define j where "j = (if ro_pending_pcm r1 = [] then 0 else k)"
  have "concat fs = concat xss @ replicate j 0"
    using C P by (cases "ro_pending_pcm r1 = []") (auto simp: fs j_def)
  moreover have "list_all (\<lambda>f. length f = PCM_BYTES) fs" using C f(3) by (simp add: fs)
  moreover have "(case fold speak yss ([], r) of (sgs', r1') \<Rightarrow>
      map pf_pcm (concat (map as_frames sgs') @ ro_frames r1') = map pf_pcm (concat (map as_frames sgs) @ ro_frames r1) \<and> ro_pending_pcm r1' = ro_pending_pcm r1)"
    if "concat yss = concat xss" for yss
    using speech.cut_invariant [OF o e that] said by (cases "fold speak yss ([], r)") simp
  moreover have "j < PCM_BYTES" using f(2) pos by (simp add: j_def)
  ultimately show ?thesis using f(1) unfolding fs_def Let_def by blast
qed

text \<open>
  C37. An interruption separates what was said before it from what comes after. Over any calls of an output, each orderly: let
  the runner's \<open>interrupt\<close> run, with any calls during its \<open>await\<close>, and let the connection record the epoch it returns. The connection then refuses every segment
  that was produced before or during the interruption, and, unless it is closed or had asked for a later epoch already, none that is produced afterwards.
\<close>

theorem interrupt_separates:
  assumes new: "roomless_output_init m = Inr r0"
    and before: "orderly cs1 r0" "output_run cs1 r0 = (xs1, r1)"
    and during: "orderly cs2 (runner_interrupt r1)" "output_run cs2 (runner_interrupt r1) = (xs2, r2)"
    and answer: "runner_interrupted r2 = (e, r3)" "agent_interrupted (Some e) s = (Inr (), s')"
    and after: "orderly cs3 r3" "output_run cs3 r3 = (xs3, r4)"
  shows "(\<forall>sg \<in> set (emitted xs1) \<union> set (emitted xs2). segment_refused \<lparr>sg_producer_epoch = as_producer_epoch sg, sg_frames = length (as_frames sg)\<rparr> s') \<and>
    (\<not> cn_closed s \<longrightarrow> cn_minimum_producer_epoch s \<le> e \<longrightarrow>
      (\<forall>sg \<in> set (emitted xs3). \<not> segment_refused \<lparr>sg_producer_epoch = as_producer_epoch sg, sg_frames = length (as_frames sg)\<rparr> s'))"
proof -
  have "output_inv r0" using new by (auto simp: roomless_output_init_def output_inv_def collecting_def collected_from_def split: if_splits)
  note Y1 = output_run_yields [OF this before]
  have "output_inv (runner_interrupt r1)" using Y1 by (auto simp: run_yields_def output_inv_def collecting_def collected_from_def runner_interrupt_def advance_producer_epoch_def)
  note Y2 = output_run_yields [OF this during]
  have r3: "e = ro_producer_epoch r2 + 1" "ro_producer_epoch r3 = e" using answer(1) by (auto simp: runner_interrupted_def Let_def advance_producer_epoch_def)
  have "output_inv r3" using Y2 answer(1)
    by (auto simp: run_yields_def output_inv_def collecting_def collected_from_def runner_interrupted_def advance_producer_epoch_def)
  note Y3 = output_run_yields [OF this after]
  have s': "s' = s\<lparr>cn_minimum_producer_epoch := max (cn_minimum_producer_epoch s) e\<rparr>" using answer(2) by (simp add: agent_interrupted_def)
  have "ro_producer_epoch r1 < e" using Y2 r3 by (simp add: run_yields_def runner_interrupt_def advance_producer_epoch_def)
  then have "as_producer_epoch sg < e" if "sg \<in> set (emitted xs1) \<union> set (emitted xs2)" for sg
    using that Y1 Y2 r3(1) by (force simp: run_yields_def)
  moreover have "e \<le> as_producer_epoch sg \<and> as_frames sg \<noteq> []" if "sg \<in> set (emitted xs3)" for sg
    using that Y3 r3(2) by (auto simp: run_yields_def segment_ok_def)
  ultimately show ?thesis by (fastforce simp: segment_refused_def s' max_def)
qed


text \<open>The reference for the gate: was anything heard while a response was active; is one active at the end.\<close>

fun overheard :: "gate_event list \<Rightarrow> bool \<Rightarrow> bool" where
  "overheard [] active \<longleftrightarrow> False"
| "overheard (GActive a # es) active \<longleftrightarrow> overheard es a"
| "overheard (GState _ # es) active \<longleftrightarrow> overheard es active"
| "overheard (GTranscript heard _ # es) active \<longleftrightarrow> heard \<noteq> [] \<and> active \<or> overheard es active"

fun active_after :: "gate_event list \<Rightarrow> bool \<Rightarrow> bool" where
  "active_after [] active \<longleftrightarrow> active"
| "active_after (GActive a # es) active \<longleftrightarrow> active_after es a"
| "active_after (_ # es) active \<longleftrightarrow> active_after es active"

text \<open>Events within a turn: no new start of speech and no final transcript.\<close>

fun within_turn :: "gate_event \<Rightarrow> bool" where
  "within_turn (GActive a) \<longleftrightarrow> True"
| "within_turn (GState new_state) \<longleftrightarrow> new_state \<noteq> ''speaking''"
| "within_turn (GTranscript heard is_final) \<longleftrightarrow> \<not> is_final \<or> heard = []"

lemma within_turn_steps:
  assumes "list_all within_turn es" "pg_active_turn g = Some n"
  shows "fold gate_step es g = g\<lparr>pg_response_active := active_after es (pg_response_active g),
    pg_active_turn_contaminated := pg_active_turn_contaminated g \<or> overheard es (pg_response_active g)\<rparr>"
  using assms
proof (induction es arbitrary: g)
  case (Cons x es)
  show ?case
  proof (cases x)
    case (GActive a)
    then show ?thesis using Cons by (simp add: set_response_active_def)
  next
    case (GState new_state)
    then show ?thesis using Cons by (simp add: user_state_changed_def)
  next
    case (GTranscript heard is_final)
    have "gate_step x g = g\<lparr>pg_active_turn_contaminated := pg_active_turn_contaminated g \<or> heard \<noteq> [] \<and> pg_response_active g\<rparr>"
      using Cons.prems GTranscript by (auto simp: observe_transcript_def Let_def)
    then show ?thesis using Cons GTranscript by (auto simp: ac_simps)
  qed
qed simp

lemma fold_active: "fold gate_step (map GActive bs) g = g\<lparr>pg_response_active := active_after (map GActive bs) (pg_response_active g)\<rparr>"
  by (induction bs arbitrary: g) (simp_all add: set_response_active_def)


lemma gate_pending_bounded: "length (pg_pending g) \<le> PENDING_LIMIT \<Longrightarrow> length (pg_pending (fold gate_step es g)) \<le> PENDING_LIMIT"
proof (induction es arbitrary: g)
  case (Cons x es)
  have "length (pg_pending (gate_step x g)) \<le> PENDING_LIMIT"
    using Cons.prems by (cases x) (auto simp: set_response_active_def user_state_changed_def observe_transcript_def deque_append_def Let_def split: option.split)
  then show ?case using Cons.IH by simp
qed simp

section \<open>Examples\<close>

definition demo_output :: roomless_output where
  "demo_output = \<lparr>ro_max_segment_frames = 2, ro_frames = [], ro_pending_pcm = [], ro_frames_epoch = None, ro_producer_epoch = 1, ro_sequence = 0, ro_closed = False\<rparr>"

lemma demo_output_init: "roomless_output_init 2 = Inr demo_output"
  by (simp add: roomless_output_init_def demo_output_def)

lemma demo_flush: "output_flush (demo_output\<lparr>ro_pending_pcm := [1, 2, 3]\<rparr>) =
  (Inr (Some \<lparr>as_producer_epoch = 1, as_frames = [\<lparr>pf_generation = 0, pf_sequence = 0, pf_timestamp_samples = 0, pf_pcm = ljust PCM_BYTES [1, 2, 3]\<rparr>]\<rparr>), demo_output\<lparr>ro_sequence := 1\<rparr>)"
  by (simp add: output_flush_def demo_output_def append_frame_def emit_buffered_segment_def ljust_def PCM_BYTES_def PCM_SAMPLES_def)

theorem speech_conserved_witness:
  "\<exists>lst k. fst (output_flush (snd (fold speak [[1], [2, 3]] ([], demo_output)))) = Inr lst \<and> k < PCM_BYTES \<and>
    concat (map pf_pcm (concat (map as_frames (fst (fold speak [[1], [2, 3]] ([], demo_output)))) @ (case lst of None \<Rightarrow> [] | Some sg \<Rightarrow> as_frames sg))) =
      [1, 2, 3] @ replicate k 0"
proof -
  have i: "output_inv demo_output" "\<not> ro_closed demo_output" "ro_frames demo_output = []" "ro_pending_pcm demo_output = []"
    by (simp_all add: demo_output_def output_inv_def collecting_def collected_from_def)
  from speech_conserved [OF i prod.collapse [symmetric] prod.collapse [symmetric], of "[[1], [2, 3]]"] show ?thesis by (auto simp: Let_def)
qed

theorem interrupt_separates_witness:
  "\<exists>r1 xs1 e r3. output_run [OCapture [1, 2, 3], OFlush] demo_output = (xs1, r1) \<and> runner_interrupted (runner_interrupt r1) = (e, r3) \<and>
    (\<forall>s. \<forall>sg \<in> set (emitted xs1). segment_refused \<lparr>sg_producer_epoch = as_producer_epoch sg, sg_frames = length (as_frames sg)\<rparr>
      (s\<lparr>cn_minimum_producer_epoch := max (cn_minimum_producer_epoch s) e\<rparr>)) \<and> length (emitted xs1) = 1"
proof -
  have c: "capture_frame [1, 2, 3] demo_output = (Inr None, demo_output\<lparr>ro_pending_pcm := [1, 2, 3]\<rparr>)"
    by (simp add: capture_frame_def capture_loop.simps demo_output_def PCM_BYTES_def PCM_SAMPLES_def)
  have o: "orderly [OCapture [1, 2, 3], OFlush] demo_output" by (simp add: c) (simp add: demo_output_def PCM_BYTES_def PCM_SAMPLES_def)
  obtain xs1 r1 where r: "output_run [OCapture [1, 2, 3], OFlush] demo_output = (xs1, r1)" by fastforce
  then have n: "length (emitted xs1) = 1" by (auto simp: c demo_flush)
  obtain e r3 where e: "runner_interrupted (runner_interrupt r1) = (e, r3)" by fastforce
  have i: "agent_interrupted (Some e) s = (Inr (), s\<lparr>cn_minimum_producer_epoch := max (cn_minimum_producer_epoch s) e\<rparr>)" for s by (simp add: agent_interrupted_def)
  have quiet: "orderly [] (runner_interrupt r1)" "output_run [] (runner_interrupt r1) = ([], runner_interrupt r1)" "orderly [] r3" "output_run [] r3 = ([], r3)" by simp_all
  show ?thesis using interrupt_separates [OF demo_output_init o r quiet(1,2) e i quiet(3,4)] r e n by auto
qed


end
