(* ===== verification/Spec2Isabelle.thy ===== *)
theory Spec2Isabelle
  imports Runtime_Text Udp_Routing Director_Service Route_Exclusion Worker_Shutdown Crossings Client_Udp_Flow Agent_Output
begin

text \<open>
  A verification library for the realtime voice agent.

  \<^bold>\<open>The program.\<close> A device or desktop client asks the \<^emph>\<open>Session Director\<close> for a session; the Director leases a route to a
  \<^emph>\<open>Realtime Worker\<close> and signs a grant that names worker, device and route. The client connects to the worker over a
  WebSocket (WSS), presents the grant and opens a session of the protocol rva/1: JSON control messages and Opus packets,
  the packets over the same socket or over an AES-GCM protected UDP path. The worker feeds the uplink to a voice agent,
  and what the agent says becomes a \<^emph>\<open>response\<close>: announced, streamed as text and paced packets, ended or stopped, and
  confirmed by the client's playback facts. A response has a generation; stopping one moves the fence past it, and nothing of an older
  generation may be heard afterwards.

  \<^bold>\<open>How the code is modelled.\<close> A Python object is a record, its methods are functions that return a result (\<open>Inl\<close> the
  exception, \<open>Inr\<close> the value) together with the changed object, also when they raise. Unbounded integers are \<open>int\<close>, with
  the masks of the code written out; clock readings are \<open>real\<close> arguments; a \<open>str\<close> is its UTF-8 \<open>string\<close>; a dict is an
  association list in insertion order. Objects that two containers share are entries of a heap (\<open>rc_heap\<close>), or are
  written back to the container that owns them. Code between two \<open>await\<close>s is one operation; tasks that interleave are
  state machines whose states name the \<open>await\<close> where they are suspended. Random identifiers, clocks, the AEAD, the MAC, the codec,
  the audio sink and the agent are arguments. A JSON text is represented by its value and its length in bytes, which is what
  the limits of the protocol are about.

  \<^bold>\<open>The theories\<close>, from the bottom (paths below \<open>src/server/apps/realtime_worker/src/realtime_worker\<close> unless said otherwise):

  \<^item> \<open>Rva_Prelude\<close>: results, operations and their sequencing, dictionaries, big-endian integers. \<open>Json_Values\<close>: JSON values, the Python
    operations on them and the length of their text.
  \<^item> \<open>Media_Header\<close>: the 32-byte header shared by all media formats, and the locale \<open>media_codec\<close> of a codec that is a bijection between valid
    frames and their encodings, interpreted for the worker's and the client's codec. \<open>Replay_Guard\<close>: the locale \<open>replay_guard\<close> of a
    sliding replay window, interpreted for the worker's and the client's window.
  \<^item> \<open>Rva_Protocol\<close> (\<open>bindings/rva/protocol.py\<close>), \<open>Voice_Session\<close> (\<open>voice/session.py\<close>), \<open>Lifecycle\<close> (\<open>lifecycle.py\<close>).
  \<^item> \<open>Response_Coordinator\<close> (\<open>bindings/rva/response.py\<close>): the records of responses, the fence and the playback facts, with an
    inductive step relation and the invariant of its reachable states.
  \<^item> \<open>Rva_Binding\<close> (\<open>bindings/rva/binding.py\<close>): the session, i.e. what every control message and every packet does.
  \<^item> \<open>Uplink_Queue\<close>, \<open>Rva_Runtime\<close>, \<open>Runtime_Tasks\<close>, \<open>Runtime_Text\<close> (\<open>bindings/rva/runtime.py\<close>): the connection that owns a
    session: uplink admission and pacing; downlink segments and control effects; the interleaving of its tasks, with the
    locale \<open>connection_invariant\<close> of properties that every step keeps; transcripts and decoding.
  \<^item> \<open>Udp_Wire\<close>, \<open>Udp_Gateway\<close>, \<open>Udp_Routing\<close> (\<open>transport/udp_wire.py\<close>, \<open>transport/udp_gateway.py\<close>): the UDP media session with its probe, reorder
    buffer and gap timer, and the gateway that routes datagrams to sessions.
  \<^item> \<open>Interruption\<close> (\<open>interruption.py\<close>), \<open>Worker_Admission\<close> (\<open>admission.py\<close>, \<open>auth.py\<close>).
  \<^item> \<open>Contracts\<close> (\<open>server/packages/voice_contracts\<close>): the models Director and worker share, and signed grants.
  \<^item> \<open>Coordination_Store\<close> (\<open>session_director/store.py\<close>): the locale \<open>coordination_store\<close> of what a store promises, interpreted for the in-memory
    store. \<open>Director_Service\<close> (\<open>session_director/service.py\<close>, \<open>app.py\<close>, \<open>config.py\<close>): the Director over a store.
  \<^item> \<open>Worker_Registry\<close>, \<open>Worker_Process\<close> (\<open>app.py\<close> of the worker): the registry of sessions with its lease deadlines, pending releases and
    retirements; the WebSocket handler of a connection, split at its awaits; heartbeats; and the process, a fold of \<open>proc_step\<close> over any
    interleaving of the handlers, heartbeats, expiry rounds and closes. \<open>Worker_Leases\<close>: what heartbeats carry and what expiry closes.
    \<open>Worker_Shutdown\<close>: the draining heartbeats and the release of leases within the shutdown budget.
  \<^item> \<open>Lease_Promises\<close>, \<open>Route_Exclusion\<close>: what a worker relies on of a store, proved once in the locale of the store, and the fleet: any
    number of workers and one Director, with heartbeats delayed, repeated or lost.
  \<^item> \<open>Client_Media\<close>, \<open>Client_Session\<close>, \<open>Client_State\<close>, \<open>Client_App\<close> (\<open>clients/desktop_reference/src/rva_desktop\<close>): the desktop client's media
    formats, control messages, session state and playback. \<open>Client_Udp\<close>, \<open>Client_Udp_Flow\<close> (\<open>transport/udp.py\<close>): its UDP transport, the sections of
    \<open>receive_audio\<close> between awaits, the probe loop, and the invariant of its reorder buffer.
  \<^item> \<open>Pcm_Chunks\<close>: the locale \<open>chunker\<close> of components that cut a byte stream into packets of one size. \<open>Agent_Output\<close> (\<open>agent.py\<close>, \<open>audio.py\<close>): the audio
    and text outputs of the voice agent, its producer epochs, and the gate on replies to what the agent heard of itself.
  \<^item> \<open>Interop\<close>, \<open>Lockstep\<close>, \<open>Handshake\<close>, \<open>Crossings\<close>: the worker's session and the desktop client together. \<open>in_step\<close> relates their
    states; \<open>joint_step\<close> is one operation of the worker with the delivery of what it sends and of what the client answers.

  \<^bold>\<open>What is shown.\<close> A fence is final and later generations exceed it; the records of responses stay bounded. Under every interleaving
  of the tasks of a connection, once a stop is on its way at most the frame that already waits for the wire is sent over WSS (over UDP one packet of the first
  ones of a segment can follow, which is shown too). Uplink packets are handed over in order, no stale packet is decoded and the queue is bounded; bursts cannot
  outrun the clock, catch-ups included. What the agent says reaches the connection whole, in frames of 20 ms, however it was cut; after an
  interruption the connection refuses what was said before it and nothing else; replies are suppressed exactly for turns that a response overlapped.
  UDP audio is handed over at most once and in order, no nonce is used twice, a forged datagram is inert, and
  a datagram reaches only its own session. Grants round-trip, cannot be forged without the key and are used once; fencing tokens increase, and a
  superseded holder can neither renew nor release; the Director only answers with a worker that fits. Of a device's route, no two workers
  of a fleet hold a session at the same time; a worker's reservations are conserved under every interleaving, its connections end with their leases,
  its heartbeats are valid, and a shutdown gives the leases back within its budget. The client's UDP transport hands over in order,
  at most once, what is authentic and admitted, and does not stall on a gap. Client and worker agree: on
  replay windows, frames, sealed packets, the opening of a session and of a UDP path, and, message by message, on a whole run of responses, texts, packets,
  ends and stops. Where the two disagree or the code deviates from its intent, a theorem exhibits the behaviour.

  \<^bold>\<open>Bounds.\<close> No fuel is used: every loop of the code that is modelled runs over a finite list or has a measure. Limits
  (32 terminal records, 64 remembered cancel requests, 64 tombstones, 32768 bytes of control message, the 64-packet replay
  window) are those of the code. The bounds on generations and sequence numbers are those of the wire (\<open>uint32_max\<close>).

  \<^bold>\<open>Not modelled.\<close> The LiveKit session of the voice agent with its observers and close stages, and the providers, which live inside the LiveKit Agents
  framework and remote services; voice activity detection
  (a native library); the aiohttp and socket plumbing; the worker's provider readiness and its set-up from the environment; metrics and traces;
  the Redis store, whose logic is Lua run by a server outside the repository; connecting, uplink and teardown of the desktop client, which are
  input and output; audio devices; capacity, release and firmware tools.
\<close>

end
